(* ===== verification/GoPrelude.thy ===== *)
theory GoPrelude
  imports Main "HOL-Library.Multiset" "HOL-Library.Sublist"
    "HOL-Library.List_Lexorder" "HOL-Library.Char_ord"
begin

text \<open>
  What the components share: Go's \<open>time.Time\<close> and \<open>time.Duration\<close>, Go maps with the order in
  which a \<open>range\<close> loop visits them, and generic lemmas on lists and maps.

  An instant is the number of nanoseconds since Go's zero time (1 January of year 1, UTC), so the
  zero value of \<open>time.Time\<close> is \<open>0\<close> and \<open>IsZero\<close> is equality with \<open>0\<close>. A duration is a number
  of nanoseconds. The monotonic reading and the location of a \<open>time.Time\<close> are not modelled.
\<close>

named_theorems go_simps \<open>unfoldings of the Go run-time model\<close>
named_theorems inv_intros \<open>preservation of component invariants\<close>

subsection \<open>Time\<close>

type_synonym gtime = int
type_synonym duration = int

definition max_duration :: duration where
  "max_duration = 9223372036854775807"

definition min_duration :: duration where
  "min_duration = - 9223372036854775808"

text \<open>\<open>t.Sub(u)\<close> saturates at the bounds of an \<open>int64\<close>.\<close>

definition time_sub :: "gtime \<Rightarrow> gtime \<Rightarrow> duration" where
  "time_sub t u = max min_duration (min max_duration (t - u))"

definition second_ns :: duration where "second_ns = 1000000000"
definition minute_ns :: duration where "minute_ns = 60 * second_ns"
definition hour_ns :: duration where "hour_ns = 60 * minute_ns"

lemma time_sub_exact:
  "min_duration \<le> t - u \<Longrightarrow> t - u \<le> max_duration \<Longrightarrow> time_sub t u = t - u"
  by (simp add: time_sub_def)

lemma time_sub_le_iff: "min_duration \<le> d \<Longrightarrow> d < max_duration \<Longrightarrow> time_sub t u \<le> d \<longleftrightarrow> t - u \<le> d"
  by (auto simp: time_sub_def)

lemma time_sub_nonneg_iff [simp]: "0 \<le> time_sub t u \<longleftrightarrow> u \<le> t"
  by (auto simp: time_sub_def min_duration_def max_duration_def)

subsection \<open>Go maps\<close>

text \<open>
  A Go map is a partial function; \<open>len(m)\<close> is the number of its keys. A \<open>range\<close> loop visits every
  key once, in an order the language leaves open: the loop's model takes the order as an argument
  \<open>ord\<close>, and the lemmas assume no more of it than \<open>range_order\<close>.
\<close>

definition mlen :: "('k \<rightharpoonup> 'v) \<Rightarrow> nat" where
  "mlen m = card (dom m)"

definition range_order :: "(('k \<rightharpoonup> 'v) \<Rightarrow> 'k list) \<Rightarrow> bool" where
  "range_order ord \<longleftrightarrow> (\<forall>m. finite (dom m) \<longrightarrow> distinct (ord m) \<and> set (ord m) = dom m)"

definition sorted_range :: "('k::linorder \<rightharpoonup> 'v) \<Rightarrow> 'k list" where
  "sorted_range m = sorted_list_of_set (dom m)"

lemma range_orderD:
  assumes "range_order ord" "finite (dom m)"
  shows "distinct (ord m)" "set (ord m) = dom m"
  using assms by (auto simp: range_order_def)

lemma range_order_sorted: "range_order sorted_range"
  by (simp add: range_order_def sorted_range_def)

lemma mlen_empty [simp]: "mlen (\<lambda>_. None) = 0"
  by (simp add: mlen_def)

lemma mlen_upd_old [simp]: "m k \<noteq> None \<Longrightarrow> mlen (m(k \<mapsto> v)) = mlen m"
  by (simp add: mlen_def insert_absorb domIff)

lemma mlen_upd_new [simp]: "finite (dom m) \<Longrightarrow> m k = None \<Longrightarrow> mlen (m(k \<mapsto> v)) = Suc (mlen m)"
  by (simp add: mlen_def domIff)

lemma mlen_upd_le: "finite (dom m) \<Longrightarrow> mlen (m(k \<mapsto> v)) \<le> Suc (mlen m)"
  by (cases "m k") auto

lemma mlen_del: "finite (dom m) \<Longrightarrow> mlen (m(k := None)) = (if m k = None then mlen m else mlen m - 1)"
  by (auto simp: mlen_def domIff card_Diff_singleton_if)

lemma mlen_del_le: "finite (dom m) \<Longrightarrow> mlen (m(k := None)) \<le> mlen m"
  by (simp add: mlen_del)

lemma mlen_pos: "finite (dom m) \<Longrightarrow> m k \<noteq> None \<Longrightarrow> 0 < mlen m"
  by (auto simp: mlen_def card_gt_0_iff)

lemma mlen_mono: "finite (dom m') \<Longrightarrow> dom m \<subseteq> dom m' \<Longrightarrow> mlen m \<le> mlen m'"
  by (simp add: mlen_def card_mono)

lemma dom_upd_None [simp]: "dom (m(k := None)) = dom m - {k}"
  by auto

subsection \<open>Lists\<close>

lemma sorted_dropWhile_less:
  "sorted xs \<Longrightarrow> dropWhile (\<lambda>x. x < (c::'a::linorder)) xs = filter (\<lambda>x. c \<le> x) xs"
proof (induction xs)
  case (Cons x xs)
  show ?case
  proof (cases "x < c")
    case True
    with Cons show ?thesis by simp
  next
    case False
    with Cons.prems have "filter (\<lambda>x. c \<le> x) (x # xs) = x # xs"
      by (auto simp: filter_id_conv)
    with False show ?thesis by simp
  qed
qed simp

lemma last_dropWhile: "dropWhile P xs \<noteq> [] \<Longrightarrow> last (dropWhile P xs) = last xs"
  by (induction xs) (auto split: if_splits)

lemma sorted_last_max: "sorted xs \<Longrightarrow> x \<in> set xs \<Longrightarrow> x \<le> last xs"
proof (induction xs)
  case (Cons y ys)
  then show ?case by (cases ys) auto
qed simp

lemma sorted_hd_min: "sorted xs \<Longrightarrow> x \<in> set xs \<Longrightarrow> hd xs \<le> x"
  by (cases xs) auto

lemma nth_from_end_drop:
  assumes "n \<le> length (drop m xs)" "0 < n"
  shows "drop m xs ! (length (drop m xs) - n) = xs ! (length xs - n)"
  using assms by (simp add: nth_drop)

lemma dropWhile_eq_drop_len: "dropWhile P xs = drop (length (takeWhile P xs)) xs"
  by (metis append_eq_conv_conj takeWhile_dropWhile_id)

text \<open>The list without the element at position \<open>i\<close>: \<open>append(xs[:i], xs[i+1:]...)\<close>.\<close>

definition remove_nth :: "nat \<Rightarrow> 'a list \<Rightarrow> 'a list" where
  "remove_nth i xs = take i xs @ drop (Suc i) xs"

lemma length_remove_nth: "i < length xs \<Longrightarrow> length (remove_nth i xs) = length xs - 1"
  by (simp add: remove_nth_def)

lemma mset_remove_nth: "i < length xs \<Longrightarrow> mset (remove_nth i xs) = mset xs - {# xs ! i #}"
proof -
  assume "i < length xs"
  then have "xs = take i xs @ xs ! i # drop (Suc i) xs"
    by (simp add: id_take_nth_drop)
  then have "mset xs = mset (take i xs) + {# xs ! i #} + mset (drop (Suc i) xs)"
    by (metis add_mset_add_single mset.simps(2) mset_append union_mset_add_mset_left union_mset_add_mset_right)
  then show ?thesis by (simp add: remove_nth_def)
qed

lemma set_remove_nth_subset: "set (remove_nth i xs) \<subseteq> set xs"
  by (auto simp: remove_nth_def dest: in_set_takeD in_set_dropD)

lemma distinct_mset_eq_set:
  "mset xs = mset ys \<Longrightarrow> distinct ys \<Longrightarrow> distinct xs \<and> set xs = set ys"
  by (metis mset_eq_imp_distinct_iff mset_eq_setD)

subsection \<open>Searching and updating lists\<close>

lemma find_sound: "List.find P xs = Some x \<Longrightarrow> x \<in> set xs \<and> P x"
  by (induction xs) (auto split: if_splits)

lemma find_exists: "(\<exists>x \<in> set xs. P x) \<Longrightarrow> \<exists>y. List.find P xs = Some y"
  by (induction xs) auto

lemma set_update_cases: "x \<in> set (xs[i := y]) \<Longrightarrow> x = y \<or> x \<in> set xs"
  using set_update_subset_insert by fastforce

end
