(* ===== verification/GoHeap.thy ===== *)
theory GoHeap
  imports GoPrelude
begin

text \<open>
  Go's \<open>container/heap\<close> on a slice: \<open>up\<close>, \<open>down\<close>, \<open>Push\<close>, \<open>Pop\<close>, \<open>Remove\<close> and \<open>Fix\<close>, written
  as the standard library writes them over the operations \<open>Less\<close>, \<open>Swap\<close>, \<open>Push\<close> and \<open>Pop\<close> of
  the element slice. Two components of the server use it: the login limiter's eviction order
  and the bounded selection of a keyset page.

  The locale \<open>weak_order\<close> is what a caller's \<open>Less\<close> must satisfy. Under it the heap operations keep
  the heap order and the multiset of elements, and the root is a minimal element.
\<close>

subsection \<open>The operations\<close>

definition hswap :: "'a list \<Rightarrow> nat \<Rightarrow> nat \<Rightarrow> 'a list" where
  "hswap xs i j = xs[i := xs ! j, j := xs ! i]"

definition parent :: "nat \<Rightarrow> nat" where
  "parent k = (k - 1) div 2"

function hup :: "('a \<Rightarrow> 'a \<Rightarrow> bool) \<Rightarrow> 'a list \<Rightarrow> nat \<Rightarrow> 'a list" where
  "hup lt xs j =
     (let i = parent j
      in if i = j \<or> \<not> lt (xs ! j) (xs ! i) then xs else hup lt (hswap xs i j) i)"
  by pat_completeness auto
termination
  by (relation "measure (\<lambda>(lt, xs, j). j)") (auto simp: parent_def)

text \<open>\<open>down\<close> also returns the index at which the element came to rest; it moved iff that index grew.\<close>

definition smaller_child :: "('a \<Rightarrow> 'a \<Rightarrow> bool) \<Rightarrow> nat \<Rightarrow> 'a list \<Rightarrow> nat \<Rightarrow> nat" where
  "smaller_child lt n xs j1 = (if j1 + 1 < n \<and> lt (xs ! (j1 + 1)) (xs ! j1) then j1 + 1 else j1)"

function hdown :: "('a \<Rightarrow> 'a \<Rightarrow> bool) \<Rightarrow> nat \<Rightarrow> 'a list \<Rightarrow> nat \<Rightarrow> 'a list \<times> nat" where
  "hdown lt n xs i =
     (let j1 = 2 * i + 1
      in if n \<le> j1 then (xs, i)
         else let j = smaller_child lt n xs j1
              in if \<not> lt (xs ! j) (xs ! i) then (xs, i)
                 else hdown lt n (hswap xs i j) j)"
  by pat_completeness auto
termination
  by (relation "measure (\<lambda>(lt, n, xs, i). n - i)") (auto simp: smaller_child_def)

declare hup.simps [simp del] hdown.simps [simp del]

definition heap_push :: "('a \<Rightarrow> 'a \<Rightarrow> bool) \<Rightarrow> 'a list \<Rightarrow> 'a \<Rightarrow> 'a list" where
  "heap_push lt xs x = hup lt (xs @ [x]) (length xs)"

definition heap_repair :: "('a \<Rightarrow> 'a \<Rightarrow> bool) \<Rightarrow> nat \<Rightarrow> 'a list \<Rightarrow> nat \<Rightarrow> 'a list" where
  "heap_repair lt n xs i =
     (case hdown lt n xs i of (ys, r) \<Rightarrow> if i < r then ys else hup lt ys i)"

definition heap_fix :: "('a \<Rightarrow> 'a \<Rightarrow> bool) \<Rightarrow> 'a list \<Rightarrow> nat \<Rightarrow> 'a list" where
  "heap_fix lt xs i = heap_repair lt (length xs) xs i"

definition heap_remove :: "('a \<Rightarrow> 'a \<Rightarrow> bool) \<Rightarrow> 'a list \<Rightarrow> nat \<Rightarrow> 'a list" where
  "heap_remove lt xs i =
     (let n = length xs - 1
      in butlast (if n \<noteq> i then heap_repair lt n (hswap xs i n) i else xs))"

subsection \<open>What the operations keep, whatever the order\<close>

lemma length_hswap [simp]: "length (hswap xs i j) = length xs"
  by (simp add: hswap_def)

lemma mset_hswap: "i < length xs \<Longrightarrow> j < length xs \<Longrightarrow> mset (hswap xs i j) = mset xs"
  unfolding hswap_def by (metis mset_swap)

lemma nth_hswap:
  "i < length xs \<Longrightarrow> j < length xs \<Longrightarrow> k < length xs \<Longrightarrow>
     hswap xs i j ! k = (if k = i then xs ! j else if k = j then xs ! i else xs ! k)"
  by (auto simp: hswap_def nth_list_update)

lemma parent_less [simp]: "0 < k \<Longrightarrow> parent k < k"
  by (simp add: parent_def)

lemma parent_le [simp]: "parent k \<le> k"
  by (simp add: parent_def)

lemma parent_eq_iff: "0 < k \<Longrightarrow> parent k = i \<longleftrightarrow> k = 2 * i + 1 \<or> k = 2 * i + 2"
  by (auto simp: parent_def)

lemma smaller_child_bounds:
  "j1 < n \<Longrightarrow> smaller_child lt n xs j1 < n \<and> j1 \<le> smaller_child lt n xs j1"
  by (simp add: smaller_child_def)

lemma smaller_child_cases: "smaller_child lt n xs j1 = j1 \<or> smaller_child lt n xs j1 = Suc j1"
  by (simp add: smaller_child_def)

lemma hup_frame:
  "j < length xs \<Longrightarrow> length (hup lt xs j) = length xs \<and> mset (hup lt xs j) = mset xs \<and>
     (\<forall>k. j < k \<longrightarrow> hup lt xs j ! k = xs ! k)"
proof (induction lt xs j rule: hup.induct)
  case (1 lt xs j)
  show ?case
  proof (cases "parent j = j \<or> \<not> lt (xs ! j) (xs ! parent j)")
    case True
    then show ?thesis by (simp add: hup.simps [of lt xs j] Let_def)
  next
    case False
    let ?ys = "hswap xs (parent j) j"
    from False have "parent j < j"
      using parent_le [of j] by linarith
    with 1 False have *: "length (hup lt ?ys (parent j)) = length ?ys"
      "mset (hup lt ?ys (parent j)) = mset ?ys"
      "\<forall>k. parent j < k \<longrightarrow> hup lt ?ys (parent j) ! k = ?ys ! k"
      by auto
    have "hup lt xs j ! k = xs ! k" if "j < k" for k
      using that False * \<open>parent j < j\<close>
      by (simp add: hup.simps [of lt xs j] Let_def hswap_def)
    moreover have "length (hup lt xs j) = length xs" "mset (hup lt xs j) = mset xs"
      using False * \<open>parent j < j\<close> "1.prems"
      by (simp_all add: hup.simps [of lt xs j] Let_def mset_hswap)
    ultimately show ?thesis by blast
  qed
qed

lemma hdown_frame:
  "n \<le> length xs \<Longrightarrow> hdown lt n xs i = (ys, r) \<Longrightarrow>
     length ys = length xs \<and> mset ys = mset xs \<and> (\<forall>k. n \<le> k \<longrightarrow> ys ! k = xs ! k) \<and> i \<le> r"
proof (induction lt n xs i arbitrary: ys r rule: hdown.induct)
  case (1 lt n xs i)
  let ?j = "smaller_child lt n xs (2 * i + 1)"
  show ?case
  proof (cases "n \<le> 2 * i + 1 \<or> \<not> lt (xs ! ?j) (xs ! i)")
    case True
    with "1.prems" show ?thesis
      by (auto simp: hdown.simps [of lt n xs i] Let_def split: if_splits)
  next
    case False
    then have j: "?j < n" "i < ?j"
      using smaller_child_bounds [of "2 * i + 1" n lt xs] by auto
    from False "1.prems" have "hdown lt n (hswap xs i ?j) ?j = (ys, r)"
      by (simp add: hdown.simps [of lt n xs i] Let_def)
    with False 1 have *: "length ys = length xs" "mset ys = mset (hswap xs i ?j)"
      "\<forall>k. n \<le> k \<longrightarrow> ys ! k = hswap xs i ?j ! k" "?j \<le> r"
      by auto
    have "ys ! k = xs ! k" if "n \<le> k" for k
      using that * j by (simp add: hswap_def)
    with * j "1.prems" show ?thesis by (simp add: mset_hswap)
  qed
qed

lemma heap_repair_frame:
  assumes "n \<le> length xs" "i < n"
  shows "length (heap_repair lt n xs i) = length xs"
    and "mset (heap_repair lt n xs i) = mset xs"
    and "n \<le> k \<Longrightarrow> heap_repair lt n xs i ! k = xs ! k"
proof -
  obtain ys r where d: "hdown lt n xs i = (ys, r)" by fastforce
  note f = hdown_frame [OF assms(1) d]
  then have "i < length ys" using assms by simp
  note g = hup_frame [OF this, of lt]
  from d f g show "length (heap_repair lt n xs i) = length xs"
    "mset (heap_repair lt n xs i) = mset xs"
    by (auto simp: heap_repair_def)
  show "heap_repair lt n xs i ! k = xs ! k" if "n \<le> k"
    using d f g that assms(2) by (auto simp: heap_repair_def)
qed

lemma mset_heap_push [simp]: "mset (heap_push lt xs x) = add_mset x (mset xs)"
  using hup_frame [of "length xs" "xs @ [x]" lt] by (simp add: heap_push_def)

lemma mset_heap_fix [simp]: "i < length xs \<Longrightarrow> mset (heap_fix lt xs i) = mset xs"
  by (simp add: heap_fix_def heap_repair_frame)

lemma mset_butlast_last: "xs \<noteq> [] \<Longrightarrow> mset (butlast xs) = mset xs - {# last xs #}"
  by (induction xs rule: rev_induct) auto

lemma mset_heap_remove [simp]:
  assumes "i < length xs"
  shows "mset (heap_remove lt xs i) = mset xs - {# xs ! i #}"
proof (cases "length xs - 1 = i")
  case True
  with assms have "xs \<noteq> []" by auto
  then have "last xs = xs ! i" using True by (simp add: last_conv_nth)
  moreover have "xs \<noteq> []" using assms by auto
  ultimately show ?thesis using True by (simp add: heap_remove_def mset_butlast_last)
next
  case False
  let ?n = "length xs - 1" let ?ys = "heap_repair lt ?n (hswap xs i ?n) i"
  from assms False have i: "i < ?n" by simp
  have len: "length ?ys = length xs" and ms: "mset ?ys = mset xs"
    using i assms by (simp_all add: heap_repair_frame mset_hswap)
  have "?ys ! ?n = hswap xs i ?n ! ?n"
    using i by (intro heap_repair_frame(3)) auto
  then have "?ys ! (length ?ys - 1) = xs ! i" using len i by (simp add: nth_hswap)
  moreover have "?ys \<noteq> []" using len assms by auto
  ultimately have "last ?ys = xs ! i" "?ys \<noteq> []" by (simp_all add: last_conv_nth)
  with False ms show ?thesis
    by (simp add: heap_remove_def Let_def mset_butlast_last)
qed

subsection \<open>Heap order\<close>

text \<open>
  \<open>is_heap lt n xs\<close>: in the first \<open>n\<close> elements no element is less than its parent.
  \<open>broken lt n xs i\<close>: the same, except that the element at \<open>i\<close> may be out of order with its
  parent and with its children; its children are in order with its parent.
\<close>

definition heap_ok :: "('a \<Rightarrow> 'a \<Rightarrow> bool) \<Rightarrow> 'a list \<Rightarrow> nat \<Rightarrow> bool" where
  "heap_ok lt xs k \<longleftrightarrow> \<not> lt (xs ! k) (xs ! parent k)"

definition is_heap :: "('a \<Rightarrow> 'a \<Rightarrow> bool) \<Rightarrow> nat \<Rightarrow> 'a list \<Rightarrow> bool" where
  "is_heap lt n xs \<longleftrightarrow> (\<forall>k < n. 0 < k \<longrightarrow> heap_ok lt xs k)"

definition broken :: "('a \<Rightarrow> 'a \<Rightarrow> bool) \<Rightarrow> nat \<Rightarrow> 'a list \<Rightarrow> nat \<Rightarrow> bool" where
  "broken lt n xs i \<longleftrightarrow>
     (\<forall>k < n. 0 < k \<longrightarrow> k \<noteq> i \<longrightarrow> parent k \<noteq> i \<longrightarrow> heap_ok lt xs k) \<and>
     (\<forall>k < n. 0 < k \<longrightarrow> 0 < i \<longrightarrow> parent k = i \<longrightarrow> \<not> lt (xs ! k) (xs ! parent i))"

definition children_ok :: "('a \<Rightarrow> 'a \<Rightarrow> bool) \<Rightarrow> nat \<Rightarrow> 'a list \<Rightarrow> nat \<Rightarrow> bool" where
  "children_ok lt n xs i \<longleftrightarrow> (\<forall>k < n. 0 < k \<longrightarrow> parent k = i \<longrightarrow> heap_ok lt xs k)"

lemma is_heap_Nil [simp]: "is_heap lt 0 xs"
  by (simp add: is_heap_def)

lemma is_heap_le: "is_heap lt n xs \<Longrightarrow> m \<le> n \<Longrightarrow> is_heap lt m xs"
  by (simp add: is_heap_def)

lemma is_heap_cong:
  assumes "\<And>a b. a \<in> set xs \<Longrightarrow> b \<in> set xs \<Longrightarrow> lt' a b = lt a b" "n \<le> length xs"
  shows "is_heap lt' n xs = is_heap lt n xs"
proof -
  have "heap_ok lt' xs k = heap_ok lt xs k" if "k < n" "0 < k" for k
  proof -
    have "k < length xs" "parent k < length xs"
      using that assms(2) parent_le [of k] by linarith+
    then have "xs ! k \<in> set xs" "xs ! parent k \<in> set xs" by (simp_all only: nth_mem)
    then show ?thesis by (simp add: heap_ok_def assms(1))
  qed
  then show ?thesis by (auto simp: is_heap_def)
qed

lemma heap_ok_butlast: "k < length xs - 1 \<Longrightarrow> heap_ok lt (butlast xs) k = heap_ok lt xs k"
proof -
  assume k: "k < length xs - 1"
  then have "parent k < length xs - 1" using parent_le [of k] by linarith
  with k show ?thesis by (simp add: heap_ok_def nth_butlast)
qed

lemma is_heap_butlast: "is_heap lt (length xs - 1) xs \<Longrightarrow> is_heap lt (length xs - 1) (butlast xs)"
  by (simp add: is_heap_def heap_ok_butlast)

locale weak_order =
  fixes lt :: "'a \<Rightarrow> 'a \<Rightarrow> bool"
  assumes asym: "lt x y \<Longrightarrow> \<not> lt y x"
    and neg_trans: "\<not> lt x y \<Longrightarrow> \<not> lt y z \<Longrightarrow> \<not> lt x z"
begin

lemma irrefl [simp]: "\<not> lt x x"
  using asym by blast

lemma root_minimal:
  assumes "is_heap lt n xs" "k < n"
  shows "\<not> lt (xs ! k) (xs ! 0)"
  using assms(2)
proof (induction k rule: less_induct)
  case (less k)
  show ?case
  proof (cases "k = 0")
    case False
    then have "\<not> lt (xs ! parent k) (xs ! 0)"
      using less by (meson gr0I le_less_trans parent_le parent_less)
    moreover have "\<not> lt (xs ! k) (xs ! parent k)"
      using assms(1) less.prems False by (simp add: is_heap_def heap_ok_def)
    ultimately show ?thesis using neg_trans by blast
  qed simp
qed

lemma hup_heap:
  assumes "n \<le> length xs" "j < n" "broken lt n xs j" "children_ok lt n xs j"
  shows "is_heap lt n (hup lt xs j)"
  using assms
proof (induction j arbitrary: xs rule: less_induct)
  case (less j)
  let ?i = "parent j"
  show ?case
  proof (cases "?i = j \<or> \<not> lt (xs ! j) (xs ! ?i)")
    case True
    have "heap_ok lt xs k" if "k < n" "0 < k" for k
    proof (cases "k = j")
      case True
      with \<open>parent j = j \<or> \<not> lt (xs ! j) (xs ! parent j)\<close> that show ?thesis
        using parent_less [of k] by (auto simp: heap_ok_def)
    next
      case False
      with that less.prems show ?thesis
        by (cases "parent k = j") (auto simp: broken_def children_ok_def)
    qed
    then have "is_heap lt n xs" by (simp add: is_heap_def)
    with True show ?thesis by (simp add: hup.simps [of lt xs j] Let_def)
  next
    case False
    let ?ys = "hswap xs ?i j"
    from False have ij: "?i < j" "0 < j" using parent_le [of j] by (auto simp: parent_def)
    have lt: "lt (xs ! j) (xs ! ?i)" using False by simp
    have nth: "?ys ! k = (if k = ?i then xs ! j else if k = j then xs ! ?i else xs ! k)"
      if "k < n" for k
    proof -
      have "?i < length xs" "j < length xs" "k < length xs" using that ij less.prems(1,2) by linarith+
      then show ?thesis by (auto simp: nth_hswap)
    qed
    have old: "\<not> lt (xs ! k) (xs ! parent k)"
      if "k < n" "0 < k" "k \<noteq> j" for k
      using that less.prems(3,4) by (cases "parent k = j") (auto simp: broken_def children_ok_def heap_ok_def)
    have grand: "\<not> lt (xs ! k) (xs ! ?i)" if "k < n" "0 < k" "parent k = j" for k
      using that less.prems(3) ij by (auto simp: broken_def)
    have child: "\<not> lt (?ys ! k) (?ys ! parent k)"
      if k: "k < n" "0 < k" "k \<noteq> ?i" for k
    proof -
      have pk: "parent k < n" "parent k < k" using k parent_less [of k] by linarith+
      consider "k = j" | "k \<noteq> j" "parent k = ?i" | "k \<noteq> j" "parent k = j" | "k \<noteq> j" "parent k \<noteq> ?i" "parent k \<noteq> j"
        by blast
      then show ?thesis
      proof cases
        case 1
        with ij have "?ys ! k = xs ! ?i" "?ys ! parent k = xs ! j"
          using nth [OF k(1)] nth [OF pk(1)] by auto
        then show ?thesis using asym [OF lt] by simp
      next
        case 2
        then have "\<not> lt (xs ! k) (xs ! ?i)" using old [of k] k by simp
        with 2 k pk show ?thesis using neg_trans asym [OF lt] by (auto simp: nth)
      next
        case 3
        with k ij have "?ys ! k = xs ! k" "?ys ! parent k = xs ! ?i"
          using nth [OF k(1)] nth [OF pk(1)] by auto
        then show ?thesis using grand [of k] 3 k by simp
      next
        case 4
        with k pk show ?thesis using old [of k] by (simp add: nth)
      qed
    qed
    have "\<not> lt (?ys ! k) (?ys ! parent ?i)"
      if k: "k < n" "0 < k" "0 < ?i" "parent k = ?i" for k
    proof -
      have p: "parent ?i < ?i" using k by simp
      have up: "\<not> lt (xs ! ?i) (xs ! parent ?i)"
        using old [of ?i] k ij less.prems(2) by simp
      have "\<not> lt (?ys ! k) (xs ! parent ?i)"
      proof (cases "k = j")
        case True
        with up k ij show ?thesis by (simp add: nth)
      next
        case False
        then have "\<not> lt (xs ! k) (xs ! ?i)" using old [of k] k by simp
        with False k up show ?thesis using neg_trans parent_less [of k] by (simp add: nth)
      qed
      moreover have pp: "parent ?i < n" using p ij less.prems(2) by linarith
      moreover have "?ys ! parent ?i = xs ! parent ?i" using nth [OF pp] p ij by auto
      ultimately show ?thesis by simp
    qed
    moreover have "k \<noteq> ?i" if "0 < k" "parent k = ?i" for k
      using that parent_less [of k] by auto
    ultimately have "broken lt n ?ys ?i" "children_ok lt n ?ys ?i"
      using child unfolding broken_def children_ok_def heap_ok_def by blast+
    with less.IH [of ?i ?ys] less.prems ij have "is_heap lt n (hup lt ?ys ?i)" by simp
    with False show ?thesis by (simp add: hup.simps [of lt xs j] Let_def)
  qed
qed

lemma smaller_child_min:
  assumes "2 * i + 1 < n" "k < n" "0 < k" "parent k = i"
  shows "\<not> lt (xs ! k) (xs ! smaller_child lt n xs (2 * i + 1))"
  using assms asym by (auto simp: smaller_child_def parent_eq_iff)

lemma hdown_step:
  assumes n: "n \<le> length xs" and b: "broken lt n xs i" and i: "2 * i + 1 < n"
    and j: "j = smaller_child lt n xs (2 * i + 1)" and lt: "lt (xs ! j) (xs ! i)"
  shows "broken lt n (hswap xs i j) j" and "heap_ok lt (hswap xs i j) j"
    and "0 < i \<Longrightarrow> heap_ok lt (hswap xs i j) i"
proof -
  have jn: "j < n" "i < j" "parent j = i" "0 < j"
    using i smaller_child_bounds [of "2 * i + 1" n lt xs] smaller_child_cases [of lt n xs "2 * i + 1"] j
    by (auto simp: parent_def)
  let ?ys = "hswap xs i j"
  have nth: "?ys ! k = (if k = i then xs ! j else if k = j then xs ! i else xs ! k)"
    if "k < n" for k
    using that jn n by (simp add: nth_hswap)
  show ok_j: "heap_ok lt ?ys j"
    using jn asym [OF lt] by (simp add: heap_ok_def nth)
  show ok_i: "heap_ok lt ?ys i" if "0 < i"
  proof -
    have "parent i < i" using that by simp
    moreover have "\<not> lt (xs ! j) (xs ! parent i)"
      using b jn that by (auto simp: broken_def)
    ultimately show ?thesis using jn by (simp add: heap_ok_def nth)
  qed
  have "heap_ok lt ?ys k" if k: "k < n" "0 < k" "k \<noteq> j" "parent k \<noteq> j" for k
  proof (cases "k = i")
    case True
    with ok_i k show ?thesis by simp
  next
    case False
    have pk: "parent k < n" using k parent_less [of k] by linarith
    show ?thesis
    proof (cases "parent k = i")
      case True
      then have "?ys ! k = xs ! k" "?ys ! parent k = xs ! j"
        using nth [OF k(1)] nth [OF pk] False k by auto
      then show ?thesis
        using smaller_child_min [OF i k(1,2) True, of xs] j by (simp add: heap_ok_def)
    next
      case neq: False
      then have "heap_ok lt xs k" using b k False by (simp add: broken_def)
      with neq False k pk show ?thesis by (simp add: heap_ok_def nth)
    qed
  qed
  moreover have "\<not> lt (?ys ! k) (?ys ! parent j)" if k: "k < n" "0 < k" "parent k = j" for k
  proof -
    have "k \<noteq> i" "k \<noteq> j" "j < k" using k jn parent_less [of k] by auto
    moreover have "heap_ok lt xs k"
      using b k jn calculation by (auto simp: broken_def)
    ultimately show ?thesis using k jn by (simp add: heap_ok_def nth)
  qed
  ultimately show "broken lt n ?ys j" by (simp add: broken_def)
qed

lemma hdown_heap:
  assumes "n \<le> length xs" "i < n" "broken lt n xs i" "hdown lt n xs i = (ys, r)"
  shows "(r = i \<and> ys = xs \<and> children_ok lt n xs i) \<or> (i < r \<and> is_heap lt n ys)"
  using assms
proof (induction "n - i" arbitrary: xs i ys r rule: less_induct)
  case (less i xs)
  let ?j = "smaller_child lt n xs (2 * i + 1)"
  show ?case
  proof (cases "n \<le> 2 * i + 1 \<or> \<not> lt (xs ! ?j) (xs ! i)")
    case True
    have "children_ok lt n xs i"
      unfolding children_ok_def
    proof (intro allI impI)
      fix k assume k: "k < n" "0 < k" "parent k = i"
      then have "2 * i + 1 < n \<or> n = 2 * i + 1 \<and> False" by (auto simp: parent_eq_iff)
      then have i: "2 * i + 1 < n" by simp
      with True have "\<not> lt (xs ! ?j) (xs ! i)" by simp
      then show "heap_ok lt xs k"
        using smaller_child_min [OF i k] k neg_trans by (auto simp: heap_ok_def)
    qed
    moreover have "ys = xs" "r = i"
      using True less.prems(4) by (auto simp: hdown.simps [of lt n xs i] Let_def split: if_splits)
    ultimately show ?thesis by simp
  next
    case False
    let ?zs = "hswap xs i ?j"
    have i: "2 * i + 1 < n" and lt: "lt (xs ! ?j) (xs ! i)" using False by auto
    note step = hdown_step [OF less.prems(1,3) i refl lt]
    have j: "?j < n" "i < ?j" using smaller_child_bounds [of "2 * i + 1" n lt xs] i by auto
    have rec: "hdown lt n ?zs ?j = (ys, r)"
      using False less.prems(4) by (simp add: hdown.simps [of lt n xs i] Let_def)
    have "(r = ?j \<and> ys = ?zs \<and> children_ok lt n ?zs ?j) \<or> (?j < r \<and> is_heap lt n ys)"
      using less.hyps [of ?j ?zs] less.prems(1) j step(1) rec by auto
    then show ?thesis
    proof
      assume a: "r = ?j \<and> ys = ?zs \<and> children_ok lt n ?zs ?j"
      have "heap_ok lt ?zs k" if "k < n" "0 < k" for k
        using that a step by (cases "k = ?j"; cases "parent k = ?j") (auto simp: broken_def children_ok_def)
      with a j show ?thesis by (simp add: is_heap_def)
    qed (use j in auto)
  qed
qed

lemma heap_repair_heap:
  assumes "n \<le> length xs" "i < n" "broken lt n xs i"
  shows "is_heap lt n (heap_repair lt n xs i)"
proof -
  obtain ys r where d: "hdown lt n xs i = (ys, r)" by fastforce
  from hdown_heap [OF assms d] show ?thesis
  proof
    assume "r = i \<and> ys = xs \<and> children_ok lt n xs i"
    then show ?thesis using d assms hup_heap by (simp add: heap_repair_def)
  qed (use d in \<open>simp add: heap_repair_def\<close>)
qed

lemma heap_push_heap:
  assumes "is_heap lt (length xs) xs"
  shows "is_heap lt (length (heap_push lt xs x)) (heap_push lt xs x)"
proof -
  let ?n = "Suc (length xs)" let ?ys = "xs @ [x]"
  have ok: "heap_ok lt ?ys k" if "k < length xs" "0 < k" for k
    using that assms order.strict_trans [OF parent_less that(1)]
    by (simp add: heap_ok_def is_heap_def nth_append)
  have none: "parent k \<noteq> length xs" if "k < ?n" "0 < k" for k
    using that parent_less [of k] by linarith
  have "broken lt ?n ?ys (length xs)" "children_ok lt ?n ?ys (length xs)"
    using ok none by (auto simp: broken_def children_ok_def)
  moreover have "length (heap_push lt xs x) = ?n"
    by (metis mset_heap_push size_add_mset size_mset)
  ultimately show ?thesis
    using hup_heap [of ?n ?ys "length xs"] by (simp add: heap_push_def)
qed

lemma heap_fix_heap:
  assumes "i < length xs" "broken lt (length xs) xs i"
  shows "is_heap lt (length (heap_fix lt xs i)) (heap_fix lt xs i)"
  using heap_repair_heap [OF order_refl assms] heap_repair_frame(1) [OF order_refl assms(1)]
  by (simp add: heap_fix_def)

lemma heap_repair_butlast:
  assumes "length xs = Suc n" "i < n" "broken lt n xs i"
  shows "is_heap lt n (butlast (heap_repair lt n xs i))"
proof -
  have "length (heap_repair lt n xs i) = Suc n"
    using assms by (simp add: heap_repair_frame)
  then show ?thesis
    using is_heap_butlast [of lt "heap_repair lt n xs i"] heap_repair_heap [of n xs i] assms by simp
qed

lemma length_heap_remove: "i < length xs \<Longrightarrow> length (heap_remove lt xs i) = length xs - 1"
  by (metis mset_heap_remove nth_mem set_mset_mset size_Diff_singleton size_mset)

text \<open>
  Removal is correct as soon as the slice is in order except at the removed element, so it also
  serves a caller that changed that element's rank first.
\<close>

lemma heap_remove_heap:
  assumes i: "i < length xs" and b: "broken lt (length xs) xs i"
  shows "is_heap lt (length (heap_remove lt xs i)) (heap_remove lt xs i)"
proof (cases "length xs - 1 = i")
  case True
  have "is_heap lt (length xs - 1) xs"
    unfolding is_heap_def
  proof (intro allI impI)
    fix k assume k: "k < length xs - 1" "0 < k"
    then have "k \<noteq> i" "parent k \<noteq> i" using True parent_less [of k] by linarith+
    then show "heap_ok lt xs k" using b k by (auto simp: broken_def)
  qed
  with True show ?thesis
    using is_heap_butlast [of lt xs] by (simp add: heap_remove_def)
next
  case False
  let ?n = "length xs - 1" let ?ys = "hswap xs i ?n"
  have n: "i < ?n" "length xs = Suc ?n" using i False by auto
  have nth: "?ys ! k = (if k = i then xs ! ?n else xs ! k)" if "k < ?n" for k
    using that n by (simp add: nth_hswap)
  have "heap_ok lt ?ys k" if k: "k < ?n" "0 < k" "k \<noteq> i" "parent k \<noteq> i" for k
  proof -
    have pk: "parent k < ?n" using k parent_less [of k] by linarith
    then have "?ys ! k = xs ! k" "?ys ! parent k = xs ! parent k"
      using nth [OF k(1)] nth [OF pk] k by auto
    moreover have "heap_ok lt xs k" using b k by (simp add: broken_def)
    ultimately show ?thesis by (simp add: heap_ok_def)
  qed
  moreover have "\<not> lt (?ys ! k) (?ys ! parent i)" if k: "k < ?n" "0 < k" "0 < i" "parent k = i" for k
  proof -
    have pi: "k \<noteq> i" "parent i < i" "parent i < ?n" using k n parent_less [of k] parent_less [of i] by linarith+
    then have "?ys ! k = xs ! k" "?ys ! parent i = xs ! parent i"
      using nth [OF k(1)] nth [OF pi(3)] by auto
    moreover have "\<not> lt (xs ! k) (xs ! parent i)" using b k by (auto simp: broken_def)
    ultimately show ?thesis by simp
  qed
  ultimately have "broken lt ?n ?ys i" by (simp add: broken_def)
  then have "is_heap lt ?n (butlast (heap_repair lt ?n ?ys i))"
    using heap_repair_butlast n by simp
  with False show ?thesis
    using length_heap_remove [OF i] by (simp add: heap_remove_def Let_def)
qed

lemma is_heap_broken:
  assumes "is_heap lt n xs"
  shows "broken lt n xs i"
proof -
  have "\<not> lt (xs ! k) (xs ! parent i)" if k: "k < n" "0 < k" "0 < i" "parent k = i" for k
  proof -
    have "i < n" using k parent_less [of k] by linarith
    then have "\<not> lt (xs ! i) (xs ! parent i)" "\<not> lt (xs ! k) (xs ! i)"
      using assms k by (auto simp: is_heap_def heap_ok_def)
    then show ?thesis using neg_trans by blast
  qed
  with assms show ?thesis by (auto simp: broken_def is_heap_def)
qed

end

text \<open>
  Changing the rank of one element \<open>x\<close> leaves the slice in order except where \<open>x\<close> sits.
\<close>

lemma broken_rerank:
  assumes wo: "weak_order lt" and h: "is_heap lt (length xs) xs"
    and d: "distinct xs" and i: "i < length xs"
    and same: "\<And>a b. a \<noteq> xs ! i \<Longrightarrow> b \<noteq> xs ! i \<Longrightarrow> lt' a b = lt a b"
  shows "broken lt' (length xs) xs i"
proof -
  have ne: "xs ! k \<noteq> xs ! i" if "k < length xs" "k \<noteq> i" for k
    using that d i by (simp add: nth_eq_iff_index_eq)
  have b: "broken lt (length xs) xs i" by (rule weak_order.is_heap_broken [OF wo h])
  have "heap_ok lt' xs k" if k: "k < length xs" "0 < k" "k \<noteq> i" "parent k \<noteq> i" for k
  proof -
    have "parent k < length xs" using k parent_less [of k] by linarith
    then show ?thesis using k b ne [of k] ne [of "parent k"] same by (simp add: broken_def heap_ok_def)
  qed
  moreover have "\<not> lt' (xs ! k) (xs ! parent i)"
    if k: "k < length xs" "0 < k" "0 < i" "parent k = i" for k
  proof -
    have ki: "k \<noteq> i" using k parent_less [of k] by auto
    have pi: "parent i < i" using k by simp
    then have "parent i < length xs" using i by linarith
    then have "xs ! k \<noteq> xs ! i" "xs ! parent i \<noteq> xs ! i" using ne k ki pi by auto
    moreover have "\<not> lt (xs ! k) (xs ! parent i)" using b k by (auto simp: broken_def)
    ultimately show ?thesis using same by simp
  qed
  ultimately show ?thesis by (simp add: broken_def)
qed

end
