(* ===== verification/LoginLimiter.thy ===== *)
theory LoginLimiter
  imports GoHeap "HOL-Library.Word" "HOL-Library.Signed_Division"
begin

text \<open>
  The bounded per-source failure limiter of \<open>httpapi/login_limiter.go\<close>. An entry is a source's
  recorded failures, oldest first. \<open>hidx\<close> is the entry's position in the eviction heap and
  \<open>selem\<close> its place in the last-failure list; both are back pointers that \<open>Swap\<close>, \<open>Push\<close>, \<open>Pop\<close> and
  \<open>list.List\<close> maintain, so the model keeps the heap and the list as lists of keys and reads them
  from there (\<open>hidx < 0\<close> is "not in the heap", \<open>selem == nil\<close> is "not in the list").

  The limiter's map is ranged over by the sweep only; \<open>ord\<close> is the order of that loop. The clock
  reading is the argument \<open>now\<close>.
\<close>

unbundle bit_operations_syntax

subsection \<open>State\<close>

record limiter_entry =
  le_key :: string
  le_fails :: "gtime list"

record login_limiter =
  ll_limit :: int
  ll_window :: duration
  ll_maxEntries :: int
  ll_failures :: "string \<rightharpoonup> limiter_entry"
  ll_evictable :: "string list"
  ll_seen :: "string list"
  ll_nextSweep :: gtime
  ll_nextUnblock :: gtime

definition defaultLoginLimiterMaxEntries :: int where
  "defaultLoginLimiterMaxEntries = 10000"

definition entry_last :: "limiter_entry \<Rightarrow> gtime" where
  "entry_last e = last (le_fails e)"

definition entry_less :: "(string \<rightharpoonup> limiter_entry) \<Rightarrow> string \<Rightarrow> string \<Rightarrow> bool" where
  "entry_less fs a b =
     (let ea = the (fs a); eb = the (fs b)
      in if length (le_fails ea) \<noteq> length (le_fails eb)
         then length (le_fails ea) < length (le_fails eb)
         else entry_last ea < entry_last eb)"

definition newBoundedLoginLimiter :: "int \<Rightarrow> duration \<Rightarrow> int \<Rightarrow> login_limiter" where
  "newBoundedLoginLimiter limit window maxEntries =
     \<lparr> ll_limit = limit, ll_window = window,
       ll_maxEntries = (if maxEntries \<le> 0 then defaultLoginLimiterMaxEntries else maxEntries),
       ll_failures = Map.empty, ll_evictable = [], ll_seen = [],
       ll_nextSweep = 0, ll_nextUnblock = 0 \<rparr>"

definition newLoginLimiter :: "int \<Rightarrow> duration \<Rightarrow> login_limiter" where
  "newLoginLimiter limit window = newBoundedLoginLimiter limit window defaultLoginLimiterMaxEntries"

subsection \<open>The key of a source\<close>

text \<open>
  \<open>net/netip\<close>: an address is a 4-byte or a 16-byte value, the latter with a zone. Parsing and
  printing are the standard library's and are arguments of \<open>limiterKey\<close>.
\<close>

datatype netip_addr = IP4 "32 word" | IP6 "128 word" string

fun with_zone :: "string \<Rightarrow> netip_addr \<Rightarrow> netip_addr" where
  "with_zone z (IP4 w) = IP4 w"
| "with_zone z (IP6 w _) = IP6 w z"

fun unmap :: "netip_addr \<Rightarrow> netip_addr" where
  "unmap (IP4 w) = IP4 w"
| "unmap (IP6 w z) = (if drop_bit 32 w = 0xffff then IP4 (ucast w) else IP6 w z)"

definition masked64 :: "128 word \<Rightarrow> 128 word" where
  "masked64 w = w AND NOT (mask 64)"

definition limiterKey :: "(string \<Rightarrow> netip_addr option) \<Rightarrow> (netip_addr \<Rightarrow> string) \<Rightarrow> string \<Rightarrow> string" where
  "limiterKey parse_addr show_addr ip =
     (case parse_addr ip of
        None \<Rightarrow> ip
      | Some a \<Rightarrow>
          (case unmap (with_zone '''' a) of
             IP6 w _ \<Rightarrow> show_addr (IP6 (masked64 w) '''') @ ''/64''
           | IP4 w \<Rightarrow> show_addr (IP4 w)))"

subsection \<open>The table\<close>

definition index_of :: "'a \<Rightarrow> 'a list \<Rightarrow> nat" where
  "index_of x xs = length (takeWhile (\<lambda>y. y \<noteq> x) xs)"

text \<open>\<open>remove\<close> deletes an entry from the table, the heap and the ordered list.\<close>

definition heap_without :: "(string \<rightharpoonup> limiter_entry) \<Rightarrow> string list \<Rightarrow> string \<Rightarrow> string list" where
  "heap_without fs ev k =
     (if k \<in> set ev then heap_remove (entry_less fs) ev (index_of k ev) else ev)"

definition ll_remove :: "login_limiter \<Rightarrow> string \<Rightarrow> login_limiter" where
  "ll_remove l k =
     l\<lparr> ll_evictable := heap_without (ll_failures l) (ll_evictable l) k,
        ll_seen := remove1 k (ll_seen l),
        ll_failures := (ll_failures l)(k := None) \<rparr>"

definition ll_refile :: "login_limiter \<Rightarrow> string \<Rightarrow> login_limiter" where
  "ll_refile l k =
     (let fs = ll_failures l; ev = ll_evictable l; fails = le_fails (the (fs k)) in
      if int (length fails) < ll_limit l then
        l\<lparr> ll_evictable := (if k \<notin> set ev then heap_push (entry_less fs) ev k
                             else heap_fix (entry_less fs) ev (index_of k ev)) \<rparr>
      else
        (let unblock = fails ! (length fails - nat (ll_limit l)) + ll_window l in
         l\<lparr> ll_evictable := heap_without fs ev k,
            ll_nextUnblock := (if ll_nextUnblock l = 0 \<or> unblock < ll_nextUnblock l
                               then unblock else ll_nextUnblock l) \<rparr>))"

definition ll_prune :: "login_limiter \<Rightarrow> string \<Rightarrow> gtime \<Rightarrow> login_limiter" where
  "ll_prune l k now =
     (let cutoff = now - ll_window l;
          e = the (ll_failures l k);
          rest = dropWhile (\<lambda>t. t < cutoff) (le_fails e)
      in if rest = [] then ll_remove l k
         else ll_refile (l\<lparr> ll_failures := (ll_failures l)(k \<mapsto> e\<lparr> le_fails := rest \<rparr>) \<rparr>) k)"

definition ll_sweep ::
    "((string \<rightharpoonup> limiter_entry) \<Rightarrow> string list) \<Rightarrow> login_limiter \<Rightarrow> gtime \<Rightarrow> login_limiter" where
  "ll_sweep ord l now =
     fold (\<lambda>k l. ll_prune l k now) (ord (ll_failures l)) (l\<lparr> ll_nextUnblock := 0 \<rparr>)"

definition ll_maybeSweep ::
    "((string \<rightharpoonup> limiter_entry) \<Rightarrow> string list) \<Rightarrow> login_limiter \<Rightarrow> gtime \<Rightarrow> login_limiter" where
  "ll_maybeSweep ord l now =
     (if now < ll_nextSweep l then l
      else (ll_sweep ord l now)\<lparr> ll_nextSweep := now + ll_window l \<rparr>)"

function ll_dropExpired :: "login_limiter \<Rightarrow> gtime \<Rightarrow> login_limiter" where
  "ll_dropExpired l now =
     (case ll_seen l of
        [] \<Rightarrow> l
      | k # _ \<Rightarrow>
          if \<not> entry_last (the (ll_failures l k)) < now - ll_window l then l
          else ll_dropExpired (ll_remove l k) now)"
  by pat_completeness auto
termination
  by (relation "measure (\<lambda>(l, now). length (ll_seen l))") (auto simp: ll_remove_def)

declare ll_dropExpired.simps [simp del]

text \<open>The source tests the free slot three times before it drops expired entries; so does the model.\<close>

definition has_slot :: "login_limiter \<Rightarrow> bool" where
  "has_slot l \<longleftrightarrow> int (mlen (ll_failures l)) < ll_maxEntries l"

definition ll_makeRoom ::
    "((string \<rightharpoonup> limiter_entry) \<Rightarrow> string list) \<Rightarrow> login_limiter \<Rightarrow> gtime \<Rightarrow> bool \<Rightarrow> login_limiter \<times> bool" where
  "ll_makeRoom ord l now evict =
     (if has_slot l then (l, True)
      else if has_slot l then (l, True)
      else if has_slot l then (l, True)
      else
        (let l1 = ll_dropExpired l now in
         if has_slot l1 then (l1, True)
         else
           (let refresh = (ll_evictable l1 = [] \<and> ll_nextUnblock l1 < now);
                l2 = (if refresh then ll_sweep ord l1 now else l1)
            in if refresh \<and> has_slot l2 then (l2, True)
               else if ll_evictable l2 = [] then (l2, False)
               else (if evict then ll_remove l2 (hd (ll_evictable l2)) else l2, True))))"

subsection \<open>The operations\<close>

definition ll_allow ::
    "(string \<Rightarrow> string) \<Rightarrow> ((string \<rightharpoonup> limiter_entry) \<Rightarrow> string list) \<Rightarrow>
     login_limiter \<Rightarrow> gtime \<Rightarrow> string \<Rightarrow> login_limiter \<times> bool \<times> duration" where
  "ll_allow key_of ord l now ip =
     (if ll_limit l \<le> 0 then (l, True, 0)
      else
        (let key = key_of ip; l1 = ll_maybeSweep ord l now in
         case ll_failures l1 key of
           None \<Rightarrow>
             (case ll_makeRoom ord l1 now False of
                (l2, room) \<Rightarrow> if \<not> room then (l2, False, ll_window l2) else (l2, True, 0))
         | Some _ \<Rightarrow>
             (let l2 = ll_prune l1 key now in
              case ll_failures l2 key of
                None \<Rightarrow> (l2, True, 0)
              | Some e \<Rightarrow>
                  if int (length (le_fails e)) < ll_limit l2 then (l2, True, 0)
                  else (l2, False, max 0 (ll_window l2 - time_sub now (le_fails e ! 0))))))"

definition fails_of :: "login_limiter \<Rightarrow> string \<Rightarrow> gtime list" where
  "fails_of l k = (case ll_failures l k of None \<Rightarrow> [] | Some e \<Rightarrow> le_fails e)"

definition ll_admit ::
    "(string \<Rightarrow> string) \<Rightarrow> ((string \<rightharpoonup> limiter_entry) \<Rightarrow> string list) \<Rightarrow>
     login_limiter \<Rightarrow> gtime \<Rightarrow> string \<Rightarrow> int \<Rightarrow> login_limiter \<times> bool \<times> duration" where
  "ll_admit key_of ord l now ip reserved =
     (if ll_limit l \<le> 0 then (l, True, 0)
      else
        (let key = key_of ip;
             l1 = ll_maybeSweep ord l now;
             l2 = (case ll_failures l1 key of None \<Rightarrow> l1 | Some _ \<Rightarrow> ll_prune l1 key now);
             fails = fails_of l2 key;
             failed = int (length fails);
             (l3, room) = (if ll_failures l2 key = None then ll_makeRoom ord l2 now False else (l2, True))
         in if \<not> room then (l3, False, ll_window l3)
            else if failed + reserved < ll_limit l3 then (l3, True, 0)
            else if failed < ll_limit l3 then (l3, False, 0)
            else (l3, False,
                  max 0 (ll_window l3 - time_sub now (fails ! nat (failed - ll_limit l3))))))"

definition ll_failureCount ::
    "(string \<Rightarrow> string) \<Rightarrow> login_limiter \<Rightarrow> gtime \<Rightarrow> string \<Rightarrow> login_limiter \<times> int" where
  "ll_failureCount key_of l now ip =
     (case ll_failures l (key_of ip) of
        None \<Rightarrow> (l, 0)
      | Some _ \<Rightarrow>
          (let l1 = ll_prune l (key_of ip) now in (l1, int (length (fails_of l1 (key_of ip))))))"

definition ll_entryCount :: "login_limiter \<Rightarrow> nat" where
  "ll_entryCount l = mlen (ll_failures l)"

definition ll_append_failure :: "login_limiter \<Rightarrow> string \<Rightarrow> gtime \<Rightarrow> login_limiter" where
  "ll_append_failure l key now =
     (let e = (case ll_failures l key of None \<Rightarrow> \<lparr> le_key = key, le_fails = [] \<rparr> | Some e \<Rightarrow> e);
          l1 = l\<lparr> ll_failures := (ll_failures l)(key \<mapsto> e\<lparr> le_fails := le_fails e @ [now] \<rparr>),
                  ll_seen := remove1 key (ll_seen l) @ [key] \<rparr>
      in ll_refile l1 key)"

definition ll_recordFailure ::
    "(string \<Rightarrow> string) \<Rightarrow> ((string \<rightharpoonup> limiter_entry) \<Rightarrow> string list) \<Rightarrow>
     login_limiter \<Rightarrow> gtime \<Rightarrow> string \<Rightarrow> login_limiter" where
  "ll_recordFailure key_of ord l now ip =
     (if ll_limit l \<le> 0 then l
      else
        (let key = key_of ip;
             l1 = ll_maybeSweep ord l now;
             l2 = (case ll_failures l1 key of None \<Rightarrow> l1 | Some _ \<Rightarrow> ll_prune l1 key now)
         in case ll_failures l2 key of
              Some _ \<Rightarrow> ll_append_failure l2 key now
            | None \<Rightarrow>
                (case ll_makeRoom ord l2 now True of
                   (l3, room) \<Rightarrow> if room then ll_append_failure l3 key now else l3)))"

definition ceilSeconds :: "duration \<Rightarrow> int" where
  "ceilSeconds d =
     (let seconds = d sdiv second_ns in if d smod second_ns \<noteq> 0 then seconds + 1 else seconds)"

end
