(* ===== verification/LoginLimiterInv.thy ===== *)
theory LoginLimiterInv
  imports LoginLimiter
begin

text \<open>
  The invariant of the login limiter and its preservation by every step: the heap of evictable
  sources is in order and holds exactly the entries below the limit, the last-failure list holds
  every entry in order of its last failure, and \<open>nextUnblock\<close> is a lower bound on the time at
  which any blocked entry can drop below the limit.
\<close>

subsection \<open>The eviction order is a weak order\<close>

interpretation eo: weak_order "entry_less fs" for fs
  by unfold_locales (auto simp: entry_less_def Let_def split: if_splits)

lemma index_of_nth: "k \<in> set xs \<Longrightarrow> index_of k xs < length xs \<and> xs ! index_of k xs = k"
  unfolding index_of_def
  by (induction xs) auto

lemma entry_less_cong:
  "fs' a = fs a \<Longrightarrow> fs' b = fs b \<Longrightarrow> entry_less fs' a b = entry_less fs a b"
  by (simp add: entry_less_def)

definition heap_part :: "(string \<rightharpoonup> limiter_entry) \<Rightarrow> string list \<Rightarrow> bool" where
  "heap_part fs ev \<longleftrightarrow> distinct ev \<and> is_heap (entry_less fs) (length ev) ev"

lemma heap_part_cong:
  assumes "\<And>a. a \<in> set ev \<Longrightarrow> fs' a = fs a"
  shows "heap_part fs' ev = heap_part fs ev"
proof -
  have "is_heap (entry_less fs') (length ev) ev = is_heap (entry_less fs) (length ev) ev"
  proof (rule is_heap_cong)
    show "entry_less fs' a b = entry_less fs a b" if "a \<in> set ev" "b \<in> set ev" for a b
      using that by (intro entry_less_cong) (simp_all add: assms)
  qed simp
  then show ?thesis by (simp add: heap_part_def)
qed

lemma broken_changed:
  assumes "heap_part fs ev" "k \<in> set ev" "\<And>a. a \<noteq> k \<Longrightarrow> fs' a = fs a"
  shows "broken (entry_less fs') (length ev) ev (index_of k ev)"
proof (rule broken_rerank)
  note i = index_of_nth [OF assms(2)]
  show "weak_order (entry_less fs)" by (rule eo.weak_order_axioms)
  show "is_heap (entry_less fs) (length ev) ev" "distinct ev"
    using assms(1) by (simp_all add: heap_part_def)
  show "index_of k ev < length ev" using i by simp
  show "entry_less fs' a b = entry_less fs a b"
    if "a \<noteq> ev ! index_of k ev" "b \<noteq> ev ! index_of k ev" for a b
    using that i assms(3) by (intro entry_less_cong) auto
qed

lemma heap_without:
  assumes "heap_part fs ev" "\<And>a. a \<noteq> k \<Longrightarrow> fs' a = fs a"
  shows "heap_part fs' (heap_without fs' ev k)" "set (heap_without fs' ev k) = set ev - {k}"
proof -
  have "heap_part fs' (heap_without fs' ev k) \<and> set (heap_without fs' ev k) = set ev - {k}"
  proof (cases "k \<in> set ev")
    case True
    note i = index_of_nth [OF True]
    let ?ev = "heap_remove (entry_less fs') ev (index_of k ev)"
    have "mset ?ev = mset ev - {# k #}" using i by simp
    moreover have "distinct ev" using assms(1) by (simp add: heap_part_def)
    ultimately have "distinct ?ev \<and> set ?ev = set ev - {k}"
      by (metis distinct_mset_eq_set distinct_remove1 mset_remove1 set_remove1_eq)
    moreover have "is_heap (entry_less fs') (length ?ev) ?ev"
      using i broken_changed [OF assms(1) True assms(2)] by (intro eo.heap_remove_heap) auto
    ultimately show ?thesis using True by (simp add: heap_without_def heap_part_def)
  next
    case False
    then have "heap_part fs' ev"
      using assms heap_part_cong [of ev fs' fs] by metis
    with False show ?thesis by (simp add: heap_without_def)
  qed
  then show "heap_part fs' (heap_without fs' ev k)" "set (heap_without fs' ev k) = set ev - {k}"
    by auto
qed

lemma heap_with_push:
  assumes "heap_part fs ev" "k \<notin> set ev" "\<And>a. a \<noteq> k \<Longrightarrow> fs' a = fs a"
  shows "heap_part fs' (heap_push (entry_less fs') ev k)"
    and "set (heap_push (entry_less fs') ev k) = insert k (set ev)"
proof -
  have h: "heap_part fs' ev" using assms heap_part_cong [of ev fs' fs] by metis
  have m: "mset (heap_push (entry_less fs') ev k) = mset (k # ev)" by simp
  from distinct_mset_eq_set [OF m] assms(2) h
  show "heap_part fs' (heap_push (entry_less fs') ev k)"
    "set (heap_push (entry_less fs') ev k) = insert k (set ev)"
    using eo.heap_push_heap [of fs' ev k] by (auto simp: heap_part_def)
qed

lemma heap_with_fix:
  assumes "heap_part fs ev" "k \<in> set ev" "\<And>a. a \<noteq> k \<Longrightarrow> fs' a = fs a"
  shows "heap_part fs' (heap_fix (entry_less fs') ev (index_of k ev))"
    and "set (heap_fix (entry_less fs') ev (index_of k ev)) = set ev"
proof -
  note i = index_of_nth [OF assms(2)]
  have m: "mset (heap_fix (entry_less fs') ev (index_of k ev)) = mset ev" using i by simp
  from distinct_mset_eq_set [OF m] assms(1)
  show "heap_part fs' (heap_fix (entry_less fs') ev (index_of k ev))"
    "set (heap_fix (entry_less fs') ev (index_of k ev)) = set ev"
    using eo.heap_fix_heap [of "index_of k ev" ev fs'] i broken_changed [OF assms]
    by (auto simp: heap_part_def)
qed

subsection \<open>The invariant\<close>

definition entry_ok :: "gtime \<Rightarrow> string \<Rightarrow> limiter_entry \<Rightarrow> bool" where
  "entry_ok t k e \<longleftrightarrow> le_key e = k \<and> le_fails e \<noteq> [] \<and> sorted (le_fails e) \<and>
     (\<forall>x \<in> set (le_fails e). 0 < x \<and> x \<le> t)"

definition stored_blocked :: "login_limiter \<Rightarrow> string \<Rightarrow> bool" where
  "stored_blocked l k \<longleftrightarrow> ll_failures l k \<noteq> None \<and> ll_limit l \<le> int (length (fails_of l k))"

definition unblock_time :: "login_limiter \<Rightarrow> string \<Rightarrow> gtime" where
  "unblock_time l k = fails_of l k ! (length (fails_of l k) - nat (ll_limit l)) + ll_window l"

definition unblock_ok :: "login_limiter \<Rightarrow> string \<Rightarrow> bool" where
  "unblock_ok l k \<longleftrightarrow> (stored_blocked l k \<longrightarrow>
     ll_nextUnblock l \<noteq> 0 \<and> ll_nextUnblock l \<le> unblock_time l k)"

definition lcore :: "gtime \<Rightarrow> login_limiter \<Rightarrow> bool" where
  "lcore t l \<longleftrightarrow>
     0 < ll_limit l \<and> 0 < ll_window l \<and> 0 < ll_maxEntries l \<and>
     finite (dom (ll_failures l)) \<and>
     (\<forall>k e. ll_failures l k = Some e \<longrightarrow> entry_ok t k e) \<and>
     heap_part (ll_failures l) (ll_evictable l) \<and>
     set (ll_evictable l) = {k. ll_failures l k \<noteq> None \<and> int (length (fails_of l k)) < ll_limit l} \<and>
     distinct (ll_seen l) \<and> set (ll_seen l) = dom (ll_failures l) \<and>
     sorted (map (\<lambda>k. last (fails_of l k)) (ll_seen l))"

definition linv :: "gtime \<Rightarrow> login_limiter \<Rightarrow> bool" where
  "linv t l \<longleftrightarrow> lcore t l \<and> (\<forall>k. unblock_ok l k) \<and>
     int (mlen (ll_failures l)) \<le> ll_maxEntries l"

lemma lcoreD:
  assumes "lcore t l"
  shows "0 < ll_limit l" "0 < ll_window l" "0 < ll_maxEntries l" "finite (dom (ll_failures l))"
    "ll_failures l k = Some e \<Longrightarrow> entry_ok t k e"
    "heap_part (ll_failures l) (ll_evictable l)"
    "set (ll_evictable l) = {k. ll_failures l k \<noteq> None \<and> int (length (fails_of l k)) < ll_limit l}"
    "distinct (ll_seen l)" "set (ll_seen l) = dom (ll_failures l)"
    "sorted (map (\<lambda>k. last (fails_of l k)) (ll_seen l))"
  using assms by (auto simp: lcore_def)

lemma entry_ok_mono: "entry_ok t k e \<Longrightarrow> t \<le> t' \<Longrightarrow> entry_ok t' k e"
  by (auto simp: entry_ok_def)

lemma lcore_mono: "lcore t l \<Longrightarrow> t \<le> t' \<Longrightarrow> lcore t' l"
  by (auto simp: lcore_def intro: entry_ok_mono)

lemma linv_mono: "linv t l \<Longrightarrow> t \<le> t' \<Longrightarrow> linv t' l"
  by (auto simp: linv_def intro: lcore_mono)

lemma linv_new:
  assumes "0 < limit" "0 < window"
  shows "linv t (newBoundedLoginLimiter limit window maxEntries)"
  using assms
  by (auto simp: linv_def lcore_def newBoundedLoginLimiter_def heap_part_def unblock_ok_def
      stored_blocked_def defaultLoginLimiterMaxEntries_def)

lemma fails_of_Some [simp]: "ll_failures l k = Some e \<Longrightarrow> fails_of l k = le_fails e"
  by (simp add: fails_of_def)

lemma fails_of_None [simp]: "ll_failures l k = None \<Longrightarrow> fails_of l k = []"
  by (simp add: fails_of_def)

lemma lcore_fails:
  assumes "lcore t l" "ll_failures l k \<noteq> None"
  shows "fails_of l k \<noteq> []" "sorted (fails_of l k)" "x \<in> set (fails_of l k) \<Longrightarrow> 0 < x \<and> x \<le> t"
  using assms by (auto simp: lcore_def entry_ok_def)

text \<open>The constants of a limiter: no step changes them.\<close>

definition same_conf :: "login_limiter \<Rightarrow> login_limiter \<Rightarrow> bool" where
  "same_conf l l' \<longleftrightarrow> ll_limit l' = ll_limit l \<and> ll_window l' = ll_window l \<and>
     ll_maxEntries l' = ll_maxEntries l"

lemma same_conf_refl [simp]: "same_conf l l"
  by (simp add: same_conf_def)

lemma same_conf_trans: "same_conf a b \<Longrightarrow> same_conf b c \<Longrightarrow> same_conf a c"
  by (simp add: same_conf_def)

subsection \<open>Removing an entry\<close>

lemma ll_remove_fields [simp]:
  "ll_failures (ll_remove l k) = (ll_failures l)(k := None)"
  "ll_seen (ll_remove l k) = remove1 k (ll_seen l)"
  "ll_limit (ll_remove l k) = ll_limit l" "ll_window (ll_remove l k) = ll_window l"
  "ll_maxEntries (ll_remove l k) = ll_maxEntries l" "ll_nextUnblock (ll_remove l k) = ll_nextUnblock l"
  "ll_nextSweep (ll_remove l k) = ll_nextSweep l"
  "fails_of (ll_remove l k) j = (if j = k then [] else fails_of l j)"
  by (simp_all add: ll_remove_def fails_of_def)

lemma ll_remove_evictable:
  "lcore t l \<Longrightarrow> set (ll_evictable (ll_remove l k)) = set (ll_evictable l) - {k} \<and>
     heap_part ((ll_failures l)(k := None)) (ll_evictable (ll_remove l k))"
proof -
  assume "lcore t l"
  then have h: "heap_part (ll_failures l) (ll_evictable l)" by (rule lcoreD)
  note w = heap_without [OF h, of k "ll_failures l"]
  then have "heap_part ((ll_failures l)(k := None)) (heap_without (ll_failures l) (ll_evictable l) k)"
    by (subst heap_part_cong [of _ _ "ll_failures l"]) auto
  with w show ?thesis by (simp add: ll_remove_def)
qed


lemma lcore_remove: "lcore t l \<Longrightarrow> lcore t (ll_remove l k)"
proof -
  assume l: "lcore t l"
  note D = lcoreD [OF l]
  note ev = ll_remove_evictable [OF l, of k]
  have seen: "map (\<lambda>j. last (fails_of (ll_remove l k) j)) (remove1 k (ll_seen l))
    = map (\<lambda>j. last (fails_of l j)) (remove1 k (ll_seen l))"
    using D(8) by (intro map_cong) auto
  have "sorted (map (\<lambda>j. last (fails_of (ll_remove l k) j)) (ll_seen (ll_remove l k)))"
    unfolding ll_remove_fields(2) seen by (rule sorted_map_remove1 [OF D(10)])
  then show ?thesis
    using D ev by (auto simp: lcore_def domIff)
qed

lemma stored_blocked_remove: "stored_blocked (ll_remove l k) j \<longleftrightarrow> j \<noteq> k \<and> stored_blocked l j"
  by (auto simp: stored_blocked_def)

lemma unblock_ok_remove: "unblock_ok l j \<Longrightarrow> unblock_ok (ll_remove l k) j"
  by (auto simp: unblock_ok_def stored_blocked_remove unblock_time_def)

lemma linv_remove: "linv t l \<Longrightarrow> linv t (ll_remove l k)"
  using mlen_del_le [OF lcoreD(4), of t l k]
  by (auto simp: linv_def intro: lcore_remove unblock_ok_remove order_trans)

subsection \<open>Refiling an entry whose failures changed\<close>

text \<open>
  \<open>changed t l k e l1\<close>: \<open>l1\<close> is \<open>l\<close> with the entry \<open>e\<close> stored at \<open>k\<close> and \<open>k\<close>'s place in the
  last-failure list adjusted, but not yet refiled.
\<close>

definition changed :: "gtime \<Rightarrow> login_limiter \<Rightarrow> string \<Rightarrow> limiter_entry \<Rightarrow> login_limiter \<Rightarrow> bool" where
  "changed t l k e l1 \<longleftrightarrow> lcore t l \<and> entry_ok t k e \<and> same_conf l l1 \<and>
     ll_failures l1 = (ll_failures l)(k \<mapsto> e) \<and> ll_evictable l1 = ll_evictable l \<and>
     ll_nextUnblock l1 = ll_nextUnblock l \<and> ll_nextSweep l1 = ll_nextSweep l \<and>
     distinct (ll_seen l1) \<and> set (ll_seen l1) = insert k (dom (ll_failures l)) \<and>
     sorted (map (\<lambda>k. last (fails_of l1 k)) (ll_seen l1))"

lemma ll_refile_fields [simp]:
  "ll_failures (ll_refile l k) = ll_failures l" "ll_seen (ll_refile l k) = ll_seen l"
  "ll_limit (ll_refile l k) = ll_limit l" "ll_window (ll_refile l k) = ll_window l"
  "ll_maxEntries (ll_refile l k) = ll_maxEntries l" "ll_nextSweep (ll_refile l k) = ll_nextSweep l"
  "fails_of (ll_refile l k) j = fails_of l j"
  by (simp_all add: ll_refile_def Let_def fails_of_def)

lemma ll_refile_heap:
  assumes "heap_part fs ev" "ll_evictable l = ev" "\<And>a. a \<noteq> k \<Longrightarrow> ll_failures l a = fs a"
  shows "heap_part (ll_failures l) (ll_evictable (ll_refile l k))"
    and "set (ll_evictable (ll_refile l k)) =
      (if int (length (le_fails (the (ll_failures l k)))) < ll_limit l then insert k (set ev) else set ev - {k})"
  using heap_without [OF assms(1,3)] heap_with_push [OF assms(1) _ assms(3)]
    heap_with_fix [OF assms(1) _ assms(3)] assms(2)
  by (auto simp: ll_refile_def Let_def)

lemma lcore_refile:
  assumes c: "changed t l k e l1"
  shows "lcore t (ll_refile l1 k)"
proof -
  from c have l: "lcore t l" and fs: "ll_failures l1 = (ll_failures l)(k \<mapsto> e)"
    by (auto simp: changed_def)
  note D = lcoreD [OF l]
  have f: "fails_of l1 j = (if j = k then le_fails e else fails_of l j)" for j
    using fs by (simp add: fails_of_def)
  have "ll_evictable l1 = ll_evictable l" using c by (simp add: changed_def)
  note h = ll_refile_heap [OF D(6) this, of k]
  have "set (ll_evictable (ll_refile l1 k)) =
      {j. ll_failures l1 j \<noteq> None \<and> int (length (fails_of l1 j)) < ll_limit l1}"
    using h(2) fs D(7) c by (auto simp: f changed_def same_conf_def)
  moreover have "heap_part (ll_failures l1) (ll_evictable (ll_refile l1 k))"
    using h(1) fs by simp
  ultimately show ?thesis
    using c D fs by (auto simp: lcore_def changed_def same_conf_def split: if_splits)
qed

lemma unblock_positive:
  assumes "lcore t l" "stored_blocked l k"
  shows "0 < unblock_time l k"
proof -
  have ne: "ll_failures l k \<noteq> None" using assms(2) by (simp add: stored_blocked_def)
  have "length (fails_of l k) - nat (ll_limit l) < length (fails_of l k)"
    using lcoreD(1) [OF assms(1)] lcore_fails(1) [OF assms(1) ne] by (simp add: )
  then have "0 < fails_of l k ! (length (fails_of l k) - nat (ll_limit l))"
    using lcore_fails(3) [OF assms(1) ne] nth_mem by blast
  then show ?thesis using lcoreD(2) [OF assms(1)] by (simp add: unblock_time_def)
qed

lemma ll_refile_nextUnblock:
  assumes "ll_failures l k \<noteq> None"
  shows "ll_nextUnblock (ll_refile l k) =
    (if stored_blocked l k \<and> (ll_nextUnblock l = 0 \<or> unblock_time l k < ll_nextUnblock l)
     then unblock_time l k else ll_nextUnblock l)"
  using assms by (auto simp: ll_refile_def Let_def stored_blocked_def unblock_time_def fails_of_def)

lemma stored_blocked_refile [simp]: "stored_blocked (ll_refile l k) j = stored_blocked l j"
  by (simp add: stored_blocked_def)

lemma unblock_time_refile [simp]: "unblock_time (ll_refile l k) j = unblock_time l j"
  by (simp add: unblock_time_def)

lemma unblock_ok_refile:
  assumes c: "changed t l k e l1"
  shows "unblock_ok (ll_refile l1 k) k" and "j \<noteq> k \<Longrightarrow> unblock_ok l j \<Longrightarrow> unblock_ok (ll_refile l1 k) j"
proof -
  from c have fs: "ll_failures l1 = (ll_failures l)(k \<mapsto> e)" and sc: "same_conf l l1"
    and nu: "ll_nextUnblock l1 = ll_nextUnblock l" by (auto simp: changed_def)
  note core = lcore_refile [OF c]
  have ne: "ll_failures l1 k \<noteq> None" using fs by simp
  have pos: "stored_blocked l1 k \<Longrightarrow> 0 < unblock_time l1 k"
    using unblock_positive [OF core, of k] by simp
  show "unblock_ok (ll_refile l1 k) k"
    using ll_refile_nextUnblock [OF ne] pos by (auto simp: unblock_ok_def)
  assume j: "j \<noteq> k" "unblock_ok l j"
  have "fails_of l1 j = fails_of l j" "ll_failures l1 j = ll_failures l j"
    using fs j(1) by (simp_all add: fails_of_def)
  then have "stored_blocked l1 j = stored_blocked l j" "unblock_time l1 j = unblock_time l j"
    using sc by (simp_all add: stored_blocked_def unblock_time_def same_conf_def)
  then show "unblock_ok (ll_refile l1 k) j"
    using ll_refile_nextUnblock [OF ne] pos j(2) nu by (auto simp: unblock_ok_def)
qed

subsection \<open>Pruning\<close>

definition live_fails :: "gtime \<Rightarrow> gtime list \<Rightarrow> gtime list" where
  "live_fails cutoff fails = dropWhile (\<lambda>t. t < cutoff) fails"

text \<open>The table after its entry at \<open>k\<close> was pruned.\<close>

definition pruned_at :: "gtime \<Rightarrow> string \<Rightarrow> (string \<rightharpoonup> limiter_entry) \<Rightarrow> (string \<rightharpoonup> limiter_entry)" where
  "pruned_at cutoff k fs =
     fs(k := (case fs k of None \<Rightarrow> None
              | Some e \<Rightarrow> if live_fails cutoff (le_fails e) = [] then None
                          else Some (e\<lparr> le_fails := live_fails cutoff (le_fails e) \<rparr>)))"

lemma entry_ok_live:
  assumes "entry_ok t k e" "live_fails c (le_fails e) \<noteq> []"
  shows "entry_ok t k (e\<lparr> le_fails := live_fails c (le_fails e) \<rparr>)"
  using assms by (auto simp: entry_ok_def live_fails_def sorted_dropWhile dest: set_dropWhileD)

lemma prune_changed:
  assumes l: "lcore t l" and e: "ll_failures l k = Some e" and ne: "live_fails c (le_fails e) \<noteq> []"
  shows "changed t l k (e\<lparr> le_fails := live_fails c (le_fails e) \<rparr>)
    (l\<lparr> ll_failures := (ll_failures l)(k \<mapsto> e\<lparr> le_fails := live_fails c (le_fails e) \<rparr>) \<rparr>)"
proof -
  note D = lcoreD [OF l]
  let ?l1 = "l\<lparr> ll_failures := (ll_failures l)(k \<mapsto> e\<lparr> le_fails := live_fails c (le_fails e) \<rparr>) \<rparr>"
  have "last (fails_of ?l1 j) = last (fails_of l j)" for j
    using e ne by (cases "j = k") (auto simp: fails_of_def live_fails_def last_dropWhile)
  then have "sorted (map (\<lambda>j. last (fails_of ?l1 j)) (ll_seen ?l1))"
    using D(10) by simp
  then show ?thesis
    using D e ne by (auto simp: changed_def l same_conf_def entry_ok_live insert_absorb domI)
qed

lemma ll_prune_unfold:
  assumes "ll_failures l k = Some e" "cutoff = now - ll_window l"
  shows "ll_prune l k now =
    (if live_fails cutoff (le_fails e) = [] then ll_remove l k
     else ll_refile (l\<lparr> ll_failures := (ll_failures l)(k \<mapsto> e\<lparr> le_fails := live_fails cutoff (le_fails e) \<rparr>) \<rparr>) k)"
  using assms by (simp add: ll_prune_def live_fails_def Let_def)

lemma prune_step:
  assumes l: "lcore t l" and e: "ll_failures l k = Some e"
  shows "lcore t (ll_prune l k now)"
    and "ll_failures (ll_prune l k now) = pruned_at (now - ll_window l) k (ll_failures l)"
    and "same_conf l (ll_prune l k now)" and "ll_nextSweep (ll_prune l k now) = ll_nextSweep l"
    and "unblock_ok (ll_prune l k now) k"
    and "j \<noteq> k \<Longrightarrow> unblock_ok l j \<Longrightarrow> unblock_ok (ll_prune l k now) j"
proof -
  let ?c = "now - ll_window l"
  note u = ll_prune_unfold [OF e refl, of now]
  have "lcore t (ll_prune l k now) \<and>
    ll_failures (ll_prune l k now) = pruned_at ?c k (ll_failures l) \<and>
    same_conf l (ll_prune l k now) \<and> ll_nextSweep (ll_prune l k now) = ll_nextSweep l \<and>
    unblock_ok (ll_prune l k now) k \<and>
    (j \<noteq> k \<longrightarrow> unblock_ok l j \<longrightarrow> unblock_ok (ll_prune l k now) j)"
  proof (cases "live_fails ?c (le_fails e) = []")
    case True
    then show ?thesis
      using u e lcore_remove [OF l, of k] unblock_ok_remove [of l j k]
      by (auto simp: pruned_at_def same_conf_def unblock_ok_def stored_blocked_remove)
  next
    case False
    note c = prune_changed [OF l e False]
    show ?thesis
      using u e False lcore_refile [OF c] unblock_ok_refile [OF c]
      by (auto simp: pruned_at_def same_conf_def)
  qed
  then show "lcore t (ll_prune l k now)"
    "ll_failures (ll_prune l k now) = pruned_at ?c k (ll_failures l)"
    "same_conf l (ll_prune l k now)" "ll_nextSweep (ll_prune l k now) = ll_nextSweep l"
    "unblock_ok (ll_prune l k now) k"
    "j \<noteq> k \<Longrightarrow> unblock_ok l j \<Longrightarrow> unblock_ok (ll_prune l k now) j"
    by auto
qed

subsection \<open>The sweep\<close>

definition pruned_all :: "gtime \<Rightarrow> string set \<Rightarrow> (string \<rightharpoonup> limiter_entry) \<Rightarrow> (string \<rightharpoonup> limiter_entry)" where
  "pruned_all cutoff K fs k = (if k \<in> K then pruned_at cutoff k fs k else fs k)"

lemma pruned_at_other [simp]: "j \<noteq> k \<Longrightarrow> pruned_at c k fs j = fs j"
  by (simp add: pruned_at_def)

lemma pruned_at_same: "fs k = fs' k \<Longrightarrow> pruned_at c k fs k = pruned_at c k fs' k"
  by (simp add: pruned_at_def)

lemma fold_prune:
  assumes "lcore t l" "distinct ks" "set ks \<subseteq> dom (ll_failures l)"
    "\<And>j. j \<notin> set ks \<Longrightarrow> unblock_ok l j"
  shows "let l' = fold (\<lambda>k l. ll_prune l k now) ks l in
     lcore t l' \<and> ll_failures l' = pruned_all (now - ll_window l) (set ks) (ll_failures l) \<and>
     same_conf l l' \<and> ll_nextSweep l' = ll_nextSweep l \<and> (\<forall>j. unblock_ok l' j)"
  using assms
proof (induction ks arbitrary: l)
  case Nil
  then show ?case by (auto simp: pruned_all_def fun_eq_iff)
next
  case (Cons k ks)
  then obtain e where e: "ll_failures l k = Some e" by auto
  let ?l1 = "ll_prune l k now" let ?c = "now - ll_window l"
  note P = prune_step [OF Cons.prems(1) e, where now = now]
  have w: "ll_window ?l1 = ll_window l" using P(3) by (simp add: same_conf_def)
  have sub: "set ks \<subseteq> dom (ll_failures ?l1)"
    using Cons.prems(2,3) P(2) by (auto simp: pruned_at_def)
  have ub: "unblock_ok ?l1 j" if "j \<notin> set ks" for j
    using that P(5) P(6) [of j] Cons.prems(4) [of j] by (cases "j = k") auto
  let ?l' = "fold (\<lambda>k l. ll_prune l k now) ks ?l1"
  from Cons.IH [OF P(1) _ sub ub] Cons.prems(2) w have IH:
    "lcore t ?l'" "ll_failures ?l' = pruned_all ?c (set ks) (ll_failures ?l1)"
    "same_conf ?l1 ?l'" "ll_nextSweep ?l' = ll_nextSweep ?l1" "\<forall>j. unblock_ok ?l' j"
    by (auto simp: Let_def)
  have "pruned_all ?c (set ks) (ll_failures ?l1) = pruned_all ?c (set (k # ks)) (ll_failures l)"
  proof
    fix j
    show "pruned_all ?c (set ks) (ll_failures ?l1) j = pruned_all ?c (set (k # ks)) (ll_failures l) j"
    proof (cases "j = k")
      case False
      then have "pruned_at ?c j (ll_failures ?l1) j = pruned_at ?c j (ll_failures l) j"
        unfolding P(2) by (intro pruned_at_same) simp
      with False show ?thesis by (simp add: pruned_all_def P(2))
    qed (use Cons.prems(2) P(2) in \<open>simp add: pruned_all_def\<close>)
  qed
  with IH P(3,4) show ?case
    by (auto simp: Let_def intro: same_conf_trans)
qed

text \<open>A limiter after every entry was pruned at the time \<open>now\<close>.\<close>

definition swept :: "gtime \<Rightarrow> login_limiter \<Rightarrow> login_limiter \<Rightarrow> bool" where
  "swept now l l' \<longleftrightarrow>
     ll_failures l' = pruned_all (now - ll_window l) UNIV (ll_failures l) \<and> same_conf l l'"

lemma pruned_all_dom: "pruned_all c (dom fs) fs = pruned_all c UNIV fs"
  by (auto simp: pruned_all_def pruned_at_def fun_eq_iff split: option.splits)

lemma dom_pruned_all: "dom (pruned_all c K fs) \<subseteq> dom fs"
  by (auto simp: pruned_all_def pruned_at_def split: if_splits option.splits)

lemma mlen_pruned_all: "finite (dom fs) \<Longrightarrow> mlen (pruned_all c K fs) \<le> mlen fs"
  by (intro mlen_mono dom_pruned_all)

lemma sweep_step:
  assumes "lcore t l" "range_order ord" "int (mlen (ll_failures l)) \<le> ll_maxEntries l"
  shows "linv t (ll_sweep ord l now)" "swept now l (ll_sweep ord l now)"
    "ll_nextSweep (ll_sweep ord l now) = ll_nextSweep l"
proof -
  let ?l0 = "l\<lparr> ll_nextUnblock := 0 \<rparr>" let ?ks = "ord (ll_failures l)"
  note D = lcoreD [OF assms(1)]
  note o = range_orderD [OF assms(2) D(4)]
  have c0: "lcore t ?l0" using assms(1) by (simp add: lcore_def fails_of_def)
  have ub: "unblock_ok ?l0 j" if "j \<notin> set ?ks" for j
    using that o by (auto simp: unblock_ok_def stored_blocked_def)
  have F: "lcore t (ll_sweep ord l now)"
    "ll_failures (ll_sweep ord l now) = pruned_all (now - ll_window l) (dom (ll_failures l)) (ll_failures l)"
    "same_conf l (ll_sweep ord l now)" "ll_nextSweep (ll_sweep ord l now) = ll_nextSweep l"
    "\<forall>j. unblock_ok (ll_sweep ord l now) j"
    using fold_prune [OF c0 o(1) _ ub, of now] o(2)
    by (auto simp: ll_sweep_def Let_def same_conf_def)
  then show "swept now l (ll_sweep ord l now)" by (simp add: swept_def pruned_all_dom)
  show "ll_nextSweep (ll_sweep ord l now) = ll_nextSweep l" by (rule F(4))
  have "int (mlen (ll_failures (ll_sweep ord l now))) \<le> ll_maxEntries l"
    using mlen_pruned_all [OF D(4)] assms(3) F(2) by (metis of_nat_mono order_trans)
  with F show "linv t (ll_sweep ord l now)" by (simp add: linv_def same_conf_def)
qed

text \<open>
  What every housekeeping step (sweep, expiry of the oldest entries, pruning one entry) has in
  common: it only drops failures that are older than the window.
\<close>

definition window_eq :: "gtime \<Rightarrow> login_limiter \<Rightarrow> login_limiter \<Rightarrow> bool" where
  "window_eq now l l' \<longleftrightarrow> same_conf l l' \<and>
     (\<forall>k. filter (\<lambda>x. now - ll_window l \<le> x) (fails_of l' k) =
          filter (\<lambda>x. now - ll_window l \<le> x) (fails_of l k))"

lemma window_eq_refl [simp]: "window_eq now l l"
  by (simp add: window_eq_def)

lemma window_eq_trans: "window_eq now a b \<Longrightarrow> window_eq now b c \<Longrightarrow> window_eq now a c"
  by (auto simp: window_eq_def same_conf_def)

lemma filter_live: "sorted fails \<Longrightarrow> filter (\<lambda>x. c \<le> x) (live_fails c fails) = filter (\<lambda>x. c \<le> x) fails"
  by (simp add: live_fails_def sorted_dropWhile_less)

lemma live_Nil_filter: "sorted fails \<Longrightarrow> live_fails c fails = [] \<longleftrightarrow> filter (\<lambda>x. c \<le> x) fails = []"
  by (simp add: live_fails_def sorted_dropWhile_less)

lemma filter_pruned_at:
  assumes "lcore t l" "ll_failures l' k = pruned_at c k (ll_failures l) k"
  shows "filter (\<lambda>x. c \<le> x) (fails_of l' k) = filter (\<lambda>x. c \<le> x) (fails_of l k)"
proof (cases "ll_failures l k")
  case None
  with assms(2) show ?thesis by (simp add: pruned_at_def)
next
  case (Some e)
  then have "sorted (le_fails e)" using lcore_fails(2) [OF assms(1), of k] by simp
  then show ?thesis
    using Some assms(2) filter_live [of "le_fails e" c] live_Nil_filter [of "le_fails e" c]
    by (auto simp: pruned_at_def fails_of_def)
qed

lemma window_eq_swept:
  assumes "lcore t l" "swept now l l'"
  shows "window_eq now l l'"
  using assms filter_pruned_at [OF assms(1)]
  by (auto simp: window_eq_def swept_def pruned_all_def)

lemma window_eq_prune:
  assumes "lcore t l" "ll_failures l k = Some e"
  shows "window_eq now l (ll_prune l k now)"
proof -
  note P = prune_step [OF assms, where now = now]
  let ?c = "now - ll_window l"
  have "filter (\<lambda>x. ?c \<le> x) (fails_of (ll_prune l k now) j) = filter (\<lambda>x. ?c \<le> x) (fails_of l j)" for j
  proof (cases "j = k")
    case True
    then show ?thesis using P(2) by (intro filter_pruned_at [OF assms(1)]) simp
  qed (simp add: fails_of_def P(2))
  with P(3) show ?thesis by (simp add: window_eq_def)
qed

lemma linv_prune: "linv t l \<Longrightarrow> ll_failures l k = Some e \<Longrightarrow> linv t (ll_prune l k now)"
proof -
  assume l: "linv t l" and e: "ll_failures l k = Some e"
  then have c: "lcore t l" by (simp add: linv_def)
  note P = prune_step [OF c e, where now = now]
  have "dom (ll_failures (ll_prune l k now)) \<subseteq> dom (ll_failures l)"
    using P(2) e by (auto simp: pruned_at_def split: if_splits)
  then have "mlen (ll_failures (ll_prune l k now)) \<le> mlen (ll_failures l)"
    using lcoreD(4) [OF c] by (intro mlen_mono)
  moreover have "unblock_ok (ll_prune l k now) j" for j
    using P(5) P(6) [of j] l by (cases "j = k") (auto simp: linv_def)
  ultimately show ?thesis
    using l P(1,3) by (auto simp: linv_def same_conf_def)
qed

lemma maybeSweep_step:
  assumes "linv t l" "range_order ord"
  shows "linv t (ll_maybeSweep ord l now)" "window_eq now l (ll_maybeSweep ord l now)"
proof -
  have c: "lcore t l" "int (mlen (ll_failures l)) \<le> ll_maxEntries l"
    using assms(1) by (auto simp: linv_def)
  note S = sweep_step [OF c(1) assms(2) c(2), of now]
  have "linv t (l'\<lparr>ll_nextSweep := x\<rparr>)" if "linv t l'" for x l'
    using that by (simp add: linv_def lcore_def fails_of_def unblock_ok_def stored_blocked_def unblock_time_def)
  with S(1) assms(1) show "linv t (ll_maybeSweep ord l now)" by (simp add: ll_maybeSweep_def)
  have "window_eq now l (l'\<lparr>ll_nextSweep := x\<rparr>)" if "window_eq now l l'" for x l'
    using that by (simp add: window_eq_def same_conf_def fails_of_def)
  with window_eq_swept [OF c(1) S(2)] show "window_eq now l (ll_maybeSweep ord l now)"
    by (simp add: ll_maybeSweep_def)
qed

subsection \<open>Dropping wholly expired entries\<close>

lemma sorted_filter_empty_iff_last:
  "sorted xs \<Longrightarrow> xs \<noteq> [] \<Longrightarrow> filter (\<lambda>x. (c::'a::linorder) \<le> x) xs = [] \<longleftrightarrow> last xs < c"
  by (metis filter_empty_conv last_in_set not_less order.trans sorted_last_max)

lemma window_eq_remove_expired:
  assumes "lcore t l" "ll_failures l k \<noteq> None" "last (fails_of l k) < now - ll_window l"
  shows "window_eq now l (ll_remove l k)"
  using sorted_filter_empty_iff_last [of "fails_of l k" "now - ll_window l"] lcore_fails [OF assms(1,2)] assms(3)
  by (auto simp: window_eq_def same_conf_def)

lemma dropExpired_step:
  assumes "linv t l"
  shows "linv t (ll_dropExpired l now) \<and> window_eq now l (ll_dropExpired l now) \<and>
     (\<forall>k. ll_failures (ll_dropExpired l now) k =
        (if ll_failures l k \<noteq> None \<and> last (fails_of l k) < now - ll_window l then None
         else ll_failures l k)) \<and>
     ll_nextUnblock (ll_dropExpired l now) = ll_nextUnblock l"
  using assms
proof (induction l now rule: ll_dropExpired.induct)
  case (1 l now)
  let ?c = "now - ll_window l"
  have core: "lcore t l" using "1.prems" by (simp add: linv_def)
  note D = lcoreD [OF core]
  show ?case
  proof (cases "ll_seen l")
    case Nil
    then have "dom (ll_failures l) = {}" using D(9) by simp
    with Nil show ?thesis using "1.prems" by (simp add: ll_dropExpired.simps [of l now])
  next
    case (Cons k ks)
    then have k: "ll_failures l k \<noteq> None" using D(9) by auto
    then have last_k: "entry_last (the (ll_failures l k)) = last (fails_of l k)"
      by (auto simp: entry_last_def)
    show ?thesis
    proof (cases "last (fails_of l k) < ?c")
      case False
      have "\<not> last (fails_of l j) < ?c" if "ll_failures l j \<noteq> None" for j
      proof -
        have "j \<in> set (k # ks)" using that D(9) Cons by auto
        then have "last (fails_of l k) \<le> last (fails_of l j)" using D(10) Cons by auto
        with False show ?thesis by simp
      qed
      moreover have "ll_dropExpired l now = l"
        using Cons False last_k by (simp add: ll_dropExpired.simps [of l now])
      ultimately show ?thesis using "1.prems" by auto
    next
      case True
      let ?l1 = "ll_remove l k"
      have rec: "ll_dropExpired l now = ll_dropExpired ?l1 now"
        using Cons True last_k by (simp add: ll_dropExpired.simps [of l now])
      have "linv t ?l1" by (rule linv_remove [OF "1.prems"])
      with "1.IH" [OF Cons] True last_k have IH: "linv t (ll_dropExpired ?l1 now)"
        "window_eq now ?l1 (ll_dropExpired ?l1 now)"
        "\<forall>j. ll_failures (ll_dropExpired ?l1 now) j =
          (if ll_failures ?l1 j \<noteq> None \<and> last (fails_of ?l1 j) < now - ll_window ?l1 then None
           else ll_failures ?l1 j)"
        "ll_nextUnblock (ll_dropExpired ?l1 now) = ll_nextUnblock ?l1"
        by auto
      have "window_eq now l ?l1" by (rule window_eq_remove_expired [OF core k True])
      with IH rec k True show ?thesis
        by (auto intro: window_eq_trans)
    qed
  qed
qed

subsection \<open>What a source's count means\<close>

text \<open>
  \<open>counted l now k\<close>: the failures of \<open>k\<close> inside the window that ends at \<open>now\<close> (both edges
  included). \<open>blocked_sources\<close>: the sources whose count has reached the limit. These are the
  abstract state of the limiter; the operations are specified over them.
\<close>

definition counted_fails :: "login_limiter \<Rightarrow> gtime \<Rightarrow> string \<Rightarrow> gtime list" where
  "counted_fails l now k = filter (\<lambda>x. now - ll_window l \<le> x) (fails_of l k)"

definition counted :: "login_limiter \<Rightarrow> gtime \<Rightarrow> string \<Rightarrow> int" where
  "counted l now k = int (length (counted_fails l now k))"

definition blocked_sources :: "login_limiter \<Rightarrow> gtime \<Rightarrow> string set" where
  "blocked_sources l now = {k. ll_limit l \<le> counted l now k}"

definition all_slots_blocked :: "login_limiter \<Rightarrow> gtime \<Rightarrow> bool" where
  "all_slots_blocked l now \<longleftrightarrow> ll_maxEntries l \<le> int (card (blocked_sources l now))"

lemma counted_fails_window_eq: "window_eq now l l' \<Longrightarrow> counted_fails l' now k = counted_fails l now k"
  by (simp add: window_eq_def counted_fails_def same_conf_def)

lemma counted_window_eq: "window_eq now l l' \<Longrightarrow> counted l' now k = counted l now k"
  by (simp add: counted_def counted_fails_window_eq)

lemma blocked_window_eq: "window_eq now l l' \<Longrightarrow> blocked_sources l' now = blocked_sources l now"
  by (simp add: blocked_sources_def counted_window_eq) (simp add: window_eq_def same_conf_def)

lemma all_blocked_window_eq: "window_eq now l l' \<Longrightarrow> all_slots_blocked l' now = all_slots_blocked l now"
  by (simp add: all_slots_blocked_def blocked_window_eq) (simp add: window_eq_def same_conf_def)

lemma counted_le_stored: "counted l now k \<le> int (length (fails_of l k))"
  by (simp add: counted_def counted_fails_def length_filter_le)

lemma counted_after_prune:
  assumes "lcore t l" "ll_failures l k = Some e"
  shows "fails_of (ll_prune l k now) k = counted_fails l now k"
proof -
  note P = prune_step [OF assms, where now = now]
  have "sorted (le_fails e)" using lcore_fails(2) [OF assms(1), of k] assms(2) by simp
  then show ?thesis
    using P(2) assms(2)
    by (auto simp: fails_of_def pruned_at_def counted_fails_def live_fails_def sorted_dropWhile_less)
qed

lemma blocked_subset_dom: "lcore t l \<Longrightarrow> blocked_sources l now \<subseteq> dom (ll_failures l)"
proof
  fix k assume l: "lcore t l" and "k \<in> blocked_sources l now"
  then have "0 < counted l now k" using lcoreD(1) [OF l] by (simp add: blocked_sources_def)
  then show "k \<in> dom (ll_failures l)"
    by (cases "ll_failures l k") (auto simp: counted_def counted_fails_def)
qed

lemma card_blocked_le: "lcore t l \<Longrightarrow> card (blocked_sources l now) \<le> mlen (ll_failures l)"
  unfolding mlen_def by (intro card_mono lcoreD(4) blocked_subset_dom)

lemma counted_if_unblock_late:
  assumes l: "lcore t l" and b: "stored_blocked l k" and late: "now \<le> unblock_time l k"
  shows "k \<in> blocked_sources l now"
proof -
  let ?xs = "fails_of l k" let ?m = "length ?xs - nat (ll_limit l)" let ?c = "now - ll_window l"
  have ne: "ll_failures l k \<noteq> None" and len: "nat (ll_limit l) \<le> length ?xs"
    using b by (auto simp: stored_blocked_def)
  have m: "?m < length ?xs" using lcoreD(1) [OF l] lcore_fails(1) [OF l ne] by simp
  have "?c \<le> x" if "x \<in> set (drop ?m ?xs)" for x
  proof -
    from that obtain i where "i < length (drop ?m ?xs)" "x = drop ?m ?xs ! i"
      by (auto simp: in_set_conv_nth)
    then have "?xs ! ?m \<le> x"
      using lcore_fails(2) [OF l ne] by (auto intro: sorted_nth_mono)
    with late show ?thesis by (simp add: unblock_time_def)
  qed
  then have "drop ?m ?xs = filter (\<lambda>x. ?c \<le> x) (drop ?m ?xs)" by (simp add: filter_id_conv)
  moreover have "length (filter (\<lambda>x. ?c \<le> x) (drop ?m ?xs)) \<le> length (filter (\<lambda>x. ?c \<le> x) ?xs)"
    by (metis append_take_drop_id filter_append le_add2 length_append)
  ultimately have "nat (ll_limit l) \<le> length (filter (\<lambda>x. ?c \<le> x) ?xs)"
    using len m by (metis diff_diff_cancel length_drop)
  then show ?thesis by (simp add: blocked_sources_def counted_def counted_fails_def)
qed

subsection \<open>Making room\<close>

text \<open>
  \<open>makeRoom\<close> without eviction only reports: it drops failures that are older than the window and
  answers whether the table is not full of sources that are blocked now.
\<close>

lemma makeRoom_reduce:
  assumes "linv t l" "range_order ord" "\<not> has_slot l"
  obtains l2 where
    "linv t l2" "window_eq now l l2"
    "ll_makeRoom ord l now evict =
       (if has_slot l2 then (l2, True)
        else if ll_evictable l2 = [] then (l2, False)
        else (if evict then ll_remove l2 (hd (ll_evictable l2)) else l2, True))"
    "ll_evictable l2 = [] \<Longrightarrow> \<not> has_slot l2 \<Longrightarrow> dom (ll_failures l2) \<subseteq> blocked_sources l2 now"
    "\<And>k. ll_failures l2 k \<noteq> None \<Longrightarrow> ll_failures l k \<noteq> None"
proof -
  define l1 where "l1 = ll_dropExpired l now"
  define refresh where "refresh = (ll_evictable l1 = [] \<and> ll_nextUnblock l1 < now)"
  define l2 where "l2 = (if has_slot l1 then l1 else if refresh then ll_sweep ord l1 now else l1)"
  have d: "linv t l1" "window_eq now l l1"
    and d3: "\<And>k. ll_failures l1 k \<noteq> None \<Longrightarrow> ll_failures l k \<noteq> None"
    using dropExpired_step [OF assms(1), of now] by (auto simp: l1_def split: if_splits)
  have c1: "lcore t l1" "int (mlen (ll_failures l1)) \<le> ll_maxEntries l1"
    using d(1) by (auto simp: linv_def)
  note S = sweep_step [OF c1(1) assms(2) c1(2), of now]
  have "linv t l2" "window_eq now l l2"
    using d S(1) window_eq_swept [OF c1(1) S(2)] by (auto simp: l2_def intro: window_eq_trans)
  moreover have "ll_makeRoom ord l now evict =
       (if has_slot l2 then (l2, True)
        else if ll_evictable l2 = [] then (l2, False)
        else (if evict then ll_remove l2 (hd (ll_evictable l2)) else l2, True))"
    using assms(3) by (auto simp: ll_makeRoom_def Let_def l2_def refresh_def l1_def [symmetric])
  moreover have "dom (ll_failures l2) \<subseteq> blocked_sources l2 now"
    if ev: "ll_evictable l2 = []" "\<not> has_slot l2"
  proof
    fix k assume "k \<in> dom (ll_failures l2)"
    then have k: "ll_failures l2 k \<noteq> None" by auto
    have l2: "linv t l2" by fact
    then have c2: "lcore t l2" by (simp add: linv_def)
    have "k \<notin> {j. ll_failures l2 j \<noteq> None \<and> int (length (fails_of l2 j)) < ll_limit l2}"
      using lcoreD(7) [OF c2] ev(1) by (metis empty_iff empty_set)
    then have "\<not> int (length (fails_of l2 k)) < ll_limit l2" using k by blast
    then have b: "stored_blocked l2 k" using k by (simp add: stored_blocked_def)
    show "k \<in> blocked_sources l2 now"
    proof (cases "has_slot l1 \<or> \<not> refresh")
      case True
      with ev have "l2 = l1" "\<not> refresh" by (auto simp: l2_def split: if_splits)
      then have "now \<le> ll_nextUnblock l2" using ev(1) by (simp add: refresh_def)
      moreover have "ll_nextUnblock l2 \<le> unblock_time l2 k"
        using l2 b by (auto simp: linv_def unblock_ok_def)
      ultimately show ?thesis by (intro counted_if_unblock_late [OF c2 b]) simp
    next
      case False
      then have "l2 = ll_sweep ord l1 now" by (simp add: l2_def)
      with S(2) have sw: "swept now l1 l2" by simp
      then obtain e where e: "ll_failures l1 k = Some e"
          "ll_failures l2 k = Some (e\<lparr> le_fails := live_fails (now - ll_window l1) (le_fails e) \<rparr>)"
        using k by (auto simp: swept_def pruned_all_def pruned_at_def split: option.splits if_splits)
      then have s: "sorted (le_fails e)" using lcore_fails(2) [OF c1(1), of k] by simp
      have "fails_of l2 k = counted_fails l1 now k"
        using e s by (simp add: counted_fails_def live_fails_def sorted_dropWhile_less)
      then have "counted_fails l2 now k = fails_of l2 k"
        using counted_fails_window_eq [OF window_eq_swept [OF c1(1) sw]] by simp
      with b show ?thesis by (simp add: blocked_sources_def counted_def stored_blocked_def)
    qed
  qed
  moreover have "\<And>k. ll_failures l2 k \<noteq> None \<Longrightarrow> ll_failures l k \<noteq> None"
    using d3 dom_pruned_all [of _ _ "ll_failures l1"] S(2)
    by (fastforce simp: l2_def swept_def split: if_splits)
  ultimately show ?thesis by (rule that)
qed

lemma room_iff:
  assumes l: "linv t l" and "has_slot l \<or> ll_evictable l \<noteq> []"
  shows "\<not> all_slots_blocked l now"
proof -
  have c: "lcore t l" and m: "int (mlen (ll_failures l)) \<le> ll_maxEntries l"
    using l by (auto simp: linv_def)
  show ?thesis
  proof (cases "has_slot l")
    case True
    then show ?thesis
      using card_blocked_le [OF c, of now] by (simp add: all_slots_blocked_def has_slot_def)
  next
    case False
    with assms(2) obtain k where "k \<in> set (ll_evictable l)" by (cases "ll_evictable l") auto
    then have "k \<in> dom (ll_failures l)" "k \<notin> blocked_sources l now"
      using lcoreD(7) [OF c] counted_le_stored [of l now k] by (auto simp: blocked_sources_def)
    then have "blocked_sources l now \<subset> dom (ll_failures l)"
      using blocked_subset_dom [OF c] by blast
    then have "card (blocked_sources l now) < mlen (ll_failures l)"
      unfolding mlen_def by (intro psubset_card_mono lcoreD(4) [OF c])
    with m show ?thesis by (simp add: all_slots_blocked_def)
  qed
qed

lemma full_blocked:
  assumes l: "linv t l" and "\<not> has_slot l" "dom (ll_failures l) \<subseteq> blocked_sources l now"
  shows "all_slots_blocked l now"
proof -
  have c: "lcore t l" using l by (simp add: linv_def)
  have "blocked_sources l now = dom (ll_failures l)"
    using blocked_subset_dom [OF c] assms(3) by blast
  with assms(2) show ?thesis by (simp add: all_slots_blocked_def has_slot_def mlen_def)
qed

lemma makeRoom_report:
  assumes "linv t l" "range_order ord" "ll_makeRoom ord l now False = (l', room)"
  shows "linv t l'" "window_eq now l l'" "room \<longleftrightarrow> \<not> all_slots_blocked l now"
proof -
  have "linv t l' \<and> window_eq now l l' \<and> (room \<longleftrightarrow> \<not> all_slots_blocked l now)"
  proof (cases "has_slot l")
    case True
    with assms show ?thesis by (auto simp: ll_makeRoom_def dest: room_iff)
  next
    case False
    obtain l2 where *: "linv t l2" "window_eq now l l2"
      "ll_makeRoom ord l now False =
       (if has_slot l2 then (l2, True) else if ll_evictable l2 = [] then (l2, False)
        else (if False then ll_remove l2 (hd (ll_evictable l2)) else l2, True))"
      "ll_evictable l2 = [] \<Longrightarrow> \<not> has_slot l2 \<Longrightarrow> dom (ll_failures l2) \<subseteq> blocked_sources l2 now"
      using makeRoom_reduce [OF assms(1,2) False, where evict = False and now = now] by metis
    then have "room \<longleftrightarrow> has_slot l2 \<or> ll_evictable l2 \<noteq> []" "l' = l2"
      using assms(3) by (auto split: if_splits)
    then show ?thesis
      using * room_iff [OF *(1)] full_blocked [OF *(1)] all_blocked_window_eq [OF *(2)] by blast
  qed
  then show "linv t l'" "window_eq now l l'" "room \<longleftrightarrow> \<not> all_slots_blocked l now" by auto
qed

text \<open>
  With eviction, a full table gives up one source that is below the limit, and every source that
  stays has at least as many stored failures.
\<close>

lemma makeRoom_evict:
  assumes "linv t l" "range_order ord" "ll_makeRoom ord l now True = (l', room)"
  shows "linv t l'" "same_conf l l'" "room \<longleftrightarrow> \<not> all_slots_blocked l now" "room \<Longrightarrow> has_slot l'"
    and "ll_failures l' k \<noteq> None \<Longrightarrow> ll_failures l k \<noteq> None"
    and "counted_fails l' now k = counted_fails l now k \<or>
      (ll_failures l' k = None \<and> k \<notin> blocked_sources l now \<and>
       int (Suc (mlen (ll_failures l'))) = ll_maxEntries l \<and>
       (\<forall>j. ll_failures l' j \<noteq> None \<longrightarrow> counted l now k \<le> int (length (fails_of l' j))))"
proof -
  let ?kept = "\<forall>k. ll_failures l' k \<noteq> None \<longrightarrow> ll_failures l k \<noteq> None"
  let ?evicted = "\<lambda>k. ll_failures l' k = None \<and> k \<notin> blocked_sources l now \<and>
       int (Suc (mlen (ll_failures l'))) = ll_maxEntries l \<and>
       (\<forall>j. ll_failures l' j \<noteq> None \<longrightarrow> counted l now k \<le> int (length (fails_of l' j)))"
  have "linv t l' \<and> same_conf l l' \<and> (room \<longleftrightarrow> \<not> all_slots_blocked l now) \<and> (room \<longrightarrow> has_slot l') \<and>
    ?kept \<and> (counted_fails l' now k = counted_fails l now k \<or> ?evicted k)"
  proof (cases "has_slot l")
    case True
    then have "l' = l" "room" using assms(3) by (auto simp: ll_makeRoom_def)
    with True assms(1) show ?thesis by (auto dest: room_iff)
  next
    case False
    obtain l2 where *: "linv t l2" "window_eq now l l2"
      "ll_makeRoom ord l now True =
       (if has_slot l2 then (l2, True) else if ll_evictable l2 = [] then (l2, False)
        else (if True then ll_remove l2 (hd (ll_evictable l2)) else l2, True))"
      "ll_evictable l2 = [] \<Longrightarrow> \<not> has_slot l2 \<Longrightarrow> dom (ll_failures l2) \<subseteq> blocked_sources l2 now"
      "\<And>k. ll_failures l2 k \<noteq> None \<Longrightarrow> ll_failures l k \<noteq> None"
      using makeRoom_reduce [OF assms(1,2) False, where evict = True and now = now] by metis
    have sc: "same_conf l l2" using *(2) by (simp add: window_eq_def)
    have room: "room \<longleftrightarrow> has_slot l2 \<or> ll_evictable l2 \<noteq> []"
      using assms(3) *(3) by (auto split: if_splits)
    then have rb: "room \<longleftrightarrow> \<not> all_slots_blocked l now"
      using * room_iff [OF *(1)] full_blocked [OF *(1)] all_blocked_window_eq [OF *(2)] by blast
    show ?thesis
    proof (cases "has_slot l2 \<or> ll_evictable l2 = []")
      case True
      then have "l' = l2" using assms(3) *(3) by (auto split: if_splits)
      with True * sc room rb counted_fails_window_eq [OF *(2)] show ?thesis by auto
    next
      case no: False
      let ?v = "hd (ll_evictable l2)"
      have l': "l' = ll_remove l2 ?v" using no assms(3) *(3) by simp
      have c2: "lcore t l2" and full: "int (mlen (ll_failures l2)) = ll_maxEntries l2"
        using *(1) no by (auto simp: linv_def has_slot_def)
      have v: "?v = ll_evictable l2 ! 0" "?v \<in> set (ll_evictable l2)" using no by (auto simp: hd_conv_nth)
      then have v2: "ll_failures l2 ?v \<noteq> None" "int (length (fails_of l2 ?v)) < ll_limit l2"
        using lcoreD(7) [OF c2] by auto
      have least: "length (fails_of l2 ?v) \<le> length (fails_of l2 j)" if j: "ll_failures l2 j \<noteq> None" for j
      proof (cases "j \<in> set (ll_evictable l2)")
        case True
        then obtain i where i: "i < length (ll_evictable l2)" "ll_evictable l2 ! i = j"
          by (auto simp: in_set_conv_nth)
        have "\<not> entry_less (ll_failures l2) j ?v"
          using eo.root_minimal [of "ll_failures l2" _ _ i] lcoreD(6) [OF c2] i v(1)
          by (auto simp: heap_part_def)
        then show ?thesis
          using j v2(1) by (auto simp: entry_less_def Let_def split: if_splits)
      next
        case False
        then have "ll_limit l2 \<le> int (length (fails_of l2 j))" using lcoreD(7) [OF c2] j by auto
        with v2(2) show ?thesis by linarith
      qed
      have m: "Suc (mlen (ll_failures l')) = mlen (ll_failures l2)"
        using mlen_del [OF lcoreD(4) [OF c2], of ?v] mlen_pos [OF lcoreD(4) [OF c2] v2(1)] v2(1)
        by (simp add: l')
      have cnt: "counted l2 now ?v \<le> int (length (fails_of l2 ?v))" by (rule counted_le_stored)
      then have "?v \<notin> blocked_sources l2 now" using v2(2) by (simp add: blocked_sources_def)
      then have nb: "?v \<notin> blocked_sources l now" using blocked_window_eq [OF *(2)] by simp
      have "counted l now ?v \<le> int (length (fails_of l' j))" if j: "ll_failures l' j \<noteq> None" for j
      proof -
        have "j \<noteq> ?v" "ll_failures l2 j \<noteq> None" using j by (auto simp: l' split: if_splits)
        then show ?thesis
          using least [of j] cnt counted_window_eq [OF *(2), of ?v] by (simp add: l')
      qed
      with nb have ev: "?evicted ?v"
        using m full sc by (simp add: l' same_conf_def)
      have "counted_fails l' now j = counted_fails l now j" if "j \<noteq> ?v" for j
        using that counted_fails_window_eq [OF *(2), of j] by (simp add: l' counted_fails_def)
      moreover have "has_slot l'" using m full by (simp add: has_slot_def l')
      moreover have "same_conf l l'" using sc by (simp add: same_conf_def l')
      ultimately show ?thesis
        using ev linv_remove [OF *(1), of ?v] *(5) rb room no by (auto simp: l')
    qed
  qed
  then show "linv t l'" "same_conf l l'" "room \<longleftrightarrow> \<not> all_slots_blocked l now" "room \<Longrightarrow> has_slot l'"
    and "ll_failures l' k \<noteq> None \<Longrightarrow> ll_failures l k \<noteq> None"
    and "counted_fails l' now k = counted_fails l now k \<or> ?evicted k"
    by auto
qed

lemma makeRoom_refused_window:
  assumes "linv t l" "range_order ord" "ll_makeRoom ord l now True = (l', False)"
  shows "window_eq now l l'"
proof (cases "has_slot l")
  case True
  with assms show ?thesis by (simp add: ll_makeRoom_def)
next
  case False
  obtain l2 where "window_eq now l l2"
    "ll_makeRoom ord l now True =
       (if has_slot l2 then (l2, True) else if ll_evictable l2 = [] then (l2, False)
        else (if True then ll_remove l2 (hd (ll_evictable l2)) else l2, True))"
    using makeRoom_reduce [OF assms(1,2) False, where evict = True and now = now] by metis
  with assms(3) show ?thesis by (auto split: if_splits)
qed

subsection \<open>Appending a failure\<close>

lemma append_changed:
  assumes l: "lcore t l" and t: "t \<le> now" "0 < now"
  shows "changed now l key
    ((case ll_failures l key of None \<Rightarrow> \<lparr> le_key = key, le_fails = [] \<rparr> | Some e \<Rightarrow> e)
       \<lparr> le_fails := fails_of l key @ [now] \<rparr>)
    (l\<lparr> ll_failures := (ll_failures l)(key \<mapsto>
          (case ll_failures l key of None \<Rightarrow> \<lparr> le_key = key, le_fails = [] \<rparr> | Some e \<Rightarrow> e)
            \<lparr> le_fails := fails_of l key @ [now] \<rparr>),
        ll_seen := remove1 key (ll_seen l) @ [key] \<rparr>)"
    (is "changed now l key ?e ?l1")
proof -
  note D = lcoreD [OF l]
  have ok: "entry_ok now key ?e"
    using lcoreD(5) [OF l, of key] t
    by (auto simp: entry_ok_def fails_of_def sorted_append split: option.splits intro: order_trans)
  have f: "fails_of ?l1 j = (if j = key then fails_of l key @ [now] else fails_of l j)" for j
    by (simp add: fails_of_def)
  have meq: "map (\<lambda>j. last (fails_of ?l1 j)) (remove1 key (ll_seen l)) = map (\<lambda>j. last (fails_of l j)) (remove1 key (ll_seen l))"
    using D(8) by (intro map_cong) (auto simp: f)
  have s1: "sorted (map (\<lambda>j. last (fails_of ?l1 j)) (remove1 key (ll_seen l)))"
    unfolding meq by (rule sorted_map_remove1 [OF D(10)])
  have "last (fails_of ?l1 j) \<le> now" if "j \<in> set (remove1 key (ll_seen l))" for j
  proof -
    have "j \<noteq> key" "ll_failures l j \<noteq> None" using that D(8,9) by auto
    then have "last (fails_of l j) \<le> t"
      using lcore_fails [OF l] by (meson last_in_set)
    with t \<open>j \<noteq> key\<close> show ?thesis by (simp add: f)
  qed
  with s1 have "sorted (map (\<lambda>j. last (fails_of ?l1 j)) (ll_seen ?l1))"
    by (auto simp: sorted_append f)
  moreover have "set (ll_seen ?l1) = insert key (dom (ll_failures l))" "distinct (ll_seen ?l1)"
    using D(8,9) by auto
  ultimately show ?thesis
    using lcore_mono [OF l t(1)] ok by (simp add: changed_def same_conf_def)
qed

lemma append_step:
  assumes l: "linv t l" and t: "t \<le> now" "0 < now" and room: "ll_failures l key \<noteq> None \<or> has_slot l"
  shows "linv now (ll_append_failure l key now)" "same_conf l (ll_append_failure l key now)"
    and "fails_of (ll_append_failure l key now) k =
      (if k = key then fails_of l key @ [now] else fails_of l k)"
    and "ll_failures (ll_append_failure l key now) k = None \<longleftrightarrow> k \<noteq> key \<and> ll_failures l k = None"
    and "mlen (ll_failures (ll_append_failure l key now)) =
      (if ll_failures l key = None then Suc (mlen (ll_failures l)) else mlen (ll_failures l))"
proof -
  let ?e = "(case ll_failures l key of None \<Rightarrow> \<lparr> le_key = key, le_fails = [] \<rparr> | Some e \<Rightarrow> e)
       \<lparr> le_fails := fails_of l key @ [now] \<rparr>"
  let ?l1 = "l\<lparr> ll_failures := (ll_failures l)(key \<mapsto> ?e), ll_seen := remove1 key (ll_seen l) @ [key] \<rparr>"
  have c: "lcore t l" and u: "\<And>k. unblock_ok l k" and m: "int (mlen (ll_failures l)) \<le> ll_maxEntries l"
    using l by (auto simp: linv_def)
  note ch = append_changed [OF c t, of key]
  have eq: "ll_append_failure l key now = ll_refile ?l1 key"
    by (simp add: ll_append_failure_def Let_def fails_of_def split: option.splits)
  show ml: "mlen (ll_failures (ll_append_failure l key now)) =
      (if ll_failures l key = None then Suc (mlen (ll_failures l)) else mlen (ll_failures l))"
    using lcoreD(4) [OF c] by (simp add: eq)
  have "unblock_ok (ll_refile ?l1 key) k" for k
    using unblock_ok_refile(1) [OF ch] unblock_ok_refile(2) [OF ch _ u [of k]] by (cases "k = key") auto
  then show "linv now (ll_append_failure l key now)"
    using lcore_refile [OF ch] room m ml by (auto simp: linv_def eq has_slot_def)
  show "same_conf l (ll_append_failure l key now)" by (simp add: eq same_conf_def)
  show "fails_of (ll_append_failure l key now) k =
      (if k = key then fails_of l key @ [now] else fails_of l k)"
    by (simp add: eq fails_of_def)
  show "ll_failures (ll_append_failure l key now) k = None \<longleftrightarrow> k \<noteq> key \<and> ll_failures l k = None"
    by (simp add: eq)
qed

subsection \<open>The operations\<close>

definition ll_visit ::
    "((string \<rightharpoonup> limiter_entry) \<Rightarrow> string list) \<Rightarrow> login_limiter \<Rightarrow> gtime \<Rightarrow> string \<Rightarrow> login_limiter" where
  "ll_visit ord l now key =
     (let l1 = ll_maybeSweep ord l now
      in case ll_failures l1 key of None \<Rightarrow> l1 | Some _ \<Rightarrow> ll_prune l1 key now)"

text \<open>
  The common prefix of the operations: sweep when due, then prune the source's own entry.
  Afterwards the entry holds exactly the failures inside the window.
\<close>

lemma visit_step:
  assumes "linv t l" "range_order ord"
  shows "linv t (ll_visit ord l now key)" "window_eq now l (ll_visit ord l now key)"
    and "fails_of (ll_visit ord l now key) key = counted_fails l now key"
    and "ll_failures (ll_visit ord l now key) key = None \<longleftrightarrow> counted_fails l now key = []"
proof -
  define l1 where "l1 = ll_maybeSweep ord l now"
  note M = maybeSweep_step [OF assms, of now, folded l1_def]
  have c: "lcore t l1" using M(1) by (simp add: linv_def)
  have v: "ll_visit ord l now key = (case ll_failures l1 key of None \<Rightarrow> l1 | Some _ \<Rightarrow> ll_prune l1 key now)"
    unfolding ll_visit_def Let_def l1_def by (rule refl)
  have V: "linv t (ll_visit ord l now key)" "window_eq now l (ll_visit ord l now key)"
    using M linv_prune [OF M(1), of key] window_eq_prune [OF c, of key]
    by (auto simp: v split: option.splits intro: window_eq_trans)
  have f: "fails_of (ll_visit ord l now key) key = counted_fails l now key"
  proof (cases "ll_failures l1 key")
    case None
    then show ?thesis
      using counted_fails_window_eq [OF M(2), of key] by (simp add: v counted_fails_def)
  next
    case (Some e)
    then show ?thesis
      using counted_after_prune [OF c Some] counted_fails_window_eq [OF M(2), of key] by (simp add: v)
  qed
  have "lcore t (ll_visit ord l now key)" using V(1) by (simp add: linv_def)
  then have "ll_failures (ll_visit ord l now key) key = None \<longleftrightarrow> counted_fails l now key = []"
    using f lcore_fails(1) [of t "ll_visit ord l now key" key] by (cases "ll_failures (ll_visit ord l now key) key") auto
  with V f show "linv t (ll_visit ord l now key)" "window_eq now l (ll_visit ord l now key)"
    "fails_of (ll_visit ord l now key) key = counted_fails l now key"
    "ll_failures (ll_visit ord l now key) key = None \<longleftrightarrow> counted_fails l now key = []"
    by auto
qed

lemma not_all_blocked_if_below:
  assumes "linv t l" "ll_failures l k \<noteq> None" "counted l now k < ll_limit l"
  shows "\<not> all_slots_blocked l now"
proof -
  have c: "lcore t l" and m: "int (mlen (ll_failures l)) \<le> ll_maxEntries l"
    using assms(1) by (auto simp: linv_def)
  have "k \<in> dom (ll_failures l)" "k \<notin> blocked_sources l now"
    using assms(2,3) by (auto simp: blocked_sources_def)
  then have "blocked_sources l now \<subset> dom (ll_failures l)"
    using blocked_subset_dom [OF c] by blast
  then have "card (blocked_sources l now) < mlen (ll_failures l)"
    unfolding mlen_def by (intro psubset_card_mono lcoreD(4) [OF c])
  with m show ?thesis by (simp add: all_slots_blocked_def)
qed

lemma allow_visit:
  assumes "0 < ll_limit l"
  shows "ll_allow key_of ord l now ip =
    (let key = key_of ip; l1 = ll_maybeSweep ord l now; l2 = ll_visit ord l now key in
     case ll_failures l1 key of
       None \<Rightarrow> (case ll_makeRoom ord l2 now False of
           (l3, room) \<Rightarrow> if \<not> room then (l3, False, ll_window l3) else (l3, True, 0))
     | Some _ \<Rightarrow> (case ll_failures l2 key of
           None \<Rightarrow> (l2, True, 0)
         | Some e \<Rightarrow> if int (length (le_fails e)) < ll_limit l2 then (l2, True, 0)
             else (l2, False, max 0 (ll_window l2 - time_sub now (le_fails e ! 0)))))"
  using assms by (auto simp: ll_allow_def ll_visit_def Let_def split: option.splits)

lemma allow_step:
  assumes l: "linv t l" and o: "range_order ord" and r: "ll_allow key_of ord l now ip = (l', ok, wait)"
  shows "linv t l'" "window_eq now l l'"
    and "ok \<longleftrightarrow> counted l now (key_of ip) < ll_limit l \<and> \<not> all_slots_blocked l now"
    and "\<not> ok \<Longrightarrow> wait = (if counted l now (key_of ip) < ll_limit l then ll_window l
           else max 0 (ll_window l - time_sub now (counted_fails l now (key_of ip) ! 0)))"
proof -
  let ?k = "key_of ip" let ?l2 = "ll_visit ord l now ?k" let ?l1 = "ll_maybeSweep ord l now"
  have lim: "0 < ll_limit l" using l by (simp add: linv_def lcore_def)
  note M = maybeSweep_step [OF l o, of now]
  note V = visit_step [OF l o, of now ?k]
  have sc: "ll_limit ?l2 = ll_limit l" "ll_window ?l2 = ll_window l"
    using V(2) by (simp_all add: window_eq_def same_conf_def)
  have "linv t l' \<and> window_eq now l l' \<and>
    (ok \<longleftrightarrow> counted l now ?k < ll_limit l \<and> \<not> all_slots_blocked l now) \<and>
    (\<not> ok \<longrightarrow> wait = (if counted l now ?k < ll_limit l then ll_window l
           else max 0 (ll_window l - time_sub now (counted_fails l now ?k ! 0))))"
  proof (cases "ll_failures ?l1 ?k")
    case None
    obtain l3 room where R: "ll_makeRoom ord ?l2 now False = (l3, room)" by fastforce
    note mr = makeRoom_report [OF V(1) o R]
    have w: "window_eq now l l3" by (rule window_eq_trans [OF V(2) mr(2)])
    have "ll_failures ?l2 ?k = None" using None by (simp add: ll_visit_def)
    then have "counted l now ?k = 0" using V(4) by (simp add: counted_def)
    then show ?thesis
      using r None R mr w lim all_blocked_window_eq [OF V(2)]
      by (auto simp: allow_visit [OF lim] Let_def window_eq_def same_conf_def split: if_splits)
  next
    case (Some e)
    have nb: "counted l now ?k < ll_limit l \<Longrightarrow> \<not> all_slots_blocked l now"
    proof -
      assume "counted l now ?k < ll_limit l"
      then have "counted ?l1 now ?k < ll_limit ?l1"
        using counted_window_eq [OF M(2), of ?k] M(2) by (simp add: window_eq_def same_conf_def)
      then have "\<not> all_slots_blocked ?l1 now"
        using not_all_blocked_if_below [OF M(1)] Some by blast
      then show ?thesis using all_blocked_window_eq [OF M(2)] by simp
    qed
    show ?thesis
    proof (cases "ll_failures ?l2 ?k")
      case None
      then have "counted l now ?k = 0" using V(4) by (simp add: counted_def)
      then show ?thesis
        using r Some None V(1,2) nb lim by (auto simp: allow_visit [OF lim] Let_def)
    next
      case (Some e2)
      then have "le_fails e2 = counted_fails l now ?k" using V(3) by simp
      then show ?thesis
        using r Some \<open>ll_failures ?l1 ?k = Some e\<close> V(1,2) nb sc
        by (auto simp: allow_visit [OF lim] Let_def counted_def split: if_splits)
    qed
  qed
  then show "linv t l'" "window_eq now l l'"
    "ok \<longleftrightarrow> counted l now ?k < ll_limit l \<and> \<not> all_slots_blocked l now"
    "\<not> ok \<Longrightarrow> wait = (if counted l now ?k < ll_limit l then ll_window l
           else max 0 (ll_window l - time_sub now (counted_fails l now ?k ! 0)))"
    by auto
qed

lemma admit_visit:
  assumes "0 < ll_limit l"
  shows "ll_admit key_of ord l now ip reserved =
    (let key = key_of ip; l2 = ll_visit ord l now key; fails = fails_of l2 key; failed = int (length fails);
         (l3, room) = (if ll_failures l2 key = None then ll_makeRoom ord l2 now False else (l2, True))
     in if \<not> room then (l3, False, ll_window l3)
        else if failed + reserved < ll_limit l3 then (l3, True, 0)
        else if failed < ll_limit l3 then (l3, False, 0)
        else (l3, False, max 0 (ll_window l3 - time_sub now (fails ! nat (failed - ll_limit l3)))))"
  using assms by (simp add: ll_admit_def ll_visit_def Let_def)

lemma admit_step:
  assumes l: "linv t l" and o: "range_order ord" and res: "0 \<le> reserved"
    and r: "ll_admit key_of ord l now ip reserved = (l', ok, wait)"
  shows "linv t l'" "window_eq now l l'"
    and "ok \<longleftrightarrow> counted l now (key_of ip) + reserved < ll_limit l \<and> \<not> all_slots_blocked l now"
    and "\<not> ok \<Longrightarrow> ll_limit l \<le> counted l now (key_of ip) \<Longrightarrow>
      wait = max 0 (ll_window l - time_sub now (counted_fails l now (key_of ip) !
                     nat (counted l now (key_of ip) - ll_limit l)))"
proof -
  let ?k = "key_of ip" let ?l2 = "ll_visit ord l now ?k"
  have lim: "0 < ll_limit l" using l by (simp add: linv_def lcore_def)
  note V = visit_step [OF l o, of now ?k]
  have sc: "ll_limit ?l2 = ll_limit l" "ll_window ?l2 = ll_window l"
    using V(2) by (simp_all add: window_eq_def same_conf_def)
  have "linv t l' \<and> window_eq now l l' \<and>
    (ok \<longleftrightarrow> counted l now ?k + reserved < ll_limit l \<and> \<not> all_slots_blocked l now) \<and>
    (\<not> ok \<longrightarrow> ll_limit l \<le> counted l now ?k \<longrightarrow>
      wait = max 0 (ll_window l - time_sub now (counted_fails l now ?k ! nat (counted l now ?k - ll_limit l))))"
  proof (cases "ll_failures ?l2 ?k = None")
    case True
    obtain l3 room where R: "ll_makeRoom ord ?l2 now False = (l3, room)" by fastforce
    note mr = makeRoom_report [OF V(1) o R]
    have w: "window_eq now l l3" by (rule window_eq_trans [OF V(2) mr(2)])
    have "counted l now ?k = 0" using V(4) True by (simp add: counted_def)
    then show ?thesis
      using r True R mr(1,3) w lim all_blocked_window_eq [OF V(2)]
      by (auto simp: admit_visit [OF lim] Let_def window_eq_def same_conf_def split: if_splits)
  next
    case False
    have nb: "counted l now ?k < ll_limit l \<Longrightarrow> \<not> all_slots_blocked l now"
      using not_all_blocked_if_below [OF V(1) False] counted_window_eq [OF V(2), of ?k]
        all_blocked_window_eq [OF V(2)] sc by simp
    then show ?thesis
      using r False V(1,2,3) sc res
      by (auto simp: admit_visit [OF lim] Let_def counted_def split: if_splits)
  qed
  then show "linv t l'" "window_eq now l l'"
    "ok \<longleftrightarrow> counted l now ?k + reserved < ll_limit l \<and> \<not> all_slots_blocked l now"
    "\<not> ok \<Longrightarrow> ll_limit l \<le> counted l now ?k \<Longrightarrow>
      wait = max 0 (ll_window l - time_sub now (counted_fails l now ?k ! nat (counted l now ?k - ll_limit l)))"
    by auto
qed

lemma record_visit:
  assumes "0 < ll_limit l"
  shows "ll_recordFailure key_of ord l now ip =
    (let key = key_of ip; l2 = ll_visit ord l now key
     in case ll_failures l2 key of
          Some _ \<Rightarrow> ll_append_failure l2 key now
        | None \<Rightarrow> (case ll_makeRoom ord l2 now True of
             (l3, room) \<Rightarrow> if room then ll_append_failure l3 key now else l3))"
  using assms by (simp add: ll_recordFailure_def ll_visit_def Let_def)

lemma counted_fails_append:
  assumes "same_conf l l'" "0 < ll_window l" "fails_of l' k = fails_of l k @ [now]"
  shows "counted_fails l' now k = counted_fails l now k @ [now]"
  using assms by (simp add: counted_fails_def same_conf_def)

lemma record_step:
  assumes l: "linv t l" and o: "range_order ord" and t: "t \<le> now" "0 < now"
    and l'_def: "l' = ll_recordFailure key_of ord l now ip"
  shows "linv now l'" "same_conf l l'"
    and "counted_fails l' now (key_of ip) =
      (if counted l now (key_of ip) = 0 \<and> all_slots_blocked l now then []
       else counted_fails l now (key_of ip) @ [now])"
    and "k \<noteq> key_of ip \<Longrightarrow> counted_fails l' now k = counted_fails l now k \<or>
      (ll_failures l' k = None \<and> k \<notin> blocked_sources l now \<and>
       int (mlen (ll_failures l')) = ll_maxEntries l \<and>
       (\<forall>j. j \<noteq> key_of ip \<longrightarrow> ll_failures l' j \<noteq> None \<longrightarrow>
          counted l now k \<le> int (length (fails_of l' j))))"
proof -
  let ?k = "key_of ip" let ?l2 = "ll_visit ord l now ?k"
  let ?evicted = "\<lambda>k. ll_failures l' k = None \<and> k \<notin> blocked_sources l now \<and>
       int (mlen (ll_failures l')) = ll_maxEntries l \<and>
       (\<forall>j. j \<noteq> ?k \<longrightarrow> ll_failures l' j \<noteq> None \<longrightarrow> counted l now k \<le> int (length (fails_of l' j)))"
  have lim: "0 < ll_limit l" and win: "0 < ll_window l" using l by (simp_all add: linv_def lcore_def)
  note V = visit_step [OF l o, of now ?k]
  have sc: "same_conf l ?l2" using V(2) by (simp add: window_eq_def)
  note cf = counted_fails_window_eq [OF V(2)]
  have "linv now l' \<and> same_conf l l' \<and>
    counted_fails l' now ?k = (if counted l now ?k = 0 \<and> all_slots_blocked l now then []
       else counted_fails l now ?k @ [now]) \<and>
    (k \<noteq> ?k \<longrightarrow> counted_fails l' now k = counted_fails l now k \<or> ?evicted k)"
  proof (cases "ll_failures ?l2 ?k = None")
    case False
    then have l': "l' = ll_append_failure ?l2 ?k now"
      by (auto simp: l'_def record_visit [OF lim] Let_def)
    note A = append_step [OF V(1) t disjI1 [OF False]]
    have "counted l now ?k \<noteq> 0" using V(4) False by (simp add: counted_def)
    moreover have "counted_fails l' now ?k = counted_fails l now ?k @ [now]"
      using counted_fails_append [OF A(2), of ?k] A(3) [of ?k] cf [of ?k] sc win
      by (simp add: l' same_conf_def)
    moreover have "counted_fails l' now k = counted_fails l now k" if "k \<noteq> ?k"
      using that A(2) A(3) [of k] cf [of k] sc by (simp add: l' counted_fails_def same_conf_def)
    ultimately show ?thesis using A(1,2) sc by (simp add: l' same_conf_def)
  next
    case True
    then have z: "counted l now ?k = 0" "counted_fails l now ?k = []" using V(4) by (simp_all add: counted_def)
    obtain l3 room where R: "ll_makeRoom ord ?l2 now True = (l3, room)" by fastforce
    note mr = makeRoom_evict [OF V(1) o R]
    have l3None: "ll_failures l3 ?k = None" using mr(5) [of ?k] True by blast
    have sc3: "same_conf l l3" by (rule same_conf_trans [OF sc mr(2)])
    have ab: "room \<longleftrightarrow> \<not> all_slots_blocked l now" using mr(3) all_blocked_window_eq [OF V(2)] by simp
    have ev: "counted_fails l3 now k = counted_fails l now k \<or>
      (ll_failures l3 k = None \<and> k \<notin> blocked_sources l now \<and>
       int (Suc (mlen (ll_failures l3))) = ll_maxEntries l \<and>
       (\<forall>j. ll_failures l3 j \<noteq> None \<longrightarrow> counted l now k \<le> int (length (fails_of l3 j))))"
      using mr(6) [of k] cf [of k] sc blocked_window_eq [OF V(2)] counted_window_eq [OF V(2), of k]
      by (simp add: same_conf_def)
    have l': "l' = (if room then ll_append_failure l3 ?k now else l3)"
      using True R by (simp add: l'_def record_visit [OF lim] Let_def)
    show ?thesis
    proof (cases room)
      case False
      have "\<not> int (Suc (mlen (ll_failures l3))) = ll_maxEntries l \<or> has_slot l3"
        using sc3 by (auto simp: has_slot_def same_conf_def)
      moreover have "counted_fails l3 now ?k = []" using l3None by (simp add: counted_fails_def)
      moreover have "counted_fails l3 now k = counted_fails l now k"
      proof -
        have "all_slots_blocked ?l2 now" using False mr(3) by simp
        have "k \<notin> blocked_sources l now \<longrightarrow> counted_fails l3 now k = counted_fails l now k"
          using counted_fails_window_eq [OF makeRoom_refused_window [OF V(1) o], of now l3 k] R False cf [of k]
          by simp
        with ev show ?thesis by blast
      qed
      ultimately show ?thesis
        using False ab z linv_mono [OF mr(1) t(1)] sc3 by (simp add: l')
    next
      case room: True
      note A = append_step [OF mr(1) t disjI2 [OF mr(4) [OF room]], of ?k]
      have sc4: "same_conf l l'" using same_conf_trans [OF sc3 A(2)] room by (simp add: l')
      have "counted_fails l' now ?k = [now]"
        using A(3) [of ?k] l3None sc4 win room by (simp add: l' counted_fails_def same_conf_def)
      moreover have "counted_fails l' now k = counted_fails l now k \<or> ?evicted k" if "k \<noteq> ?k"
        using ev that A(2) A(3) A(4) A(5) l3None room
        by (auto simp: l' counted_fails_def same_conf_def)
      ultimately show ?thesis using A(1) room ab z sc4 by (simp add: l')
    qed
  qed
  then show "linv now l'" "same_conf l l'"
    "counted_fails l' now ?k = (if counted l now ?k = 0 \<and> all_slots_blocked l now then []
       else counted_fails l now ?k @ [now])"
    "k \<noteq> ?k \<Longrightarrow> counted_fails l' now k = counted_fails l now k \<or> ?evicted k"
    by auto
qed

end
