(* ===== verification/LoginLimiterProps.thy ===== *)
theory LoginLimiterProps
  imports LoginLimiterInv
begin

text \<open>
  What \<open>httpapi/login_limiter.go\<close> promises its callers, in terms of the failures of a source that
  lie inside the window (\<open>counted_fails\<close>, \<open>counted\<close>), the sources at the limit (\<open>blocked_sources\<close>)
  and the table bound. The lemmas of \<open>LoginLimiterInv\<close> carry the proofs.
\<close>

lemma counted_new [simp]: "counted_fails (newBoundedLoginLimiter m w n) now k = []"
  by (simp add: counted_fails_def fails_of_def newBoundedLoginLimiter_def)

lemma counted_new_num [simp]: "counted (newBoundedLoginLimiter m w n) now k = 0"
  by (simp add: counted_def)

lemma not_all_blocked_new: "0 < m \<Longrightarrow> \<not> all_slots_blocked (newBoundedLoginLimiter m w n) now"
proof -
  assume "0 < m"
  have "ll_limit (newBoundedLoginLimiter m w n) = m" "0 < ll_maxEntries (newBoundedLoginLimiter m w n)"
    by (simp_all add: newBoundedLoginLimiter_def defaultLoginLimiterMaxEntries_def)
  with \<open>0 < m\<close> show ?thesis by (simp add: all_slots_blocked_def blocked_sources_def)
qed

text \<open>C24: \<open>allow\<close> admits a source exactly when fewer than \<open>limit\<close> of its failures lie inside the
  window and the table is not full of blocked sources (every other full table can free a slot, so
  a new source is never refused while one is reclaimable). It keeps the limiter's invariant and
  does not change what is counted for any source.\<close>

theorem login_allow_correct:
  assumes "linv t l" "range_order ord" "ll_allow key_of ord l now ip = (l', ok, wait)"
  shows "linv t l' \<and> (\<forall>k. counted_fails l' now k = counted_fails l now k) \<and>
    (ok \<longleftrightarrow> counted l now (key_of ip) < ll_limit l \<and> \<not> all_slots_blocked l now)"
  using allow_step [OF assms] counted_fails_window_eq by blast

lemma login_allow_correct_witness:
  "fst (snd (ll_allow (\<lambda>ip. ip) sorted_range (newBoundedLoginLimiter 3 10 2) 5 ''a''))"
proof -
  obtain l' ok wait where r:
    "ll_allow (\<lambda>ip. ip) sorted_range (newBoundedLoginLimiter 3 10 2) 5 ''a'' = (l', ok, wait)"
    by (metis prod_cases3)
  have "linv 5 (newBoundedLoginLimiter 3 10 2)" by (simp add: linv_new)
  from login_allow_correct [OF this range_order_sorted r] show ?thesis
    by (simp add: r not_all_blocked_new) (simp add: newBoundedLoginLimiter_def)
qed

text \<open>C25: \<open>recordFailure\<close> adds exactly one failure to its own source (unless the source is new and
  every slot is blocked, when it does nothing to it), keeps the invariant, and changes no other
  source's count except by evicting it; the table never holds more than \<open>maxEntries\<close> sources; a
  blocked source is never evicted; and a source is only evicted from a full table, when every
  source that stays has at least as many stored failures as the victim has in the window.\<close>

theorem login_record_correct:
  assumes "linv t l" "range_order ord" "t \<le> now" "0 < now"
    and "l' = ll_recordFailure key_of ord l now ip"
  shows "linv now l' \<and> int (mlen (ll_failures l')) \<le> ll_maxEntries l \<and>
    counted_fails l' now (key_of ip) =
      (if counted l now (key_of ip) = 0 \<and> all_slots_blocked l now then []
       else counted_fails l now (key_of ip) @ [now]) \<and>
    (\<forall>k. k \<noteq> key_of ip \<longrightarrow> counted_fails l' now k = counted_fails l now k \<or>
      (ll_failures l' k = None \<and> counted l now k < ll_limit l \<and>
       int (mlen (ll_failures l')) = ll_maxEntries l \<and>
       (\<forall>j. j \<noteq> key_of ip \<longrightarrow> ll_failures l' j \<noteq> None \<longrightarrow>
          counted l now k \<le> int (length (fails_of l' j)))))"
proof -
  note R = record_step [OF assms]
  have "int (mlen (ll_failures l')) \<le> ll_maxEntries l"
    using R(1,2) by (simp add: linv_def same_conf_def)
  moreover have "k \<noteq> key_of ip \<Longrightarrow> counted_fails l' now k = counted_fails l now k \<or>
      (ll_failures l' k = None \<and> counted l now k < ll_limit l \<and>
       int (mlen (ll_failures l')) = ll_maxEntries l \<and>
       (\<forall>j. j \<noteq> key_of ip \<longrightarrow> ll_failures l' j \<noteq> None \<longrightarrow>
          counted l now k \<le> int (length (fails_of l' j))))" for k
    using R(4) [of k] by (auto simp: blocked_sources_def not_le)
  ultimately show ?thesis using R(1,3) by blast
qed

lemma login_record_correct_witness:
  "counted_fails (ll_recordFailure (\<lambda>ip. ip) sorted_range (newBoundedLoginLimiter 3 10 2) 5 ''a'') 5 ''a'' = [5]"
proof -
  have "linv 4 (newBoundedLoginLimiter 3 10 2)" by (simp add: linv_new)
  from login_record_correct [OF this range_order_sorted _ _ refl, of 5 "\<lambda>ip. ip" "''a''"]
  show ?thesis by (simp add: not_all_blocked_new)
qed

lemma filter_sorted_tail:
  assumes "sorted xs" "i < length xs" "xs ! i < (c :: int)"
  shows "length (filter (\<lambda>x. c \<le> x) xs) < length xs - i"
proof -
  have "filter (\<lambda>x. c \<le> x) (take (Suc i) xs) = []"
  proof -
    have "x < c" if x: "x \<in> set (take (Suc i) xs)" for x
    proof -
      obtain j where "j < length (take (Suc i) xs)" "x = take (Suc i) xs ! j"
        using x by (metis in_set_conv_nth)
      then have j: "j \<le> i" "x = xs ! j" using assms(2) by simp_all
      with sorted_nth_mono [OF assms(1), of j i] assms show ?thesis by simp
    qed
    then show ?thesis unfolding filter_empty_conv using not_le by blast
  qed
  then have "filter (\<lambda>x. c \<le> x) xs = filter (\<lambda>x. c \<le> x) (drop (Suc i) xs)"
    by (metis append_Nil append_take_drop_id filter_append)
  then have "length (filter (\<lambda>x. c \<le> x) xs) \<le> length xs - Suc i"
    by (metis length_drop length_filter_le)
  then show ?thesis using assms(2) by simp
qed

lemma counted_sorted: "linv t l \<Longrightarrow> sorted (counted_fails l now k)"
  by (auto simp: linv_def lcore_def counted_fails_def fails_of_def entry_ok_def
      split: option.splits intro: sorted_filter [where f = "\<lambda>x. x", simplified])

lemma counted_bounds:
  assumes "linv t l" "t \<le> now" "x \<in> set (counted_fails l now k)"
  shows "now - ll_window l \<le> x" "x \<le> now"
proof -
  have "\<exists>e. ll_failures l k = Some e \<and> x \<in> set (le_fails e)"
    using assms(3) by (cases "ll_failures l k") (simp_all add: counted_fails_def fails_of_def)
  then obtain e where e: "ll_failures l k = Some e" "x \<in> set (le_fails e)" by blast
  then have "entry_ok t k e" using assms(1) by (simp add: linv_def lcore_def)
  then show "x \<le> now" using e(2) assms(2) by (auto simp: entry_ok_def)
  show "now - ll_window l \<le> x" using assms(3) by (simp add: counted_fails_def)
qed

text \<open>C26: the wait \<open>admit\<close> returns to a source refused for its failures is long enough: at any
  instant after it, unless new failures were recorded, fewer than \<open>limit\<close> failures are counted
  for the source, so it passes again; and it is never longer than the window.\<close>

theorem login_admit_wait_suffices:
  assumes "linv t l" "range_order ord" "t \<le> now" "0 \<le> reserved" "ll_window l \<le> max_duration"
    and "ll_admit key_of ord l now ip reserved = (l', ok, wait)" "\<not> ok"
    and "ll_limit l \<le> counted l now (key_of ip)"
  shows "wait \<le> ll_window l \<and> (\<forall>later > now + wait. counted l' later (key_of ip) < ll_limit l)"
proof -
  let ?k = "key_of ip" let ?cs = "counted_fails l now ?k"
  note A = admit_step [OF assms(1,2,4,6)]
  have lim: "0 < ll_limit l" "0 < ll_window l" using assms(1) by (simp_all add: linv_def lcore_def)
  let ?i = "nat (counted l now ?k - ll_limit l)"
  have i: "?i < length ?cs" "length ?cs - ?i = nat (ll_limit l)"
    using lim assms(8) by (simp_all add: counted_def)
  have x: "now - ll_window l \<le> ?cs ! ?i" "?cs ! ?i \<le> now"
    using counted_bounds [OF assms(1,3) nth_mem [OF i(1)]] by simp_all
  have w: "wait = ll_window l - (now - ?cs ! ?i)"
    using A(4) [OF assms(7,8)] x assms(5) lim by (simp add: time_sub_exact min_duration_def)
  have wl: "ll_window l' = ll_window l" using A(2) by (simp add: window_eq_def same_conf_def)
  have "counted l' later ?k < ll_limit l" if later: "now + wait < later" for later
  proof -
    have x': "?cs ! ?i < later - ll_window l" using later w by simp
    have le: "now \<le> later" using later w x by linarith
    have "counted_fails l' later ?k = filter (\<lambda>x. later - ll_window l \<le> x) (counted_fails l' now ?k)"
      using le by (auto simp: counted_fails_def wl intro!: filter_cong)
    also have "\<dots> = filter (\<lambda>x. later - ll_window l \<le> x) ?cs"
      by (simp add: counted_fails_window_eq [OF A(2)])
    finally have "length (counted_fails l' later ?k) < length ?cs - ?i"
      using filter_sorted_tail [OF counted_sorted [OF assms(1)] i(1) x'] by simp
    then show ?thesis using i(2) lim by (simp add: counted_def)
  qed
  then show ?thesis using w x by simp
qed

definition one_failure :: login_limiter where
  "one_failure = ll_recordFailure (\<lambda>ip. ip) sorted_range (newBoundedLoginLimiter 1 10 2) 5 ''a''"

lemma one_failure_state: "linv 5 one_failure" "counted_fails one_failure 6 ''a'' = [5]"
  "ll_limit one_failure = 1" "ll_window one_failure = 10"
proof -
  have "linv 4 (newBoundedLoginLimiter 1 10 2)" by (simp add: linv_new)
  note R = record_step [OF this range_order_sorted _ _ refl, where now = 5 and key_of = "\<lambda>ip. ip" and ip = "''a''", folded one_failure_def]
  show "linv 5 one_failure" using R(1) by simp
  show conf: "ll_limit one_failure = 1" "ll_window one_failure = 10"
    using R(2) by (simp_all add: same_conf_def newBoundedLoginLimiter_def)
  have "fails_of one_failure ''a'' = [5]"
    by (simp add: one_failure_def ll_recordFailure_def newBoundedLoginLimiter_def ll_maybeSweep_def ll_sweep_def
        sorted_range_def ll_makeRoom_def has_slot_def ll_append_failure_def ll_refile_def fails_of_def
        Let_def heap_without_def)
  then show "counted_fails one_failure 6 ''a'' = [5]"
    by (simp add: counted_fails_def conf)
qed

lemma login_admit_wait_suffices_witness:
  "\<exists>l' wait. ll_admit (\<lambda>ip. ip) sorted_range one_failure 6 ''a'' 0 = (l', False, wait) \<and>
     wait \<le> 10 \<and> counted l' (7 + wait) ''a'' < 1"
proof -
  obtain l' ok wait where r: "ll_admit (\<lambda>ip. ip) sorted_range one_failure 6 ''a'' 0 = (l', ok, wait)"
    by (metis prod_cases3)
  have c: "counted one_failure 6 ''a'' = 1" by (simp add: counted_def one_failure_state)
  have nok: "\<not> ok" using admit_step(3) [OF one_failure_state(1) range_order_sorted _ r]
    by (simp add: c one_failure_state)
  from login_admit_wait_suffices [OF one_failure_state(1) range_order_sorted _ _ _ r nok]
  have "wait \<le> 10 \<and> (\<forall>later > 6 + wait. counted l' later ''a'' < 1)"
    by (simp add: c one_failure_state max_duration_def)
  with r nok show ?thesis by auto
qed

lemma masked64_eq_iff: "masked64 v = masked64 w \<longleftrightarrow> drop_bit 64 v = drop_bit 64 w"
proof -
  have "masked64 u = push_bit 64 (drop_bit 64 u)" "drop_bit 64 (masked64 u) = drop_bit 64 u" for u
    by (rule bit_eqI, auto simp: masked64_def bit_simps dest: bit_imp_le_length)+
  then show ?thesis by metis
qed

lemma mapped_halves:
  fixes u :: "32 word"
  shows "drop_bit 32 (push_bit 32 (mask 16) OR ucast u :: 128 word) = 0xffff"
    and "ucast (push_bit 32 (mask 16) OR ucast u :: 128 word) = u"
proof -
  have "drop_bit 32 (push_bit 32 (mask 16) OR ucast u :: 128 word) = mask 16"
    by (rule bit_eqI) (auto simp: bit_simps dest: bit_imp_le_length)
  also have "\<dots> = 0xffff" by (simp add: mask_eq_exp_minus_1)
  finally show "drop_bit 32 (push_bit 32 (mask 16) OR ucast u :: 128 word) = 0xffff" .
  show "ucast (push_bit 32 (mask 16) OR ucast u :: 128 word) = u"
    by (rule bit_eqI) (auto simp: bit_simps dest: bit_imp_le_length)
qed

text \<open>The grouping of sources: two native IPv6 sources share a limiter key exactly when they lie in
  the same /64, whatever their zones, and an IPv4-mapped IPv6 source has the key of the IPv4
  address it maps (for a printer that is injective, as \<open>netip.Addr.String\<close> is on addresses
  without a zone).\<close>

theorem limiterKey_groups:
  assumes "inj show_addr" "parse a = Some (IP6 v y)" "parse b = Some (IP6 w z)"
    and "drop_bit 32 v \<noteq> 0xffff" "drop_bit 32 w \<noteq> 0xffff"
    and "parse c = Some (IP6 (push_bit 32 (mask 16) OR ucast u) x)" "parse d = Some (IP4 u)"
  shows "(limiterKey parse show_addr a = limiterKey parse show_addr b \<longleftrightarrow> drop_bit 64 v = drop_bit 64 w) \<and>
    limiterKey parse show_addr c = limiterKey parse show_addr d"
proof -
  have s: "show_addr p = show_addr q \<longleftrightarrow> p = q" for p q using assms(1) by (simp add: inj_eq)
  show ?thesis
    using assms s mapped_halves [of u] by (simp add: limiterKey_def masked64_eq_iff)
qed

definition unary_addr :: "netip_addr \<Rightarrow> string" where
  "unary_addr a = (case a of IP4 w \<Rightarrow> replicate (unat w) (CHR ''a'')
     | IP6 w z \<Rightarrow> replicate (unat w) (CHR ''a'') @ CHR ''b'' # z)"

lemma unary_addr_inj: "inj unary_addr"
proof (rule injI)
  have t: "takeWhile (\<lambda>c. c = CHR ''a'') (replicate n (CHR ''a'') @ CHR ''b'' # z) = replicate n (CHR ''a'')" for n z
    by (induction n) auto
  have mem: "CHR ''b'' \<in> set (unary_addr a) \<or> (\<exists>w. a = IP4 w)" for a
    by (cases a) (auto simp: unary_addr_def)
  fix a b assume e: "unary_addr a = unary_addr b"
  show "a = b"
  proof (cases a)
    case (IP4 v)
    then have "CHR ''b'' \<notin> set (unary_addr b)" using e [symmetric] by (simp add: unary_addr_def)
    with mem [of b] obtain w where "b = IP4 w" by blast
    then show ?thesis using e IP4 by (simp add: unary_addr_def replicate_eq_replicate word_unat_eq_iff)
  next
    case (IP6 v y)
    then have "CHR ''b'' \<in> set (unary_addr b)" using e [symmetric] by (simp add: unary_addr_def)
    then obtain w z where b: "b = IP6 w z" by (cases b) (auto simp: unary_addr_def)
    have s: "replicate (unat v) (CHR ''a'') @ CHR ''b'' # y = replicate (unat w) (CHR ''a'') @ CHR ''b'' # z"
      using e IP6 b by (simp add: unary_addr_def)
    from arg_cong [OF this, of "takeWhile (\<lambda>c. c = CHR ''a'')"]
    have "replicate (unat v) (CHR ''a'') = replicate (unat w) (CHR ''a'')" by (simp only: t)
    then have "unat v = unat w" using length_replicate by metis
    with s show ?thesis using IP6 b by (simp add: word_unat_eq_iff)
  qed
qed

lemma limiterKey_groups_witness:
  "\<exists>parse. limiterKey parse unary_addr ''a'' = limiterKey parse unary_addr ''b'' \<and>
     limiterKey parse unary_addr ''c'' = limiterKey parse unary_addr ''d''"
proof -
  let ?u = "0x0a000001 :: 32 word"
  let ?parse = "[''a'' \<mapsto> IP6 0x20010db8000000000000000000000001 ''eth0'',
     ''b'' \<mapsto> IP6 0x20010db8000000000000000000000002 [],
     ''c'' \<mapsto> IP6 (push_bit 32 (mask 16) OR ucast ?u) [],
     ''d'' \<mapsto> IP4 ?u]"
  have p: "?parse ''a'' = Some (IP6 0x20010db8000000000000000000000001 ''eth0'')"
    "?parse ''b'' = Some (IP6 0x20010db8000000000000000000000002 [])"
    "?parse ''c'' = Some (IP6 (push_bit 32 (mask 16) OR ucast ?u) [])" "?parse ''d'' = Some (IP4 ?u)"
    by simp_all
  have "drop_bit 64 (0x20010db8000000000000000000000001 :: 128 word) =
        drop_bit 64 (0x20010db8000000000000000000000002 :: 128 word)"
    "drop_bit 32 (0x20010db8000000000000000000000001 :: 128 word) \<noteq> 0xffff"
    "drop_bit 32 (0x20010db8000000000000000000000002 :: 128 word) \<noteq> 0xffff" by simp_all
  with limiterKey_groups [OF unary_addr_inj p(1,2) _ _ p(3,4)]
  have "limiterKey ?parse unary_addr ''a'' = limiterKey ?parse unary_addr ''b'' \<and>
     limiterKey ?parse unary_addr ''c'' = limiterKey ?parse unary_addr ''d''"
    by blast
  then show ?thesis by blast
qed

end
