(* ===== verification/PasswordLimiter.thy ===== *)
theory PasswordLimiter
  imports GoPrelude
begin

text \<open>
  The per-account password-confirmation limiter of \<open>httpapi/password_limiter.go\<close>. A successful
  \<open>begin\<close> hands out a \<open>finish\<close> closure guarded by a \<open>sync.Once\<close>; the model keeps it as a permit,
  the closed-over key and the state of its \<open>Once\<close>. A world is the limiter with the permits handed
  out so far, in order, and \<open>pl_step\<close> is one locked operation of any goroutine.
\<close>

record password_entry =
  pe_fails :: "gtime list"
  pe_inflight :: int

record password_limiter =
  pl_limit :: int
  pl_window :: duration
  pl_maxEntries :: int
  pl_entries :: "string \<rightharpoonup> password_entry"

definition newPasswordLimiter :: "int \<Rightarrow> duration \<Rightarrow> int \<Rightarrow> password_limiter option" where
  "newPasswordLimiter limit window maxEntries =
     (if limit \<le> 0 \<or> window \<le> 0 \<or> maxEntries \<le> 0 then None
      else Some \<lparr> pl_limit = limit, pl_window = window, pl_maxEntries = maxEntries,
                  pl_entries = Map.empty \<rparr>)"

definition pl_pruneEntry :: "password_limiter \<Rightarrow> string \<Rightarrow> gtime \<Rightarrow> password_limiter" where
  "pl_pruneEntry l k cutoff =
     (case pl_entries l k of
        None \<Rightarrow> l
      | Some e \<Rightarrow>
          (let keep = filter (\<lambda>t. cutoff < t) (pe_fails e)
           in if keep = [] \<and> pe_inflight e = 0 then l\<lparr> pl_entries := (pl_entries l)(k := None) \<rparr>
              else l\<lparr> pl_entries := (pl_entries l)(k \<mapsto> e\<lparr> pe_fails := keep \<rparr>) \<rparr>))"

definition pl_sweep ::
    "((string \<rightharpoonup> password_entry) \<Rightarrow> string list) \<Rightarrow> password_limiter \<Rightarrow> gtime \<Rightarrow> password_limiter" where
  "pl_sweep ord l cutoff = fold (\<lambda>k l. pl_pruneEntry l k cutoff) (ord (pl_entries l)) l"

definition empty_entry :: password_entry where
  "empty_entry = \<lparr> pe_fails = [], pe_inflight = 0 \<rparr>"

text \<open>
  The result of \<open>begin\<close>: \<open>None\<close> in the third place is the closure that does nothing, \<open>Some k\<close> the
  one that finishes an attempt on \<open>k\<close>.
\<close>

definition pl_begin ::
    "((string \<rightharpoonup> password_entry) \<Rightarrow> string list) \<Rightarrow> password_limiter \<Rightarrow> gtime \<Rightarrow> string \<Rightarrow>
     password_limiter \<times> bool \<times> duration \<times> string option" where
  "pl_begin ord l now k =
     (if pl_limit l \<le> 0 \<or> pl_window l \<le> 0 then (l, True, 0, None)
      else
        (let cutoff = now - pl_window l;
             l1 = (if pl_entries l k \<noteq> None then pl_pruneEntry l k cutoff else l);
             l2 = (if pl_entries l1 k = None \<and> pl_maxEntries l1 \<le> int (mlen (pl_entries l1))
                   then pl_sweep ord l1 cutoff else l1)
         in if pl_entries l1 k = None \<and> pl_maxEntries l2 \<le> int (mlen (pl_entries l2))
            then (l2, False, pl_window l2, None)
            else
              (let l3 = (if pl_entries l1 k = None
                         then l2\<lparr> pl_entries := (pl_entries l2)(k \<mapsto> empty_entry) \<rparr> else l2);
                   e = the (pl_entries l3 k)
               in if pl_limit l3 \<le> int (length (pe_fails e)) + pe_inflight e
                  then
                    (let oldest = (if pe_fails e \<noteq> [] then pe_fails e ! 0 else 0);
                         retryAfter = (if oldest \<noteq> 0 then time_sub oldest cutoff else pl_window l3)
                     in (l3, False, if retryAfter \<le> 0 then 1 else retryAfter, None))
                  else
                    (l3\<lparr> pl_entries := (pl_entries l3)(k \<mapsto> e\<lparr> pe_inflight := pe_inflight e + 1 \<rparr>) \<rparr>,
                     True, 0, Some k))))"

text \<open>The body that \<open>once.Do\<close> runs.\<close>

definition pl_finish :: "password_limiter \<Rightarrow> gtime \<Rightarrow> string \<Rightarrow> string \<Rightarrow> password_limiter" where
  "pl_finish l now k outcome =
     (case pl_entries l k of
        None \<Rightarrow> l
      | Some e \<Rightarrow>
          (let fails = (if outcome = ''success'' then []
                        else if outcome = ''rejected'' then pe_fails e @ [now] else pe_fails e);
               inflight = pe_inflight e - 1
           in l\<lparr> pl_entries := (pl_entries l)(k :=
                  (if fails = [] \<and> inflight = 0 then None
                   else Some \<lparr> pe_fails = fails, pe_inflight = inflight \<rparr>)) \<rparr>))"

text \<open>A call of a handed-out closure: \<open>sync.Once\<close> runs the body at the first call only.\<close>

type_synonym permit = "string \<times> bool"
type_synonym pl_world = "password_limiter \<times> permit list"

definition pl_call_finish :: "pl_world \<Rightarrow> gtime \<Rightarrow> nat \<Rightarrow> string \<Rightarrow> pl_world" where
  "pl_call_finish w now i outcome =
     (case w of (l, ps) \<Rightarrow>
        (case ps ! i of (k, called) \<Rightarrow>
           if called then (l, ps) else (pl_finish l now k outcome, ps[i := (k, True)])))"

inductive pl_step :: "((string \<rightharpoonup> password_entry) \<Rightarrow> string list) \<Rightarrow> pl_world \<Rightarrow> pl_world \<Rightarrow> bool"
  for ord where
  pl_refused: "pl_begin ord l now k = (l', ok, retry, None) \<Longrightarrow> pl_step ord (l, ps) (l', ps)"
| pl_admitted: "pl_begin ord l now k = (l', True, retry, Some k') \<Longrightarrow>
    pl_step ord (l, ps) (l', ps @ [(k', False)])"
| pl_finished: "i < length (snd w) \<Longrightarrow> pl_step ord w (pl_call_finish w now i outcome)"

inductive_cases pl_stepE: "pl_step ord w w'"

inductive pl_reachable :: "((string \<rightharpoonup> password_entry) \<Rightarrow> string list) \<Rightarrow> password_limiter \<Rightarrow> pl_world \<Rightarrow> bool"
  for ord l0 where
  pl_start: "pl_reachable ord l0 (l0, [])"
| pl_next: "pl_reachable ord l0 w \<Longrightarrow> pl_step ord w w' \<Longrightarrow> pl_reachable ord l0 w'"

subsection \<open>The invariant\<close>

definition outstanding :: "permit list \<Rightarrow> string \<Rightarrow> int" where
  "outstanding ps k = int (length (filter (\<lambda>p. p = (k, False)) ps))"

definition attempts :: "password_limiter \<Rightarrow> string \<Rightarrow> int \<times> int" where
  "attempts l k = (case pl_entries l k of None \<Rightarrow> (0, 0)
     | Some e \<Rightarrow> (int (length (pe_fails e)), pe_inflight e))"

text \<open>Every key's in-flight count is the number of its permits not yet finished, its attempts stay
  within the limit, and no entry is empty.\<close>

definition pl_inv :: "pl_world \<Rightarrow> bool" where
  "pl_inv w \<longleftrightarrow> (case w of (l, ps) \<Rightarrow>
     0 < pl_limit l \<and> 0 < pl_window l \<and> finite (dom (pl_entries l)) \<and>
     int (mlen (pl_entries l)) \<le> pl_maxEntries l \<and>
     (\<forall>k. snd (attempts l k) = outstanding ps k \<and>
          fst (attempts l k) + snd (attempts l k) \<le> pl_limit l) \<and>
     (\<forall>k e. pl_entries l k = Some e \<longrightarrow> pe_fails e \<noteq> [] \<or> pe_inflight e \<noteq> 0))"

lemma pl_invD:
  assumes "pl_inv (l, ps)"
  shows "snd (attempts l j) = outstanding ps j" "fst (attempts l j) + snd (attempts l j) \<le> pl_limit l"
  using assms unfolding pl_inv_def by blast+

lemma outstanding_nonneg [simp]: "0 \<le> outstanding ps k"
  by (simp add: outstanding_def)

lemma outstanding_Nil [simp]: "outstanding [] k = 0"
  by (simp add: outstanding_def)

lemma outstanding_Cons: "outstanding (p # ps) k = (if p = (k, False) then 1 else 0) + outstanding ps k"
  by (simp add: outstanding_def)

lemma outstanding_append: "outstanding (ps @ qs) k = outstanding ps k + outstanding qs k"
  by (simp add: outstanding_def)

lemma outstanding_snoc:
  "outstanding (ps @ [(k', False)]) k = outstanding ps k + (if k = k' then 1 else 0)"
  by (simp add: outstanding_append outstanding_Cons)

lemma outstanding_finish:
  assumes "i < length ps" "ps ! i = (k', False)"
  shows "outstanding (ps[i := (k', True)]) k = outstanding ps k - (if k = k' then 1 else 0)"
proof -
  have 1: "take i ps @ (k', False) # drop (Suc i) ps = ps"
    using assms id_take_nth_drop [of i ps] by simp
  have 2: "ps[i := (k', True)] = take i ps @ (k', True) # drop (Suc i) ps"
    using assms by (simp add: upd_conv_take_nth_drop)
  have "outstanding ps k = outstanding (take i ps) k + (if k = k' then 1 else 0) + outstanding (drop (Suc i) ps) k"
    by (subst 1 [symmetric]) (simp add: outstanding_append outstanding_Cons del: append_take_drop_id)
  then show ?thesis by (simp add: 2 outstanding_append outstanding_Cons)
qed

lemma pl_inv_prune:
  assumes "pl_inv (l, ps)"
  shows "pl_inv (pl_pruneEntry l k cutoff, ps)"
  and "mlen (pl_entries (pl_pruneEntry l k cutoff)) \<le> mlen (pl_entries l)"
proof -
  have fin: "finite (dom (pl_entries l))" using assms by (simp add: pl_inv_def)
  show le: "mlen (pl_entries (pl_pruneEntry l k cutoff)) \<le> mlen (pl_entries l)"
    using mlen_del_le [OF fin] by (auto simp: pl_pruneEntry_def Let_def split: option.splits)
  show "pl_inv (pl_pruneEntry l k cutoff, ps)"
  proof (cases "pl_entries l k")
    case None
    then show ?thesis using assms by (simp add: pl_pruneEntry_def)
  next
    case (Some e)
    let ?l' = "pl_pruneEntry l k cutoff"
    have conf: "pl_limit ?l' = pl_limit l" "pl_window ?l' = pl_window l" "pl_maxEntries ?l' = pl_maxEntries l"
      using Some by (simp_all add: pl_pruneEntry_def Let_def)
    have at: "fst (attempts ?l' j) \<le> fst (attempts l j) \<and> snd (attempts ?l' j) = snd (attempts l j)" for j
      using Some by (cases "j = k") (auto simp: attempts_def pl_pruneEntry_def Let_def length_filter_le)
    have "finite (dom (pl_entries ?l'))" using fin Some by (simp add: pl_pruneEntry_def Let_def)
    moreover have "pe_fails d \<noteq> [] \<or> pe_inflight d \<noteq> 0" if "pl_entries ?l' j = Some d" for j d
      using assms that Some by (auto simp: pl_inv_def pl_pruneEntry_def Let_def split: if_splits)
    moreover have "fst (attempts ?l' j) + snd (attempts ?l' j) \<le> pl_limit l" "snd (attempts ?l' j) = outstanding ps j" for j
      using assms at [of j] by (simp_all add: pl_inv_def) (smt (verit))
    ultimately show ?thesis using assms le by (auto simp: pl_inv_def conf)
  qed
qed

lemma sweep_keeps_none: "pl_entries l k = None \<Longrightarrow> pl_entries (pl_sweep ord l c) k = None"
proof -
  have "pl_entries l k = None \<Longrightarrow> pl_entries (pl_pruneEntry l j c) k = None" for j l
    by (cases "j = k") (simp_all add: pl_pruneEntry_def Let_def split: option.splits)
  then have "pl_entries l k = None \<Longrightarrow> pl_entries (fold (\<lambda>k l. pl_pruneEntry l k c) ks l) k = None" for ks
    by (induction ks arbitrary: l) simp_all
  then show "pl_entries l k = None \<Longrightarrow> ?thesis" by (simp add: pl_sweep_def)
qed

lemma pl_inv_sweep: "pl_inv (l, ps) \<Longrightarrow> pl_inv (pl_sweep ord l cutoff, ps)"
proof -
  have "pl_inv (l, ps) \<Longrightarrow> pl_inv (fold (\<lambda>k l. pl_pruneEntry l k cutoff) ks l, ps)" for ks l
    by (induction ks arbitrary: l) (simp_all add: pl_inv_prune)
  then show "pl_inv (l, ps) \<Longrightarrow> ?thesis" by (simp add: pl_sweep_def)
qed

lemma prune_fields [simp]:
  "pl_limit (pl_pruneEntry l k c) = pl_limit l" "pl_window (pl_pruneEntry l k c) = pl_window l"
  "pl_maxEntries (pl_pruneEntry l k c) = pl_maxEntries l"
  by (simp_all add: pl_pruneEntry_def Let_def split: option.splits)

lemma sweep_fields [simp]:
  "pl_limit (pl_sweep ord l c) = pl_limit l" "pl_window (pl_sweep ord l c) = pl_window l"
  "pl_maxEntries (pl_sweep ord l c) = pl_maxEntries l"
proof -
  have "pl_limit (fold (\<lambda>k l. pl_pruneEntry l k c) ks l) = pl_limit l \<and>
    pl_window (fold (\<lambda>k l. pl_pruneEntry l k c) ks l) = pl_window l \<and>
    pl_maxEntries (fold (\<lambda>k l. pl_pruneEntry l k c) ks l) = pl_maxEntries l" for ks
    by (induction ks arbitrary: l) simp_all
  then show "pl_limit (pl_sweep ord l c) = pl_limit l" "pl_window (pl_sweep ord l c) = pl_window l"
    "pl_maxEntries (pl_sweep ord l c) = pl_maxEntries l" by (simp_all add: pl_sweep_def)
qed

text \<open>Changing one entry within the limit keeps the invariant.\<close>

lemma pl_inv_update:
  assumes "pl_inv (l, ps)" "\<And>j. outstanding ps' j = outstanding ps j + (if j = k then d else 0)"
    and "v = None \<Longrightarrow> outstanding ps' k = 0"
    and "\<And>e. v = Some e \<Longrightarrow> pe_inflight e = outstanding ps' k \<and>
      int (length (pe_fails e)) + pe_inflight e \<le> pl_limit l \<and> (pe_fails e \<noteq> [] \<or> pe_inflight e \<noteq> 0)"
    and "v \<noteq> None \<Longrightarrow> pl_entries l k = None \<Longrightarrow> int (mlen (pl_entries l)) < pl_maxEntries l"
  shows "pl_inv (l\<lparr> pl_entries := (pl_entries l)(k := v) \<rparr>, ps')"
proof -
  let ?l' = "l\<lparr> pl_entries := (pl_entries l)(k := v) \<rparr>"
  have fin: "finite (dom (pl_entries l))" and mx: "int (mlen (pl_entries l)) \<le> pl_maxEntries l"
    using assms(1) by (simp_all add: pl_inv_def)
  have "int (mlen (pl_entries ?l')) \<le> pl_maxEntries l"
    using mx assms(5) mlen_del_le [OF fin, of k] fin
    by (cases v; cases "pl_entries l k") auto
  moreover have "finite (dom (pl_entries ?l'))" using fin by (cases v) simp_all
  moreover have "snd (attempts ?l' j) = outstanding ps' j \<and>
      fst (attempts ?l' j) + outstanding ps' j \<le> pl_limit l" for j
  proof (cases "j = k")
    case True
    then show ?thesis using assms(1,3,4) by (cases v) (auto simp: attempts_def pl_inv_def)
  next
    case False
    then have "attempts ?l' j = attempts l j" by (simp add: attempts_def)
    then show ?thesis using pl_invD [OF assms(1), of j] assms(2) [of j] False by simp
  qed
  moreover have "pe_fails e \<noteq> [] \<or> pe_inflight e \<noteq> 0" if "pl_entries ?l' j = Some e" for j e
    using that assms(1,4) by (cases "j = k") (auto simp: pl_inv_def)
  moreover have "0 < pl_limit ?l'" "0 < pl_window ?l'" using assms(1) by (simp_all add: pl_inv_def)
  ultimately show ?thesis unfolding pl_inv_def prod.case
    by auto
qed

lemma pl_inv_begin:
  assumes "pl_inv (l, ps)" and "pl_begin ord l now k = (l', ok, retry, p)"
  shows "pl_inv (l', ps @ (case p of None \<Rightarrow> [] | Some k' \<Rightarrow> [(k', False)]))"
    and "ok \<longleftrightarrow> p = Some k" "p = None \<or> p = Some k"
proof -
  let ?c = "now - pl_window l"
  have pos: "0 < pl_limit l" "0 < pl_window l" using assms(1) by (simp_all add: pl_inv_def)
  define l1 where "l1 = (if pl_entries l k \<noteq> None then pl_pruneEntry l k ?c else l)"
  define l2 where "l2 = (if pl_entries l1 k = None \<and> pl_maxEntries l1 \<le> int (mlen (pl_entries l1))
    then pl_sweep ord l1 ?c else l1)"
  have i1: "pl_inv (l1, ps)" using assms(1) pl_inv_prune by (simp add: l1_def)
  have i2: "pl_inv (l2, ps)" using i1 pl_inv_sweep by (simp add: l2_def)
  have f: "pl_limit l2 = pl_limit l" "pl_window l2 = pl_window l"
    by (simp_all add: l2_def l1_def)
  have body: "pl_begin ord l now k =
     (if pl_entries l1 k = None \<and> pl_maxEntries l2 \<le> int (mlen (pl_entries l2))
      then (l2, False, pl_window l2, None)
      else
        (let l3 = (if pl_entries l1 k = None
                   then l2\<lparr> pl_entries := (pl_entries l2)(k \<mapsto> empty_entry) \<rparr> else l2);
             e = the (pl_entries l3 k)
         in if pl_limit l3 \<le> int (length (pe_fails e)) + pe_inflight e
            then
              (let oldest = (if pe_fails e \<noteq> [] then pe_fails e ! 0 else 0);
                   retryAfter = (if oldest \<noteq> 0 then time_sub oldest ?c else pl_window l3)
               in (l3, False, if retryAfter \<le> 0 then 1 else retryAfter, None))
            else
              (l3\<lparr> pl_entries := (pl_entries l3)(k \<mapsto> e\<lparr> pe_inflight := pe_inflight e + 1 \<rparr>) \<rparr>,
               True, 0, Some k)))"
    using pos unfolding pl_begin_def Let_def l2_def l1_def by (simp only: if_False not_le [symmetric] simp_thms)
  have "pl_inv (l', ps @ (case p of None \<Rightarrow> [] | Some k' \<Rightarrow> [(k', False)])) \<and> (ok \<longleftrightarrow> p = Some k) \<and>
     (p = None \<or> p = Some k)"
  proof (cases "pl_entries l1 k = None")
    case new: True
    show ?thesis
    proof (cases "pl_maxEntries l2 \<le> int (mlen (pl_entries l2))")
      case True
      then show ?thesis using assms(2) new i2 body by auto
    next
      case False
      have n2: "pl_entries l2 k = None"
        using i1 new False by (simp add: l2_def split: if_splits) (simp add: sweep_keeps_none)
      have o: "outstanding ps k = 0" using i2 n2 by (auto simp: pl_inv_def attempts_def dest!: spec [of _ k])
      have "l' = l2\<lparr> pl_entries := (pl_entries l2)(k \<mapsto> empty_entry\<lparr> pe_inflight := 1 \<rparr>) \<rparr> \<and> ok \<and> p = Some k"
        using assms(2) body new False pos f by (auto simp: Let_def empty_entry_def)
      moreover have "pl_inv (l2\<lparr> pl_entries := (pl_entries l2)(k \<mapsto> empty_entry\<lparr> pe_inflight := 1 \<rparr>) \<rparr>, ps @ [(k, False)])"
        by (rule pl_inv_update [OF i2, where d = 1])
           (use o pos f False in \<open>auto simp: outstanding_snoc empty_entry_def\<close>)
      ultimately show ?thesis by simp
    qed
  next
    case False
    then obtain e where e: "pl_entries l1 k = Some e" by blast
    then have l2: "l2 = l1" by (simp add: l2_def)
    have a: "pe_inflight e = outstanding ps k" "int (length (pe_fails e)) + pe_inflight e \<le> pl_limit l"
      using i2 e f by (auto simp: l2 pl_inv_def attempts_def dest!: spec [of _ k])
    show ?thesis
    proof (cases "pl_limit l2 \<le> int (length (pe_fails e)) + pe_inflight e")
      case True
      then show ?thesis using assms(2) body e i2 by (auto simp: Let_def l2)
    next
      case room: False
      have nz: "outstanding ps k + 1 \<noteq> 0" using outstanding_nonneg [of ps k] by linarith
      have "l' = l2\<lparr> pl_entries := (pl_entries l2)(k \<mapsto> e\<lparr> pe_inflight := pe_inflight e + 1 \<rparr>) \<rparr> \<and> ok \<and> p = Some k"
        using assms(2) body e room by (auto simp: Let_def l2)
      moreover have "pl_inv (l2\<lparr> pl_entries := (pl_entries l2)(k \<mapsto> e\<lparr> pe_inflight := pe_inflight e + 1 \<rparr>) \<rparr>, ps @ [(k, False)])"
        by (rule pl_inv_update [OF i2, where d = 1])
           (use a room e l2 nz in \<open>auto simp: outstanding_snoc\<close>)
      ultimately show ?thesis by simp
    qed
  qed
  then show "pl_inv (l', ps @ (case p of None \<Rightarrow> [] | Some k' \<Rightarrow> [(k', False)]))"
    "ok \<longleftrightarrow> p = Some k" "p = None \<or> p = Some k" by simp_all
qed

lemma pl_inv_call_finish:
  assumes "pl_inv (l, ps)" "i < length ps"
  shows "pl_inv (pl_call_finish (l, ps) now i outcome)"
proof -
  obtain k called where p: "ps ! i = (k, called)" by fastforce
  show ?thesis
  proof (cases called)
    case True
    then show ?thesis using assms p by (simp add: pl_call_finish_def)
  next
    case False
    note o = outstanding_finish [OF assms(2), of k]
    have pos: "1 \<le> outstanding ps k"
      using o [of k] p False outstanding_nonneg [of "ps[i := (k, True)]" k] by simp
    obtain e where e: "pl_entries l k = Some e"
      using assms(1) pos by (cases "pl_entries l k") (auto simp: pl_inv_def attempts_def dest!: spec [of _ k])
    have a: "pe_inflight e = outstanding ps k" "int (length (pe_fails e)) + pe_inflight e \<le> pl_limit l"
      using assms(1) e by (auto simp: pl_inv_def attempts_def dest!: spec [of _ k])
    have "pl_inv (pl_finish l now k outcome, ps[i := (k, True)])"
      unfolding pl_finish_def e option.case Let_def
      by (rule pl_inv_update [OF assms(1), where d = "-1"])
         (use o p False a e pos in \<open>auto split: if_splits\<close>)
    then show ?thesis using p False by (simp add: pl_call_finish_def)
  qed
qed

theorem pl_inv_step: "pl_step ord w w' \<Longrightarrow> pl_inv w \<Longrightarrow> pl_inv w'"
proof (induction rule: pl_step.induct)
  case (pl_refused l now k l' ok retry ps)
  with pl_inv_begin(1) [OF pl_refused(2,1)] show ?case by simp
next
  case (pl_admitted l now k l' retry k' ps)
  with pl_inv_begin(1) [OF pl_admitted(2,1)] show ?case by simp
next
  case (pl_finished i w now outcome)
  then show ?case by (cases w) (simp add: pl_inv_call_finish)
qed

lemma pl_inv_reachable:
  assumes "newPasswordLimiter limit window maxEntries = Some l0" "pl_reachable ord l0 w"
  shows "pl_inv w"
  using assms(2)
proof (induction rule: pl_reachable.induct)
  case pl_start
  show ?case using assms(1)
    by (auto simp: newPasswordLimiter_def pl_inv_def attempts_def split: if_splits)
qed (simp add: pl_inv_step)

subsection \<open>What a sweep leaves\<close>

definition pruned_entry :: "gtime \<Rightarrow> password_entry option \<Rightarrow> password_entry option" where
  "pruned_entry c v =
     (case v of None \<Rightarrow> None
      | Some e \<Rightarrow> let keep = filter (\<lambda>t. c < t) (pe_fails e)
         in if keep = [] \<and> pe_inflight e = 0 then None else Some (e\<lparr> pe_fails := keep \<rparr>))"

lemma pruned_entry_idem [simp]: "pruned_entry c (pruned_entry c v) = pruned_entry c v"
  by (cases v) (simp_all add: pruned_entry_def Let_def)

lemma prune_entries:
  "pl_entries (pl_pruneEntry l k c) j = (if j = k then pruned_entry c (pl_entries l j) else pl_entries l j)"
  by (simp add: pl_pruneEntry_def pruned_entry_def Let_def split: option.splits)

lemma sweep_entries:
  assumes "range_order ord" "finite (dom (pl_entries l))"
  shows "pl_entries (pl_sweep ord l c) = (\<lambda>j. pruned_entry c (pl_entries l j))"
proof
  fix j
  have "pl_entries (fold (\<lambda>k l. pl_pruneEntry l k c) ks l) j =
      (if j \<in> set ks then pruned_entry c (pl_entries l j) else pl_entries l j)" for ks
    by (induction ks arbitrary: l) (simp_all add: prune_entries)
  moreover have "pruned_entry c (pl_entries l j) = pl_entries l j" if "j \<notin> dom (pl_entries l)"
    using that by (simp add: pruned_entry_def domIff)
  ultimately show "pl_entries (pl_sweep ord l c) j = pruned_entry c (pl_entries l j)"
    using range_orderD(2) [OF assms] by (simp add: pl_sweep_def)
qed

text \<open>The failures of a source strictly inside the window, and the sources that hold a slot.\<close>

definition recent_fails :: "password_limiter \<Rightarrow> gtime \<Rightarrow> string \<Rightarrow> int" where
  "recent_fails l now k =
     (case pl_entries l k of None \<Rightarrow> 0
      | Some e \<Rightarrow> int (length (filter (\<lambda>t. now - pl_window l < t) (pe_fails e))))"

definition live_sources :: "pl_world \<Rightarrow> gtime \<Rightarrow> string set" where
  "live_sources w now = {k. recent_fails (fst w) now k \<noteq> 0 \<or> outstanding (snd w) k \<noteq> 0}"

lemma pruned_entry_None_iff:
  assumes "pl_inv (l, ps)"
  shows "pruned_entry (now - pl_window l) (pl_entries l k) = None \<longleftrightarrow> k \<notin> live_sources (l, ps) now"
  using pl_invD(1) [OF assms, of k]
  by (cases "pl_entries l k")
     (auto simp: pruned_entry_def Let_def live_sources_def recent_fails_def attempts_def)

lemma begin_ok_iff:
  assumes "pl_inv (l, ps)" and o: "range_order ord" and r: "pl_begin ord l now k = (l', ok, retry, p)"
  shows "ok \<longleftrightarrow> recent_fails l now k + outstanding ps k < pl_limit l \<and>
    (k \<in> live_sources (l, ps) now \<or> int (card (live_sources (l, ps) now)) < pl_maxEntries l)"
proof -
  let ?c = "now - pl_window l" and ?live = "live_sources (l, ps) now"
  have pos: "0 < pl_limit l" "0 < pl_window l" using assms(1) by (simp_all add: pl_inv_def)
  have fin: "finite (dom (pl_entries l))" using assms(1) by (simp add: pl_inv_def)
  let ?l1 = "if pl_entries l k \<noteq> None then pl_pruneEntry l k ?c else l"
  have e1: "pl_entries ?l1 = (pl_entries l)(k := pruned_entry ?c (pl_entries l k))"
    by (auto simp: prune_entries pruned_entry_def fun_eq_iff)
  have live_dom: "?live \<subseteq> dom (pl_entries l)"
    using pruned_entry_None_iff [OF assms(1), of now] by (force simp: pruned_entry_def)
  show ?thesis
  proof (cases "pruned_entry ?c (pl_entries l k)")
    case None
    then have nk: "k \<notin> ?live" by (simp add: pruned_entry_None_iff [OF assms(1)])
    then have z: "recent_fails l now k = 0" "outstanding ps k = 0" by (auto simp: live_sources_def)
    have fin1: "finite (dom (pl_entries ?l1))" by (subst e1) (simp add: fin None)
    have lives: "?live \<subseteq> dom (pl_entries ?l1)" by (subst e1) (use live_dom nk None in auto)
    let ?s = "pl_sweep ord ?l1 ?c"
    have "pl_entries ?s = (\<lambda>j. pruned_entry ?c (pl_entries l j))"
      unfolding sweep_entries [OF o fin1] e1 by (simp add: fun_eq_iff)
    then have dom_s: "dom (pl_entries ?s) = ?live"
      using pruned_entry_None_iff [OF assms(1)] by (auto simp: dom_def)
    let ?full = "pl_maxEntries l \<le> int (mlen (pl_entries ?l1))"
    let ?l2 = "if ?full then ?s else ?l1"
    have "ok \<longleftrightarrow> \<not> pl_maxEntries l \<le> int (mlen (pl_entries ?l2))"
    proof -
      have n1: "pl_entries ?l1 k = None" using None by (subst e1) simp
      have "pl_entries ?l2 k = None" using n1 nk dom_s by auto
      then show ?thesis using r pos n1
        by (auto simp: pl_begin_def Let_def empty_entry_def split: if_splits)
    qed
    also have "\<dots> \<longleftrightarrow> int (card ?live) < pl_maxEntries l"
    proof -
      have "card ?live \<le> mlen (pl_entries ?l1)" using lives fin1 by (simp add: mlen_def card_mono)
      then show ?thesis using dom_s by (auto simp: mlen_def)
    qed
    finally show ?thesis using nk z pos by simp
  next
    case (Some e)
    then have kl: "k \<in> ?live" using pruned_entry_None_iff [OF assms(1), of now k] by simp
    obtain d where d: "pl_entries l k = Some d" using Some by (auto simp: pruned_entry_def split: option.splits)
    then have e: "e = d\<lparr> pe_fails := filter (\<lambda>t. ?c < t) (pe_fails d) \<rparr>" "pe_inflight d = outstanding ps k"
      using Some pl_invD(1) [OF assms(1), of k] by (auto simp: pruned_entry_def Let_def attempts_def split: if_splits)
    have n1: "pl_entries ?l1 k = Some e" by (subst e1) (simp add: Some)
    have "ok \<longleftrightarrow> \<not> pl_limit l \<le> int (length (pe_fails e)) + pe_inflight e"
      using r pos n1 d by (auto simp: pl_begin_def Let_def split: if_splits)
    then show ?thesis using kl d e by (auto simp: recent_fails_def)
  qed
qed

subsection \<open>Properties\<close>

text \<open>C27: whatever the interleaving of \<open>begin\<close> and \<open>finish\<close> calls, from however many goroutines and
  with each \<open>finish\<close> called any number of times: the attempts underway on an account plus the
  rejections recorded for it never exceed the limit, the in-flight counter is exactly the number of
  permits not yet finished, and the table never holds more than \<open>maxEntries\<close> accounts.\<close>

theorem password_limiter_safe:
  assumes "newPasswordLimiter limit window maxEntries = Some l0" "pl_reachable ord l0 (l, ps)"
  shows "(\<forall>k. snd (attempts l k) = outstanding ps k \<and>
      fst (attempts l k) + outstanding ps k \<le> pl_limit l) \<and> int (mlen (pl_entries l)) \<le> pl_maxEntries l"
  using pl_invD [OF pl_inv_reachable [OF assms]] pl_inv_reachable [OF assms] by (auto simp: pl_inv_def)

text \<open>\<open>begin\<close> is exact in every reachable state: it admits an attempt on an account if and only
  if the rejections strictly inside the window plus the attempts underway are below the limit and
  the account already holds a live slot or fewer than \<open>maxEntries\<close> accounts do; and it hands out a
  finishing closure exactly when it admits.\<close>

theorem password_begin_exact:
  assumes "newPasswordLimiter limit window maxEntries = Some l0" "pl_reachable ord l0 (l, ps)"
    and "range_order ord" "pl_begin ord l now k = (l', ok, retry, p)"
  shows "(ok \<longleftrightarrow> recent_fails l now k + outstanding ps k < pl_limit l \<and>
      (k \<in> live_sources (l, ps) now \<or> int (card (live_sources (l, ps) now)) < pl_maxEntries l)) \<and>
    p = (if ok then Some k else None)"
  using begin_ok_iff [OF pl_inv_reachable [OF assms(1,2)] assms(3,4)]
    pl_inv_begin(2,3) [OF pl_inv_reachable [OF assms(1,2)] assms(4)] by auto

definition pl_example :: password_limiter where
  "pl_example = \<lparr> pl_limit = 1, pl_window = 10, pl_maxEntries = 2, pl_entries = Map.empty \<rparr>"

lemma pl_example_new: "newPasswordLimiter 1 10 2 = Some pl_example"
  by (simp add: newPasswordLimiter_def pl_example_def)

lemma pl_example_step:
  "pl_reachable sorted_range pl_example
     (pl_example\<lparr> pl_entries := [''u'' \<mapsto> \<lparr> pe_fails = [], pe_inflight = 1 \<rparr>] \<rparr>, [(''u'', False)])"
proof -
  have "pl_begin sorted_range pl_example 5 ''u'' =
      (pl_example\<lparr> pl_entries := [''u'' \<mapsto> \<lparr> pe_fails = [], pe_inflight = 1 \<rparr>] \<rparr>, True, 0, Some ''u'')"
    by (simp add: pl_begin_def pl_example_def Let_def empty_entry_def)
  from pl_next [OF pl_start pl_admitted [OF this]] show ?thesis by simp
qed

lemma password_limiter_safe_witness:
  "fst (attempts (pl_example\<lparr> pl_entries := [''u'' \<mapsto> \<lparr> pe_fails = [], pe_inflight = 1 \<rparr>] \<rparr>) ''u'') + 1 \<le> 1"
  using password_limiter_safe [OF pl_example_new pl_example_step]
  by (auto simp: outstanding_def pl_example_def dest: spec [of _ "''u''"])

lemma password_begin_exact_witness:
  "\<not> fst (snd (pl_begin sorted_range
      (pl_example\<lparr> pl_entries := [''u'' \<mapsto> \<lparr> pe_fails = [], pe_inflight = 1 \<rparr>] \<rparr>) 7 ''u''))"
proof -
  let ?l = "pl_example\<lparr> pl_entries := [''u'' \<mapsto> \<lparr> pe_fails = [], pe_inflight = 1 \<rparr>] \<rparr>"
  obtain l' ok retry p where r: "pl_begin sorted_range ?l 7 ''u'' = (l', ok, retry, p)"
    by (metis prod_cases4)
  from password_begin_exact [OF pl_example_new pl_example_step range_order_sorted r]
  have "\<not> ok" by (simp add: recent_fails_def outstanding_def pl_example_def)
  with r show ?thesis by simp
qed

end
