(* ===== verification/GoStrings.thy ===== *)
theory GoStrings
  imports GoPrelude
begin

text \<open>
  The functions of Go's \<open>strings\<close> and \<open>path/filepath\<close> packages the components use, on strings as lists
  of bytes, with the generic lemmas about them.
\<close>

subsection \<open>Splitting and prefixes\<close>

text \<open>\<open>strings.Split\<close> with a one-byte separator.\<close>

fun split_on :: "char \<Rightarrow> string \<Rightarrow> string list" where
  "split_on sep [] = [[]]"
| "split_on sep (c # cs) =
     (if c = sep then [] # split_on sep cs
      else (case split_on sep cs of [] \<Rightarrow> [[c]] | w # ws \<Rightarrow> (c # w) # ws))"

lemma split_on_not_Nil [simp]: "split_on sep s \<noteq> []"
  by (cases s) (auto split: list.splits)

lemma split_on_no_sep: "w \<in> set (split_on sep s) \<Longrightarrow> sep \<notin> set w"
  by (induction sep s arbitrary: w rule: split_on.induct) (auto split: if_splits list.splits)

text \<open>\<open>strings.Join\<close> with a one-byte separator undoes the split.\<close>

fun join_on :: "char \<Rightarrow> string list \<Rightarrow> string" where
  "join_on sep [] = []"
| "join_on sep [w] = w"
| "join_on sep (w # ws) = w @ sep # join_on sep ws"

lemma join_on_Cons: "ws \<noteq> [] \<Longrightarrow> join_on sep (w # ws) = w @ sep # join_on sep ws"
  by (cases ws) simp_all

lemma join_split [simp]: "join_on sep (split_on sep s) = s"
proof (induction sep s rule: split_on.induct)
  case (2 sep c cs)
  then show ?case
    by (cases "split_on sep cs") (auto simp: join_on_Cons, metis join_on.simps(2,3) append_Cons neq_Nil_conv)
qed simp

lemma split_on_append: "sep \<notin> set w \<Longrightarrow> split_on sep (w @ sep # s) = w # split_on sep s"
  by (induction w) auto

lemma split_on_single: "sep \<notin> set w \<Longrightarrow> split_on sep w = [w]"
  by (induction w) auto

lemma split_join: "ws \<noteq> [] \<Longrightarrow> \<forall>w \<in> set ws. sep \<notin> set w \<Longrightarrow> split_on sep (join_on sep ws) = ws"
  by (induction sep ws rule: join_on.induct) (auto simp: split_on_single split_on_append)

definition containsAny :: "string \<Rightarrow> string \<Rightarrow> bool" where
  "containsAny s chars \<longleftrightarrow> list_ex (\<lambda>c. c \<in> set chars) s"

definition has_prefix :: "string \<Rightarrow> string \<Rightarrow> bool" where
  "has_prefix s pre \<longleftrightarrow> take (length pre) s = pre"

lemma has_prefix_iff: "has_prefix s pre \<longleftrightarrow> prefix pre s"
  by (auto simp: has_prefix_def prefix_def) (metis append_take_drop_id)

definition has_suffix :: "string \<Rightarrow> string \<Rightarrow> bool" where
  "has_suffix s suf \<longleftrightarrow> length suf \<le> length s \<and> drop (length s - length suf) s = suf"

lemma has_suffix_iff: "has_suffix s suf \<longleftrightarrow> suffix suf s"
  by (auto simp: has_suffix_def suffix_def) (metis append_take_drop_id)

subsection \<open>White space\<close>

text \<open>The white space of Go's \<open>strings\<close> and \<open>regexp\<close> packages on ASCII text: tab, line feed, vertical tab
  (not in a regular expression), form feed, carriage return and space.\<close>

definition asciiSpace :: "char \<Rightarrow> bool" where
  "asciiSpace c \<longleftrightarrow> c \<in> {CHR 0x09, CHR 0x0A, CHR 0x0B, CHR 0x0C, CHR 0x0D, CHR '' ''}"

definition reSpace :: "char \<Rightarrow> bool" where
  "reSpace c \<longleftrightarrow> c \<in> {CHR 0x09, CHR 0x0A, CHR 0x0C, CHR 0x0D, CHR '' ''}"

definition TrimSpace :: "string \<Rightarrow> string" where
  "TrimSpace s = rev (dropWhile asciiSpace (rev (dropWhile asciiSpace s)))"

definition Fields :: "string \<Rightarrow> string list" where
  "Fields s = filter (\<lambda>w. w \<noteq> []) (split_on (CHR '' '') (map (\<lambda>c. if asciiSpace c then CHR '' '' else c) s))"

text \<open>\<open>strings.Contains(s, sub)\<close>.\<close>

fun contains_sub :: "string \<Rightarrow> string \<Rightarrow> bool" where
  "contains_sub [] sub \<longleftrightarrow> sub = []"
| "contains_sub (c # cs) sub \<longleftrightarrow> has_prefix (c # cs) sub \<or> contains_sub cs sub"

lemma TrimSpace_shorter: "length (TrimSpace v) \<le> length (dropWhile asciiSpace v)"
  using length_dropWhile_le [of asciiSpace "rev (dropWhile asciiSpace v)"] by (simp add: TrimSpace_def)

lemma TrimSpace_ends:
  "TrimSpace v = v \<longleftrightarrow> (v = [] \<or> \<not> asciiSpace (hd v) \<and> \<not> asciiSpace (last v))"
proof (cases "v = []")
  case False
  then obtain a w b u where v: "v = a # w" "v = u @ [b]" by (metis list.exhaust rev_exhaust)
  have ends: "hd v = a" "last v = b" by (simp add: v(1), simp add: v(2))
  show ?thesis
  proof
    assume t: "TrimSpace v = v"
    have a: "\<not> asciiSpace a"
    proof
      assume "asciiSpace a"
      then have "length (dropWhile asciiSpace v) < length v"
        using length_dropWhile_le [of asciiSpace w] by (simp add: v(1) less_Suc_eq_le)
      with TrimSpace_shorter [of v] t show False by simp
    qed
    then have d: "dropWhile asciiSpace v = v" by (simp add: v(1))
    have "\<not> asciiSpace b"
    proof
      assume "asciiSpace b"
      then have "length (TrimSpace v) < length v"
        using length_dropWhile_le [of asciiSpace "rev u"]
        by (simp add: TrimSpace_def d) (simp add: v(2) less_Suc_eq_le)
      with t show False by simp
    qed
    with a show "v = [] \<or> \<not> asciiSpace (hd v) \<and> \<not> asciiSpace (last v)" by (simp add: ends)
  next
    assume "v = [] \<or> \<not> asciiSpace (hd v) \<and> \<not> asciiSpace (last v)"
    with False have a: "\<not> asciiSpace a" "\<not> asciiSpace b" by (simp_all add: ends)
    then have "dropWhile asciiSpace v = v" by (simp add: v(1))
    moreover have "dropWhile asciiSpace (rev v) = rev v" using a(2) by (simp add: v(2))
    ultimately show "TrimSpace v = v" by (simp add: TrimSpace_def)
  qed
qed (simp add: TrimSpace_def)

subsection \<open>Paths\<close>

text \<open>
  \<open>filepath.Clean\<close> on the segments of a path, innermost last: empty and dot segments go, a dot-dot
  segment removes the one before it, is dropped at the root of an absolute path and kept at the start
  of a relative one.
\<close>

definition clean_step :: "bool \<Rightarrow> string list \<Rightarrow> string \<Rightarrow> string list" where
  "clean_step rooted stack seg =
     (if seg = '''' \<or> seg = ''.'' then stack
      else if seg \<noteq> ''..'' then seg # stack
      else case stack of
        [] \<Rightarrow> if rooted then [] else [''..'']
      | s # rest \<Rightarrow> if s = ''..'' then ''..'' # stack else rest)"

definition isAbs :: "string \<Rightarrow> bool" where
  "isAbs path \<longleftrightarrow> take 1 path = ''/''"

definition clean_segments :: "string \<Rightarrow> string list" where
  "clean_segments path = rev (foldl (clean_step (isAbs path)) [] (split_on (CHR ''/'') path))"

text \<open>A directory whose children's cleaned paths start with its own cleaned path and a separator: every
  path but those that clean to the root of the file system or to the current directory.\<close>

definition properDir :: "string \<Rightarrow> bool" where
  "properDir path \<longleftrightarrow> clean_segments path \<noteq> []"

lemma properDir_examples: "properDir ''/data/x'' \<and> \<not> properDir ''/'' \<and> \<not> properDir ''/a/..'' \<and> \<not> properDir ''./a/../.'' \<and> properDir ''..''"
  by (simp add: properDir_def clean_segments_def clean_step_def isAbs_def)

end
