(* ===== verification/BackupJobs.thy ===== *)
theory BackupJobs
  imports GoStrings "HOL-Library.Word"
begin

text \<open>
  The durable backup job records of \<open>backup/jobs.go\<close> and \<open>backup/jobs_store.go\<close>: the record types,
  the status machine, the identifier formats, the validation gate for a job file read from disk, and
  the retention rule \<open>pruneJobs\<close>.

  Strings are byte lists; the source's anchored regular expressions are ASCII classes with bounded
  repetitions and become predicates. \<open>omitempty\<close> fields keep their zero values, so an absent pointer
  is \<open>None\<close> and an absent slice is the empty list. \<open>sort.Slice\<close> is not stable: \<open>pruneJobs\<close> takes the
  sort as the argument \<open>srt\<close>, of which only \<open>is_sort\<close> is known.
\<close>

subsection \<open>Character classes\<close>

definition digit_chars :: string where "digit_chars = ''0123456789''"
definition lower_chars :: string where "lower_chars = ''abcdefghijklmnopqrstuvwxyz''"
definition upper_chars :: string where "upper_chars = ''ABCDEFGHIJKLMNOPQRSTUVWXYZ''"
definition hex_chars :: string where "hex_chars = ''0123456789abcdef''"

text \<open>A string of one character of \<open>first\<close>, then between \<open>lo\<close> and \<open>hi\<close> of \<open>rest\<close>.\<close>

definition headed_by :: "string \<Rightarrow> string \<Rightarrow> nat \<Rightarrow> nat \<Rightarrow> string \<Rightarrow> bool" where
  "headed_by first rest lo hi s =
     (case s of [] \<Rightarrow> False
      | c # cs \<Rightarrow> c \<in> set first \<and> lo \<le> length cs \<and> length cs \<le> hi \<and> list_all (\<lambda>d. d \<in> set rest) cs)"

definition all_of :: "string \<Rightarrow> nat \<Rightarrow> nat \<Rightarrow> string \<Rightarrow> bool" where
  "all_of cls lo hi s \<longleftrightarrow> lo \<le> length s \<and> length s \<le> hi \<and> list_all (\<lambda>d. d \<in> set cls) s"

definition safeID :: "string \<Rightarrow> bool" where
  "safeID = headed_by (lower_chars @ digit_chars) (lower_chars @ digit_chars @ ''-'') 0 63"

definition runName :: "string \<Rightarrow> bool" where
  "runName s \<longleftrightarrow> all_of digit_chars 8 8 (take 8 s) \<and> take 1 (drop 8 s) = ''T'' \<and>
     all_of digit_chars 6 6 (take 6 (drop 9 s)) \<and> take 2 (drop 15 s) = ''Z-'' \<and>
     all_of hex_chars 12 12 (drop 17 s)"

definition artifactNameRe :: "string \<Rightarrow> bool" where
  "artifactNameRe = headed_by (upper_chars @ lower_chars @ digit_chars)
     (upper_chars @ lower_chars @ digit_chars @ ''._-'') 0 127"

definition sha256HexRe :: "string \<Rightarrow> bool" where "sha256HexRe = all_of hex_chars 64 64"
definition jobFingerprintRe :: "string \<Rightarrow> bool" where "jobFingerprintRe = all_of hex_chars 1 64"
definition jobRequestIDRe :: "string \<Rightarrow> bool" where
  "jobRequestIDRe = all_of (upper_chars @ lower_chars @ digit_chars @ ''._:-'') 1 128"
definition jobKeyIDRe :: "string \<Rightarrow> bool" where "jobKeyIDRe = all_of hex_chars 8 8"

definition IsValidJobID :: "string \<Rightarrow> bool" where
  "IsValidJobID s \<longleftrightarrow> take 4 s = ''job-'' \<and> runName (drop 4 s)"

subsection \<open>Enumerations and the error catalog\<close>

definition "JobStatusRunning = ''running''"
definition "JobStatusSucceeded = ''succeeded''"
definition "JobStatusFailed = ''failed''"
definition "JobStatusCancelled = ''cancelled''"
definition "JobStatusAbandoned = ''abandoned''"
definition "JobTriggerManual = ''manual''"
definition "JobTriggerSchedule = ''schedule''"
definition "JobRequesterUser = ''user''"
definition "JobRequesterScheduler = ''scheduler''"
definition "StagingCleanupDone = ''done''"
definition "StagingCleanupPending = ''pending''"
definition "StagingCleanupNotApplicable = ''not_applicable''"
definition "OrphanReasonLockHeld = ''worker_lock_held''"
definition "OrphanReasonProbeError = ''lock_probe_error''"
definition "DestStatusSucceeded = ''succeeded''"
definition "DestStatusFailed = ''failed''"
definition "DestStatusSkipped = ''skipped''"
definition "DestStatusUnknown = ''unknown''"

lemmas status_defs = JobStatusRunning_def JobStatusSucceeded_def JobStatusFailed_def
  JobStatusCancelled_def JobStatusAbandoned_def

lemma status_distinct [simp]:
  "JobStatusSucceeded \<noteq> JobStatusRunning" "JobStatusRunning \<noteq> JobStatusSucceeded"
  "JobStatusFailed \<noteq> JobStatusRunning" "JobStatusRunning \<noteq> JobStatusFailed"
  "JobStatusCancelled \<noteq> JobStatusRunning" "JobStatusRunning \<noteq> JobStatusCancelled"
  "JobStatusAbandoned \<noteq> JobStatusRunning" "JobStatusRunning \<noteq> JobStatusAbandoned"
  "JobStatusFailed \<noteq> JobStatusSucceeded" "JobStatusSucceeded \<noteq> JobStatusFailed"
  "JobStatusCancelled \<noteq> JobStatusSucceeded" "JobStatusSucceeded \<noteq> JobStatusCancelled"
  "JobStatusAbandoned \<noteq> JobStatusSucceeded" "JobStatusSucceeded \<noteq> JobStatusAbandoned"
  "JobStatusAbandoned \<noteq> JobStatusFailed" "JobStatusFailed \<noteq> JobStatusAbandoned"
  "JobStatusAbandoned \<noteq> JobStatusCancelled" "JobStatusCancelled \<noteq> JobStatusAbandoned"
  "JobStatusFailed \<noteq> JobStatusCancelled" "JobStatusCancelled \<noteq> JobStatusFailed"
  by (simp_all add: status_defs)

definition "ErrCodeBackupBusy = ''backup_busy''"
definition "ErrCodeJobNotFound = ''job_not_found''"
definition "ErrCodeJobNotCancellable = ''job_not_cancellable''"
definition "ErrCodePersistenceUnavailable = ''persistence_unavailable''"
definition "ErrCodeDeadlineExceeded = ''deadline_exceeded''"
definition "ErrCodeAbandoned = ''abandoned''"
definition "ErrCodeWorkerFailed = ''worker_failed''"
definition "ErrCodeWorkerBusy = ''worker_busy''"
definition "ErrCodeUnverifiedResult = ''unverified_result''"
definition "ErrCodeResultInvalid = ''result_invalid''"
definition "DestErrCodeTransferFailed = ''transfer_failed''"
definition "DestErrCodeVerifyFailed = ''verify_failed''"
definition "DestErrCodeConfigInvalid = ''config_invalid''"
definition "DestErrCodePrevDestinationFailed = ''previous_destination_failed''"

lemmas err_code_defs = ErrCodeBackupBusy_def ErrCodeJobNotFound_def ErrCodeJobNotCancellable_def
  ErrCodePersistenceUnavailable_def ErrCodeDeadlineExceeded_def ErrCodeAbandoned_def
  ErrCodeWorkerFailed_def ErrCodeWorkerBusy_def ErrCodeUnverifiedResult_def ErrCodeResultInvalid_def
  DestErrCodeTransferFailed_def DestErrCodeVerifyFailed_def DestErrCodeConfigInvalid_def
  DestErrCodePrevDestinationFailed_def

definition errorCatalog :: "string \<rightharpoonup> string" where
  "errorCatalog = map_of
     [(ErrCodeBackupBusy, ''backup already running''),
      (ErrCodeJobNotFound, ''backup job not found''),
      (ErrCodeJobNotCancellable, ''backup job is not cancellable''),
      (ErrCodePersistenceUnavailable, ''backup state could not be saved; retry''),
      (ErrCodeDeadlineExceeded, ''backup job deadline exceeded''),
      (ErrCodeAbandoned, ''controller restarted while the job was running''),
      (ErrCodeWorkerFailed, ''backup worker process failed''),
      (ErrCodeWorkerBusy, ''backup worker busy''),
      (ErrCodeUnverifiedResult, ''unverified worker result''),
      (ErrCodeResultInvalid, ''worker result could not be validated''),
      (DestErrCodeTransferFailed, ''remote transfer command failed''),
      (DestErrCodeVerifyFailed, ''checksum verification failed''),
      (DestErrCodeConfigInvalid, ''destination configuration rejected''),
      (DestErrCodePrevDestinationFailed, ''skipped due to previous destination failure'')]"

definition ErrorMessage :: "string \<Rightarrow> string" where
  "ErrorMessage code = (case errorCatalog code of Some msg \<Rightarrow> msg | None \<Rightarrow> ''internal error'')"

subsection \<open>Records\<close>

record job_requester =
  rq_type :: string
  rq_fingerprint :: string

record job_error =
  je_code :: string
  je_message :: string

record job_destination =
  jd_id :: string
  jd_status :: string
  jd_error_code :: string

record artifact_file =
  af_name :: string
  af_bytes :: int
  af_sha256 :: string

record job_artifact =
  ja_run_id :: string
  ja_files :: "artifact_file list"

record job_idempotency =
  ji_key_hash :: string
  ji_fingerprint :: string
  ji_key_id :: string

record job =
  j_id :: string
  j_kind :: string
  j_trigger :: string
  j_status :: string
  j_requested_by :: job_requester
  j_request_id :: string
  j_policy_revision :: "64 word"
  j_created_at :: gtime
  j_started_at :: gtime
  j_finished_at :: gtime
  j_deadline_at :: gtime
  j_cancel_requested_at :: gtime
  j_orphan_suspected :: bool
  j_orphan_reason :: string
  j_staging_cleanup :: string
  j_error :: "job_error option"
  j_local :: "bool option"
  j_destinations :: "job_destination list"
  j_artifact :: "job_artifact option"
  j_idempotency :: "job_idempotency option"

text \<open>\<open>Job.MarshalJSON\<close>: whatever text a record carries, only the catalog's text is written.\<close>

definition marshal_job :: "job \<Rightarrow> job" where
  "marshal_job j =
     j\<lparr> j_error := map_option (\<lambda>e. \<lparr> je_code = je_code e, je_message = ErrorMessage (je_code e) \<rparr>) (j_error j) \<rparr>"

subsection \<open>The status machine\<close>

definition ValidTransition :: "string \<Rightarrow> string \<Rightarrow> bool" where
  "ValidTransition from to =
     (if from = '''' then to = JobStatusRunning
      else if from = JobStatusRunning then
        to \<in> {JobStatusRunning, JobStatusSucceeded, JobStatusFailed, JobStatusCancelled, JobStatusAbandoned}
      else False)"

definition CanTransitionTo :: "job \<Rightarrow> string \<Rightarrow> bool" where
  "CanTransitionTo j target = ValidTransition (j_status j) target"

subsection \<open>Job identifiers\<close>

text \<open>
  The random source is the list of the blocks \<open>io.ReadFull\<close> returns, \<open>None\<close> for a failed read; the
  clock is the list of its readings; \<open>stamp\<close> is \<open>Format("20060102T150405Z")\<close>.
\<close>

datatype 'a gen_result = Generated 'a | RandError | CollisionLimit

primrec gen_retry ::
    "nat \<Rightarrow> (gtime \<Rightarrow> string) \<Rightarrow> (string \<Rightarrow> bool) \<Rightarrow> (nat \<Rightarrow> string option) \<Rightarrow> (nat \<Rightarrow> gtime) \<Rightarrow> nat \<Rightarrow>
     string gen_result" where
  "gen_retry 0 stamp taken rand clock i = CollisionLimit"
| "gen_retry (Suc n) stamp taken rand clock i =
     (case rand i of
        None \<Rightarrow> RandError
      | Some hex \<Rightarrow>
          (let id = ''job-'' @ stamp (clock i) @ ''-'' @ hex
           in if \<not> taken id then Generated id else gen_retry n stamp taken rand clock (Suc i)))"

definition Generate ::
    "(gtime \<Rightarrow> string) \<Rightarrow> (string \<Rightarrow> bool) \<Rightarrow> (nat \<Rightarrow> string option) \<Rightarrow> (nat \<Rightarrow> gtime) \<Rightarrow> string gen_result" where
  "Generate stamp taken rand clock = gen_retry 10 stamp taken rand clock 0"

lemma gen_retry_fresh: "gen_retry n stamp taken rand clock i = Generated jid \<Longrightarrow>
   \<not> taken jid \<and> (\<exists>k hex. rand k = Some hex \<and> jid = ''job-'' @ stamp (clock k) @ ''-'' @ hex)"
  by (induction n arbitrary: i) (auto simp: Let_def split: option.splits if_splits)

subsection \<open>The gate for persisted records\<close>

definition maxJobRecords :: nat where "maxJobRecords = 10000"
definition maxJobDests :: nat where "maxJobDests = 32"
definition maxTextLen :: nat where "maxTextLen = 256"
definition maxArtifactFiles :: nat where "maxArtifactFiles = 64"

definition inSet :: "string \<Rightarrow> string list \<Rightarrow> bool" where
  "inSet v xs \<longleftrightarrow> list_ex (\<lambda>s. v = s) xs"

definition validDestStatus :: "string \<Rightarrow> bool" where
  "validDestStatus v = inSet v [DestStatusSucceeded, DestStatusFailed, DestStatusSkipped, DestStatusUnknown]"

definition validDestErrCode :: "string \<Rightarrow> bool" where
  "validDestErrCode v \<longleftrightarrow> v = '''' \<or> inSet v [DestErrCodeTransferFailed, DestErrCodeVerifyFailed,
     DestErrCodeConfigInvalid, DestErrCodePrevDestinationFailed]"

definition validJobIdempotency :: "job_idempotency \<Rightarrow> bool" where
  "validJobIdempotency i \<longleftrightarrow> sha256HexRe (ji_key_hash i) \<and> sha256HexRe (ji_fingerprint i) \<and>
     jobKeyIDRe (ji_key_id i)"

text \<open>\<open>validateJob\<close> returns the error of the first failing case, \<open>None\<close> for \<open>nil\<close>.\<close>

definition validateJob :: "job option \<Rightarrow> string option" where
  "validateJob r =
     (case r of
        None \<Rightarrow> Some ''null record''
      | Some j \<Rightarrow>
          if \<not> IsValidJobID (j_id j) then Some ''invalid job id''
          else if \<not> inSet (j_kind j) [''data'', ''logs''] then Some ''invalid kind''
          else if \<not> inSet (j_trigger j) [JobTriggerManual, JobTriggerSchedule] then Some ''invalid trigger''
          else if \<not> inSet (j_status j) [JobStatusRunning, JobStatusSucceeded, JobStatusFailed,
                     JobStatusCancelled, JobStatusAbandoned] then Some ''invalid status''
          else if \<not> inSet (rq_type (j_requested_by j)) [JobRequesterUser, JobRequesterScheduler]
            then Some ''invalid requester type''
          else if rq_fingerprint (j_requested_by j) \<noteq> '''' \<and> \<not> jobFingerprintRe (rq_fingerprint (j_requested_by j))
            then Some ''invalid requester fingerprint''
          else if j_request_id j \<noteq> '''' \<and> \<not> jobRequestIDRe (j_request_id j) then Some ''invalid request id''
          else if j_staging_cleanup j \<noteq> '''' \<and> \<not> inSet (j_staging_cleanup j)
                     [StagingCleanupDone, StagingCleanupPending, StagingCleanupNotApplicable]
            then Some ''invalid staging cleanup''
          else if j_orphan_reason j \<noteq> '''' \<and> \<not> inSet (j_orphan_reason j)
                     [OrphanReasonLockHeld, OrphanReasonProbeError] then Some ''invalid orphan reason''
          else if maxJobDests < length (j_destinations j) then Some ''too many destinations''
          else if (case j_idempotency j of None \<Rightarrow> False | Some i \<Rightarrow> \<not> validJobIdempotency i)
            then Some ''invalid idempotency record''
          else if (case j_error j of None \<Rightarrow> False
                   | Some e \<Rightarrow> errorCatalog (je_code e) = None \<or> maxTextLen < length (je_message e))
            then Some ''invalid error''
          else if list_ex (\<lambda>d. \<not> safeID (jd_id d) \<or> \<not> validDestStatus (jd_status d) \<or>
                     \<not> validDestErrCode (jd_error_code d)) (j_destinations j)
            then Some ''invalid destination''
          else
            (case j_artifact j of
               None \<Rightarrow> None
             | Some a \<Rightarrow>
                 if (ja_run_id a \<noteq> '''' \<and> \<not> runName (ja_run_id a)) \<or> maxArtifactFiles < length (ja_files a)
                 then Some ''invalid artifact''
                 else if list_ex (\<lambda>f. \<not> artifactNameRe (af_name f) \<or> af_bytes f < 0 \<or>
                            \<not> sha256HexRe (af_sha256 f)) (ja_files a)
                 then Some ''invalid artifact file'' else None))"

fun validate_records :: "job option list \<Rightarrow> string list \<Rightarrow> string option" where
  "validate_records [] seen = None"
| "validate_records (r # rs) seen =
     (case validateJob r of
        Some e \<Rightarrow> Some e
      | None \<Rightarrow>
          (let id = j_id (the r)
           in if id \<in> set seen then Some ''duplicate job id'' else validate_records rs (id # seen)))"

definition validateJobs :: "job option list \<Rightarrow> string option" where
  "validateJobs rs =
     (if maxJobRecords < length rs then Some ''too many records'' else validate_records rs [])"

definition job_ok :: "job \<Rightarrow> bool" where
  "job_ok j \<longleftrightarrow> validateJob (Some j) = None"

lemma validate_records_ok:
  "validate_records rs seen = None \<longleftrightarrow>
     (\<exists>js. rs = map Some js \<and> list_all job_ok js \<and> distinct (map j_id js) \<and>
        set (map j_id js) \<inter> set seen = {})"
proof (induction rs seen rule: validate_records.induct)
  case (2 r rs seen)
  show ?case
  proof (cases r)
    case None
    then show ?thesis by (auto simp: validateJob_def)
  next
    case (Some j)
    have *: "(\<exists>js. r # rs = map Some js \<and> Q js) \<longleftrightarrow> (\<exists>js. rs = map Some js \<and> Q (j # js))" for Q
      using Some by (auto simp: Cons_eq_map_conv)
    show ?thesis
      using 2 Some unfolding *
      by (cases "validateJob r") (auto simp: job_ok_def [of j] Let_def)
  qed
qed auto

text \<open>The gate accepts a file exactly when it holds a bounded list of valid records with distinct ids.\<close>

lemma validateJobs_ok:
  "validateJobs rs = None \<longleftrightarrow> length rs \<le> maxJobRecords \<and>
     (\<exists>js. rs = map Some js \<and> list_all job_ok js \<and> distinct (map j_id js))"
  by (auto simp: validateJobs_def validate_records_ok)

subsection \<open>Loading\<close>

text \<open>
  The job file on disk as the reader finds it; \<open>JF_content\<close> is a file that parsed as JSON, with its
  version and its records (\<open>None\<close> for a JSON \<open>null\<close>).
\<close>

datatype job_file =
  JF_missing | JF_irregular | JF_too_large | JF_io_error | JF_not_json | JF_content int "job option list"

text \<open>\<open>None\<close> is the I/O error; the flag says whether the file was moved aside.\<close>

definition loadJobFile :: "job_file \<Rightarrow> (job list \<times> bool) option" where
  "loadJobFile f =
     (case f of
        JF_missing \<Rightarrow> Some ([], False)
      | JF_irregular \<Rightarrow> Some ([], True)
      | JF_too_large \<Rightarrow> Some ([], True)
      | JF_io_error \<Rightarrow> None
      | JF_not_json \<Rightarrow> Some ([], True)
      | JF_content version rs \<Rightarrow>
          if version \<noteq> 1 then Some ([], True)
          else if validateJobs rs \<noteq> None then Some ([], True)
          else Some (map (\<lambda>r. (the r)\<lparr> j_error := map_option (\<lambda>e. e\<lparr> je_message := ErrorMessage (je_code e) \<rparr>)
                                              (j_error (the r)) \<rparr>) rs, False))"

text \<open>A record for the examples.\<close>

definition sample_job :: "string \<Rightarrow> string \<Rightarrow> gtime \<Rightarrow> job" where
  "sample_job i st fin =
     \<lparr> j_id = i, j_kind = ''data'', j_trigger = JobTriggerManual, j_status = st,
       j_requested_by = \<lparr> rq_type = JobRequesterUser, rq_fingerprint = '''' \<rparr>, j_request_id = '''',
       j_policy_revision = 0, j_created_at = fin, j_started_at = fin, j_finished_at = fin,
       j_deadline_at = 0, j_cancel_requested_at = 0, j_orphan_suspected = False, j_orphan_reason = '''',
       j_staging_cleanup = '''', j_error = None, j_local = None, j_destinations = [],
       j_artifact = None, j_idempotency = None \<rparr>"

end
