(* ===== verification/BackupPrune.thy ===== *)
theory BackupPrune
  imports BackupJobs
begin

text \<open>
  The retention rule of \<open>backup/jobs_store.go\<close> (\<open>pruneJobs\<close>) and what it
  guarantees: it is a filter of the history, it keeps running jobs and each kind's latest success,
  it drops every other job past the age limit, and it enforces the count limit oldest first.
\<close>

definition MaxJobHistory :: nat where "MaxJobHistory = 200"
definition MaxJobAge :: duration where "MaxJobAge = 90 * 24 * hour_ns"

definition is_sort :: "((job \<Rightarrow> gtime) \<Rightarrow> job list \<Rightarrow> job list) \<Rightarrow> bool" where
  "is_sort srt \<longleftrightarrow> (\<forall>f xs. mset (srt f xs) = mset xs \<and> sorted (map f (srt f xs)))"

lemma is_sort_sort_key: "is_sort sort_key"
  by (simp add: is_sort_def)

definition newer_success :: "job \<Rightarrow> job \<Rightarrow> bool" where
  "newer_success j existing \<longleftrightarrow>
     j_finished_at existing < j_finished_at j \<or>
     (j_finished_at j = j_finished_at existing \<and> j_created_at existing < j_created_at j)"

definition note_success :: "job \<Rightarrow> (string \<rightharpoonup> job) \<Rightarrow> (string \<rightharpoonup> job)" where
  "note_success j latest =
     (if j_status j = JobStatusRunning then latest
      else if j_status j = JobStatusSucceeded then
        (case latest (j_kind j) of
           None \<Rightarrow> latest(j_kind j \<mapsto> j)
         | Some existing \<Rightarrow> if newer_success j existing then latest(j_kind j \<mapsto> j) else latest)
      else latest)"

definition latestSucceeded :: "job list \<Rightarrow> (string \<rightharpoonup> job)" where
  "latestSucceeded jobs = fold note_success jobs Map.empty"

definition protected_ids :: "job list \<Rightarrow> string list" where
  "protected_ids jobs =
     map j_id (filter (\<lambda>j. j_status j = JobStatusRunning) jobs) @
     map j_id (List.map_filter (latestSucceeded jobs) (map j_kind jobs))"

definition refTime :: "job \<Rightarrow> gtime" where
  "refTime j = (if j_finished_at j = 0 then j_created_at j else j_finished_at j)"

definition too_old :: "gtime \<Rightarrow> job \<Rightarrow> bool" where
  "too_old now j \<longleftrightarrow> refTime j \<noteq> 0 \<and> MaxJobAge < time_sub now (refTime j)"

definition pruneJobs ::
    "((job \<Rightarrow> gtime) \<Rightarrow> job list \<Rightarrow> job list) \<Rightarrow> job list \<Rightarrow> gtime \<Rightarrow> job list \<times> string list" where
  "pruneJobs srt jobs now =
     (if jobs = [] then (jobs, [])
      else
        (let protected = set (protected_ids jobs);
             keep = (\<lambda>j. j_id j \<in> protected \<or> \<not> too_old now j);
             retained = filter keep jobs;
             prunedIDs = map j_id (filter (\<lambda>j. \<not> keep j) jobs)
         in if MaxJobHistory < length retained then
              (let protectedJobs = filter (\<lambda>j. j_id j \<in> protected) retained;
                   nonProtected = srt refTime (filter (\<lambda>j. j_id j \<notin> protected) retained);
                   excess = length retained - MaxJobHistory;
                   keptNonProtected = drop excess nonProtected;
                   keptSet = set (map j_id protectedJobs) \<union> set (map j_id keptNonProtected)
               in (filter (\<lambda>j. j_id j \<in> keptSet) jobs, prunedIDs @ map j_id (take excess nonProtected)))
            else (retained, prunedIDs)))"

subsection \<open>The latest success of a kind\<close>

lemma note_success_other: "note_success j latest k = latest k" if "j_kind j \<noteq> k"
  using that by (auto simp: note_success_def split: option.splits)

text \<open>The fold keeps, per kind, a success of the list that no other success is newer than.\<close>

definition success_of :: "string \<Rightarrow> job \<Rightarrow> bool" where
  "success_of k j \<longleftrightarrow> j_status j = JobStatusSucceeded \<and> j_kind j = k"

definition latest_inv :: "job set \<Rightarrow> (string \<rightharpoonup> job) \<Rightarrow> bool" where
  "latest_inv J latest \<longleftrightarrow> (\<forall>k.
     (\<forall>j. latest k = Some j \<longrightarrow> j \<in> J \<and> success_of k j \<and>
        (\<forall>i \<in> J. success_of k i \<longrightarrow> \<not> newer_success i j)) \<and>
     (latest k = None \<longrightarrow> (\<forall>i \<in> J. \<not> success_of k i)))"

lemma newer_success_trans: "newer_success a b \<Longrightarrow> newer_success b c \<Longrightarrow> newer_success a c"
  by (auto simp: newer_success_def)

lemma not_newer_trans: "\<not> newer_success a b \<Longrightarrow> newer_success a c \<Longrightarrow> \<not> newer_success b c \<Longrightarrow> False"
  by (auto simp: newer_success_def)

lemma newer_success_irrefl [simp]: "\<not> newer_success a a"
  by (simp add: newer_success_def)

lemma latest_inv_step:
  assumes "latest_inv J latest"
  shows "latest_inv (insert j J) (note_success j latest)"
proof (cases "j_status j = JobStatusSucceeded")
  case False
  then have "note_success j latest = latest" by (simp add: note_success_def)
  then show ?thesis using assms False by (auto simp: latest_inv_def success_of_def)
next
  case True
  let ?k = "j_kind j"
  have other: "note_success j latest k = latest k" "success_of k j = False" if "k \<noteq> ?k" for k
    using that note_success_other [of j k latest] by (auto simp: success_of_def)
  have own: "note_success j latest ?k = (case latest ?k of None \<Rightarrow> Some j
     | Some e \<Rightarrow> if newer_success j e then Some j else Some e)"
    using True by (auto simp: note_success_def split: option.splits)
  have "(\<forall>i. note_success j latest k = Some i \<longrightarrow> i \<in> insert j J \<and> success_of k i \<and>
        (\<forall>h \<in> insert j J. success_of k h \<longrightarrow> \<not> newer_success h i)) \<and>
     (note_success j latest k = None \<longrightarrow> (\<forall>i \<in> insert j J. \<not> success_of k i))" for k
  proof (cases "k = ?k")
    case False
    with assms other [OF False] show ?thesis by (auto simp: latest_inv_def)
  next
    case k: True
    show ?thesis
    proof (cases "latest ?k")
      case None
      then show ?thesis using assms own k True by (auto simp: latest_inv_def success_of_def)
    next
      case (Some e)
      then have e: "e \<in> J" "success_of ?k e" "\<forall>i \<in> J. success_of ?k i \<longrightarrow> \<not> newer_success i e"
        using assms by (auto simp: latest_inv_def)
      show ?thesis
      proof (cases "newer_success j e")
        case True
        then have "\<not> newer_success i j" if "i \<in> J" "success_of ?k i" for i
          using e(3) that newer_success_trans by blast
        then show ?thesis using own Some k True \<open>j_status j = JobStatusSucceeded\<close>
          by (auto simp: success_of_def)
      next
        case False
        then show ?thesis using own Some k e by auto
      qed
    qed
  qed
  then show ?thesis by (simp add: latest_inv_def)
qed

lemma latestSucceeded_inv: "latest_inv (set jobs) (latestSucceeded jobs)"
proof -
  have "latest_inv J latest \<Longrightarrow> latest_inv (J \<union> set js) (fold note_success js latest)" for J latest js
  proof (induction js arbitrary: J latest)
    case (Cons j js)
    from Cons.IH [OF latest_inv_step [OF Cons.prems, of j]] show ?case by simp
  qed simp
  from this [of "{}" Map.empty jobs] show ?thesis
    by (simp add: latestSucceeded_def latest_inv_def)
qed

lemma latestSucceededD:
  assumes "latestSucceeded jobs k = Some j"
  shows "j \<in> set jobs" "success_of k j" "i \<in> set jobs \<Longrightarrow> success_of k i \<Longrightarrow> \<not> newer_success i j"
  using latestSucceeded_inv [of jobs] assms by (auto simp: latest_inv_def)

lemma latestSucceeded_None: "latestSucceeded jobs k = None \<Longrightarrow> i \<in> set jobs \<Longrightarrow> \<not> success_of k i"
  using latestSucceeded_inv [of jobs] by (auto simp: latest_inv_def)

lemma set_map_filter': "set (List.map_filter f xs) = {y. \<exists>x \<in> set xs. f x = Some y}"
  by (induction xs) (auto simp: map_filter_simps split: option.splits)

lemma protected_ids_iff:
  "x \<in> set (protected_ids jobs) \<longleftrightarrow>
     (\<exists>j \<in> set jobs. j_id j = x \<and>
        (j_status j = JobStatusRunning \<or> latestSucceeded jobs (j_kind j) = Some j))"
proof -
  have "(\<exists>k \<in> set (map j_kind jobs). \<exists>y. latestSucceeded jobs k = Some y \<and> j_id y = x) \<longleftrightarrow>
      (\<exists>j \<in> set jobs. j_id j = x \<and> latestSucceeded jobs (j_kind j) = Some j)"
    using latestSucceededD(1,2) by (fastforce simp: success_of_def)
  then show ?thesis
    by (auto simp: protected_ids_def set_map_filter' image_iff)
qed

subsection \<open>The shape of a pruned history\<close>

lemma inj_on_id: "distinct (map j_id jobs) \<Longrightarrow> inj_on j_id (set jobs)"
  by (simp add: distinct_map)

lemma pruneJobs_filter:
  "\<exists>keep. fst (pruneJobs srt jobs now) = filter keep jobs"
proof (cases "jobs = []")
  case True
  then show ?thesis by (simp add: pruneJobs_def)
next
  case False
  then show ?thesis by (auto simp: pruneJobs_def Let_def split: if_splits)
qed

text \<open>A job is protected when it is running or its kind's latest success.\<close>

definition is_protected :: "job list \<Rightarrow> job \<Rightarrow> bool" where
  "is_protected jobs j \<longleftrightarrow> j_status j = JobStatusRunning \<or> latestSucceeded jobs (j_kind j) = Some j"

lemma protected_iff:
  assumes "distinct (map j_id jobs)" "j \<in> set jobs"
  shows "j_id j \<in> set (protected_ids jobs) \<longleftrightarrow> is_protected jobs j"
proof
  assume "j_id j \<in> set (protected_ids jobs)"
  then obtain i where i: "i \<in> set jobs" "j_id i = j_id j"
    "j_status i = JobStatusRunning \<or> latestSucceeded jobs (j_kind i) = Some i"
    by (auto simp: protected_ids_iff)
  have "i = j" using inj_onD [OF inj_on_id [OF assms(1)] i(2) i(1) assms(2)] .
  with i(3) show "is_protected jobs j" by (simp add: is_protected_def)
next
  assume "is_protected jobs j"
  then show "j_id j \<in> set (protected_ids jobs)"
    using assms(2) by (auto simp: is_protected_def protected_ids_iff)
qed

definition survives_age :: "job list \<Rightarrow> gtime \<Rightarrow> job \<Rightarrow> bool" where
  "survives_age jobs now j \<longleftrightarrow> is_protected jobs j \<or> \<not> too_old now j"

text \<open>The result of pruning a history with distinct identifiers, in terms of jobs.\<close>

lemma pruneJobs_cases:
  fixes now :: gtime
  assumes d: "distinct (map j_id jobs)" and s: "is_sort srt"
  defines "retained \<equiv> filter (survives_age jobs now) jobs"
  obtains (all) "length retained \<le> MaxJobHistory" "fst (pruneJobs srt jobs now) = retained"
      "snd (pruneJobs srt jobs now) = map j_id (filter (\<lambda>j. \<not> survives_age jobs now j) jobs)"
  | (excess) old young where "MaxJobHistory < length retained"
      "mset (old @ young) = mset (filter (\<lambda>j. \<not> is_protected jobs j) retained)"
      "length old = min (length retained - MaxJobHistory) (length (old @ young))"
      "\<forall>a \<in> set old. \<forall>b \<in> set young. refTime a \<le> refTime b"
      "fst (pruneJobs srt jobs now) =
         filter (\<lambda>j. survives_age jobs now j \<and> (is_protected jobs j \<or> j \<in> set young)) jobs"
      "snd (pruneJobs srt jobs now) =
         map j_id (filter (\<lambda>j. \<not> survives_age jobs now j) jobs) @ map j_id old"
proof (cases "jobs = []")
  case True
  then show ?thesis using all by (simp add: pruneJobs_def retained_def)
next
  case False
  let ?p = "set (protected_ids jobs)"
  have keep: "j_id j \<in> ?p \<or> \<not> too_old now j \<longleftrightarrow> survives_age jobs now j" if "j \<in> set jobs" for j
    using protected_iff [OF d that] by (simp add: survives_age_def)
  have r: "filter (\<lambda>j. j_id j \<in> ?p \<or> \<not> too_old now j) jobs = retained"
    "filter (\<lambda>j. \<not> (j_id j \<in> ?p \<or> \<not> too_old now j)) jobs = filter (\<lambda>j. \<not> survives_age jobs now j) jobs"
    unfolding retained_def using keep by (auto intro!: filter_cong)
  have sub: "set retained \<subseteq> set jobs" by (auto simp: retained_def)
  show ?thesis
  proof (cases "MaxJobHistory < length retained")
    case le: False
    then show ?thesis using all r False by (simp add: pruneJobs_def Let_def del: de_Morgan_disj)
  next
    case gt: True
    let ?np = "filter (\<lambda>j. \<not> is_protected jobs j) retained"
    let ?srt = "srt refTime ?np" and ?e = "length retained - MaxJobHistory"
    have np: "filter (\<lambda>j. j_id j \<notin> ?p) retained = ?np"
      "filter (\<lambda>j. j_id j \<in> ?p) retained = filter (is_protected jobs) retained"
      using protected_iff [OF d] sub by (auto intro!: filter_cong)
    have m: "mset ?srt = mset ?np" and so: "sorted (map refTime ?srt)"
      using s by (simp_all add: is_sort_def)
    have le: "refTime a \<le> refTime b" if "a \<in> set (take ?e ?srt)" "b \<in> set (drop ?e ?srt)" for a b
    proof -
      have "sorted (map refTime (take ?e ?srt) @ map refTime (drop ?e ?srt))"
        using so by (simp flip: map_append)
      then show ?thesis using that by (simp add: sorted_append)
    qed
    have inj: "j_id j \<in> j_id ` X \<longleftrightarrow> j \<in> X" if "j \<in> set jobs" "X \<subseteq> set jobs" for j X
      using inj_on_image_mem_iff [OF inj_on_id [OF d] that(1,2)] .
    have dsub: "set (drop ?e ?srt) \<subseteq> set ?np" "set ?np \<subseteq> set jobs"
      using m sub set_drop_subset mset_eq_setD by fastforce+
    have fin: "fst (pruneJobs srt jobs now) =
      filter (\<lambda>j. survives_age jobs now j \<and> (is_protected jobs j \<or> j \<in> set (drop ?e ?srt))) jobs"
    proof -
      have "fst (pruneJobs srt jobs now) = filter (\<lambda>j. j_id j \<in>
         j_id ` set (filter (is_protected jobs) retained) \<union> j_id ` set (drop ?e ?srt)) jobs"
        using False gt unfolding pruneJobs_def Let_def r np by simp
      also have "\<dots> = filter (\<lambda>j. j \<in> set (filter (is_protected jobs) retained) \<or> j \<in> set (drop ?e ?srt)) jobs"
        using inj [of _ "set (filter (is_protected jobs) retained)"] inj [of _ "set (drop ?e ?srt)"] sub dsub
        by (intro filter_cong refl) auto
      also have "\<dots> = filter (\<lambda>j. survives_age jobs now j \<and> (is_protected jobs j \<or> j \<in> set (drop ?e ?srt))) jobs"
        using dsub(1) by (intro filter_cong refl) (auto simp: retained_def)
      finally show ?thesis .
    qed
    have ids: "snd (pruneJobs srt jobs now) =
        map j_id (filter (\<lambda>j. \<not> survives_age jobs now j) jobs) @ map j_id (take ?e ?srt)"
      using False gt unfolding pruneJobs_def Let_def r np by simp
    have len: "length (take ?e ?srt) = min ?e (length (take ?e ?srt @ drop ?e ?srt))"
      by simp
    have mm: "mset (take ?e ?srt @ drop ?e ?srt) = mset ?np" using m by simp
    have oy: "\<forall>a \<in> set (take ?e ?srt). \<forall>b \<in> set (drop ?e ?srt). refTime a \<le> refTime b"
      using le by blast
    show ?thesis by (rule excess [OF gt mm len oy fin ids])
  qed
qed

subsection \<open>The guarantees\<close>

lemma prune_subseq: "subseq (fst (pruneJobs srt jobs now)) jobs"
proof -
  obtain keep where "fst (pruneJobs srt jobs now) = filter keep jobs"
    using pruneJobs_filter by blast
  then show ?thesis by simp
qed

lemma prune_subset: "set (fst (pruneJobs srt jobs now)) \<subseteq> set jobs"
  using pruneJobs_filter [of srt jobs now] by auto

lemma prune_length_le: "length (fst (pruneJobs srt jobs now)) \<le> length jobs"
  using pruneJobs_filter [of srt jobs now] by (auto simp: length_filter_le)

lemma prune_distinct: "distinct (map j_id jobs) \<Longrightarrow> distinct (map j_id (fst (pruneJobs srt jobs now)))"
  using pruneJobs_filter [of srt jobs now] by (auto simp: distinct_map_filter)

lemma prune_keeps_protected:
  assumes "distinct (map j_id jobs)" "is_sort srt" "j \<in> set jobs" "is_protected jobs j"
  shows "j \<in> set (fst (pruneJobs srt jobs now))"
  by (rule pruneJobs_cases [OF assms(1,2), of now]) (use assms in \<open>auto simp: survives_age_def\<close>)

lemma prune_keeps_running:
  assumes "distinct (map j_id jobs)" "is_sort srt" "j \<in> set jobs" "j_status j = JobStatusRunning"
  shows "j \<in> set (fst (pruneJobs srt jobs now))"
  using prune_keeps_protected [OF assms(1,2,3)] assms(4) by (simp add: is_protected_def)

lemma prune_ids:
  assumes "distinct (map j_id jobs)" "is_sort srt"
  shows "mset (snd (pruneJobs srt jobs now)) + mset (map j_id (fst (pruneJobs srt jobs now))) = mset (map j_id jobs)"
proof (rule pruneJobs_cases [OF assms, of now])
  let ?s = "survives_age jobs now"
  have part: "mset (map j_id (filter (\<lambda>j. \<not> P j) xs)) + mset (map j_id (filter P xs)) = mset (map j_id xs)" for P xs
    by (induction xs) auto
  {
    assume f: "fst (pruneJobs srt jobs now) = filter ?s jobs"
      and r: "snd (pruneJobs srt jobs now) = map j_id (filter (\<lambda>j. \<not> ?s j) jobs)"
    show ?thesis unfolding f r by (rule part)
  next
    fix old young
    assume m: "mset (old @ young) = mset (filter (\<lambda>j. \<not> is_protected jobs j) (filter ?s jobs))"
      and f: "fst (pruneJobs srt jobs now) =
         filter (\<lambda>j. ?s j \<and> (is_protected jobs j \<or> j \<in> set young)) jobs"
      and r: "snd (pruneJobs srt jobs now) = map j_id (filter (\<lambda>j. \<not> ?s j) jobs) @ map j_id old"
    have dj: "distinct jobs" using assms(1) by (simp add: distinct_map)
    have "distinct (old @ young)" using distinct_mset_eq_set [OF m] dj by simp
    then have "set old \<inter> set young = {}" "distinct old" by auto
    have so: "set (old @ young) = {j \<in> set jobs. ?s j \<and> \<not> is_protected jobs j}"
      using mset_eq_setD [OF m] by auto
    have "mset old = mset (filter (\<lambda>j. \<not> (is_protected jobs j \<or> j \<in> set young)) (filter ?s jobs))"
      using so \<open>set old \<inter> set young = {}\<close> \<open>distinct old\<close> dj
      by (subst set_eq_iff_mset_eq_distinct [symmetric]) auto
    then have "mset (map j_id old) =
        mset (map j_id (filter (\<lambda>j. \<not> (is_protected jobs j \<or> j \<in> set young)) (filter ?s jobs)))"
      by (metis mset_map)
    moreover have "fst (pruneJobs srt jobs now) =
        filter (\<lambda>j. is_protected jobs j \<or> j \<in> set young) (filter ?s jobs)"
      by (simp add: f conj_commute)
    ultimately have "mset (map j_id old) + mset (map j_id (fst (pruneJobs srt jobs now))) =
        mset (map j_id (filter ?s jobs))"
      by (simp only: part)
    then show ?thesis using part [of ?s jobs] by (simp add: r add.assoc)
  }
qed

lemma prune_count:
  assumes "distinct (map j_id jobs)" "is_sort srt"
  shows "length (fst (pruneJobs srt jobs now)) \<le> max MaxJobHistory (length (filter (is_protected jobs) jobs))"
proof (rule pruneJobs_cases [OF assms, of now])
  let ?s = "survives_age jobs now" and ?p = "is_protected jobs"
  {
    assume "length (filter ?s jobs) \<le> MaxJobHistory" "fst (pruneJobs srt jobs now) = filter ?s jobs"
    then show ?thesis by simp
  next
    fix old young
    assume gt: "MaxJobHistory < length (filter ?s jobs)"
      and m: "mset (old @ young) = mset (filter (\<lambda>j. \<not> ?p j) (filter ?s jobs))"
      and lo: "length old = min (length (filter ?s jobs) - MaxJobHistory) (length (old @ young))"
      and f: "fst (pruneJobs srt jobs now) = filter (\<lambda>j. ?s j \<and> (?p j \<or> j \<in> set young)) jobs"
    have dj: "distinct jobs" using assms(1) by (simp add: distinct_map)
    have "set (fst (pruneJobs srt jobs now)) \<subseteq> set (filter ?p jobs) \<union> set young" by (auto simp: f)
    moreover have "distinct (fst (pruneJobs srt jobs now))" using dj by (simp add: f)
    ultimately have "length (fst (pruneJobs srt jobs now)) \<le> card (set (filter ?p jobs) \<union> set young)"
      by (metis List.finite_set card_mono distinct_card finite_UnI)
    also have "\<dots> \<le> length (filter ?p jobs) + length young"
      by (metis (mono_tags) card_Un_le card_length add_mono le_trans)
    finally have le: "length (fst (pruneJobs srt jobs now)) \<le> length (filter ?p jobs) + length young" .
    have all: "filter ?p (filter ?s jobs) = filter ?p jobs"
      by (auto simp: survives_age_def intro!: filter_cong)
    have "length (filter ?s jobs) = length (filter ?p (filter ?s jobs)) + length (filter (\<lambda>j. \<not> ?p j) (filter ?s jobs))"
      by (rule sum_length_filter_compl [symmetric])
    also have "\<dots> = length (filter ?p jobs) + (length old + length young)"
      using mset_eq_length [OF m] by (simp only: all length_append)
    finally have tot: "length (filter ?s jobs) = length (filter ?p jobs) + (length old + length young)" .
    show ?thesis using le tot lo gt unfolding length_append by linarith
  }
qed

text \<open>C29: retention. Pruning keeps a subsequence of the history and reports exactly the identifiers
  of the rest; it never drops a running job, and for every kind with a success it keeps one that no
  other success is newer than; every kept unprotected job is younger than the age limit; at most 200
  jobs stay unless more are protected; and a job dropped although young enough is no newer than any
  unprotected job that stays.\<close>

theorem pruneJobs_retention:
  assumes d: "distinct (map j_id jobs)" and s: "is_sort srt" and r: "pruneJobs srt jobs now = (kept, removed)"
  shows "subseq kept jobs \<and> mset removed + mset (map j_id kept) = mset (map j_id jobs) \<and>
    (\<forall>j \<in> set jobs. j_status j = JobStatusRunning \<longrightarrow> j \<in> set kept) \<and>
    (\<forall>j \<in> set jobs. j_status j = JobStatusSucceeded \<longrightarrow>
       (\<exists>i \<in> set kept. success_of (j_kind j) i \<and> \<not> newer_success j i)) \<and>
    (\<forall>j \<in> set kept. is_protected jobs j \<or> \<not> too_old now j) \<and>
    length kept \<le> max 200 (length (filter (is_protected jobs) jobs)) \<and>
    (\<forall>j \<in> set jobs - set kept. \<forall>i \<in> set kept. too_old now j \<or> is_protected jobs i \<or> refTime j \<le> refTime i)"
proof -
  have k: "fst (pruneJobs srt jobs now) = kept" "snd (pruneJobs srt jobs now) = removed" using r by simp_all
  have succ: "\<exists>i \<in> set kept. success_of (j_kind j) i \<and> \<not> newer_success j i"
    if js: "j \<in> set jobs" "j_status j = JobStatusSucceeded" for j
  proof -
    have sj: "success_of (j_kind j) j" using js by (simp add: success_of_def)
    obtain i where i: "latestSucceeded jobs (j_kind j) = Some i"
      using latestSucceeded_None [of jobs "j_kind j" j] js(1) sj
      by (cases "latestSucceeded jobs (j_kind j)") auto
    note D = latestSucceededD [OF i]
    have "is_protected jobs i" using i D(2) by (simp add: is_protected_def success_of_def)
    then have "i \<in> set kept" using prune_keeps_protected [OF d s D(1)] k by blast
    then show ?thesis using D(2) D(3) [OF js(1) sj] by blast
  qed
  have order: "(\<forall>j \<in> set kept. is_protected jobs j \<or> \<not> too_old now j) \<and>
    (\<forall>j \<in> set jobs - set kept. \<forall>i \<in> set kept. too_old now j \<or> is_protected jobs i \<or> refTime j \<le> refTime i)"
  proof (rule pruneJobs_cases [OF d s, of now])
    assume "fst (pruneJobs srt jobs now) = filter (survives_age jobs now) jobs"
    then show ?thesis by (auto simp: k survives_age_def)
  next
    fix old young
    assume m: "mset (old @ young) = mset (filter (\<lambda>j. \<not> is_protected jobs j) (filter (survives_age jobs now) jobs))"
      and le: "\<forall>a \<in> set old. \<forall>b \<in> set young. refTime a \<le> refTime b"
      and f: "fst (pruneJobs srt jobs now) =
         filter (\<lambda>j. survives_age jobs now j \<and> (is_protected jobs j \<or> j \<in> set young)) jobs"
    have "set old \<union> set young = {j \<in> set jobs. survives_age jobs now j \<and> \<not> is_protected jobs j}"
      using mset_eq_setD [OF m] by auto
    then show ?thesis using le f by (auto simp: k survives_age_def)
  qed
  have running: "j \<in> set kept" if "j \<in> set jobs" "j_status j = JobStatusRunning" for j
    using prune_keeps_running [OF d s that, of now] k by simp
  show ?thesis
    using prune_subseq [of srt jobs now] prune_ids [OF d s, of now] prune_count [OF d s, of now]
      running succ order unfolding k MaxJobHistory_def by blast
qed

lemma pruneJobs_retention_witness:
  "let jobs = [sample_job ''a'' JobStatusSucceeded 1, sample_job ''b'' JobStatusFailed 1];
       (kept, removed) = pruneJobs sort_key jobs (100 * 24 * hour_ns)
   in (\<exists>i \<in> set kept. success_of ''data'' i) \<and> mset removed + mset (map j_id kept) = {# ''a'', ''b'' #}"
proof -
  let ?jobs = "[sample_job ''a'' JobStatusSucceeded 1, sample_job ''b'' JobStatusFailed 1]"
  have "distinct (map j_id ?jobs)" by (simp add: sample_job_def)
  note R = pruneJobs_retention [OF this is_sort_sort_key surjective_pairing]
  have s: "sample_job ''a'' JobStatusSucceeded 1 \<in> set ?jobs"
    "j_status (sample_job ''a'' JobStatusSucceeded 1) = JobStatusSucceeded"
    "j_kind (sample_job ''a'' JobStatusSucceeded 1) = ''data''"
    "mset (map j_id ?jobs) = {# ''a'', ''b'' #}"
    by (simp_all add: sample_job_def)
  have "\<exists>i \<in> set (fst (pruneJobs sort_key ?jobs (100 * 24 * hour_ns))). success_of ''data'' i"
    using R s(1,2) unfolding s(3) [symmetric] by blast
  moreover have "mset (snd (pruneJobs sort_key ?jobs (100 * 24 * hour_ns))) +
      mset (map j_id (fst (pruneJobs sort_key ?jobs (100 * 24 * hour_ns)))) = {# ''a'', ''b'' #}"
    using R unfolding s(4) by blast
  ultimately show ?thesis by (simp add: Let_def case_prod_beta)
qed

end
