(* ===== verification/BackupStorage.thy ===== *)
theory BackupStorage
  imports BackupJobs
begin

text \<open>
  The evidence a worker leaves under the backup root and how the controller reads it:
  \<open>backup/storage.go\<close>, \<open>readWorkerResult\<close> and \<open>findMatchingManifest\<close> of \<open>manager_jobs.go\<close>, and
  \<open>validateWorkerResult\<close> of \<open>jobs_reconcile.go\<close>.

  The root is a tree of nodes, seen without following symbolic links; a node that cannot be
  inspected is \<open>Denied\<close>. One call sees one tree, so the source's second \<open>Lstat\<close> (against a
  directory swapped meanwhile) always agrees with the first. Its path-prefix checks on names that have
  passed their patterns fail only below a root that is not a \<open>properDir\<close>. Decoding JSON is the standard library's and is an
  argument (\<open>decode\<close>).
\<close>

datatype fnode = Dir "(string \<times> fnode) list" | Regular string | Symlink | Special | Denied

type_synonym tree = "(string \<times> fnode) list"

datatype read_error = NotExist | NotRegular | TooLarge | IOError

definition maxManifestBytes :: int where "maxManifestBytes = 1048576"
definition maxResultBytes :: int where "maxResultBytes = 65536"

definition fixedKind :: "string \<Rightarrow> string option" where
  "fixedKind kind = (if kind = ''data'' then Some ''data'' else if kind = ''logs'' then Some ''logs'' else None)"

definition readRegularFile :: "tree \<Rightarrow> string \<Rightarrow> int \<Rightarrow> read_error + string" where
  "readRegularFile entries name maxBytes =
     (case map_of entries name of
        None \<Rightarrow> Inl NotExist
      | Some (Regular b) \<Rightarrow> if maxBytes < int (length b) then Inl TooLarge else Inr b
      | Some Denied \<Rightarrow> Inl IOError
      | Some _ \<Rightarrow> Inl NotRegular)"

definition lstatDir :: "tree \<Rightarrow> string \<Rightarrow> tree option" where
  "lstatDir entries name = (case map_of entries name of Some (Dir es) \<Rightarrow> Some es | _ \<Rightarrow> None)"

record owned_manifest =
  om_owner :: string
  om_instance_id :: string
  om_kind :: string
  om_run_id :: string
  om_job_id :: string
  om_sha256 :: "(string \<times> string) list"

record artifact_manifest =
  am_owner :: string
  am_instance_id :: string
  am_kind :: string
  am_run_id :: string
  am_job_id :: string
  am_files :: "artifact_file list"

text \<open>The ownership rule for \<open><root>/<kind>/<runDir>\<close>: the marker and the directory's entries.\<close>

definition readOwnedManifest ::
    "(string \<Rightarrow> owned_manifest option) \<Rightarrow> string \<Rightarrow> tree \<Rightarrow> string \<Rightarrow> string \<Rightarrow> string \<Rightarrow>
     (owned_manifest \<times> tree) option" where
  "readOwnedManifest decode root tr kind runDir instanceID =
     (case fixedKind kind of
        None \<Rightarrow> None
      | Some k \<Rightarrow>
          if \<not> runName runDir \<or> \<not> isAbs root \<or> \<not> properDir root then None
          else
            (case lstatDir tr k of
               None \<Rightarrow> None
             | Some base \<Rightarrow>
                 (case lstatDir base runDir of
                    None \<Rightarrow> None
                  | Some dir \<Rightarrow>
                      (case readRegularFile dir ''complete.json'' maxManifestBytes of
                         Inl _ \<Rightarrow> None
                       | Inr b \<Rightarrow>
                           (case decode b of
                              None \<Rightarrow> None
                            | Some marker \<Rightarrow>
                                if om_owner marker \<noteq> ''ldapium-backup-v1'' \<or>
                                   om_instance_id marker \<noteq> instanceID \<or>
                                   om_kind marker \<noteq> k \<or> om_run_id marker \<noteq> runDir
                                then None else Some (marker, dir))))))"

text \<open>The files of a manifest, in name order: \<open>out\<close> holds those taken so far, newest last.\<close>

primrec artifact_loop ::
    "tree \<Rightarrow> (string \<rightharpoonup> string) \<Rightarrow> string list \<Rightarrow> artifact_file list \<Rightarrow> artifact_file list" where
  "artifact_loop dir sums [] out = out"
| "artifact_loop dir sums (name # names) out =
     (if maxArtifactFiles \<le> length out then out
      else if \<not> artifactNameRe name \<or> name = ''..'' \<or> \<not> sha256HexRe (the (sums name))
      then artifact_loop dir sums names out
      else
        (case map_of dir name of
           Some (Regular b) \<Rightarrow>
             artifact_loop dir sums names
               (out @ [\<lparr> af_name = name, af_bytes = int (length b), af_sha256 = the (sums name) \<rparr>])
         | _ \<Rightarrow> artifact_loop dir sums names out))"

definition artifactFiles :: "tree \<Rightarrow> (string \<times> string) list \<Rightarrow> artifact_file list" where
  "artifactFiles dir sums = artifact_loop dir (map_of sums) (sort (remdups (map fst sums))) []"

text \<open>\<open>os.ReadDir\<close> sorts by name.\<close>

definition readDir :: "tree \<Rightarrow> string list" where
  "readDir entries = sort (remdups (map fst entries))"

primrec match_loop ::
    "(string \<Rightarrow> owned_manifest option) \<Rightarrow> string \<Rightarrow> tree \<Rightarrow> string \<Rightarrow> string \<Rightarrow> string \<Rightarrow> string list \<Rightarrow>
     artifact_manifest option" where
  "match_loop decode root tr k jobID instanceID [] = None"
| "match_loop decode root tr k jobID instanceID (name # names) =
     (case readOwnedManifest decode root tr k name instanceID of
        None \<Rightarrow> match_loop decode root tr k jobID instanceID names
      | Some (raw, dir) \<Rightarrow>
          if om_job_id raw \<noteq> jobID then match_loop decode root tr k jobID instanceID names
          else Some \<lparr> am_owner = om_owner raw, am_instance_id = om_instance_id raw, am_kind = om_kind raw,
                      am_run_id = om_run_id raw, am_job_id = om_job_id raw,
                      am_files = artifactFiles dir (om_sha256 raw) \<rparr>)"

definition findMatchingManifest ::
    "(string \<Rightarrow> owned_manifest option) \<Rightarrow> string \<Rightarrow> tree \<Rightarrow> string \<Rightarrow> string \<Rightarrow> string \<Rightarrow>
     artifact_manifest option" where
  "findMatchingManifest decode root tr kind jobID instanceID =
     (case fixedKind kind of
        None \<Rightarrow> None
      | Some k \<Rightarrow>
          if root = '''' \<or> \<not> IsValidJobID jobID \<or> \<not> properDir root then None
          else
            (case map_of tr k of
               Some (Dir base) \<Rightarrow> match_loop decode root tr k jobID instanceID (readDir base)
             | _ \<Rightarrow> None))"

subsection \<open>Worker results\<close>

record worker_destination =
  wd_id :: string
  wd_status :: string
  wd_error_code :: string

record worker_result =
  wr_run_id :: string
  wr_kind :: string
  wr_verified :: bool
  wr_local_verified :: bool
  wr_job_id :: string
  wr_destinations :: "worker_destination list"

fun check_destinations :: "bool \<Rightarrow> worker_destination list \<Rightarrow> string list \<Rightarrow> string option" where
  "check_destinations verified [] seen = None"
| "check_destinations verified (d # ds) seen =
     (if \<not> safeID (wd_id d) \<or> wd_id d \<in> set seen then Some ''invalid destination id''
      else if \<not> validDestStatus (wd_status d) \<or> \<not> validDestErrCode (wd_error_code d)
        then Some ''invalid destination status''
      else if verified \<and> wd_status d \<noteq> DestStatusSucceeded
        then Some ''verified result with unsuccessful destination''
      else check_destinations verified ds (wd_id d # seen))"

definition validateWorkerResult :: "worker_result \<Rightarrow> job \<Rightarrow> string option" where
  "validateWorkerResult wr j =
     (if wr_job_id wr \<noteq> j_id j then Some ''job_id mismatch''
      else if wr_kind wr \<noteq> j_kind j then Some ''kind mismatch''
      else if wr_run_id wr \<noteq> '''' \<and> \<not> runName (wr_run_id wr) then Some ''invalid run_id''
      else if (wr_verified wr \<or> wr_local_verified wr) \<and> wr_run_id wr = '''' then Some ''verified result without run_id''
      else if wr_verified wr \<and> \<not> wr_local_verified wr then Some ''verified without local_verified''
      else if maxJobDests < length (wr_destinations wr) then Some ''too many destinations''
      else check_destinations (wr_verified wr) (wr_destinations wr) [])"

datatype result_status = resultAbsent | resultOK | resultInvalid

definition readWorkerResult ::
    "(string \<Rightarrow> worker_result option) \<Rightarrow> string \<Rightarrow> tree \<Rightarrow> job \<Rightarrow> worker_result option \<times> result_status" where
  "readWorkerResult decode root tr j =
     (if root = '''' \<or> \<not> IsValidJobID (j_id j) then (None, resultAbsent)
      else if \<not> properDir root then (None, resultInvalid)
      else
        (case map_of tr ''.results'' of
           None \<Rightarrow> (None, resultAbsent)
         | Some (Dir entries) \<Rightarrow>
             (case readRegularFile entries (j_id j @ ''.json'') maxResultBytes of
                Inl NotExist \<Rightarrow> (None, resultAbsent)
              | Inl _ \<Rightarrow> (None, resultInvalid)
              | Inr b \<Rightarrow>
                  (case decode b of
                     None \<Rightarrow> (None, resultInvalid)
                   | Some wr \<Rightarrow>
                       if validateWorkerResult wr j \<noteq> None then (None, resultInvalid)
                       else (Some wr, resultOK)))
         | Some _ \<Rightarrow> (None, resultInvalid)))"

subsection \<open>Capacity reporting\<close>

record storage_view =
  sv_bytes :: int
  sv_copies :: int
  sv_latest_bytes :: int

definition dir_size :: "tree \<Rightarrow> int" where
  "dir_size dir = sum_list (map (\<lambda>f. case map_of dir f of Some (Regular b) \<Rightarrow> int (length b) | _ \<Rightarrow> 0) (readDir dir))"

definition storage_step ::
    "(string \<Rightarrow> owned_manifest option) \<Rightarrow> string \<Rightarrow> tree \<Rightarrow> string \<Rightarrow> string \<Rightarrow> string \<Rightarrow>
     storage_view \<times> string \<Rightarrow> storage_view \<times> string" where
  "storage_step decode root tr kind instanceID name acc =
     (case acc of (sofar, latest) \<Rightarrow>
       (case readOwnedManifest decode root tr kind name instanceID of
          None \<Rightarrow> (sofar, latest)
        | Some (_, dir) \<Rightarrow>
            (let size = dir_size dir;
                 sofar = sofar\<lparr> sv_bytes := sv_bytes sofar + size, sv_copies := sv_copies sofar + 1 \<rparr>
             in if latest < name then (sofar\<lparr> sv_latest_bytes := size \<rparr>, name) else (sofar, latest))))"

definition storage_kind ::
    "(string \<Rightarrow> owned_manifest option) \<Rightarrow> string \<Rightarrow> tree \<Rightarrow> string \<Rightarrow> string \<Rightarrow> storage_view option" where
  "storage_kind decode root tr instanceID kind =
     (case lstatDir tr kind of
        None \<Rightarrow> None
      | Some base \<Rightarrow>
          Some (fst (fold (storage_step decode root tr kind instanceID)
            (filter (\<lambda>n. runName n \<and> lstatDir base n \<noteq> None) (readDir base))
            (\<lparr> sv_bytes = 0, sv_copies = 0, sv_latest_bytes = 0 \<rparr>, ''''))))"

definition storage ::
    "(string \<Rightarrow> owned_manifest option) \<Rightarrow> string \<Rightarrow> tree \<Rightarrow> string \<Rightarrow> (string \<rightharpoonup> storage_view)" where
  "storage decode root tr instanceID =
     (if \<not> isAbs root \<or> instanceID = '''' then Map.empty
      else (\<lambda>kind. if (kind = ''data'' \<or> kind = ''logs'') \<and> properDir root then storage_kind decode root tr instanceID kind else None))"

subsection \<open>What the readers guarantee\<close>

definition artifact_file_ok :: "artifact_file \<Rightarrow> bool" where
  "artifact_file_ok f \<longleftrightarrow> artifactNameRe (af_name f) \<and> 0 \<le> af_bytes f \<and> sha256HexRe (af_sha256 f)"

lemma artifact_loop_ok:
  assumes "list_all artifact_file_ok out" "length out \<le> maxArtifactFiles"
    and "\<forall>f \<in> set out. \<exists>b. map_of dir (af_name f) = Some (Regular b) \<and> af_bytes f = int (length b)"
  shows "list_all artifact_file_ok (artifact_loop dir sums names out) \<and>
    length (artifact_loop dir sums names out) \<le> maxArtifactFiles \<and>
    (\<forall>f \<in> set (artifact_loop dir sums names out).
       \<exists>b. map_of dir (af_name f) = Some (Regular b) \<and> af_bytes f = int (length b))"
  using assms
proof (induction names arbitrary: out)
  case (Cons name names)
  show ?case
  proof (cases "maxArtifactFiles \<le> length out \<or> \<not> artifactNameRe name \<or> name = ''..'' \<or> \<not> sha256HexRe (the (sums name))")
    case True
    then show ?thesis using Cons by (auto simp del: de_Morgan_disj)
  next
    case False
    show ?thesis
    proof (cases "\<exists>b. map_of dir name = Some (Regular b)")
      case True
      then obtain b where b: "map_of dir name = Some (Regular b)" by blast
      let ?f = "\<lparr> af_name = name, af_bytes = int (length b), af_sha256 = the (sums name) \<rparr>"
      have "list_all artifact_file_ok (out @ [?f])" "length (out @ [?f]) \<le> maxArtifactFiles"
        "\<forall>f \<in> set (out @ [?f]). \<exists>b. map_of dir (af_name f) = Some (Regular b) \<and> af_bytes f = int (length b)"
        using False Cons.prems b by (auto simp: artifact_file_ok_def [of ?f])
      from Cons.IH [OF this] show ?thesis using False b by simp
    next
      case nb: False
      then have "artifact_loop dir sums (name # names) out = artifact_loop dir sums names out"
        using False by (auto split: option.splits fnode.splits)
      then show ?thesis using Cons by simp
    qed
  qed
qed simp

lemma artifactFiles_ok:
  "list_all artifact_file_ok (artifactFiles dir sums)" "length (artifactFiles dir sums) \<le> maxArtifactFiles"
  "f \<in> set (artifactFiles dir sums) \<Longrightarrow> \<exists>b. map_of dir (af_name f) = Some (Regular b) \<and> af_bytes f = int (length b)"
  using artifact_loop_ok [of "[]" dir "map_of sums"] by (simp_all add: artifactFiles_def)

lemma readOwnedManifestD:
  assumes "readOwnedManifest decode root tr kind runDir instanceID = Some (mf, dir)"
  shows "runName runDir" "om_owner mf = ''ldapium-backup-v1''" "om_instance_id mf = instanceID"
    "om_run_id mf = runDir" "fixedKind kind = Some (om_kind mf)"
    "\<exists>base. lstatDir tr (om_kind mf) = Some base \<and> lstatDir base runDir = Some dir"
  using assms by (auto simp: readOwnedManifest_def split: option.splits if_splits sum.splits)

lemma match_loopD:
  assumes "match_loop decode root tr k jobID instanceID names = Some m"
  shows "\<exists>name \<in> set names. \<exists>raw dir. readOwnedManifest decode root tr k name instanceID = Some (raw, dir) \<and>
    om_job_id raw = jobID \<and> am_job_id m = jobID \<and> am_run_id m = om_run_id raw \<and>
    am_owner m = om_owner raw \<and> am_instance_id m = om_instance_id raw \<and> am_kind m = om_kind raw \<and>
    am_files m = artifactFiles dir (om_sha256 raw)"
  using assms by (induction names) (auto split: option.splits if_splits)

text \<open>A manifest \<open>findMatchingManifest\<close> returns is this instance's own: it sits in a real directory
  named like a run below the real directory of its kind, names that run, carries the asked job's
  identifier and the ownership marker, and refers only to bounded, well-named regular files with
  their true sizes directly inside that directory.\<close>

theorem findMatchingManifest_owned:
  assumes "findMatchingManifest decode root tr kind jobID instanceID = Some m"
  shows "am_owner m = ''ldapium-backup-v1'' \<and> am_instance_id m = instanceID \<and> am_job_id m = jobID \<and>
    am_kind m = kind \<and> runName (am_run_id m) \<and> length (am_files m) \<le> 64 \<and>
    (\<exists>base dir. lstatDir tr kind = Some base \<and> lstatDir base (am_run_id m) = Some dir \<and>
      (\<forall>f \<in> set (am_files m). artifact_file_ok f \<and>
         (\<exists>b. map_of dir (af_name f) = Some (Regular b) \<and> af_bytes f = int (length b))))"
proof -
  obtain k base where k: "fixedKind kind = Some k"
    and ml: "match_loop decode root tr k jobID instanceID (readDir base) = Some m"
    using assms by (auto simp: findMatchingManifest_def split: option.splits if_splits fnode.splits)
  have kk: "k = kind" using k by (auto simp: fixedKind_def split: if_splits)
  obtain name raw dir where r: "readOwnedManifest decode root tr k name instanceID = Some (raw, dir)"
    and e: "am_job_id m = jobID" "am_run_id m = om_run_id raw" "am_owner m = om_owner raw"
      "am_instance_id m = om_instance_id raw" "am_kind m = om_kind raw"
      "am_files m = artifactFiles dir (om_sha256 raw)"
    using match_loopD [OF ml] by blast
  note D = readOwnedManifestD [OF r]
  have "om_kind raw = kind" using D(5) k kk by (auto simp: fixedKind_def split: if_splits)
  moreover have "\<forall>f \<in> set (am_files m). artifact_file_ok f \<and>
         (\<exists>b. map_of dir (af_name f) = Some (Regular b) \<and> af_bytes f = int (length b))"
    using artifactFiles_ok(1,3) by (auto simp: e list_all_iff)
  ultimately show ?thesis
    using D e artifactFiles_ok(2) by (auto simp: maxArtifactFiles_def)
qed

text \<open>The tree and the decoder of the example below.\<close>

definition sample_marker :: owned_manifest where
  "sample_marker = \<lparr> om_owner = ''ldapium-backup-v1'', om_instance_id = ''i'', om_kind = ''data'',
     om_run_id = ''20240101T000000Z-0123456789ab'', om_job_id = ''job-20240101T000000Z-0123456789ab'',
     om_sha256 = [(''../x'', ''''), (''data.tar'', replicate 64 (CHR ''0''))] \<rparr>"

definition sample_tree :: tree where
  "sample_tree = [(''data'', Dir [(''20240101T000000Z-0123456789ab'',
     Dir [(''complete.json'', Regular ''{}''), (''data.tar'', Regular ''abc'')])])]"

lemma sample_ids: "runName ''20240101T000000Z-0123456789ab''" "IsValidJobID ''job-20240101T000000Z-0123456789ab''"
  by code_simp+

lemma sample_read: "readOwnedManifest (\<lambda>_. Some sample_marker) ''/b'' sample_tree ''data''
     ''20240101T000000Z-0123456789ab'' ''i'' =
   Some (sample_marker, [(''complete.json'', Regular ''{}''), (''data.tar'', Regular ''abc'')])"
  by (simp add: readOwnedManifest_def fixedKind_def sample_ids isAbs_def properDir_def clean_segments_def clean_step_def sample_tree_def lstatDir_def
      readRegularFile_def maxManifestBytes_def) (simp add: sample_marker_def)

lemma findMatchingManifest_owned_witness:
  "\<exists>m. findMatchingManifest (\<lambda>_. Some sample_marker) ''/b'' sample_tree ''data''
        ''job-20240101T000000Z-0123456789ab'' ''i'' = Some m \<and>
     runName (am_run_id m) \<and> length (am_files m) \<le> 64"
proof -
  have "findMatchingManifest (\<lambda>_. Some sample_marker) ''/b'' sample_tree ''data''
        ''job-20240101T000000Z-0123456789ab'' ''i'' \<noteq> None"
    by (simp add: findMatchingManifest_def sample_tree_def readDir_def sample_read [unfolded sample_tree_def]
        sample_ids fixedKind_def isAbs_def properDir_def clean_segments_def clean_step_def) (simp add: sample_marker_def)
  then obtain m where m: "findMatchingManifest (\<lambda>_. Some sample_marker) ''/b'' sample_tree ''data''
        ''job-20240101T000000Z-0123456789ab'' ''i'' = Some m" by blast
  with findMatchingManifest_owned [OF m] show ?thesis by blast
qed

end
