(* ===== verification/BackupReconcile.thy ===== *)
theory BackupReconcile
  imports BackupStorage
begin

text \<open>
  The pure decisions on a running record of \<open>backup/jobs_reconcile.go\<close>: the reconciliation table,
  the crash-loop guard, the schedules, the busy counter of \<open>run.go\<close> and the orphan back-off of
  \<open>manager_jobs.go\<close>.
\<close>

datatype decision =
  DecisionUnchanged | DecisionOrphanSuspected | DecisionSettledResult | DecisionSettledManifest
| DecisionSettledNone | DecisionSettledInvalid

text \<open>\<open>cloneJob\<close> copies a record; on values it is the identity.\<close>

definition cloneJob :: "job option \<Rightarrow> job option" where
  "cloneJob j = j"

definition convertManifestFiles :: "artifact_file list \<Rightarrow> artifact_file list" where
  "convertManifestFiles files =
     map (\<lambda>f. \<lparr> af_name = af_name f, af_bytes = af_bytes f, af_sha256 = af_sha256 f \<rparr>) files"

lemma convertManifestFiles_id [simp]: "convertManifestFiles files = files"
  by (simp add: convertManifestFiles_def map_idI)

record evidence =
  ev_lock_held :: bool
  ev_probe_error :: bool
  ev_result :: "worker_result option"
  ev_result_invalid :: bool
  ev_manifest :: "artifact_manifest option"

definition catalog_error :: "string \<Rightarrow> job_error" where
  "catalog_error code = \<lparr> je_code = code, je_message = ErrorMessage code \<rparr>"

definition job_dest :: "worker_destination \<Rightarrow> job_destination" where
  "job_dest d = \<lparr> jd_id = wd_id d, jd_status = wd_status d, jd_error_code = wd_error_code d \<rparr>"

definition mark_unknown :: "job_destination list \<Rightarrow> job_destination list" where
  "mark_unknown ds = map (\<lambda>d. d\<lparr> jd_status := DestStatusUnknown \<rparr>) ds"

definition ReconcileEvidence :: "job option \<Rightarrow> evidence \<Rightarrow> gtime \<Rightarrow> job option \<times> decision" where
  "ReconcileEvidence record ev now =
     (case record of
        None \<Rightarrow> (None, DecisionUnchanged)
      | Some r \<Rightarrow>
          if j_status r \<noteq> JobStatusRunning then (cloneJob record, DecisionUnchanged)
          else if ev_lock_held ev \<or> ev_probe_error ev then
            (Some (r\<lparr> j_orphan_suspected := True,
                      j_orphan_reason := (if ev_probe_error ev \<and> \<not> ev_lock_held ev
                                          then OrphanReasonProbeError else OrphanReasonLockHeld) \<rparr>),
             DecisionOrphanSuspected)
          else
            (let j = r\<lparr> j_orphan_suspected := False, j_orphan_reason := '''',
                        j_finished_at := (if j_finished_at r = 0 then now else j_finished_at r) \<rparr>;
                 clash = (case (ev_result ev, ev_manifest ev) of
                            (Some wr, Some m) \<Rightarrow> wr_run_id wr \<noteq> '''' \<and> wr_run_id wr \<noteq> am_run_id m
                          | _ \<Rightarrow> False);
                 result = (if clash then None else ev_result ev);
                 invalid = (if clash then True else ev_result_invalid ev)
             in case result of
                  Some wr \<Rightarrow>
                    (let j = j\<lparr> j_local := Some (wr_local_verified wr) \<rparr>;
                         j = (if wr_run_id wr \<noteq> '''' then
                                j\<lparr> j_artifact := Some \<lparr> ja_run_id = wr_run_id wr,
                                     ja_files = (case ev_manifest ev of
                                        Some m \<Rightarrow> if 0 < length (am_files m) then convertManifestFiles (am_files m) else []
                                      | None \<Rightarrow> []) \<rparr> \<rparr>
                              else j);
                         j = (if 0 < length (wr_destinations wr)
                              then j\<lparr> j_destinations := map job_dest (wr_destinations wr) \<rparr> else j)
                     in (Some (if wr_verified wr then j\<lparr> j_status := JobStatusSucceeded, j_error := None \<rparr>
                               else j\<lparr> j_status := JobStatusFailed,
                                       j_error := Some (catalog_error ErrCodeWorkerFailed) \<rparr>),
                         DecisionSettledResult))
                | None \<Rightarrow>
                    (let code = (if invalid then ErrCodeResultInvalid else ErrCodeAbandoned);
                         decision = (if invalid then DecisionSettledInvalid else DecisionSettledNone)
                     in case ev_manifest ev of
                          Some m \<Rightarrow>
                            (Some (j\<lparr> j_status := JobStatusAbandoned, j_error := Some (catalog_error code),
                                      j_local := Some True,
                                      j_artifact := Some \<lparr> ja_run_id = am_run_id m,
                                                           ja_files = convertManifestFiles (am_files m) \<rparr>,
                                      j_destinations := mark_unknown (j_destinations j) \<rparr>),
                             if \<not> invalid then DecisionSettledManifest else decision)
                        | None \<Rightarrow>
                            (Some (j\<lparr> j_status := JobStatusAbandoned, j_error := Some (catalog_error code),
                                      j_destinations := mark_unknown (j_destinations j) \<rparr>),
                             decision))))"

definition ReconcileWithTime ::
    "job option \<Rightarrow> bool \<Rightarrow> worker_result option \<Rightarrow> artifact_manifest option \<Rightarrow> gtime \<Rightarrow> job option \<times> decision" where
  "ReconcileWithTime record lockHeld result manifest now =
     ReconcileEvidence record
       \<lparr> ev_lock_held = lockHeld, ev_probe_error = False, ev_result = result,
         ev_result_invalid = False, ev_manifest = manifest \<rparr> now"

subsection \<open>Schedules\<close>

primrec recent_loop :: "string \<Rightarrow> job list \<Rightarrow> job list \<Rightarrow> job list" where
  "recent_loop kind [] acc = acc"
| "recent_loop kind (j # js) acc =
     (if j_kind j = kind \<and> j_status j \<noteq> JobStatusRunning then
        (if length (acc @ [j]) = 3 then acc @ [j] else recent_loop kind js (acc @ [j]))
      else recent_loop kind js acc)"

definition ShouldCatchUp :: "job list \<Rightarrow> string \<Rightarrow> bool" where
  "ShouldCatchUp jobs kind =
     (let recentFinished = recent_loop kind (rev jobs) []
      in if length recentFinished = 3 then \<not> list_all (\<lambda>j. j_status j = JobStatusAbandoned) recentFinished
         else True)"

definition ScheduleAfterRecovery :: "job list \<Rightarrow> string \<Rightarrow> int \<Rightarrow> gtime \<Rightarrow> gtime" where
  "ScheduleAfterRecovery jobs kind intervalMinutes recoveryTime =
     (if ShouldCatchUp jobs kind then recoveryTime else recoveryTime + intervalMinutes * minute_ns)"

definition ScheduleAfterWorkerBusy :: "int \<Rightarrow> int \<Rightarrow> gtime \<Rightarrow> gtime" where
  "ScheduleAfterWorkerBusy consecutiveBusy intervalMinutes now =
     (if consecutiveBusy < 10 then now + 60 * second_ns else now + intervalMinutes * minute_ns)"

primrec busy_loop :: "string \<Rightarrow> job list \<Rightarrow> int \<Rightarrow> int" where
  "busy_loop kind [] n = n"
| "busy_loop kind (j # js) n =
     (if j_kind j \<noteq> kind \<or> j_status j = JobStatusRunning then busy_loop kind js n
      else if j_status j \<noteq> JobStatusFailed \<or>
        (case j_error j of None \<Rightarrow> True | Some e \<Rightarrow> je_code e \<noteq> ErrCodeWorkerBusy) then n
      else busy_loop kind js (n + 1))"

definition consecutiveWorkerBusy :: "job list \<Rightarrow> string \<Rightarrow> int" where
  "consecutiveWorkerBusy jobs kind = busy_loop kind (rev jobs) 0"

definition orphanPollMin :: duration where "orphanPollMin = 5 * second_ns"
definition orphanPollMax :: duration where "orphanPollMax = 30 * second_ns"

definition nextOrphanDelay :: "duration \<Rightarrow> duration" where
  "nextOrphanDelay prev =
     (if prev < orphanPollMin then orphanPollMin
      else if prev * 2 < orphanPollMax then prev * 2 else orphanPollMax)"

subsection \<open>Guarantees\<close>

lemma reconcile_total: "\<exists>j d. ReconcileEvidence (Some r) ev now = (Some j, d)"
  by (simp add: ReconcileEvidence_def cloneJob_def Let_def split: option.splits)

text \<open>The part of a record that is fixed when the job starts.\<close>

definition job_core :: "job \<Rightarrow> job" where
  "job_core j = j\<lparr> j_status := '''', j_finished_at := 0, j_orphan_suspected := False, j_orphan_reason := '''',
     j_staging_cleanup := '''', j_cancel_requested_at := 0, j_error := None, j_local := None,
     j_destinations := [], j_artifact := None \<rparr>"

lemma job_core_update [simp]:
  "job_core (j\<lparr> j_status := a1 \<rparr>) = job_core j" "job_core (j\<lparr> j_finished_at := a2 \<rparr>) = job_core j"
  "job_core (j\<lparr> j_orphan_suspected := a3 \<rparr>) = job_core j" "job_core (j\<lparr> j_orphan_reason := a4 \<rparr>) = job_core j"
  "job_core (j\<lparr> j_staging_cleanup := a5 \<rparr>) = job_core j" "job_core (j\<lparr> j_cancel_requested_at := a6 \<rparr>) = job_core j"
  "job_core (j\<lparr> j_error := a7 \<rparr>) = job_core j" "job_core (j\<lparr> j_local := a8 \<rparr>) = job_core j"
  "job_core (j\<lparr> j_destinations := a9 \<rparr>) = job_core j" "job_core (j\<lparr> j_artifact := a10 \<rparr>) = job_core j"
  by (simp_all add: job_core_def)

lemma job_core_eqD:
  assumes "job_core j = job_core r"
  shows "j_id j = j_id r" "j_kind j = j_kind r" "j_trigger j = j_trigger r"
    "j_requested_by j = j_requested_by r" "j_request_id j = j_request_id r"
    "j_created_at j = j_created_at r" "j_started_at j = j_started_at r"
    "j_idempotency j = j_idempotency r" "j_policy_revision j = j_policy_revision r"
    "j_deadline_at j = j_deadline_at r"
  using arg_cong [OF assms, of j_id] arg_cong [OF assms, of j_kind] arg_cong [OF assms, of j_trigger]
    arg_cong [OF assms, of j_requested_by] arg_cong [OF assms, of j_request_id]
    arg_cong [OF assms, of j_created_at] arg_cong [OF assms, of j_started_at]
    arg_cong [OF assms, of j_idempotency] arg_cong [OF assms, of j_policy_revision]
    arg_cong [OF assms, of j_deadline_at]
  by (simp_all add: job_core_def)

lemma reconcile_core:
  assumes "ReconcileEvidence (Some r) ev now = (Some j, d)"
  shows "job_core j = job_core r" "j_staging_cleanup j = j_staging_cleanup r"
    "j_cancel_requested_at j = j_cancel_requested_at r"
proof -
  have "job_core j = job_core r \<and> j_staging_cleanup j = j_staging_cleanup r \<and>
    j_cancel_requested_at j = j_cancel_requested_at r"
    using assms by (simp add: ReconcileEvidence_def cloneJob_def Let_def split: option.splits if_splits) auto
  then show "job_core j = job_core r" "j_staging_cleanup j = j_staging_cleanup r"
    "j_cancel_requested_at j = j_cancel_requested_at r" by simp_all
qed

lemma reconcile_held:
  assumes "j_status r = JobStatusRunning" "ev_lock_held ev \<or> ev_probe_error ev"
    and "ReconcileEvidence (Some r) ev now = (Some j, d)"
  shows "d = DecisionOrphanSuspected" "j_status j = JobStatusRunning" "j_orphan_suspected j"
    "j = r\<lparr> j_orphan_suspected := True, j_orphan_reason := j_orphan_reason j \<rparr>"
  using assms by (auto simp: ReconcileEvidence_def)

lemma reconcile_free:
  assumes "j_status r = JobStatusRunning" "\<not> (ev_lock_held ev \<or> ev_probe_error ev)"
    and "ReconcileEvidence (Some r) ev now = (Some j, d)"
  shows "d \<noteq> DecisionOrphanSuspected" "\<not> j_orphan_suspected j" "j_orphan_reason j = ''''"
    "j_status j \<in> {JobStatusSucceeded, JobStatusFailed, JobStatusAbandoned}"
  using assms by (auto simp: ReconcileEvidence_def Let_def split: option.splits if_splits)

lemma reconcile_decision:
  assumes "ReconcileEvidence (Some r) ev now = (Some j, d)"
  shows "d = DecisionOrphanSuspected \<longleftrightarrow> j_status r = JobStatusRunning \<and> (ev_lock_held ev \<or> ev_probe_error ev)"
  using assms by (auto simp: ReconcileEvidence_def Let_def split: option.splits if_splits)

text \<open>C28: reconciliation of a running record. While the worker lock is held or cannot be probed the
  record stays running (never abandoned) and is only marked as a suspected orphan. Otherwise it is
  settled with a finish time: as succeeded exactly when a verified result is present that does not
  contradict the manifest, as failed exactly when such a result is present but unverified, and as
  abandoned in every other case, with \<open>result_invalid\<close> exactly when there is an invalid or
  contradicting result; a local copy is only claimed on the word of that result or of the manifest.\<close>

theorem reconcile_correct:
  assumes run: "j_status r = JobStatusRunning" and rec: "ReconcileEvidence (Some r) ev now = (Some j, d)"
  defines "usable \<equiv> (case ev_result ev of None \<Rightarrow> None
     | Some wr \<Rightarrow> if wr_run_id wr \<noteq> '''' \<and> (\<exists>m. ev_manifest ev = Some m \<and> am_run_id m \<noteq> wr_run_id wr)
                  then None else Some wr)"
  shows "if ev_lock_held ev \<or> ev_probe_error ev
    then d = DecisionOrphanSuspected \<and> j_status j = JobStatusRunning \<and> j_orphan_suspected j
    else \<not> j_orphan_suspected j \<and> j_finished_at j = (if j_finished_at r = 0 then now else j_finished_at r) \<and>
      (j_status j = JobStatusSucceeded \<longleftrightarrow> (\<exists>wr. usable = Some wr \<and> wr_verified wr)) \<and>
      (j_status j = JobStatusFailed \<longleftrightarrow> (\<exists>wr. usable = Some wr \<and> \<not> wr_verified wr)) \<and>
      (j_status j = JobStatusAbandoned \<longleftrightarrow> usable = None) \<and>
      (usable = None \<longrightarrow> j_error j = Some (catalog_error
          (if ev_result_invalid ev \<or> ev_result ev \<noteq> None then ErrCodeResultInvalid else ErrCodeAbandoned))) \<and>
      (j_local r \<noteq> Some True \<longrightarrow> j_local j = Some True \<longrightarrow>
         (\<exists>wr. usable = Some wr \<and> wr_local_verified wr) \<or> (usable = None \<and> ev_manifest ev \<noteq> None))"
proof (cases "ev_lock_held ev \<or> ev_probe_error ev")
  case True
  then show ?thesis using reconcile_held [OF run True rec] by simp
next
  case False
  show ?thesis
  proof (cases "ev_result ev")
    case None
    then show ?thesis using run rec False
      by (auto simp: ReconcileEvidence_def usable_def Let_def split: option.splits)
  next
    case (Some wr)
    show ?thesis
    proof (cases "wr_run_id wr \<noteq> '''' \<and> (\<exists>m. ev_manifest ev = Some m \<and> am_run_id m \<noteq> wr_run_id wr)")
      case True
      then show ?thesis using run rec False Some
        by (auto simp: ReconcileEvidence_def usable_def Let_def)
    next
      case nc: False
      then show ?thesis using run rec False Some
        by (auto simp: ReconcileEvidence_def usable_def Let_def split: option.splits if_splits)
    qed
  qed
qed

lemma reconcile_correct_witness:
  "\<exists>j d. ReconcileEvidence (Some (sample_job ''a'' JobStatusRunning 0))
      \<lparr> ev_lock_held = False, ev_probe_error = False, ev_result = None, ev_result_invalid = True,
        ev_manifest = None \<rparr> 5 = (Some j, d) \<and>
     j_status j = JobStatusAbandoned \<and> j_error j = Some (catalog_error ErrCodeResultInvalid) \<and> j_finished_at j = 5"
proof -
  let ?r = "sample_job ''a'' JobStatusRunning 0"
  let ?ev = "\<lparr> ev_lock_held = False, ev_probe_error = False, ev_result = None, ev_result_invalid = True,
        ev_manifest = None \<rparr>"
  obtain j d where rec: "ReconcileEvidence (Some ?r) ?ev 5 = (Some j, d)" using reconcile_total by blast
  have run: "j_status ?r = JobStatusRunning" "j_finished_at ?r = 0" by (simp_all add: sample_job_def)
  from reconcile_correct [OF run(1) rec] rec run(2) show ?thesis by simp
qed

text \<open>The three most recent finished jobs of a kind, newest first.\<close>

definition recent_finished :: "job list \<Rightarrow> string \<Rightarrow> job list" where
  "recent_finished jobs kind = take 3 (filter (\<lambda>j. j_kind j = kind \<and> j_status j \<noteq> JobStatusRunning) (rev jobs))"

lemma recent_loop_take:
  "length acc < 3 \<Longrightarrow> recent_loop kind js acc =
     acc @ take (3 - length acc) (filter (\<lambda>j. j_kind j = kind \<and> j_status j \<noteq> JobStatusRunning) js)"
proof (induction js arbitrary: acc)
  case (Cons j js)
  show ?case
  proof (cases "j_kind j = kind \<and> j_status j \<noteq> JobStatusRunning")
    case True
    have s: "3 - length acc = Suc (3 - length (acc @ [j]))" using Cons.prems by simp
    show ?thesis
    proof (cases "length (acc @ [j]) = 3")
      case True
      then show ?thesis using \<open>j_kind j = kind \<and> _\<close> s by simp
    next
      case False
      then have "length (acc @ [j]) < 3" using Cons.prems by simp
      from Cons.IH [OF this] show ?thesis using True False s by simp
    qed
  qed (use Cons in auto)
qed simp

text \<open>The crash-loop guard. An immediate catch-up after a restart is suppressed exactly when the
  three most recent finished jobs of the kind exist and were all abandoned; then the next run is a
  full interval away, and otherwise it is due at once.\<close>

theorem catch_up_guard:
  "ScheduleAfterRecovery jobs kind minutes t =
     (if length (recent_finished jobs kind) = 3 \<and>
         list_all (\<lambda>j. j_status j = JobStatusAbandoned) (recent_finished jobs kind)
      then t + minutes * minute_ns else t)"
proof -
  have "recent_loop kind (rev jobs) [] = recent_finished jobs kind"
    using recent_loop_take [of "[]" kind "rev jobs"] by (simp add: recent_finished_def)
  then show ?thesis
    by (auto simp: ScheduleAfterRecovery_def ShouldCatchUp_def Let_def list_all_iff)
qed

lemma busy_loop_count:
  "busy_loop kind js n = n + int (length (takeWhile
     (\<lambda>j. j_status j = JobStatusFailed \<and> map_option je_code (j_error j) = Some ErrCodeWorkerBusy)
     (filter (\<lambda>j. j_kind j = kind \<and> j_status j \<noteq> JobStatusRunning) js)))"
  by (induction js arbitrary: n) (auto split: option.splits)

text \<open>The orphan poll delay follows 5 s, 10 s, 20 s, 30 s, 30 s, ...: after \<open>n\<close> polls it is
  \<open>min (5 * 2 ^ (n - 1)) 30\<close> seconds, whatever the number of polls.\<close>

theorem orphan_backoff:
  "(nextOrphanDelay ^^ Suc n) 0 = min (5 * 2 ^ n) 30 * second_ns"
proof (induction n)
  case (Suc n)
  have "(nextOrphanDelay ^^ Suc (Suc n)) 0 = nextOrphanDelay (min (5 * 2 ^ n) 30 * second_ns)"
    using Suc by simp
  also have "\<dots> = min (5 * 2 ^ Suc n) 30 * second_ns"
  proof -
    have "(1 :: int) \<le> 2 ^ n" by simp
    then have "5 * second_ns \<le> min (5 * 2 ^ n) 30 * second_ns" by (simp add: second_ns_def)
    then show ?thesis
      by (auto simp: nextOrphanDelay_def orphanPollMin_def orphanPollMax_def second_ns_def min_def)
  qed
  finally show ?case .
qed (simp add: nextOrphanDelay_def orphanPollMin_def second_ns_def)

end
