(* ===== verification/BackupConnections.thy ===== *)
theory BackupConnections
  imports BackupJobs
begin

text \<open>
  Backup policies and managed connections: \<open>backup/model.go\<close> and \<open>backup/connections.go\<close>. The
  library functions \<open>validateConnection\<close> calls on free text (\<open>strings.TrimSpace\<close>, \<open>strings.Fields\<close>,
  \<open>url.Parse\<close>, \<open>net.ParseIP\<close>) are arguments, bundled in \<open>text_lib\<close>.
\<close>

record policy =
  p_enabled :: bool
  p_interval_minutes :: int
  p_keep_days :: int
  p_keep_count :: int
  p_destinations :: "string list"

record policies =
  ps_revision :: "64 word"
  ps_data :: policy
  ps_logs :: policy

record destination =
  d_id :: string
  d_name :: string
  d_type :: string

datatype policy_error = InvalidBounds | DestinationCount | UnknownOrDuplicate | LocalRequired

fun check_selected :: "string list \<Rightarrow> destination list \<Rightarrow> string list \<Rightarrow> policy_error + string list" where
  "check_selected [] destinations seen = Inr seen"
| "check_selected (x # xs) destinations seen =
     (if \<not> list_ex (\<lambda>d. d_id d = x) destinations \<or> x \<in> set seen then Inl UnknownOrDuplicate
      else check_selected xs destinations (x # seen))"

definition validate_policy :: "policy \<Rightarrow> destination list \<Rightarrow> policy_error option" where
  "validate_policy p destinations =
     (if p_interval_minutes p < 1 \<or> 525600 < p_interval_minutes p \<or> p_keep_days p < 1 \<or> 3650 < p_keep_days p \<or>
         p_keep_count p < 1 \<or> 10000 < p_keep_count p then Some InvalidBounds
      else if length (p_destinations p) = 0 \<or> 20 < length (p_destinations p) then Some DestinationCount
      else
        (case check_selected (p_destinations p) destinations [] of
           Inl e \<Rightarrow> Some e
         | Inr seen \<Rightarrow> if ''local'' \<notin> set seen then Some LocalRequired else None))"

definition defaultPolicies :: policies where
  "defaultPolicies = \<lparr> ps_revision = 0,
     ps_data = \<lparr> p_enabled = False, p_interval_minutes = 1440, p_keep_days = 30, p_keep_count = 30,
                 p_destinations = [''local''] \<rparr>,
     ps_logs = \<lparr> p_enabled = False, p_interval_minutes = 60, p_keep_days = 7, p_keep_count = 168,
                 p_destinations = [''local''] \<rparr> \<rparr>"

lemma check_selected_iff:
  "(\<exists>r. check_selected xs ds seen = Inr r \<and> P r) \<longleftrightarrow>
     set xs \<subseteq> d_id ` set ds \<and> distinct xs \<and> set xs \<inter> set seen = {} \<and> P (rev xs @ seen)"
  by (induction xs ds seen rule: check_selected.induct) (auto simp: list_ex_iff)

lemma validate_policy_iff:
  "validate_policy p ds = None \<longleftrightarrow>
     1 \<le> p_interval_minutes p \<and> p_interval_minutes p \<le> 525600 \<and> 1 \<le> p_keep_days p \<and> p_keep_days p \<le> 3650 \<and>
     1 \<le> p_keep_count p \<and> p_keep_count p \<le> 10000 \<and> length (p_destinations p) \<le> 20 \<and>
     set (p_destinations p) \<subseteq> d_id ` set ds \<and> distinct (p_destinations p) \<and> ''local'' \<in> set (p_destinations p)"
  using check_selected_iff [of "p_destinations p" ds "[]" "\<lambda>r. ''local'' \<in> set r"]
  by (auto simp: validate_policy_def split: sum.splits)

subsection \<open>Connections\<close>

record connection =
  c_id :: string
  c_name :: string
  c_type :: string
  c_host :: string
  c_port :: int
  c_user :: string
  c_endpoint :: string
  c_region :: string
  c_bucket :: string
  c_prefix :: string
  c_known_hosts :: string
  c_allow_plaintext :: bool
  c_password :: string
  c_access_key :: string
  c_secret_key :: string

record public_connection =
  pc_id :: string
  pc_name :: string
  pc_type :: string
  pc_host :: string
  pc_port :: int
  pc_user :: string
  pc_endpoint :: string
  pc_region :: string
  pc_bucket :: string
  pc_prefix :: string
  pc_known_hosts :: string
  pc_allow_plaintext :: bool
  pc_credentials_set :: bool

definition publicConnections :: "connection list \<Rightarrow> public_connection list" where
  "publicConnections = map (\<lambda>c.
     \<lparr> pc_id = c_id c, pc_name = c_name c, pc_type = c_type c, pc_host = c_host c, pc_port = c_port c,
       pc_user = c_user c, pc_endpoint = c_endpoint c, pc_region = c_region c, pc_bucket = c_bucket c,
       pc_prefix = c_prefix c, pc_known_hosts = c_known_hosts c, pc_allow_plaintext = c_allow_plaintext c,
       pc_credentials_set = (c_password c \<noteq> '''' \<or> (c_access_key c \<noteq> '''' \<and> c_secret_key c \<noteq> '''')) \<rparr>)"

record parsed_url =
  u_scheme :: string
  u_hostname :: string
  u_has_user :: bool
  u_raw_query :: string
  u_fragment :: string
  u_path :: string

record text_lib =
  trim_space :: "string \<Rightarrow> string"
  split_fields :: "string \<Rightarrow> string list"
  parse_url :: "string \<Rightarrow> parsed_url option"
  is_ip :: "string \<Rightarrow> bool"

definition prefixPattern :: "string \<Rightarrow> bool" where
  "prefixPattern s \<longleftrightarrow> s \<noteq> [] \<and> list_all (\<lambda>c. c \<in> set (upper_chars @ lower_chars @ digit_chars @ ''_/-'')) s"

definition bucketPattern :: "string \<Rightarrow> bool" where
  "bucketPattern = headed_by (lower_chars @ upper_chars @ digit_chars) (lower_chars @ upper_chars @ digit_chars @ ''.-'') 1 62"

datatype connection_error =
  ConnIdentity | ConnField | ConnPrefix | ConnBucket | ConnEndpoint | ConnHostPort | ConnHost
| ConnPlaintext | ConnKnownHosts | ConnHostKey | ConnTransport

definition bad_endpoint :: "text_lib \<Rightarrow> string \<Rightarrow> bool" where
  "bad_endpoint L ep =
     (case parse_url L ep of
        None \<Rightarrow> True
      | Some u \<Rightarrow> u_scheme u \<noteq> ''https'' \<or> u_hostname u = '''' \<or> u_has_user u \<or> u_raw_query u \<noteq> '''' \<or>
          u_fragment u \<noteq> '''' \<or> (u_path u \<noteq> '''' \<and> u_path u \<noteq> ''/''))"

text \<open>A known-hosts line needs three fields, no marker, and an SSH key type in the second.\<close>

definition bad_host_line :: "text_lib \<Rightarrow> string \<Rightarrow> bool" where
  "bad_host_line L line =
     (let fs = split_fields L line
      in length fs < 3 \<or> has_prefix (fs ! 0) ''@'' \<or>
         (\<not> has_prefix (fs ! 1) ''ssh-'' \<and> \<not> has_prefix (fs ! 1) ''ecdsa-''))"

definition bad_field :: "string \<Rightarrow> bool" where
  "bad_field v \<longleftrightarrow> 2048 < length v \<or> containsAny v [CHR 0x0D, CHR 0x0A, CHR 0x00]"

definition conn_fields :: "connection \<Rightarrow> string list" where
  "conn_fields c = [c_host c, c_user c, c_endpoint c, c_region c, c_bucket c, c_prefix c, c_password c,
     c_access_key c, c_secret_key c]"

definition host_separators :: string where
  "host_separators = [CHR '' '', CHR ''/'', CHR 0x5C, CHR '':'', CHR ''@'']"

definition validateConnection :: "text_lib \<Rightarrow> connection \<Rightarrow> connection_error option" where
  "validateConnection L c =
     (if \<not> safeID (c_id c) \<or> c_id c = ''local'' \<or> trim_space L (c_name c) = '''' \<or> 120 < length (c_name c)
        then Some ConnIdentity
      else if list_ex bad_field (conn_fields c) then Some ConnField
      else if \<not> prefixPattern (c_prefix c) \<or> 500 < length (c_prefix c) then Some ConnPrefix
      else if list_ex (\<lambda>part. part = '''' \<or> part = ''.'' \<or> part = ''..'') (split_on (CHR ''/'') (c_prefix c))
        then Some ConnPrefix
      else if c_type c = ''s3'' then
        (if \<not> bucketPattern (c_bucket c) \<or> c_access_key c = '''' \<or> c_secret_key c = '''' then Some ConnBucket
         else if c_endpoint c \<noteq> '''' \<and> bad_endpoint L (c_endpoint c) then Some ConnEndpoint
         else None)
      else if c_type c = ''ftp'' \<or> c_type c = ''ftps'' \<or> c_type c = ''sftp'' then
        (if c_host c = '''' \<or> containsAny (c_host c) host_separators \<or>
            c_port c < 1 \<or> 65535 < c_port c \<or> c_user c = '''' \<or> c_password c = '''' then Some ConnHostPort
         else if containsAny (c_host c) '':'' \<and> \<not> is_ip L (c_host c) then Some ConnHost
         else if c_type c = ''ftp'' \<and> \<not> c_allow_plaintext c then Some ConnPlaintext
         else if c_type c = ''sftp'' then
           (if 16384 < length (c_known_hosts c) \<or> containsAny (c_known_hosts c) [CHR 0x00] \<or>
               trim_space L (c_known_hosts c) = '''' then Some ConnKnownHosts
            else if list_ex (bad_host_line L) (split_on (CHR 0x0A) (trim_space L (c_known_hosts c)))
              then Some ConnHostKey
            else None)
         else None)
      else Some ConnTransport)"

definition inheritSecrets :: "connection \<Rightarrow> connection \<Rightarrow> connection" where
  "inheritSecrets old c =
     (if c_type old \<noteq> c_type c then c
      else if c_type c = ''s3'' then
        (if c_endpoint old \<noteq> c_endpoint c \<or> c_region old \<noteq> c_region c \<or> c_bucket old \<noteq> c_bucket c then c
         else
           (let c = (if c_access_key c = '''' then c\<lparr> c_access_key := c_access_key old \<rparr> else c)
            in if c_secret_key c = '''' \<and> c_access_key c = c_access_key old
               then c\<lparr> c_secret_key := c_secret_key old \<rparr> else c))
      else if c_host old \<noteq> c_host c \<or> c_port old \<noteq> c_port c \<or> c_user old \<noteq> c_user c \<or>
          c_known_hosts old \<noteq> c_known_hosts c \<or> c_allow_plaintext old \<noteq> c_allow_plaintext c then c
      else if c_password c = '''' then c\<lparr> c_password := c_password old \<rparr> else c)"

subsection \<open>Guarantees\<close>

lemma inheritSecrets_id [simp]: "c_id (inheritSecrets old c) = c_id c"
  by (simp add: inheritSecrets_def Let_def)

text \<open>A stored secret never travels to a new destination. If saving \<open>c\<close> over \<open>old\<close> leaves the
  client's blank password, access key or secret key filled in, then type and everything the secret
  authenticates to are unchanged: endpoint, region and bucket for S3 (and the secret key only goes
  with the access key it was issued for), host, port, user, known hosts and the plaintext flag
  otherwise. Nothing else of \<open>c\<close> is touched.\<close>

theorem inheritSecrets_bound:
  "let r = inheritSecrets old c in
     r\<lparr> c_password := c_password c, c_access_key := c_access_key c, c_secret_key := c_secret_key c \<rparr> = c \<and>
     (if c_password r \<noteq> c_password c
      then c_password c = '''' \<and> c_password r = c_password old \<and> c_type c = c_type old \<and> c_type c \<noteq> ''s3'' \<and>
        (c_host c, c_port c, c_user c, c_known_hosts c, c_allow_plaintext c) =
        (c_host old, c_port old, c_user old, c_known_hosts old, c_allow_plaintext old) else True) \<and>
     (if c_access_key r = c_access_key c \<and> c_secret_key r = c_secret_key c then True
      else c_type c = c_type old \<and> c_type c = ''s3'' \<and>
        (c_endpoint c, c_region c, c_bucket c) = (c_endpoint old, c_region old, c_bucket old) \<and>
        c_access_key r = c_access_key old)"
  by (cases "c_type old = c_type c"; cases "c_type c = ''s3''")
     (simp_all add: inheritSecrets_def Let_def)

lemma split_on_slash_join: "concat (map (\<lambda>w. CHR ''/'' # w) (split_on (CHR ''/'') s)) = CHR ''/'' # s"
  by (induction s) (auto split: list.splits)

text \<open>The host check rejects every colon, so the test for an IPv6 literal after it never decides.\<close>

lemma colon_is_separator: "containsAny h '':'' \<Longrightarrow> containsAny h host_separators"
  by (auto simp: containsAny_def list_ex_iff host_separators_def)

lemma ipv6_host_never_checked: "validateConnection L c \<noteq> Some ConnHost"
  using colon_is_separator [of "c_host c"] by (simp add: validateConnection_def)

lemma ipv6_host_rejected:
  assumes "containsAny (c_host c) '':''" "c_type c \<noteq> ''s3''"
  shows "validateConnection L c \<noteq> None"
  using colon_is_separator [OF assms(1)] assms(2) by (simp add: validateConnection_def)

end
