(* ===== verification/Idempotency.thy ===== *)
theory Idempotency
  imports GoPrelude
begin

text \<open>
  The Idempotency-Key component (\<open>idempotency/key.go\<close>, \<open>keyring.go\<close>, \<open>store.go\<close>): key syntax, the
  keyed request fingerprint, and the in-memory record store.

  HMAC-SHA-256 and the hexadecimal SHA-256 are the functions \<open>hmac\<close> and \<open>sha_hex\<close>, arguments of the
  definitions. The store's records are heap objects compared by address (\<open>recs[h.id] == h.rec\<close>): an
  entry carries the serial number of its allocation and a handle the one of the entry it finishes.
\<close>

subsection \<open>Key syntax\<close>

definition KeyMinLen :: nat where "KeyMinLen = 16"
definition KeyMaxLen :: nat where "KeyMaxLen = 128"

definition allowedKeyRune :: "char \<Rightarrow> bool" where
  "allowedKeyRune c \<longleftrightarrow>
     c \<in> set ''abcdefghijklmnopqrstuvwxyzABCDEFGHIJKLMNOPQRSTUVWXYZ0123456789'' \<or> c \<in> set ''._~:-''"

definition unquote :: "string \<Rightarrow> string" where
  "unquote v = (if 2 \<le> length v \<and> v ! 0 = CHR 0x22 \<and> v ! (length v - 1) = CHR 0x22
                then drop 1 (take (length v - 1) v) else v)"

definition ParseKey :: "string list \<Rightarrow> string option" where
  "ParseKey values =
     (if length values \<noteq> 1 then None
      else
        (let v = unquote (values ! 0)
         in if length v < KeyMinLen \<or> KeyMaxLen < length v then None
            else if list_ex (\<lambda>c. \<not> allowedKeyRune c) v then None
            else Some v))"

definition valid_key :: "string \<Rightarrow> bool" where
  "valid_key k \<longleftrightarrow> KeyMinLen \<le> length k \<and> length k \<le> KeyMaxLen \<and> list_all allowedKeyRune k"

lemma quote_not_allowed [simp]: "\<not> allowedKeyRune (CHR 0x22)" "\<not> allowedKeyRune (CHR 0x00)"
  by (simp_all add: allowedKeyRune_def)

lemma unquote_bare: "list_all allowedKeyRune k \<Longrightarrow> unquote k = k"
  by (auto simp: unquote_def list_all_iff) (metis length_greater_0_conv list.size(3) not_numeral_le_zero
      nth_mem quote_not_allowed(1))

lemma unquote_quoted: "unquote (CHR 0x22 # k @ [CHR 0x22]) = k"
  by (simp add: unquote_def nth_append)

text \<open>The key gate. A parsed key is always a valid token (16 to 128 characters of the alphabet), and
  every valid token is accepted as it is, bare or in double quotes, in exactly one header and in
  no other number of them.\<close>

theorem ParseKey_exact:
  "(ParseKey vs = Some k \<longleftrightarrow> valid_key k \<and> (vs = [k] \<or> vs = [CHR 0x22 # k @ [CHR 0x22]]))"
proof
  assume p: "ParseKey vs = Some k"
  then obtain v where v: "vs = [v]" "unquote v = k"
    by (auto simp: ParseKey_def Let_def length_Suc_conv split: if_splits)
  have "valid_key k" using p v by (auto simp: ParseKey_def valid_key_def Let_def list_all_iff list_ex_iff split: if_splits)
  moreover have "v = k \<or> v = CHR 0x22 # k @ [CHR 0x22]"
  proof (cases "2 \<le> length v \<and> v ! 0 = CHR 0x22 \<and> v ! (length v - 1) = CHR 0x22")
    case True
    then obtain w where w: "v = CHR 0x22 # w" "w \<noteq> []" by (cases v) (auto simp: Suc_le_eq)
    then have "last w = CHR 0x22" using True by (simp add: last_conv_nth)
    then have "v = CHR 0x22 # butlast w @ [CHR 0x22]" using w append_butlast_last_id [OF w(2)] by simp
    then show ?thesis using unquote_quoted [of "butlast w"] v(2) by metis
  next
    case False
    then show ?thesis using v(2) by (auto simp: unquote_def split: if_splits)
  qed
  ultimately show "valid_key k \<and> (vs = [k] \<or> vs = [CHR 0x22 # k @ [CHR 0x22]])" using v(1) by blast
next
  assume a: "valid_key k \<and> (vs = [k] \<or> vs = [CHR 0x22 # k @ [CHR 0x22]])"
  then have "length vs = 1" "unquote (vs ! 0) = k"
    using unquote_bare [of k] unquote_quoted [of k] by (auto simp: valid_key_def)
  then show "ParseKey vs = Some k"
    using a by (auto simp: ParseKey_def valid_key_def Let_def list_all_iff list_ex_iff)
qed

subsection \<open>Keyring\<close>

datatype verdict = VerdictSame | VerdictDifferent | VerdictUnknownKey

record fp_key =
  fk_id :: string
  fk_key :: string

record keyring =
  kr_current :: fp_key
  kr_previous :: "fp_key option"

definition keyLabel :: string where "keyLabel = ''ldapium/idempotency/v1''"
definition minMasterLen :: nat where "minMasterLen = 32"

definition deriveKey :: "(string \<Rightarrow> string \<Rightarrow> string) \<Rightarrow> (string \<Rightarrow> string) \<Rightarrow> string \<Rightarrow> fp_key option" where
  "deriveKey hmac sha_hex master =
     (if length master < minMasterLen then None
      else (let k = hmac master keyLabel in Some \<lparr> fk_id = take 8 (sha_hex k), fk_key = k \<rparr>))"

definition NewKeyring :: "(string \<Rightarrow> string \<Rightarrow> string) \<Rightarrow> (string \<Rightarrow> string) \<Rightarrow> string \<Rightarrow> string \<Rightarrow> keyring option" where
  "NewKeyring hmac sha_hex current previous =
     (case deriveKey hmac sha_hex current of
        None \<Rightarrow> None
      | Some cur \<Rightarrow>
          if previous \<noteq> '''' then
            (case deriveKey hmac sha_hex previous of
               None \<Rightarrow> None
             | Some prev \<Rightarrow> Some \<lparr> kr_current = cur, kr_previous = Some prev \<rparr>)
          else Some \<lparr> kr_current = cur, kr_previous = None \<rparr>)"

text \<open>The parts of a message, separated by a zero byte.\<close>

fun join_nul :: "string list \<Rightarrow> string" where
  "join_nul [] = []"
| "join_nul [p] = p"
| "join_nul (p # q # ps) = p @ CHR 0x00 # join_nul (q # ps)"

definition mac :: "(string \<Rightarrow> string \<Rightarrow> string) \<Rightarrow> string \<Rightarrow> string list \<Rightarrow> string" where
  "mac hmac key parts = hmac key (join_nul parts)"

definition Fingerprint :: "(string \<Rightarrow> string \<Rightarrow> string) \<Rightarrow> keyring \<Rightarrow> string list \<Rightarrow> string \<times> string" where
  "Fingerprint hmac r parts = (mac hmac (fk_key (kr_current r)) parts, fk_id (kr_current r))"

definition Verify :: "(string \<Rightarrow> string \<Rightarrow> string) \<Rightarrow> keyring \<Rightarrow> string \<Rightarrow> string \<Rightarrow> string list \<Rightarrow> verdict" where
  "Verify hmac r keyID stored parts =
     (case (if keyID = fk_id (kr_current r) then Some (kr_current r)
            else (case kr_previous r of
                    Some p \<Rightarrow> if keyID = fk_id p then Some p else None
                  | None \<Rightarrow> None)) of
        None \<Rightarrow> VerdictUnknownKey
      | Some k \<Rightarrow> if stored = mac hmac (fk_key k) parts then VerdictSame else VerdictDifferent)"

text \<open>
  What the record store asks of a keyring: a record it made itself is recognized, under the same
  keys and under a successor that keeps the old current key as its previous one, and a request
  whose fingerprint differs is told apart.
\<close>

locale fingerprinter =
  fixes fingerprint :: "'k \<Rightarrow> 'r \<Rightarrow> 'f \<times> 'i"
    and verify :: "'k \<Rightarrow> 'i \<Rightarrow> 'f \<Rightarrow> 'r \<Rightarrow> verdict"
    and rotated :: "'k \<Rightarrow> 'k \<Rightarrow> bool"
  assumes own: "verify k (snd (fingerprint k r)) f r' =
      (if f = fst (fingerprint k r') then VerdictSame else VerdictDifferent)"
    and after_rotation: "rotated k k' \<Longrightarrow> verify k' (snd (fingerprint k r)) f r' = verify k (snd (fingerprint k r)) f r'"
begin

lemma same_request: "verify k (snd (fingerprint k r)) (fst (fingerprint k r)) r = VerdictSame"
  by (simp add: own)

lemma other_request:
  "fst (fingerprint k r) \<noteq> fst (fingerprint k r') \<Longrightarrow>
    verify k (snd (fingerprint k r)) (fst (fingerprint k r)) r' = VerdictDifferent"
  by (simp add: own)

lemma never_unknown: "k' = k \<or> rotated k k' \<Longrightarrow> verify k' (snd (fingerprint k r)) f r' \<noteq> VerdictUnknownKey"
  by (auto simp: own after_rotation split: if_splits)

end

text \<open>A rotation keeps the old current key as the previous one (key identifiers of distinct keys differ).\<close>

definition rotation :: "keyring \<Rightarrow> keyring \<Rightarrow> bool" where
  "rotation r r' \<longleftrightarrow> kr_previous r' = Some (kr_current r) \<and> fk_id (kr_current r') \<noteq> fk_id (kr_current r)"

interpretation kr: fingerprinter "Fingerprint hmac" "Verify hmac" rotation for hmac
  by unfold_locales (auto simp: Verify_def Fingerprint_def rotation_def split: option.splits)

end
