(* ===== verification/BackupManager.thy ===== *)
theory BackupManager
  imports BackupPrune BackupReconcile BackupConnections Idempotency
begin

text \<open>
  The controller of \<open>backup/manager.go\<close>, \<open>manager_jobs.go\<close>, \<open>run.go\<close> and the stateful half of
  \<open>connections.go\<close>. Each exported method, and the tail of \<open>execute\<close>, runs under the manager's mutex
  and is one function on the pair of the in-memory \<open>manager\<close> and the \<open>disk\<close>.

  \<open>lib\<close> bundles the arguments that stand for library code (the sort, the JSON decoders, the text
  functions); \<open>env\<close> is what one call meets: the clock, the outcome of the atomic write of the job
  file and of the state file, and the answer of the worker lock probe. Log lines and the goroutine
  plumbing are left out; the goroutine that supervises a worker is a \<open>worker\<close> value.
\<close>

record bstate =
  st_local_verified :: bool
  st_last_local_success :: gtime
  st_status :: string
  st_last_attempt :: gtime
  st_last_success :: gtime
  st_next_run :: gtime
  st_run_id :: string
  st_policy_revision :: "64 word"

definition zero_state :: bstate where
  "zero_state = \<lparr> st_local_verified = False, st_last_local_success = 0, st_status = '''',
     st_last_attempt = 0, st_last_success = 0, st_next_run = 0, st_run_id = '''', st_policy_revision = 0 \<rparr>"

type_synonym states = "string \<rightharpoonup> bstate"

definition state_of :: "states \<Rightarrow> string \<Rightarrow> bstate" where
  "state_of m k = (case m k of None \<Rightarrow> zero_state | Some s \<Rightarrow> s)"

record manager =
  m_connections :: "connection list"
  m_root :: string
  m_instance_id :: string
  m_policies :: policies
  m_destinations :: "destination list"
  m_logs_available :: bool
  m_states :: states
  m_running :: bool
  m_jobs :: "job list"
  m_job_dirty :: bool
  m_active_id :: string
  m_active_kind :: string
  m_job_timeouts :: "string \<rightharpoonup> duration"
  m_orphan_delay :: duration
  m_pending_deletes :: "string list"

text \<open>The state file as start-up finds it: missing, unreadable or not JSON, or its content.\<close>

datatype state_file = SF_missing | SF_bad | SF_content policies states "connection list"

record disk =
  dk_jobs :: job_file
  dk_state :: state_file
  dk_tree :: tree

datatype probe = NoProbe | ProbeFailed | LockHeld | LockFree

record lib =
  lb_sort :: "(job \<Rightarrow> gtime) \<Rightarrow> job list \<Rightarrow> job list"
  lb_manifest :: "string \<Rightarrow> owned_manifest option"
  lb_result :: "string \<Rightarrow> worker_result option"
  lb_text :: text_lib

record env =
  en_now :: gtime
  en_jobs_ok :: bool
  en_state_ok :: bool
  en_probe :: probe

type_synonym control = "manager \<times> disk"

subsection \<open>Derived state\<close>

definition startedOf :: "job \<Rightarrow> gtime" where
  "startedOf j = (if j_started_at j \<noteq> 0 then j_started_at j else j_created_at j)"

definition policyFor :: "manager \<Rightarrow> string \<Rightarrow> policy" where
  "policyFor m kind = (if kind = ''logs'' then ps_logs (m_policies m) else ps_data (m_policies m))"

definition stateStatusFor :: "string \<Rightarrow> string" where
  "stateStatusFor status = (if status = JobStatusAbandoned then ''interrupted'' else status)"

definition artifact_run :: "job \<Rightarrow> string" where
  "artifact_run j = (case j_artifact j of None \<Rightarrow> '''' | Some a \<Rightarrow> ja_run_id a)"

definition foldJobIntoState :: "bstate \<Rightarrow> job \<Rightarrow> bstate" where
  "foldJobIntoState st j =
     (let st = st\<lparr> st_last_attempt := startedOf j, st_policy_revision := j_policy_revision j,
                   st_status := stateStatusFor (j_status j),
                   st_local_verified := (j_local j = Some True) \<rparr>;
          st = (if st_local_verified st then st\<lparr> st_last_local_success := j_finished_at j \<rparr> else st);
          st = (if artifact_run j \<noteq> '''' then st\<lparr> st_run_id := artifact_run j \<rparr> else st)
      in if j_status j = JobStatusSucceeded \<and> st_last_success st < j_finished_at j
         then st\<lparr> st_last_success := j_finished_at j \<rparr> else st)"

text \<open>The last job of a list that satisfies a condition, as the loops with an overwritten variable find it.\<close>

definition last_such :: "(job \<Rightarrow> bool) \<Rightarrow> job list \<Rightarrow> job option" where
  "last_such P jobs = fold (\<lambda>j found. if P j then Some j else found) jobs None"

definition job_err_code :: "job \<Rightarrow> string" where
  "job_err_code j = (case j_error j of None \<Rightarrow> '''' | Some e \<Rightarrow> je_code e)"

definition restore_kind :: "manager \<Rightarrow> string \<Rightarrow> manager" where
  "restore_kind m kind =
     (let mine = (\<lambda>j. j_kind j = kind \<and> j_status j \<noteq> JobStatusRunning);
          latest = last_such mine (m_jobs m);
          latestOK = last_such (\<lambda>j. mine j \<and> j_status j = JobStatusSucceeded) (m_jobs m);
          latestLocal = last_such (\<lambda>j. mine j \<and> j_local j = Some True) (m_jobs m);
          latestArtifact = last_such (\<lambda>j. mine j \<and> artifact_run j \<noteq> '''') (m_jobs m)
      in case latest of
           None \<Rightarrow> m
         | Some l \<Rightarrow>
             (let st = state_of (m_states m) kind;
                  p = policyFor m kind;
                  st = (if st_last_attempt st < startedOf l then
                          (let st = foldJobIntoState st l;
                               st = (case latestArtifact of None \<Rightarrow> st | Some a \<Rightarrow> st\<lparr> st_run_id := artifact_run a \<rparr>)
                           in if p_enabled p \<and> j_finished_at l \<noteq> 0 then
                                st\<lparr> st_next_run := (if job_err_code l = ErrCodeWorkerBusy
                                                    then j_finished_at l + 60 * second_ns
                                                    else j_finished_at l + p_interval_minutes p * minute_ns) \<rparr>
                              else st)
                        else st);
                  st = (case latestOK of
                          Some a \<Rightarrow> if st_last_success st < j_finished_at a then st\<lparr> st_last_success := j_finished_at a \<rparr> else st
                        | None \<Rightarrow> st);
                  st = (case latestLocal of
                          Some a \<Rightarrow> if st_last_local_success st < j_finished_at a
                                    then st\<lparr> st_last_local_success := j_finished_at a \<rparr> else st
                        | None \<Rightarrow> st);
                  st = (case latestArtifact of
                          Some a \<Rightarrow> if st_run_id st = '''' then st\<lparr> st_run_id := artifact_run a \<rparr> else st
                        | None \<Rightarrow> st)
              in m\<lparr> m_states := (m_states m)(kind \<mapsto> st) \<rparr>))"

definition restoreStatesLocked :: "manager \<Rightarrow> manager" where
  "restoreStatesLocked m = restore_kind (restore_kind m ''data'') ''logs''"

subsection \<open>Persistence\<close>

definition job_content :: "job list \<Rightarrow> job_file" where
  "job_content jobs = JF_content 1 (map (\<lambda>j. Some (marshal_job j)) jobs)"

definition remove_node :: "fnode \<Rightarrow> bool" where
  "remove_node n = (case n of Dir [] \<Rightarrow> True | Dir _ \<Rightarrow> False | Denied \<Rightarrow> False | _ \<Rightarrow> True)"

definition removeResultFiles :: "tree \<Rightarrow> string list \<Rightarrow> tree" where
  "removeResultFiles tr ids =
     map (\<lambda>(name, node). case node of
            Dir es \<Rightarrow> (name, if name = ''.results'' then
                Dir (filter (\<lambda>(f, n). \<not> (list_ex (\<lambda>i. IsValidJobID i \<and> f = i @ ''.json'') ids \<and> remove_node n)) es)
              else Dir es)
          | _ \<Rightarrow> (name, node)) tr"

definition pruneLocked :: "lib \<Rightarrow> manager \<Rightarrow> gtime \<Rightarrow> manager" where
  "pruneLocked L m now =
     (case pruneJobs (lb_sort L) (m_jobs m) now of
        (pruned, ids) \<Rightarrow>
          if 0 < length ids then
            m\<lparr> m_jobs := pruned, m_pending_deletes := m_pending_deletes m @ ids, m_job_dirty := True \<rparr>
          else m)"

definition commitJobsLocked :: "env \<Rightarrow> control \<Rightarrow> job list \<Rightarrow> control option" where
  "commitJobsLocked E c nxt =
     (case c of (m, d) \<Rightarrow>
        if \<not> en_jobs_ok E then None
        else Some (m\<lparr> m_jobs := nxt, m_job_dirty := False, m_pending_deletes := [] \<rparr>,
                   d\<lparr> dk_jobs := job_content nxt,
                      dk_tree := removeResultFiles (dk_tree d) (m_pending_deletes m) \<rparr>))"

definition persistJobsLocked :: "env \<Rightarrow> control \<Rightarrow> control" where
  "persistJobsLocked E c =
     (case commitJobsLocked E c (m_jobs (fst c)) of
        None \<Rightarrow> (fst c\<lparr> m_job_dirty := True \<rparr>, snd c)
      | Some c' \<Rightarrow> c')"

definition persistStateLocked :: "env \<Rightarrow> control \<Rightarrow> control" where
  "persistStateLocked E c =
     (case c of (m, d) \<Rightarrow>
        if en_state_ok E then (m, d\<lparr> dk_state := SF_content (m_policies m) (m_states m) (m_connections m) \<rparr>) else (m, d))"

subsection \<open>Reconciliation\<close>

definition gather_evidence :: "lib \<Rightarrow> env \<Rightarrow> control \<Rightarrow> job \<Rightarrow> bool \<Rightarrow> evidence" where
  "gather_evidence L E c j mayOwnLock =
     (case c of (m, d) \<Rightarrow>
        let held = (mayOwnLock \<and> en_probe E = LockHeld);
            failed = (mayOwnLock \<and> en_probe E = ProbeFailed)
        in if \<not> held \<and> \<not> failed then
             (case readWorkerResult (lb_result L) (m_root m) (dk_tree d) j of
                (result, rs) \<Rightarrow>
                  \<lparr> ev_lock_held = False, ev_probe_error = False, ev_result = result,
                    ev_result_invalid = (rs = resultInvalid),
                    ev_manifest = findMatchingManifest (lb_manifest L) (m_root m) (dk_tree d)
                                    (j_kind j) (j_id j) (m_instance_id m) \<rparr>)
           else \<lparr> ev_lock_held = held, ev_probe_error = failed, ev_result = None,
                  ev_result_invalid = False, ev_manifest = None \<rparr>)"

definition reconcileJobLocked :: "lib \<Rightarrow> env \<Rightarrow> control \<Rightarrow> nat \<Rightarrow> bool \<Rightarrow> manager \<times> decision" where
  "reconcileJobLocked L E c i mayOwnLock =
     (let m = fst c; j0 = m_jobs m ! i; now = en_now E in
      case ReconcileEvidence (Some j0) (gather_evidence L E c j0 mayOwnLock) now of
        (reconciled, decision) \<Rightarrow>
          (let j = the reconciled;
               m = m\<lparr> m_jobs := (m_jobs m)[i := j] \<rparr>
           in if decision = DecisionOrphanSuspected then
                (m\<lparr> m_running := True, m_active_id := j_id j, m_active_kind := j_kind j,
                    m_states := (m_states m)(j_kind j \<mapsto>
                      (state_of (m_states m) (j_kind j))\<lparr> st_status := ''running'' \<rparr>) \<rparr>, decision)
              else
                (let m = (if m_active_id m = j_id j
                          then m\<lparr> m_running := False, m_active_id := '''', m_active_kind := '''' \<rparr> else m);
                     st = foldJobIntoState (state_of (m_states m) (j_kind j)) j;
                     p = policyFor m (j_kind j);
                     st = (if p_enabled p
                           then st\<lparr> st_next_run := ScheduleAfterRecovery (m_jobs m) (j_kind j) (p_interval_minutes p) now \<rparr>
                           else st)
                 in (m\<lparr> m_states := (m_states m)(j_kind j \<mapsto> st) \<rparr>, decision))))"

definition running_indices :: "job list \<Rightarrow> nat list" where
  "running_indices jobs = filter (\<lambda>i. j_status (jobs ! i) = JobStatusRunning) [0..<length jobs]"

definition reconcile_at :: "lib \<Rightarrow> env \<Rightarrow> nat option \<Rightarrow> nat \<Rightarrow> control \<Rightarrow> control" where
  "reconcile_at L E latestRunning i c =
     (fst (reconcileJobLocked L E c i (latestRunning = Some i)), snd c)"

definition interrupted_states :: "states \<Rightarrow> states" where
  "interrupted_states s =
     (\<lambda>k. map_option (\<lambda>st. if st_status st = ''running'' then st\<lparr> st_status := ''interrupted'' \<rparr> else st) (s k))"

text \<open>The loop's condition is read before any job of the list changes, and settling one record changes
  no other, so the loop visits the indices of the records that were running.\<close>

definition startupLocked :: "lib \<Rightarrow> env \<Rightarrow> control \<Rightarrow> control" where
  "startupLocked L E c =
     (let before = m_states (fst c);
          jobsBefore = length (m_jobs (fst c));
          c1 = (restoreStatesLocked (fst c), snd c);
          idx = running_indices (m_jobs (fst c1));
          latestRunning = (if idx = [] then None else Some (last idx));
          jobsChanged = (idx \<noteq> []);
          c2 = fold (reconcile_at L E latestRunning) idx c1;
          m2 = (if latestRunning = None \<and> \<not> m_running (fst c2)
                then fst c2\<lparr> m_states := interrupted_states (m_states (fst c2)) \<rparr> else fst c2);
          m3 = pruneLocked L m2 (en_now E);
          c4 = (if jobsChanged \<or> length (m_jobs m3) \<noteq> jobsBefore \<or> m_job_dirty m3
                then persistJobsLocked E (m3, snd c2) else (m3, snd c2))
      in if before \<noteq> m_states (fst c4) then persistStateLocked E c4 else c4)"

definition activeOrphanLocked :: "manager \<Rightarrow> nat option" where
  "activeOrphanLocked m =
     (if \<not> m_running m \<or> m_active_id m = '''' then None
      else find (\<lambda>i. j_id (m_jobs m ! i) = m_active_id m \<and> j_status (m_jobs m ! i) = JobStatusRunning \<and>
                     j_orphan_suspected (m_jobs m ! i)) [0..<length (m_jobs m)])"

definition orphanStep :: "lib \<Rightarrow> env \<Rightarrow> control \<Rightarrow> control \<times> duration \<times> bool" where
  "orphanStep L E c =
     (case activeOrphanLocked (fst c) of
        None \<Rightarrow> (c, 0, False)
      | Some i \<Rightarrow>
          (let prevReason = j_orphan_reason (m_jobs (fst c) ! i) in
           case reconcileJobLocked L E c i True of
             (m1, decision) \<Rightarrow>
               if decision = DecisionOrphanSuspected then
                 (let c2 = (if j_orphan_reason (m_jobs m1 ! i) \<noteq> prevReason
                            then persistJobsLocked E (m1, snd c) else (m1, snd c));
                      delay = nextOrphanDelay (m_orphan_delay (fst c2))
                  in ((fst c2\<lparr> m_orphan_delay := delay \<rparr>, snd c2), delay, True))
               else
                 (let m2 = pruneLocked L (m1\<lparr> m_orphan_delay := 0 \<rparr>) (en_now E);
                      c3 = persistJobsLocked E (m2, snd c)
                  in (persistStateLocked E c3, 0, False))))"

end
