(* ===== verification/BackupOps.thy ===== *)
theory BackupOps
  imports BackupManager
begin

text \<open>
  The operations of the backup manager: queries, \<open>StartJob\<close>, \<open>CancelJob\<close>, the tail of \<open>execute\<close>, the
  scheduler \<open>tick\<close>, the saving of policies and connections, and start-up (\<open>newManager\<close>).
\<close>

datatype backup_error =
  ErrKind | ErrBusy string string | ErrLogsNotRegistered | ErrGenerateID | ErrPersistence
| ErrJobNotFound string | ErrJobNotCancellable string string | ErrIdempotent job verdict
| ErrConflict | ErrManagerBusy | ErrPolicy policy_error | ErrReadOnly | ErrConnection connection_error
| ErrConnectionLimit | ErrConnectionInUse | ErrConnectionUnknown
| ErrPaths | ErrOperatorFile | ErrOperatorConfig | ErrStateFile | ErrDuplicateConnection

subsection \<open>Queries\<close>

definition allDestinations :: "manager \<Rightarrow> destination list" where
  "allDestinations m = m_destinations m @
     map (\<lambda>c. \<lparr> d_id = c_id c, d_name = c_name c, d_type = c_type c \<rparr>) (m_connections m)"

text \<open>\<open>present\<close>: a copy without the idempotency record, whose pending staging clean-up is shown as done
  once no \<open>.pending-*\<close> entry is left below the kind's directory (which is a directory itself, and whose
  path has no glob characters).\<close>

definition pending_left :: "tree \<Rightarrow> string \<Rightarrow> bool" where
  "pending_left tr k =
     (case map_of tr k of Some (Dir es) \<Rightarrow> list_ex (\<lambda>(n, _). has_prefix n ''.pending-'') es | _ \<Rightarrow> False)"

definition present_job :: "control \<Rightarrow> job \<Rightarrow> job" where
  "present_job c j =
     (let p = j\<lparr> j_idempotency := None \<rparr>
      in case fixedKind (j_kind p) of
           None \<Rightarrow> p
         | Some k \<Rightarrow>
             if j_staging_cleanup p = StagingCleanupPending \<and> m_root (fst c) \<noteq> '''' \<and>
                properDir (m_root (fst c)) \<and> \<not> pending_left (dk_tree (snd c)) k
             then p\<lparr> j_staging_cleanup := StagingCleanupDone \<rparr> else p)"

definition list_jobs :: "control \<Rightarrow> string \<Rightarrow> string \<Rightarrow> int \<Rightarrow> job list" where
  "list_jobs c kind status limit =
     (let limit = (if limit \<le> 0 \<or> 100 < limit then 20 else limit)
      in take (nat limit) (map (present_job c)
           (filter (\<lambda>j. (kind = '''' \<or> j_kind j = kind) \<and> (status = '''' \<or> j_status j = status))
              (rev (m_jobs (fst c))))))"

definition find_job :: "manager \<Rightarrow> string \<Rightarrow> job option" where
  "find_job m i = find (\<lambda>j. j_id j = i) (m_jobs m)"

definition GetJob :: "control \<Rightarrow> string \<Rightarrow> backup_error + job" where
  "GetJob c i =
     (if \<not> IsValidJobID i then Inl (ErrJobNotFound i)
      else (case find_job (fst c) i of None \<Rightarrow> Inl (ErrJobNotFound i) | Some j \<Rightarrow> Inr (present_job c j)))"

definition ActiveJob :: "manager \<Rightarrow> job option" where
  "ActiveJob m = (if \<not> m_running m \<or> m_active_id m = '''' then None else find_job m (m_active_id m))"

definition ActiveJobInfo :: "manager \<Rightarrow> string \<times> string \<times> bool" where
  "ActiveJobInfo m = (m_active_id m, m_active_kind m, m_running m)"

subsection \<open>Starting a job\<close>

record request_idempotency =
  ri_key_hash :: string
  ri_fingerprint :: string
  ri_key_id :: string
  ri_verify :: "(string \<Rightarrow> string \<Rightarrow> verdict) option"

record run_request =
  rr_kind :: string
  rr_trigger :: string
  rr_actor_fingerprint :: string
  rr_request_id :: string
  rr_idempotency :: "request_idempotency option"

definition hex_value :: "char \<Rightarrow> nat option" where
  "hex_value c = (case map_of (zip ''0123456789abcdef'' [0..<16] @ zip ''ABCDEF'' [10..<16]) c of
     None \<Rightarrow> None | Some n \<Rightarrow> Some n)"

text \<open>\<open>hex.DecodeString\<close>.\<close>

fun hex_decode :: "string \<Rightarrow> string option" where
  "hex_decode [] = Some []"
| "hex_decode [c] = None"
| "hex_decode (a # b # cs) =
     (case (hex_value a, hex_value b, hex_decode cs) of
        (Some x, Some y, Some r) \<Rightarrow> Some (char_of (16 * x + y) # r)
      | _ \<Rightarrow> None)"

definition idempotentHitLocked :: "control \<Rightarrow> run_request \<Rightarrow> (job \<times> verdict) option" where
  "idempotentHitLocked c req =
     (case rr_idempotency req of
        None \<Rightarrow> None
      | Some k \<Rightarrow>
          if ri_key_hash k = '''' then None
          else
            (case find (\<lambda>j. map_option ji_key_hash (j_idempotency j) = Some (ri_key_hash k)) (m_jobs (fst c)) of
               None \<Rightarrow> None
             | Some j \<Rightarrow>
                 (let i = the (j_idempotency j)
                  in Some (present_job c j,
                       case hex_decode (ji_fingerprint i) of
                         None \<Rightarrow> VerdictUnknownKey
                       | Some stored \<Rightarrow>
                           (case ri_verify k of None \<Rightarrow> VerdictUnknownKey | Some v \<Rightarrow> v (ji_key_id i) stored)))))"

definition DefaultJobTimeout :: duration where "DefaultJobTimeout = 2 * hour_ns"

definition timeoutFor :: "manager \<Rightarrow> string \<Rightarrow> duration" where
  "timeoutFor m kind =
     (let d = (case m_job_timeouts m kind of None \<Rightarrow> 0 | Some d \<Rightarrow> d)
      in if 0 < d then d else DefaultJobTimeout)"

text \<open>The goroutine that runs \<open>execute\<close> for a job, with the policy it captured.\<close>

record worker =
  w_job :: string
  w_kind :: string
  w_policy :: policy

definition new_job :: "manager \<Rightarrow> gtime \<Rightarrow> string \<Rightarrow> run_request \<Rightarrow> job" where
  "new_job m now jobID req =
     (let scheduled = (rr_trigger req = JobTriggerSchedule);
          trigger = (if scheduled then JobTriggerSchedule else JobTriggerManual);
          requester = (if scheduled then JobRequesterScheduler else JobRequesterUser);
          fp = (if \<not> jobFingerprintRe (rr_actor_fingerprint req) \<or> requester = JobRequesterScheduler
                then '''' else rr_actor_fingerprint req);
          rid = (if \<not> jobRequestIDRe (rr_request_id req) then '''' else rr_request_id req)
      in \<lparr> j_id = jobID, j_kind = rr_kind req, j_trigger = trigger, j_status = JobStatusRunning,
           j_requested_by = \<lparr> rq_type = requester, rq_fingerprint = fp \<rparr>, j_request_id = rid,
           j_policy_revision = ps_revision (m_policies m), j_created_at = now, j_started_at = now,
           j_finished_at = 0, j_deadline_at = now + timeoutFor m (rr_kind req), j_cancel_requested_at = 0,
           j_orphan_suspected = False, j_orphan_reason = '''',
           j_staging_cleanup = StagingCleanupNotApplicable, j_error = None, j_local = None,
           j_destinations = [], j_artifact = None,
           j_idempotency = (if scheduled then None
             else map_option (\<lambda>k. \<lparr> ji_key_hash = ri_key_hash k, ji_fingerprint = ri_fingerprint k,
                                     ji_key_id = ri_key_id k \<rparr>) (rr_idempotency req)) \<rparr>)"

text \<open>\<open>gen\<close> is what \<open>m.idGen.Generate()\<close> returns.\<close>

definition StartJob ::
    "env \<Rightarrow> string gen_result \<Rightarrow> control \<Rightarrow> run_request \<Rightarrow> control \<times> (backup_error + job \<times> worker)" where
  "StartJob E gen c req =
     (let m = fst c in
      if rr_kind req \<noteq> ''data'' \<and> rr_kind req \<noteq> ''logs'' then (c, Inl ErrKind)
      else
        (case idempotentHitLocked c req of
           Some (j, v) \<Rightarrow> (c, Inl (ErrIdempotent j v))
         | None \<Rightarrow>
             if m_running m then (c, Inl (ErrBusy (m_active_id m) (m_active_kind m)))
             else if en_probe E = LockHeld then (c, Inl (ErrBusy (m_active_id m) (m_active_kind m)))
             else if rr_kind req = ''logs'' \<and> \<not> m_logs_available m then (c, Inl ErrLogsNotRegistered)
             else
               (case gen of
                  Generated jobID \<Rightarrow>
                    (let now = en_now E; kind = rr_kind req; p = policyFor m kind;
                         job = new_job m now jobID req
                     in case commitJobsLocked E c (m_jobs m @ [job]) of
                          None \<Rightarrow> (c, Inl ErrPersistence)
                        | Some (m1, d1) \<Rightarrow>
                            (let st = (state_of (m_states m1) kind)
                                   \<lparr> st_status := ''running'', st_local_verified := False, st_last_attempt := now,
                                     st_policy_revision := ps_revision (m_policies m1),
                                     st_next_run := now + p_interval_minutes p * minute_ns \<rparr>;
                                 m2 = m1\<lparr> m_running := True, m_active_id := jobID, m_active_kind := kind,
                                          m_states := (m_states m1)(kind \<mapsto> st) \<rparr>
                             in ((m2, d1), Inr (present_job (m2, d1) job,
                                   \<lparr> w_job = jobID, w_kind = kind, w_policy = p \<rparr>))))
                | _ \<Rightarrow> (c, Inl ErrGenerateID))))"

definition job_index :: "manager \<Rightarrow> string \<Rightarrow> nat option" where
  "job_index m i = find (\<lambda>k. j_id (m_jobs m ! k) = i) [0..<length (m_jobs m)]"

definition CancelJob :: "env \<Rightarrow> control \<Rightarrow> string \<Rightarrow> control \<times> (backup_error + job)" where
  "CancelJob E c i =
     (if \<not> IsValidJobID i then (c, Inl (ErrJobNotFound i))
      else
        (case job_index (fst c) i of
           None \<Rightarrow> (c, Inl (ErrJobNotFound i))
         | Some k \<Rightarrow>
             (let target = m_jobs (fst c) ! k in
              if j_status target = JobStatusCancelled then (c, Inr (present_job c target))
              else if j_status target \<noteq> JobStatusRunning \<or> j_orphan_suspected target
                then (c, Inl (ErrJobNotCancellable i (j_status target)))
              else if \<not> en_jobs_ok E then (c, Inl ErrPersistence)
              else
                (let target' = target\<lparr> j_cancel_requested_at := en_now E \<rparr>;
                     jobs = (m_jobs (fst c))[k := target'];
                     c' = (fst c\<lparr> m_jobs := jobs \<rparr>, snd c\<lparr> dk_jobs := job_content jobs \<rparr>)
                 in (c', Inr (present_job c' target'))))))"

subsection \<open>The end of a run\<close>

datatype worker_exit = ExitOk | ExitCode int | ExitKilled | ExitOther
datatype ctx_error = CtxNone | CtxDeadline | CtxCanceled

definition workerBusyExit :: int where "workerBusyExit = 75"

text \<open>The evidence: the worker's output when it decodes and validates, else a valid result file.\<close>

definition worker_evidence :: "lib \<Rightarrow> control \<Rightarrow> string \<Rightarrow> job \<Rightarrow> worker_result option" where
  "worker_evidence L c out j =
     (case (case lb_result L out of
              Some wr \<Rightarrow> if validateWorkerResult wr j = None then Some wr else None
            | None \<Rightarrow> None) of
        Some wr \<Rightarrow> Some wr
      | None \<Rightarrow>
          (case readWorkerResult (lb_result L) (m_root (fst c)) (dk_tree (snd c)) j of
             (r, status) \<Rightarrow> if status = resultOK then r else None))"

definition outcome_code :: "bool \<Rightarrow> bool \<Rightarrow> bool \<Rightarrow> worker_exit \<Rightarrow> string" where
  "outcome_code succeeded cancelled deadlineHit err =
     (if succeeded \<or> cancelled then ''''
      else if deadlineHit then ErrCodeDeadlineExceeded
      else if err = ExitCode workerBusyExit then ErrCodeWorkerBusy
      else if err = ExitOk then ErrCodeUnverifiedResult
      else ErrCodeWorkerFailed)"

definition run_succeeded :: "worker_exit \<Rightarrow> worker_result option \<Rightarrow> bool" where
  "run_succeeded err result \<longleftrightarrow> err = ExitOk \<and> (case result of None \<Rightarrow> False | Some wr \<Rightarrow> wr_verified wr)"

text \<open>Status, error code and staging clean-up of a finished run.\<close>

definition settle_outcome :: "job \<Rightarrow> gtime \<Rightarrow> worker_exit \<Rightarrow> ctx_error \<Rightarrow> bool \<Rightarrow> job \<times> string" where
  "settle_outcome job finishedAt err runErr succeeded =
     (let cancelled = (j_cancel_requested_at job \<noteq> 0 \<and> \<not> succeeded);
          deadlineHit = (\<not> cancelled \<and> \<not> succeeded \<and> runErr = CtxDeadline);
          code = outcome_code succeeded cancelled deadlineHit err;
          job = job\<lparr> j_finished_at := finishedAt,
                    j_status := (if succeeded then JobStatusSucceeded
                                 else if cancelled then JobStatusCancelled else JobStatusFailed) \<rparr>;
          job = (if code \<noteq> '''' then job\<lparr> j_error := Some (catalog_error code) \<rparr> else job)
      in (if cancelled \<or> deadlineHit
          then job\<lparr> j_staging_cleanup := (if err = ExitKilled then StagingCleanupPending else StagingCleanupDone) \<rparr>
          else job, code))"

text \<open>What the evidence adds: the worker's result, or a manifest alone.\<close>

definition add_result :: "worker_result \<Rightarrow> artifact_manifest option \<Rightarrow> job \<Rightarrow> job" where
  "add_result wr man job =
     (let job = (if wr_local_verified wr then job\<lparr> j_local := Some True \<rparr> else job);
          job = job\<lparr> j_destinations := j_destinations job @ map job_dest (wr_destinations wr) \<rparr>
      in if wr_run_id wr \<noteq> '''' then
           job\<lparr> j_artifact := Some \<lparr> ja_run_id = wr_run_id wr,
             ja_files = (case man of
                Some m \<Rightarrow> if am_run_id m = wr_run_id wr then convertManifestFiles (am_files m) else []
              | None \<Rightarrow> []) \<rparr> \<rparr>
         else job)"

definition add_manifest :: "artifact_manifest option \<Rightarrow> job \<Rightarrow> job" where
  "add_manifest man job =
     (case man of
        None \<Rightarrow> job
      | Some m \<Rightarrow> job\<lparr> j_local := Some True,
          j_artifact := Some \<lparr> ja_run_id = am_run_id m, ja_files = convertManifestFiles (am_files m) \<rparr> \<rparr>)"

definition settle_run ::
    "job \<Rightarrow> gtime \<Rightarrow> worker_exit \<Rightarrow> ctx_error \<Rightarrow> worker_result option \<Rightarrow> artifact_manifest option \<Rightarrow> job \<times> string" where
  "settle_run job finishedAt err runErr result man =
     (case settle_outcome job finishedAt err runErr (run_succeeded err result) of
        (job, code) \<Rightarrow>
          (case result of None \<Rightarrow> add_manifest man job | Some wr \<Rightarrow> add_result wr man job, code))"

definition execute :: "lib \<Rightarrow> env \<Rightarrow> control \<Rightarrow> worker \<Rightarrow> string \<Rightarrow> worker_exit \<Rightarrow> ctx_error \<Rightarrow> control" where
  "execute L E c w out err runErr =
     (let kind = w_kind w; jobID = w_job w; p = w_policy w; finishedAt = en_now E;
          m = fst c\<lparr> m_running := False \<rparr>
      in case job_index m jobID of
           None \<Rightarrow> (m, snd c)
         | Some i \<Rightarrow>
             (case settle_run (m_jobs m ! i) finishedAt err runErr
                     (worker_evidence L (m, snd c) out (m_jobs m ! i))
                     (findMatchingManifest (lb_manifest L) (m_root m) (dk_tree (snd c)) kind jobID (m_instance_id m)) of
                (job, code) \<Rightarrow>
                  (let m = m\<lparr> m_jobs := (m_jobs m)[i := job] \<rparr>;
                       st = foldJobIntoState (state_of (m_states m) kind) job;
                       st = st\<lparr> st_next_run :=
                              (if code = ErrCodeWorkerBusy
                               then ScheduleAfterWorkerBusy (consecutiveWorkerBusy (m_jobs m) kind - 1)
                                      (p_interval_minutes p) finishedAt
                               else finishedAt + p_interval_minutes p * minute_ns) \<rparr>;
                       m = m\<lparr> m_states := (m_states m)(kind \<mapsto> st) \<rparr>;
                       m = (if m_active_id m = jobID then m\<lparr> m_active_id := '''', m_active_kind := '''' \<rparr> else m);
                       m = pruneLocked L m finishedAt
                   in persistStateLocked E (persistJobsLocked E (m, snd c)))))"

subsection \<open>The scheduler\<close>

definition due_kind :: "manager \<Rightarrow> gtime \<Rightarrow> string" where
  "due_kind m now =
     (case find (\<lambda>kind. p_enabled (policyFor m kind) \<and>
              (st_next_run (state_of (m_states m) kind) = 0 \<or> \<not> now < st_next_run (state_of (m_states m) kind)))
            [''data'', ''logs''] of
        None \<Rightarrow> '''' | Some k \<Rightarrow> k)"

definition schedule_request :: "string \<Rightarrow> run_request" where
  "schedule_request kind = \<lparr> rr_kind = kind, rr_trigger = JobTriggerSchedule, rr_actor_fingerprint = '''',
     rr_request_id = '''', rr_idempotency = None \<rparr>"

text \<open>The lock is released between the two halves: \<open>tick_check\<close> is the first critical section, the job
  start the second.\<close>

definition tick_check :: "env \<Rightarrow> control \<Rightarrow> control \<times> string" where
  "tick_check E c =
     (if m_running (fst c) then (c, '''')
      else
        (let c1 = (if m_job_dirty (fst c) then persistJobsLocked E c else c)
         in (c1, due_kind (fst c1) (en_now E))))"

definition tick_start :: "env \<Rightarrow> string gen_result \<Rightarrow> control \<Rightarrow> string \<Rightarrow> control \<times> (backup_error + job \<times> worker)" where
  "tick_start E gen c due = StartJob E gen c (schedule_request due)"

subsection \<open>Policies and connections\<close>

definition next_state :: "gtime \<Rightarrow> policy \<Rightarrow> policy \<Rightarrow> bstate \<Rightarrow> bstate" where
  "next_state now old p st =
     (if \<not> p_enabled p then st\<lparr> st_next_run := 0 \<rparr>
      else if \<not> p_enabled old \<or> p_interval_minutes old \<noteq> p_interval_minutes p \<or> st_next_run st = 0
        then st\<lparr> st_next_run := now + p_interval_minutes p * minute_ns \<rparr>
      else st)"

definition Save :: "env \<Rightarrow> control \<Rightarrow> policies \<Rightarrow> 64 word \<Rightarrow> control \<times> (backup_error + policies)" where
  "Save E c p expected =
     (case c of (m, d) \<Rightarrow>
       (case validate_policy (ps_data p) (allDestinations m) of
          Some e \<Rightarrow> (c, Inl (ErrPolicy e))
        | None \<Rightarrow>
            (case validate_policy (ps_logs p) (allDestinations m) of
               Some e \<Rightarrow> (c, Inl (ErrPolicy e))
             | None \<Rightarrow>
                 if p_enabled (ps_logs p) \<and> \<not> m_logs_available m then (c, Inl ErrLogsNotRegistered)
                 else if ps_revision (m_policies m) \<noteq> expected then (c, Inl ErrConflict)
                 else if m_running m then (c, Inl ErrManagerBusy)
                 else
                   (let p = p\<lparr> ps_revision := expected + 1 \<rparr>;
                        st = (\<lambda>kind old q. next_state (en_now E) old q (state_of (m_states m) kind));
                        nxt = (m_states m)(''data'' \<mapsto> st ''data'' (ps_data (m_policies m)) (ps_data p),
                                           ''logs'' \<mapsto> st ''logs'' (ps_logs (m_policies m)) (ps_logs p))
                    in if \<not> en_state_ok E then (c, Inl ErrPersistence)
                       else ((m\<lparr> m_policies := p, m_states := nxt \<rparr>,
                              d\<lparr> dk_state := SF_content p nxt (m_connections m) \<rparr>), Inr p)))))"

definition bump :: "policies \<Rightarrow> policies" where
  "bump p = p\<lparr> ps_revision := ps_revision p + 1 \<rparr>"

definition commit_connections :: "env \<Rightarrow> control \<Rightarrow> connection list \<Rightarrow> control \<times> backup_error option" where
  "commit_connections E c nxt =
     (case c of (m, d) \<Rightarrow>
        (let p = bump (m_policies m)
         in if \<not> en_state_ok E then (c, Some ErrPersistence)
            else ((m\<lparr> m_connections := nxt, m_policies := p \<rparr>,
                   d\<lparr> dk_state := SF_content p (m_states m) nxt \<rparr>), None)))"

definition conn_index :: "connection list \<Rightarrow> string \<Rightarrow> nat option" where
  "conn_index cs i = find (\<lambda>k. c_id (cs ! k) = i) [0..<length cs]"

definition SaveConnection :: "lib \<Rightarrow> env \<Rightarrow> control \<Rightarrow> connection \<Rightarrow> 64 word \<Rightarrow> control \<times> backup_error option" where
  "SaveConnection L E c conn expected =
     (let m = fst c in
      if m_running m then (c, Some ErrManagerBusy)
      else if expected \<noteq> ps_revision (m_policies m) then (c, Some ErrConflict)
      else if list_ex (\<lambda>d. d_id d = c_id conn) (m_destinations m) then (c, Some ErrReadOnly)
      else
        (let nxt = m_connections m;
             index = conn_index nxt (c_id conn);
             conn = (case index of None \<Rightarrow> conn | Some k \<Rightarrow> inheritSecrets (nxt ! k) conn)
         in case validateConnection (lb_text L) conn of
              Some e \<Rightarrow> (c, Some (ErrConnection e))
            | None \<Rightarrow>
                (case index of
                   None \<Rightarrow> if 19 \<le> length nxt then (c, Some ErrConnectionLimit)
                            else commit_connections E c (nxt @ [conn])
                 | Some k \<Rightarrow> commit_connections E c (nxt[k := conn]))))"

definition DeleteConnection :: "env \<Rightarrow> control \<Rightarrow> string \<Rightarrow> 64 word \<Rightarrow> control \<times> backup_error option" where
  "DeleteConnection E c i expected =
     (let m = fst c in
      if m_running m then (c, Some ErrManagerBusy)
      else if expected \<noteq> ps_revision (m_policies m) then (c, Some ErrConflict)
      else if i \<in> set (p_destinations (ps_data (m_policies m)) @ p_destinations (ps_logs (m_policies m)))
        then (c, Some ErrConnectionInUse)
      else if \<not> list_ex (\<lambda>k. c_id k = i) (m_connections m) then (c, Some ErrConnectionUnknown)
      else commit_connections E c (filter (\<lambda>k. c_id k \<noteq> i) (m_connections m)))"

subsection \<open>Start-up\<close>

record operator_config =
  oc_root :: string
  oc_instance_id :: string
  oc_destinations :: "destination list"
  oc_has_logs :: bool

fun check_destinations_config :: "destination list \<Rightarrow> string list \<Rightarrow> bool \<Rightarrow> (string list \<times> bool) option" where
  "check_destinations_config [] seen loc = Some (seen, loc)"
| "check_destinations_config (d # ds) seen loc =
     (if \<not> safeID (d_id d) \<or> d_id d \<in> set seen \<or> d_name d = '''' then None
      else if d_type d = ''local'' then
        (if d_id d \<noteq> ''local'' then None else check_destinations_config ds (d_id d # seen) True)
      else if d_type d \<in> {''s3'', ''ftp'', ''ftps'', ''sftp''} then check_destinations_config ds (d_id d # seen) loc
      else None)"

fun check_saved_connections :: "text_lib \<Rightarrow> connection list \<Rightarrow> string list \<Rightarrow> backup_error option" where
  "check_saved_connections T [] seen = None"
| "check_saved_connections T (c # cs) seen =
     (if c_id c \<in> set seen then Some ErrDuplicateConnection
      else (case validateConnection T c of
              Some e \<Rightarrow> Some (ErrConnection e)
            | None \<Rightarrow> check_saved_connections T cs (c_id c # seen)))"

text \<open>\<open>newManager\<close> on the four paths and the operator file (\<open>None\<close> when it cannot be read or decoded). A
  corrupt job file is moved aside.\<close>

definition loaded_manager ::
    "operator_config \<Rightarrow> policies \<Rightarrow> states \<Rightarrow> connection list \<Rightarrow> job list \<Rightarrow> manager" where
  "loaded_manager cfg pol sts conns jobs =
     \<lparr> m_connections = conns, m_root = oc_root cfg, m_instance_id = oc_instance_id cfg,
       m_policies = pol, m_destinations = oc_destinations cfg,
       m_logs_available = oc_has_logs cfg, m_states = sts, m_running = False,
       m_jobs = jobs, m_job_dirty = False, m_active_id = '''', m_active_kind = '''',
       m_job_timeouts = Map.empty, m_orphan_delay = 0, m_pending_deletes = [] \<rparr>"

definition newManager ::
    "lib \<Rightarrow> env \<Rightarrow> string list \<Rightarrow> operator_config option \<Rightarrow> disk \<Rightarrow> backup_error + control" where
  "newManager L E paths operator d =
     (if \<not> list_all isAbs paths then Inl ErrPaths
      else case operator of
        None \<Rightarrow> Inl ErrOperatorFile
      | Some cfg \<Rightarrow>
          (case check_destinations_config (oc_destinations cfg) [] False of
             None \<Rightarrow> Inl ErrOperatorConfig
           | Some (seen, loc) \<Rightarrow>
               if \<not> loc then Inl ErrOperatorConfig
               else
                 (case (case dk_state d of
                          SF_missing \<Rightarrow> Some (defaultPolicies, Map.empty, [])
                        | SF_bad \<Rightarrow> None
                        | SF_content pol sts conns \<Rightarrow> Some (pol, sts, conns)) of
                    None \<Rightarrow> Inl ErrStateFile
                  | Some (pol, sts, conns) \<Rightarrow>
                      (case check_saved_connections (lb_text L) conns seen of
                         Some e \<Rightarrow> Inl e
                       | None \<Rightarrow>
                           (let m = loaded_manager cfg pol sts conns [] in
                            case validate_policy (ps_data pol) (allDestinations m) of
                              Some e \<Rightarrow> Inl (ErrPolicy e)
                            | None \<Rightarrow>
                                (case validate_policy (ps_logs pol) (allDestinations m) of
                                   Some e \<Rightarrow> Inl (ErrPolicy e)
                                 | None \<Rightarrow>
                                     (case loadJobFile (dk_jobs d) of
                                        None \<Rightarrow> Inl ErrStateFile
                                      | Some (jobs, moved) \<Rightarrow>
                                          Inr (startupLocked L E (loaded_manager cfg pol sts conns jobs,
                                             if moved then d\<lparr> dk_jobs := JF_missing \<rparr> else d)))))))))"

record backup_view =
  bv_connections :: "public_connection list"
  bv_storage :: "string \<rightharpoonup> storage_view"
  bv_policies :: policies
  bv_destinations :: "destination list"
  bv_states :: states
  bv_running :: bool
  bv_logs_available :: bool

definition manager_view :: "lib \<Rightarrow> control \<Rightarrow> backup_view" where
  "manager_view L c =
     (case c of (m, d) \<Rightarrow>
        \<lparr> bv_connections = publicConnections (m_connections m),
          bv_storage = storage (lb_manifest L) (m_root m) (dk_tree d) (m_instance_id m),
          bv_policies = m_policies m, bv_destinations = allDestinations m, bv_states = m_states m,
          bv_running = m_running m, bv_logs_available = m_logs_available m \<rparr>)"

end
