(* ===== verification/BackupInv.thy ===== *)
theory BackupInv
  imports BackupOps
begin

text \<open>
  The invariant of the backup manager and its preservation, one lemma per operation: the records stay
  valid, distinct and bounded; at most one is running, exactly when the manager says so; a supervised
  worker belongs to that record; and the job file on disk always loads and holds the running record.
\<close>

subsection \<open>Valid records\<close>

definition requester_ok :: "job \<Rightarrow> bool" where
  "requester_ok j \<longleftrightarrow> IsValidJobID (j_id j) \<and> j_kind j \<in> {''data'', ''logs''} \<and>
     j_trigger j \<in> {JobTriggerManual, JobTriggerSchedule} \<and>
     rq_type (j_requested_by j) \<in> {JobRequesterUser, JobRequesterScheduler} \<and>
     (rq_fingerprint (j_requested_by j) = '''' \<or> jobFingerprintRe (rq_fingerprint (j_requested_by j))) \<and>
     (j_request_id j = '''' \<or> jobRequestIDRe (j_request_id j)) \<and>
     (case j_idempotency j of None \<Rightarrow> True | Some i \<Rightarrow> validJobIdempotency i)"

definition dest_ok :: "job_destination \<Rightarrow> bool" where
  "dest_ok d \<longleftrightarrow> safeID (jd_id d) \<and> validDestStatus (jd_status d) \<and> validDestErrCode (jd_error_code d)"

definition artifact_ok :: "job_artifact \<Rightarrow> bool" where
  "artifact_ok a \<longleftrightarrow> (ja_run_id a = '''' \<or> runName (ja_run_id a)) \<and> length (ja_files a) \<le> maxArtifactFiles \<and>
     list_all artifact_file_ok (ja_files a)"

definition error_ok :: "job_error \<Rightarrow> bool" where
  "error_ok e \<longleftrightarrow> errorCatalog (je_code e) \<noteq> None \<and> length (je_message e) \<le> maxTextLen"

definition progress_ok :: "job \<Rightarrow> bool" where
  "progress_ok j \<longleftrightarrow>
     j_status j \<in> {JobStatusRunning, JobStatusSucceeded, JobStatusFailed, JobStatusCancelled, JobStatusAbandoned} \<and>
     j_staging_cleanup j \<in> {'''', StagingCleanupDone, StagingCleanupPending, StagingCleanupNotApplicable} \<and>
     j_orphan_reason j \<in> {'''', OrphanReasonLockHeld, OrphanReasonProbeError} \<and>
     length (j_destinations j) \<le> maxJobDests \<and> list_all dest_ok (j_destinations j) \<and>
     (case j_error j of None \<Rightarrow> True | Some e \<Rightarrow> error_ok e) \<and>
     (case j_artifact j of None \<Rightarrow> True | Some a \<Rightarrow> artifact_ok a)"

lemma job_ok_iff: "job_ok j \<longleftrightarrow> requester_ok j \<and> progress_ok j"
proof -
  have d: "list_ex (\<lambda>d. \<not> safeID (jd_id d) \<or> \<not> validDestStatus (jd_status d) \<or>
      \<not> validDestErrCode (jd_error_code d)) ds \<longleftrightarrow> \<not> list_all dest_ok ds" for ds
    by (auto simp: list_ex_iff list_all_iff dest_ok_def)
  have f: "list_ex (\<lambda>f. \<not> artifactNameRe (af_name f) \<or> af_bytes f < 0 \<or> \<not> sha256HexRe (af_sha256 f)) fs
      \<longleftrightarrow> \<not> list_all artifact_file_ok fs" for fs
    by (auto simp: list_ex_iff list_all_iff artifact_file_ok_def not_le not_less)
  have i: "(case x of None \<Rightarrow> False | Some i \<Rightarrow> \<not> validJobIdempotency i) \<longleftrightarrow>
      \<not> (case x of None \<Rightarrow> True | Some i \<Rightarrow> validJobIdempotency i)" for x
    by (cases x) simp_all
  have e: "(case x of None \<Rightarrow> False | Some e \<Rightarrow> errorCatalog (je_code e) = None \<or> maxTextLen < length (je_message e))
      \<longleftrightarrow> \<not> (case x of None \<Rightarrow> True | Some e \<Rightarrow> error_ok e)" for x
    by (cases x) (auto simp: error_ok_def)
  have a: "(case x of None \<Rightarrow> None
      | Some a \<Rightarrow> if (ja_run_id a \<noteq> '''' \<and> \<not> runName (ja_run_id a)) \<or> maxArtifactFiles < length (ja_files a)
                 then Some ''invalid artifact''
                 else if \<not> list_all artifact_file_ok (ja_files a) then Some ''invalid artifact file'' else None) = None
      \<longleftrightarrow> (case x of None \<Rightarrow> True | Some a \<Rightarrow> artifact_ok a)" for x
    by (cases x) (auto simp: artifact_ok_def)
  have s: "inSet v [] \<longleftrightarrow> False" "inSet v (x # xs) \<longleftrightarrow> v = x \<or> inSet v xs" for v x xs
    by (auto simp: inSet_def)
  have nn: "(if b then Some x else y) = None \<longleftrightarrow> \<not> b \<and> y = None" for b and x :: string and y
    by simp
  show ?thesis
    unfolding job_ok_def validateJob_def option.case d f i e nn a requester_ok_def progress_ok_def
      s insert_iff empty_iff not_less not_not de_Morgan_disj de_Morgan_conj
    by argo
qed

lemma catalog_error_ok:
  "code \<in> {ErrCodeDeadlineExceeded, ErrCodeAbandoned, ErrCodeWorkerFailed, ErrCodeWorkerBusy,
      ErrCodeUnverifiedResult, ErrCodeResultInvalid} \<Longrightarrow> error_ok (catalog_error code)"
  by (auto simp: error_ok_def catalog_error_def ErrorMessage_def errorCatalog_def err_code_defs maxTextLen_def)

definition marshalled :: "job \<Rightarrow> bool" where
  "marshalled j \<longleftrightarrow> (case j_error j of None \<Rightarrow> True | Some e \<Rightarrow> je_message e = ErrorMessage (je_code e))"

lemma marshalled_iff: "marshalled j \<longleftrightarrow> marshal_job j = j"
proof -
  have "marshal_job j = j \<longleftrightarrow> map_option (\<lambda>e. \<lparr> je_code = je_code e, je_message = ErrorMessage (je_code e) \<rparr>) (j_error j) = j_error j"
    by (cases j) (auto simp: marshal_job_def)
  moreover have "\<lparr> je_code = je_code a, je_message = x \<rparr> = a \<longleftrightarrow> je_message a = x" for a :: job_error and x
    by (cases a) auto
  ultimately show ?thesis by (cases "j_error j") (simp_all add: marshalled_def)
qed

lemma message_ok: "errorCatalog code \<noteq> None \<Longrightarrow> length (ErrorMessage code) \<le> maxTextLen"
proof -
  assume "errorCatalog code \<noteq> None"
  then obtain m where m: "errorCatalog code = Some m" by blast
  from map_of_SomeD [OF m [unfolded errorCatalog_def]] have "length m \<le> 256" by auto
  with m show ?thesis by (simp add: ErrorMessage_def maxTextLen_def)
qed

text \<open>A list the job file may hold.\<close>

definition history_ok :: "job list \<Rightarrow> bool" where
  "history_ok jobs \<longleftrightarrow> list_all job_ok jobs \<and> list_all marshalled jobs \<and> distinct (map j_id jobs)"

lemma load_content:
  assumes "history_ok jobs" "length jobs \<le> maxJobRecords"
  shows "loadJobFile (job_content jobs) = Some (jobs, False)"
proof -
  have m: "marshal_job j = j" if "j \<in> set jobs" for j
    using assms(1) that marshalled_iff by (auto simp: history_ok_def list_all_iff)
  have c: "job_content jobs = JF_content 1 (map Some jobs)"
    using m by (auto simp: job_content_def)
  have v: "validateJobs (map Some jobs) = None"
    using assms by (auto simp: validateJobs_ok history_ok_def)
  have "j\<lparr> j_error := map_option (\<lambda>e. e\<lparr> je_message := ErrorMessage (je_code e) \<rparr>) (j_error j) \<rparr> = j"
    if "j \<in> set jobs" for j
  proof -
    have "marshalled j" using assms(1) that by (auto simp: history_ok_def list_all_iff)
    then have "map_option (\<lambda>e. e\<lparr> je_message := ErrorMessage (je_code e) \<rparr>) (j_error j) = j_error j"
      by (cases "j_error j") (auto simp: marshalled_def)
    then show ?thesis by simp
  qed
  then show ?thesis by (simp add: loadJobFile_def c v map_idI)
qed

lemma loaded_ok:
  assumes "loadJobFile f = Some (jobs, moved)"
  shows "history_ok jobs" "length jobs \<le> maxJobRecords"
proof -
  let ?fix = "\<lambda>j. j\<lparr> j_error := map_option (\<lambda>e. e\<lparr> je_message := ErrorMessage (je_code e) \<rparr>) (j_error j) \<rparr>"
  have "history_ok jobs \<and> length jobs \<le> maxJobRecords"
  proof (cases "jobs = []")
    case True
    then show ?thesis by (simp add: history_ok_def)
  next
    case False
    then obtain rs where rs: "validateJobs rs = None" "jobs = map (\<lambda>r. ?fix (the r)) rs"
      using assms by (auto simp: loadJobFile_def split: job_file.splits if_splits)
    then obtain js where js: "rs = map Some js" "list_all job_ok js" "distinct (map j_id js)" "length js \<le> maxJobRecords"
      by (auto simp: validateJobs_ok)
    have j: "jobs = map ?fix js" using rs(2) js(1) by simp
    have "job_ok (?fix x) \<and> marshalled (?fix x)" if "job_ok x" for x
      using that message_ok
      by (cases "j_error x") (auto simp: job_ok_iff requester_ok_def progress_ok_def marshalled_def error_ok_def)
    then show ?thesis using js by (auto simp: j history_ok_def list_all_iff comp_def)
  qed
  then show "history_ok jobs" "length jobs \<le> maxJobRecords" by simp_all
qed

subsection \<open>Evidence\<close>

definition result_ok :: "worker_result \<Rightarrow> bool" where
  "result_ok wr \<longleftrightarrow> (wr_run_id wr = '''' \<or> runName (wr_run_id wr)) \<and>
     length (wr_destinations wr) \<le> maxJobDests \<and> list_all dest_ok (map job_dest (wr_destinations wr)) \<and>
     (wr_verified wr \<longrightarrow> wr_local_verified wr)"

definition manifest_ok :: "artifact_manifest \<Rightarrow> bool" where
  "manifest_ok m \<longleftrightarrow> runName (am_run_id m) \<and> length (am_files m) \<le> maxArtifactFiles \<and>
     list_all artifact_file_ok (am_files m)"

lemma check_destinations_ok:
  "check_destinations v ds seen = None \<Longrightarrow> list_all dest_ok (map job_dest ds)"
  by (induction v ds seen rule: check_destinations.induct)
     (auto simp: dest_ok_def job_dest_def split: if_splits)

lemma validated_result_ok:
  assumes "validateWorkerResult wr j = None"
  shows "result_ok wr"
proof -
  have "check_destinations (wr_verified wr) (wr_destinations wr) [] = None"
    "wr_run_id wr = '''' \<or> runName (wr_run_id wr)" "length (wr_destinations wr) \<le> maxJobDests"
    "wr_verified wr \<longrightarrow> wr_local_verified wr"
    using assms by (simp_all add: validateWorkerResult_def split: if_splits)
  then show ?thesis using check_destinations_ok by (simp add: result_ok_def)
qed

lemma read_result_ok:
  assumes "readWorkerResult decode root tr j = (Some wr, status)"
  shows "result_ok wr" "status = resultOK" "validateWorkerResult wr j = None"
  using assms validated_result_ok
  by (auto simp: readWorkerResult_def split: if_splits option.splits fnode.splits sum.splits read_error.splits)

lemma found_manifest_ok: "findMatchingManifest decode root tr kind i inst = Some m \<Longrightarrow> manifest_ok m"
  by (drule findMatchingManifest_owned) (auto simp: manifest_ok_def list_all_iff maxArtifactFiles_def)

definition evidence_ok :: "evidence \<Rightarrow> bool" where
  "evidence_ok ev \<longleftrightarrow> (case ev_result ev of None \<Rightarrow> True | Some wr \<Rightarrow> result_ok wr) \<and>
     (case ev_manifest ev of None \<Rightarrow> True | Some m \<Rightarrow> manifest_ok m)"

lemma gather_evidence_ok: "evidence_ok (gather_evidence L E c j own)"
  using read_result_ok(1) found_manifest_ok
  by (auto simp: gather_evidence_def evidence_ok_def Let_def split: prod.splits option.splits)

lemma gather_evidence_lock:
  "ev_lock_held (gather_evidence L E c j own) \<or> ev_probe_error (gather_evidence L E c j own) \<longleftrightarrow>
     own \<and> en_probe E \<in> {LockHeld, ProbeFailed}"
  by (auto simp: gather_evidence_def Let_def split: prod.splits)

text \<open>Records that differ in their progress only.\<close>

lemma requester_ok_core: "job_core j = job_core r \<Longrightarrow> requester_ok j = requester_ok r"
  using job_core_eqD [of j r] by (simp add: requester_ok_def)

lemma mark_unknown_ok: "list_all dest_ok ds \<Longrightarrow> list_all dest_ok (mark_unknown ds)"
proof -
  have "validDestStatus DestStatusUnknown" by (simp add: validDestStatus_def inSet_def)
  then show "list_all dest_ok ds \<Longrightarrow> ?thesis" by (auto simp: list_all_iff mark_unknown_def dest_ok_def)
qed

lemma artifact_of_manifest_ok: "manifest_ok m \<Longrightarrow> artifact_ok \<lparr> ja_run_id = am_run_id m, ja_files = am_files m \<rparr>"
  by (simp add: manifest_ok_def artifact_ok_def)

lemma artifact_of_result_ok:
  "result_ok wr \<Longrightarrow> (case x of None \<Rightarrow> True | Some m \<Rightarrow> manifest_ok m) \<Longrightarrow>
     artifact_ok \<lparr> ja_run_id = wr_run_id wr, ja_files = (case x of None \<Rightarrow> [] | Some m \<Rightarrow> if P m then am_files m else []) \<rparr>"
  by (cases x) (auto simp: manifest_ok_def artifact_ok_def result_ok_def)

lemma marshalled_update [simp]:
  "marshalled (j\<lparr> j_status := a1 \<rparr>) = marshalled j" "marshalled (j\<lparr> j_finished_at := a2 \<rparr>) = marshalled j"
  "marshalled (j\<lparr> j_orphan_suspected := a3 \<rparr>) = marshalled j" "marshalled (j\<lparr> j_orphan_reason := a4 \<rparr>) = marshalled j"
  "marshalled (j\<lparr> j_staging_cleanup := a5 \<rparr>) = marshalled j" "marshalled (j\<lparr> j_cancel_requested_at := a6 \<rparr>) = marshalled j"
  "marshalled (j\<lparr> j_local := a8 \<rparr>) = marshalled j" "marshalled (j\<lparr> j_destinations := a9 \<rparr>) = marshalled j"
  "marshalled (j\<lparr> j_artifact := a10 \<rparr>) = marshalled j"
  "marshalled (j\<lparr> j_error := Some (catalog_error code) \<rparr>)" "marshalled (j\<lparr> j_error := None \<rparr>)"
  by (simp_all add: marshalled_def catalog_error_def)

definition final_statuses :: "string set" where
  "final_statuses = {JobStatusSucceeded, JobStatusFailed, JobStatusCancelled, JobStatusAbandoned}"

lemma progress_update:
  assumes "progress_ok j"
  shows "s = JobStatusRunning \<or> s \<in> final_statuses \<Longrightarrow> progress_ok (j\<lparr> j_status := s \<rparr>)"
    and "progress_ok (j\<lparr> j_finished_at := t \<rparr>)" "progress_ok (j\<lparr> j_orphan_suspected := b \<rparr>)"
    and "r \<in> {'''', OrphanReasonLockHeld, OrphanReasonProbeError} \<Longrightarrow> progress_ok (j\<lparr> j_orphan_reason := r \<rparr>)"
    and "c \<in> {StagingCleanupDone, StagingCleanupPending} \<Longrightarrow> progress_ok (j\<lparr> j_staging_cleanup := c \<rparr>)"
    and "progress_ok (j\<lparr> j_cancel_requested_at := t \<rparr>)" "progress_ok (j\<lparr> j_local := l \<rparr>)"
    and "progress_ok (j\<lparr> j_error := None \<rparr>)"
    and "error_ok e \<Longrightarrow> progress_ok (j\<lparr> j_error := Some e \<rparr>)"
    and "list_all dest_ok ds \<Longrightarrow> length ds \<le> maxJobDests \<Longrightarrow> progress_ok (j\<lparr> j_destinations := ds \<rparr>)"
    and "artifact_ok a \<Longrightarrow> progress_ok (j\<lparr> j_artifact := Some a \<rparr>)"
  using assms by (auto simp: progress_ok_def final_statuses_def)

lemma progress_dests:
  assumes "progress_ok j" shows "list_all dest_ok (j_destinations j)" "length (j_destinations j) \<le> maxJobDests"
  using assms by (simp_all add: progress_ok_def)

lemma length_mark_unknown [simp]: "length (mark_unknown ds) = length ds"
  by (simp add: mark_unknown_def)

lemma final_mem [simp]:
  "JobStatusSucceeded \<in> final_statuses" "JobStatusFailed \<in> final_statuses"
  "JobStatusCancelled \<in> final_statuses" "JobStatusAbandoned \<in> final_statuses" "JobStatusRunning \<notin> final_statuses"
  by (simp_all add: final_statuses_def)

lemma result_parts:
  assumes "result_ok wr"
  shows "list_all dest_ok (map job_dest (wr_destinations wr))" "length (wr_destinations wr) \<le> maxJobDests"
  using assms by (simp_all add: result_ok_def)

lemma artifact_of_result_ok':
  "result_ok wr \<Longrightarrow> artifact_ok \<lparr> ja_run_id = wr_run_id wr, ja_files = [] \<rparr>"
  "result_ok wr \<Longrightarrow> manifest_ok m \<Longrightarrow> artifact_ok \<lparr> ja_run_id = wr_run_id wr, ja_files = am_files m \<rparr>"
  by (auto simp: manifest_ok_def artifact_ok_def result_ok_def)

lemma reconcile_ok:
  assumes r: "ReconcileEvidence (Some r) ev now = (Some j, d)" and ev: "evidence_ok ev"
    and ok: "job_ok r" "marshalled r"
  shows "job_ok j" "marshalled j"
proof -
  have p: "progress_ok r" using ok by (simp add: job_ok_iff)
  have c: "error_ok (catalog_error ErrCodeAbandoned)" "error_ok (catalog_error ErrCodeResultInvalid)"
    "error_ok (catalog_error ErrCodeWorkerFailed)" by (simp_all add: catalog_error_ok)
  note d = progress_dests [OF p]
  have m: "progress_ok j \<and> marshalled j"
  proof (cases "j_status r = JobStatusRunning \<and> \<not> (ev_lock_held ev \<or> ev_probe_error ev)")
    case False
    then have "j = r \<or> (\<exists>b s. s \<in> {'''', OrphanReasonLockHeld, OrphanReasonProbeError} \<and>
        j = r\<lparr> j_orphan_suspected := b, j_orphan_reason := s \<rparr>)"
      using r by (auto simp: ReconcileEvidence_def cloneJob_def split: if_splits)
    then show ?thesis using p ok(2) by (auto intro!: progress_update simp del: insert_iff)
  next
    case True
    show ?thesis
    proof (cases "ev_result ev")
      case None
      show ?thesis
      proof (cases "ev_manifest ev")
        case (Some mf)
        then have "manifest_ok mf" using ev by (simp add: evidence_ok_def)
        then show ?thesis using r True None Some p c d
          by (auto simp: ReconcileEvidence_def Let_def ok(2) mark_unknown_ok artifact_of_manifest_ok
              intro!: progress_update)
      qed (use r True None p c d in \<open>auto simp: ReconcileEvidence_def Let_def ok(2) mark_unknown_ok
              intro!: progress_update\<close>)
    next
      case (Some wr)
      then have wr: "result_ok wr" using ev by (simp add: evidence_ok_def)
      note parts = result_parts [OF wr] artifact_of_result_ok' [OF wr]
      show ?thesis
      proof (cases "ev_manifest ev")
        case None
        then show ?thesis using r True Some p c d parts
          by (auto simp: ReconcileEvidence_def Let_def ok(2) mark_unknown_ok
              intro!: progress_update split: if_splits)
      next
        case (Some mf)
        then have mf: "manifest_ok mf" using ev by (simp add: evidence_ok_def)
        show ?thesis using r True Some \<open>ev_result ev = Some wr\<close> p c d parts mf artifact_of_manifest_ok [OF mf]
          by (auto simp: ReconcileEvidence_def Let_def ok(2) mark_unknown_ok
              intro!: progress_update split: if_splits)
      qed
    qed
  qed
  then show "job_ok j" using ok(1) requester_ok_core [OF reconcile_core(1) [OF r]] by (simp add: job_ok_iff)
  show "marshalled j" using m by simp
qed

lemma settle_outcome_ok:
  assumes r: "settle_outcome job t err re ok = (j, code)" and p: "progress_ok job" "marshalled job"
  shows "progress_ok j" "marshalled j" "job_core j = job_core job" "j_status j \<in> final_statuses"
    "j_orphan_suspected j = j_orphan_suspected job" "j_destinations j = j_destinations job"
    "j_status j = JobStatusSucceeded \<longleftrightarrow> ok"
proof -
  let ?cancel = "j_cancel_requested_at job \<noteq> 0 \<and> \<not> ok"
  let ?dead = "\<not> ?cancel \<and> \<not> ok \<and> re = CtxDeadline"
  define c where "c = outcome_code ok ?cancel ?dead err"
  define s where "s = (if ok then JobStatusSucceeded else if ?cancel then JobStatusCancelled else JobStatusFailed)"
  define j1 where "j1 = job\<lparr> j_finished_at := t, j_status := s \<rparr>"
  define j2 where "j2 = (if c \<noteq> '''' then j1\<lparr> j_error := Some (catalog_error c) \<rparr> else j1)"
  have j: "j = (if ?cancel \<or> ?dead
    then j2\<lparr> j_staging_cleanup := (if err = ExitKilled then StagingCleanupPending else StagingCleanupDone) \<rparr> else j2)"
    using r unfolding settle_outcome_def Let_def j2_def j1_def c_def s_def by simp
  have sf: "s \<in> final_statuses" "s = JobStatusSucceeded \<longleftrightarrow> ok" by (simp_all add: s_def)
  have ce: "c \<noteq> '''' \<longrightarrow> error_ok (catalog_error c)"
    by (simp add: c_def outcome_code_def catalog_error_ok)
  let ?good = "\<lambda>x. progress_ok x \<and> marshalled x \<and> job_core x = job_core job \<and> j_status x = s \<and>
    j_orphan_suspected x = j_orphan_suspected job \<and> j_destinations x = j_destinations job"
  have "?good j1" using p sf(1) by (simp add: j1_def progress_update)
  then have "?good j2" using ce by (simp add: j2_def progress_update)
  then have "?good j" by (simp add: j progress_update)
  then show "progress_ok j" "marshalled j" "job_core j = job_core job" "j_status j \<in> final_statuses"
    "j_orphan_suspected j = j_orphan_suspected job" "j_destinations j = j_destinations job"
    "j_status j = JobStatusSucceeded \<longleftrightarrow> ok"
    using sf by simp_all
qed

lemma settle_run_ok:
  assumes r: "settle_run job t err re result man = (j, code)"
    and ok: "job_ok job" "marshalled job" "j_destinations job = []"
    and ev: "case result of None \<Rightarrow> True | Some wr \<Rightarrow> result_ok wr" "case man of None \<Rightarrow> True | Some m \<Rightarrow> manifest_ok m"
  shows "job_ok j" "marshalled j" "job_core j = job_core job" "j_status j \<in> final_statuses"
    "j_status j = JobStatusSucceeded \<longleftrightarrow> run_succeeded err result"
proof -
  have p: "progress_ok job" using ok by (simp add: job_ok_iff)
  obtain j3 where o: "settle_outcome job t err re (run_succeeded err result) = (j3, code)"
    and j: "j = (case result of None \<Rightarrow> add_manifest man j3 | Some wr \<Rightarrow> add_result wr man j3)"
    using r by (auto simp: settle_run_def split: prod.splits)
  note O = settle_outcome_ok [OF o p ok(2)]
  let ?good = "\<lambda>x. progress_ok x \<and> marshalled x \<and> job_core x = job_core job \<and> j_status x = j_status j3"
  have g3: "?good j3" "j_destinations j3 = []" using O ok(3) by simp_all
  have "?good j"
  proof (cases result)
    case None
    then show ?thesis using g3 ev(2)
      by (cases man) (simp_all add: j add_manifest_def progress_update artifact_of_manifest_ok)
  next
    case (Some wr)
    have wr: "result_ok wr" using ev(1) Some by simp
    define j4 where "j4 = (if wr_local_verified wr then j3\<lparr> j_local := Some True \<rparr> else j3)"
    define j5 where "j5 = j4\<lparr> j_destinations := j_destinations j4 @ map job_dest (wr_destinations wr) \<rparr>"
    have j': "j = (if wr_run_id wr \<noteq> '''' then j5\<lparr> j_artifact := Some \<lparr> ja_run_id = wr_run_id wr,
        ja_files = (case man of None \<Rightarrow> [] | Some m \<Rightarrow> if am_run_id m = wr_run_id wr then am_files m else []) \<rparr> \<rparr> else j5)"
      using Some by (cases man) (simp_all add: j add_result_def Let_def j5_def j4_def)
    have "?good j4" "j_destinations j4 = []" using g3 by (simp_all add: j4_def progress_update)
    then have "?good j5" using result_parts [OF wr] by (simp add: j5_def progress_update)
    then show ?thesis
      using artifact_of_result_ok [OF wr ev(2), of "\<lambda>m. am_run_id m = wr_run_id wr"] by (simp add: j' progress_update)
  qed
  then show "job_ok j" "marshalled j" "job_core j = job_core job" "j_status j \<in> final_statuses"
    "j_status j = JobStatusSucceeded \<longleftrightarrow> run_succeeded err result"
    using ok(1) requester_ok_core [of j job] O by (simp_all add: job_ok_iff)
qed

lemma worker_evidence_ok: "worker_evidence L c out j = Some wr \<Longrightarrow> result_ok wr \<and> validateWorkerResult wr j = None"
  using validated_result_ok read_result_ok(1,3)
  by (auto simp: worker_evidence_def split: option.splits if_splits prod.splits)

subsection \<open>Running records\<close>

definition running_jobs :: "job list \<Rightarrow> job list" where
  "running_jobs jobs = filter (\<lambda>j. j_status j = JobStatusRunning) jobs"

lemma running_jobs_indices: "running_jobs jobs = map (nth jobs) (running_indices jobs)"
proof -
  have "filter P xs = map (nth xs) (filter (\<lambda>i. P (xs ! i)) [0..<length xs])" for P and xs :: "job list"
    using filter_map [of P "nth xs" "[0..<length xs]"] by (simp add: map_nth comp_def)
  then show ?thesis by (simp add: running_jobs_def running_indices_def)
qed

lemma running_indices_update:
  assumes "i < length jobs" "j_status (jobs ! i) = JobStatusRunning"
  shows "running_indices (jobs[i := j]) =
    (if j_status j = JobStatusRunning then running_indices jobs else filter (\<lambda>k. k \<noteq> i) (running_indices jobs))"
  using assms by (auto simp: running_indices_def nth_list_update intro!: filter_cong)

lemma running_jobs_update:
  assumes "i < length jobs" "running_jobs jobs = [jobs ! i]" "j_status (jobs ! i) = JobStatusRunning"
  shows "running_jobs (jobs[i := j]) = (if j_status j = JobStatusRunning then [j] else [])"
proof -
  have "jobs = take i jobs @ jobs ! i # drop (Suc i) jobs" using assms(1) by (simp add: id_take_nth_drop)
  then have e: "running_jobs jobs = running_jobs (take i jobs) @ (jobs ! i) # running_jobs (drop (Suc i) jobs)"
    using assms(3) unfolding running_jobs_def by (metis (mono_tags, lifting) filter.simps(2) filter_append)
  then have "running_jobs (take i jobs) = []" "running_jobs (drop (Suc i) jobs) = []"
    using e [unfolded assms(2)] by (cases "running_jobs (take i jobs)", simp_all)+
  then show ?thesis using assms(1) by (simp add: running_jobs_def upd_conv_take_nth_drop)
qed

lemma history_ok_update:
  assumes "history_ok jobs" "job_ok j" "marshalled j" "j_id j = j_id (jobs ! i)"
  shows "history_ok (jobs[i := j])"
proof (cases "i < length jobs")
  case True
  have "map j_id (jobs[i := j]) = map j_id jobs"
    using True assms(4) by (simp add: map_update list_update_same_conv)
  moreover have "set (jobs[i := j]) \<subseteq> insert j (set jobs)" by (rule set_update_subset_insert)
  ultimately show ?thesis using assms by (auto simp: history_ok_def list_all_iff)
next
  case False
  then show ?thesis using assms(1) by (simp add: list_update_beyond)
qed

lemma history_ok_subset:
  assumes "history_ok jobs" "set js \<subseteq> set jobs" "distinct (map j_id js)"
  shows "history_ok js"
  using assms by (auto simp: history_ok_def list_all_iff)

lemma protected_count:
  assumes "history_ok jobs" "length (running_jobs jobs) \<le> 1"
  shows "length (filter (is_protected jobs) jobs) \<le> 3"
proof -
  let ?X = "set (running_jobs jobs) \<union> set_option (latestSucceeded jobs ''data'') \<union> set_option (latestSucceeded jobs ''logs'')"
  have k: "j_kind j = ''data'' \<or> j_kind j = ''logs''" if "j \<in> set jobs" for j
    using assms(1) that by (auto simp: history_ok_def list_all_iff job_ok_iff requester_ok_def)
  have sub: "set (filter (is_protected jobs) jobs) \<subseteq> ?X"
  proof
    fix j assume "j \<in> set (filter (is_protected jobs) jobs)"
    then have "j \<in> set jobs" "j_status j = JobStatusRunning \<or> latestSucceeded jobs (j_kind j) = Some j"
      by (simp_all add: is_protected_def)
    with k [of j] show "j \<in> ?X" by (auto simp: running_jobs_def)
  qed
  have fo: "finite (set_option x)" for x :: "job option" by (cases x) simp_all
  have so: "card (set_option x) \<le> 1" for x :: "job option" by (cases x) simp_all
  have "card ?X \<le> card (set (running_jobs jobs)) + card (set_option (latestSucceeded jobs ''data'')) +
      card (set_option (latestSucceeded jobs ''logs''))"
    by (meson add_le_mono card_Un_le le_refl le_trans)
  also have "\<dots> \<le> 3"
    using so [of "latestSucceeded jobs ''data''"] so [of "latestSucceeded jobs ''logs''"]
      card_length [of "running_jobs jobs"] assms(2) by linarith
  finally have X: "card ?X \<le> 3" .
  have "distinct (filter (is_protected jobs) jobs)"
    using assms(1) by (simp add: history_ok_def distinct_map)
  then have "length (filter (is_protected jobs) jobs) = card (set (filter (is_protected jobs) jobs))"
    by (simp only: distinct_card)
  also have "\<dots> \<le> card ?X" by (rule card_mono [OF _ sub]) (simp add: fo)
  finally show ?thesis using X by simp
qed

lemma prune_running:
  assumes "history_ok jobs" "is_sort srt"
  shows "running_jobs (fst (pruneJobs srt jobs now)) = running_jobs jobs"
proof -
  obtain keep where k: "fst (pruneJobs srt jobs now) = filter keep jobs" using pruneJobs_filter by blast
  have d: "distinct (map j_id jobs)" using assms(1) by (simp add: history_ok_def)
  have "keep j" if "j \<in> set jobs" "j_status j = JobStatusRunning" for j
    using prune_keeps_running [OF d assms(2) that, of now] k by auto
  then show ?thesis by (auto simp: k running_jobs_def intro!: filter_cong)
qed

text \<open>What retention does to the manager.\<close>

lemma pruneLocked_props:
  assumes h: "history_ok (m_jobs m)" and s: "is_sort (lb_sort L)" and r: "length (running_jobs (m_jobs m)) \<le> 1"
  shows "history_ok (m_jobs (pruneLocked L m now))" "running_jobs (m_jobs (pruneLocked L m now)) = running_jobs (m_jobs m)"
    "length (m_jobs (pruneLocked L m now)) \<le> 200" "set (m_jobs (pruneLocked L m now)) \<subseteq> set (m_jobs m)"
proof -
  let ?p = "pruneJobs (lb_sort L) (m_jobs m) now"
  have d: "distinct (map j_id (m_jobs m))" using h by (simp add: history_ok_def)
  have e: "m_jobs (pruneLocked L m now) = fst ?p"
  proof (cases "snd ?p = []")
    case True
    then have "length (fst ?p) = length (m_jobs m)"
      using arg_cong [OF prune_ids [OF d s, of now], of size] by simp
    then have "fst ?p = m_jobs m" using prune_subseq [of "lb_sort L" "m_jobs m" now] subseq_same_length by blast
    then show ?thesis using True by (simp add: pruneLocked_def case_prod_beta)
  next
    case False
    then show ?thesis by (simp add: pruneLocked_def case_prod_beta)
  qed
  show "history_ok (m_jobs (pruneLocked L m now))" unfolding e
    by (rule history_ok_subset [OF h prune_subset prune_distinct [OF d]])
  show "running_jobs (m_jobs (pruneLocked L m now)) = running_jobs (m_jobs m)" unfolding e by (rule prune_running [OF h s])
  show "length (m_jobs (pruneLocked L m now)) \<le> 200" unfolding e
    using prune_count [OF d s, of now] protected_count [OF h r] by (simp add: MaxJobHistory_def)
  show "set (m_jobs (pruneLocked L m now)) \<subseteq> set (m_jobs m)" unfolding e by (rule prune_subset)
qed

lemma pruneLocked_fields [simp]:
  "m_running (pruneLocked L m now) = m_running m" "m_active_id (pruneLocked L m now) = m_active_id m"
  "m_active_kind (pruneLocked L m now) = m_active_kind m" "m_policies (pruneLocked L m now) = m_policies m"
  "m_connections (pruneLocked L m now) = m_connections m" "m_states (pruneLocked L m now) = m_states m"
  "m_destinations (pruneLocked L m now) = m_destinations m" "m_root (pruneLocked L m now) = m_root m"
  "m_logs_available (pruneLocked L m now) = m_logs_available m" "m_orphan_delay (pruneLocked L m now) = m_orphan_delay m"
  by (simp_all add: pruneLocked_def split: prod.splits)

end
