(* ===== verification/BackupSafety.thy ===== *)
theory BackupSafety
  imports BackupInv
begin

text \<open>
  The backup manager as a transition system: one step is one critical section of any goroutine, or a
  change of the files under the backup root by somebody else; a process boots from what is on disk.
  The invariant \<open>bk_inv\<close> (single flight, valid and loadable history) and its preservation by every step.
\<close>

type_synonym bworld = "manager \<times> disk \<times> worker option"

text \<open>The identifier generator returned a well-formed identifier that no record has.\<close>

definition gen_ok :: "manager \<Rightarrow> string gen_result \<Rightarrow> bool" where
  "gen_ok m gen \<longleftrightarrow> (case gen of Generated i \<Rightarrow> IsValidJobID i \<and> i \<notin> j_id ` set (m_jobs m) | _ \<Rightarrow> True)"

definition request_ok :: "run_request \<Rightarrow> bool" where
  "request_ok req \<longleftrightarrow> (case rr_idempotency req of None \<Rightarrow> True
     | Some k \<Rightarrow> validJobIdempotency \<lparr> ji_key_hash = ri_key_hash k, ji_fingerprint = ri_fingerprint k,
                                        ji_key_id = ri_key_id k \<rparr>)"

inductive bk_step :: "lib \<Rightarrow> bworld \<Rightarrow> bworld \<Rightarrow> bool" for L where
  bk_start: "StartJob E gen (m, d) req = ((m', d'), Inr (j, x)) \<Longrightarrow> gen_ok m gen \<Longrightarrow> request_ok req \<Longrightarrow>
     bk_step L (m, d, w) (m', d', Some x)"
| bk_refused: "StartJob E gen (m, d) req = ((m', d'), Inl e) \<Longrightarrow> bk_step L (m, d, w) (m', d', w)"
| bk_finish: "execute L E (m, d) x out err re = (m', d') \<Longrightarrow> bk_step L (m, d, Some x) (m', d', None)"
| bk_cancel: "CancelJob E (m, d) i = ((m', d'), r) \<Longrightarrow> bk_step L (m, d, w) (m', d', w)"
| bk_orphan: "orphanStep L E (m, d) = ((m', d'), delay, again) \<Longrightarrow> bk_step L (m, d, w) (m', d', w)"
| bk_tick: "tick_check E (m, d) = ((m', d'), due) \<Longrightarrow> bk_step L (m, d, w) (m', d', w)"
| bk_save: "Save E (m, d) p expected = ((m', d'), r1) \<Longrightarrow> bk_step L (m, d, w) (m', d', w)"
| bk_save_connection: "SaveConnection L E (m, d) c expected = ((m', d'), r2) \<Longrightarrow> bk_step L (m, d, w) (m', d', w)"
| bk_delete_connection: "DeleteConnection E (m, d) i expected = ((m', d'), r3) \<Longrightarrow> bk_step L (m, d, w) (m', d', w)"
| bk_files: "bk_step L (m, d, w) (m, d\<lparr> dk_tree := tr \<rparr>, w)"

text \<open>A process starts on any disk, the one a crash left included.\<close>

inductive bk_reachable :: "lib \<Rightarrow> bworld \<Rightarrow> bool" for L where
  bk_boot: "newManager L E paths cfg d = Inr (m, d') \<Longrightarrow> bk_reachable L (m, d', None)"
| bk_live: "bk_reachable L w \<Longrightarrow> bk_step L w w' \<Longrightarrow> bk_reachable L w'"

text \<open>The single-flight invariant on the manager alone.\<close>

definition flight_ok :: "manager \<Rightarrow> bool" where
  "flight_ok m \<longleftrightarrow>
     (if m_running m then \<exists>j. running_jobs (m_jobs m) = [j] \<and> j_id j = m_active_id m \<and> j_kind j = m_active_kind m
      else running_jobs (m_jobs m) = [] \<and> m_active_id m = '''' \<and> m_active_kind m = '''')"

definition worker_ok :: "manager \<Rightarrow> worker option \<Rightarrow> bool" where
  "worker_ok m w \<longleftrightarrow>
     (case w of
        None \<Rightarrow> list_all j_orphan_suspected (running_jobs (m_jobs m))
      | Some x \<Rightarrow> m_running m \<and> m_active_id m = w_job x \<and> m_active_kind m = w_kind x \<and>
          list_all (\<lambda>j. \<not> j_orphan_suspected j \<and> j_destinations j = []) (running_jobs (m_jobs m)))"

text \<open>The job file loads, and holds the running record as running.\<close>

definition durable_ok :: "manager \<Rightarrow> disk \<Rightarrow> bool" where
  "durable_ok m d \<longleftrightarrow> (\<exists>js. loadJobFile (dk_jobs d) = Some (js, False) \<and>
     (m_running m \<longrightarrow> m_active_id m \<in> j_id ` set (running_jobs js)))"

definition manager_ok :: "manager \<Rightarrow> bool" where
  "manager_ok m \<longleftrightarrow> history_ok (m_jobs m) \<and> flight_ok m \<and>
     length (m_jobs m) \<le> (if m_running m then 201 else 200)"

definition bk_inv :: "bworld \<Rightarrow> bool" where
  "bk_inv w \<longleftrightarrow> (case w of (m, d, x) \<Rightarrow> manager_ok m \<and> worker_ok m x \<and> durable_ok m d)"

lemma flight_length: "flight_ok m \<Longrightarrow> length (running_jobs (m_jobs m)) \<le> 1"
  by (auto simp: flight_ok_def split: if_splits)

lemma manager_ok_cong:
  assumes "m_jobs m' = m_jobs m" "m_running m' = m_running m" "m_active_id m' = m_active_id m"
    "m_active_kind m' = m_active_kind m"
  shows "manager_ok m' = manager_ok m" "worker_ok m' w = worker_ok m w" "durable_ok m' d = durable_ok m d"
  using assms by (simp_all add: manager_ok_def flight_ok_def worker_ok_def durable_ok_def cong: option.case_cong)

lemma durable_ok_tree [simp]: "durable_ok m (d\<lparr> dk_tree := tr \<rparr>) = durable_ok m d"
  "durable_ok m (d\<lparr> dk_state := s \<rparr>) = durable_ok m d"
  by (simp_all add: durable_ok_def)

lemma id_not_empty: "IsValidJobID i \<Longrightarrow> i \<noteq> ''''"
  by (auto simp: IsValidJobID_def)

text \<open>Writing a good history makes the disk good.\<close>

lemma durable_content:
  assumes "manager_ok m" "dk_jobs d = job_content (m_jobs m)"
  shows "durable_ok m d"
proof -
  have "length (m_jobs m) \<le> maxJobRecords"
    using assms(1) by (auto simp: manager_ok_def maxJobRecords_def split: if_splits)
  then have "loadJobFile (dk_jobs d) = Some (m_jobs m, False)"
    using load_content assms by (simp add: manager_ok_def)
  moreover have "m_running m \<longrightarrow> m_active_id m \<in> j_id ` set (running_jobs (m_jobs m))"
    using assms(1) by (auto simp: manager_ok_def flight_ok_def)
  ultimately show ?thesis by (auto simp: durable_ok_def)
qed

lemma persistJobs_ok:
  assumes "manager_ok m" "worker_ok m w" "durable_ok m d" "persistJobsLocked E (m, d) = (m', d')"
  shows "manager_ok m'" "worker_ok m' w" "durable_ok m' d'" "m_jobs m' = m_jobs m" "m_running m' = m_running m"
proof -
  have "manager_ok m' \<and> worker_ok m' w \<and> durable_ok m' d' \<and> m_jobs m' = m_jobs m \<and> m_running m' = m_running m"
  proof (cases "en_jobs_ok E")
    case True
    then have e: "m' = m\<lparr> m_job_dirty := False, m_pending_deletes := [] \<rparr>"
      "dk_jobs d' = job_content (m_jobs m)"
      using assms(4) by (auto simp: persistJobsLocked_def commitJobsLocked_def)
    have c: "manager_ok m'" "worker_ok m' w" using assms(1,2) manager_ok_cong [of m' m] by (simp_all add: e(1))
    with durable_content [OF c(1), of d'] e show ?thesis by simp
  next
    case False
    then have e: "m' = m\<lparr> m_job_dirty := True \<rparr>" "d' = d"
      using assms(4) by (auto simp: persistJobsLocked_def commitJobsLocked_def)
    then show ?thesis using assms(1-3) manager_ok_cong [of m' m] by simp
  qed
  then show "manager_ok m'" "worker_ok m' w" "durable_ok m' d'" "m_jobs m' = m_jobs m" "m_running m' = m_running m"
    by simp_all
qed

lemma persistState_ok:
  assumes "persistStateLocked E (m, d) = (m', d')"
  shows "m' = m" "durable_ok m d' = durable_ok m d"
  using assms by (auto simp: persistStateLocked_def split: if_splits)

subsection \<open>Preservation\<close>

lemma policy_steps_same:
  "Save E (m, d) p expected = ((m', d'), r1) \<Longrightarrow>
     m_jobs m' = m_jobs m \<and> m_running m' = m_running m \<and> m_active_id m' = m_active_id m \<and>
     m_active_kind m' = m_active_kind m \<and> dk_jobs d' = dk_jobs d"
  "SaveConnection L E (m, d) c expected = ((m', d'), r2) \<Longrightarrow>
     m_jobs m' = m_jobs m \<and> m_running m' = m_running m \<and> m_active_id m' = m_active_id m \<and>
     m_active_kind m' = m_active_kind m \<and> dk_jobs d' = dk_jobs d"
  "DeleteConnection E (m, d) i expected = ((m', d'), r3) \<Longrightarrow>
     m_jobs m' = m_jobs m \<and> m_running m' = m_running m \<and> m_active_id m' = m_active_id m \<and>
     m_active_kind m' = m_active_kind m \<and> dk_jobs d' = dk_jobs d"
    apply (auto simp: Save_def Let_def split: option.splits if_splits)[1]
   apply (auto simp: SaveConnection_def commit_connections_def Let_def split: option.splits if_splits)[1]
  apply (auto simp: DeleteConnection_def commit_connections_def Let_def split: option.splits if_splits)[1]
  done

lemma policy_step_inv:
  assumes "bk_inv (m, d, w)" "m_jobs m' = m_jobs m \<and> m_running m' = m_running m \<and> m_active_id m' = m_active_id m \<and>
     m_active_kind m' = m_active_kind m \<and> dk_jobs d' = dk_jobs d"
  shows "bk_inv (m', d', w)"
  using assms manager_ok_cong [of m' m] by (auto simp: bk_inv_def durable_ok_def)

lemma new_job_fields [simp]:
  "j_id (new_job m now i req) = i" "j_kind (new_job m now i req) = rr_kind req"
  "j_status (new_job m now i req) = JobStatusRunning" "\<not> j_orphan_suspected (new_job m now i req)"
  "j_destinations (new_job m now i req) = []"
  by (simp_all add: new_job_def Let_def)

lemma new_job_ok:
  assumes "IsValidJobID i" "request_ok req" "rr_kind req \<in> {''data'', ''logs''}"
  shows "job_ok (new_job m now i req)" "marshalled (new_job m now i req)"
proof -
  have "requester_ok (new_job m now i req)"
    using assms by (cases "rr_idempotency req") (auto simp: requester_ok_def new_job_def Let_def request_ok_def)
  moreover have "progress_ok (new_job m now i req)"
    by (simp add: progress_ok_def new_job_def Let_def)
  ultimately show "job_ok (new_job m now i req)" by (simp add: job_ok_iff)
  show "marshalled (new_job m now i req)" by (simp add: marshalled_def new_job_def Let_def)
qed

text \<open>A start that succeeds, in terms of what it did.\<close>

lemma StartJob_success:
  assumes "StartJob E gen (m, d) req = ((m', d'), Inr (j, x))"
  obtains i where "gen = Generated i" "\<not> m_running m" "rr_kind req \<in> {''data'', ''logs''}"
    "m_jobs m' = m_jobs m @ [new_job m (en_now E) i req]" "m_running m'" "m_active_id m' = i"
    "m_active_kind m' = rr_kind req" "x = \<lparr> w_job = i, w_kind = rr_kind req, w_policy = policyFor m (rr_kind req) \<rparr>"
    "dk_jobs d' = job_content (m_jobs m')" "idempotentHitLocked (m, d) req = None"
    "en_probe E \<noteq> LockHeld" "m_policies m' = m_policies m" "m_connections m' = m_connections m"
    "m_destinations m' = m_destinations m" "dk_state d' = dk_state d"
  using assms
  by (auto simp: StartJob_def commitJobsLocked_def Let_def split: if_splits option.splits prod.splits gen_result.splits)

lemma StartJob_failure:
  assumes "StartJob E gen c req = (c', Inl e)" shows "c' = c"
  using assms
  by (auto simp: StartJob_def commitJobsLocked_def Let_def split: if_splits option.splits prod.splits gen_result.splits)

lemma start_inv:
  assumes inv: "bk_inv (m, d, w)" and s: "StartJob E gen (m, d) req = ((m', d'), Inr (j, x))"
    and g: "gen_ok m gen" and r: "request_ok req"
  shows "bk_inv (m', d', Some x)"
proof (rule StartJob_success [OF s])
  fix i
  assume gi: "gen = Generated i" and nr: "\<not> m_running m" and k: "rr_kind req \<in> {''data'', ''logs''}"
    and js: "m_jobs m' = m_jobs m @ [new_job m (en_now E) i req]" and run: "m_running m'"
    and a: "m_active_id m' = i" "m_active_kind m' = rr_kind req"
    and x: "x = \<lparr> w_job = i, w_kind = rr_kind req, w_policy = policyFor m (rr_kind req) \<rparr>"
    and dk: "dk_jobs d' = job_content (m_jobs m')"
  have v: "IsValidJobID i" "i \<notin> j_id ` set (m_jobs m)" using g gi by (simp_all add: gen_ok_def)
  have h: "history_ok (m_jobs m)" "running_jobs (m_jobs m) = []" "length (m_jobs m) \<le> 200"
    using inv nr by (auto simp: bk_inv_def manager_ok_def flight_ok_def)
  have rj: "running_jobs (m_jobs m') = [new_job m (en_now E) i req]"
    using h(2) by (simp add: js running_jobs_def)
  have "history_ok (m_jobs m')"
    using h(1) v new_job_ok [OF v(1) r k] by (auto simp: js history_ok_def)
  then have ok: "manager_ok m'" using rj run a h(3) by (simp add: manager_ok_def flight_ok_def js)
  moreover have "worker_ok m' (Some x)" using rj run a by (simp add: worker_ok_def x)
  ultimately show ?thesis using durable_content [OF ok dk] by (simp add: bk_inv_def)
qed

text \<open>The index of a running job under single flight.\<close>

lemma active_index:
  assumes "manager_ok m" "i < length (m_jobs m)" "j_status (m_jobs m ! i) = JobStatusRunning"
  shows "running_jobs (m_jobs m) = [m_jobs m ! i]" "m_running m" "j_id (m_jobs m ! i) = m_active_id m"
    "j_kind (m_jobs m ! i) = m_active_kind m"
proof -
  have mem: "m_jobs m ! i \<in> set (running_jobs (m_jobs m))"
    using assms(2,3) by (simp add: running_jobs_def)
  then have run: "m_running m" using assms(1) by (auto simp: manager_ok_def flight_ok_def split: if_splits)
  then obtain j where j: "running_jobs (m_jobs m) = [j]" "j_id j = m_active_id m" "j_kind j = m_active_kind m"
    using assms(1) by (auto simp: manager_ok_def flight_ok_def)
  then have "j = m_jobs m ! i" using mem by simp
  then show "running_jobs (m_jobs m) = [m_jobs m ! i]" "m_running m" "j_id (m_jobs m ! i) = m_active_id m"
    "j_kind (m_jobs m ! i) = m_active_kind m" using j run by simp_all
qed

lemma history_nth:
  assumes "history_ok jobs" "i < length jobs"
  shows "job_ok (jobs ! i)" "marshalled (jobs ! i)" "IsValidJobID (j_id (jobs ! i))"
  using assms by (auto simp: history_ok_def list_all_length job_ok_iff requester_ok_def)

lemma CancelJob_cases:
  assumes "CancelJob E (m, d) i = ((m', d'), r)"
  shows "(m' = m \<and> d' = d) \<or> (\<exists>k. job_index m i = Some k \<and> j_status (m_jobs m ! k) = JobStatusRunning \<and>
      \<not> j_orphan_suspected (m_jobs m ! k) \<and> en_jobs_ok E \<and>
      m' = m\<lparr> m_jobs := (m_jobs m)[k := (m_jobs m ! k)\<lparr> j_cancel_requested_at := en_now E \<rparr>] \<rparr> \<and>
      d' = d\<lparr> dk_jobs := job_content (m_jobs m') \<rparr>)"
proof (cases "job_index m i")
  case None
  then show ?thesis using assms by (simp add: CancelJob_def split: if_splits)
next
  case (Some k)
  let ?j = "m_jobs m ! k"
  show ?thesis
  proof (cases "IsValidJobID i \<and> j_status ?j = JobStatusRunning \<and> \<not> j_orphan_suspected ?j \<and> en_jobs_ok E")
    case True
    then have "m' = m\<lparr> m_jobs := (m_jobs m)[k := ?j\<lparr> j_cancel_requested_at := en_now E \<rparr>] \<rparr>"
      "d' = d\<lparr> dk_jobs := job_content (m_jobs m') \<rparr>"
      using assms Some by (auto simp: CancelJob_def Let_def)
    then show ?thesis using True Some by blast
  next
    case False
    then have "(m', d') = (m, d)" using assms Some by (auto simp: CancelJob_def Let_def split: if_splits)
    then show ?thesis by simp
  qed
qed

lemma cancel_inv:
  assumes inv: "bk_inv (m, d, w)" and c: "CancelJob E (m, d) i = ((m', d'), r)"
  shows "bk_inv (m', d', w)"
proof (cases "m' = m \<and> d' = d")
  case True
  then show ?thesis using inv by simp
next
  case False
  then obtain k where k: "job_index m i = Some k" "j_status (m_jobs m ! k) = JobStatusRunning"
    and e: "m' = m\<lparr> m_jobs := (m_jobs m)[k := (m_jobs m ! k)\<lparr> j_cancel_requested_at := en_now E \<rparr>] \<rparr>"
      "d' = d\<lparr> dk_jobs := job_content (m_jobs m') \<rparr>"
    using CancelJob_cases [OF c] by blast
  have e2: "dk_jobs d' = job_content (m_jobs m')" by (subst e(2)) simp
  have kl: "k < length (m_jobs m)" using k(1) by (auto simp: job_index_def find_Some_iff)
  have ok: "manager_ok m" "worker_ok m w" using inv by (simp_all add: bk_inv_def)
  then have h: "history_ok (m_jobs m)" by (simp add: manager_ok_def)
  let ?j = "(m_jobs m ! k)\<lparr> j_cancel_requested_at := en_now E \<rparr>"
  note A = active_index [OF ok(1) kl k(2)]
  have jo: "job_ok ?j" "marshalled ?j" "j_id ?j = j_id (m_jobs m ! k)"
    using history_nth [OF h kl] requester_ok_core [of ?j "m_jobs m ! k"]
    by (simp_all add: job_ok_iff progress_update)
  have rj: "running_jobs (m_jobs m') = [?j]"
    using running_jobs_update [OF kl A(1) k(2), of ?j] k(2) by (simp add: e(1))
  have "manager_ok m'"
    using ok(1) A history_ok_update [OF h jo] rj by (auto simp: manager_ok_def flight_ok_def e(1))
  moreover have "worker_ok m' w"
    using ok(2) A rj by (cases w) (simp_all add: worker_ok_def e(1))
  ultimately show ?thesis using durable_content [OF _ e2] by (simp add: bk_inv_def)
qed

lemma job_index_Some: "job_index m i = Some k \<Longrightarrow> k < length (m_jobs m) \<and> j_id (m_jobs m ! k) = i"
  by (auto simp: job_index_def find_Some_iff)

lemma job_index_running:
  assumes "history_ok (m_jobs m)" "running_jobs (m_jobs m) = [j]"
  obtains k where "job_index m (j_id j) = Some k" "m_jobs m ! k = j" "k < length (m_jobs m)"
    "j_status j = JobStatusRunning"
proof -
  have j: "j \<in> set (m_jobs m)" "j_status j = JobStatusRunning"
    using assms(2) by (auto simp: running_jobs_def filter_eq_Cons_iff)
  then have "job_index m (j_id j) \<noteq> None"
    by (auto simp: job_index_def find_None_iff in_set_conv_nth)
  then obtain k where k: "job_index m (j_id j) = Some k" by blast
  note K = job_index_Some [OF k]
  have "distinct (map j_id (m_jobs m))" using assms(1) by (simp add: history_ok_def)
  then have "m_jobs m ! k = j"
    using K j(1) by (auto simp: distinct_map dest: inj_onD)
  then show thesis using that k K j(2) by blast
qed

lemma execute_inv:
  assumes inv: "bk_inv (m, d, Some x)" and s: "is_sort (lb_sort L)" and r: "execute L E (m, d) x out err re = (m', d')"
  shows "bk_inv (m', d', None)"
proof -
  have ok: "manager_ok m" "worker_ok m (Some x)" "durable_ok m d" using inv by (simp_all add: bk_inv_def)
  then have h: "history_ok (m_jobs m)" and run: "m_running m" and a: "m_active_id m = w_job x"
    by (simp_all add: manager_ok_def worker_ok_def)
  obtain j where j: "running_jobs (m_jobs m) = [j]" "j_id j = w_job x"
    using ok(1) run a by (auto simp: manager_ok_def flight_ok_def)
  obtain k where k: "job_index m (w_job x) = Some k" "m_jobs m ! k = j" "k < length (m_jobs m)" "j_status j = JobStatusRunning"
    using job_index_running [OF h j(1)] j(2) by metis
  have je: "j_destinations j = []" using ok(2) j(1) by (simp add: worker_ok_def)
  let ?m0 = "m\<lparr> m_running := False \<rparr>"
  let ?ev = "worker_evidence L (?m0, d) out j"
  let ?man = "findMatchingManifest (lb_manifest L) (m_root m) (dk_tree d) (w_kind x) (w_job x) (m_instance_id m)"
  obtain j' code where st: "settle_run j (en_now E) err re ?ev ?man = (j', code)" by fastforce
  have evs: "case ?ev of None \<Rightarrow> True | Some wr \<Rightarrow> result_ok wr" "case ?man of None \<Rightarrow> True | Some mf \<Rightarrow> manifest_ok mf"
    using worker_evidence_ok found_manifest_ok by (auto split: option.splits)
  have jok: "job_ok j" "marshalled j" using history_nth [OF h k(3)] k(2) by simp_all
  note S = settle_run_ok [OF st jok je evs]
  obtain sts where e: "execute L E (m, d) x out err re =
    persistStateLocked E (persistJobsLocked E (pruneLocked L
      (m\<lparr> m_running := False, m_jobs := (m_jobs m)[k := j'], m_states := sts, m_active_id := '''', m_active_kind := '''' \<rparr>)
      (en_now E), d))"
    using k(1,2) a by (simp add: execute_def Let_def job_index_def [of ?m0] job_index_def [of m, symmetric] st)
  let ?m1 = "m\<lparr> m_running := False, m_jobs := (m_jobs m)[k := j'], m_states := sts, m_active_id := '''', m_active_kind := '''' \<rparr>"
  have h1: "history_ok (m_jobs ?m1)"
    using history_ok_update [OF h S(1,2), of k] job_core_eqD(1) [OF S(3)] k(2) by simp
  have "j_status j' \<noteq> JobStatusRunning" using S(4) by (auto simp: final_statuses_def)
  then have r1: "running_jobs (m_jobs ?m1) = []"
    using running_jobs_update [OF k(3), of j'] j(1) k(2,4) by simp
  have "length (running_jobs (m_jobs ?m1)) \<le> 1" unfolding r1 by simp
  note P = pruneLocked_props [OF h1 s this, of "en_now E"]
  let ?m2 = "pruneLocked L ?m1 (en_now E)"
  have ok2: "manager_ok ?m2" "worker_ok ?m2 None" using P r1 by (simp_all add: manager_ok_def flight_ok_def worker_ok_def)
  have "loadJobFile (dk_jobs d) \<noteq> None \<and> durable_ok ?m2 d" using ok(3) by (auto simp: durable_ok_def)
  then have du: "durable_ok ?m2 d" by simp
  obtain m3 d3 where p: "persistJobsLocked E (?m2, d) = (m3, d3)" by fastforce
  note J = persistJobs_ok [OF ok2 du p]
  have "persistStateLocked E (m3, d3) = (m', d')" using r e p by simp
  from persistState_ok [OF this] J show ?thesis by (simp add: bk_inv_def)
qed

lemma tick_inv:
  assumes "bk_inv (m, d, w)" "tick_check E (m, d) = ((m', d'), due)"
  shows "bk_inv (m', d', w)"
proof (cases "\<not> m_running m \<and> m_job_dirty m")
  case True
  then have p: "persistJobsLocked E (m, d) = (m', d')" using assms(2) by (simp add: tick_check_def Let_def)
  have "manager_ok m" "worker_ok m w" "durable_ok m d" using assms(1) by (simp_all add: bk_inv_def)
  from persistJobs_ok [OF this p] show ?thesis by (simp add: bk_inv_def)
next
  case False
  then show ?thesis using assms by (auto simp: tick_check_def Let_def split: if_splits)
qed

subsection \<open>Reconciling one record\<close>

lemma reconcile_step:
  assumes r: "reconcileJobLocked L E (m, d) i own = (m', dec)"
    and i: "i < length (m_jobs m)" "j_status (m_jobs m ! i) = JobStatusRunning" and h: "history_ok (m_jobs m)"
  obtains j where "m_jobs m' = (m_jobs m)[i := j]" "job_ok j" "marshalled j" "job_core j = job_core (m_jobs m ! i)"
    "dec = DecisionOrphanSuspected \<longleftrightarrow> own \<and> en_probe E \<in> {LockHeld, ProbeFailed}"
    "dec = DecisionOrphanSuspected \<Longrightarrow> j_status j = JobStatusRunning \<and> j_orphan_suspected j \<and>
       m_running m' \<and> m_active_id m' = j_id j \<and> m_active_kind m' = j_kind j"
    "dec \<noteq> DecisionOrphanSuspected \<Longrightarrow> j_status j \<in> final_statuses \<and> \<not> j_orphan_suspected j \<and>
       (if m_active_id m = j_id j then \<not> m_running m' \<and> m_active_id m' = '''' \<and> m_active_kind m' = ''''
        else m_running m' = m_running m \<and> m_active_id m' = m_active_id m \<and> m_active_kind m' = m_active_kind m)"
    "m_policies m' = m_policies m" "m_connections m' = m_connections m" "m_destinations m' = m_destinations m"
    "m_job_dirty m' = m_job_dirty m"
proof -
  let ?r = "m_jobs m ! i" and ?ev = "gather_evidence L E (m, d) (m_jobs m ! i) own"
  obtain j dec' where rec: "ReconcileEvidence (Some ?r) ?ev (en_now E) = (Some j, dec')" using reconcile_total by blast
  have de: "dec' = dec" using r rec by (auto simp: reconcileJobLocked_def Let_def split: if_splits)
  have ok: "job_ok ?r" "marshalled ?r" using history_nth [OF h i(1)] by simp_all
  note O = reconcile_ok [OF rec gather_evidence_ok ok] and C = reconcile_core(1) [OF rec]
  have d: "dec = DecisionOrphanSuspected \<longleftrightarrow> own \<and> en_probe E \<in> {LockHeld, ProbeFailed}"
    using reconcile_decision [OF rec] i(2) de gather_evidence_lock [of L E "(m, d)" ?r own] by simp
  show thesis
  proof (cases "dec = DecisionOrphanSuspected")
    case True
    then have "ev_lock_held ?ev \<or> ev_probe_error ?ev" using reconcile_decision [OF rec] de by simp
    note H = reconcile_held [OF i(2) this rec]
    have m': "m' = m\<lparr> m_jobs := (m_jobs m)[i := j], m_running := True, m_active_id := j_id j,
        m_active_kind := j_kind j, m_states := m_states m' \<rparr>"
      using r rec True de by (auto simp: reconcileJobLocked_def Let_def)
    show thesis by (rule that [OF _ O C d]) (use H True in \<open>subst m', simp\<close>)+
  next
    case False
    then have "\<not> (ev_lock_held ?ev \<or> ev_probe_error ?ev)" using reconcile_decision [OF rec] de i(2) by simp
    note H = reconcile_free [OF i(2) this rec]
    have m': "m_jobs m' = (m_jobs m)[i := j]" "m_policies m' = m_policies m" "m_connections m' = m_connections m"
      "m_destinations m' = m_destinations m" "m_job_dirty m' = m_job_dirty m"
      "if m_active_id m = j_id j then \<not> m_running m' \<and> m_active_id m' = '''' \<and> m_active_kind m' = ''''
        else m_running m' = m_running m \<and> m_active_id m' = m_active_id m \<and> m_active_kind m' = m_active_kind m"
      using r rec False de by (auto simp: reconcileJobLocked_def Let_def split: if_splits)
    show thesis by (rule that [OF m'(1) O C d]) (use H False m' in \<open>auto simp: final_statuses_def\<close>)
  qed
qed

lemma orphan_index:
  assumes "activeOrphanLocked m = Some i"
  shows "i < length (m_jobs m)" "j_status (m_jobs m ! i) = JobStatusRunning" "j_orphan_suspected (m_jobs m ! i)"
    "j_id (m_jobs m ! i) = m_active_id m" "m_running m"
  using assms by (auto simp: activeOrphanLocked_def find_Some_iff split: if_splits)

lemma orphan_inv:
  assumes inv: "bk_inv (m, d, w)" and s: "is_sort (lb_sort L)" and r: "orphanStep L E (m, d) = ((m', d'), delay, again)"
  shows "bk_inv (m', d', w)"
proof (cases "activeOrphanLocked m")
  case None
  then show ?thesis using r inv by (simp add: orphanStep_def)
next
  case (Some i)
  note I = orphan_index [OF Some]
  have ok: "manager_ok m" "worker_ok m w" "durable_ok m d" using inv by (simp_all add: bk_inv_def)
  then have h: "history_ok (m_jobs m)" by (simp add: manager_ok_def)
  note A = active_index [OF ok(1) I(1,2)]
  have wN: "w = None" using ok(2) A(1) I(3) by (auto simp: worker_ok_def split: option.splits)
  obtain m1 dec where rc: "reconcileJobLocked L E (m, d) i True = (m1, dec)" by fastforce
  obtain j where J: "m_jobs m1 = (m_jobs m)[i := j]" "job_ok j" "marshalled j" "job_core j = job_core (m_jobs m ! i)"
    "dec = DecisionOrphanSuspected \<Longrightarrow> j_status j = JobStatusRunning \<and> j_orphan_suspected j \<and>
       m_running m1 \<and> m_active_id m1 = j_id j \<and> m_active_kind m1 = j_kind j"
    "dec \<noteq> DecisionOrphanSuspected \<Longrightarrow> j_status j \<in> final_statuses \<and> \<not> j_orphan_suspected j \<and>
       (if m_active_id m = j_id j then \<not> m_running m1 \<and> m_active_id m1 = '''' \<and> m_active_kind m1 = ''''
        else m_running m1 = m_running m \<and> m_active_id m1 = m_active_id m \<and> m_active_kind m1 = m_active_kind m)"
    by (rule reconcile_step [OF rc I(1,2) h]) blast
  have ids: "j_id j = m_active_id m" "j_kind j = m_active_kind m" using job_core_eqD(1,2) [OF J(4)] A(3,4) by simp_all
  have h1: "history_ok (m_jobs m1)" using history_ok_update [OF h J(2,3)] job_core_eqD(1) [OF J(4)] by (simp add: J(1))
  have rj: "running_jobs (m_jobs m1) = (if j_status j = JobStatusRunning then [j] else [])"
    using running_jobs_update [OF I(1) A(1) I(2)] by (simp add: J(1))
  show ?thesis
  proof (cases "dec = DecisionOrphanSuspected")
    case True
    note JO = J(5) [OF True]
    have ok1: "manager_ok m1" "worker_ok m1 None"
      using ok(1) h1 rj JO I(5) by (auto simp: manager_ok_def flight_ok_def worker_ok_def J(1))
    have du: "durable_ok m1 d" using ok(3) JO ids I(5) by (simp add: durable_ok_def)
    define c2 where "c2 = (if j_orphan_reason (m_jobs m1 ! i) \<noteq> j_orphan_reason (m_jobs m ! i)
       then persistJobsLocked E (m1, d) else (m1, d))"
    obtain m2 d2 where c2: "c2 = (m2, d2)" by fastforce
    have ok2: "manager_ok m2" "worker_ok m2 None" "durable_ok m2 d2"
      using persistJobs_ok [OF ok1 du, of E m2 d2] ok1 du c2 by (auto simp: c2_def split: if_splits)
    have "m' = m2\<lparr> m_orphan_delay := delay \<rparr> \<and> d' = d2"
      using r True Some rc c2
      by (cases "j_orphan_reason (m_jobs m1 ! i) \<noteq> j_orphan_reason (m_jobs m ! i)")
        (auto simp: orphanStep_def Let_def c2_def)
    then show ?thesis using ok2 manager_ok_cong [of m' m2] wN by (simp add: bk_inv_def)
  next
    case False
    note JF = J(6) [OF False]
    let ?m1 = "m1\<lparr> m_orphan_delay := 0 \<rparr>"
    have r1: "running_jobs (m_jobs ?m1) = []" using rj JF by (auto simp: final_statuses_def)
    have h1': "history_ok (m_jobs ?m1)" using h1 by simp
    have "length (running_jobs (m_jobs ?m1)) \<le> 1" unfolding r1 by simp
    note P = pruneLocked_props [OF h1' s this, of "en_now E"]
    let ?m2 = "pruneLocked L ?m1 (en_now E)"
    have nr: "\<not> m_running m1" "m_active_id m1 = ''''" "m_active_kind m1 = ''''" using JF ids by simp_all
    have ok2: "manager_ok ?m2" "worker_ok ?m2 None" using P r1 nr by (simp_all add: manager_ok_def flight_ok_def worker_ok_def)
    have du: "durable_ok ?m2 d" using ok(3) nr by (auto simp: durable_ok_def)
    obtain m3 d3 where p: "persistJobsLocked E (?m2, d) = (m3, d3)" by fastforce
    note PJ = persistJobs_ok [OF ok2 du p]
    have "persistStateLocked E (m3, d3) = (m', d')"
      using r False Some rc p by (simp add: orphanStep_def Let_def)
    from persistState_ok [OF this] PJ show ?thesis using wN by (simp add: bk_inv_def)
  qed
qed

subsection \<open>Restart\<close>

definition idle_ok :: "manager \<Rightarrow> bool" where
  "idle_ok m \<longleftrightarrow> history_ok (m_jobs m) \<and> \<not> m_running m \<and> m_active_id m = '''' \<and> m_active_kind m = ''''"

text \<open>What a restart keeps of the configuration.\<close>

definition same_config :: "manager \<Rightarrow> manager \<Rightarrow> bool" where
  "same_config m m' \<longleftrightarrow> m_policies m' = m_policies m \<and> m_connections m' = m_connections m \<and>
     m_destinations m' = m_destinations m"

lemma running_indices_iff: "i \<in> set (running_indices jobs) \<longleftrightarrow> i < length jobs \<and> j_status (jobs ! i) = JobStatusRunning"
  by (auto simp: running_indices_def)

lemma running_indices_distinct [simp]: "distinct (running_indices jobs)"
  by (simp add: running_indices_def)

lemma map_id_update: "j_id j = j_id (jobs ! i) \<Longrightarrow> map j_id (jobs[i := j]) = map j_id jobs"
  by (simp add: map_update list_update_same_conv) (metis list_update_beyond list_update_id map_update not_less)

lemma settle_one:
  assumes k: "idle_ok m" and i: "running_indices (m_jobs m) = i # rest" and c: "reconcile_at L E lr i (m, d) = (m', d')"
    and l: "lr \<noteq> Some i"
  shows "idle_ok m'" "running_indices (m_jobs m') = rest" "map j_id (m_jobs m') = map j_id (m_jobs m)"
    "d' = d" "same_config m m'"
proof -
  have ii: "i < length (m_jobs m)" "j_status (m_jobs m ! i) = JobStatusRunning" "i \<notin> set rest"
    using i running_indices_iff [of i "m_jobs m"] running_indices_distinct [of "m_jobs m"] by auto
  have h: "history_ok (m_jobs m)" using k by (simp add: idle_ok_def)
  obtain dec where r: "reconcileJobLocked L E (m, d) i False = (m', dec)"
    using c l by (auto simp: reconcile_at_def) (metis prod.collapse)
  obtain j where J: "m_jobs m' = (m_jobs m)[i := j]" "job_ok j" "marshalled j" "job_core j = job_core (m_jobs m ! i)"
    "dec \<noteq> DecisionOrphanSuspected"
    "j_status j \<in> final_statuses \<and> \<not> j_orphan_suspected j \<and>
       (if m_active_id m = j_id j then \<not> m_running m' \<and> m_active_id m' = '''' \<and> m_active_kind m' = ''''
        else m_running m' = m_running m \<and> m_active_id m' = m_active_id m \<and> m_active_kind m' = m_active_kind m)"
    "same_config m m'"
    by (rule reconcile_step [OF r ii(1,2) h]) (simp add: same_config_def)
  have ids: "j_id j = j_id (m_jobs m ! i)" using job_core_eqD(1) [OF J(4)] .
  show "idle_ok m'"
    using k J(6) history_ok_update [OF h J(2,3) ids] by (auto simp: idle_ok_def J(1) split: if_splits)
  have "j_status j \<noteq> JobStatusRunning" using J(6) by (auto simp: final_statuses_def)
  then have "running_indices (m_jobs m') = filter (\<lambda>k. k \<noteq> i) (i # rest)"
    using running_indices_update [OF ii(1,2), of j] i by (simp add: J(1))
  also have "\<dots> = rest" using ii(3) by (simp add: filter_id_conv) auto
  finally show "running_indices (m_jobs m') = rest" .
  show "map j_id (m_jobs m') = map j_id (m_jobs m)" unfolding J(1) by (rule map_id_update [OF ids])
  show "d' = d" using c by (simp add: reconcile_at_def)
  show "same_config m m'" by (rule J(7))
qed

lemma settle_all:
  assumes "idle_ok m" "running_indices (m_jobs m) = idx @ rest" "lr \<notin> Some ` set idx"
    "fold (reconcile_at L E lr) idx (m, d) = (m', d')"
  shows "idle_ok m' \<and> running_indices (m_jobs m') = rest \<and> map j_id (m_jobs m') = map j_id (m_jobs m) \<and>
    d' = d \<and> same_config m m'"
  using assms
proof (induction idx arbitrary: m)
  case Nil
  then show ?case by (simp add: same_config_def)
next
  case (Cons i idx)
  obtain m1 d1 where c: "reconcile_at L E lr i (m, d) = (m1, d1)" by fastforce
  have "running_indices (m_jobs m) = i # (idx @ rest)" "lr \<noteq> Some i" using Cons.prems(2,3) by auto
  note S = settle_one [OF Cons.prems(1) this(1) c this(2)]
  have "lr \<notin> Some ` set idx" "fold (reconcile_at L E lr) idx (m1, d) = (m', d')"
    using Cons.prems(3,4) c S(4) by auto
  from Cons.IH [OF S(1,2) this] S(3,5) show ?case by (simp add: same_config_def)
qed

text \<open>The last running record is settled, or stays suspected.\<close>

lemma settle_last:
  assumes k: "idle_ok m" and i: "running_indices (m_jobs m) = [i]" and c: "reconcile_at L E (Some i) i (m, d) = (m', d')"
  shows "history_ok (m_jobs m')" "flight_ok m'" "worker_ok m' None" "map j_id (m_jobs m') = map j_id (m_jobs m)"
    "d' = d" "same_config m m'" "m_running m' \<Longrightarrow> m_active_id m' = j_id (m_jobs m ! i)"
proof -
  have ii: "i < length (m_jobs m)" "j_status (m_jobs m ! i) = JobStatusRunning"
    using i running_indices_iff [of i "m_jobs m"] by auto
  have h: "history_ok (m_jobs m)" using k by (simp add: idle_ok_def)
  obtain dec where r: "reconcileJobLocked L E (m, d) i True = (m', dec)"
    using c by (auto simp: reconcile_at_def) (metis prod.collapse)
  obtain j where J: "m_jobs m' = (m_jobs m)[i := j]" "job_ok j" "marshalled j" "job_core j = job_core (m_jobs m ! i)"
    "dec = DecisionOrphanSuspected \<Longrightarrow> j_status j = JobStatusRunning \<and> j_orphan_suspected j \<and>
       m_running m' \<and> m_active_id m' = j_id j \<and> m_active_kind m' = j_kind j"
    "dec \<noteq> DecisionOrphanSuspected \<Longrightarrow> j_status j \<in> final_statuses \<and> \<not> j_orphan_suspected j \<and>
       (if m_active_id m = j_id j then \<not> m_running m' \<and> m_active_id m' = '''' \<and> m_active_kind m' = ''''
        else m_running m' = m_running m \<and> m_active_id m' = m_active_id m \<and> m_active_kind m' = m_active_kind m)"
    "same_config m m'"
    by (rule reconcile_step [OF r ii(1,2) h]) (simp add: same_config_def)
  have ids: "j_id j = j_id (m_jobs m ! i)" using job_core_eqD(1) [OF J(4)] .
  have "running_jobs (m_jobs m) = [m_jobs m ! i]" by (simp add: running_jobs_indices i)
  then have rj: "running_jobs (m_jobs m') = (if j_status j = JobStatusRunning then [j] else [])"
    using running_jobs_update [OF ii(1) _ ii(2)] by (simp add: J(1))
  show "history_ok (m_jobs m')" using history_ok_update [OF h J(2,3) ids] by (simp add: J(1))
  show "flight_ok m'" "worker_ok m' None" "m_running m' \<Longrightarrow> m_active_id m' = j_id (m_jobs m ! i)"
    using J(5,6) k rj ids
    by (cases "dec = DecisionOrphanSuspected"; auto simp: flight_ok_def worker_ok_def idle_ok_def final_statuses_def split: if_splits)+
  show "map j_id (m_jobs m') = map j_id (m_jobs m)" unfolding J(1) by (rule map_id_update [OF ids])
  show "d' = d" using c by (simp add: reconcile_at_def)
  show "same_config m m'" by (rule J(7))
qed

lemma settle_running:
  assumes k: "idle_ok m"
    and lr: "lr = (if running_indices (m_jobs m) = [] then None else Some (last (running_indices (m_jobs m))))"
    and f: "fold (reconcile_at L E lr) (running_indices (m_jobs m)) (m, d) = (m', d')"
  shows "history_ok (m_jobs m') \<and> flight_ok m' \<and> worker_ok m' None \<and> d' = d \<and> same_config m m' \<and>
    (m_running m' \<longrightarrow> m_active_id m' \<in> j_id ` set (running_jobs (m_jobs m)))"
proof (cases "running_indices (m_jobs m)" rule: rev_cases)
  case Nil
  then have r: "running_jobs (m_jobs m) = []" by (simp add: running_jobs_indices)
  have "m' = m" "d' = d" using f Nil by simp_all
  then show ?thesis using k r by (simp add: idle_ok_def flight_ok_def worker_ok_def same_config_def)
next
  case (snoc idx i)
  obtain m1 d1 where c: "fold (reconcile_at L E lr) idx (m, d) = (m1, d1)" by fastforce
  have "lr = Some i" using lr snoc by simp
  moreover have "i \<notin> set idx" using running_indices_distinct [of "m_jobs m"] snoc by simp
  ultimately have "lr \<notin> Some ` set idx" by auto
  note A = settle_all [OF k snoc this c]
  have l: "reconcile_at L E (Some i) i (m1, d) = (m', d')" using f snoc c A \<open>lr = Some i\<close> by simp
  have k1: "idle_ok m1" "running_indices (m_jobs m1) = [i]" using A by simp_all
  note B = settle_last [OF k1 l]
  have i: "i < length (m_jobs m)" "j_status (m_jobs m ! i) = JobStatusRunning"
    using snoc running_indices_iff [of i "m_jobs m"] by auto
  have "length (m_jobs m1) = length (m_jobs m)" using A by (metis length_map)
  then have "j_id (m_jobs m1 ! i) = j_id (m_jobs m ! i)" using A i(1) by (metis nth_map)
  then have "m_running m' \<longrightarrow> m_active_id m' \<in> j_id ` set (running_jobs (m_jobs m))"
    using B(7) i by (auto simp: running_jobs_def)
  then show ?thesis using A B by (simp add: same_config_def)
qed

lemma restoreStates_fields [simp]:
  "m_jobs (restoreStatesLocked m) = m_jobs m" "m_running (restoreStatesLocked m) = m_running m"
  "m_active_id (restoreStatesLocked m) = m_active_id m" "m_active_kind (restoreStatesLocked m) = m_active_kind m"
  "m_policies (restoreStatesLocked m) = m_policies m" "m_connections (restoreStatesLocked m) = m_connections m"
  "m_destinations (restoreStatesLocked m) = m_destinations m"
  by (simp_all add: restoreStatesLocked_def restore_kind_def Let_def split: option.splits)

lemma startup_inv:
  assumes k: "idle_ok m" and s: "is_sort (lb_sort L)" and du: "loadJobFile (dk_jobs d) = Some (m_jobs m, False)"
    and r: "startupLocked L E (m, d) = (m', d')"
  shows "bk_inv (m', d', None)" "same_config m m'"
proof -
  let ?m1 = "restoreStatesLocked m" and ?idx = "running_indices (m_jobs m)"
  let ?lr = "if ?idx = [] then None else Some (last ?idx)"
  obtain m2 d2 where f: "fold (reconcile_at L E ?lr) ?idx (?m1, d) = (m2, d2)" by fastforce
  have k1: "idle_ok ?m1" using k by (simp add: idle_ok_def)
  have A: "history_ok (m_jobs m2)" "flight_ok m2" "worker_ok m2 None" "d2 = d" "same_config ?m1 m2"
    "m_running m2 \<longrightarrow> m_active_id m2 \<in> j_id ` set (running_jobs (m_jobs m))"
    using settle_running [OF k1, unfolded restoreStates_fields, OF refl f] by blast+
  define m3 where "m3 = (if ?lr = None \<and> \<not> m_running m2
     then m2\<lparr> m_states := interrupted_states (m_states m2) \<rparr> else m2)"
  have e3: "m_jobs m3 = m_jobs m2" "m_running m3 = m_running m2" "m_active_id m3 = m_active_id m2"
    "m_active_kind m3 = m_active_kind m2" "same_config m2 m3"
    by (simp_all add: m3_def same_config_def)
  have h3: "history_ok (m_jobs m3)" "length (running_jobs (m_jobs m3)) \<le> 1"
    using A(1) flight_length [OF A(2)] by (simp_all add: e3)
  define m4 where "m4 = pruneLocked L m3 (en_now E)"
  note P = pruneLocked_props [OF h3(1) s h3(2), of "en_now E", folded m4_def]
  have e4: "m_running m4 = m_running m2" "m_active_id m4 = m_active_id m2" "m_active_kind m4 = m_active_kind m2"
    "same_config m3 m4"
    by (simp_all add: m4_def e3 same_config_def)
  have ok4: "manager_ok m4" "worker_ok m4 None"
    using A(2,3) P e3 e4 by (simp_all add: manager_ok_def flight_ok_def worker_ok_def)
  have du4: "durable_ok m4 d" using A(6) du by (auto simp: durable_ok_def e4)
  define c5 where "c5 = (if ?idx \<noteq> [] \<or> length (m_jobs m4) \<noteq> length (m_jobs m) \<or> m_job_dirty m4
     then persistJobsLocked E (m4, d) else (m4, d))"
  obtain m5 d5 where c5: "c5 = (m5, d5)" by fastforce
  have pc: "same_config m4 m'" if "persistJobsLocked E (m4, d) = (m', d')" for m' d'
    using that by (auto simp: persistJobsLocked_def commitJobsLocked_def same_config_def split: if_splits)
  have ok5: "manager_ok m5" "worker_ok m5 None" "durable_ok m5 d5" "same_config m4 m5"
    using persistJobs_ok [OF ok4 du4, of E m5 d5] ok4 du4 c5 pc [of m5 d5]
    by (auto simp: c5_def same_config_def split: if_splits)
  have "(if m_states m \<noteq> m_states m5 then persistStateLocked E (m5, d5) else (m5, d5)) = (m', d')"
    using r unfolding startupLocked_def Let_def fst_conv snd_conv restoreStates_fields f A(4)
      m3_def [symmetric] m4_def [symmetric] c5_def [symmetric] c5 .
  then have "m' = m5" "durable_ok m5 d' = durable_ok m5 d5"
    using persistState_ok [of E m5 d5 m' d'] by (auto split: if_splits)
  then show "bk_inv (m', d', None)" using ok5 by (simp add: bk_inv_def)
  have "same_config m ?m1" by (simp add: same_config_def)
  then show "same_config m m'" using A(5) e3(5) e4(4) ok5(4) \<open>m' = m5\<close> by (simp add: same_config_def)
qed

lemma newManager_cases:
  assumes "newManager L E paths operator d = Inr c"
  obtains cfg pol sts conns jobs d' seen loc where
    "operator = Some cfg" "check_destinations_config (oc_destinations cfg) [] False = Some (seen, loc)"
    "check_saved_connections (lb_text L) conns seen = None"
    "validate_policy (ps_data pol) (allDestinations (loaded_manager cfg pol sts conns jobs)) = None"
    "validate_policy (ps_logs pol) (allDestinations (loaded_manager cfg pol sts conns jobs)) = None"
    "loadJobFile (dk_jobs d') = Some (jobs, False)" "dk_state d' = dk_state d"
    "c = startupLocked L E (loaded_manager cfg pol sts conns jobs, d')"
    "dk_state d = SF_content pol sts conns \<or> dk_state d = SF_missing \<and> pol = defaultPolicies \<and> conns = []"
    "loadJobFile (dk_jobs d) = Some (jobs, dk_jobs d' \<noteq> dk_jobs d)"
proof -
  from assms obtain cfg pol sts conns jobs moved seen loc where a:
    "operator = Some cfg" "check_destinations_config (oc_destinations cfg) [] False = Some (seen, loc)"
    "check_saved_connections (lb_text L) conns seen = None"
    "validate_policy (ps_data pol) (allDestinations (loaded_manager cfg pol sts conns [])) = None"
    "validate_policy (ps_logs pol) (allDestinations (loaded_manager cfg pol sts conns [])) = None"
    "loadJobFile (dk_jobs d) = Some (jobs, moved)"
    "c = startupLocked L E (loaded_manager cfg pol sts conns jobs, if moved then d\<lparr> dk_jobs := JF_missing \<rparr> else d)"
    "dk_state d = SF_content pol sts conns \<or> dk_state d = SF_missing \<and> pol = defaultPolicies \<and> conns = []"
    by (auto simp: newManager_def Let_def split: if_splits option.splits state_file.splits prod.splits)
  have ad: "allDestinations (loaded_manager cfg pol sts conns jobs) = allDestinations (loaded_manager cfg pol sts conns [])"
    by (simp add: allDestinations_def loaded_manager_def)
  let ?d = "if moved then d\<lparr> dk_jobs := JF_missing \<rparr> else d"
  have mv: "moved \<Longrightarrow> jobs = []" "moved \<Longrightarrow> dk_jobs d \<noteq> JF_missing"
    using a(6) by (auto simp: loadJobFile_def split: job_file.splits if_splits)
  then have "loadJobFile (dk_jobs ?d) = Some (jobs, False)" "moved \<longleftrightarrow> dk_jobs ?d \<noteq> dk_jobs d"
    using a(6) by (auto simp: loadJobFile_def)
  then show thesis using that [where pol = pol and sts = sts and jobs = jobs and d' = ?d, OF a(1-3)] a(4-8) ad by simp
qed

lemma newManager_inv:
  assumes "newManager L E paths operator d = Inr (m', d')" "is_sort (lb_sort L)"
  shows "bk_inv (m', d', None)"
proof (rule newManager_cases [OF assms(1)])
  fix cfg pol sts conns jobs d1
  assume l: "loadJobFile (dk_jobs d1) = Some (jobs, False)"
    and c: "(m', d') = startupLocked L E (loaded_manager cfg pol sts conns jobs, d1)"
  let ?m = "loaded_manager cfg pol sts conns jobs"
  have k: "idle_ok ?m" using loaded_ok [OF l] by (simp add: idle_ok_def loaded_manager_def)
  have "loadJobFile (dk_jobs d1) = Some (m_jobs ?m, False)" using l by (simp add: loaded_manager_def)
  from startup_inv(1) [OF k assms(2) this c [symmetric]] show ?thesis .
qed

text \<open>The invariant holds after every step.\<close>

lemma bk_step_inv:
  assumes "bk_step L w w'" "bk_inv w" "is_sort (lb_sort L)"
  shows "bk_inv w'"
  using assms(1)
proof cases
  case (bk_start E gen m d req m' d' j x w)
  then show ?thesis using start_inv assms(2) by blast
next
  case (bk_refused E gen m d req m' d' e w)
  then show ?thesis using StartJob_failure assms(2) by blast
next
  case (bk_finish E m d x out err re m' d')
  then show ?thesis using execute_inv assms(2,3) by blast
next
  case (bk_cancel E m d i m' d' r w)
  then show ?thesis using cancel_inv assms(2) by blast
next
  case (bk_orphan E m d m' d' delay again w)
  then show ?thesis using orphan_inv assms(2,3) by blast
next
  case (bk_tick E m d m' d' due w)
  then show ?thesis using tick_inv assms(2) by blast
next
  case (bk_save E m d p expected m' d' r1 w)
  then show ?thesis using policy_step_inv [OF _ policy_steps_same(1)] assms(2) by blast
next
  case (bk_save_connection E m d c expected m' d' r2 w)
  then show ?thesis using policy_step_inv [OF _ policy_steps_same(2)] assms(2) by blast
next
  case (bk_delete_connection E m d i expected m' d' r3 w)
  then show ?thesis using policy_step_inv [OF _ policy_steps_same(3)] assms(2) by blast
next
  case (bk_files m d w tr)
  then show ?thesis using assms(2) by (simp add: bk_inv_def)
qed

lemma bk_reachable_inv:
  assumes "bk_reachable L w" "is_sort (lb_sort L)"
  shows "bk_inv w"
  using assms
proof (induction rule: bk_reachable.induct)
  case (bk_boot E paths cfg d m d')
  then show ?case using newManager_inv by blast
next
  case (bk_live w w')
  then show ?case using bk_step_inv by blast
qed

end
