(* ===== verification/BackupConfig.thy ===== *)
theory BackupConfig
  imports BackupSafety
begin

text \<open>
  Policies, connections and the state file of the backup manager: \<open>cfg_inv\<close> says that both policies
  and every connection are valid against the operator's destinations, and that the state file holds
  what is in memory. Every step keeps it, and a process boots into it.
\<close>

subsection \<open>Policies and connections\<close>

definition config_ok :: "text_lib \<Rightarrow> destination list \<Rightarrow> policies \<Rightarrow> connection list \<Rightarrow> bool" where
  "config_ok T ds pol conns \<longleftrightarrow>
     (let all = ds @ map (\<lambda>c. \<lparr> d_id = c_id c, d_name = c_name c, d_type = c_type c \<rparr>) conns
      in validate_policy (ps_data pol) all = None \<and> validate_policy (ps_logs pol) all = None \<and>
         list_all (\<lambda>c. validateConnection T c = None) conns \<and> distinct (map c_id conns) \<and>
         list_all (\<lambda>c. c_id c \<notin> d_id ` set ds) conns)"

text \<open>The state file holds what the manager has in memory, or was never written.\<close>

definition saved_ok :: "manager \<Rightarrow> disk \<Rightarrow> bool" where
  "saved_ok m d \<longleftrightarrow>
     (case dk_state d of
        SF_content pol sts conns \<Rightarrow> pol = m_policies m \<and> conns = m_connections m
      | SF_missing \<Rightarrow> m_policies m = defaultPolicies \<and> m_connections m = []
      | SF_bad \<Rightarrow> False)"

definition operator_ok :: "destination list \<Rightarrow> bool" where
  "operator_ok ds \<longleftrightarrow> (case check_destinations_config ds [] False of None \<Rightarrow> False | Some (seen, loc) \<Rightarrow> loc)"

definition cfg_inv :: "lib \<Rightarrow> control \<Rightarrow> bool" where
  "cfg_inv L c \<longleftrightarrow> (case c of (m, d) \<Rightarrow>
     operator_ok (m_destinations m) \<and> saved_ok m d \<and>
     config_ok (lb_text L) (m_destinations m) (m_policies m) (m_connections m))"

lemma allDestinations_eq:
  "allDestinations m = m_destinations m @ map (\<lambda>c. \<lparr> d_id = c_id c, d_name = c_name c, d_type = c_type c \<rparr>) (m_connections m)"
  by (simp add: allDestinations_def)

lemma check_destinations_seen:
  "check_destinations_config ds seen loc = Some (seen', loc') \<Longrightarrow> set seen' = d_id ` set ds \<union> set seen"
  by (induction ds seen loc rule: check_destinations_config.induct) (auto split: if_splits)

lemma check_saved_iff:
  "check_saved_connections T cs seen = None \<longleftrightarrow>
     list_all (\<lambda>c. validateConnection T c = None) cs \<and> distinct (map c_id cs) \<and> list_all (\<lambda>c. c_id c \<notin> set seen) cs"
proof (induction T cs seen rule: check_saved_connections.induct)
  case (2 T c cs seen)
  have "list_all (\<lambda>x. c_id x \<notin> set (c_id c # seen)) cs \<longleftrightarrow> c_id c \<notin> c_id ` set cs \<and> list_all (\<lambda>x. c_id x \<notin> set seen) cs"
    by (simp add: list_all_iff image_iff) metis
  then show ?case using 2 by (auto split: option.splits)
qed simp

lemma validate_policy_mono:
  "validate_policy p ds = None \<Longrightarrow> d_id ` set ds \<subseteq> d_id ` set ds' \<Longrightarrow> validate_policy p ds' = None"
  by (auto simp: validate_policy_iff)

text \<open>A step that leaves policies, connections and operator destinations alone, and writes the state
  file only with them.\<close>

definition cfg_same :: "control \<Rightarrow> control \<Rightarrow> bool" where
  "cfg_same c c' \<longleftrightarrow> same_config (fst c) (fst c') \<and>
     (dk_state (snd c') = dk_state (snd c) \<or>
      (\<exists>s. dk_state (snd c') = SF_content (m_policies (fst c)) s (m_connections (fst c))))"

lemma cfg_same_refl [simp]: "cfg_same c c"
  by (simp add: cfg_same_def same_config_def)

lemma cfg_same_trans: "cfg_same a b \<Longrightarrow> cfg_same b c \<Longrightarrow> cfg_same a c"
  by (auto simp: cfg_same_def same_config_def)

lemma cfg_same_inv: "cfg_same (m, d) (m', d') \<Longrightarrow> cfg_inv L (m, d) \<Longrightarrow> cfg_inv L (m', d')"
  by (auto simp: cfg_same_def same_config_def cfg_inv_def saved_ok_def split: state_file.splits)

lemma cfg_same_mem: "same_config m m' \<Longrightarrow> cfg_same (m, d) (m', d)"
  by (simp add: cfg_same_def)

lemma persistJobs_cfg: "cfg_same c (persistJobsLocked E c)"
  by (cases c) (simp add: persistJobsLocked_def commitJobsLocked_def cfg_same_def same_config_def)

lemma persistState_cfg: "cfg_same c (persistStateLocked E c)"
  by (cases c) (auto simp: persistStateLocked_def cfg_same_def same_config_def)

lemma prune_cfg: "same_config m (pruneLocked L m now)"
  by (simp add: same_config_def)

lemma reconcile_cfg: "same_config (fst c) (fst (reconcileJobLocked L E c i own))"
  by (auto simp: reconcileJobLocked_def Let_def same_config_def split: prod.splits)

lemma reconcile_at_cfg: "cfg_same c (reconcile_at L E lr i c)"
  using reconcile_cfg [of c L E i "lr = Some i"] by (auto simp: reconcile_at_def cfg_same_def)

lemma fold_cfg: "cfg_same c (fold (reconcile_at L E lr) is c)"
proof (induction "is" arbitrary: c)
  case (Cons i "is")
  have "cfg_same c (reconcile_at L E lr i c)" by (rule reconcile_at_cfg)
  from cfg_same_trans [OF this Cons.IH] show ?case by simp
qed simp

lemma if_cfg: "cfg_same c x \<Longrightarrow> cfg_same c y \<Longrightarrow> cfg_same c (if b then x else y)"
  by simp

lemma startup_cfg: "cfg_same c (startupLocked L E c)"
proof -
  obtain m d where c: "c = (m, d)" by fastforce
  have 1: "cfg_same c (restoreStatesLocked m, d)" by (simp add: c cfg_same_def same_config_def)
  have 2: "cfg_same c (fold (reconcile_at L E lr) is (restoreStatesLocked m, d))" for lr "is"
    by (rule cfg_same_trans [OF 1 fold_cfg])
  have 3: "cfg_same c (pruneLocked L (if b then (fst x)\<lparr> m_states := s \<rparr> else fst x) t, snd x)"
    if "cfg_same c x" for x b s t
    using that by (auto simp: cfg_same_def same_config_def)
  show ?thesis unfolding startupLocked_def Let_def c fst_conv snd_conv
    unfolding c [symmetric]
    by (intro if_cfg cfg_same_trans [OF _ persistState_cfg] cfg_same_trans [OF _ persistJobs_cfg] 3 2)
qed


lemma start_cfg: "StartJob E gen c req = (c', r) \<Longrightarrow> cfg_same c c'"
  by (cases c) (auto simp: StartJob_def commitJobsLocked_def Let_def cfg_same_def same_config_def
      split: if_splits option.splits prod.splits gen_result.splits)

lemma cancel_cfg: "CancelJob E c i = (c', r) \<Longrightarrow> cfg_same c c'"
  by (cases c) (auto simp: CancelJob_def Let_def cfg_same_def same_config_def split: if_splits option.splits)

lemma execute_cfg: "cfg_same c (execute L E c x out err re)"
proof -
  have 0: "cfg_same c (fst c\<lparr> m_running := False \<rparr>, snd c)" by (simp add: cfg_same_def same_config_def)
  have 1: "cfg_same c (pruneLocked L m t, snd c)" if "same_config (fst c) m" for m t
    using that by (simp add: cfg_same_def same_config_def)
  show ?thesis
    by (cases "job_index (fst c\<lparr> m_running := False \<rparr>) (w_job x)")
      (auto simp: execute_def Let_def 0 same_config_def split: prod.splits
        intro!: cfg_same_trans [OF _ persistState_cfg] cfg_same_trans [OF _ persistJobs_cfg] 1)
qed

lemma tick_cfg: "tick_check E c = (c', due) \<Longrightarrow> cfg_same c c'"
  using persistJobs_cfg [of c E] by (auto simp: tick_check_def Let_def split: if_splits)

lemma orphan_cfg: "orphanStep L E c = (c', delay, again) \<Longrightarrow> cfg_same c c'"
proof (cases "activeOrphanLocked (fst c)")
  case None
  then show "orphanStep L E c = (c', delay, again) \<Longrightarrow> cfg_same c c'" by (simp add: orphanStep_def)
next
  case (Some i)
  obtain m1 dec where r: "reconcileJobLocked L E c i True = (m1, dec)" by fastforce
  have 1: "cfg_same c (m1, snd c)" using reconcile_cfg [of c L E i True] r by (simp add: cfg_same_def)
  have 2: "cfg_same c (persistJobsLocked E (m1, snd c))" by (rule cfg_same_trans [OF 1 persistJobs_cfg])
  have d: "cfg_same c (fst x\<lparr> m_orphan_delay := t \<rparr>, snd x)" if "cfg_same c x" for x t
    using that by (simp add: cfg_same_def same_config_def)
  have 3: "cfg_same c (pruneLocked L (m1\<lparr> m_orphan_delay := 0 \<rparr>) t, snd c)" for t
    using 1 by (simp add: cfg_same_def same_config_def)
  have 4: "cfg_same c (persistStateLocked E (persistJobsLocked E (pruneLocked L (m1\<lparr> m_orphan_delay := 0 \<rparr>) t, snd c)))" for t
    by (rule cfg_same_trans [OF cfg_same_trans [OF 3 persistJobs_cfg] persistState_cfg])
  show "orphanStep L E c = (c', delay, again) \<Longrightarrow> cfg_same c c'"
    using d [OF 1] d [OF 2] 4 by (auto simp: orphanStep_def Some r Let_def split: if_splits)
qed

text \<open>The three operations that do change the configuration.\<close>

lemma Save_cfg:
  assumes "Save E (m, d) p expected = ((m', d'), r)" "cfg_inv L (m, d)"
  shows "cfg_inv L (m', d')"
  using assms
  by (auto simp: Save_def Let_def cfg_inv_def saved_ok_def config_ok_def allDestinations_eq split: option.splits if_splits)

lemma connection_change:
  assumes "cfg_inv L (m, d)" "commit_connections E (m, d) nxt = ((m', d'), r)"
    and "config_ok (lb_text L) (m_destinations m) (m_policies m) nxt"
  shows "cfg_inv L (m', d')"
  using assms
  by (auto simp: commit_connections_def Let_def cfg_inv_def saved_ok_def config_ok_def bump_def split: if_splits)

lemma conn_index_Some: "conn_index cs i = Some k \<Longrightarrow> k < length cs \<and> c_id (cs ! k) = i"
  by (auto simp: conn_index_def find_Some_iff)

lemma conn_index_None: "conn_index cs i = None \<Longrightarrow> i \<notin> c_id ` set cs"
  by (auto simp: conn_index_def find_None_iff in_set_conv_nth)

lemma policy_conns_mono:
  assumes "validate_policy p (ds @ map (\<lambda>c. \<lparr> d_id = c_id c, d_name = c_name c, d_type = c_type c \<rparr>) old) = None"
    and "c_id ` set old \<subseteq> c_id ` set new"
  shows "validate_policy p (ds @ map (\<lambda>c. \<lparr> d_id = c_id c, d_name = c_name c, d_type = c_type c \<rparr>) new) = None"
  by (rule validate_policy_mono [OF assms(1)]) (use assms(2) in \<open>auto simp: image_Un image_image\<close>)

lemma config_append:
  assumes "config_ok T ds pol old" "validateConnection T x = None" "c_id x \<notin> d_id ` set ds" "c_id x \<notin> c_id ` set old"
  shows "config_ok T ds pol (old @ [x])"
proof -
  have s: "c_id ` set old \<subseteq> c_id ` set (old @ [x])" by auto
  have "distinct (map c_id (old @ [x]))" using assms(1,4) by (simp add: config_ok_def Let_def)
  then show ?thesis using assms(1-3) policy_conns_mono [OF _ s] by (simp add: config_ok_def Let_def del: map_append)
qed

lemma config_update:
  assumes "config_ok T ds pol old" "validateConnection T x = None" "c_id x \<notin> d_id ` set ds" "conn_index old (c_id x) = Some k"
  shows "config_ok T ds pol (old[k := x])"
proof -
  note k = conn_index_Some [OF assms(4)]
  have ids: "map c_id (old[k := x]) = map c_id old" using k by (simp add: map_update list_update_same_conv)
  then have s: "c_id ` set (old[k := x]) = c_id ` set old" by (metis set_map)
  have "set (old[k := x]) \<subseteq> insert x (set old)" by (rule set_update_subset_insert)
  then have "list_all (\<lambda>c. validateConnection T c = None) (old[k := x])" "list_all (\<lambda>c. c_id c \<notin> d_id ` set ds) (old[k := x])"
    using assms(1-3) unfolding config_ok_def Let_def list_all_iff by blast+
  then show ?thesis using assms(1) policy_conns_mono [of _ ds old "old[k := x]"] ids s
    by (simp add: config_ok_def Let_def del: map_update)
qed

lemma SaveConnection_cfg:
  assumes s: "SaveConnection L E (m, d) c expected = ((m', d'), r)" and inv: "cfg_inv L (m, d)"
  shows "cfg_inv L (m', d')"
proof -
  let ?old = "m_connections m"
  have ok: "config_ok (lb_text L) (m_destinations m) (m_policies m) ?old" using inv by (simp add: cfg_inv_def)
  consider "m' = m" "d' = d"
  | nxt where "commit_connections E (m, d) nxt = ((m', d'), r)"
      "config_ok (lb_text L) (m_destinations m) (m_policies m) nxt"
  proof (cases "conn_index ?old (c_id c)")
    case None
    show thesis
    proof (cases "m' = m \<and> d' = d")
      case False
      then have v: "validateConnection (lb_text L) c = None" "c_id c \<notin> d_id ` set (m_destinations m)"
        "commit_connections E (m, d) (?old @ [c]) = ((m', d'), r)"
        using s None by (auto simp: SaveConnection_def Let_def list_ex_iff split: if_splits option.splits)
      show thesis by (rule that(2) [OF v(3) config_append [OF ok v(1,2) conn_index_None [OF None]]])
    qed (use that(1) in blast)
  next
    case (Some k)
    let ?x = "inheritSecrets (?old ! k) c"
    show thesis
    proof (cases "m' = m \<and> d' = d")
      case False
      then have v: "validateConnection (lb_text L) ?x = None" "c_id c \<notin> d_id ` set (m_destinations m)"
        "commit_connections E (m, d) (?old[k := ?x]) = ((m', d'), r)"
        using s Some by (auto simp: SaveConnection_def Let_def list_ex_iff split: if_splits option.splits)
      have "config_ok (lb_text L) (m_destinations m) (m_policies m) (?old[k := ?x])"
        using config_update [OF ok v(1)] v(2) Some by simp
      with v(3) show thesis by (rule that(2))
    qed (use that(1) in blast)
  qed
  then show ?thesis using connection_change inv by cases blast+
qed

lemma DeleteConnection_cfg:
  assumes s: "DeleteConnection E (m, d) i expected = ((m', d'), r)" and inv: "cfg_inv L (m, d)"
  shows "cfg_inv L (m', d')"
proof (cases "m' = m \<and> d' = d")
  case False
  let ?nxt = "filter (\<lambda>k. c_id k \<noteq> i) (m_connections m)"
  let ?D = "\<lambda>cs. m_destinations m @ map (\<lambda>c. \<lparr> d_id = c_id c, d_name = c_name c, d_type = c_type c \<rparr>) cs"
  have c: "commit_connections E (m, d) ?nxt = ((m', d'), r)"
    and free: "i \<notin> set (p_destinations (ps_data (m_policies m)))" "i \<notin> set (p_destinations (ps_logs (m_policies m)))"
    using s False by (auto simp: DeleteConnection_def Let_def split: if_splits)
  have ok: "config_ok (lb_text L) (m_destinations m) (m_policies m) (m_connections m)" using inv by (simp add: cfg_inv_def)
  have v: "validate_policy p (?D ?nxt) = None"
    if "validate_policy p (?D (m_connections m)) = None" "i \<notin> set (p_destinations p)" for p
    using that by (auto simp: validate_policy_iff image_Un image_image)
  have "config_ok (lb_text L) (m_destinations m) (m_policies m) ?nxt"
    using ok free v by (auto simp: config_ok_def Let_def list_all_iff distinct_map_filter)
  then show ?thesis using connection_change inv c by blast
qed (use inv in simp)

lemma bk_step_cfg:
  assumes "bk_step L (m, d, w) (m', d', w')" "cfg_inv L (m, d)"
  shows "cfg_inv L (m', d')"
  using assms(1)
proof cases
  case (bk_start E gen req j x)
  then show ?thesis using start_cfg cfg_same_inv assms(2) by blast
next
  case (bk_refused E gen req e)
  then show ?thesis using start_cfg cfg_same_inv assms(2) by blast
next
  case (bk_finish E x out err re)
  then show ?thesis using execute_cfg cfg_same_inv assms(2) by metis
next
  case (bk_cancel E i r)
  then show ?thesis using cancel_cfg cfg_same_inv assms(2) by blast
next
  case (bk_orphan E delay again)
  then show ?thesis using orphan_cfg cfg_same_inv assms(2) by blast
next
  case (bk_tick E due)
  then show ?thesis using tick_cfg cfg_same_inv assms(2) by blast
next
  case (bk_save E p expected r1)
  then show ?thesis using Save_cfg assms(2) by blast
next
  case (bk_save_connection E c expected r2)
  then show ?thesis using SaveConnection_cfg assms(2) by blast
next
  case (bk_delete_connection E i expected r3)
  then show ?thesis using DeleteConnection_cfg assms(2) by blast
next
  case (bk_files tr)
  then show ?thesis using assms(2) by (simp add: cfg_inv_def saved_ok_def)
qed

lemma boot_cfg:
  assumes "newManager L E paths operator d = Inr (m', d')"
  shows "cfg_inv L (m', d')"
proof (rule newManager_cases [OF assms])
  fix cfg pol sts conns jobs d1 seen loc
  let ?m = "loaded_manager cfg pol sts conns jobs"
  assume "operator = Some cfg" and cd: "check_destinations_config (oc_destinations cfg) [] False = Some (seen, loc)"
    and sc: "check_saved_connections (lb_text L) conns seen = None"
    and p: "validate_policy (ps_data pol) (allDestinations ?m) = None" "validate_policy (ps_logs pol) (allDestinations ?m) = None"
    and st: "dk_state d1 = dk_state d" and c: "(m', d') = startupLocked L E (?m, d1)"
    and sf: "dk_state d = SF_content pol sts conns \<or> dk_state d = SF_missing \<and> pol = defaultPolicies \<and> conns = []"
  have "loc" using assms cd \<open>operator = Some cfg\<close> by (auto simp: newManager_def split: if_splits)
  moreover have "set seen = d_id ` set (oc_destinations cfg)" using check_destinations_seen [OF cd] by simp
  ultimately have "cfg_inv L (?m, d1)"
    using cd sc p sf st
    by (auto simp: cfg_inv_def operator_ok_def config_ok_def saved_ok_def loaded_manager_def allDestinations_eq check_saved_iff)
  moreover have "cfg_same (?m, d1) (m', d')" using startup_cfg [of "(?m, d1)" L E] c by simp
  ultimately show ?thesis using cfg_same_inv by blast
qed

lemma bk_reachable_cfg: "bk_reachable L w \<Longrightarrow> cfg_inv L (fst w, fst (snd w))"
proof (induction rule: bk_reachable.induct)
  case (bk_boot E paths cfg d m d')
  then show ?case using boot_cfg by simp
next
  case (bk_live w w')
  then show ?case using bk_step_cfg [of L "fst w" "fst (snd w)" "snd (snd w)" "fst w'" "fst (snd w')" "snd (snd w')"] by simp
qed

end
