(* ===== verification/BackupProps.thy ===== *)
theory BackupProps
  imports BackupConfig
begin

text \<open>
  What the backup manager guarantees over all reachable worlds: single flight, restartability, the
  effect of a start, idempotent starts, the outcome of a run, immutable results, schedule spacing.
\<close>

subsection \<open>Results are immutable\<close>

definition keeps_finished :: "manager \<Rightarrow> manager \<Rightarrow> bool" where
  "keeps_finished m m' \<longleftrightarrow>
     (\<forall>j \<in> set (m_jobs m). j_status j \<noteq> JobStatusRunning \<longrightarrow> j \<in> set (m_jobs m') \<or> j_id j \<notin> j_id ` set (m_jobs m'))"

lemma keeps_same [simp]: "m_jobs m' = m_jobs m \<Longrightarrow> keeps_finished m m'"
  by (simp add: keeps_finished_def)

lemma keeps_update:
  assumes h: "history_ok (m_jobs m)" and k: "k < length (m_jobs m)" "j_status (m_jobs m ! k) = JobStatusRunning"
    and i: "j_id x = j_id (m_jobs m ! k)" and s: "set (m_jobs m') \<subseteq> set ((m_jobs m)[k := x])"
  shows "keeps_finished m m'"
  unfolding keeps_finished_def
proof (intro ballI impI)
  fix j assume j: "j \<in> set (m_jobs m)" "j_status j \<noteq> JobStatusRunning"
  have d: "inj_on j_id (set (m_jobs m))" using h by (simp add: history_ok_def distinct_map)
  have ne: "j_id j \<noteq> j_id x"
  proof
    assume "j_id j = j_id x"
    then have "j = m_jobs m ! k" using inj_onD [OF d, of j "m_jobs m ! k"] j(1) k(1) i by simp
    then show False using j(2) k(2) by simp
  qed
  show "j \<in> set (m_jobs m') \<or> j_id j \<notin> j_id ` set (m_jobs m')"
  proof (cases "j_id j \<in> j_id ` set (m_jobs m')")
    case True
    then obtain j2 where j2: "j2 \<in> set (m_jobs m')" "j_id j2 = j_id j" by auto
    then have "j2 = x \<or> j2 \<in> set (m_jobs m)" using s set_update_subset_insert [of "m_jobs m" k x] by blast
    then have "j2 = j" using ne j2(2) inj_onD [OF d, of j2 j] j(1) by auto
    then show ?thesis using j2(1) by simp
  qed simp
qed

lemma persistJobs_jobs [simp]: "m_jobs (fst (persistJobsLocked E c)) = m_jobs (fst c)"
  by (cases c) (simp add: persistJobsLocked_def commitJobsLocked_def)

lemma persistState_mem [simp]: "fst (persistStateLocked E c) = fst c"
  by (cases c) (simp add: persistStateLocked_def)

text \<open>The end of a run, step by step: which record it settles, and what is left of the others.\<close>

lemma execute_steps:
  assumes inv: "bk_inv (m, d, Some x)" and s: "is_sort (lb_sort L)" and r: "execute L E (m, d) x out err re = (m', d')"
  obtains k j code where "k < length (m_jobs m)" "j_status (m_jobs m ! k) = JobStatusRunning" "j_id (m_jobs m ! k) = w_job x"
    "running_jobs (m_jobs m) = [m_jobs m ! k]"
    "settle_run (m_jobs m ! k) (en_now E) err re (worker_evidence L (m\<lparr> m_running := False \<rparr>, d) out (m_jobs m ! k))
       (findMatchingManifest (lb_manifest L) (m_root m) (dk_tree d) (w_kind x) (w_job x) (m_instance_id m)) = (j, code)"
    "job_core j = job_core (m_jobs m ! k)" "j_status j \<in> final_statuses"
    "set (m_jobs m') \<subseteq> set ((m_jobs m)[k := j])" "history_ok ((m_jobs m)[k := j])"
    "m_states m' = (m_states m)(w_kind x \<mapsto>
       (foldJobIntoState (state_of (m_states m) (w_kind x)) j)\<lparr> st_next_run :=
          (if code = ErrCodeWorkerBusy
           then ScheduleAfterWorkerBusy (consecutiveWorkerBusy ((m_jobs m)[k := j]) (w_kind x) - 1)
                  (p_interval_minutes (w_policy x)) (en_now E)
           else en_now E + p_interval_minutes (w_policy x) * minute_ns) \<rparr>)"
    "m_policies m' = m_policies m"
proof -
  have ok: "manager_ok m" "worker_ok m (Some x)" using inv by (simp_all add: bk_inv_def)
  then have h: "history_ok (m_jobs m)" and run: "m_running m" and a: "m_active_id m = w_job x"
    by (simp_all add: manager_ok_def worker_ok_def)
  obtain j0 where j0: "running_jobs (m_jobs m) = [j0]" "j_id j0 = w_job x"
    using ok(1) run a by (auto simp: manager_ok_def flight_ok_def)
  obtain k where k: "job_index m (w_job x) = Some k" "m_jobs m ! k = j0" "k < length (m_jobs m)" "j_status j0 = JobStatusRunning"
    using job_index_running [OF h j0(1)] j0(2) by metis
  have je: "j_destinations j0 = []" using ok(2) j0(1) by (simp add: worker_ok_def)
  let ?ev = "worker_evidence L (m\<lparr> m_running := False \<rparr>, d) out j0"
  let ?man = "findMatchingManifest (lb_manifest L) (m_root m) (dk_tree d) (w_kind x) (w_job x) (m_instance_id m)"
  obtain j code where st: "settle_run j0 (en_now E) err re ?ev ?man = (j, code)" by fastforce
  have evs: "case ?ev of None \<Rightarrow> True | Some wr \<Rightarrow> result_ok wr" "case ?man of None \<Rightarrow> True | Some mf \<Rightarrow> manifest_ok mf"
    using worker_evidence_ok found_manifest_ok by (auto split: option.splits)
  have jok: "job_ok j0" "marshalled j0" using history_nth [OF h k(3)] k(2) by simp_all
  note S = settle_run_ok [OF st jok je evs]
  define ms where "ms = (m_states m)(w_kind x \<mapsto>
       (foldJobIntoState (state_of (m_states m) (w_kind x)) j)\<lparr> st_next_run :=
          (if code = ErrCodeWorkerBusy
           then ScheduleAfterWorkerBusy (consecutiveWorkerBusy ((m_jobs m)[k := j]) (w_kind x) - 1)
                  (p_interval_minutes (w_policy x)) (en_now E)
           else en_now E + p_interval_minutes (w_policy x) * minute_ns) \<rparr>)"
  define m1 where "m1 = m\<lparr> m_running := False, m_jobs := (m_jobs m)[k := j], m_states := ms,
       m_active_id := '''', m_active_kind := '''' \<rparr>"
  have e: "execute L E (m, d) x out err re =
    persistStateLocked E (persistJobsLocked E (pruneLocked L m1 (en_now E), d))"
    using k(1,2) a by (simp add: execute_def Let_def job_index_def [of "m\<lparr> m_running := False \<rparr>"] job_index_def [of m, symmetric]
        st m1_def ms_def)
  then have fm: "m' = fst (persistJobsLocked E (pruneLocked L m1 (en_now E), d))" using r by (metis fst_conv persistState_mem)
  have h1: "history_ok ((m_jobs m)[k := j])"
    using history_ok_update [OF h S(1,2), of k] job_core_eqD(1) [OF S(3)] k(2) by simp
  have "j_status j \<noteq> JobStatusRunning" using S(4) by (auto simp: final_statuses_def)
  then have r1: "running_jobs (m_jobs m1) = []"
    using running_jobs_update [OF k(3), of j] j0(1) k(2,4) by (simp add: m1_def)
  have l1: "history_ok (m_jobs m1)" "length (running_jobs (m_jobs m1)) \<le> 1" unfolding r1 using h1 by (simp_all add: m1_def)
  have sub: "set (m_jobs m') \<subseteq> set ((m_jobs m)[k := j])"
    using pruneLocked_props(4) [OF l1(1) s l1(2), of "en_now E"] by (simp add: fm) (simp add: m1_def)
  have pm: "m_states (fst (persistJobsLocked E c)) = m_states (fst c)" "m_policies (fst (persistJobsLocked E c)) = m_policies (fst c)" for c
    by (cases c; simp add: persistJobsLocked_def commitJobsLocked_def)+
  have "m_states m' = ms" "m_policies m' = m_policies m" by (simp_all add: fm pm) (simp_all add: m1_def)
  then show thesis using that [OF k(3) _ _ _ _ _ S(4) sub h1] k(2,4) j0 st S(3) ms_def by simp
qed

lemma orphan_jobs:
  assumes inv: "bk_inv (m, d, w)" and s: "is_sort (lb_sort L)" and r: "orphanStep L E (m, d) = ((m', d'), delay, again)"
  shows "keeps_finished m m'"
proof (cases "activeOrphanLocked m")
  case None
  then show ?thesis using r by (simp add: orphanStep_def)
next
  case (Some i)
  note I = orphan_index [OF Some]
  have h: "history_ok (m_jobs m)" using inv by (simp add: bk_inv_def manager_ok_def)
  have A: "running_jobs (m_jobs m) = [m_jobs m ! i]"
    using active_index(1) [OF _ I(1,2)] inv by (simp add: bk_inv_def)
  obtain m1 dec where rc: "reconcileJobLocked L E (m, d) i True = (m1, dec)" by fastforce
  obtain j where J: "m_jobs m1 = (m_jobs m)[i := j]" "job_ok j" "marshalled j" "job_core j = job_core (m_jobs m ! i)"
    by (rule reconcile_step [OF rc I(1,2) h]) blast
  have ids: "j_id j = j_id (m_jobs m ! i)" using job_core_eqD(1) [OF J(4)] .
  let ?m2 = "m1\<lparr> m_orphan_delay := 0 \<rparr>"
  have h2: "history_ok (m_jobs ?m2)" using history_ok_update [OF h J(2,3) ids] by (simp add: J(1))
  have "length (running_jobs (m_jobs ?m2)) \<le> 1" using running_jobs_update [OF I(1) A I(2)] by (simp add: J(1))
  note P = pruneLocked_props(4) [OF h2 s this, of "en_now E"]
  have "m_jobs m' = m_jobs m1 \<or> m_jobs m' = m_jobs (pruneLocked L ?m2 (en_now E))"
    using r Some rc by (auto simp: orphanStep_def Let_def split: if_splits dest!: arg_cong [of _ "(_, _)" fst])
  then have "set (m_jobs m') \<subseteq> set ((m_jobs m)[i := j])" using P by (auto simp: J(1))
  then show ?thesis by (rule keeps_update [OF h I(1,2) ids])
qed

lemma step_keeps_finished:
  assumes st: "bk_step L w w'" and inv: "bk_inv w" and s: "is_sort (lb_sort L)"
  shows "keeps_finished (fst w) (fst w')"
  using st
proof cases
  case (bk_start E gen m d req m' d' j x w0)
  show ?thesis
    by (rule StartJob_success [OF bk_start(3)]) (auto simp: bk_start keeps_finished_def)
next
  case (bk_finish E m d x out err re m' d')
  have iv: "bk_inv (m, d, Some x)" using inv bk_finish(1) by simp
  then have h: "history_ok (m_jobs m)" by (simp add: bk_inv_def manager_ok_def)
  obtain k j where "k < length (m_jobs m)" "j_status (m_jobs m ! k) = JobStatusRunning"
    and c: "job_core j = job_core (m_jobs m ! k)" and "set (m_jobs m') \<subseteq> set ((m_jobs m)[k := j])"
    by (rule execute_steps [OF iv s bk_finish(3)]) blast
  then have "keeps_finished m m'" using keeps_update [OF h _ _ job_core_eqD(1) [OF c]] by blast
  then show ?thesis using bk_finish by simp
next
  case (bk_cancel E m d i m' d' r w0)
  have h: "history_ok (m_jobs m)" using inv bk_cancel(1) by (simp add: bk_inv_def manager_ok_def)
  show ?thesis using CancelJob_cases [OF bk_cancel(3)]
  proof
    assume "m' = m \<and> d' = d" then show ?thesis using bk_cancel by simp
  next
    assume "\<exists>k. job_index m i = Some k \<and> j_status (m_jobs m ! k) = JobStatusRunning \<and>
      \<not> j_orphan_suspected (m_jobs m ! k) \<and> en_jobs_ok E \<and>
      m' = m\<lparr> m_jobs := (m_jobs m)[k := (m_jobs m ! k)\<lparr> j_cancel_requested_at := en_now E \<rparr>] \<rparr> \<and>
      d' = d\<lparr> dk_jobs := job_content (m_jobs m') \<rparr>"
    then obtain k where k: "job_index m i = Some k" "j_status (m_jobs m ! k) = JobStatusRunning"
      "m' = m\<lparr> m_jobs := (m_jobs m)[k := (m_jobs m ! k)\<lparr> j_cancel_requested_at := en_now E \<rparr>] \<rparr>" by blast
    have "keeps_finished m m'"
      by (rule keeps_update [OF h _ k(2), of "(m_jobs m ! k)\<lparr> j_cancel_requested_at := en_now E \<rparr>"])
        (use job_index_Some [OF k(1)] k(3) in simp_all)
    then show ?thesis using bk_cancel by simp
  qed
next
  case (bk_orphan E m d m' d' delay again w0)
  then show ?thesis using orphan_jobs [OF inv [unfolded bk_orphan(1)] s bk_orphan(3)] by simp
next
  case (bk_tick E m d m' d' due w0)
  then have "m' = m \<or> m' = fst (persistJobsLocked E (m, d))" by (auto simp: tick_check_def Let_def split: if_splits)
  then show ?thesis using bk_tick by auto
next
  case (bk_refused E gen m d req m' d' e w0)
  then show ?thesis using StartJob_failure by fastforce
next
  case (bk_save E m d p expected m' d' r1 w0)
  then show ?thesis using policy_steps_same(1) by fastforce
next
  case (bk_save_connection E m d c expected m' d' r2 w0)
  then show ?thesis using policy_steps_same(2) by fastforce
next
  case (bk_delete_connection E m d i expected m' d' r3 w0)
  then show ?thesis using policy_steps_same(3) by fastforce
qed simp

lemma settle_run_status:
  assumes "settle_run job t err re result man = (j, code)"
  shows "j_status j = (if run_succeeded err result then JobStatusSucceeded
           else if j_cancel_requested_at job \<noteq> 0 then JobStatusCancelled else JobStatusFailed)"
    and "code = ErrCodeWorkerBusy \<longleftrightarrow> \<not> run_succeeded err result \<and> j_cancel_requested_at job = 0 \<and> re \<noteq> CtxDeadline \<and>
      err = ExitCode workerBusyExit"
proof -
  have a: "j_status (add_result wr man x) = j_status x" "j_status (add_manifest man x) = j_status x" for wr x
    by (simp_all add: add_result_def add_manifest_def Let_def split: option.split)
  show "j_status j = (if run_succeeded err result then JobStatusSucceeded
           else if j_cancel_requested_at job \<noteq> 0 then JobStatusCancelled else JobStatusFailed)"
    using assms by (auto simp: settle_run_def settle_outcome_def Let_def a split: option.splits)
  show "code = ErrCodeWorkerBusy \<longleftrightarrow> \<not> run_succeeded err result \<and> j_cancel_requested_at job = 0 \<and> re \<noteq> CtxDeadline \<and>
      err = ExitCode workerBusyExit"
  proof -
    have "code = outcome_code (run_succeeded err result) (j_cancel_requested_at job \<noteq> 0 \<and> \<not> run_succeeded err result)
        (\<not> (j_cancel_requested_at job \<noteq> 0 \<and> \<not> run_succeeded err result) \<and> \<not> run_succeeded err result \<and> re = CtxDeadline) err"
      using assms by (simp add: settle_run_def settle_outcome_def Let_def)
    then show ?thesis
      by (cases "run_succeeded err result"; cases "j_cancel_requested_at job = 0"; cases "re = CtxDeadline")
        (simp_all add: outcome_code_def ErrCodeWorkerBusy_def ErrCodeDeadlineExceeded_def ErrCodeUnverifiedResult_def
          ErrCodeWorkerFailed_def)
  qed
qed

subsection \<open>A concrete world\<close>

definition sample_lib :: lib where
  "sample_lib = \<lparr> lb_sort = sort_key, lb_manifest = (\<lambda>s. None), lb_result = (\<lambda>s. None),
     lb_text = \<lparr> trim_space = (\<lambda>s. s), split_fields = (\<lambda>s. [s]), parse_url = (\<lambda>s. None), is_ip = (\<lambda>s. False) \<rparr> \<rparr>"

definition sample_env :: "gtime \<Rightarrow> env" where
  "sample_env t = \<lparr> en_now = t, en_jobs_ok = True, en_state_ok = True, en_probe = LockFree \<rparr>"

definition sample_config :: operator_config where
  "sample_config = \<lparr> oc_root = ''/b'', oc_instance_id = ''i'',
     oc_destinations = [\<lparr> d_id = ''local'', d_name = ''Local'', d_type = ''local'' \<rparr>], oc_has_logs = False \<rparr>"

definition sample_disk :: disk where
  "sample_disk = \<lparr> dk_jobs = JF_missing, dk_state = SF_missing, dk_tree = [] \<rparr>"

definition sample_manager :: manager where
  "sample_manager = (case newManager sample_lib (sample_env 1) [''/s''] (Some sample_config) sample_disk of
     Inr (m, d) \<Rightarrow> m | Inl e \<Rightarrow> undefined)"

definition sample_request :: run_request where
  "sample_request = \<lparr> rr_kind = ''data'', rr_trigger = JobTriggerManual, rr_actor_fingerprint = '''', rr_request_id = '''',
     rr_idempotency = None \<rparr>"

lemma sample_newManager:
  assumes "loadJobFile (dk_jobs d) = Some (js, False)" "dk_state d = SF_missing"
  shows "newManager sample_lib E [''/s''] (Some sample_config) d =
    Inr (startupLocked sample_lib E (loaded_manager sample_config defaultPolicies Map.empty [] js, d))"
proof -
  have c: "check_destinations_config (oc_destinations sample_config) [] False = Some ([''local''], True)"
    by (simp add: sample_config_def safeID_def headed_by_def all_of_def lower_chars_def)
  have v: "validate_policy (ps_data defaultPolicies) (allDestinations (loaded_manager sample_config defaultPolicies Map.empty [] [])) = None"
    "validate_policy (ps_logs defaultPolicies) (allDestinations (loaded_manager sample_config defaultPolicies Map.empty [] [])) = None"
    by (simp_all add: validate_policy_iff defaultPolicies_def allDestinations_def loaded_manager_def sample_config_def)
  show ?thesis by (simp add: newManager_def isAbs_def c v assms Let_def)
qed

lemma sample_boot:
  "newManager sample_lib (sample_env 1) [''/s''] (Some sample_config) sample_disk = Inr (sample_manager, sample_disk)"
  "sample_manager = loaded_manager sample_config defaultPolicies Map.empty [] []"
proof -
  define M where "M = loaded_manager sample_config defaultPolicies Map.empty [] []"
  have f: "m_jobs M = []" "\<not> m_running M" "m_states M = Map.empty" "\<not> m_job_dirty M" "M\<lparr> m_states := Map.empty \<rparr> = M"
    by (simp_all add: M_def loaded_manager_def)
  have r: "restoreStatesLocked M = M"
    by (simp add: restoreStatesLocked_def restore_kind_def last_such_def f)
  have q: "pruneLocked sample_lib M t = M" for t
    by (simp add: pruneLocked_def pruneJobs_def f sample_lib_def Let_def)
  have i: "interrupted_states Map.empty = Map.empty" by (simp add: interrupted_states_def)
  have p: "startupLocked sample_lib (sample_env 1) (loaded_manager sample_config defaultPolicies Map.empty [] [], sample_disk) =
      (loaded_manager sample_config defaultPolicies Map.empty [] [], sample_disk)"
    unfolding M_def [symmetric] by (simp add: startupLocked_def r running_indices_def Let_def i f q)
  have "loadJobFile (dk_jobs sample_disk) = Some ([], False)" "dk_state sample_disk = SF_missing"
    by (simp_all add: loadJobFile_def sample_disk_def)
  note sample_newManager [OF this, of "sample_env 1"]
  then show "newManager sample_lib (sample_env 1) [''/s''] (Some sample_config) sample_disk = Inr (sample_manager, sample_disk)"
  "sample_manager = loaded_manager sample_config defaultPolicies Map.empty [] []"
    by (simp_all add: sample_manager_def p)
qed


definition sample_id :: string where
  "sample_id = ''job-20240101T000000Z-0123456789ab''"

text \<open>One start on the booted manager: the world in which a worker is running.\<close>

lemma sample_run:
  obtains m d x where "bk_reachable sample_lib (m, d, Some x)" "m_running m" "w_job x = sample_id"
    "m_jobs m = [new_job sample_manager 5 sample_id sample_request]" "m_destinations m = m_destinations sample_manager"
proof -
  have f: "\<not> m_running sample_manager" "m_jobs sample_manager = []" "rr_idempotency sample_request = None"
    "rr_kind sample_request = ''data''" "m_policies sample_manager = defaultPolicies"
    by (simp_all add: sample_boot(2) loaded_manager_def sample_request_def)
  have e: "en_probe (sample_env 5) = LockFree" "en_jobs_ok (sample_env 5)" "en_now (sample_env 5) = 5"
    by (simp_all add: sample_env_def)
  obtain m d j x where S: "StartJob (sample_env 5) (Generated sample_id) (sample_manager, sample_disk) sample_request =
      ((m, d), Inr (j, x))"
    using f e by (auto simp: StartJob_def idempotentHitLocked_def commitJobsLocked_def Let_def)
  have g: "gen_ok sample_manager (Generated sample_id)" "request_ok sample_request"
    using sample_ids(2) by (simp_all add: gen_ok_def f sample_id_def request_ok_def)
  have "bk_reachable sample_lib (sample_manager, sample_disk, None)" using sample_boot(1) by (rule bk_boot)
  then have R: "bk_reachable sample_lib (m, d, Some x)" by (rule bk_live) (rule bk_start [OF S g])
  show thesis
  proof (rule StartJob_success [OF S])
    fix i assume i: "Generated sample_id = Generated i" "m_jobs m = m_jobs sample_manager @ [new_job sample_manager (en_now (sample_env 5)) i sample_request]"
      "m_running m" "x = \<lparr> w_job = i, w_kind = rr_kind sample_request, w_policy = policyFor sample_manager (rr_kind sample_request) \<rparr>"
      "m_destinations m = m_destinations sample_manager"
    show thesis by (rule that [OF R i(3) _ _ i(5)]) (use i f e in auto)
  qed
qed

lemma sample_sort: "is_sort (lb_sort sample_lib)"
  by (simp add: sample_lib_def is_sort_sort_key)

subsection \<open>The properties\<close>

text \<open>C17: single flight. In every reachable world, whatever starts, ends, cancellations, saves, file
  changes and reboots led there, the manager is running exactly when one record has status running,
  that record is the active one, at most 201 records are kept, and the history as a whole is one that
  the loader's validation accepts (valid fields, distinct ids).\<close>

theorem backup_single_flight:
  assumes "bk_reachable L (m, d, w)" "is_sort (lb_sort L)"
  shows "map (\<lambda>j. (j_id j, j_kind j)) (filter (\<lambda>j. j_status j = JobStatusRunning) (m_jobs m)) =
       (if m_running m then [(m_active_id m, m_active_kind m)] else []) \<and>
     length (m_jobs m) \<le> 201 \<and> validateJobs (map Some (m_jobs m)) = None"
proof (intro conjI)
  have ok: "manager_ok m" using bk_reachable_inv [OF assms] by (simp add: bk_inv_def)
  show "map (\<lambda>j. (j_id j, j_kind j)) (filter (\<lambda>j. j_status j = JobStatusRunning) (m_jobs m)) =
       (if m_running m then [(m_active_id m, m_active_kind m)] else [])"
    using ok by (auto simp: manager_ok_def flight_ok_def running_jobs_def split: if_splits)
  show l: "length (m_jobs m) \<le> 201" using ok by (simp add: manager_ok_def split: if_splits)
  show "validateJobs (map Some (m_jobs m)) = None"
    using ok l by (auto simp: validateJobs_ok manager_ok_def history_ok_def maxJobRecords_def)
qed

lemma backup_single_flight_witness:
  "\<exists>m d w. bk_reachable sample_lib (m, d, w) \<and>
     map (\<lambda>j. (j_id j, j_kind j)) (filter (\<lambda>j. j_status j = JobStatusRunning) (m_jobs m)) = [(m_active_id m, m_active_kind m)]"
proof (rule sample_run)
  fix m d x assume a: "bk_reachable sample_lib (m, d, Some x)" "m_running m"
  have "map (\<lambda>j. (j_id j, j_kind j)) (filter (\<lambda>j. j_status j = JobStatusRunning) (m_jobs m)) = [(m_active_id m, m_active_kind m)]"
    using backup_single_flight [OF a(1) sample_sort] a(2) by simp
  with a(1) show ?thesis by (intro exI conjI)
qed

text \<open>C18: a process that stops at any point can be started again. In every reachable world the job file
  on disk loads without being moved aside and still shows a running job as running, and a new process
  with the same operator destinations comes up with exactly the policies and connections that were in
  memory, whatever the clock, the lock probe and the outcome of its writes are.\<close>

theorem backup_restart:
  assumes "bk_reachable L (m, d, w)" "is_sort (lb_sort L)" "list_all isAbs paths" "oc_destinations cfg = m_destinations m"
  shows "(case newManager L E paths (Some cfg) d of
       Inl e \<Rightarrow> False
     | Inr (m', d') \<Rightarrow> m_policies m' = m_policies m \<and> m_connections m' = m_connections m \<and> m_destinations m' = m_destinations m) \<and>
    (case loadJobFile (dk_jobs d) of
       None \<Rightarrow> False
     | Some (jobs, moved) \<Rightarrow> \<not> moved \<and>
         (if m_running m then list_ex (\<lambda>j. j_id j = m_active_id m \<and> j_status j = JobStatusRunning) jobs else True))"
proof (intro conjI)
  have du: "durable_ok m d" using bk_reachable_inv [OF assms(1,2)] by (simp add: bk_inv_def)
  then obtain js where js: "loadJobFile (dk_jobs d) = Some (js, False)"
    "m_running m \<longrightarrow> m_active_id m \<in> j_id ` set (running_jobs js)" by (auto simp: durable_ok_def)
  have ci: "cfg_inv L (m, d)" using bk_reachable_cfg [OF assms(1)] by simp
  obtain pol sts conns where st: "pol = m_policies m" "conns = m_connections m"
    "(case dk_state d of SF_missing \<Rightarrow> Some (defaultPolicies, Map.empty, []) | SF_bad \<Rightarrow> None
      | SF_content pol sts conns \<Rightarrow> Some (pol, sts, conns)) = Some (pol, sts, conns)"
    using ci by (auto simp: cfg_inv_def saved_ok_def split: state_file.splits)
  obtain seen where cd: "check_destinations_config (m_destinations m) [] False = Some (seen, True)"
    using ci by (auto simp: cfg_inv_def operator_ok_def split: option.splits)
  have sn: "set seen = d_id ` set (m_destinations m)" using check_destinations_seen [OF cd] by simp
  have sc: "check_saved_connections (lb_text L) conns seen = None"
    using ci by (simp add: cfg_inv_def config_ok_def Let_def check_saved_iff sn st)
  let ?m = "loaded_manager cfg pol sts conns []"
  have v: "validate_policy (ps_data pol) (allDestinations ?m) = None" "validate_policy (ps_logs pol) (allDestinations ?m) = None"
    using ci by (simp_all add: cfg_inv_def config_ok_def Let_def allDestinations_eq loaded_manager_def assms(4) st)
  have n: "newManager L E paths (Some cfg) d = Inr (startupLocked L E (loaded_manager cfg pol sts conns js, d))"
    using assms(3,4) cd sc v js(1) st(3) by (simp add: newManager_def Let_def)
  obtain m1 d1 where s1: "startupLocked L E (loaded_manager cfg pol sts conns js, d) = (m1, d1)" by fastforce
  have "same_config (loaded_manager cfg pol sts conns js) m1"
    using startup_cfg [of "(loaded_manager cfg pol sts conns js, d)" L E] by (simp add: s1 cfg_same_def)
  then show "case newManager L E paths (Some cfg) d of
       Inl e \<Rightarrow> False
     | Inr (m', d') \<Rightarrow> m_policies m' = m_policies m \<and> m_connections m' = m_connections m \<and> m_destinations m' = m_destinations m"
    unfolding n s1 by (simp add: same_config_def st assms(4) loaded_manager_def)
  show "case loadJobFile (dk_jobs d) of
       None \<Rightarrow> False
     | Some (jobs, moved) \<Rightarrow> \<not> moved \<and>
         (if m_running m then list_ex (\<lambda>j. j_id j = m_active_id m \<and> j_status j = JobStatusRunning) jobs else True)"
    using js by (auto simp: list_ex_iff running_jobs_def)
qed

lemma backup_restart_witness:
  "\<exists>(m :: manager) d m' d'. m_running m \<and> newManager sample_lib (sample_env 9) [''/s''] (Some sample_config) d = Inr (m', d') \<and>
     m_policies m' = m_policies m"
proof (rule sample_run)
  fix m d x assume a: "bk_reachable sample_lib (m, d, Some x)" "m_running m" "m_destinations m = m_destinations sample_manager"
  have "list_all isAbs [''/s'']" "oc_destinations sample_config = m_destinations m"
    using a(3) by (simp_all add: isAbs_def sample_boot(2) loaded_manager_def)
  note R = backup_restart [OF a(1) sample_sort this, of "sample_env 9"]
  then obtain m' d' where "newManager sample_lib (sample_env 9) [''/s''] (Some sample_config) d = Inr (m', d')"
    by (cases "newManager sample_lib (sample_env 9) [''/s''] (Some sample_config) d") auto
  with R [THEN conjunct1] a(2) show ?thesis by (intro exI [of _ m] exI [of _ d] exI [of _ m'] exI [of _ d']) simp
qed

text \<open>C21: a start succeeds exactly when the kind is known, the idempotency key hits no record, nothing
  runs here, no other process holds the worker lock, logs are registered if logs are asked for, an id
  could be generated and the job file could be written. Then exactly one running record is appended,
  the job file on disk already holds it before the worker exists, and the worker carries the policy of
  that moment. A refused start changes nothing, in memory or on disk.\<close>

theorem StartJob_correct:
  "case StartJob E gen (m, d) req of
     ((m', d'), Inl e) \<Rightarrow> m' = m \<and> d' = d \<and>
       \<not> (rr_kind req \<in> {''data'', ''logs''} \<and> idempotentHitLocked (m, d) req = None \<and> \<not> m_running m \<and>
          en_probe E \<noteq> LockHeld \<and> (rr_kind req = ''data'' \<or> m_logs_available m) \<and> gen \<in> range Generated \<and> en_jobs_ok E)
   | ((m', d'), Inr (j, x)) \<Rightarrow>
       (rr_kind req \<in> {''data'', ''logs''} \<and> idempotentHitLocked (m, d) req = None \<and> \<not> m_running m \<and>
          en_probe E \<noteq> LockHeld \<and> (rr_kind req = ''data'' \<or> m_logs_available m) \<and> gen \<in> range Generated \<and> en_jobs_ok E) \<and>
       m_jobs m' = m_jobs m @ [new_job m (en_now E) (w_job x) req] \<and> gen = Generated (w_job x) \<and>
       m_running m' \<and> m_active_id m' = w_job x \<and> w_kind x = rr_kind req \<and> w_policy x = policyFor m (rr_kind req) \<and>
       dk_jobs d' = job_content (m_jobs m')"
  by (cases "idempotentHitLocked (m, d) req"; cases gen)
    (auto simp: StartJob_def commitJobsLocked_def Let_def)

text \<open>An idempotent start never runs twice. While any record of the history carries the key hash of
  the request, the start is answered from the first such record, with the verdict of the fingerprint
  check, and neither memory nor disk changes, whether or not a job is running.\<close>

theorem start_idempotent:
  assumes "rr_idempotency req = Some k" "ri_key_hash k \<noteq> ''''" "rr_kind req \<in> {''data'', ''logs''}"
    and "j \<in> set (m_jobs m)" "map_option ji_key_hash (j_idempotency j) = Some (ri_key_hash k)"
  shows "\<exists>j0 v. StartJob E gen (m, d) req = ((m, d), Inl (ErrIdempotent (present_job (m, d) j0) v)) \<and>
    j0 \<in> set (m_jobs m) \<and> map_option ji_key_hash (j_idempotency j0) = Some (ri_key_hash k)"
proof -
  let ?P = "\<lambda>j. map_option ji_key_hash (j_idempotency j) = Some (ri_key_hash k)"
  have "find ?P (m_jobs m) \<noteq> None" using assms(4,5) by (auto simp: find_None_iff)
  then obtain j0 where f: "find ?P (m_jobs m) = Some j0" by blast
  then have j0: "j0 \<in> set (m_jobs m)" "?P j0" by (auto simp: find_Some_iff)
  obtain v where "idempotentHitLocked (m, d) req = Some (present_job (m, d) j0, v)"
    using assms(1,2) f by (simp add: idempotentHitLocked_def Let_def)
  then have "StartJob E gen (m, d) req = ((m, d), Inl (ErrIdempotent (present_job (m, d) j0) v))"
    using assms(3) by (auto simp: StartJob_def Let_def)
  with j0 show ?thesis by blast
qed

lemma start_idempotent_witness:
  "let k = \<lparr> ri_key_hash = ''aa'', ri_fingerprint = ''bb'', ri_key_id = ''k'', ri_verify = None \<rparr>;
       req = sample_request\<lparr> rr_idempotency := Some k \<rparr>;
       j = (new_job sample_manager 5 sample_id req);
       m = sample_manager\<lparr> m_jobs := [j] \<rparr>
   in \<exists>j0 v. StartJob (sample_env 7) (Generated sample_id) (m, sample_disk) req =
        ((m, sample_disk), Inl (ErrIdempotent (present_job (m, sample_disk) j0) v))"
proof -
  let ?k = "\<lparr> ri_key_hash = ''aa'', ri_fingerprint = ''bb'', ri_key_id = ''k'', ri_verify = None \<rparr>"
  let ?req = "sample_request\<lparr> rr_idempotency := Some ?k \<rparr>"
  let ?j = "new_job sample_manager 5 sample_id ?req"
  have "rr_idempotency ?req = Some ?k" "ri_key_hash ?k \<noteq> ''''" "rr_kind ?req \<in> {''data'', ''logs''}"
    "?j \<in> set (m_jobs (sample_manager\<lparr> m_jobs := [?j] \<rparr>))"
    "map_option ji_key_hash (j_idempotency ?j) = Some (ri_key_hash ?k)"
    by (simp_all add: sample_request_def new_job_def Let_def JobTriggerManual_def JobTriggerSchedule_def)
  from start_idempotent [OF this, of "sample_env 7" "Generated sample_id" sample_disk] show ?thesis
    unfolding Let_def by blast
qed

text \<open>A result that speaks for a job: it names the job and its kind, a run that was verified, and destinations that can be recorded, all
  successful when the backup is called verified.\<close>

definition speaks_for :: "worker_result \<Rightarrow> job \<Rightarrow> bool" where
  "speaks_for wr j \<longleftrightarrow> wr_job_id wr = j_id j \<and> wr_kind wr = j_kind j \<and> (wr_run_id wr = '''' \<or> runName (wr_run_id wr)) \<and>
     (wr_verified wr \<or> wr_local_verified wr \<longrightarrow> wr_run_id wr \<noteq> '''') \<and> (wr_verified wr \<longrightarrow> wr_local_verified wr) \<and>
     length (wr_destinations wr) \<le> maxJobDests \<and> distinct (map wd_id (wr_destinations wr)) \<and>
     (\<forall>d \<in> set (wr_destinations wr). safeID (wd_id d) \<and> validDestStatus (wd_status d) \<and> validDestErrCode (wd_error_code d) \<and>
        (wr_verified wr \<longrightarrow> wd_status d = ''succeeded''))"

lemma check_destinations_iff:
  "check_destinations v ds seen = None \<longleftrightarrow> distinct (map wd_id ds) \<and> wd_id ` set ds \<inter> set seen = {} \<and>
     (\<forall>d \<in> set ds. safeID (wd_id d) \<and> validDestStatus (wd_status d) \<and> validDestErrCode (wd_error_code d) \<and>
        (v \<longrightarrow> wd_status d = ''succeeded''))"
  by (induction v ds seen rule: check_destinations.induct) (auto simp: DestStatusSucceeded_def)

lemma validate_speaks: "validateWorkerResult wr j = None \<longleftrightarrow> speaks_for wr j"
  by (auto simp: validateWorkerResult_def speaks_for_def check_destinations_iff)

text \<open>The worker's word on a job: what it printed, when that speaks for the job, else its result file, when that does.\<close>

definition result_file :: "lib \<Rightarrow> string \<Rightarrow> disk \<Rightarrow> job \<Rightarrow> worker_result \<Rightarrow> bool" where
  "result_file L root d j wr \<longleftrightarrow> root \<noteq> '''' \<and> IsValidJobID (j_id j) \<and> properDir root \<and>
     (\<exists>entries b. map_of (dk_tree d) ''.results'' = Some (Dir entries) \<and> readRegularFile entries (j_id j @ ''.json'') maxResultBytes = Inr b \<and>
        lb_result L b = Some wr \<and> speaks_for wr j)"

definition reported :: "lib \<Rightarrow> string \<Rightarrow> disk \<Rightarrow> string \<Rightarrow> job \<Rightarrow> worker_result \<Rightarrow> bool" where
  "reported L root d out j wr \<longleftrightarrow>
     (if \<exists>w. lb_result L out = Some w \<and> speaks_for w j then lb_result L out = Some wr else result_file L root d j wr)"

lemma readWorkerResult_iff: "readWorkerResult (lb_result L) root (dk_tree d) j = (Some wr, resultOK) \<longleftrightarrow> result_file L root d j wr"
  by (auto simp: readWorkerResult_def result_file_def validate_speaks
      split: if_splits option.splits fnode.splits sum.splits read_error.splits)

lemma readWorkerResult_None: "readWorkerResult decode root tr j \<noteq> (None, resultOK)"
  by (auto simp: readWorkerResult_def split: if_splits option.splits fnode.splits sum.splits read_error.splits)

lemma worker_evidence_iff: "worker_evidence L (m, d) out j = Some wr \<longleftrightarrow> reported L (m_root m) d out j wr"
proof -
  have r: "(case readWorkerResult (lb_result L) (m_root m) (dk_tree d) j of (r, status) \<Rightarrow> if status = resultOK then r else None) = Some wr \<longleftrightarrow>
      result_file L (m_root m) d j wr"
    using readWorkerResult_iff [of L "m_root m" d j wr] by (auto split: prod.splits)
  show ?thesis
    using r by (cases "lb_result L out") (auto simp: worker_evidence_def reported_def validate_speaks)
qed

lemma run_succeeded_iff:
  "run_succeeded err (worker_evidence L (m, d) out j) \<longleftrightarrow> err = ExitOk \<and> (\<exists>wr. reported L (m_root m) d out j wr \<and> wr_verified wr)"
  by (auto simp: run_succeeded_def worker_evidence_iff [symmetric] split: option.splits)

text \<open>C19: a backup is recorded as succeeded only on verified evidence. When the run of a reachable
  world's worker ends, nothing is running any more, and each record left afterwards is either unchanged
  or the record of this run, with status succeeded exactly when the worker ended without an error (code 0) and
  reported that the backup was verified: in a result that names this job and its kind, a run, and only successful destinations,
  taken from its output or else from its result file; otherwise cancelled if a cancel was
  requested, else failed.\<close>

theorem execute_correct:
  assumes "bk_reachable L (m, d, Some x)" "is_sort (lb_sort L)" "execute L E (m, d) x out err re = (m', d')"
  shows "\<exists>j0. filter (\<lambda>j. j_status j = JobStatusRunning) (m_jobs m) = [j0] \<and> j_id j0 = w_job x \<and> \<not> m_running m' \<and>
    list_all (\<lambda>j. if j_id j = w_job x then
        j_status j = (if err = ExitOk \<and> (\<exists>wr. reported L (m_root m) d out j0 wr \<and> wr_verified wr) then JobStatusSucceeded
                      else if j_cancel_requested_at j0 \<noteq> 0 then JobStatusCancelled else JobStatusFailed)
      else j \<in> set (m_jobs m) \<and> j_status j \<noteq> JobStatusRunning) (m_jobs m')"
proof -
  have ev: "run_succeeded err (worker_evidence L (m\<lparr> m_running := False \<rparr>, d) out j) \<longleftrightarrow>
      err = ExitOk \<and> (\<exists>wr. reported L (m_root m) d out j wr \<and> wr_verified wr)" for j
    by (simp add: run_succeeded_iff)
  have inv: "bk_inv (m, d, Some x)" by (rule bk_reachable_inv [OF assms(1,2)])
  then have inv': "bk_inv (m', d', None)" using execute_inv assms(2,3) by blast
  have h: "history_ok (m_jobs m)" using inv by (simp add: bk_inv_def manager_ok_def)
  obtain k j code where K: "k < length (m_jobs m)" "j_id (m_jobs m ! k) = w_job x" "running_jobs (m_jobs m) = [m_jobs m ! k]"
    and st: "settle_run (m_jobs m ! k) (en_now E) err re (worker_evidence L (m\<lparr> m_running := False \<rparr>, d) out (m_jobs m ! k))
       (findMatchingManifest (lb_manifest L) (m_root m) (dk_tree d) (w_kind x) (w_job x) (m_instance_id m)) = (j, code)"
    and J: "job_core j = job_core (m_jobs m ! k)" "j_status j \<in> final_statuses"
    and sub: "set (m_jobs m') \<subseteq> set ((m_jobs m)[k := j])" and h1: "history_ok ((m_jobs m)[k := j])"
    by (rule execute_steps [OF inv assms(2,3)]) blast
  have ji: "j_id j = w_job x" using job_core_eqD(1) [OF J(1)] K(2) by simp
  have jk: "j \<in> set ((m_jobs m)[k := j])" using K(1) by (simp add: set_update_memI)
  have inj: "inj_on j_id (set ((m_jobs m)[k := j]))" using h1 by (simp add: history_ok_def distinct_map del: map_update)
  have one: "z = j" if "z \<in> set (m_jobs m')" "j_id z = w_job x" for z
    using inj_onD [OF inj, of z j] that ji sub jk by auto
  have other: "z \<in> set (m_jobs m) \<and> j_status z \<noteq> JobStatusRunning" if z: "z \<in> set (m_jobs m')" "j_id z \<noteq> w_job x" for z
  proof -
    have "z \<in> set (m_jobs m)" using z sub ji set_update_subset_insert [of "m_jobs m" k j] by blast
    moreover have "z \<notin> set (running_jobs (m_jobs m))" using K(2,3) z(2) by auto
    ultimately show ?thesis by (simp add: running_jobs_def)
  qed
  have jn: "j_status j \<noteq> JobStatusRunning" using J(2) by (auto simp: final_statuses_def)
  have "j_status z \<noteq> JobStatusRunning" if "z \<in> set (m_jobs m')" for z
    using one [OF that] other [OF that] jn by (cases "j_id z = w_job x") auto
  then have "running_jobs (m_jobs m') = []" by (simp add: running_jobs_def filter_empty_conv)
  then have nr: "\<not> m_running m'" using inv' by (auto simp: bk_inv_def manager_ok_def flight_ok_def)
  show ?thesis
    by (rule exI [of _ "m_jobs m ! k"])
      (use K(2,3) nr one other settle_run_status(1) [OF st, unfolded ev] in \<open>auto simp: list_all_iff running_jobs_def\<close>)
qed

lemma execute_correct_witness:
  "\<exists>m d x m' d'. bk_reachable sample_lib (m, d, Some x) \<and> execute sample_lib (sample_env 9) (m, d) x '''' (ExitCode 1) CtxNone = (m', d') \<and>
     \<not> m_running m'"
proof (rule sample_run)
  fix m d x assume a: "bk_reachable sample_lib (m, d, Some x)"
  obtain m' d' where e: "execute sample_lib (sample_env 9) (m, d) x '''' (ExitCode 1) CtxNone = (m', d')" by fastforce
  from execute_correct [OF a sample_sort e] a e show ?thesis by blast
qed

text \<open>C20: results are immutable. A record that has left the status running never changes again: in every
  step from a reachable world it stays in the history exactly as it is, until retention removes it, and
  no other record ever takes its id.\<close>

theorem finished_jobs_immutable:
  assumes "bk_reachable L w" "is_sort (lb_sort L)" "bk_step L w w'"
    and "j \<in> set (m_jobs (fst w))" "j_status j \<noteq> JobStatusRunning"
  shows "j \<in> set (m_jobs (fst w')) \<or> j_id j \<notin> j_id ` set (m_jobs (fst w'))"
  using step_keeps_finished [OF assms(3) bk_reachable_inv [OF assms(1,2)] assms(2)] assms(4,5)
  by (simp add: keeps_finished_def)

lemma startup_no_running:
  assumes "running_indices (m_jobs m) = []"
  shows "\<exists>m2. m_jobs m2 = m_jobs m \<and> m_jobs (fst (startupLocked L E (m, d))) = m_jobs (pruneLocked L m2 (en_now E))"
proof -
  define m1 where "m1 = restoreStatesLocked m"
  define m2 where "m2 = (if None = (None :: nat option) \<and> \<not> m_running m1 then m1\<lparr> m_states := interrupted_states (m_states m1) \<rparr> else m1)"
  have m1: "m_jobs m1 = m_jobs m" by (simp add: m1_def)
  then have "m_jobs m2 = m_jobs m" by (simp add: m2_def)
  moreover have j: "m_jobs (fst (if b then persistStateLocked E x else x)) = m_jobs (fst x)"
    "m_jobs (fst (if b then persistJobsLocked E x else x)) = m_jobs (fst x)" for b x by simp_all
  have "m_jobs (fst (startupLocked L E (m, d))) = m_jobs (pruneLocked L m2 (en_now E))"
    unfolding startupLocked_def Let_def fst_conv snd_conv m1_def [symmetric] m1 assms j
    by (simp only: if_True fold_simps id_apply fst_conv simp_thms m2_def)
  ultimately show ?thesis by blast
qed

lemma prune_protected:
  assumes "history_ok (m_jobs m)" "is_sort (lb_sort L)" "j \<in> set (m_jobs m)" "is_protected (m_jobs m) j"
  shows "j \<in> set (m_jobs (pruneLocked L m now))"
  using prune_keeps_protected [OF _ assms(2-4)] assms(1,3)
  by (auto simp: pruneLocked_def history_ok_def split: prod.split) (metis fst_conv)+

lemma finished_jobs_immutable_witness:
  "\<exists>w (w' :: bworld) j. bk_reachable sample_lib w \<and> j \<in> set (m_jobs (fst w)) \<and> j_status j = JobStatusSucceeded \<and>
     (j \<in> set (m_jobs (fst w')) \<or> j_id j \<notin> j_id ` set (m_jobs (fst w')))"
proof -
  let ?j = "sample_job sample_id JobStatusSucceeded 1"
  let ?m = "loaded_manager sample_config defaultPolicies Map.empty [] [?j]"
  let ?d = "\<lparr> dk_jobs = job_content [?j], dk_state = SF_missing, dk_tree = [] \<rparr>"
  have h: "history_ok [?j]"
    using sample_ids(2)
    by (simp add: history_ok_def job_ok_iff requester_ok_def progress_ok_def marshalled_def sample_job_def sample_id_def)
  have l: "loadJobFile (dk_jobs ?d) = Some ([?j], False)" using load_content [OF h] by (simp add: maxJobRecords_def)
  obtain m d where s: "startupLocked sample_lib (sample_env 1) (?m, ?d) = (m, d)" by fastforce
  have "newManager sample_lib (sample_env 1) [''/s''] (Some sample_config) ?d = Inr (m, d)"
    using sample_newManager [OF l] s by simp
  then have R: "bk_reachable sample_lib (m, d, None)" by (rule bk_boot)
  have r: "running_indices (m_jobs ?m) = []"
    by (simp add: running_indices_def loaded_manager_def sample_job_def JobStatusSucceeded_def JobStatusRunning_def)
  obtain m2 where m2: "m_jobs m2 = m_jobs ?m" "m_jobs m = m_jobs (pruneLocked sample_lib m2 (en_now (sample_env 1)))"
    using startup_no_running [OF r, of sample_lib "sample_env 1" ?d] s by auto
  have "is_protected (m_jobs m2) ?j"
    by (simp add: m2(1) loaded_manager_def is_protected_def sample_job_def latestSucceeded_def note_success_def newer_success_def)
  then have j: "?j \<in> set (m_jobs m)"
    unfolding m2(2) using prune_protected [OF _ sample_sort] h by (simp add: m2(1) loaded_manager_def)
  have st: "j_status ?j \<noteq> JobStatusRunning" "j_status ?j = JobStatusSucceeded"
    by (simp_all add: sample_job_def JobStatusSucceeded_def JobStatusRunning_def)
  have f: "bk_step sample_lib (m, d, None) (m, d\<lparr> dk_tree := [] \<rparr>, None)" by (rule bk_files)
  have "?j \<in> set (m_jobs (fst (m, d, None :: worker option)))" using j by simp
  from finished_jobs_immutable [OF R sample_sort f this st(1)] R j st(2) show ?thesis
    by (intro exI [of _ "(m, d, None)"] exI [of _ "(m, d\<lparr> dk_tree := [] \<rparr>, None)"] exI [of _ ?j]) simp
qed

lemma worker_valid:
  "bk_reachable L (m, d, Some x) \<Longrightarrow> w_kind x \<in> {''data'', ''logs''} \<and> 1 \<le> p_interval_minutes (w_policy x)"
proof (induction "(m, d, Some x)" arbitrary: m d x rule: bk_reachable.induct)
  case (bk_live w)
  note w = bk_live(1,2)
  from bk_live(3) show ?case
  proof cases
    case (bk_start E gen m0 d0 req j w0)
    have ci: "cfg_inv L (m0, d0)" using bk_reachable_cfg [OF w(1)] bk_start(1) by simp
    show ?thesis
      by (rule StartJob_success [OF bk_start(2)])
        (use ci in \<open>auto simp: cfg_inv_def config_ok_def Let_def validate_policy_iff policyFor_def\<close>)
  qed (use w(2) in blast)+
qed

text \<open>no backup runs again too early. When the worker of a reachable world ends and the run did not
  meet a busy worker lock, the kind is not due before the interval of the policy it ran under has
  passed since its end; after a busy lock it is not due before a minute or one interval.\<close>

theorem no_early_rerun:
  assumes "bk_reachable L (m, d, Some x)" "is_sort (lb_sort L)" "execute L E (m, d) x out err re = (m', d')"
    and "0 \<le> en_now E"
    and "t < en_now E + (if err = ExitCode workerBusyExit then 60 * second_ns else p_interval_minutes (w_policy x) * minute_ns)"
  shows "due_kind m' t \<noteq> w_kind x"
proof -
  have inv: "bk_inv (m, d, Some x)" by (rule bk_reachable_inv [OF assms(1,2)])
  obtain k j code where st: "settle_run (m_jobs m ! k) (en_now E) err re (worker_evidence L (m\<lparr> m_running := False \<rparr>, d) out (m_jobs m ! k))
       (findMatchingManifest (lb_manifest L) (m_root m) (dk_tree d) (w_kind x) (w_job x) (m_instance_id m)) = (j, code)"
    and ms: "m_states m' = (m_states m)(w_kind x \<mapsto>
       (foldJobIntoState (state_of (m_states m) (w_kind x)) j)\<lparr> st_next_run :=
          (if code = ErrCodeWorkerBusy
           then ScheduleAfterWorkerBusy (consecutiveWorkerBusy ((m_jobs m)[k := j]) (w_kind x) - 1)
                  (p_interval_minutes (w_policy x)) (en_now E)
           else en_now E + p_interval_minutes (w_policy x) * minute_ns) \<rparr>)"
    by (rule execute_steps [OF inv assms(2,3)]) blast
  have k: "w_kind x \<in> {''data'', ''logs''}" and p: "1 \<le> p_interval_minutes (w_policy x)"
    using worker_valid [OF assms(1)] by simp_all
  let ?n = "st_next_run (state_of (m_states m') (w_kind x))"
  have "60 * second_ns \<le> p_interval_minutes (w_policy x) * minute_ns"
    using p by (simp add: second_ns_def minute_ns_def)
  moreover have "?n = en_now E + p_interval_minutes (w_policy x) * minute_ns \<or>
      code = ErrCodeWorkerBusy \<and> ?n = en_now E + 60 * second_ns"
    by (simp add: ms state_of_def ScheduleAfterWorkerBusy_def)
  moreover have "code = ErrCodeWorkerBusy \<longrightarrow> err = ExitCode workerBusyExit" using settle_run_status(2) [OF st] by simp
  moreover have "0 < second_ns" by (simp add: second_ns_def)
  ultimately have "t < ?n \<and> 0 < ?n" using assms(4,5) by (auto split: if_splits)
  then have "\<not> (?n = 0 \<or> \<not> t < ?n)" by simp
  with k show ?thesis by (elim insertE emptyE) (simp_all add: due_kind_def)
qed

lemma no_early_rerun_witness:
  "\<exists>m d x m' d'. bk_reachable sample_lib (m, d, Some x) \<and> execute sample_lib (sample_env 9) (m, d) x '''' (ExitCode 1) CtxNone = (m', d') \<and>
     due_kind m' 10 \<noteq> w_kind x"
proof (rule sample_run)
  fix m d x assume a: "bk_reachable sample_lib (m, d, Some x)"
  obtain m' d' where e: "execute sample_lib (sample_env 9) (m, d) x '''' (ExitCode 1) CtxNone = (m', d')" by fastforce
  have "1 * minute_ns \<le> p_interval_minutes (w_policy x) * minute_ns"
    by (rule mult_right_mono) (use worker_valid [OF a] in \<open>simp_all add: minute_ns_def second_ns_def\<close>)
  then have "0 \<le> en_now (sample_env 9)" "10 < en_now (sample_env 9) + (if ExitCode 1 = ExitCode workerBusyExit then 60 * second_ns
      else p_interval_minutes (w_policy x) * minute_ns)"
    by (simp_all add: sample_env_def workerBusyExit_def minute_ns_def second_ns_def)
  from no_early_rerun [OF a sample_sort e this] a e show ?thesis by blast
qed

end
