(* ===== verification/IdempotencyStore.thy ===== *)
theory IdempotencyStore
  imports Idempotency
begin

text \<open>
  The record store of \<open>idempotency/store.go\<close>: one locked call is one step on the store's state, and a
  world is the store with the handles handed out. \<open>hs\<close> below is \<open>hashHex\<close> on the record key's parts.
\<close>

record result =
  rs_status :: int
  rs_location :: string
  rs_body :: string
  rs_envelope :: bool

record entry =
  e_addr :: nat
  e_subj :: string
  e_fp :: string
  e_keyID :: string
  e_completed :: bool
  e_result :: result
  e_expires :: gtime

record store =
  s_keys :: keyring
  s_ttl :: duration
  s_maxTotal :: int
  s_maxSubject :: int
  s_recs :: "string \<rightharpoonup> entry"
  s_perSubject :: "string \<rightharpoonup> int"
  s_next_addr :: nat

record handle =
  h_id :: string
  h_addr :: nat

datatype store_decision =
  KindNew handle | KindReplay result | KindConflict | KindReused | KindUnknownKey | KindCapacity

definition DefaultTTL :: duration where "DefaultTTL = 24 * hour_ns"
definition DefaultMaxRecords :: int where "DefaultMaxRecords = 10000"
definition DefaultMaxPerSubject :: int where "DefaultMaxPerSubject = 1000"

definition NewStore :: "keyring \<Rightarrow> duration \<Rightarrow> int \<Rightarrow> int \<Rightarrow> store" where
  "NewStore keys ttl maxRecords maxPerSubject =
     \<lparr> s_keys = keys,
       s_ttl = (if ttl \<le> 0 then DefaultTTL else ttl),
       s_maxTotal = (if maxRecords \<le> 0 then DefaultMaxRecords else maxRecords),
       s_maxSubject = (if maxPerSubject \<le> 0 then DefaultMaxPerSubject else maxPerSubject),
       s_recs = Map.empty, s_perSubject = Map.empty, s_next_addr = 0 \<rparr>"

definition SetKeyring :: "store \<Rightarrow> keyring \<Rightarrow> store" where
  "SetKeyring s k = s\<lparr> s_keys := k \<rparr>"

definition hashHex :: "(string \<Rightarrow> string) \<Rightarrow> string list \<Rightarrow> string" where
  "hashHex sha_hex parts = sha_hex (join_nul parts)"

definition KeyHash :: "(string \<Rightarrow> string) \<Rightarrow> string \<Rightarrow> string \<Rightarrow> string" where
  "KeyHash sha_hex subject key = hashHex sha_hex [subject, key]"

definition subject_count :: "store \<Rightarrow> string \<Rightarrow> int" where
  "subject_count s subj = (case s_perSubject s subj of None \<Rightarrow> 0 | Some n \<Rightarrow> n)"

definition removeLocked :: "store \<Rightarrow> string \<Rightarrow> entry \<Rightarrow> store" where
  "removeLocked s i e =
     (let n = subject_count s (e_subj e) - 1
      in s\<lparr> s_recs := (s_recs s)(i := None),
           s_perSubject := (s_perSubject s)(e_subj e := (if n \<le> 0 then None else Some n)) \<rparr>)"

definition expired :: "gtime \<Rightarrow> entry \<Rightarrow> bool" where
  "expired now e \<longleftrightarrow> e_completed e \<and> \<not> now < e_expires e"

definition sweep_one :: "gtime \<Rightarrow> string \<Rightarrow> store \<Rightarrow> store" where
  "sweep_one now i s =
     (case s_recs s i of None \<Rightarrow> s | Some e \<Rightarrow> if expired now e then removeLocked s i e else s)"

definition sweepLocked :: "((string \<rightharpoonup> entry) \<Rightarrow> string list) \<Rightarrow> store \<Rightarrow> gtime \<Rightarrow> store" where
  "sweepLocked ord s now = fold (sweep_one now) (ord (s_recs s)) s"

definition at_capacity :: "store \<Rightarrow> string \<Rightarrow> bool" where
  "at_capacity s subj \<longleftrightarrow> s_maxTotal s \<le> int (mlen (s_recs s)) \<or> s_maxSubject s \<le> subject_count s subj"

definition no_result :: result where
  "no_result = \<lparr> rs_status = 0, rs_location = '''', rs_body = '''', rs_envelope = False \<rparr>"

text \<open>The part of \<open>Begin\<close> after the lookup: capacity, then a new in-flight record.\<close>

definition begin_new ::
    "(string \<Rightarrow> string \<Rightarrow> string) \<Rightarrow> ((string \<rightharpoonup> entry) \<Rightarrow> string list) \<Rightarrow> store \<Rightarrow> gtime \<Rightarrow>
     string \<Rightarrow> string \<Rightarrow> string list \<Rightarrow> store \<times> store_decision" where
  "begin_new hmac ord s now i subj parts =
     (let s1 = (if at_capacity s subj then sweepLocked ord s now else s)
      in if at_capacity s subj \<and> at_capacity s1 subj then (s1, KindCapacity)
         else
           (case Fingerprint hmac (s_keys s1) parts of (fp, keyID) \<Rightarrow>
              (let e = \<lparr> e_addr = s_next_addr s1, e_subj = subj, e_fp = fp, e_keyID = keyID,
                         e_completed = False, e_result = no_result, e_expires = 0 \<rparr>
               in (s1\<lparr> s_recs := (s_recs s1)(i \<mapsto> e),
                       s_perSubject := (s_perSubject s1)(subj \<mapsto> subject_count s1 subj + 1),
                       s_next_addr := s_next_addr s1 + 1 \<rparr>,
                   KindNew \<lparr> h_id = i, h_addr = s_next_addr s1 \<rparr>))))"

definition Begin ::
    "(string \<Rightarrow> string) \<Rightarrow> (string \<Rightarrow> string \<Rightarrow> string) \<Rightarrow> ((string \<rightharpoonup> entry) \<Rightarrow> string list) \<Rightarrow>
     store \<Rightarrow> gtime \<Rightarrow> string \<Rightarrow> string \<Rightarrow> string list \<Rightarrow> store \<times> store_decision" where
  "Begin sha_hex hmac ord s now subject key parts =
     (let i = hashHex sha_hex [subject, key]; subj = hashHex sha_hex [subject]
      in case s_recs s i of
           None \<Rightarrow> begin_new hmac ord s now i subj parts
         | Some e \<Rightarrow>
             if expired now e then begin_new hmac ord (removeLocked s i e) now i subj parts
             else
               (case Verify hmac (s_keys s) (e_keyID e) (e_fp e) parts of
                  VerdictUnknownKey \<Rightarrow> (s, KindUnknownKey)
                | VerdictDifferent \<Rightarrow> (s, KindReused)
                | VerdictSame \<Rightarrow> if \<not> e_completed e then (s, KindConflict) else (s, KindReplay (e_result e))))"

text \<open>\<open>recs[h.id] == h.rec\<close>: the handle's own entry is still the record of its key.\<close>

definition owns :: "store \<Rightarrow> handle \<Rightarrow> bool" where
  "owns s h \<longleftrightarrow> (case s_recs s (h_id h) of None \<Rightarrow> False | Some e \<Rightarrow> e_addr e = h_addr h)"

definition Complete :: "store \<Rightarrow> gtime \<Rightarrow> handle \<Rightarrow> result \<Rightarrow> store" where
  "Complete s now h r =
     (if \<not> owns s h then s
      else s\<lparr> s_recs := (s_recs s)(h_id h \<mapsto> (the (s_recs s (h_id h)))
          \<lparr> e_completed := True, e_result := r, e_expires := now + s_ttl s \<rparr>) \<rparr>)"

definition Release :: "store \<Rightarrow> handle \<Rightarrow> store" where
  "Release s h = (if owns s h then removeLocked s (h_id h) (the (s_recs s (h_id h))) else s)"

definition Sweep :: "((string \<rightharpoonup> entry) \<Rightarrow> string list) \<Rightarrow> store \<Rightarrow> gtime \<Rightarrow> store" where
  "Sweep ord s now = sweepLocked ord s now"

subsection \<open>The invariant\<close>

definition of_subject :: "store \<Rightarrow> string \<Rightarrow> string set" where
  "of_subject s subj = {i. \<exists>e. s_recs s i = Some e \<and> e_subj e = subj}"

text \<open>The per-subject counters count the subject's records and hold no zero; the bounds hold; no two
  records share an address, and no address is from the future.\<close>

definition store_inv :: "store \<Rightarrow> bool" where
  "store_inv s \<longleftrightarrow> finite (dom (s_recs s)) \<and> 0 < s_ttl s \<and>
     int (mlen (s_recs s)) \<le> s_maxTotal s \<and>
     (\<forall>subj. subject_count s subj = int (card (of_subject s subj)) \<and> s_perSubject s subj \<noteq> Some 0 \<and>
             subject_count s subj \<le> s_maxSubject s) \<and>
     (\<forall>i e. s_recs s i = Some e \<longrightarrow> e_addr e < s_next_addr s) \<and>
     (\<forall>i j e d. s_recs s i = Some e \<longrightarrow> s_recs s j = Some d \<longrightarrow> e_addr e = e_addr d \<longrightarrow> i = j)"

lemma store_invD:
  assumes "store_inv s"
  shows "finite (dom (s_recs s))" "0 < s_ttl s" "int (mlen (s_recs s)) \<le> s_maxTotal s"
    "subject_count s subj = int (card (of_subject s subj))" "subject_count s subj \<le> s_maxSubject s"
    "s_perSubject s subj \<noteq> Some 0"
    "s_recs s i = Some e \<Longrightarrow> e_addr e < s_next_addr s"
    "s_recs s i = Some e \<Longrightarrow> s_recs s j = Some d \<Longrightarrow> e_addr e = e_addr d \<Longrightarrow> i = j"
  using assms unfolding store_inv_def by blast+

lemma store_inv_new: "0 \<le> ttl \<Longrightarrow> store_inv (NewStore keys ttl n k)"
  by (auto simp: store_inv_def NewStore_def subject_count_def of_subject_def DefaultTTL_def
      DefaultMaxRecords_def DefaultMaxPerSubject_def hour_ns_def minute_ns_def second_ns_def)

lemma finite_of_subject: "finite (dom (s_recs s)) \<Longrightarrow> finite (of_subject s subj)"
  by (rule finite_subset [of _ "dom (s_recs s)"]) (auto simp: of_subject_def)

lemma removeLocked_fields [simp]:
  "s_recs (removeLocked s i e) = (s_recs s)(i := None)" "s_keys (removeLocked s i e) = s_keys s"
  "s_ttl (removeLocked s i e) = s_ttl s" "s_maxTotal (removeLocked s i e) = s_maxTotal s"
  "s_maxSubject (removeLocked s i e) = s_maxSubject s" "s_next_addr (removeLocked s i e) = s_next_addr s"
  by (simp_all add: removeLocked_def Let_def)

lemma store_invI:
  assumes "finite (dom (s_recs s))" "0 < s_ttl s" "int (mlen (s_recs s)) \<le> s_maxTotal s"
    and "\<And>subj. subject_count s subj = int (card (of_subject s subj))"
    and "\<And>subj. s_perSubject s subj \<noteq> Some 0" "\<And>subj. subject_count s subj \<le> s_maxSubject s"
    and "\<And>i e. s_recs s i = Some e \<Longrightarrow> e_addr e < s_next_addr s"
    and "\<And>i j e d. s_recs s i = Some e \<Longrightarrow> s_recs s j = Some d \<Longrightarrow> e_addr e = e_addr d \<Longrightarrow> i = j"
  shows "store_inv s"
  unfolding store_inv_def using assms by blast

lemma removeLocked_count:
  assumes "1 \<le> subject_count s (e_subj e)"
  shows "subject_count (removeLocked s i e) x = subject_count s x - (if x = e_subj e then 1 else 0)"
    and "s_perSubject s x \<noteq> Some 0 \<Longrightarrow> s_perSubject (removeLocked s i e) x \<noteq> Some 0"
  using assms by (auto simp: removeLocked_def subject_count_def Let_def)

lemma store_inv_remove:
  assumes "store_inv s" "s_recs s i = Some e"
  shows "store_inv (removeLocked s i e)"
proof -
  note D = store_invD [OF assms(1)]
  let ?s = "removeLocked s i e"
  have os: "of_subject ?s subj = of_subject s subj - {i}" for subj
    by (auto simp: of_subject_def)
  have fin: "finite (of_subject s subj)" for subj by (rule finite_of_subject [OF D(1)])
  have i: "i \<in> of_subject s subj \<longleftrightarrow> subj = e_subj e" for subj using assms(2) by (auto simp: of_subject_def)
  have "i \<in> of_subject s (e_subj e)" by (simp add: i)
  then have pos: "1 \<le> card (of_subject s (e_subj e))"
    using fin [of "e_subj e"] by (auto simp: Suc_le_eq card_gt_0_iff)
  then have c1: "1 \<le> subject_count s (e_subj e)" using D(4) by simp
  note C = removeLocked_count [OF c1, where i = i]
  show ?thesis
  proof (rule store_invI)
    show "finite (dom (s_recs ?s))" "0 < s_ttl ?s" using D(1,2) by simp_all
    show "int (mlen (s_recs ?s)) \<le> s_maxTotal ?s" using mlen_del_le [OF D(1), of i] D(3) by simp
    show "subject_count ?s subj = int (card (of_subject ?s subj))" for subj
      unfolding C(1) os using D(4) [of subj] i [of subj] pos fin [of subj]
      by (auto simp: of_nat_diff card_Diff_singleton_if)
    show "s_perSubject ?s subj \<noteq> Some 0" for subj by (rule C(2) [OF D(6)])
    show "subject_count ?s subj \<le> s_maxSubject ?s" for subj using C(1) [of subj] D(5) [of subj] by auto
    show "e_addr d < s_next_addr ?s" if "s_recs ?s j = Some d" for j d
      using that D(7) by (auto split: if_splits)
    show "j = j'" if "s_recs ?s j = Some d" "s_recs ?s j' = Some d'" "e_addr d = e_addr d'" for j j' d d'
      using that D(8) by (auto split: if_splits)
  qed
qed

lemma sweep_one_inv: "store_inv s \<Longrightarrow> store_inv (sweep_one now i s)"
  by (auto simp: sweep_one_def store_inv_remove split: option.splits)

lemma sweep_one_fields [simp]:
  "s_keys (sweep_one now i s) = s_keys s" "s_maxTotal (sweep_one now i s) = s_maxTotal s"
  "s_maxSubject (sweep_one now i s) = s_maxSubject s" "s_next_addr (sweep_one now i s) = s_next_addr s"
  "s_ttl (sweep_one now i s) = s_ttl s"
  by (simp_all add: sweep_one_def split: option.splits)

lemma sweep_one_recs:
  "s_recs (sweep_one now i s) j = (if j = i then (case s_recs s i of None \<Rightarrow> None
     | Some e \<Rightarrow> if expired now e then None else Some e) else s_recs s j)"
  by (auto simp: sweep_one_def split: option.splits)

lemma fold_sweep:
  assumes "store_inv s"
  shows "store_inv (fold (sweep_one now) ks s)" "s_keys (fold (sweep_one now) ks s) = s_keys s"
    "s_maxTotal (fold (sweep_one now) ks s) = s_maxTotal s"
    "s_maxSubject (fold (sweep_one now) ks s) = s_maxSubject s"
    "s_next_addr (fold (sweep_one now) ks s) = s_next_addr s" "s_ttl (fold (sweep_one now) ks s) = s_ttl s"
    "s_recs (fold (sweep_one now) ks s) j = (if j \<in> set ks then (case s_recs s j of None \<Rightarrow> None
     | Some e \<Rightarrow> if expired now e then None else Some e) else s_recs s j)"
proof -
  have "store_inv (fold (sweep_one now) ks s) \<and> s_keys (fold (sweep_one now) ks s) = s_keys s \<and>
    s_maxTotal (fold (sweep_one now) ks s) = s_maxTotal s \<and>
    s_maxSubject (fold (sweep_one now) ks s) = s_maxSubject s \<and>
    s_next_addr (fold (sweep_one now) ks s) = s_next_addr s \<and> s_ttl (fold (sweep_one now) ks s) = s_ttl s \<and>
    s_recs (fold (sweep_one now) ks s) j = (if j \<in> set ks then (case s_recs s j of None \<Rightarrow> None
     | Some e \<Rightarrow> if expired now e then None else Some e) else s_recs s j)"
    using assms
  proof (induction ks arbitrary: s)
    case (Cons k ks)
    from Cons.IH [OF sweep_one_inv [OF Cons.prems]] show ?case
      by (auto simp: sweep_one_recs split: option.splits)
  qed simp
  then show "store_inv (fold (sweep_one now) ks s)" "s_keys (fold (sweep_one now) ks s) = s_keys s"
    "s_maxTotal (fold (sweep_one now) ks s) = s_maxTotal s"
    "s_maxSubject (fold (sweep_one now) ks s) = s_maxSubject s"
    "s_next_addr (fold (sweep_one now) ks s) = s_next_addr s" "s_ttl (fold (sweep_one now) ks s) = s_ttl s"
    "s_recs (fold (sweep_one now) ks s) j = (if j \<in> set ks then (case s_recs s j of None \<Rightarrow> None
     | Some e \<Rightarrow> if expired now e then None else Some e) else s_recs s j)" by simp_all
qed

text \<open>A sweep drops exactly the expired completed records.\<close>

definition unexpired :: "gtime \<Rightarrow> (string \<rightharpoonup> entry) \<Rightarrow> (string \<rightharpoonup> entry)" where
  "unexpired now recs i = (case recs i of None \<Rightarrow> None | Some e \<Rightarrow> if expired now e then None else Some e)"

lemma sweepLocked_props:
  assumes "store_inv s" "range_order ord"
  shows "store_inv (sweepLocked ord s now)" "s_keys (sweepLocked ord s now) = s_keys s"
    "s_maxTotal (sweepLocked ord s now) = s_maxTotal s" "s_maxSubject (sweepLocked ord s now) = s_maxSubject s"
    "s_next_addr (sweepLocked ord s now) = s_next_addr s" "s_ttl (sweepLocked ord s now) = s_ttl s"
    "s_recs (sweepLocked ord s now) = unexpired now (s_recs s)"
  using fold_sweep [OF assms(1), of now "ord (s_recs s)"]
    range_orderD(2) [OF assms(2) store_invD(1) [OF assms(1)]]
  by (auto simp: sweepLocked_def unexpired_def fun_eq_iff domIff split: option.splits)

lemma store_inv_insert:
  assumes "store_inv s" "s_recs s i = None" "\<not> at_capacity s subj" "e_subj e = subj" "e_addr e = s_next_addr s"
  shows "store_inv (s\<lparr> s_recs := (s_recs s)(i \<mapsto> e),
      s_perSubject := (s_perSubject s)(subj \<mapsto> subject_count s subj + 1), s_next_addr := s_next_addr s + 1 \<rparr>)"
    (is "store_inv ?s")
proof -
  note D = store_invD [OF assms(1)]
  have os: "of_subject ?s x = (if x = subj then insert i (of_subject s x) else of_subject s x)" for x
    using assms(2,4) by (auto simp: of_subject_def)
  have ni: "i \<notin> of_subject s subj" using assms(2) by (simp add: of_subject_def)
  show ?thesis
  proof (rule store_invI)
    show "finite (dom (s_recs ?s))" "0 < s_ttl ?s" using D(1,2) by simp_all
    show "int (mlen (s_recs ?s)) \<le> s_maxTotal ?s" using D(1) assms(2,3) by (simp add: at_capacity_def)
    show "subject_count ?s x = int (card (of_subject ?s x))" for x
      unfolding os using D(4) [of x] D(4) [of subj] finite_of_subject [OF D(1), of subj] ni
      by (simp add: subject_count_def)
    show "s_perSubject ?s x \<noteq> Some 0" for x
      using D(4) [of subj] D(6) [of x] by (auto simp: subject_count_def)
    show "subject_count ?s x \<le> s_maxSubject ?s" for x
      using D(5) [of x] assms(3) by (auto simp: subject_count_def at_capacity_def)
    show "e_addr d < s_next_addr ?s" if a: "s_recs ?s j = Some d" for j d
      using a D(7) [of j d] assms(5) by (auto split: if_splits)
    show "j = j'" if a: "s_recs ?s j = Some d" "s_recs ?s j' = Some d'" "e_addr d = e_addr d'" for j j' d d'
      using a D(8) [of j d j' d'] D(7) [of j d] D(7) [of j' d'] assms(5) by (auto split: if_splits)
  qed
qed

lemma begin_new_props:
  assumes s: "store_inv s" "range_order ord" "s_recs s i = None"
    and r: "begin_new hmac ord s now i subj parts = (s', d)"
  shows "store_inv s'" "s_keys s' = s_keys s" "s_ttl s' = s_ttl s" "s_next_addr s \<le> s_next_addr s'"
    and "d = KindCapacity \<or> d = KindNew \<lparr> h_id = i, h_addr = s_next_addr s \<rparr>"
    and "d = KindCapacity \<Longrightarrow> s_recs s' = unexpired now (s_recs s)"
    and "d \<noteq> KindCapacity \<Longrightarrow> s_next_addr s' = s_next_addr s + 1 \<and>
      (\<exists>e. s_recs s' i = Some e \<and> \<not> e_completed e \<and> e_addr e = s_next_addr s \<and>
         (e_fp e, e_keyID e) = Fingerprint hmac (s_keys s) parts)"
    and "j \<noteq> i \<Longrightarrow> s_recs s' j = s_recs s j \<or> s_recs s' j = unexpired now (s_recs s) j"
    and "d = KindCapacity \<longleftrightarrow> at_capacity s subj \<and> at_capacity (sweepLocked ord s now) subj"
proof -
  note W = sweepLocked_props [OF s(1,2), of now]
  define s1 where "s1 = (if at_capacity s subj then sweepLocked ord s now else s)"
  have i1: "store_inv s1" "s_keys s1 = s_keys s" "s_ttl s1 = s_ttl s" "s_next_addr s1 = s_next_addr s"
    using W s(1) by (simp_all add: s1_def)
  have n1: "s_recs s1 i = None" using s(3) W(7) by (simp add: s1_def unexpired_def)
  have r1: "s_recs s1 j = s_recs s j \<or> s_recs s1 j = unexpired now (s_recs s) j" for j
    using W(7) by (simp add: s1_def)
  let ?e = "\<lparr> e_addr = s_next_addr s1, e_subj = subj, e_fp = fst (Fingerprint hmac (s_keys s1) parts),
     e_keyID = snd (Fingerprint hmac (s_keys s1) parts), e_completed = False, e_result = no_result, e_expires = 0 \<rparr>"
  let ?s' = "s1\<lparr> s_recs := (s_recs s1)(i \<mapsto> ?e),
     s_perSubject := (s_perSubject s1)(subj \<mapsto> subject_count s1 subj + 1), s_next_addr := s_next_addr s1 + 1 \<rparr>"
  have "store_inv s' \<and> s_keys s' = s_keys s \<and> s_ttl s' = s_ttl s \<and> s_next_addr s \<le> s_next_addr s' \<and>
    (d = KindCapacity \<or> d = KindNew \<lparr> h_id = i, h_addr = s_next_addr s \<rparr>) \<and>
    (d = KindCapacity \<longrightarrow> s_recs s' = unexpired now (s_recs s)) \<and>
    (d \<noteq> KindCapacity \<longrightarrow> s_next_addr s' = s_next_addr s + 1 \<and>
      (\<exists>e. s_recs s' i = Some e \<and> \<not> e_completed e \<and> e_addr e = s_next_addr s \<and>
         (e_fp e, e_keyID e) = Fingerprint hmac (s_keys s) parts)) \<and>
    (j \<noteq> i \<longrightarrow> s_recs s' j = s_recs s j \<or> s_recs s' j = unexpired now (s_recs s) j) \<and>
    (d = KindCapacity \<longleftrightarrow> at_capacity s subj \<and> at_capacity (sweepLocked ord s now) subj)"
  proof (cases "at_capacity s subj \<and> at_capacity s1 subj")
    case True
    then have "s' = s1 \<and> d = KindCapacity" "s1 = sweepLocked ord s now"
      using r by (cases "at_capacity s subj", simp_all add: begin_new_def Let_def s1_def)+
    then show ?thesis using i1 r1 W(7) True by auto
  next
    case False
    then have sd: "s' = ?s'" "d = KindNew \<lparr> h_id = i, h_addr = s_next_addr s \<rparr>"
      using r i1(4) by (auto simp: begin_new_def Let_def s1_def case_prod_beta split: if_splits)
    have "\<not> at_capacity s1 subj" using False by (auto simp: s1_def)
    then have "store_inv ?s'" by (rule store_inv_insert [OF i1(1) n1]) simp_all
    moreover have "\<not> (at_capacity s subj \<and> at_capacity (sweepLocked ord s now) subj)"
      using False by (auto simp: s1_def)
    ultimately show ?thesis using i1 r1 [of j] sd by auto
  qed
  then show "store_inv s'" "s_keys s' = s_keys s" "s_ttl s' = s_ttl s" "s_next_addr s \<le> s_next_addr s'"
    "d = KindCapacity \<or> d = KindNew \<lparr> h_id = i, h_addr = s_next_addr s \<rparr>"
    "d = KindCapacity \<Longrightarrow> s_recs s' = unexpired now (s_recs s)"
    "d \<noteq> KindCapacity \<Longrightarrow> s_next_addr s' = s_next_addr s + 1 \<and>
      (\<exists>e. s_recs s' i = Some e \<and> \<not> e_completed e \<and> e_addr e = s_next_addr s \<and>
         (e_fp e, e_keyID e) = Fingerprint hmac (s_keys s) parts)"
    "j \<noteq> i \<Longrightarrow> s_recs s' j = s_recs s j \<or> s_recs s' j = unexpired now (s_recs s) j"
    "d = KindCapacity \<longleftrightarrow> at_capacity s subj \<and> at_capacity (sweepLocked ord s now) subj" by blast+
qed

text \<open>The effect of \<open>Begin\<close> on the records, in every case.\<close>

lemma Begin_props:
  assumes s: "store_inv s" "range_order ord"
    and r: "Begin sha_hex hmac ord s now subject key parts = (s', d)"
  defines "i \<equiv> hashHex sha_hex [subject, key]"
  shows "store_inv s'" "s_keys s' = s_keys s" "s_ttl s' = s_ttl s" "s_next_addr s \<le> s_next_addr s'"
    and "d = KindNew h \<Longrightarrow> h = \<lparr> h_id = i, h_addr = s_next_addr s \<rparr> \<and> s_next_addr s' = s_next_addr s + 1 \<and>
      (s_recs s i = None \<or> (\<exists>e. s_recs s i = Some e \<and> expired now e)) \<and>
      (\<exists>e. s_recs s' i = Some e \<and> \<not> e_completed e \<and> e_addr e = s_next_addr s \<and>
         (e_fp e, e_keyID e) = Fingerprint hmac (s_keys s) parts)"
    and "s_recs s j = Some e \<Longrightarrow> \<not> expired now e \<Longrightarrow> s_recs s' j = Some e"
    and "s_recs s' j = Some e' \<Longrightarrow> s_recs s j = Some e' \<or> (j = i \<and> (\<exists>h. d = KindNew h))"
proof -
  have i: "hashHex sha_hex [subject, key] = i" by (simp add: i_def)
  have "store_inv s' \<and> s_keys s' = s_keys s \<and> s_ttl s' = s_ttl s \<and> s_next_addr s \<le> s_next_addr s' \<and>
    (\<forall>h. d = KindNew h \<longrightarrow> h = \<lparr> h_id = i, h_addr = s_next_addr s \<rparr> \<and> s_next_addr s' = s_next_addr s + 1 \<and>
      (s_recs s i = None \<or> (\<exists>e. s_recs s i = Some e \<and> expired now e)) \<and>
      (\<exists>e. s_recs s' i = Some e \<and> \<not> e_completed e \<and> e_addr e = s_next_addr s \<and>
         (e_fp e, e_keyID e) = Fingerprint hmac (s_keys s) parts)) \<and>
    (\<forall>e. s_recs s j = Some e \<longrightarrow> \<not> expired now e \<longrightarrow> s_recs s' j = Some e) \<and>
    (\<forall>e'. s_recs s' j = Some e' \<longrightarrow> s_recs s j = Some e' \<or> (j = i \<and> (\<exists>h. d = KindNew h)))"
  proof (cases "\<exists>e. s_recs s i = Some e \<and> \<not> expired now e")
    case True
    then have "s' = s \<and> (\<forall>h. d \<noteq> KindNew h)"
      using r by (auto simp: Begin_def i Let_def split: verdict.splits if_splits)
    then show ?thesis using s(1) by auto
  next
    case False
    define s0 where "s0 = (case s_recs s i of None \<Rightarrow> s | Some e \<Rightarrow> removeLocked s i e)"
    have s0: "store_inv s0" "s_keys s0 = s_keys s" "s_ttl s0 = s_ttl s" "s_next_addr s0 = s_next_addr s"
      "s_recs s0 = (s_recs s)(i := None)"
      using s(1) store_inv_remove by (auto simp: s0_def split: option.splits)
    have b: "begin_new hmac ord s0 now i (hashHex sha_hex [subject]) parts = (s', d)"
      using r False by (auto simp: Begin_def i Let_def s0_def split: option.splits)
    have n: "s_recs s0 i = None" by (simp add: s0(5))
    note N = begin_new_props [OF s0(1) s(2) n b]
    have kept: "s_recs s' j = Some e" if e: "s_recs s j = Some e" "\<not> expired now e" for e
    proof -
      have ji: "j \<noteq> i" using e False by auto
      show ?thesis using N(8) [OF ji] ji e by (auto simp: s0(5) unexpired_def)
    qed
    have old: "s_recs s j = Some e' \<or> (j = i \<and> (\<exists>h. d = KindNew h))" if e: "s_recs s' j = Some e'" for e'
    proof (cases "j = i")
      case True
      then show ?thesis using N(5) N(6) e by (auto simp: s0(5) unexpired_def)
    next
      case ji: False
      then show ?thesis using N(8) [OF ji] e by (auto simp: s0(5) unexpired_def split: option.splits if_splits)
    qed
    show ?thesis using N(1-5) N(7) kept old False s0 by (cases "s_recs s i") auto
  qed
  then show "store_inv s'" "s_keys s' = s_keys s" "s_ttl s' = s_ttl s" "s_next_addr s \<le> s_next_addr s'"
    "d = KindNew h \<Longrightarrow> h = \<lparr> h_id = i, h_addr = s_next_addr s \<rparr> \<and> s_next_addr s' = s_next_addr s + 1 \<and>
      (s_recs s i = None \<or> (\<exists>e. s_recs s i = Some e \<and> expired now e)) \<and>
      (\<exists>e. s_recs s' i = Some e \<and> \<not> e_completed e \<and> e_addr e = s_next_addr s \<and>
         (e_fp e, e_keyID e) = Fingerprint hmac (s_keys s) parts)"
    "s_recs s j = Some e \<Longrightarrow> \<not> expired now e \<Longrightarrow> s_recs s' j = Some e"
    "s_recs s' j = Some e' \<Longrightarrow> s_recs s j = Some e' \<or> (j = i \<and> (\<exists>h. d = KindNew h))" by blast+
qed

subsection \<open>Runs\<close>

text \<open>
  A world is the store with the requests it told to execute (\<open>KindNew\<close>), in order: the handle, the
  parts of the request and whether the caller has finished it. An action is one call with the clock's
  reading; a finished handle may be called again (the store must ignore or overwrite it, never
  another record).
\<close>

record ticket =
  tk_handle :: handle
  tk_parts :: "string list"
  tk_done :: bool

datatype action =
  ABegin string string "string list" gtime
| AComplete nat result gtime
| ARelease nat
| ASweep gtime

type_synonym world = "store \<times> ticket list"

fun perform ::
    "(string \<Rightarrow> string) \<Rightarrow> (string \<Rightarrow> string \<Rightarrow> string) \<Rightarrow> ((string \<rightharpoonup> entry) \<Rightarrow> string list) \<Rightarrow>
     action \<Rightarrow> world \<Rightarrow> world" where
  "perform sha_hex hmac ord (ABegin subject key parts now) (s, ts) =
     (case Begin sha_hex hmac ord s now subject key parts of
        (s', KindNew h) \<Rightarrow> (s', ts @ [\<lparr> tk_handle = h, tk_parts = parts, tk_done = False \<rparr>])
      | (s', _) \<Rightarrow> (s', ts))"
| "perform sha_hex hmac ord (AComplete n r now) (s, ts) =
     (if n < length ts
      then (Complete s now (tk_handle (ts ! n)) r, ts[n := (ts ! n)\<lparr> tk_done := True \<rparr>]) else (s, ts))"
| "perform sha_hex hmac ord (ARelease n) (s, ts) =
     (if n < length ts
      then (Release s (tk_handle (ts ! n)), ts[n := (ts ! n)\<lparr> tk_done := True \<rparr>]) else (s, ts))"
| "perform sha_hex hmac ord (ASweep now) (s, ts) = (Sweep ord s now, ts)"

definition run_from ::
    "(string \<Rightarrow> string) \<Rightarrow> (string \<Rightarrow> string \<Rightarrow> string) \<Rightarrow> ((string \<rightharpoonup> entry) \<Rightarrow> string list) \<Rightarrow>
     action list \<Rightarrow> world \<Rightarrow> world" where
  "run_from sha_hex hmac ord acts w = fold (perform sha_hex hmac ord) acts w"

text \<open>Every unfinished ticket owns an in-flight record with its request's fingerprint, and no two
  tickets share an address.\<close>

definition ticket_ok :: "(string \<Rightarrow> string \<Rightarrow> string) \<Rightarrow> store \<Rightarrow> ticket \<Rightarrow> bool" where
  "ticket_ok hmac s t \<longleftrightarrow> h_addr (tk_handle t) < s_next_addr s \<and>
     (\<not> tk_done t \<longrightarrow> owns s (tk_handle t) \<and> \<not> e_completed (the (s_recs s (h_id (tk_handle t))))) \<and>
     (owns s (tk_handle t) \<longrightarrow>
        (e_fp (the (s_recs s (h_id (tk_handle t)))), e_keyID (the (s_recs s (h_id (tk_handle t))))) =
        Fingerprint hmac (s_keys s) (tk_parts t))"

definition world_inv :: "(string \<Rightarrow> string \<Rightarrow> string) \<Rightarrow> world \<Rightarrow> bool" where
  "world_inv hmac w \<longleftrightarrow> store_inv (fst w) \<and> list_all (ticket_ok hmac (fst w)) (snd w) \<and>
     distinct (map (h_addr \<circ> tk_handle) (snd w))"

lemma owns_iff: "owns s h \<longleftrightarrow> (\<exists>e. s_recs s (h_id h) = Some e \<and> e_addr e = h_addr h)"
  by (simp add: owns_def split: option.splits)

lemma ticket_ok_mono:
  assumes "ticket_ok hmac s t" "s_keys s' = s_keys s" "s_next_addr s \<le> s_next_addr s'"
    and "\<And>e. s_recs s' (h_id (tk_handle t)) = Some e \<Longrightarrow> e_addr e = h_addr (tk_handle t) \<Longrightarrow>
      s_recs s (h_id (tk_handle t)) = Some e"
    and "\<And>e. \<not> tk_done t \<Longrightarrow> s_recs s (h_id (tk_handle t)) = Some e \<Longrightarrow> \<not> e_completed e \<Longrightarrow>
      s_recs s' (h_id (tk_handle t)) = Some e"
  shows "ticket_ok hmac s' t"
proof -
  let ?h = "tk_handle t"
  have a: "h_addr ?h < s_next_addr s'" using assms(1,3) by (simp add: ticket_ok_def)
  have b: "owns s' ?h \<and> \<not> e_completed (the (s_recs s' (h_id ?h)))" if u: "\<not> tk_done t"
  proof -
    obtain e where e: "s_recs s (h_id ?h) = Some e" "e_addr e = h_addr ?h" "\<not> e_completed e"
      using assms(1) u by (auto simp: ticket_ok_def owns_iff)
    with assms(5) [OF u e(1,3)] show ?thesis by (simp add: owns_iff)
  qed
  have c: "(e_fp (the (s_recs s' (h_id ?h))), e_keyID (the (s_recs s' (h_id ?h)))) =
      Fingerprint hmac (s_keys s') (tk_parts t)" if ow: "owns s' ?h"
  proof -
    obtain e where e: "s_recs s' (h_id ?h) = Some e" "e_addr e = h_addr ?h" using ow by (auto simp: owns_iff)
    have "s_recs s (h_id ?h) = Some e" by (rule assms(4) [OF e])
    then show ?thesis using assms(1,2) e by (simp add: ticket_ok_def owns_iff)
  qed
  show ?thesis using a b c by (simp add: ticket_ok_def)
qed

lemma not_expired_in_flight: "\<not> e_completed e \<Longrightarrow> \<not> expired now e"
  by (simp add: expired_def)

lemma world_inv_begin:
  assumes w: "world_inv hmac (s, ts)" and o: "range_order ord"
  shows "world_inv hmac (perform sha_hex hmac ord (ABegin subject key parts now) (s, ts))"
proof -
  obtain s' d where r: "Begin sha_hex hmac ord s now subject key parts = (s', d)" by fastforce
  have si: "store_inv s" using w by (simp add: world_inv_def)
  note B = Begin_props [OF si o r]
  have ok: "ticket_ok hmac s t" if "t \<in> set ts" for t using w that by (simp add: world_inv_def list_all_iff)
  have old: "ticket_ok hmac s' t" if t: "t \<in> set ts" for t
  proof (rule ticket_ok_mono [OF ok [OF t] B(2,4)])
    fix e assume e: "s_recs s' (h_id (tk_handle t)) = Some e" "e_addr e = h_addr (tk_handle t)"
    show "s_recs s (h_id (tk_handle t)) = Some e"
    proof (rule ccontr)
      assume no: "s_recs s (h_id (tk_handle t)) \<noteq> Some e"
      then obtain h where h: "d = KindNew h" "h_id (tk_handle t) = hashHex sha_hex [subject, key]"
        using B(7) [OF e(1)] by blast
      then have "e_addr e = s_next_addr s" using B(5) [OF h(1)] e(1) by auto
      then show False using e(2) ok [OF t] by (simp add: ticket_ok_def)
    qed
  next
    fix e assume "s_recs s (h_id (tk_handle t)) = Some e" "\<not> e_completed e"
    then show "s_recs s' (h_id (tk_handle t)) = Some e" by (simp add: B(6) not_expired_in_flight)
  qed
  show ?thesis
  proof (cases "\<exists>h. d = KindNew h")
    case False
    then have "perform sha_hex hmac ord (ABegin subject key parts now) (s, ts) = (s', ts)"
      by (cases d) (simp_all add: r)
    then show ?thesis using B(1) old w by (simp add: world_inv_def list_all_iff)
  next
    case True
    then obtain h where h: "d = KindNew h" by blast
    note N = B(5) [OF h]
    let ?t = "\<lparr> tk_handle = h, tk_parts = parts, tk_done = False \<rparr>"
    have "ticket_ok hmac s' ?t" using N B(2) by (auto simp: ticket_ok_def owns_iff)
    moreover have "h_addr h \<notin> set (map (h_addr \<circ> tk_handle) ts)"
      using N ok by (fastforce simp: ticket_ok_def)
    ultimately show ?thesis using B(1) old w by (auto simp: r h world_inv_def list_all_iff)
  qed
qed

lemma finish_addr:
  assumes "world_inv hmac (s, ts)" "n < length ts" "m < length ts" "m \<noteq> n"
    and "owns s (tk_handle (ts ! n))" "s_recs s (h_id (tk_handle (ts ! m))) = Some e"
      "e_addr e = h_addr (tk_handle (ts ! m))"
  shows "h_id (tk_handle (ts ! m)) \<noteq> h_id (tk_handle (ts ! n))"
proof
  assume "h_id (tk_handle (ts ! m)) = h_id (tk_handle (ts ! n))"
  then have "h_addr (tk_handle (ts ! m)) = h_addr (tk_handle (ts ! n))"
    using assms(5-7) by (auto simp: owns_iff)
  then show False using assms(1-4) nth_eq_iff_index_eq [of "map (h_addr \<circ> tk_handle) ts" m n]
    by (simp add: world_inv_def)
qed

text \<open>Finishing one ticket does not disturb the others.\<close>

lemma world_inv_finish:
  assumes w: "world_inv hmac (s, ts)" and n: "n < length ts" and si: "store_inv s'"
    and k: "s_keys s' = s_keys s" "s_next_addr s' = s_next_addr s"
    and other: "\<And>j. j \<noteq> h_id (tk_handle (ts ! n)) \<or> \<not> owns s (tk_handle (ts ! n)) \<Longrightarrow> s_recs s' j = s_recs s j"
    and own: "\<And>e. s_recs s' (h_id (tk_handle (ts ! n))) = Some e \<Longrightarrow> owns s (tk_handle (ts ! n)) \<Longrightarrow>
      \<exists>d. s_recs s (h_id (tk_handle (ts ! n))) = Some d \<and> e_addr e = e_addr d \<and> e_fp e = e_fp d \<and> e_keyID e = e_keyID d"
  shows "world_inv hmac (s', ts[n := (ts ! n)\<lparr> tk_done := True \<rparr>])"
proof -
  let ?h = "tk_handle (ts ! n)"
  have ok: "ticket_ok hmac s (ts ! m)" if "m < length ts" for m
    using w that by (simp add: world_inv_def list_all_length)
  have "ticket_ok hmac s' (ts[n := (ts ! n)\<lparr> tk_done := True \<rparr>] ! m)" if m: "m < length ts" for m
  proof (cases "m = n")
    case True
    have "(e_fp e, e_keyID e) = Fingerprint hmac (s_keys s) (tk_parts (ts ! n))"
      if e: "s_recs s' (h_id ?h) = Some e" "e_addr e = h_addr ?h" for e
    proof (cases "owns s ?h")
      case True
      then show ?thesis using own [OF e(1)] ok [OF n] by (auto simp: ticket_ok_def owns_iff)
    next
      case False
      then show ?thesis using other e by (auto simp: owns_iff)
    qed
    then show ?thesis using True n ok [OF n] k by (auto simp: ticket_ok_def owns_iff)
  next
    case False
    have "ticket_ok hmac s' (ts ! m)"
    proof (rule ticket_ok_mono [OF ok [OF m] k(1)])
      show "s_next_addr s \<le> s_next_addr s'" using k by simp
    next
      fix e assume e: "s_recs s' (h_id (tk_handle (ts ! m))) = Some e" "e_addr e = h_addr (tk_handle (ts ! m))"
      show "s_recs s (h_id (tk_handle (ts ! m))) = Some e"
      proof (cases "h_id (tk_handle (ts ! m)) = h_id ?h \<and> owns s ?h")
        case True
        then obtain d where "s_recs s (h_id (tk_handle (ts ! m))) = Some d" "e_addr d = h_addr (tk_handle (ts ! m))"
          using own e by fastforce
        with finish_addr [OF w n m False] True show ?thesis by blast
      next
        case nt: False
        then show ?thesis using other e(1) by metis
      qed
    next
      fix e assume e: "\<not> tk_done (ts ! m)" "s_recs s (h_id (tk_handle (ts ! m))) = Some e" "\<not> e_completed e"
      have "owns s (tk_handle (ts ! m))" using ok [OF m] e(1) by (simp add: ticket_ok_def)
      then have "e_addr e = h_addr (tk_handle (ts ! m))" using e(2) by (simp add: owns_iff)
      from finish_addr [OF w n m False _ e(2) this] show "s_recs s' (h_id (tk_handle (ts ! m))) = Some e"
        using other e(2) by metis
    qed
    then show ?thesis using False by simp
  qed
  moreover have "map (h_addr \<circ> tk_handle) (ts[n := (ts ! n)\<lparr> tk_done := True \<rparr>]) = map (h_addr \<circ> tk_handle) ts"
    using n by (simp add: map_update list_update_same_conv)
  ultimately show ?thesis using si w by (simp add: world_inv_def list_all_length)
qed

lemma store_inv_complete: "store_inv s \<Longrightarrow> store_inv (Complete s now h r)"
proof -
  assume si: "store_inv s"
  note D = store_invD [OF si]
  show ?thesis
  proof (cases "owns s h")
    case False
    then show ?thesis using si by (simp add: Complete_def)
  next
    case True
    then obtain e where e: "s_recs s (h_id h) = Some e" by (auto simp: owns_iff)
    let ?s = "Complete s now h r"
    have rec: "s_recs ?s j = (if j = h_id h then Some (e\<lparr> e_completed := True, e_result := r, e_expires := now + s_ttl s \<rparr>)
        else s_recs s j)" for j using True e by (simp add: Complete_def)
    have f: "s_ttl ?s = s_ttl s" "s_maxTotal ?s = s_maxTotal s" "s_maxSubject ?s = s_maxSubject s"
      "s_next_addr ?s = s_next_addr s" "subject_count ?s = subject_count s" "s_perSubject ?s = s_perSubject s"
      using True by (auto simp: Complete_def subject_count_def fun_eq_iff)
    have dom: "dom (s_recs ?s) = dom (s_recs s)" using e by (auto simp: rec split: if_splits)
    have os: "of_subject ?s = of_subject s" using e by (auto simp: of_subject_def rec fun_eq_iff)
    show ?thesis
    proof (rule store_invI)
      show "e_addr d < s_next_addr ?s" if "s_recs ?s j = Some d" for j d
        using that e D(7) [of "h_id h" e] D(7) [of j d] by (auto simp: rec f split: if_splits)
      show "i = j" if a: "s_recs ?s i = Some d" "s_recs ?s j = Some d'" "e_addr d = e_addr d'" for i j d d'
        using a e D(8) [of "h_id h" e j d'] D(8) [of i d "h_id h" e] D(8) [of i d j d']
        by (auto simp: rec split: if_splits)
    qed (use D in \<open>simp_all add: f dom os mlen_def\<close>)
  qed
qed

lemma world_inv_perform:
  assumes w: "world_inv hmac w" and o: "range_order ord"
  shows "world_inv hmac (perform sha_hex hmac ord act w)"
proof -
  obtain s ts where [simp]: "w = (s, ts)" by fastforce
  have si: "store_inv s" using w by (simp add: world_inv_def)
  show ?thesis
  proof (cases act)
    case (ABegin subject key parts now)
    then show ?thesis using world_inv_begin w o by simp
  next
    case (AComplete n r now)
    show ?thesis
    proof (cases "n < length ts")
      case True
      have "world_inv hmac (Complete s now (tk_handle (ts ! n)) r, ts[n := (ts ! n)\<lparr> tk_done := True \<rparr>])"
        by (rule world_inv_finish [OF w [simplified] True store_inv_complete [OF si]])
           (auto simp: Complete_def owns_iff)
      then show ?thesis using True AComplete by simp
    qed (use w AComplete in simp)
  next
    case (ARelease n)
    show ?thesis
    proof (cases "n < length ts")
      case True
      have "store_inv (Release s (tk_handle (ts ! n)))"
        using si store_inv_remove by (auto simp: Release_def owns_iff)
      then have "world_inv hmac (Release s (tk_handle (ts ! n)), ts[n := (ts ! n)\<lparr> tk_done := True \<rparr>])"
        by (rule world_inv_finish [OF w [simplified] True]) (auto simp: Release_def)
      then show ?thesis using True ARelease by simp
    qed (use w ARelease in simp)
  next
    case (ASweep now)
    note W = sweepLocked_props [OF si o, of now]
    have "ticket_ok hmac (Sweep ord s now) t" if t: "t \<in> set ts" for t
    proof (rule ticket_ok_mono)
      show "ticket_ok hmac s t" using w t by (simp add: world_inv_def list_all_iff)
    qed (use W(2,5,7) in \<open>auto simp: Sweep_def unexpired_def expired_def split: option.splits if_splits\<close>)
    then show ?thesis using w W(1) ASweep by (simp add: world_inv_def list_all_iff Sweep_def)
  qed
qed

lemma world_inv_run:
  "world_inv hmac w \<Longrightarrow> range_order ord \<Longrightarrow> world_inv hmac (run_from sha_hex hmac ord acts w)"
  by (induction acts arbitrary: w) (simp_all add: run_from_def world_inv_perform)

subsection \<open>Guarantees\<close>

definition start_world :: "keyring \<Rightarrow> duration \<Rightarrow> int \<Rightarrow> int \<Rightarrow> world" where
  "start_world keys ttl n k = (NewStore keys ttl n k, [])"

lemma world_inv_start: "0 \<le> ttl \<Longrightarrow> world_inv hmac (start_world keys ttl n k)"
  by (simp add: start_world_def world_inv_def store_inv_new)

lemma run_fields:
  assumes "world_inv hmac w" "range_order ord"
  shows "s_ttl (fst (run_from sha_hex hmac ord acts w)) = s_ttl (fst w)"
proof -
  have "s_ttl (fst (perform sha_hex hmac ord a w)) = s_ttl (fst w)" if i: "world_inv hmac w" for a w
  proof -
    obtain s ts where [simp]: "w = (s, ts)" by fastforce
    have si: "store_inv s" using i by (simp add: world_inv_def)
    show ?thesis
    proof (cases a)
      case (ABegin subject key parts now)
      obtain s' d where r: "Begin sha_hex hmac ord s now subject key parts = (s', d)" by fastforce
      show ?thesis using Begin_props(3) [OF si assms(2) r] ABegin r by (cases d) simp_all
    next
      case (ASweep now)
      then show ?thesis using sweepLocked_props(6) [OF si assms(2)] by (simp add: Sweep_def)
    qed (simp_all add: Complete_def Release_def)
  qed
  with assms(1) show ?thesis
    by (induction acts arbitrary: w) (simp_all add: run_from_def world_inv_perform assms(2))
qed

text \<open>C22: at most one execution per key. In every run, requests told to execute and not yet finished
  have different record keys (so no two are for the same subject and key); while one is unfinished,
  a request with its subject and key is answered \<open>Conflict\<close> when it is the same request and \<open>Reused\<close>
  when it is another, and is never told to execute, whatever the time (in-flight records do not
  expire); and the store stays within its total and per-subject bounds.\<close>

theorem idempotency_single_flight:
  assumes "range_order ord" "0 \<le> ttl" "run_from sha_hex hmac ord acts (start_world keys ttl n k) = (s, ts)"
  shows "int (mlen (s_recs s)) \<le> s_maxTotal s \<and> int (card (of_subject s subj)) \<le> s_maxSubject s \<and>
    (\<forall>a < length ts. \<forall>b < length ts. a \<noteq> b \<longrightarrow> \<not> tk_done (ts ! a) \<longrightarrow> \<not> tk_done (ts ! b) \<longrightarrow>
       h_id (tk_handle (ts ! a)) \<noteq> h_id (tk_handle (ts ! b))) \<and>
    (\<forall>a < length ts. \<not> tk_done (ts ! a) \<longrightarrow> h_id (tk_handle (ts ! a)) = hashHex sha_hex [subject, key] \<longrightarrow>
       Begin sha_hex hmac ord s now subject key parts =
         (s, if mac hmac (fk_key (kr_current (s_keys s))) (tk_parts (ts ! a)) =
                mac hmac (fk_key (kr_current (s_keys s))) parts then KindConflict else KindReused))"
proof -
  have w: "world_inv hmac (s, ts)"
    using world_inv_run [OF world_inv_start assms(1)] assms by metis
  have si: "store_inv s" using w by (simp add: world_inv_def)
  note D = store_invD [OF si]
  have ok: "ticket_ok hmac s (ts ! a)" if "a < length ts" for a
    using w that by (simp add: world_inv_def list_all_length)
  have live: "\<exists>e. s_recs s (h_id (tk_handle (ts ! a))) = Some e \<and> e_addr e = h_addr (tk_handle (ts ! a)) \<and>
      \<not> e_completed e \<and> (e_fp e, e_keyID e) = Fingerprint hmac (s_keys s) (tk_parts (ts ! a))"
    if a: "a < length ts" "\<not> tk_done (ts ! a)" for a
    using ok [OF a(1)] a(2) by (auto simp: ticket_ok_def owns_iff)
  have "h_id (tk_handle (ts ! a)) \<noteq> h_id (tk_handle (ts ! b))"
    if ab: "a < length ts" "b < length ts" "a \<noteq> b" "\<not> tk_done (ts ! a)" "\<not> tk_done (ts ! b)" for a b
  proof -
    obtain e where e: "s_recs s (h_id (tk_handle (ts ! a))) = Some e" "e_addr e = h_addr (tk_handle (ts ! a))"
      using live [OF ab(1,4)] by blast
    have "owns s (tk_handle (ts ! b))" using live [OF ab(2,5)] by (auto simp: owns_iff)
    from finish_addr [OF w ab(2,1,3) this e] show ?thesis .
  qed
  moreover have "Begin sha_hex hmac ord s now subject key parts =
         (s, if mac hmac (fk_key (kr_current (s_keys s))) (tk_parts (ts ! a)) =
                mac hmac (fk_key (kr_current (s_keys s))) parts then KindConflict else KindReused)"
    if a: "a < length ts" "\<not> tk_done (ts ! a)" "h_id (tk_handle (ts ! a)) = hashHex sha_hex [subject, key]" for a
  proof -
    obtain e where e: "s_recs s (hashHex sha_hex [subject, key]) = Some e" "\<not> e_completed e"
      "e_fp e = fst (Fingerprint hmac (s_keys s) (tk_parts (ts ! a)))"
      "e_keyID e = snd (Fingerprint hmac (s_keys s) (tk_parts (ts ! a)))"
      using live [OF a(1,2)] a(3) by (metis fst_conv snd_conv)
    show ?thesis
      using e not_expired_in_flight [OF e(2)] by (simp add: Begin_def Let_def kr.own) (simp add: Fingerprint_def)
  qed
  ultimately show ?thesis using D(3) D(4,5) [of subj] by simp
qed

text \<open>An action leaves a ticket alone, and happens before an instant.\<close>

fun touches :: "nat \<Rightarrow> action \<Rightarrow> bool" where
  "touches n (AComplete m r now) = (m = n)"
| "touches n (ARelease m) = (m = n)"
| "touches n _ = False"

fun before :: "gtime \<Rightarrow> action \<Rightarrow> bool" where
  "before t (ABegin subject key parts now) = (now < t)"
| "before t (AComplete n r now) = (now < t)"
| "before t (ARelease n) = True"
| "before t (ASweep now) = (now < t)"

lemma completed_kept:
  assumes w: "world_inv hmac (s, ts)" and o: "range_order ord"
    and n: "n < length ts" "s_recs s (h_id (tk_handle (ts ! n))) = Some e" "e_addr e = h_addr (tk_handle (ts ! n))"
    and act: "\<not> touches n act" "before (e_expires e) act"
    and r: "perform sha_hex hmac ord act (s, ts) = (s', ts')"
  shows "s_recs s' (h_id (tk_handle (ts ! n))) = Some e" "n < length ts'" "tk_handle (ts' ! n) = tk_handle (ts ! n)"
    "s_keys s' = s_keys s"
proof -
  have si: "store_inv s" using w by (simp add: world_inv_def)
  have "s_recs s' (h_id (tk_handle (ts ! n))) = Some e \<and> n < length ts' \<and>
    tk_handle (ts' ! n) = tk_handle (ts ! n) \<and> s_keys s' = s_keys s"
  proof (cases act)
    case (ABegin subject key parts now)
    obtain s1 d where b: "Begin sha_hex hmac ord s now subject key parts = (s1, d)" by fastforce
    have "\<not> expired now e" using act(2) ABegin by (simp add: expired_def)
    with Begin_props(6) [OF si o b n(2)] Begin_props(2) [OF si o b] show ?thesis
      using r ABegin b n(1) by (cases d) (auto simp: nth_append)
  next
    case (AComplete m res now)
    show ?thesis
    proof (cases "m < length ts \<and> owns s (tk_handle (ts ! m))")
      case True
      have "h_id (tk_handle (ts ! n)) \<noteq> h_id (tk_handle (ts ! m))"
        using finish_addr [OF w _ n(1) _ _ n(2,3), of m] True act(1) AComplete by simp
      then show ?thesis using r AComplete n True act(1) by (auto simp: Complete_def nth_list_update)
    next
      case False
      then show ?thesis using r AComplete n by (auto simp: Complete_def nth_list_update split: if_splits)
    qed
  next
    case (ARelease m)
    show ?thesis
    proof (cases "m < length ts \<and> owns s (tk_handle (ts ! m))")
      case True
      have "h_id (tk_handle (ts ! n)) \<noteq> h_id (tk_handle (ts ! m))"
        using finish_addr [OF w _ n(1) _ _ n(2,3), of m] True act(1) ARelease by simp
      then show ?thesis using r ARelease n True act(1) by (auto simp: Release_def nth_list_update)
    next
      case False
      then show ?thesis using r ARelease n by (auto simp: Release_def nth_list_update split: if_splits)
    qed
  next
    case (ASweep now)
    then show ?thesis using r n act(2) sweepLocked_props(2,7) [OF si o, of now]
      by (auto simp: Sweep_def unexpired_def expired_def)
  qed
  then show "s_recs s' (h_id (tk_handle (ts ! n))) = Some e" "n < length ts'"
    "tk_handle (ts' ! n) = tk_handle (ts ! n)" "s_keys s' = s_keys s" by simp_all
qed

lemma completed_kept_run:
  assumes "world_inv hmac (s, ts)" "range_order ord"
    and "n < length ts" "s_recs s (h_id (tk_handle (ts ! n))) = Some e" "e_addr e = h_addr (tk_handle (ts ! n))"
    and "list_all (\<lambda>a. \<not> touches n a \<and> before (e_expires e) a) acts"
    and "run_from sha_hex hmac ord acts (s, ts) = (s', ts')"
  shows "s_recs s' (h_id (tk_handle (ts ! n))) = Some e" "s_keys s' = s_keys s"
proof -
  have "s_recs s' (h_id (tk_handle (ts ! n))) = Some e \<and> s_keys s' = s_keys s"
    using assms
  proof (induction acts arbitrary: s ts)
    case (Cons a acts)
    obtain s1 ts1 where p: "perform sha_hex hmac ord a (s, ts) = (s1, ts1)" by fastforce
    have a: "\<not> touches n a" "before (e_expires e) a" using Cons.prems(6) by simp_all
    note K = completed_kept [OF Cons.prems(1-5) a p]
    have "world_inv hmac (s1, ts1)" using world_inv_perform [OF Cons.prems(1,2), of sha_hex a] p by simp
    from Cons.IH [OF this Cons.prems(2) K(2)] K Cons.prems show ?case by (simp add: p run_from_def)
  qed (simp add: run_from_def)
  then show "s_recs s' (h_id (tk_handle (ts ! n))) = Some e" "s_keys s' = s_keys s" by simp_all
qed

text \<open>C23: replay. Once an executed request is completed with a result, every repetition of the same
  request before the record's time to live is over is answered with exactly that result, without
  executing and without changing the store, whatever other calls happened in between: other
  requests, other completions and releases, sweeps and a full table cannot displace the record.\<close>

theorem idempotency_replay:
  assumes "range_order ord" "0 \<le> ttl"
    and "run_from sha_hex hmac ord acts (start_world keys ttl cap k) = (s, ts)"
    and "n < length ts" "\<not> tk_done (ts ! n)" "h_id (tk_handle (ts ! n)) = hashHex sha_hex [subject, key]"
    and "run_from sha_hex hmac ord (AComplete n r t # later) (s, ts) = (s', ts')"
    and "list_all (\<lambda>a. \<not> touches n a \<and> before (t + s_ttl s) a) later" "now < t + s_ttl s"
  shows "Begin sha_hex hmac ord s' now subject key (tk_parts (ts ! n)) = (s', KindReplay r)"
proof -
  have w: "world_inv hmac (s, ts)"
    using world_inv_run [OF world_inv_start assms(1)] assms(2,3) by metis
  have ok: "ticket_ok hmac s (ts ! n)"
    using w assms(4) by (simp add: world_inv_def list_all_length)
  let ?h = "tk_handle (ts ! n)" let ?s1 = "Complete s t ?h r" let ?ts1 = "ts[n := (ts ! n)\<lparr> tk_done := True \<rparr>]"
  obtain d where d: "s_recs s (h_id ?h) = Some d" "e_addr d = h_addr ?h"
    "(e_fp d, e_keyID d) = Fingerprint hmac (s_keys s) (tk_parts (ts ! n))"
    using ok assms(5) by (auto simp: ticket_ok_def owns_iff)
  let ?e = "d\<lparr> e_completed := True, e_result := r, e_expires := t + s_ttl s \<rparr>"
  have p: "perform sha_hex hmac ord (AComplete n r t) (s, ts) = (?s1, ?ts1)"
    using assms(4) by simp
  have w1: "world_inv hmac (?s1, ?ts1)" using world_inv_perform [OF w assms(1), of sha_hex "AComplete n r t"] p by simp
  have e1: "s_recs ?s1 (h_id (tk_handle (?ts1 ! n))) = Some ?e" "e_addr ?e = h_addr (tk_handle (?ts1 ! n))"
    "s_keys ?s1 = s_keys s" "n < length ?ts1" "tk_handle (?ts1 ! n) = ?h"
    using d assms(4) by (auto simp: Complete_def owns_iff)
  have l: "list_all (\<lambda>a. \<not> touches n a \<and> before (e_expires ?e) a) later" using assms(8) by simp
  have r1: "run_from sha_hex hmac ord later (?s1, ?ts1) = (s', ts')"
    using assms(7) p by (simp add: run_from_def)
  note K = completed_kept_run [OF w1 assms(1) e1(4) e1(1,2) l r1]
  have f: "e_fp ?e = fst (Fingerprint hmac (s_keys s') (tk_parts (ts ! n)))"
    "e_keyID ?e = snd (Fingerprint hmac (s_keys s') (tk_parts (ts ! n)))"
    using d(3) K(2) e1(3) by (metis entry.ext_inject entry.surjective entry.update_convs fst_conv,
      metis entry.ext_inject entry.surjective entry.update_convs snd_conv)
  show ?thesis
    using K(1) assms(6,9) unfolding e1(5)
    by (simp add: Begin_def Let_def expired_def f [simplified] kr.own)
qed

lemma idempotency_single_flight_witness:
  "snd (Begin (\<lambda>x. x) (\<lambda>k m. m) sorted_range (fst (run_from (\<lambda>x. x) (\<lambda>k m. m) sorted_range
      [ABegin ''u'' ''k'' [''a''] 5] (start_world \<lparr> kr_current = \<lparr> fk_id = ''1'', fk_key = '''' \<rparr>, kr_previous = None \<rparr> 0 0 0)))
      99 ''u'' ''k'' [''a'']) = KindConflict"
proof -
  let ?kr = "\<lparr> kr_current = \<lparr> fk_id = ''1'', fk_key = '''' \<rparr>, kr_previous = None \<rparr>"
  let ?w = "run_from (\<lambda>x. x) (\<lambda>k m. m) sorted_range [ABegin ''u'' ''k'' [''a''] 5] (start_world ?kr 0 0 0)"
  obtain s ts where w: "?w = (s, ts)" by fastforce
  have t: "ts = [\<lparr> tk_handle = \<lparr> h_id = hashHex (\<lambda>x. x) [''u'', ''k''], h_addr = 0 \<rparr>, tk_parts = [''a''], tk_done = False \<rparr>]"
    using w by (simp add: run_from_def start_world_def Begin_def NewStore_def Let_def begin_new_def at_capacity_def
        subject_count_def Fingerprint_def DefaultMaxRecords_def DefaultMaxPerSubject_def)
  have "Begin (\<lambda>x. x) (\<lambda>k m. m) sorted_range s 99 ''u'' ''k'' [''a''] = (s, KindConflict)"
    using idempotency_single_flight [OF range_order_sorted _ w, where subject = "''u''" and key = "''k''"
        and parts = "[''a'']" and now = 99]
    by (simp add: t)
  then show ?thesis by (simp add: w)
qed

lemma idempotency_replay_witness:
  "\<exists>s ts s' ts'. run_from (\<lambda>x. x) (\<lambda>k m. m) sorted_range [ABegin ''u'' ''k'' [''a''] 5]
      (start_world \<lparr> kr_current = \<lparr> fk_id = ''1'', fk_key = '''' \<rparr>, kr_previous = None \<rparr> 100 0 0) = (s, ts) \<and>
    run_from (\<lambda>x. x) (\<lambda>k m. m) sorted_range [AComplete 0 no_result 7, ASweep 9] (s, ts) = (s', ts') \<and>
    Begin (\<lambda>x. x) (\<lambda>k m. m) sorted_range s' 50 ''u'' ''k'' [''a''] = (s', KindReplay no_result)"
proof -
  let ?kr = "\<lparr> kr_current = \<lparr> fk_id = ''1'', fk_key = '''' \<rparr>, kr_previous = None \<rparr>"
  obtain s ts where w: "run_from (\<lambda>x. x) (\<lambda>k m. m) sorted_range [ABegin ''u'' ''k'' [''a''] 5]
      (start_world ?kr 100 0 0) = (s, ts)" by fastforce
  have t: "ts = [\<lparr> tk_handle = \<lparr> h_id = hashHex (\<lambda>x. x) [''u'', ''k''], h_addr = 0 \<rparr>, tk_parts = [''a''], tk_done = False \<rparr>]"
    and ttl: "s_ttl s = 100"
    using w by (simp_all add: run_from_def start_world_def Begin_def NewStore_def Let_def begin_new_def at_capacity_def
        subject_count_def Fingerprint_def DefaultMaxRecords_def DefaultMaxPerSubject_def) auto
  obtain s' ts' where w': "run_from (\<lambda>x. x) (\<lambda>k m. m) sorted_range [AComplete 0 no_result 7, ASweep 9] (s, ts) = (s', ts')"
    by fastforce
  have "Begin (\<lambda>x. x) (\<lambda>k m. m) sorted_range s' 50 ''u'' ''k'' (tk_parts (ts ! 0)) = (s', KindReplay no_result)"
    by (rule idempotency_replay [OF range_order_sorted _ w _ _ _ w']) (simp_all add: t ttl)
  then show ?thesis using w w' by (auto simp: t)
qed

end
