(* ===== verification/SchemaClasses.thy ===== *)
theory SchemaClasses
  imports GoStrings
begin

text \<open>
  The schema package: the lexer of \<open>schema/tokenize.go\<close>, the RFC 4512 object class parser and the
  attribute inheritance of \<open>schema/objectclass.go\<close>. An error is a value of \<open>schema_error\<close>; its message
  text is not modelled. \<open>lower\<close> is \<open>strings.ToLower\<close>.
\<close>

subsection \<open>The lexer\<close>

datatype schema_error =
  UnterminatedQuote nat | Expected string "string option" | NoOID | MissingParen | EndOfInput
| UnterminatedList | DescValue | UnknownKeyword string

definition isSpace :: "char \<Rightarrow> bool" where
  "isSpace c \<longleftrightarrow> c = CHR '' '' \<or> c = CHR 0x09 \<or> c = CHR 0x0A \<or> c = CHR 0x0D"

abbreviation quote :: char where "quote \<equiv> CHR 0x27"

definition bare_char :: "char \<Rightarrow> bool" where
  "bare_char c \<longleftrightarrow> \<not> isSpace c \<and> c \<noteq> CHR ''('' \<and> c \<noteq> CHR '')'' \<and> c \<noteq> CHR ''$''"

text \<open>\<open>i\<close> is the byte offset of the rest of the input, \<open>tokens\<close> what was read before.\<close>

function (sequential) tokenize_from :: "nat \<Rightarrow> string \<Rightarrow> string list \<Rightarrow> schema_error + string list" where
  "tokenize_from i [] tokens = Inr tokens"
| "tokenize_from i (c # cs) tokens =
     (if isSpace c then tokenize_from (i + 1) cs tokens
      else if c = CHR ''('' \<or> c = CHR '')'' \<or> c = CHR ''$'' then tokenize_from (i + 1) cs (tokens @ [[c]])
      else if c = quote then
        (let q = takeWhile (\<lambda>x. x \<noteq> quote) cs
         in case dropWhile (\<lambda>x. x \<noteq> quote) cs of
              [] \<Rightarrow> Inl (UnterminatedQuote i)
            | _ # rest \<Rightarrow> tokenize_from (i + length q + 2) rest (tokens @ [q]))
      else
        (let w = c # takeWhile bare_char cs
         in tokenize_from (i + length w) (dropWhile bare_char cs) (tokens @ [w])))"
  by pat_completeness auto
termination
  by (relation "measure (\<lambda>(i, s, tokens). length s)")
    (auto simp: length_dropWhile_le less_Suc_eq_le dest!: arg_cong [of "dropWhile _ _" _ length],
     metis Suc_leD le_SucI length_dropWhile_le)

definition tokenize :: "string \<Rightarrow> schema_error + string list" where
  "tokenize s = tokenize_from 0 s []"

subsection \<open>The token cursor\<close>

text \<open>The cursor is the list of the tokens not read yet; a reader returns what it read and the rest.\<close>

type_synonym cursor = "string list"

definition next_token :: "cursor \<Rightarrow> (string \<times> cursor) option" where
  "next_token c = (case c of [] \<Rightarrow> None | t # rest \<Rightarrow> Some (t, rest))"

definition expect :: "string \<Rightarrow> cursor \<Rightarrow> schema_error + cursor" where
  "expect want c =
     (case next_token c of
        None \<Rightarrow> Inl (Expected want None)
      | Some (got, rest) \<Rightarrow> if got \<noteq> want then Inl (Expected want (Some got)) else Inr rest)"

fun read_list :: "bool \<Rightarrow> cursor \<Rightarrow> string list \<Rightarrow> schema_error + string list \<times> cursor" where
  "read_list dollars [] out = Inl UnterminatedList"
| "read_list dollars (v # rest) out =
     (if v = '')'' then Inr (out, rest)
      else if dollars \<and> v = ''$'' then read_list dollars rest out
      else read_list dollars rest (out @ [v]))"

definition readOids :: "cursor \<Rightarrow> schema_error + string list \<times> cursor" where
  "readOids c =
     (case c of
        [] \<Rightarrow> Inl EndOfInput
      | tok # rest \<Rightarrow> if tok \<noteq> ''('' then Inr ([tok], rest) else read_list True rest [])"

definition readQDescrs :: "cursor \<Rightarrow> schema_error + string list \<times> cursor" where
  "readQDescrs c =
     (case c of
        [] \<Rightarrow> Inl EndOfInput
      | tok # rest \<Rightarrow> if tok \<noteq> ''('' then Inr ([tok], rest) else read_list False rest [])"

lemma read_list_shorter: "read_list b c out = Inr (xs, rest) \<Longrightarrow> length rest < length c"
  by (induction b c out rule: read_list.induct) (fastforce split: if_splits)+

lemma readers_shorter:
  "readOids c = Inr (xs, rest) \<Longrightarrow> length rest < length c"
  "readQDescrs c = Inr (xs, rest) \<Longrightarrow> length rest < length c"
  by (auto simp: readOids_def readQDescrs_def split: list.splits if_splits dest!: read_list_shorter)

subsection \<open>Object classes\<close>

datatype kind = KindStructural | KindAuxiliary | KindAbstract

record objectclass =
  oc_oid :: string
  oc_names :: "string list"
  oc_name :: string
  oc_sup :: "string list"
  oc_must :: "string list"
  oc_may :: "string list"
  oc_kind :: kind

function (sequential) parse_body :: "cursor \<Rightarrow> objectclass \<Rightarrow> schema_error + objectclass" where
  "parse_body [] oc = Inl MissingParen"
| "parse_body (tok # c) oc =
     (if tok = '')'' then Inr (case oc_names oc of [] \<Rightarrow> oc | n # _ \<Rightarrow> oc\<lparr> oc_name := n \<rparr>)
      else if tok = ''NAME'' then
        (case readQDescrs c of Inl e \<Rightarrow> Inl e | Inr (names, rest) \<Rightarrow> parse_body rest (oc\<lparr> oc_names := names \<rparr>))
      else if tok = ''DESC'' then
        (case next_token c of None \<Rightarrow> Inl DescValue | Some (_, rest) \<Rightarrow> parse_body rest oc)
      else if tok = ''OBSOLETE'' then parse_body c oc
      else if tok = ''SUP'' then
        (case readOids c of Inl e \<Rightarrow> Inl e | Inr (sups, rest) \<Rightarrow> parse_body rest (oc\<lparr> oc_sup := sups \<rparr>))
      else if tok = ''STRUCTURAL'' then parse_body c (oc\<lparr> oc_kind := KindStructural \<rparr>)
      else if tok = ''AUXILIARY'' then parse_body c (oc\<lparr> oc_kind := KindAuxiliary \<rparr>)
      else if tok = ''ABSTRACT'' then parse_body c (oc\<lparr> oc_kind := KindAbstract \<rparr>)
      else if tok = ''MUST'' then
        (case readOids c of Inl e \<Rightarrow> Inl e | Inr (must, rest) \<Rightarrow> parse_body rest (oc\<lparr> oc_must := must \<rparr>))
      else if tok = ''MAY'' then
        (case readOids c of Inl e \<Rightarrow> Inl e | Inr (may, rest) \<Rightarrow> parse_body rest (oc\<lparr> oc_may := may \<rparr>))
      else if has_prefix tok ''X-'' then
        (case readQDescrs c of Inl e \<Rightarrow> Inl e | Inr (_, rest) \<Rightarrow> parse_body rest oc)
      else Inl (UnknownKeyword tok))"
  by pat_completeness auto
termination
  by (relation "measure (\<lambda>(c, oc). length c)")
    (auto simp: next_token_def less_Suc_eq dest: readers_shorter split: list.splits)

definition ParseObjectClass :: "string \<Rightarrow> schema_error + objectclass" where
  "ParseObjectClass def =
     (case tokenize def of
        Inl e \<Rightarrow> Inl e
      | Inr tokens \<Rightarrow>
          (case expect ''('' tokens of
             Inl e \<Rightarrow> Inl e
           | Inr c \<Rightarrow>
               (case next_token c of
                  None \<Rightarrow> Inl NoOID
                | Some (oid, rest) \<Rightarrow>
                    parse_body rest \<lparr> oc_oid = oid, oc_names = [], oc_name = '''', oc_sup = [], oc_must = [],
                                      oc_may = [], oc_kind = KindStructural \<rparr>)))"

subsection \<open>Inheritance\<close>

text \<open>The index, newest binding first; a lookup is \<open>map_of\<close> on the lowered name.\<close>

type_synonym schema = "(string \<times> objectclass) list"

definition NewSchema :: "(string \<Rightarrow> string) \<Rightarrow> objectclass list \<Rightarrow> schema" where
  "NewSchema lower classes =
     fold (\<lambda>oc s. fold (\<lambda>name s. (lower name, oc) # s) (oc_names oc) s) classes []"

definition lookup_class :: "(string \<Rightarrow> string) \<Rightarrow> schema \<Rightarrow> string \<Rightarrow> objectclass option" where
  "lookup_class lower s name = map_of s (lower name)"

text \<open>The recursive \<open>visit\<close> with its call stack made explicit: the names still to visit, in the order the
  calls happen. The state is the visited keys and the two attribute sets.\<close>

type_synonym visit_state = "string set \<times> string set \<times> string set"

lemma card_visit_less:
  "map_of s k = Some oc \<Longrightarrow> k \<notin> visited \<Longrightarrow> card (fst ` set s - insert k visited) < card (fst ` set s - visited)"
proof -
  assume k: "map_of s k = Some oc" "k \<notin> visited"
  then have "k \<in> fst ` set s" by (force dest: map_of_SomeD)
  with k(2) show ?thesis by (intro psubset_card_mono) auto
qed

lemma card_visit_same:
  "map_of s k = None \<Longrightarrow> fst ` set s - insert k visited = fst ` set s - visited"
  by (auto simp: map_of_eq_None_iff)

function (sequential) visit :: "(string \<Rightarrow> string) \<Rightarrow> schema \<Rightarrow> string list \<Rightarrow> visit_state \<Rightarrow> visit_state" where
  "visit lower s [] st = st"
| "visit lower s (name # rest) (visited, must, may) =
     (if lower name \<in> visited then visit lower s rest (visited, must, may)
      else (case map_of s (lower name) of
              None \<Rightarrow> visit lower s rest (insert (lower name) visited, must, may)
            | Some oc \<Rightarrow> visit lower s (oc_sup oc @ rest)
                (insert (lower name) visited, must \<union> set (oc_must oc), may \<union> set (oc_may oc))))"
  by pat_completeness auto

termination
  by (relation "measures [\<lambda>(lower, s, names, visited, _). card (fst ` set s - visited), \<lambda>(lower, s, names, _). length names]")
    (auto simp: card_visit_less card_visit_same)

definition sortedKeys :: "string set \<Rightarrow> string list" where
  "sortedKeys S = sorted_list_of_set S"

definition EffectiveAttributes :: "(string \<Rightarrow> string) \<Rightarrow> schema \<Rightarrow> string list \<Rightarrow> string list \<times> string list" where
  "EffectiveAttributes lower s names =
     (case visit lower s names ({}, {}, {}) of (_, must, may) \<Rightarrow> (sortedKeys must, sortedKeys (may - must)))"

subsection \<open>Printing a class and reading it back\<close>

datatype lexeme = Word string | Quoted string

primrec lex_text :: "lexeme \<Rightarrow> string" where
  "lex_text (Word w) = w"
| "lex_text (Quoted q) = quote # q @ [quote]"

primrec lex_token :: "lexeme \<Rightarrow> string" where
  "lex_token (Word w) = w"
| "lex_token (Quoted q) = q"

definition bare_word :: "string \<Rightarrow> bool" where
  "bare_word w \<longleftrightarrow> w \<noteq> [] \<and> hd w \<noteq> quote \<and> list_all bare_char w"

primrec lex_ok :: "lexeme \<Rightarrow> bool" where
  "lex_ok (Word w) \<longleftrightarrow> bare_word w \<or> w \<in> {''('', '')'', ''$''}"
| "lex_ok (Quoted q) \<longleftrightarrow> quote \<notin> set q"

definition lexemes_text :: "lexeme list \<Rightarrow> string" where
  "lexemes_text ls = concat (map (\<lambda>l. lex_text l @ '' '') ls)"

lemma takeWhile_stop: "list_all P w \<Longrightarrow> \<not> P c \<Longrightarrow> takeWhile P (w @ c # rest) = w"
  "list_all P w \<Longrightarrow> \<not> P c \<Longrightarrow> dropWhile P (w @ c # rest) = c # rest"
  by (induction w) auto

lemma tokenize_lexeme:
  assumes "lex_ok l"
  shows "tokenize_from i (lex_text l @ '' '' @ rest) tokens =
    tokenize_from (i + length (lex_text l) + 1) rest (tokens @ [lex_token l])"
proof (cases l)
  case (Word w)
  show ?thesis
  proof (cases "bare_word w")
    case True
    then obtain c cs where w: "w = c # cs" "bare_char c" "c \<noteq> quote" "list_all bare_char cs"
      by (cases w) (auto simp: bare_word_def)
    have s: "\<not> bare_char (CHR '' '')" "isSpace (CHR '' '')" by (simp_all add: bare_char_def isSpace_def)
    then show ?thesis using w takeWhile_stop [OF w(4) s(1)] by (simp add: Word bare_char_def [of c])
  next
    case False
    then have "w \<in> {''('', '')'', ''$''}" using assms Word by simp
    then show ?thesis by (auto simp: Word isSpace_def)
  qed
next
  case (Quoted q)
  then have q: "list_all (\<lambda>x. x \<noteq> quote) q" using assms by (auto simp: list_all_iff)
  show ?thesis using takeWhile_stop [OF q, of quote] by (simp add: Quoted isSpace_def)
qed

lemma tokenize_lexemes:
  "list_all lex_ok ls \<Longrightarrow> tokenize_from i (lexemes_text ls) tokens = Inr (tokens @ map lex_token ls)"
proof (induction ls arbitrary: i tokens)
  case (Cons l ls)
  then show ?case using tokenize_lexeme [of l i "lexemes_text ls" tokens] by (simp add: lexemes_text_def)
qed (simp add: lexemes_text_def)

fun dollar_list :: "string list \<Rightarrow> lexeme list" where
  "dollar_list [] = []"
| "dollar_list [x] = [Word x]"
| "dollar_list (x # xs) = Word x # Word ''$'' # dollar_list xs"

definition clause :: "string \<Rightarrow> string list \<Rightarrow> lexeme list" where
  "clause kw xs = (if xs = [] then [] else Word kw # Word ''('' # dollar_list xs @ [Word '')''])"

definition kind_word :: "kind \<Rightarrow> string" where
  "kind_word k = (case k of KindStructural \<Rightarrow> ''STRUCTURAL'' | KindAuxiliary \<Rightarrow> ''AUXILIARY'' | KindAbstract \<Rightarrow> ''ABSTRACT'')"

definition class_lexemes :: "objectclass \<Rightarrow> lexeme list" where
  "class_lexemes oc =
     [Word ''('', Word (oc_oid oc), Word ''NAME'', Word ''(''] @ map Quoted (oc_names oc) @ [Word '')''] @
     clause ''SUP'' (oc_sup oc) @ [Word (kind_word (oc_kind oc))] @ clause ''MUST'' (oc_must oc) @
     clause ''MAY'' (oc_may oc) @ [Word '')'']"

definition print_class :: "objectclass \<Rightarrow> string" where
  "print_class oc = lexemes_text (class_lexemes oc)"

definition wf_class :: "objectclass \<Rightarrow> bool" where
  "wf_class oc \<longleftrightarrow> bare_word (oc_oid oc) \<and> list_all (\<lambda>n. quote \<notin> set n \<and> n \<noteq> '')'') (oc_names oc) \<and>
     oc_name oc = (case oc_names oc of [] \<Rightarrow> '''' | n # _ \<Rightarrow> n) \<and>
     list_all bare_word (oc_sup oc) \<and> list_all bare_word (oc_must oc) \<and> list_all bare_word (oc_may oc)"

lemma bare_word_special: "bare_word w \<Longrightarrow> w \<noteq> ''('' \<and> w \<noteq> '')'' \<and> w \<noteq> ''$''"
  by (auto simp: bare_word_def bare_char_def)

lemma dollar_list_ok: "list_all bare_word xs \<Longrightarrow> list_all lex_ok (dollar_list xs)"
  by (induction xs rule: dollar_list.induct) auto

lemma read_dollar_list:
  "list_all bare_word xs \<Longrightarrow>
     read_list True (map lex_token (dollar_list xs) @ '')'' # rest) out = Inr (out @ xs, rest)"
  by (induction xs arbitrary: out rule: dollar_list.induct) (auto dest: bare_word_special)

lemma read_names:
  "list_all (\<lambda>n. n \<noteq> '')'') ns \<Longrightarrow> read_list False (ns @ '')'' # rest) out = Inr (out @ ns, rest)"
  by (induction ns arbitrary: out) auto

text \<open>The parser's equation for each keyword.\<close>

lemma parse_keyword:
  "parse_body ('')'' # c) oc = Inr (case oc_names oc of [] \<Rightarrow> oc | n # _ \<Rightarrow> oc\<lparr> oc_name := n \<rparr>)"
  "parse_body (''NAME'' # c) oc =
    (case readQDescrs c of Inl e \<Rightarrow> Inl e | Inr (names, rest) \<Rightarrow> parse_body rest (oc\<lparr> oc_names := names \<rparr>))"
  "parse_body (''SUP'' # c) oc =
    (case readOids c of Inl e \<Rightarrow> Inl e | Inr (sups, rest) \<Rightarrow> parse_body rest (oc\<lparr> oc_sup := sups \<rparr>))"
  "parse_body (''STRUCTURAL'' # c) oc = parse_body c (oc\<lparr> oc_kind := KindStructural \<rparr>)"
  "parse_body (''AUXILIARY'' # c) oc = parse_body c (oc\<lparr> oc_kind := KindAuxiliary \<rparr>)"
  "parse_body (''ABSTRACT'' # c) oc = parse_body c (oc\<lparr> oc_kind := KindAbstract \<rparr>)"
  "parse_body (''MUST'' # c) oc =
    (case readOids c of Inl e \<Rightarrow> Inl e | Inr (must, rest) \<Rightarrow> parse_body rest (oc\<lparr> oc_must := must \<rparr>))"
  "parse_body (''MAY'' # c) oc =
    (case readOids c of Inl e \<Rightarrow> Inl e | Inr (may, rest) \<Rightarrow> parse_body rest (oc\<lparr> oc_may := may \<rparr>))"
  by (subst parse_body.simps, simp del: parse_body.simps)+

lemma oc_same:
  "oc_sup oc = [] \<Longrightarrow> oc\<lparr> oc_sup := [] \<rparr> = oc" "oc_must oc = [] \<Longrightarrow> oc\<lparr> oc_must := [] \<rparr> = oc"
  "oc_may oc = [] \<Longrightarrow> oc\<lparr> oc_may := [] \<rparr> = oc" for oc :: objectclass
  by (cases oc, simp)+

lemma read_clause:
  "list_all bare_word xs \<Longrightarrow> xs \<noteq> [] \<Longrightarrow>
     readOids (map lex_token (Word ''('' # dollar_list xs @ [Word '')'']) @ rest) = Inr (xs, rest)"
  using read_dollar_list [of xs rest "[]"] by (simp add: readOids_def)

lemma parse_clause:
  assumes "list_all bare_word xs"
  shows "oc_sup oc = [] \<Longrightarrow> parse_body (map lex_token (clause ''SUP'' xs) @ rest) oc = parse_body rest (oc\<lparr> oc_sup := xs \<rparr>)"
    "oc_must oc = [] \<Longrightarrow> parse_body (map lex_token (clause ''MUST'' xs) @ rest) oc = parse_body rest (oc\<lparr> oc_must := xs \<rparr>)"
    "oc_may oc = [] \<Longrightarrow> parse_body (map lex_token (clause ''MAY'' xs) @ rest) oc = parse_body rest (oc\<lparr> oc_may := xs \<rparr>)"
  using read_clause [OF assms, of rest]
  by (cases "xs = []"; simp add: clause_def oc_same parse_keyword del: parse_body.simps)+

lemma parse_names:
  "list_all (\<lambda>n. n \<noteq> '')'') ns \<Longrightarrow>
     parse_body (''NAME'' # ''('' # ns @ '')'' # rest) oc = parse_body rest (oc\<lparr> oc_names := ns \<rparr>)"
  using read_names [of ns rest "[]"] by (simp add: readQDescrs_def parse_keyword del: parse_body.simps)

lemma parse_kind: "parse_body (kind_word k # rest) oc = parse_body rest (oc\<lparr> oc_kind := k \<rparr>)"
  by (cases k) (simp_all add: kind_word_def parse_keyword del: parse_body.simps)

lemma kind_word_ok: "bare_word (kind_word k)"
  by (cases k) (simp_all add: kind_word_def bare_word_def bare_char_def isSpace_def)

lemma keyword_ok: "bare_word ''NAME''" "bare_word ''SUP''" "bare_word ''MUST''" "bare_word ''MAY''"
  by (simp_all add: bare_word_def bare_char_def isSpace_def)

lemma clause_ok: "bare_word kw \<Longrightarrow> list_all bare_word xs \<Longrightarrow> list_all lex_ok (clause kw xs)"
  by (simp add: clause_def dollar_list_ok)

lemma names_ok: "list_all (\<lambda>n. quote \<notin> set n \<and> n \<noteq> '')'') ns \<Longrightarrow> list_all lex_ok (map Quoted ns)"
  by (induction ns) simp_all

lemma class_lexemes_ok: "wf_class oc \<Longrightarrow> list_all lex_ok (class_lexemes oc)"
  by (simp add: wf_class_def class_lexemes_def clause_ok names_ok kind_word_ok keyword_ok)

text \<open>C33: printing and parsing an object class. Take a class whose OID, superiors, required and optional
  attributes are bare words (non-empty, not starting with a quote, no space, parenthesis or dollar inside),
  whose names contain no quote and are not a lone closing parenthesis (which the parser cannot tell from the
  end of the list), and whose displayed name is the first of its names, or empty when it has none. The
  parser reads the RFC 4512 text of such a class back as exactly that class: every name, superior, required
  and optional attribute, and the kind.\<close>

theorem ParseObjectClass_roundtrip:
  assumes "list_all (\<lambda>w. w \<noteq> '''' \<and> hd w \<noteq> CHR 0x27 \<and>
      list_all (\<lambda>c. \<not> isSpace c \<and> c \<noteq> CHR ''('' \<and> c \<noteq> CHR '')'' \<and> c \<noteq> CHR ''$'') w)
      (oc_oid oc # oc_sup oc @ oc_must oc @ oc_may oc)"
    and "list_all (\<lambda>n. CHR 0x27 \<notin> set n \<and> n \<noteq> '')'') (oc_names oc)"
    and "oc_name oc = (case oc_names oc of [] \<Rightarrow> '''' | n # _ \<Rightarrow> n)"
  shows "ParseObjectClass (print_class oc) = Inr oc"
proof -
  from assms have wf: "wf_class oc"
    by (auto simp: wf_class_def bare_word_def bare_char_def list_all_iff)
  have n: "list_all (\<lambda>n. n \<noteq> '')'') (oc_names oc)" and b: "list_all bare_word (oc_sup oc)"
    "list_all bare_word (oc_must oc)" "list_all bare_word (oc_may oc)"
    and nm: "oc_name oc = (case oc_names oc of [] \<Rightarrow> '''' | n # _ \<Rightarrow> n)"
    using wf by (auto simp: wf_class_def list_all_iff)
  have t: "tokenize (print_class oc) = Inr (map lex_token (class_lexemes oc))"
    using tokenize_lexemes [OF class_lexemes_ok [OF wf]] by (simp add: tokenize_def print_class_def)
  have c: "map lex_token (class_lexemes oc) = ''('' # oc_oid oc # ''NAME'' # ''('' # oc_names oc @ '')'' #
      map lex_token (clause ''SUP'' (oc_sup oc)) @ kind_word (oc_kind oc) # map lex_token (clause ''MUST'' (oc_must oc)) @
      map lex_token (clause ''MAY'' (oc_may oc)) @ ['')'']"
    by (simp add: class_lexemes_def comp_def)
  have "ParseObjectClass (print_class oc) = Inr \<lparr> oc_oid = oc_oid oc, oc_names = oc_names oc,
      oc_name = (case oc_names oc of [] \<Rightarrow> '''' | n # _ \<Rightarrow> n), oc_sup = oc_sup oc, oc_must = oc_must oc,
      oc_may = oc_may oc, oc_kind = oc_kind oc \<rparr>"
    unfolding ParseObjectClass_def t c
    by (simp add: expect_def next_token_def parse_names [OF n] parse_kind
        parse_clause [OF b(1)] parse_clause [OF b(2)] parse_clause [OF b(3)] parse_keyword(1) del: parse_body.simps
        split: list.split)
  then show ?thesis using nm by (cases oc) simp
qed

definition sample_class :: objectclass where
  "sample_class = \<lparr> oc_oid = ''2.5.6.6'', oc_names = [''person''], oc_name = ''person'', oc_sup = [''top''],
     oc_must = [''sn'', ''cn''], oc_may = [''seeAlso''], oc_kind = KindStructural \<rparr>"

lemma ParseObjectClass_roundtrip_witness: "ParseObjectClass (print_class sample_class) = Inr sample_class"
  by (rule ParseObjectClass_roundtrip)
    (simp_all add: sample_class_def isSpace_def)

subsection \<open>Effective attributes\<close>

text \<open>The keys a list of names leads to along the superiors.\<close>

inductive inherits :: "(string \<Rightarrow> string) \<Rightarrow> schema \<Rightarrow> string list \<Rightarrow> string \<Rightarrow> bool" for lower s names where
  direct: "name \<in> set names \<Longrightarrow> inherits lower s names (lower name)"
| superior: "inherits lower s names k \<Longrightarrow> map_of s k = Some oc \<Longrightarrow> sp \<in> set (oc_sup oc) \<Longrightarrow> inherits lower s names (lower sp)"

definition attrs_of :: "(objectclass \<Rightarrow> string list) \<Rightarrow> schema \<Rightarrow> string set \<Rightarrow> string set" where
  "attrs_of f s ks = (\<Union>k \<in> ks. case map_of s k of None \<Rightarrow> {} | Some oc \<Rightarrow> set (f oc))"

lemma attrs_of_insert [simp]:
  "attrs_of f s (insert k ks) = (case map_of s k of None \<Rightarrow> {} | Some oc \<Rightarrow> set (f oc)) \<union> attrs_of f s ks"
  by (simp add: attrs_of_def)

text \<open>What is visited or still to visit contains the superiors of all that was visited.\<close>

definition closed_upto :: "(string \<Rightarrow> string) \<Rightarrow> schema \<Rightarrow> string set \<Rightarrow> string set \<Rightarrow> bool" where
  "closed_upto lower s visited todo \<longleftrightarrow>
     (\<forall>k \<in> visited. \<forall>oc. map_of s k = Some oc \<longrightarrow> lower ` set (oc_sup oc) \<subseteq> visited \<union> todo)"

lemma visit_closed:
  "visit lower s names (v, m, y) = (v', m', y') \<Longrightarrow> closed_upto lower s v (lower ` set names) \<Longrightarrow>
     v \<subseteq> v' \<and> lower ` set names \<subseteq> v' \<and> closed_upto lower s v' {}"
proof (induction lower s names "(v, m, y)" arbitrary: v m y rule: visit.induct)
  case (2 lower s name rest v m y)
  let ?k = "lower name"
  consider "?k \<in> v" | "?k \<notin> v" "map_of s ?k = None" | oc where "?k \<notin> v" "map_of s ?k = Some oc" by blast
  then show ?case
  proof cases
    case 1
    then have "closed_upto lower s v (lower ` set rest)" using 2(5) by (simp add: closed_upto_def insert_absorb)
    from 2(1) [OF 1 _ this] 2(4) 1 show ?thesis by auto
  next
    case 2
    note c = 2
    have "closed_upto lower s (insert ?k v) (lower ` set rest)" using "2.prems"(2) c by (auto simp: closed_upto_def)
    from "2.hyps"(2) [OF c _ this] "2.prems"(1) c show ?thesis by auto
  next
    case (3 oc)
    have "closed_upto lower s (insert ?k v) (lower ` set (oc_sup oc @ rest))"
      using "2.prems"(2) 3 by (auto simp: closed_upto_def)
    from "2.hyps"(3) [OF 3 _ this] "2.prems"(1) 3 show ?thesis by auto
  qed
qed simp

lemma visit_attrs:
  assumes "visit lower s names (v, attrs_of oc_must s v, attrs_of oc_may s v) = (v', m', y')"
  shows "m' = attrs_of oc_must s v' \<and> y' = attrs_of oc_may s v'"
  using assms
proof (induction lower s names "(v, attrs_of oc_must s v, attrs_of oc_may s v)" arbitrary: v rule: visit.induct)
  case (2 lower s name rest v)
  let ?k = "lower name"
  consider "?k \<in> v" | "?k \<notin> v" "map_of s ?k = None" | oc where "?k \<notin> v" "map_of s ?k = Some oc" by blast
  then show ?case
  proof cases
    case 1
    then show ?thesis using "2.hyps"(1) [OF 1] "2.prems" by simp
  next
    case c: 2
    then show ?thesis using "2.hyps"(2) [OF c] "2.prems" by simp
  next
    case (3 oc)
    then show ?thesis using "2.hyps"(3) [OF 3] "2.prems" by (simp add: Un_commute)
  qed
qed simp

lemma visit_reach:
  "visit lower s names (v, m, y) = (v', m', y') \<Longrightarrow> \<forall>k \<in> v \<union> lower ` set names. inherits lower s ns k \<Longrightarrow>
     \<forall>k \<in> v'. inherits lower s ns k"
proof (induction lower s names "(v, m, y)" arbitrary: v m y rule: visit.induct)
  case (2 lower s name rest v m y)
  let ?k = "lower name"
  have k: "inherits lower s ns ?k" using "2.prems"(2) by simp
  consider "?k \<in> v" | "?k \<notin> v" "map_of s ?k = None" | oc where "?k \<notin> v" "map_of s ?k = Some oc" by blast
  then show ?case
  proof cases
    case 1
    then show ?thesis using "2.hyps"(1) [OF 1] "2.prems" by simp
  next
    case c: 2
    then show ?thesis using "2.hyps"(2) [OF c] "2.prems" by simp
  next
    case (3 oc)
    have "\<forall>k \<in> insert ?k v \<union> lower ` set (oc_sup oc @ rest). inherits lower s ns k"
      using "2.prems"(2) superior [OF k 3(2)] by auto
    then show ?thesis using "2.hyps"(3) [OF 3] "2.prems"(1) 3 by simp
  qed
qed simp

text \<open>C34: inheritance. For any object class names, the effective attributes are those of exactly the
  classes reachable from them along the superiors, cycles and unknown names included: the required list
  is every attribute some reachable class requires, the optional list every attribute some reachable
  class allows and none requires, both sorted and without duplicates.\<close>

theorem EffectiveAttributes_correct:
  "EffectiveAttributes lower s names =
     (let reached = {k. inherits lower s names k}
      in (sorted_list_of_set (attrs_of oc_must s reached),
          sorted_list_of_set (attrs_of oc_may s reached - attrs_of oc_must s reached)))"
proof -
  obtain v m y where V: "visit lower s names ({}, {}, {}) = (v, m, y)" by (metis prod_cases3)
  have A: "m = attrs_of oc_must s v" "y = attrs_of oc_may s v"
    using visit_attrs [of lower s names "{}"] V by (simp_all add: attrs_of_def)
  have C: "lower ` set names \<subseteq> v" "closed_upto lower s v {}"
    using visit_closed [OF V] by (simp_all add: closed_upto_def)
  have "inherits lower s names k" if "k \<in> v" for k
    using visit_reach [OF V, of names] that by (auto intro: direct)
  moreover have "k \<in> v" if "inherits lower s names k" for k
    using that C by induction (auto simp: closed_upto_def image_subset_iff)
  ultimately have "v = {k. inherits lower s names k}" by blast
  then show ?thesis by (simp add: EffectiveAttributes_def V A sortedKeys_def Let_def)
qed

end
