(* ===== verification/SessionStore.thy ===== *)
theory SessionStore
  imports GoPrelude
begin

text \<open>
  The in-memory session table of \<open>session/store.go\<close>. A bound LDAP client is the number of its
  connection; \<open>ss_closed\<close> lists the connections closed so far, in order. Every exported method is one
  step (the clients are closed after the mutex is released, on sessions no other call can reach).
  \<open>gen\<close> is the result of \<open>newSessionID\<close> (\<open>None\<close> when the random source fails), \<open>ord\<close> the order of the
  sweep's range loop. \<open>RunJanitor\<close> is a sequence of \<open>sweep\<close> steps.
\<close>

record session =
  se_id :: string
  se_dn :: string
  se_bound :: nat
  se_id_token :: string
  se_expires :: gtime

record session_store =
  ss_sessions :: "string \<rightharpoonup> session"
  ss_ttl :: duration
  ss_closed :: "nat list"

definition NewSessionStore :: "duration \<Rightarrow> session_store" where
  "NewSessionStore ttl = \<lparr> ss_sessions = Map.empty, ss_ttl = ttl, ss_closed = [] \<rparr>"

definition create :: "session_store \<Rightarrow> gtime \<Rightarrow> string option \<Rightarrow> string \<Rightarrow> nat \<Rightarrow> string \<Rightarrow> session_store \<times> session option" where
  "create s now gen dn bound idToken =
     (case gen of
        None \<Rightarrow> (s, None)
      | Some i \<Rightarrow>
          (let sess = \<lparr> se_id = i, se_dn = dn, se_bound = bound, se_id_token = idToken, se_expires = now + ss_ttl s \<rparr>
           in (s\<lparr> ss_sessions := (ss_sessions s)(i \<mapsto> sess) \<rparr>, Some sess)))"

definition Create :: "session_store \<Rightarrow> gtime \<Rightarrow> string option \<Rightarrow> string \<Rightarrow> nat \<Rightarrow> session_store \<times> session option" where
  "Create s now gen dn bound = create s now gen dn bound ''''"

definition CreateSSO :: "session_store \<Rightarrow> gtime \<Rightarrow> string option \<Rightarrow> string \<Rightarrow> nat \<Rightarrow> string \<Rightarrow> session_store \<times> session option" where
  "CreateSSO s now gen dn bound idToken = create s now gen dn bound idToken"

definition session_Get :: "session_store \<Rightarrow> gtime \<Rightarrow> string \<Rightarrow> session_store \<times> session option" where
  "session_Get s now i =
     (case ss_sessions s i of
        None \<Rightarrow> (s, None)
      | Some sess \<Rightarrow>
          if se_expires sess < now
          then (s\<lparr> ss_sessions := (ss_sessions s)(i := None), ss_closed := ss_closed s @ [se_bound sess] \<rparr>, None)
          else
            (let sess = sess\<lparr> se_expires := now + ss_ttl s \<rparr>
             in (s\<lparr> ss_sessions := (ss_sessions s)(i \<mapsto> sess) \<rparr>, Some sess)))"

definition session_Delete :: "session_store \<Rightarrow> string \<Rightarrow> session_store" where
  "session_Delete s i =
     (case ss_sessions s i of
        None \<Rightarrow> s
      | Some sess \<Rightarrow> s\<lparr> ss_sessions := (ss_sessions s)(i := None), ss_closed := ss_closed s @ [se_bound sess] \<rparr>)"

definition session_Len :: "session_store \<Rightarrow> nat" where
  "session_Len s = mlen (ss_sessions s)"

definition is_expired :: "session_store \<Rightarrow> gtime \<Rightarrow> string \<Rightarrow> bool" where
  "is_expired s now i \<longleftrightarrow> (case ss_sessions s i of None \<Rightarrow> False | Some sess \<Rightarrow> se_expires sess < now)"

definition session_sweep :: "((string \<rightharpoonup> session) \<Rightarrow> string list) \<Rightarrow> session_store \<Rightarrow> gtime \<Rightarrow> session_store" where
  "session_sweep ord s now =
     (let expired = filter (is_expired s now) (ord (ss_sessions s))
      in s\<lparr> ss_sessions := (\<lambda>i. if i \<in> set expired then None else ss_sessions s i),
           ss_closed := ss_closed s @ map (\<lambda>i. se_bound (the (ss_sessions s i))) expired \<rparr>)"

subsection \<open>Histories of calls\<close>

datatype session_call =
  CallCreate gtime "string option" string nat string | CallGet gtime string | CallDelete string | CallSweep gtime

primrec call :: "((string \<rightharpoonup> session) \<Rightarrow> string list) \<Rightarrow> session_call \<Rightarrow> session_store \<Rightarrow> session_store" where
  "call ord (CallCreate t gen dn bound tok) s = fst (create s t gen dn bound tok)"
| "call ord (CallGet t i) s = fst (session_Get s t i)"
| "call ord (CallDelete i) s = session_Delete s i"
| "call ord (CallSweep t) s = session_sweep ord s t"

text \<open>The clients handed to the store, and the assumptions on a history: the random identifiers do not
  repeat, and every login has its own connection.\<close>

primrec new_client :: "session_call \<Rightarrow> nat list" where
  "new_client (CallCreate t gen dn bound tok) = (case gen of None \<Rightarrow> [] | Some _ \<Rightarrow> [bound])"
| "new_client (CallGet t i) = []"
| "new_client (CallDelete i) = []"
| "new_client (CallSweep t) = []"

primrec new_id :: "session_call \<Rightarrow> string list" where
  "new_id (CallCreate t gen dn bound tok) = (case gen of None \<Rightarrow> [] | Some i \<Rightarrow> [i])"
| "new_id (CallGet t i) = []"
| "new_id (CallDelete i) = []"
| "new_id (CallSweep t) = []"

definition live_clients :: "session_store \<Rightarrow> nat multiset" where
  "live_clients s = image_mset (\<lambda>i. se_bound (the (ss_sessions s i))) (mset_set (dom (ss_sessions s)))"

lemma live_remove:
  assumes "finite (dom (ss_sessions s))" "ss_sessions s i = Some sess"
  shows "live_clients s = add_mset (se_bound sess) (live_clients (s\<lparr> ss_sessions := (ss_sessions s)(i := None), ss_closed := c \<rparr>))"
proof -
  have "mset_set (dom (ss_sessions s)) = add_mset i (mset_set (dom (ss_sessions s) - {i}))"
    using assms by (metis domI mset_set.remove)
  moreover have "image_mset (\<lambda>k. se_bound (the (ss_sessions s k))) (mset_set (dom (ss_sessions s) - {i})) =
      image_mset (\<lambda>k. se_bound (the (((ss_sessions s)(i := None)) k))) (mset_set (dom (ss_sessions s) - {i}))"
    by (rule image_mset_cong) (use assms(1) in auto)
  ultimately show ?thesis using assms by (simp add: live_clients_def)
qed

lemma live_update:
  assumes "finite (dom (ss_sessions s))" "ss_sessions s i = Some sess" "se_bound sess' = se_bound sess"
  shows "live_clients (s\<lparr> ss_sessions := (ss_sessions s)(i \<mapsto> sess') \<rparr>) = live_clients s"
proof -
  have "insert i (dom (ss_sessions s)) = dom (ss_sessions s)" using assms(2) by auto
  then show ?thesis using assms
    by (auto simp: live_clients_def intro!: image_mset_cong)
qed

lemma live_insert:
  assumes "finite (dom (ss_sessions s))" "ss_sessions s i = None"
  shows "live_clients (s\<lparr> ss_sessions := (ss_sessions s)(i \<mapsto> sess) \<rparr>) = add_mset (se_bound sess) (live_clients s)"
proof -
  have "i \<notin> dom (ss_sessions s)" using assms(2) by auto
  moreover have "image_mset (\<lambda>k. se_bound (the (((ss_sessions s)(i \<mapsto> sess)) k))) (mset_set (dom (ss_sessions s))) =
      image_mset (\<lambda>k. se_bound (the (ss_sessions s k))) (mset_set (dom (ss_sessions s)))"
    by (rule image_mset_cong) (use assms calculation in auto)
  ultimately show ?thesis using assms(1) by (simp add: live_clients_def)
qed

lemma live_sweep:
  assumes "finite (dom (ss_sessions s))" "range_order ord"
  shows "live_clients (session_sweep ord s t) + mset (ss_closed (session_sweep ord s t)) = live_clients s + mset (ss_closed s)"
proof -
  let ?D = "dom (ss_sessions s)" and ?E = "{i \<in> dom (ss_sessions s). is_expired s t i}"
  let ?f = "\<lambda>i. se_bound (the (ss_sessions s i))"
  have o: "distinct (ord (ss_sessions s))" "set (ord (ss_sessions s)) = ?D"
    using range_orderD [OF assms(2,1)] by auto
  have sd: "dom (ss_sessions (session_sweep ord s t)) = ?D - ?E"
    using o(2) by (auto simp: session_sweep_def Let_def is_expired_def split: if_splits)
  have "image_mset (\<lambda>i. se_bound (the (ss_sessions (session_sweep ord s t) i))) (mset_set (?D - ?E)) = image_mset ?f (mset_set (?D - ?E))"
    by (rule image_mset_cong) (use assms(1) in \<open>auto simp: session_sweep_def Let_def\<close>)
  then have l: "live_clients (session_sweep ord s t) = image_mset ?f (mset_set (?D - ?E))" by (simp add: live_clients_def sd)
  have "distinct (filter (is_expired s t) (ord (ss_sessions s)))" "set (filter (is_expired s t) (ord (ss_sessions s))) = ?E"
    using o by auto
  then have "mset (filter (is_expired s t) (ord (ss_sessions s))) = mset_set ?E"
    using mset_set_set [of "filter (is_expired s t) (ord (ss_sessions s))"] by simp
  then have c: "mset (ss_closed (session_sweep ord s t)) = mset (ss_closed s) + image_mset ?f (mset_set ?E)"
    by (simp add: session_sweep_def Let_def)
  have "mset_set ?D = mset_set (?D - ?E) + mset_set ?E"
  proof -
    have "finite (?D - ?E)" "finite ?E" "(?D - ?E) \<inter> ?E = {}" using assms(1) by auto
    note U = mset_set_Union [OF this]
    have "(?D - ?E) \<union> ?E = ?D" by blast
    with U show ?thesis by simp
  qed
  then show ?thesis unfolding l c by (simp add: live_clients_def)
qed

lemma call_conserves:
  assumes "finite (dom (ss_sessions s))" "range_order ord" "set (new_id c) \<inter> dom (ss_sessions s) = {}"
  shows "live_clients (call ord c s) + mset (ss_closed (call ord c s)) = live_clients s + mset (ss_closed s) + mset (new_client c)"
    and "finite (dom (ss_sessions (call ord c s)))"
    and "dom (ss_sessions (call ord c s)) \<subseteq> dom (ss_sessions s) \<union> set (new_id c)"
    and "ss_ttl (call ord c s) = ss_ttl s"
proof -
  have "live_clients (call ord c s) + mset (ss_closed (call ord c s)) = live_clients s + mset (ss_closed s) + mset (new_client c) \<and>
    finite (dom (ss_sessions (call ord c s))) \<and> dom (ss_sessions (call ord c s)) \<subseteq> dom (ss_sessions s) \<union> set (new_id c) \<and>
    ss_ttl (call ord c s) = ss_ttl s"
  proof (cases c)
    case (CallCreate t gen dn bound tok)
    show ?thesis
    proof (cases gen)
      case (Some i)
      then have "ss_sessions s i = None" using assms(3) CallCreate by auto
      then show ?thesis using live_insert [OF assms(1), of i] assms(1) by (simp add: CallCreate Some create_def Let_def)
    qed (use assms(1) in \<open>simp add: CallCreate create_def\<close>)
  next
    case (CallGet t i)
    show ?thesis
    proof (cases "ss_sessions s i")
      case (Some sess)
      then have d: "i \<in> dom (ss_sessions s)" by auto
      show ?thesis
      proof (cases "se_expires sess < t")
        case True
        then show ?thesis using live_remove [OF assms(1) Some, of "ss_closed s @ [se_bound sess]"] assms(1)
          by (auto simp: CallGet session_Get_def Some)
      next
        case False
        then show ?thesis using live_update [OF assms(1) Some, of "sess\<lparr> se_expires := t + ss_ttl s \<rparr>"] assms(1) d
          by (auto simp: CallGet session_Get_def Some Let_def)
      qed
    qed (use assms(1) in \<open>simp add: CallGet session_Get_def\<close>)
  next
    case (CallDelete i)
    show ?thesis
    proof (cases "ss_sessions s i")
      case (Some sess)
      then show ?thesis using live_remove [OF assms(1) Some, of "ss_closed s @ [se_bound sess]"] assms(1)
        by (auto simp: CallDelete session_Delete_def)
    qed (use assms(1) in \<open>simp add: CallDelete session_Delete_def\<close>)
  next
    case (CallSweep t)
    have "dom (ss_sessions (session_sweep ord s t)) \<subseteq> dom (ss_sessions s)"
      by (auto simp: session_sweep_def Let_def split: if_splits)
    then show ?thesis using live_sweep [OF assms(1,2), of t] assms(1)
      by (auto simp: CallSweep intro: finite_subset) (simp add: session_sweep_def Let_def)
  qed
  then show "live_clients (call ord c s) + mset (ss_closed (call ord c s)) = live_clients s + mset (ss_closed s) + mset (new_client c)"
    "finite (dom (ss_sessions (call ord c s)))" "dom (ss_sessions (call ord c s)) \<subseteq> dom (ss_sessions s) \<union> set (new_id c)"
    "ss_ttl (call ord c s) = ss_ttl s" by simp_all
qed

lemma calls_conserve:
  assumes "finite (dom (ss_sessions s))" "range_order ord" "distinct (concat (map new_id cs))"
    and "set (concat (map new_id cs)) \<inter> dom (ss_sessions s) = {}"
  shows "live_clients (fold (call ord) cs s) + mset (ss_closed (fold (call ord) cs s)) =
    live_clients s + mset (ss_closed s) + mset (concat (map new_client cs))"
  using assms
proof (induction cs arbitrary: s)
  case (Cons c cs)
  have c: "set (new_id c) \<inter> dom (ss_sessions s) = {}" using Cons.prems(4) by auto
  note C = call_conserves [OF Cons.prems(1,2) c]
  have "set (concat (map new_id cs)) \<inter> dom (ss_sessions (call ord c s)) = {}"
  proof -
    have "set (concat (map new_id cs)) \<inter> set (new_id c) = {}" "set (concat (map new_id cs)) \<inter> dom (ss_sessions s) = {}"
      using Cons.prems(3,4) by auto
    then show ?thesis using C(3) by blast
  qed
  then have "live_clients (fold (call ord) cs (call ord c s)) + mset (ss_closed (fold (call ord) cs (call ord c s))) =
    live_clients (call ord c s) + mset (ss_closed (call ord c s)) + mset (concat (map new_client cs))"
    using Cons.IH [OF C(2) Cons.prems(2)] Cons.prems(3) by simp
  then show ?case using C(1) by (simp add: ac_simps)
qed simp

text \<open>C35: no connection leaks. After any history of logins, requests, logouts and sweeps, every LDAP
  connection handed to the store is either the connection of exactly one live session or has been
  closed, and it was closed exactly once; provided the random session identifiers of the history differ.\<close>

theorem sessions_no_leak:
  assumes "range_order ord" "distinct (concat (map new_id cs))" "s = fold (call ord) cs (NewSessionStore ttl)"
  shows "live_clients s + mset (ss_closed s) = mset (concat (map new_client cs))"
  using calls_conserve [of "NewSessionStore ttl" ord cs] assms
  by (simp add: NewSessionStore_def live_clients_def)

lemma sessions_no_leak_witness:
  "let s = fold (call sorted_range) [CallCreate 0 (Some ''a'') ''u'' 1 '''', CallCreate 0 (Some ''b'') ''v'' 2 '''', CallDelete ''a'', CallSweep 99]
             (NewSessionStore 10)
   in live_clients s + mset (ss_closed s) = {# 1, 2 #}"
  unfolding Let_def by (subst sessions_no_leak [OF range_order_sorted _ refl]) simp_all

subsection \<open>Idle timeout\<close>

primrec leaves_alone :: "string \<Rightarrow> gtime \<Rightarrow> session_call \<Rightarrow> bool" where
  "leaves_alone i t (CallCreate t' gen dn bound tok) \<longleftrightarrow> gen \<noteq> Some i"
| "leaves_alone i t (CallGet t' j) \<longleftrightarrow> j \<noteq> i"
| "leaves_alone i t (CallDelete j) \<longleftrightarrow> j \<noteq> i"
| "leaves_alone i t (CallSweep t') \<longleftrightarrow> t' \<le> t"

lemma call_leaves_alone:
  assumes "leaves_alone i t c" "ss_sessions s i = Some sess \<or> ss_sessions s i = None \<and> se_expires sess < t"
  shows "ss_sessions (call ord c s) i = Some sess \<or> ss_sessions (call ord c s) i = None \<and> se_expires sess < t"
    and "ss_ttl (call ord c s) = ss_ttl s"
  using assms
  by (cases c; auto simp: create_def session_Get_def session_Delete_def session_sweep_def is_expired_def Let_def
      split: option.splits if_splits)+

lemma calls_leave_alone:
  "list_all (leaves_alone i t) cs \<Longrightarrow> ss_sessions s i = Some sess \<or> ss_sessions s i = None \<and> se_expires sess < t \<Longrightarrow>
     (ss_sessions (fold (call ord) cs s) i = Some sess \<or> ss_sessions (fold (call ord) cs s) i = None \<and> se_expires sess < t) \<and>
     ss_ttl (fold (call ord) cs s) = ss_ttl s"
proof (induction cs arbitrary: s)
  case (Cons c cs)
  have l: "leaves_alone i t c" "list_all (leaves_alone i t) cs" using Cons.prems(1) by simp_all
  note C = call_leaves_alone [OF l(1) Cons.prems(2), of ord]
  from Cons.IH [OF l(2) C(1)] C(2) show ?case by simp
qed simp

text \<open>idle timeout. A session that was created or used at time \<open>t0\<close>, and that since then nobody used
  and nobody logged out, is found at a later time \<open>t\<close> exactly when no more than the time to live has
  passed, whatever other sessions did and however often the janitor ran in between; when it is found
  its lifetime starts anew, when not it is gone.\<close>

theorem session_idle_timeout:
  assumes "session_Get s t0 i = (s0, Some sess) \<or> create s t0 (Some i) dn bound tok = (s0, Some sess)"
    and "list_all (leaves_alone i t) cs"
  shows "session_Get (fold (call ord) cs s0) t i =
    (if t \<le> t0 + ss_ttl s
     then ((fold (call ord) cs s0)\<lparr> ss_sessions := (ss_sessions (fold (call ord) cs s0))(i \<mapsto> sess\<lparr> se_expires := t + ss_ttl s \<rparr>) \<rparr>,
           Some (sess\<lparr> se_expires := t + ss_ttl s \<rparr>))
     else (fst (session_Get (fold (call ord) cs s0) t i), None))"
proof -
  have s0: "ss_sessions s0 i = Some sess" "se_expires sess = t0 + ss_ttl s" "ss_ttl s0 = ss_ttl s"
    using assms(1) by (auto simp: session_Get_def create_def Let_def split: option.splits if_splits)
  then show ?thesis
    using calls_leave_alone [OF assms(2), of s0 sess ord]
    by (auto simp: session_Get_def Let_def split: option.splits)
qed

lemma session_idle_timeout_witness:
  "let (s0, r) = create (NewSessionStore 10) 0 (Some ''a'') ''u'' 1 '''';
       s = fold (call sorted_range) [CallSweep 5, CallCreate 6 (Some ''b'') ''v'' 2 ''''] s0
   in snd (session_Get s 10 ''a'') \<noteq> None \<and> snd (session_Get s 11 ''a'') = None"
proof -
  let ?sess = "\<lparr> se_id = ''a'', se_dn = ''u'', se_bound = 1, se_id_token = '''', se_expires = 10 \<rparr>"
  let ?s0 = "\<lparr> ss_sessions = [''a'' \<mapsto> ?sess], ss_ttl = 10, ss_closed = [] \<rparr>"
  let ?cs = "[CallSweep 5, CallCreate 6 (Some ''b'') ''v'' 2 '''']"
  have c: "create (NewSessionStore 10) 0 (Some ''a'') ''u'' 1 '''' = (?s0, Some ?sess)"
    by (simp add: create_def NewSessionStore_def Let_def)
  have "session_Get (NewSessionStore 10) 0 ''a'' = (?s0, Some ?sess) \<or>
      create (NewSessionStore 10) 0 (Some ''a'') ''u'' 1 '''' = (?s0, Some ?sess)" using c by simp
  note T = session_idle_timeout [OF this]
  have "list_all (leaves_alone ''a'' 10) ?cs" "list_all (leaves_alone ''a'' 11) ?cs" by simp_all
  note R = T [OF this(1), of sorted_range] T [OF this(2), of sorted_range]
  have "snd (session_Get (fold (call sorted_range) ?cs ?s0) 10 ''a'') \<noteq> None"
    by (subst R(1)) (simp add: NewSessionStore_def)
  moreover have "snd (session_Get (fold (call sorted_range) ?cs ?s0) 11 ''a'') = None"
    by (subst R(2)) (simp add: NewSessionStore_def)
  ultimately show ?thesis unfolding c by simp
qed

end
