(* ===== verification/GoNumbers.thy ===== *)
theory GoNumbers
  imports GoStrings
begin

text \<open>
  Decimal numerals as Go's \<open>strconv\<close> reads and prints them, and the lemma that reading undoes printing.
\<close>

definition digits :: string where "digits = ''0123456789''"

definition digit_value :: "char \<Rightarrow> nat" where
  "digit_value c = of_char c - 48"

definition decimal :: "string \<Rightarrow> nat" where
  "decimal s = foldl (\<lambda>n c. 10 * n + digit_value c) 0 s"

text \<open>\<open>strconv.ParseUint\<close> and \<open>ParseInt\<close> in base 10 with a bit size.\<close>

definition ParseUint :: "string \<Rightarrow> nat \<Rightarrow> nat option" where
  "ParseUint s bits =
     (if s \<noteq> [] \<and> list_all (\<lambda>c. c \<in> set digits) s \<and> decimal s < 2 ^ bits then Some (decimal s) else None)"

definition ParseInt :: "string \<Rightarrow> nat \<Rightarrow> int option" where
  "ParseInt s bits =
     (case (if take 1 s = ''-'' then (True, drop 1 s) else if take 1 s = ''+'' then (False, drop 1 s) else (False, s)) of
        (neg, ds) \<Rightarrow>
          if ds = [] \<or> \<not> list_all (\<lambda>c. c \<in> set digits) ds then None
          else if neg then (if decimal ds \<le> 2 ^ (bits - 1) then Some (- int (decimal ds)) else None)
          else (if decimal ds < 2 ^ (bits - 1) then Some (int (decimal ds)) else None))"

text \<open>The numeral \<open>strconv.Itoa\<close> prints.\<close>

fun itoa :: "nat \<Rightarrow> string" where
  "itoa n = (if n < 10 then [digits ! n] else itoa (n div 10) @ [digits ! (n mod 10)])"

declare itoa.simps [simp del]

lemma digits_basic [simp]: "length digits = 10" "map digit_value digits = [0..<10]"
  by (simp_all add: digits_def digit_value_def upt_rec)

lemma digit_char:
  assumes "d < 10"
  shows "digits ! d \<in> set digits \<and> digit_value (digits ! d) = d"
proof -
  have "digit_value (digits ! d) = map digit_value digits ! d" using assms by (subst nth_map) simp_all
  also have "\<dots> = d" using assms by (simp del: upt_rec_numeral)
  finally show ?thesis using assms by simp
qed

lemma itoa_digits: "itoa n \<noteq> [] \<and> set (itoa n) \<subseteq> set digits \<and> decimal (itoa n) = n"
proof (induction n rule: itoa.induct)
  case (1 n)
  show ?case
  proof (cases "n < 10")
    case True
    then show ?thesis using digit_char [of n] by (simp add: itoa.simps decimal_def)
  next
    case False
    with 1 digit_char [of "n mod 10"] show ?thesis
      by (subst (1 2 3) itoa.simps) (auto simp: decimal_def)
  qed
qed

lemma itoa_all: "list_all (\<lambda>c. c \<in> set digits) (itoa n)" "itoa n \<noteq> []" "decimal (itoa n) = n"
  using itoa_digits [of n] by (auto simp: list_all_iff)

lemma itoa_no_semicolon: "CHR '';'' \<notin> set (itoa n)"
  using itoa_digits [of n] by (auto simp: digits_def)

lemma itoa_no_sign: "take 1 (itoa n) \<noteq> ''-''" "take 1 (itoa n) \<noteq> ''+''"
  using itoa_digits [of n] by (cases "itoa n"; auto simp: digits_def)+

lemma ParseUint_itoa: "n < 2 ^ b \<Longrightarrow> ParseUint (itoa n) b = Some n"
  by (simp add: ParseUint_def itoa_all)

lemma ParseInt_itoa: "n < 2 ^ (b - 1) \<Longrightarrow> ParseInt (itoa n) b = Some (int n)"
  using itoa_no_sign [of n] by (simp add: ParseInt_def itoa_all del: One_nat_def)

end
