(* ===== verification/Revocation.thy ===== *)
theory Revocation
  imports GoNumbers
begin

text \<open>
  Machine token revocation, the pure part: \<open>machineauth/revocation.go\<close>. An instant is a \<open>gtime\<close>; an
  error of the source is a constructor of \<open>revocation_error\<close>; \<open>sha_hex\<close> is the lower-case hexadecimal
  SHA-256 of a string. A missing snapshot (\<open>nil\<close>) is \<open>None\<close>.
\<close>

datatype rev_decision = DecisionOK | DecisionRevoked | DecisionUnavailable

datatype revocation_error =
  ErrNoSentinel | ErrSentinelFormat | ErrGenerationRegression | ErrGenerationChanged | ErrSentinelStale
| ErrSentinelFuture | ErrSentinelClock | ErrRetentionShort | ErrRetentionLong | ErrTooManyEntries
| ErrEntryFormat | ErrCountMismatch | ErrDigestMismatch | ErrParams | ErrQueryTime
| ErrRevocationDirectory | ErrInvalidCredentials

definition MaxValueBytes :: nat where "MaxValueBytes = 512"
definition RetentionCeiling :: duration where "RetentionCeiling = 24 * hour_ns"
definition sentinelClockSlack :: duration where "sentinelClockSlack = 10 * second_ns"

record revocation_params =
  rp_max_ttl :: duration
  rp_skew :: duration
  rp_refresh :: duration
  rp_max_stale :: duration
  rp_sentinel_max_age :: duration
  rp_max_entries :: int

text \<open>The sum saturates at the largest duration.\<close>

primrec sat_sum :: "duration list \<Rightarrow> duration \<Rightarrow> duration" where
  "sat_sum [] acc = acc"
| "sat_sum (v # vs) acc = (if max_duration - acc < v then max_duration else sat_sum vs (acc + v))"

definition Retention :: "duration \<Rightarrow> duration \<Rightarrow> duration \<Rightarrow> duration \<Rightarrow> duration" where
  "Retention maxTTL skew refresh maxStale =
     (if maxTTL < 0 \<or> skew < 0 \<or> refresh < 0 \<or> maxStale < 0 \<or> max_duration div 3 < skew then max_duration
      else sat_sum [3 * skew, refresh, maxStale] maxTTL)"

definition params_retention :: "revocation_params \<Rightarrow> duration" where
  "params_retention p = Retention (rp_max_ttl p) (rp_skew p) (rp_refresh p) (rp_max_stale p)"

record revocation_entry =
  re_cn :: "string list"
  re_ou :: "string list"
  re_create :: gtime

record sentinel =
  sn_generation :: nat
  sn_count :: nat
  sn_digest :: string
  sn_ts :: gtime
  sn_ret :: duration
  sn_modify :: gtime

subsection \<open>Parsing the sentinel\<close>

definition isLowerHex :: "string \<Rightarrow> bool" where
  "isLowerHex s \<longleftrightarrow> list_all (\<lambda>c. c \<in> set ''0123456789abcdef'') s"

definition cutPrefix :: "string \<Rightarrow> string \<Rightarrow> string option" where
  "cutPrefix s pre = (if has_prefix s pre then Some (drop (length pre) s) else None)"

text \<open>Nanoseconds from Go's zero time to the Unix epoch.\<close>

definition unix_epoch :: gtime where "unix_epoch = 62135596800 * second_ns"

definition time_Unix :: "int \<Rightarrow> gtime" where "time_Unix secs = unix_epoch + secs * second_ns"

definition keyed_value :: "string \<Rightarrow> string \<Rightarrow> string option" where
  "keyed_value k part = (case cutPrefix part (k @ ''='') of None \<Rightarrow> None | Some v \<Rightarrow> if v = '''' then None else Some v)"

definition ParseSentinel :: "string \<Rightarrow> string \<Rightarrow> gtime \<Rightarrow> revocation_error + sentinel" where
  "ParseSentinel serialNumber description modifyTimestamp =
     (case ParseUint serialNumber 63 of
        None \<Rightarrow> Inl ErrSentinelFormat
      | Some gen \<Rightarrow>
          if gen < 1 then Inl ErrSentinelFormat
          else
            (case split_on (CHR '';'') description of
               [p0, p1, p2, p3] \<Rightarrow>
                 (case (keyed_value ''entries'' p0, keyed_value ''digest'' p1, keyed_value ''ts'' p2, keyed_value ''ret'' p3) of
                    (Some v0, Some v1, Some v2, Some v3) \<Rightarrow>
                      (case ParseUint v0 31 of
                         None \<Rightarrow> Inl ErrSentinelFormat
                       | Some n \<Rightarrow>
                           if length v1 \<noteq> 64 \<or> \<not> isLowerHex v1 then Inl ErrSentinelFormat
                           else
                             (case ParseInt v2 63 of
                                None \<Rightarrow> Inl ErrSentinelFormat
                              | Some ts \<Rightarrow>
                                  if ts < 0 then Inl ErrSentinelFormat
                                  else
                                    (case ParseInt v3 32 of
                                       None \<Rightarrow> Inl ErrSentinelFormat
                                     | Some ret \<Rightarrow>
                                         if ret < 0 then Inl ErrSentinelFormat
                                         else Inr \<lparr> sn_generation = gen, sn_count = n, sn_digest = v1,
                                                    sn_ts = time_Unix ts, sn_ret = ret * second_ns,
                                                    sn_modify = modifyTimestamp \<rparr>)))
                  | _ \<Rightarrow> Inl ErrSentinelFormat)
             | _ \<Rightarrow> Inl ErrSentinelFormat))"

definition EntriesDigest :: "(string \<Rightarrow> string) \<Rightarrow> string list \<Rightarrow> string" where
  "EntriesDigest sha_hex cns = sha_hex (join_on (CHR 0x0A) (sort cns))"

subsection \<open>Validation and the snapshot\<close>

definition ValidateSentinel :: "revocation_params \<Rightarrow> sentinel \<Rightarrow> nat \<Rightarrow> gtime \<Rightarrow> revocation_error option" where
  "ValidateSentinel p s maxSeenGen now =
     (if rp_skew p < 0 \<or> rp_sentinel_max_age p \<le> 0 \<or> hour_ns < rp_skew p then Some ErrParams
      else if sn_generation s < maxSeenGen then Some ErrGenerationRegression
      else if rp_sentinel_max_age p < time_sub now (sn_ts s) then Some ErrSentinelStale
      else if now + rp_skew p < sn_ts s then Some ErrSentinelFuture
      else if sn_modify s = 0 then Some ErrSentinelClock
      else
        (let lim = rp_skew p + sentinelClockSlack
         in if sn_modify s < sn_ts s - lim \<or> sn_ts s + lim < sn_modify s then Some ErrSentinelClock
            else if sn_ret s < params_retention p then Some ErrRetentionShort
            else if RetentionCeiling < sn_ret s then Some ErrRetentionLong
            else None))"

record snapshot =
  sp_cutoffs :: "string \<rightharpoonup> gtime"
  sp_jtis :: "string set"
  sp_generation :: nat
  sp_started :: gtime
  sp_skew :: duration
  sp_max_stale :: duration

definition Generation :: "snapshot option \<Rightarrow> nat" where
  "Generation s = (case s of None \<Rightarrow> 0 | Some s \<Rightarrow> sp_generation s)"

definition singleValue :: "string list \<Rightarrow> revocation_error + string" where
  "singleValue v =
     (case v of
        [s] \<Rightarrow> if s = '''' \<or> MaxValueBytes < length s \<or> containsAny s [CHR 0x0A, CHR 0x00] then Inl ErrEntryFormat else Inr s
      | _ \<Rightarrow> Inl ErrEntryFormat)"

definition add_cutoff :: "(string \<rightharpoonup> gtime) \<Rightarrow> string \<Rightarrow> gtime \<Rightarrow> (string \<rightharpoonup> gtime)" where
  "add_cutoff m client t = (case m client of None \<Rightarrow> m(client \<mapsto> t) | Some u \<Rightarrow> if u < t then m(client \<mapsto> t) else m)"

text \<open>The loop over the entries: the identifiers counted so far (newest last), whether the sentinel was
  seen, and the two tables.\<close>

fun build_entries ::
    "revocation_entry list \<Rightarrow> string list \<Rightarrow> bool \<Rightarrow> (string \<rightharpoonup> gtime) \<Rightarrow> string set \<Rightarrow>
     revocation_error + string list \<times> (string \<rightharpoonup> gtime) \<times> string set" where
  "build_entries [] cns sentinel cutoffs jtis = Inr (cns, cutoffs, jtis)"
| "build_entries (e # es) cns sentinel cutoffs jtis =
     (case singleValue (re_cn e) of
        Inl err \<Rightarrow> Inl err
      | Inr cn \<Rightarrow>
          if cn = ''sentinel'' then
            (if sentinel then Inl ErrEntryFormat else build_entries es cns True cutoffs jtis)
          else if cn \<in> set cns then Inl ErrEntryFormat
          else if has_prefix cn ''jti-'' then
            (if length cn = 4 then Inl ErrEntryFormat
             else build_entries es (cns @ [cn]) sentinel cutoffs (insert (drop 4 cn) jtis))
          else if has_prefix cn ''cutoff-'' then
            (if length cn = 7 \<or> re_create e = 0 then Inl ErrEntryFormat
             else
               (case singleValue (re_ou e) of
                  Inl err \<Rightarrow> Inl err
                | Inr client \<Rightarrow> build_entries es (cns @ [cn]) sentinel (add_cutoff cutoffs client (re_create e)) jtis))
          else Inl ErrEntryFormat)"

definition BuildSnapshot ::
    "(string \<Rightarrow> string) \<Rightarrow> revocation_params \<Rightarrow> sentinel option \<Rightarrow> sentinel option \<Rightarrow> revocation_entry list \<Rightarrow>
     nat \<Rightarrow> gtime \<Rightarrow> gtime \<Rightarrow> revocation_error + snapshot" where
  "BuildSnapshot sha_hex p before after es maxSeenGen started now =
     (case (before, after) of
        (Some b, Some a) \<Rightarrow>
          if b \<noteq> a then Inl ErrGenerationChanged
          else if started = 0 \<or> now < started then Inl ErrQueryTime
          else
            (case ValidateSentinel p b maxSeenGen now of
               Some err \<Rightarrow> Inl err
             | None \<Rightarrow>
                 if rp_max_entries p < 1 \<or> rp_max_entries p + 1 < int (length es) then Inl ErrTooManyEntries
                 else
                   (case build_entries es [] False Map.empty {} of
                      Inl err \<Rightarrow> Inl err
                    | Inr (cns, cutoffs, jtis) \<Rightarrow>
                        if rp_max_entries p < int (length cns) then Inl ErrTooManyEntries
                        else if length cns \<noteq> sn_count b then Inl ErrCountMismatch
                        else if EntriesDigest sha_hex cns \<noteq> sn_digest b then Inl ErrDigestMismatch
                        else Inr \<lparr> sp_cutoffs = cutoffs, sp_jtis = jtis, sp_generation = sn_generation b,
                                   sp_started = started, sp_skew = rp_skew p, sp_max_stale = rp_max_stale p \<rparr>))
      | _ \<Rightarrow> Inl ErrNoSentinel)"

definition snapshot_Check :: "snapshot option \<Rightarrow> string \<Rightarrow> gtime \<Rightarrow> string \<Rightarrow> gtime \<Rightarrow> rev_decision" where
  "snapshot_Check s clientID iat jti now =
     (case s of
        None \<Rightarrow> DecisionUnavailable
      | Some s \<Rightarrow>
          if sp_started s = 0 \<or> sp_max_stale s < time_sub now (sp_started s) then DecisionUnavailable
          else if (case sp_cutoffs s clientID of None \<Rightarrow> False | Some t \<Rightarrow> iat \<le> t + sp_skew s) then DecisionRevoked
          else if jti \<noteq> '''' \<and> jti \<in> sp_jtis s then DecisionRevoked
          else DecisionOK)"

end
