(* ===== verification/RevocationProps.thy ===== *)
theory RevocationProps
  imports Revocation
begin

text \<open>
  What \<open>machineauth/revocation.go\<close> promises: a snapshot is exactly what the sentinel vouches for, a
  decision is a function of the directory entries alone, the sentinel text is read back as the tool
  wrote it, and the retention period is the sum of its four terms or refused.
\<close>

subsection \<open>The tables of a snapshot\<close>

definition entry_cn :: "revocation_entry \<Rightarrow> string" where "entry_cn e = hd (re_cn e)"

definition identifiers :: "revocation_entry list \<Rightarrow> string list" where
  "identifiers es = filter (\<lambda>cn. cn \<noteq> ''sentinel'') (map entry_cn es)"

definition is_cutoff :: "string \<Rightarrow> revocation_entry \<Rightarrow> bool" where
  "is_cutoff client e \<longleftrightarrow> has_prefix (entry_cn e) ''cutoff-'' \<and> re_ou e = [client]"

definition cutoff_times :: "revocation_entry list \<Rightarrow> string \<Rightarrow> gtime set" where
  "cutoff_times es client = re_create ` {e \<in> set es. is_cutoff client e}"

definition latest :: "gtime set \<Rightarrow> gtime option" where
  "latest T = (if T = {} then None else Some (Max T))"

lemma singleValue_Inr: "singleValue v = Inr s \<longleftrightarrow>
    v = [s] \<and> s \<noteq> '''' \<and> length s \<le> MaxValueBytes \<and> \<not> containsAny s [CHR 0x0A, CHR 0x00]"
  by (auto simp: singleValue_def split: list.splits)

lemma cutoff_times_simps [simp]:
  "cutoff_times [] c = {}"
  "cutoff_times (e # es) c = (if is_cutoff c e then insert (re_create e) (cutoff_times es c) else cutoff_times es c)"
  by (auto simp: cutoff_times_def)

lemma finite_cutoff_times [simp]: "finite (cutoff_times es c)"
  by (simp add: cutoff_times_def)

lemma identifiers_simps [simp]:
  "identifiers [] = []"
  "identifiers (e # es) = (if entry_cn e = ''sentinel'' then identifiers es else entry_cn e # identifiers es)"
  by (simp_all add: identifiers_def)

text \<open>The table keeps the maximum of what it held and what the entries add.\<close>

definition join_latest :: "gtime option \<Rightarrow> gtime set \<Rightarrow> gtime option" where
  "join_latest u T = latest (set_option u \<union> T)"

lemma join_latest_empty [simp]: "join_latest u {} = u"
  by (cases u) (simp_all add: join_latest_def latest_def)

lemma join_latest_None [simp]: "join_latest None T = latest T"
  by (simp add: join_latest_def)

lemma join_latest_insert:
  "finite T \<Longrightarrow> join_latest (add_cutoff m c t c) T = join_latest (m c) (insert t T)"
  by (cases "m c"; cases "T = {}")
     (auto simp: join_latest_def latest_def add_cutoff_def max_def insert_commute)

lemma add_cutoff_other [simp]: "c' \<noteq> c \<Longrightarrow> add_cutoff m c t c' = m c'"
  by (auto simp: add_cutoff_def split: option.splits)

lemma build_entries_tables:
  "build_entries es cns sn ct jt = Inr (cns', ct', jt') \<Longrightarrow>
     cns' = cns @ identifiers es \<and> (distinct cns \<longrightarrow> distinct cns') \<and>
     jt' = jt \<union> {j. ''jti-'' @ j \<in> set (identifiers es)} \<and>
     ct' = (\<lambda>c. join_latest (ct c) (cutoff_times es c)) \<and>
     (\<forall>j. ''jti-'' @ j \<in> set (identifiers es) \<longrightarrow> j \<noteq> '''') \<and>
     (\<forall>e \<in> set es. re_cn e = [entry_cn e])"
proof (induction es cns sn ct jt rule: build_entries.induct)
  case (1 cns sn ct jt)
  then show ?case by (auto simp: fun_eq_iff)
next
  case (2 e es cns sn ct jt)
  from "2.prems" obtain cn where cn: "singleValue (re_cn e) = Inr cn"
    by (auto split: sum.splits)
  then have e: "entry_cn e = cn" "re_cn e = [cn]" by (auto simp: entry_cn_def singleValue_Inr)
  show ?case
  proof (cases "cn = ''sentinel''")
    case True
    with cn "2.prems" have b: "\<not> sn" "build_entries es cns True ct jt = Inr (cns', ct', jt')"
      by (auto split: if_splits)
    from True e have "\<not> is_cutoff c e" for c by (simp add: is_cutoff_def has_prefix_def)
    with "2.IH"(1) [OF cn True b] e True show ?thesis by auto
  next
    case False
    with cn "2.prems" have d: "cn \<notin> set cns" by (auto split: if_splits)
    show ?thesis
    proof (cases "has_prefix cn ''jti-''")
      case True
      with cn False d "2.prems" have b: "length cn \<noteq> 4"
        "build_entries es (cns @ [cn]) sn ct (insert (drop 4 cn) jt) = Inr (cns', ct', jt')"
        by (auto split: if_splits)
      from True obtain j where j: "cn = ''jti-'' @ j" by (auto simp: has_prefix_iff prefix_def)
      from j b have "j \<noteq> ''''" by auto
      moreover from j e have "\<not> is_cutoff c e" for c by (simp add: is_cutoff_def has_prefix_def)
      ultimately show ?thesis
        using "2.IH"(2) [OF cn False d True b] e False d j by auto
    next
      case nj: False
      with cn False d "2.prems" obtain client where b: "has_prefix cn ''cutoff-''"
          "singleValue (re_ou e) = Inr client" "\<not> (length cn = 7 \<or> re_create e = 0)"
          "build_entries es (cns @ [cn]) sn (add_cutoff ct client (re_create e)) jt = Inr (cns', ct', jt')"
        by (auto split: if_splits sum.splits)
      have ic: "is_cutoff c e \<longleftrightarrow> c = client" for c
        using b e by (auto simp: is_cutoff_def singleValue_Inr)
      from nj have nj': "cn \<noteq> ''jti-'' @ j" "''jti-'' @ j \<noteq> cn" for j by (auto simp: has_prefix_def)
      note IH = "2.IH"(3) [OF cn False d nj b(1,3,2,4)]
      have tab: "join_latest (add_cutoff ct client (re_create e) c) (cutoff_times es c) =
          join_latest (ct c) (cutoff_times (e # es) c)" for c
        by (cases "c = client") (simp_all add: ic join_latest_insert)
      from IH e False d nj' show ?thesis
        by (auto simp add: tab simp del: cutoff_times_simps(2))
    qed
  qed
qed

text \<open>What the loop demands of one entry: exactly one identifier, of at most MaxValueBytes and without a
  line break; apart from the sentinel it names a token or, with one client and a time, a cutoff.\<close>

definition entry_single :: "revocation_entry \<Rightarrow> bool" where
  "entry_single e \<longleftrightarrow> (\<exists>cn. re_cn e = [cn] \<and> cn \<noteq> '''' \<and> length cn \<le> MaxValueBytes \<and>
     CHR 0x0A \<notin> set cn \<and> CHR 0x00 \<notin> set cn \<and>
     (cn = ''sentinel'' \<or> (\<exists>jti. cn = ''jti-'' @ jti \<and> jti \<noteq> '''') \<or>
      (\<exists>n client. cn = ''cutoff-'' @ n \<and> n \<noteq> '''' \<and> re_create e \<noteq> 0 \<and>
         re_ou e = [client] \<and> client \<noteq> '''' \<and> length client \<le> MaxValueBytes)))"

lemma build_entries_single:
  "build_entries es cns sn ct jt = Inr r \<Longrightarrow> \<forall>e \<in> set es. entry_single e"
proof (induction es cns sn ct jt rule: build_entries.induct)
  case (2 e es cns sn ct jt)
  from "2.prems" obtain cn where cn: "singleValue (re_cn e) = Inr cn"
    by (auto split: sum.splits)
  with "2.prems" have "\<forall>e \<in> set es. entry_single e"
    using "2.IH" [OF cn] by (auto split: if_splits sum.splits)
  moreover from cn "2.prems" have "entry_single e"
    by (auto simp: entry_single_def singleValue_Inr containsAny_def list_ex_iff has_prefix_iff prefix_def
        split: if_splits sum.splits)
  ultimately show ?case by simp
qed simp

lemma identifiers_concat:
  "\<forall>e \<in> set es. entry_single e \<Longrightarrow>
     identifiers es = filter (\<lambda>cn. cn \<noteq> ''sentinel'') (concat (map re_cn es))"
  by (induction es) (auto simp: entry_single_def entry_cn_def)

lemma BuildSnapshot_single:
  "BuildSnapshot sha p before after es g started now = Inr sp \<Longrightarrow> \<forall>e \<in> set es. entry_single e"
  by (auto simp: BuildSnapshot_def Let_def split: option.splits if_splits sum.splits
      dest!: build_entries_single)

lemma BuildSnapshot_Inr:
  assumes "BuildSnapshot sha p before after es g started now = Inr sp"
  obtains s where "before = Some s" "after = Some s" "started \<noteq> 0" "started \<le> now"
    "ValidateSentinel p s g now = None"
    "int (length (identifiers es)) \<le> rp_max_entries p" "length (identifiers es) = sn_count s"
    "EntriesDigest sha (identifiers es) = sn_digest s" "distinct (identifiers es)"
    "\<forall>e \<in> set es. re_cn e = [entry_cn e]"
    "'''' \<notin> {j. ''jti-'' @ j \<in> set (identifiers es)}"
    "sp = \<lparr> sp_cutoffs = (\<lambda>c. latest (cutoff_times es c)), sp_jtis = {j. ''jti-'' @ j \<in> set (identifiers es)},
            sp_generation = sn_generation s, sp_started = started, sp_skew = rp_skew p,
            sp_max_stale = rp_max_stale p \<rparr>"
proof -
  from assms obtain s cns ct jt where a: "before = Some s" "after = Some s" "started \<noteq> 0" "started \<le> now"
      "ValidateSentinel p s g now = None" "build_entries es [] False Map.empty {} = Inr (cns, ct, jt)"
      "int (length cns) \<le> rp_max_entries p" "length cns = sn_count s" "EntriesDigest sha cns = sn_digest s"
      "sp = \<lparr> sp_cutoffs = ct, sp_jtis = jt, sp_generation = sn_generation s, sp_started = started,
              sp_skew = rp_skew p, sp_max_stale = rp_max_stale p \<rparr>"
    by (auto simp: BuildSnapshot_def Let_def split: option.splits if_splits sum.splits)
  from build_entries_tables [OF a(6)] a show thesis
    by (intro that [of s]) auto
qed


lemma params_retention_nonneg_terms:
  assumes "params_retention p \<le> RetentionCeiling"
  shows "params_retention p = rp_max_ttl p + 3 * rp_skew p + rp_refresh p + rp_max_stale p \<and>
         0 \<le> rp_max_ttl p \<and> 0 \<le> rp_skew p \<and> 0 \<le> rp_refresh p \<and> 0 \<le> rp_max_stale p"
  using assms
  by (auto simp: params_retention_def Retention_def RetentionCeiling_def max_duration_def hour_ns_def
      minute_ns_def second_ns_def split: if_splits)

lemma ValidateSentinel_None:
  assumes "ValidateSentinel p s g now = None"
  shows "g \<le> sn_generation s" "sn_ts s \<le> now + rp_skew p"
    "sn_modify s \<noteq> 0" "\<bar>sn_modify s - sn_ts s\<bar> \<le> rp_skew p + sentinelClockSlack"
    "params_retention p \<le> sn_ret s" "sn_ret s \<le> RetentionCeiling" "0 \<le> rp_skew p" "rp_skew p \<le> hour_ns"
    "time_sub now (sn_ts s) \<le> rp_sentinel_max_age p"
  using assms by (auto simp: ValidateSentinel_def Let_def abs_le_iff split: if_splits)

lemma decision_eq:
  assumes "BuildSnapshot sha p before after es g started now = Inr sp"
  shows "snapshot_Check (Some sp) client iat jti t =
    (if rp_max_stale p < time_sub t started then DecisionUnavailable
     else if list_ex (\<lambda>e. is_cutoff client e \<and> iat \<le> re_create e + rp_skew p) es
          \<or> ''jti-'' @ jti \<in> set (identifiers es) then DecisionRevoked
     else DecisionOK)"
  using assms
proof (rule BuildSnapshot_Inr)
  fix s
  assume a: "started \<noteq> 0" "'''' \<notin> {j. ''jti-'' @ j \<in> set (identifiers es)}"
    and sp: "sp = \<lparr> sp_cutoffs = (\<lambda>c. latest (cutoff_times es c)), sp_jtis = {j. ''jti-'' @ j \<in> set (identifiers es)},
            sp_generation = sn_generation s, sp_started = started, sp_skew = rp_skew p,
            sp_max_stale = rp_max_stale p \<rparr>"
  have ex: "list_ex (\<lambda>e. is_cutoff client e \<and> iat \<le> re_create e + rp_skew p) es \<longleftrightarrow>
      (\<exists>t \<in> cutoff_times es client. iat \<le> t + rp_skew p)"
    by (auto simp: list_ex_iff cutoff_times_def)
  have mx: "(case latest T of None \<Rightarrow> False | Some t \<Rightarrow> iat \<le> t + k) \<longleftrightarrow> (\<exists>t \<in> T. iat \<le> t + k)"
    if "finite T" for T :: "gtime set" and k
  proof (cases "T = {}")
    case False
    with that have "Max T \<in> T" "\<forall>t \<in> T. t \<le> Max T" by simp_all
    with False show ?thesis by (auto simp: latest_def)
  qed (simp add: latest_def)
  from a(2) have "jti \<noteq> '''' \<and> ''jti-'' @ jti \<in> set (identifiers es) \<longleftrightarrow> ''jti-'' @ jti \<in> set (identifiers es)"
    by auto
  with a show ?thesis
    unfolding sp by (simp add: snapshot_Check_def ex mx)
qed

subsection \<open>Properties\<close>

text \<open>C32: A refresh accepted by BuildSnapshot is vouched for by one sentinel, read identically before and
  after the search: its generation has not regressed, its time agrees with the replica's clock and the
  server's stamp, its retention is between the required one and the ceiling. Every entry has exactly one
  cn, non-empty, of at most MaxValueBytes and free of line breaks and NULs, which is the sentinel's, or
  jti- and a non-empty token id, or cutoff- and a non-empty rest with a creation time and exactly one
  client. The identifiers (the cn of each entry but the sentinel) are all distinct, as many as the sentinel
  counts, within the configured bound, and hash to the sentinel's digest. The snapshot carries that
  generation and the query's start.\<close>

theorem BuildSnapshot_vouched:
  assumes "BuildSnapshot sha p before after es g started now = Inr sp"
  shows "before \<noteq> None \<and> after = before \<and> sp_generation sp = sn_generation (the before) \<and>
    g \<le> sp_generation sp \<and> sp_started sp = started \<and> started \<noteq> 0 \<and> started \<le> now \<and>
    sn_ts (the before) \<le> now + rp_skew p \<and>
    time_sub now (sn_ts (the before)) \<le> rp_sentinel_max_age p \<and>
    \<bar>sn_modify (the before) - sn_ts (the before)\<bar> \<le> rp_skew p + sentinelClockSlack \<and>
    rp_max_ttl p + 3 * rp_skew p + rp_refresh p + rp_max_stale p \<le> sn_ret (the before) \<and>
    sn_ret (the before) \<le> RetentionCeiling \<and>
    (\<forall>e \<in> set es. \<exists>cn. re_cn e = [cn] \<and> cn \<noteq> '''' \<and> length cn \<le> MaxValueBytes \<and>
       CHR 0x0A \<notin> set cn \<and> CHR 0x00 \<notin> set cn \<and>
       (cn = ''sentinel'' \<or> (\<exists>jti. cn = ''jti-'' @ jti \<and> jti \<noteq> '''') \<or>
        (\<exists>n client. cn = ''cutoff-'' @ n \<and> n \<noteq> '''' \<and> re_create e \<noteq> 0 \<and>
           re_ou e = [client] \<and> client \<noteq> '''' \<and> length client \<le> MaxValueBytes))) \<and>
    identifiers es = filter (\<lambda>cn. cn \<noteq> ''sentinel'') (concat (map re_cn es)) \<and>
    distinct (identifiers es) \<and> length (identifiers es) = sn_count (the before) \<and>
    int (length (identifiers es)) \<le> rp_max_entries p \<and>
    EntriesDigest sha (identifiers es) = sn_digest (the before)"
  using assms
proof (rule BuildSnapshot_Inr)
  fix s
  assume a: "before = Some s" "after = Some s" "started \<noteq> 0" "started \<le> now" "ValidateSentinel p s g now = None"
    "int (length (identifiers es)) \<le> rp_max_entries p" "length (identifiers es) = sn_count s"
    "EntriesDigest sha (identifiers es) = sn_digest s" "distinct (identifiers es)"
    "sp = \<lparr> sp_cutoffs = (\<lambda>c. latest (cutoff_times es c)), sp_jtis = {j. ''jti-'' @ j \<in> set (identifiers es)},
            sp_generation = sn_generation s, sp_started = started, sp_skew = rp_skew p,
            sp_max_stale = rp_max_stale p \<rparr>"
  note v = ValidateSentinel_None [OF a(5)]
  from v have "params_retention p \<le> RetentionCeiling" by linarith
  note terms = params_retention_nonneg_terms [OF this]
  note single = BuildSnapshot_single [OF assms]
  from single have "identifiers es = filter (\<lambda>cn. cn \<noteq> ''sentinel'') (concat (map re_cn es))"
    by (rule identifiers_concat)
  with terms a v single [unfolded entry_single_def] show ?thesis by simp
qed

text \<open>What an accepted snapshot decides is a function of the directory entries alone: unavailable
  once it is older than MaxStale, otherwise revoked exactly when some cutoff entry of the client was
  created no earlier than the token's issue minus the skew, or some entry is named after the token's
  jti, and accepted in every other case. In particular an empty jti never matches.\<close>

theorem revocation_decision:
  assumes "BuildSnapshot sha p before after es g started now = Inr sp"
  shows "snapshot_Check (Some sp) client iat jti t =
    (if rp_max_stale p < time_sub t started then DecisionUnavailable
     else if list_ex (\<lambda>e. is_cutoff client e \<and> iat \<le> re_create e + rp_skew p) es
          \<or> ''jti-'' @ jti \<in> set (identifiers es) then DecisionRevoked
     else DecisionOK)"
  using assms by (rule decision_eq)

text \<open>The retention formula. For non-negative settings Retention is the exact sum
  MaxTTL + 3 skew + REFRESH + MAX_STALE whenever it fits a duration, and the largest duration otherwise,
  as it is for a negative setting: it never wraps round to a small value.\<close>

theorem Retention_exact:
  "Retention ttl skew refresh stale =
     (if ttl < 0 \<or> skew < 0 \<or> refresh < 0 \<or> stale < 0 then max_duration
      else min max_duration (ttl + 3 * skew + refresh + stale))"
  by (auto simp: Retention_def max_duration_def min_def)


subsection \<open>The sentinel's text\<close>

text \<open>The text the maintenance tool writes.\<close>

definition sentinel_text :: "nat \<Rightarrow> string \<Rightarrow> nat \<Rightarrow> nat \<Rightarrow> string" where
  "sentinel_text cnt digest ts ret =
     join_on (CHR '';'') [''entries='' @ itoa cnt, ''digest='' @ digest, ''ts='' @ itoa ts, ''ret='' @ itoa ret]"

lemma isLowerHex_no_semicolon: "isLowerHex s \<Longrightarrow> CHR '';'' \<notin> set s"
  unfolding isLowerHex_def by (induction s) auto

lemma split_sentinel_text:
  "isLowerHex digest \<Longrightarrow> split_on (CHR '';'') (sentinel_text cnt digest ts ret) =
     [''entries='' @ itoa cnt, ''digest='' @ digest, ''ts='' @ itoa ts, ''ret='' @ itoa ret]"
  unfolding sentinel_text_def
  by (rule split_join) (auto simp: itoa_no_semicolon isLowerHex_no_semicolon)

lemma keyed_value_append: "v \<noteq> '''' \<Longrightarrow> keyed_value k (k @ ''='' @ v) = Some v"
  by (simp add: keyed_value_def cutPrefix_def has_prefix_iff)

lemma keyed_values:
  "keyed_value ''entries'' (''entries='' @ itoa n) = Some (itoa n)"
  "keyed_value ''ts'' (''ts='' @ itoa n) = Some (itoa n)"
  "keyed_value ''ret'' (''ret='' @ itoa n) = Some (itoa n)"
  "v \<noteq> '''' \<Longrightarrow> keyed_value ''digest'' (''digest='' @ v) = Some v"
  using keyed_value_append [of "itoa n" "''entries''"] keyed_value_append [of "itoa n" "''ts''"]
    keyed_value_append [of "itoa n" "''ret''"] keyed_value_append [of v "''digest''"]
  by (auto simp: itoa_all)

text \<open>ParseSentinel reads back every sentinel the tool writes: for a generation from 1 below 2^63, a
  count below 2^31, a 64-digit lower-case hexadecimal digest, seconds below 2^62 and a retention below
  2^31 seconds, the printed serial number and description parse to exactly these values, with the
  timestamp counted from the Unix epoch.\<close>

theorem ParseSentinel_roundtrip:
  assumes "1 \<le> gen" "gen < 2 ^ 63" "cnt < 2 ^ 31" "length digest = 64" "isLowerHex digest"
    "ts < 2 ^ 62" "ret < 2 ^ 31"
  shows "ParseSentinel (itoa gen) (sentinel_text cnt digest ts ret) m =
    Inr \<lparr> sn_generation = gen, sn_count = cnt, sn_digest = digest, sn_ts = time_Unix (int ts),
          sn_ret = int ret * second_ns, sn_modify = m \<rparr>"
proof -
  from assms(4) have "digest \<noteq> ''''" by auto
  note k = keyed_values(1-3) keyed_values(4) [OF this]
  have p: "ParseUint (itoa gen) 63 = Some gen" "ParseUint (itoa cnt) 31 = Some cnt"
      "ParseInt (itoa ts) 63 = Some (int ts)" "ParseInt (itoa ret) 32 = Some (int ret)"
    using assms by (auto intro!: ParseUint_itoa ParseInt_itoa)
  from assms(1,4,5) show ?thesis
    unfolding ParseSentinel_def split_sentinel_text [OF assms(5)] by (simp add: k [simplified] p)
qed


text \<open>The retention period is long enough. An entry the refresh no longer reads (created before the
  sentinel's time minus its retention) can only name tokens that are already expired: if such a token was
  issued no later than the entry plus the skew and lives at most MaxTTL, then whenever the accepted
  snapshot is consulted, its expiry plus the skew, one refresh period and MaxStale lies in the past.\<close>

theorem retention_safe:
  assumes "BuildSnapshot sha p (Some s) after es g started now = Inr sp"
    "create < sn_ts s - sn_ret s" "iat \<le> create + rp_skew p" "expiry \<le> iat + rp_max_ttl p" "now \<le> t"
  shows "expiry + rp_skew p + rp_refresh p + rp_max_stale p < t"
proof -
  from assms(1) have v: "ValidateSentinel p s g now = None"
    by (auto elim!: BuildSnapshot_Inr)
  then have "params_retention p \<le> RetentionCeiling" "params_retention p \<le> sn_ret s" "sn_ts s \<le> now + rp_skew p"
    using ValidateSentinel_None [OF v] by linarith+
  with params_retention_nonneg_terms [of p] assms show ?thesis by linarith
qed

subsection \<open>Witnesses\<close>

definition sample_params :: revocation_params where
  "sample_params = \<lparr> rp_max_ttl = 3600 * second_ns, rp_skew = 60 * second_ns, rp_refresh = 5 * second_ns,
     rp_max_stale = 20 * second_ns, rp_sentinel_max_age = 300 * second_ns, rp_max_entries = 10 \<rparr>"

definition sample_sha :: "string \<Rightarrow> string" where "sample_sha s = replicate 64 (CHR ''a'')"

definition sample_t0 :: gtime where "sample_t0 = time_Unix 1750000000"

definition sample_sentinel :: sentinel where
  "sample_sentinel = \<lparr> sn_generation = 3, sn_count = 2, sn_digest = replicate 64 (CHR ''a''), sn_ts = sample_t0,
     sn_ret = 4440 * second_ns, sn_modify = sample_t0 + second_ns \<rparr>"

definition sample_entries :: "revocation_entry list" where
  "sample_entries =
    [\<lparr> re_cn = [''sentinel''], re_ou = [''revocations''], re_create = sample_t0 \<rparr>,
     \<lparr> re_cn = [''jti-x7''], re_ou = [''app''], re_create = sample_t0 - 9 * second_ns \<rparr>,
     \<lparr> re_cn = [''cutoff-1''], re_ou = [''app''], re_create = sample_t0 - 5 * second_ns \<rparr>]"

definition sample_started :: gtime where "sample_started = sample_t0 + 2 * second_ns"

definition sample_snapshot :: snapshot where
  "sample_snapshot = \<lparr> sp_cutoffs = Map.empty(''app'' \<mapsto> sample_t0 - 5 * second_ns), sp_jtis = {''x7''},
     sp_generation = 3, sp_started = sample_started, sp_skew = 60 * second_ns, sp_max_stale = 20 * second_ns \<rparr>"

lemmas sample_rev_defs = sample_params_def sample_sentinel_def sample_entries_def sample_started_def
  sample_snapshot_def sample_t0_def time_Unix_def unix_epoch_def second_ns_def hour_ns_def minute_ns_def
  sentinelClockSlack_def RetentionCeiling_def max_duration_def min_duration_def time_sub_def MaxValueBytes_def

lemma sample_valid: "ValidateSentinel sample_params sample_sentinel 2 (sample_started + second_ns) = None"
  by (simp add: ValidateSentinel_def params_retention_def Retention_def sample_rev_defs)

lemma sample_build_entries:
  "build_entries sample_entries [] False Map.empty {} =
     Inr ([''jti-x7'', ''cutoff-1''], Map.empty(''app'' \<mapsto> sample_t0 - 5 * second_ns), {''x7''})"
  by (simp add: sample_entries_def singleValue_def containsAny_def has_prefix_def add_cutoff_def
      sample_t0_def time_Unix_def unix_epoch_def second_ns_def MaxValueBytes_def)

lemma sample_build:
  "BuildSnapshot sample_sha sample_params (Some sample_sentinel) (Some sample_sentinel) sample_entries 2
     sample_started (sample_started + second_ns) = Inr sample_snapshot"
proof -
  have "sample_started \<noteq> 0 \<and> sample_started \<le> sample_started + second_ns"
    by (simp add: sample_rev_defs)
  moreover have "rp_max_entries sample_params = 10" "length sample_entries = 3" "sn_count sample_sentinel = 2"
    "sn_digest sample_sentinel = EntriesDigest sample_sha [''jti-x7'', ''cutoff-1'']"
    "sn_generation sample_sentinel = 3" "rp_skew sample_params = 60 * second_ns"
    "rp_max_stale sample_params = 20 * second_ns"
    by (simp_all add: sample_params_def sample_entries_def sample_sentinel_def EntriesDigest_def sample_sha_def)
  ultimately show ?thesis
    by (simp add: BuildSnapshot_def sample_valid sample_build_entries sample_snapshot_def)
qed

theorem BuildSnapshot_vouched_witness:
  "distinct (identifiers sample_entries) \<and> length (identifiers sample_entries) = 2 \<and> sp_generation sample_snapshot = 3 \<and>
   identifiers sample_entries = [''jti-x7'', ''cutoff-1'']"
proof -
  note v = BuildSnapshot_vouched [OF sample_build]
  from v have "distinct (identifiers sample_entries)" by blast
  moreover from v have "length (identifiers sample_entries) = sn_count (the (Some sample_sentinel))" by blast
  moreover from v have "sp_generation sample_snapshot = sn_generation (the (Some sample_sentinel))" by blast
  moreover from v have
    "identifiers sample_entries = filter (\<lambda>cn. cn \<noteq> ''sentinel'') (concat (map re_cn sample_entries))" by blast
  ultimately show ?thesis by (simp add: sample_sentinel_def sample_entries_def)
qed

theorem revocation_decision_witness:
  "snapshot_Check (Some sample_snapshot) ''app'' (sample_t0 + 100 * second_ns) ''x7'' (sample_t0 + 5 * second_ns) = DecisionRevoked \<and>
   snapshot_Check (Some sample_snapshot) ''app'' (sample_t0 + 20 * second_ns) ''x8'' (sample_t0 + 5 * second_ns) = DecisionRevoked \<and>
   snapshot_Check (Some sample_snapshot) ''app'' (sample_t0 + 100 * second_ns) ''x8'' (sample_t0 + 5 * second_ns) = DecisionOK \<and>
   snapshot_Check (Some sample_snapshot) ''app'' (sample_t0 + 100 * second_ns) ''x8'' (sample_t0 + 30 * second_ns) = DecisionUnavailable"
  unfolding revocation_decision [OF sample_build]
  by (simp add: sample_rev_defs is_cutoff_def entry_cn_def has_prefix_def)

theorem ParseSentinel_roundtrip_witness:
  "ParseSentinel (itoa 3) (sentinel_text 2 (replicate 64 (CHR ''a'')) 1750000000 4440) (sample_t0 + second_ns) = Inr sample_sentinel"
  by (subst ParseSentinel_roundtrip)
     (simp_all add: isLowerHex_def list_all_iff sample_sentinel_def sample_t0_def)

theorem retention_safe_witness:
  "sample_t0 - 5000 * second_ns + 60 * second_ns + 3600 * second_ns + 60 * second_ns + 5 * second_ns + 20 * second_ns
     < sample_started + second_ns"
  using retention_safe [OF sample_build, of "sample_t0 - 5000 * second_ns" "sample_t0 - 4940 * second_ns"
      "sample_t0 - 1340 * second_ns" "sample_started + second_ns"]
  by (simp add: sample_params_def sample_sentinel_def sample_started_def second_ns_def)

end
