(* ===== verification/RevocationRefresh.thy ===== *)
theory RevocationRefresh
  imports RevocationProps
begin

text \<open>
  The refresher of the revocation snapshot, \<open>httpapi/machine_revocation.go\<close>, and the reader it calls,
  \<open>ldapclient/revocation.go\<close>.

  The reader talks to a directory server: \<open>rs_dial\<close> and \<open>rs_bind\<close> are the outcomes of connecting and
  binding, \<open>rs_search i q\<close> is the answer to the i-th search of one read (its items, whether the stream
  ended in an error, whether the context was done), \<open>rs_clock i\<close> the i-th reading of the clock.
  \<open>strings.EqualFold\<close>, \<open>time.Parse\<close> and \<open>Time.Format\<close> with the fixed LDAP layout are the arguments
  collected in \<open>ldap_text\<close>. The mutex of the refresher is the atomicity of its operations.
\<close>

subsection \<open>The refresher\<close>

definition revocationBackoff :: duration where "revocationBackoff = 5 * minute_ns"

definition nextRevocationBackoff :: "duration \<Rightarrow> duration" where
  "nextRevocationBackoff _ = revocationBackoff"

record machine_revocation =
  mr_snapshot :: "snapshot option"
  mr_generation :: nat
  mr_successes :: nat
  mr_failures :: nat
  mr_refresh :: duration
  mr_backoff :: duration

definition newMachineRevocation :: "duration \<Rightarrow> machine_revocation" where
  "newMachineRevocation refresh = \<lparr> mr_snapshot = None, mr_generation = 0, mr_successes = 0, mr_failures = 0,
     mr_refresh = refresh, mr_backoff = 0 \<rparr>"

definition mr_check :: "machine_revocation \<Rightarrow> string \<Rightarrow> gtime \<Rightarrow> string \<Rightarrow> gtime \<Rightarrow> rev_decision" where
  "mr_check r client issued jti now = snapshot_Check (mr_snapshot r) client issued jti now"

record revocation_status =
  rs_ready :: bool
  rs_successes :: nat
  rs_failures :: nat

definition mr_status :: "machine_revocation \<Rightarrow> gtime \<Rightarrow> revocation_status" where
  "mr_status r now = \<lparr> rs_ready = (snapshot_Check (mr_snapshot r) '''' 0 '''' now \<noteq> DecisionUnavailable),
     rs_successes = mr_successes r, rs_failures = mr_failures r \<rparr>"

text \<open>The counters are \<open>uint64\<close>.\<close>

definition uint64_inc :: "nat \<Rightarrow> nat" where "uint64_inc n = (n + 1) mod 2 ^ 64"

definition mr_update ::
    "bool \<Rightarrow> (nat \<Rightarrow> revocation_error + snapshot option) \<Rightarrow> machine_revocation \<Rightarrow> machine_revocation \<times> duration" where
  "mr_update cancelled read r =
     (let result = read (mr_generation r)
      in if cancelled then (r, mr_refresh r)
         else
           (let result' =
              (case result of
                 Inr None \<Rightarrow> Inl ErrGenerationRegression
               | Inr (Some s) \<Rightarrow> if Generation (Some s) < mr_generation r then Inl ErrGenerationRegression else Inr s
               | Inl e \<Rightarrow> Inl e)
            in case result' of
                 Inl e \<Rightarrow>
                   (let r1 = r\<lparr> mr_failures := uint64_inc (mr_failures r) \<rparr>;
                        r2 = (if e = ErrInvalidCredentials then r1\<lparr> mr_backoff := nextRevocationBackoff (mr_backoff r1) \<rparr> else r1)
                    in if 0 < mr_backoff r2 then (r2, mr_backoff r2) else (r2, mr_refresh r2))
               | Inr s \<Rightarrow>
                   (r\<lparr> mr_snapshot := Some s, mr_generation := Generation (Some s),
                      mr_successes := uint64_inc (mr_successes r), mr_backoff := 0 \<rparr>, mr_refresh r)))"

text \<open>
  One round of the loop: the answer of the read, when in the round the bind took place, how long the
  update took, how late the timer fired after the delay the update asked for, and whether the context was
  cancelled during the read (the loop then ends). \<open>mr_run\<close> starts at \<open>t\<close> and returns the last state and,
  oldest first, the instants of the binds the server refused for bad credentials.
\<close>

record round =
  rd_read :: "nat \<Rightarrow> revocation_error + snapshot option"
  rd_bind :: duration
  rd_took :: duration
  rd_late :: duration
  rd_cancelled :: bool

definition cred_failure :: "round \<Rightarrow> machine_revocation \<Rightarrow> bool" where
  "cred_failure rd r \<longleftrightarrow> rd_read rd (mr_generation r) = Inl ErrInvalidCredentials"

fun mr_run :: "machine_revocation \<Rightarrow> gtime \<Rightarrow> round list \<Rightarrow> machine_revocation \<times> gtime list" where
  "mr_run r t [] = (r, [])"
| "mr_run r t (rd # rds) =
     (case mr_update (rd_cancelled rd) (rd_read rd) r of
        (r', delay) \<Rightarrow>
          (let fs = (if cred_failure rd r then [t + rd_bind rd] else [])
           in if rd_cancelled rd then (r', fs)
              else (case mr_run r' (t + rd_took rd + delay + rd_late rd) rds of (r'', fs') \<Rightarrow> (r'', fs @ fs'))))"

definition round_ok :: "round \<Rightarrow> bool" where
  "round_ok rd \<longleftrightarrow> 0 \<le> rd_bind rd \<and> rd_bind rd \<le> rd_took rd \<and> 0 \<le> rd_late rd"

subsection \<open>The reader\<close>

record revocation_config =
  rc_machine_enabled :: bool
  rc_enabled :: bool
  rc_base_dn :: string
  rc_bind_dn :: string
  rc_bind_password :: string

record ldap_entry =
  le_dn :: string
  le_attrs :: "(string \<times> string list) list"

datatype search_item = Referral string | Item "ldap_entry option"

record search_request =
  sq_base :: string
  sq_whole_subtree :: bool
  sq_filter :: string
  sq_limit :: int

record search_answer =
  sa_items :: "search_item list"
  sa_failed :: bool
  sa_ctx_done :: bool

datatype bind_outcome = BindOK | BindInvalidCredentials | BindFailed

record revocation_server =
  rs_dial :: bool
  rs_bind :: "string \<Rightarrow> string \<Rightarrow> bind_outcome"
  rs_search :: "nat \<Rightarrow> search_request \<Rightarrow> search_answer"
  rs_clock :: "nat \<Rightarrow> gtime"

record ldap_text =
  lt_equal_fold :: "string \<Rightarrow> string \<Rightarrow> bool"
  lt_parse_time :: "string \<Rightarrow> gtime option"
  lt_format_time :: "gtime \<Rightarrow> string"

definition entry_bytes :: "ldap_entry \<Rightarrow> int" where
  "entry_bytes e = int (length (le_dn e)) + 32 +
     sum_list (map (\<lambda>a. int (length (fst a)) + 16 + sum_list (map (\<lambda>v. int (length v) + 16) (snd a))) (le_attrs e))"

fun collect :: "int \<Rightarrow> search_item list \<Rightarrow> ldap_entry list \<Rightarrow> int \<Rightarrow> revocation_error + ldap_entry list" where
  "collect limit [] entries bytes = Inr entries"
| "collect limit (it # its) entries bytes =
     (case it of
        Referral _ \<Rightarrow> Inl ErrRevocationDirectory
      | Item None \<Rightarrow> Inl ErrRevocationDirectory
      | Item (Some e) \<Rightarrow>
          (let bytes' = bytes + entry_bytes e
           in if 2 ^ 20 < bytes' \<or> limit \<le> int (length entries) then Inl ErrTooManyEntries
              else collect limit its (entries @ [e]) bytes'))"

definition search :: "revocation_server \<Rightarrow> nat \<Rightarrow> search_request \<Rightarrow> revocation_error + ldap_entry list" where
  "search sv i q =
     (let a = rs_search sv i q
      in case collect (sq_limit q) (sa_items a) [] 0 of
           Inl e \<Rightarrow> Inl e
         | Inr es \<Rightarrow> if sa_ctx_done a \<or> sa_failed a then Inl ErrRevocationDirectory else Inr es)"

definition revocationValue :: "ldap_text \<Rightarrow> ldap_entry \<Rightarrow> string \<Rightarrow> revocation_error + string" where
  "revocationValue T e name =
     (case concat (map snd (filter (\<lambda>a. lt_equal_fold T (fst a) name) (le_attrs e))) of
        [v] \<Rightarrow>
          if v = '''' \<or> MaxValueBytes < length v \<or> containsAny v [CHR 0x0D, CHR 0x0A, CHR 0x00] then Inl ErrEntryFormat
          else Inr v
      | _ \<Rightarrow> Inl ErrEntryFormat)"

definition revocationTime :: "ldap_text \<Rightarrow> ldap_entry \<Rightarrow> string \<Rightarrow> revocation_error + gtime" where
  "revocationTime T e name =
     (case revocationValue T e name of
        Inl err \<Rightarrow> Inl err
      | Inr v \<Rightarrow> (case lt_parse_time T v of None \<Rightarrow> Inl ErrEntryFormat | Some t \<Rightarrow> Inr t))"

definition revocationRow :: "ldap_text \<Rightarrow> ldap_entry \<Rightarrow> revocation_error + revocation_entry" where
  "revocationRow T e =
     (case revocationValue T e ''cn'' of
        Inl err \<Rightarrow> Inl err
      | Inr cn \<Rightarrow>
          (case revocationValue T e ''ou'' of
             Inl err \<Rightarrow> Inl err
           | Inr ou \<Rightarrow>
               (case revocationTime T e ''createTimestamp'' of
                  Inl err \<Rightarrow> Inl err
                | Inr created \<Rightarrow> Inr \<lparr> re_cn = [cn], re_ou = [ou], re_create = created \<rparr>)))"

fun rows :: "ldap_text \<Rightarrow> ldap_entry list \<Rightarrow> revocation_error + revocation_entry list" where
  "rows T [] = Inr []"
| "rows T (e # es) =
     (case revocationRow T e of
        Inl err \<Rightarrow> Inl err
      | Inr row \<Rightarrow> (case rows T es of Inl err \<Rightarrow> Inl err | Inr rs \<Rightarrow> Inr (row # rs)))"

definition read_sentinel ::
    "ldap_text \<Rightarrow> revocation_config \<Rightarrow> revocation_server \<Rightarrow> nat \<Rightarrow> revocation_error + sentinel" where
  "read_sentinel T cfg sv i =
     (case search sv i \<lparr> sq_base = ''cn=sentinel,'' @ rc_base_dn cfg, sq_whole_subtree = False,
                         sq_filter = ''(&(objectClass=device)(cn=sentinel))'', sq_limit = 2 \<rparr> of
        Inl err \<Rightarrow> Inl err
      | Inr es \<Rightarrow>
          (case es of
             [e] \<Rightarrow>
               if revocationValue T e ''cn'' \<noteq> Inr ''sentinel'' then Inl ErrSentinelFormat
               else if revocationValue T e ''ou'' \<noteq> Inr ''revocations'' then Inl ErrSentinelFormat
               else
                 (case revocationValue T e ''serialNumber'' of
                    Inl err \<Rightarrow> Inl err
                  | Inr serial \<Rightarrow>
                      (case revocationValue T e ''description'' of
                         Inl err \<Rightarrow> Inl err
                       | Inr description \<Rightarrow>
                           (case revocationTime T e ''modifyTimestamp'' of
                              Inl err \<Rightarrow> Inl err
                            | Inr modified \<Rightarrow> ParseSentinel serial description modified)))
           | _ \<Rightarrow> Inl ErrNoSentinel))"

definition rows_request :: "ldap_text \<Rightarrow> revocation_config \<Rightarrow> revocation_params \<Rightarrow> sentinel \<Rightarrow> search_request" where
  "rows_request T cfg p s =
     \<lparr> sq_base = rc_base_dn cfg, sq_whole_subtree = True,
       sq_filter = ''(&(objectClass=device)(|(!(cn=jti-*))(createTimestamp>='' @
                   lt_format_time T (sn_ts s - sn_ret s) @ '')))'',
       sq_limit = rp_max_entries p + 2 \<rparr>"

text \<open>One attempt: its three searches are numbered \<open>3k\<close> to \<open>3k + 2\<close>, its two clock readings \<open>2k + 1\<close> and
  \<open>2k + 2\<close>.\<close>

definition attempt ::
    "(string \<Rightarrow> string) \<Rightarrow> ldap_text \<Rightarrow> revocation_config \<Rightarrow> revocation_params \<Rightarrow> revocation_server \<Rightarrow> gtime \<Rightarrow> nat \<Rightarrow> nat \<Rightarrow>
     revocation_error + snapshot" where
  "attempt sha_hex T cfg p sv started generation k =
     (case read_sentinel T cfg sv (3 * k) of
        Inl err \<Rightarrow> Inl err
      | Inr before \<Rightarrow>
          (case ValidateSentinel p before generation (rs_clock sv (2 * k + 1)) of
             Some err \<Rightarrow> Inl err
           | None \<Rightarrow>
               (case search sv (3 * k + 1) (rows_request T cfg p before) of
                  Inl err \<Rightarrow> Inl err
                | Inr es \<Rightarrow>
                    (case rows T es of
                       Inl err \<Rightarrow> Inl err
                     | Inr rs \<Rightarrow>
                         (case read_sentinel T cfg sv (3 * k + 2) of
                            Inl err \<Rightarrow> Inl err
                          | Inr after \<Rightarrow>
                              BuildSnapshot sha_hex p (Some before) (Some after) rs generation started
                                (rs_clock sv (2 * k + 2)))))))"

definition reader_Read ::
    "(string \<Rightarrow> string) \<Rightarrow> ldap_text \<Rightarrow> revocation_config \<Rightarrow> revocation_params \<Rightarrow> revocation_server \<Rightarrow> nat \<Rightarrow>
     revocation_error + snapshot" where
  "reader_Read sha_hex T cfg p sv generation =
     (if \<not> rc_machine_enabled cfg \<or> \<not> rc_enabled cfg then Inl ErrParams
      else if \<not> rs_dial sv then Inl ErrRevocationDirectory
      else
        (case rs_bind sv (rc_bind_dn cfg) (rc_bind_password cfg) of
           BindInvalidCredentials \<Rightarrow> Inl ErrInvalidCredentials
         | BindFailed \<Rightarrow> Inl ErrRevocationDirectory
         | BindOK \<Rightarrow>
             (case attempt sha_hex T cfg p sv (rs_clock sv 0) generation 0 of
                Inl ErrGenerationChanged \<Rightarrow>
                  (case attempt sha_hex T cfg p sv (rs_clock sv 0) generation 1 of
                     Inl ErrGenerationChanged \<Rightarrow> Inl ErrGenerationChanged
                   | result \<Rightarrow> result)
              | result \<Rightarrow> result)))"


subsection \<open>Credential failures are spaced\<close>

lemma mr_update_cases:
  obtains (cancelled) "cancelled" "mr_update cancelled read r = (r, mr_refresh r)"
  | (failed) e r' where "\<not> cancelled" "mr_update cancelled read r = (r', if 0 < mr_backoff r' then mr_backoff r' else mr_refresh r')"
      "r' = r\<lparr> mr_failures := uint64_inc (mr_failures r),
              mr_backoff := if read (mr_generation r) = Inl ErrInvalidCredentials then revocationBackoff else mr_backoff r \<rparr>"
  | (succeeded) s where "\<not> cancelled" "read (mr_generation r) = Inr (Some s)" "mr_generation r \<le> sp_generation s"
      "mr_update cancelled read r =
         (r\<lparr> mr_snapshot := Some s, mr_generation := sp_generation s, mr_successes := uint64_inc (mr_successes r),
            mr_backoff := 0 \<rparr>, mr_refresh r)"
proof (cases cancelled)
  case True
  then show thesis by (intro cancelled) (simp_all add: mr_update_def)
next
  case nc: False
  show thesis
  proof (cases "read (mr_generation r)")
    case (Inl e)
    with nc show thesis
      by (intro failed) (auto simp: mr_update_def Let_def nextRevocationBackoff_def)
  next
    case (Inr so)
    show thesis
    proof (cases so)
      case None
      with nc Inr show thesis by (intro failed) (auto simp: mr_update_def Let_def)
    next
      case (Some s)
      with nc Inr show thesis
        by (cases "sp_generation s < mr_generation r")
          (force intro: failed simp: mr_update_def Let_def Generation_def,
           auto intro!: succeeded simp: mr_update_def Let_def Generation_def)
    qed
  qed
qed

lemma mr_update_delay:
  assumes "mr_update c read r = (r', d)" "0 \<le> mr_refresh r" "0 \<le> mr_backoff r"
  shows "0 \<le> d \<and> mr_refresh r' = mr_refresh r \<and> 0 \<le> mr_backoff r'"
  using assms
  by (cases rule: mr_update_cases [of c read r])
     (auto simp: revocationBackoff_def minute_ns_def second_ns_def split: if_splits)

lemma mr_update_cred_delay:
  assumes "mr_update False read r = (r', d)" "read (mr_generation r) = Inl ErrInvalidCredentials"
  shows "d = revocationBackoff"
  using assms
  by (cases rule: mr_update_cases [of False read r])
     (auto simp: revocationBackoff_def minute_ns_def second_ns_def split: if_splits)

lemma mr_run_spacing:
  assumes "mr_run r t rds = (r', fs)" "list_all round_ok rds" "0 \<le> mr_refresh r" "0 \<le> mr_backoff r"
  shows "sorted_wrt (\<lambda>a b. a + revocationBackoff \<le> b) fs \<and> (\<forall>f \<in> set fs. t \<le> f)"
  using assms
proof (induction rds arbitrary: r t r' fs)
  case (Cons rd rds)
  obtain r1 d where u: "mr_update (rd_cancelled rd) (rd_read rd) r = (r1, d)" by fastforce
  note D = mr_update_delay [OF u Cons.prems(3,4)]
  from Cons.prems(2) have ok: "0 \<le> rd_bind rd" "rd_bind rd \<le> rd_took rd" "0 \<le> rd_late rd"
    by (simp_all add: round_ok_def)
  show ?case
  proof (cases "rd_cancelled rd")
    case True
    with Cons.prems(1) u ok show ?thesis by (auto simp: Let_def split: if_splits)
  next
    case False
    obtain r2 fs' where run: "mr_run r1 (t + rd_took rd + d + rd_late rd) rds = (r2, fs')" by fastforce
    from Cons.IH [OF run] Cons.prems(2,3) D have IH: "sorted_wrt (\<lambda>a b. a + revocationBackoff \<le> b) fs'"
      "\<forall>f \<in> set fs'. t + rd_took rd + d + rd_late rd \<le> f" by simp_all
    from False Cons.prems(1) u run have fs: "fs = (if cred_failure rd r then [t + rd_bind rd] else []) @ fs'"
      by (auto simp: Let_def)
    have "d = revocationBackoff" if "cred_failure rd r"
      using mr_update_cred_delay [of "rd_read rd" r] u False that by (simp add: cred_failure_def)
    with IH ok D show ?thesis unfolding fs by fastforce
  qed
qed simp

lemma spaced_window:
  assumes "sorted_wrt (\<lambda>a b. a + g \<le> b) xs" "\<forall>x \<in> set xs. w \<le> x \<and> x \<le> w + int k * g" "(0::int) < g"
  shows "length xs \<le> k + 1"
  using assms
proof (induction xs arbitrary: w k)
  case (Cons x xs)
  show ?case
  proof (cases xs)
    case (Cons y ys)
    with Cons.prems have "x + g \<le> y" "w \<le> x" "y \<le> w + int k * g" by simp_all
    then obtain k' where k: "k = Suc k'" using Cons.prems(3) by (cases k) auto
    have "\<forall>z \<in> set xs. w + g \<le> z \<and> z \<le> (w + g) + int k' * g"
      using Cons.prems k by (fastforce simp: algebra_simps)
    from Cons.IH [OF _ this Cons.prems(3)] Cons.prems(1) k show ?thesis by simp
  qed simp
qed simp

text \<open>C31: The refresher cannot lock the shared machine account: whatever the directory answers, however long
  the reads take and however late the timers fire, no closed window of 900 seconds holds more than four
  binds refused for bad credentials (the directory's policy locks the account at five).\<close>

theorem revocation_lockout_bound:
  assumes "mr_run (newMachineRevocation refresh) t rounds = (r, failures)" "list_all round_ok rounds" "0 \<le> refresh"
  shows "length (filter (\<lambda>f. w \<le> f \<and> f \<le> w + 900 * second_ns) failures) \<le> 4"
proof -
  from mr_run_spacing [OF assms(1,2)] assms(3)
  have "sorted_wrt (\<lambda>a b. a + revocationBackoff \<le> b) failures" by (simp add: newMachineRevocation_def)
  then have "sorted_wrt (\<lambda>a b. a + revocationBackoff \<le> b) (filter (\<lambda>f. w \<le> f \<and> f \<le> w + 900 * second_ns) failures)"
    by (rule sorted_wrt_filter)
  from spaced_window [OF this, of w 3] show ?thesis
    by (simp add: revocationBackoff_def minute_ns_def second_ns_def)
qed


subsection \<open>What the reader returns\<close>

lemma collect_err: "collect l its es b = Inl e \<Longrightarrow> e \<in> {ErrRevocationDirectory, ErrTooManyEntries}"
  by (induction l its es b rule: collect.induct)
     (auto simp: Let_def split: search_item.splits option.splits if_splits)

lemma search_err: "search sv i q = Inl e \<Longrightarrow> e \<in> {ErrRevocationDirectory, ErrTooManyEntries}"
  by (auto simp: search_def Let_def dest!: collect_err split: sum.splits if_splits)

lemma revocationValue_err: "revocationValue T e n = Inl x \<Longrightarrow> x = ErrEntryFormat"
  by (auto simp: revocationValue_def split: list.splits if_splits)

lemma revocationTime_err: "revocationTime T e n = Inl x \<Longrightarrow> x = ErrEntryFormat"
  by (auto simp: revocationTime_def dest!: revocationValue_err split: sum.splits option.splits)

lemma revocationRow_err: "revocationRow T e = Inl x \<Longrightarrow> x = ErrEntryFormat"
  by (auto simp: revocationRow_def dest!: revocationValue_err revocationTime_err split: sum.splits)

lemma rows_err: "rows T es = Inl x \<Longrightarrow> x = ErrEntryFormat"
  by (induction T es rule: rows.induct) (auto dest!: revocationRow_err split: sum.splits)

lemma ParseSentinel_err: "ParseSentinel a b m = Inl x \<Longrightarrow> x = ErrSentinelFormat"
  by (auto simp: ParseSentinel_def split: option.splits if_splits list.splits)

lemma read_sentinel_err:
  "read_sentinel T cfg sv i = Inl x \<Longrightarrow>
     x \<in> {ErrRevocationDirectory, ErrTooManyEntries, ErrEntryFormat, ErrSentinelFormat, ErrNoSentinel}"
  by (auto simp: read_sentinel_def dest!: search_err revocationValue_err revocationTime_err ParseSentinel_err
      split: sum.splits list.splits if_splits)

lemma ValidateSentinel_err:
  "ValidateSentinel p s g now = Some x \<Longrightarrow> x \<noteq> ErrInvalidCredentials \<and> x \<noteq> ErrGenerationChanged"
  by (auto simp: ValidateSentinel_def Let_def split: if_splits)

lemma singleValue_err: "singleValue v = Inl x \<Longrightarrow> x = ErrEntryFormat"
  by (auto simp: singleValue_def split: list.splits if_splits)

lemma build_entries_err: "build_entries es cns sn c j = Inl x \<Longrightarrow> x = ErrEntryFormat"
  by (induction es cns sn c j rule: build_entries.induct)
     (auto dest!: singleValue_err split: sum.splits if_splits)

lemma BuildSnapshot_err:
  assumes "BuildSnapshot sha p b a es g st now = Inl x"
  shows "x \<noteq> ErrInvalidCredentials" "x = ErrGenerationChanged \<longleftrightarrow> b \<noteq> None \<and> a \<noteq> None \<and> b \<noteq> a"
  using assms
  by (auto simp: BuildSnapshot_def dest!: ValidateSentinel_err build_entries_err
      split: option.splits if_splits sum.splits)

lemma attempt_Inr:
  assumes "attempt sha T cfg p sv st g k = Inr sp"
  obtains s es rs where "read_sentinel T cfg sv (3 * k) = Inr s" "read_sentinel T cfg sv (3 * k + 2) = Inr s"
    "search sv (3 * k + 1) (rows_request T cfg p s) = Inr es" "rows T es = Inr rs"
    "BuildSnapshot sha p (Some s) (Some s) rs g st (rs_clock sv (2 * k + 2)) = Inr sp"
proof -
  from assms obtain s a es rs where x: "read_sentinel T cfg sv (3 * k) = Inr s" "read_sentinel T cfg sv (3 * k + 2) = Inr a"
    "search sv (3 * k + 1) (rows_request T cfg p s) = Inr es" "rows T es = Inr rs"
    "BuildSnapshot sha p (Some s) (Some a) rs g st (rs_clock sv (2 * k + 2)) = Inr sp"
    by (auto simp: attempt_def split: sum.splits option.splits)
  from x(5) have "a = s" by (auto elim: BuildSnapshot_Inr)
  with x that show thesis by blast
qed

lemma attempt_err: "attempt sha T cfg p sv st g k = Inl x \<Longrightarrow> x \<noteq> ErrInvalidCredentials"
  by (auto simp: attempt_def dest!: read_sentinel_err search_err rows_err ValidateSentinel_err BuildSnapshot_err(1)
      split: sum.splits option.splits)

lemma reader_cases:
  assumes "rc_machine_enabled cfg" "rc_enabled cfg" "rs_dial sv" "rs_bind sv (rc_bind_dn cfg) (rc_bind_password cfg) = BindOK"
  shows "reader_Read sha T cfg p sv g =
    (let a0 = attempt sha T cfg p sv (rs_clock sv 0) g 0
     in if a0 = Inl ErrGenerationChanged then attempt sha T cfg p sv (rs_clock sv 0) g 1 else a0)"
  using assms by (auto simp: reader_Read_def Let_def split: sum.splits revocation_error.splits)

lemma reader_Inr:
  assumes "reader_Read sha T cfg p sv g = Inr sp"
  shows "\<exists>k. k \<le> 1 \<and> attempt sha T cfg p sv (rs_clock sv 0) g k = Inr sp"
proof -
  from assms have c: "rc_machine_enabled cfg" "rc_enabled cfg" "rs_dial sv"
    "rs_bind sv (rc_bind_dn cfg) (rc_bind_password cfg) = BindOK"
    by (auto simp: reader_Read_def split: if_splits bind_outcome.splits)
  from assms show ?thesis unfolding reader_cases [OF c]
    by (auto simp: Let_def split: if_splits)
qed

text \<open>A read reports refused credentials exactly when revocation is enabled, the connection was made and
  the server refused the bind: no directory content, size limit or torn read is ever taken for a
  credential failure, so only real refusals start the lockout-safe backoff.\<close>

theorem reader_credential_error:
  "reader_Read sha T cfg p sv g = Inl ErrInvalidCredentials \<longleftrightarrow>
     rc_machine_enabled cfg \<and> rc_enabled cfg \<and> rs_dial sv \<and>
     rs_bind sv (rc_bind_dn cfg) (rc_bind_password cfg) = BindInvalidCredentials"
proof (cases "rc_machine_enabled cfg \<and> rc_enabled cfg \<and> rs_dial sv \<and>
    rs_bind sv (rc_bind_dn cfg) (rc_bind_password cfg) = BindOK")
  case True
  then show ?thesis by (auto simp: reader_cases Let_def dest: attempt_err)
next
  case False
  then show ?thesis by (auto simp: reader_Read_def split: bind_outcome.splits)
qed

subsection \<open>The refresher fails closed\<close>

definition reads_with ::
    "(string \<Rightarrow> string) \<Rightarrow> ldap_text \<Rightarrow> revocation_config \<Rightarrow> revocation_params \<Rightarrow> revocation_server \<Rightarrow> nat \<Rightarrow>
     revocation_error + snapshot option" where
  "reads_with sha T cfg p sv g = map_sum (\<lambda>e. e) Some (reader_Read sha T cfg p sv g)"

text \<open>The snapshot published by one of the servers' reads: the rows it was built from.\<close>

definition vouched ::
    "(string \<Rightarrow> string) \<Rightarrow> revocation_params \<Rightarrow> snapshot \<Rightarrow> sentinel \<Rightarrow> revocation_entry list \<Rightarrow> bool" where
  "vouched sha p sp s rs \<longleftrightarrow> (\<exists>g st now. BuildSnapshot sha p (Some s) (Some s) rs g st now = Inr sp)"

definition mr_inv :: "(string \<Rightarrow> string) \<Rightarrow> revocation_params \<Rightarrow> machine_revocation \<Rightarrow> bool" where
  "mr_inv sha p r \<longleftrightarrow> mr_generation r = Generation (mr_snapshot r) \<and>
     (case mr_snapshot r of None \<Rightarrow> True | Some sp \<Rightarrow> \<exists>s rs. vouched sha p sp s rs)"

lemma reads_with_vouched:
  assumes "reads_with sha T cfg p sv g = Inr (Some sp)"
  shows "\<exists>s rs. vouched sha p sp s rs"
proof -
  from assms have "reader_Read sha T cfg p sv g = Inr sp"
    by (cases "reader_Read sha T cfg p sv g") (auto simp: reads_with_def)
  with reader_Inr attempt_Inr show ?thesis unfolding vouched_def by metis
qed

lemma mr_update_inv:
  assumes "mr_inv sha p r" "mr_update c (reads_with sha T cfg p sv) r = (r', d)"
  shows "mr_inv sha p r' \<and> mr_generation r \<le> mr_generation r'"
  using assms
  by (cases rule: mr_update_cases [of c "reads_with sha T cfg p sv" r])
     (auto simp: mr_inv_def Generation_def dest: reads_with_vouched)

lemma mr_run_inv:
  assumes "mr_inv sha p r" "mr_run r t rds = (r', fs)" "\<forall>rd \<in> set rds. \<exists>sv. rd_read rd = reads_with sha T cfg p sv"
  shows "mr_inv sha p r' \<and> mr_generation r \<le> mr_generation r'"
  using assms
proof (induction rds arbitrary: r t r' fs)
  case (Cons rd rds)
  obtain sv where sv: "rd_read rd = reads_with sha T cfg p sv" using Cons.prems(3) by auto
  obtain r1 d where u: "mr_update (rd_cancelled rd) (rd_read rd) r = (r1, d)" by fastforce
  note I = mr_update_inv [OF Cons.prems(1) u [unfolded sv]]
  show ?case
  proof (cases "rd_cancelled rd")
    case True
    with Cons.prems(2) u I show ?thesis by (simp add: Let_def)
  next
    case False
    obtain r2 fs' where run: "mr_run r1 (t + rd_took rd + d + rd_late rd) rds = (r2, fs')" by fastforce
    from False Cons.prems(2) u run have "r' = r2" by (simp add: Let_def)
    with Cons.IH [OF _ run] I Cons.prems(3) show ?thesis by fastforce
  qed
qed simp


text \<open>C30: The refresher fails closed. Start it empty and let every round read any directory server: whenever
  it later accepts a token, the published snapshot was built from rows one sentinel vouched for (same
  digest, same generation as the refresher reports), it is no older than MaxStale, no row is named after
  the token's jti and every cutoff row of the token's client lies more than the skew before its issue.\<close>

theorem refresher_fails_closed:
  assumes "mr_run (newMachineRevocation refresh) t0 rounds = (r, failures)"
    "\<forall>rd \<in> set rounds. \<exists>sv. rd_read rd = reads_with sha T cfg p sv"
    "mr_check r client iat jti t = DecisionOK"
  shows "\<exists>sp s rs. mr_snapshot r = Some sp \<and> vouched sha p sp s rs \<and> mr_generation r = sn_generation s \<and>
    EntriesDigest sha (identifiers rs) = sn_digest s \<and> time_sub t (sp_started sp) \<le> rp_max_stale p \<and>
    ''jti-'' @ jti \<notin> set (identifiers rs) \<and>
    list_all (\<lambda>e. \<not> (is_cutoff client e \<and> iat \<le> re_create e + rp_skew p)) rs"
proof -
  have "mr_inv sha p (newMachineRevocation refresh)"
    by (simp add: mr_inv_def newMachineRevocation_def Generation_def)
  from mr_run_inv [OF this assms(1,2)] have inv: "mr_inv sha p r" by simp
  from assms(3) obtain sp where sp: "mr_snapshot r = Some sp"
    by (auto simp: mr_check_def snapshot_Check_def split: option.splits)
  with inv obtain s rs g st now where b: "BuildSnapshot sha p (Some s) (Some s) rs g st now = Inr sp"
    by (auto simp: mr_inv_def vouched_def)
  then have v: "vouched sha p sp s rs" by (auto simp: vouched_def)
  from b have facts: "sp_generation sp = sn_generation s" "sp_started sp = st"
      "EntriesDigest sha (identifiers rs) = sn_digest s"
    by (auto elim!: BuildSnapshot_Inr)
  from assms(3) sp decision_eq [OF b, of client iat jti t]
  have "\<not> rp_max_stale p < time_sub t st" "''jti-'' @ jti \<notin> set (identifiers rs)"
    "\<not> list_ex (\<lambda>e. is_cutoff client e \<and> iat \<le> re_create e + rp_skew p) rs"
    by (auto simp: mr_check_def split: if_splits)
  with sp v facts inv show ?thesis
    by (intro exI [of _ sp] exI [of _ s] exI [of _ rs])
       (auto simp: mr_inv_def Generation_def list_ex_iff list_all_iff)
qed

subsection \<open>Witnesses\<close>

definition sample_text :: ldap_text where
  "sample_text = \<lparr> lt_equal_fold = (=), lt_parse_time = (\<lambda>s. if s = ''20250615150640Z'' then Some sample_t0 else None),
     lt_format_time = (\<lambda>t. ''20250615135240Z'') \<rparr>"

definition sample_rev_config :: revocation_config where
  "sample_rev_config = \<lparr> rc_machine_enabled = True, rc_enabled = True, rc_base_dn = ''ou=revocations,dc=x'',
     rc_bind_dn = ''cn=m,dc=x'', rc_bind_password = ''pw'' \<rparr>"

definition sample_sentinel_entry :: ldap_entry where
  "sample_sentinel_entry = \<lparr> le_dn = ''cn=sentinel,ou=revocations,dc=x'', le_attrs =
     [(''cn'', [''sentinel'']), (''ou'', [''revocations'']), (''serialNumber'', [''3'']),
      (''description'', [''entries=1;digest=aaaaaaaaaaaaaaaaaaaaaaaaaaaaaaaaaaaaaaaaaaaaaaaaaaaaaaaaaaaaaaaa;ts=1750000000;ret=4440'']),
      (''createTimestamp'', [''20250615150640Z'']), (''modifyTimestamp'', [''20250615150640Z''])] \<rparr>"

definition sample_row :: ldap_entry where
  "sample_row = \<lparr> le_dn = ''cn=jti-x7,ou=revocations,dc=x'', le_attrs =
     [(''cn'', [''jti-x7'']), (''ou'', [''app'']), (''createTimestamp'', [''20250615150640Z''])] \<rparr>"

definition sample_server :: "bind_outcome \<Rightarrow> revocation_server" where
  "sample_server b = \<lparr> rs_dial = True, rs_bind = (\<lambda>_ _. b),
     rs_search = (\<lambda>i q. \<lparr> sa_items = (if sq_whole_subtree q then [Item (Some sample_sentinel_entry), Item (Some sample_row)]
        else [Item (Some sample_sentinel_entry)]), sa_failed = False, sa_ctx_done = False \<rparr>),
     rs_clock = (\<lambda>i. sample_t0 + (1 + int i) * second_ns) \<rparr>"

definition sample_snapshot2 :: snapshot where
  "sample_snapshot2 = \<lparr> sp_cutoffs = Map.empty, sp_jtis = {''x7''}, sp_generation = 3,
     sp_started = sample_t0 + second_ns, sp_skew = 60 * second_ns, sp_max_stale = 20 * second_ns \<rparr>"

definition sample_sentinel2 :: sentinel where
  "sample_sentinel2 = \<lparr> sn_generation = 3, sn_count = 1, sn_digest = ''aaaaaaaaaaaaaaaaaaaaaaaaaaaaaaaaaaaaaaaaaaaaaaaaaaaaaaaaaaaaaaaa'',
     sn_ts = sample_t0, sn_ret = 4440 * second_ns, sn_modify = sample_t0 \<rparr>"

lemma sample_split:
  "split_on (CHR '';'') ''entries=1;digest=aaaaaaaaaaaaaaaaaaaaaaaaaaaaaaaaaaaaaaaaaaaaaaaaaaaaaaaaaaaaaaaa;ts=1750000000;ret=4440'' =
     [''entries=1'', ''digest=aaaaaaaaaaaaaaaaaaaaaaaaaaaaaaaaaaaaaaaaaaaaaaaaaaaaaaaaaaaaaaaa'', ''ts=1750000000'', ''ret=4440'']"
  by simp

lemma sample_numbers:
  "ParseUint ''3'' 63 = Some 3" "ParseUint ''1'' 31 = Some 1" "ParseInt ''1750000000'' 63 = Some 1750000000"
  "ParseInt ''4440'' 32 = Some 4440"
  by (simp_all add: ParseUint_def ParseInt_def digits_def decimal_def digit_value_def)

lemma sample_keyed:
  "keyed_value ''entries'' ''entries=1'' = Some ''1''" "keyed_value ''ts'' ''ts=1750000000'' = Some ''1750000000''"
  "keyed_value ''ret'' ''ret=4440'' = Some ''4440''"
  "keyed_value ''digest'' ''digest=aaaaaaaaaaaaaaaaaaaaaaaaaaaaaaaaaaaaaaaaaaaaaaaaaaaaaaaaaaaaaaaa'' =
     Some ''aaaaaaaaaaaaaaaaaaaaaaaaaaaaaaaaaaaaaaaaaaaaaaaaaaaaaaaaaaaaaaaa''"
  by (simp_all add: keyed_value_def cutPrefix_def has_prefix_def)

lemma sample_parse:
  "ParseSentinel ''3'' ''entries=1;digest=aaaaaaaaaaaaaaaaaaaaaaaaaaaaaaaaaaaaaaaaaaaaaaaaaaaaaaaaaaaaaaaa;ts=1750000000;ret=4440'' sample_t0 =
     Inr sample_sentinel2"
  by (simp add: ParseSentinel_def sample_split sample_numbers sample_keyed isLowerHex_def list_all_iff sample_sentinel2_def
      sample_t0_def)

lemma sample_search:
  "search (sample_server BindOK) i q =
     (if sq_limit q \<le> 0 then Inl ErrTooManyEntries
      else if \<not> sq_whole_subtree q then Inr [sample_sentinel_entry]
      else if sq_limit q \<le> 1 then Inl ErrTooManyEntries else Inr [sample_sentinel_entry, sample_row])"
  by (simp add: search_def sample_server_def Let_def entry_bytes_def sample_sentinel_entry_def sample_row_def)

lemma sample_values:
  "revocationValue sample_text sample_sentinel_entry ''cn'' = Inr ''sentinel''"
  "revocationValue sample_text sample_sentinel_entry ''ou'' = Inr ''revocations''"
  "revocationValue sample_text sample_sentinel_entry ''serialNumber'' = Inr ''3''"
  "revocationValue sample_text sample_sentinel_entry ''description'' =
     Inr ''entries=1;digest=aaaaaaaaaaaaaaaaaaaaaaaaaaaaaaaaaaaaaaaaaaaaaaaaaaaaaaaaaaaaaaaa;ts=1750000000;ret=4440''"
  "revocationTime sample_text sample_sentinel_entry ''modifyTimestamp'' = Inr sample_t0"
  "revocationTime sample_text sample_sentinel_entry ''createTimestamp'' = Inr sample_t0"
  by (simp_all add: revocationTime_def revocationValue_def sample_text_def sample_sentinel_entry_def MaxValueBytes_def
      containsAny_def)

lemma sample_read_sentinel: "read_sentinel sample_text sample_rev_config (sample_server BindOK) i = Inr sample_sentinel2"
  by (simp add: read_sentinel_def sample_search sample_values sample_parse)

definition sample_rows :: "revocation_entry list" where
  "sample_rows = [\<lparr> re_cn = [''sentinel''], re_ou = [''revocations''], re_create = sample_t0 \<rparr>,
     \<lparr> re_cn = [''jti-x7''], re_ou = [''app''], re_create = sample_t0 \<rparr>]"

lemma sample_rows_read: "rows sample_text [sample_sentinel_entry, sample_row] = Inr sample_rows"
proof -
  have "revocationRow sample_text sample_row = Inr \<lparr> re_cn = [''jti-x7''], re_ou = [''app''], re_create = sample_t0 \<rparr>"
    by (simp add: revocationRow_def revocationTime_def revocationValue_def sample_text_def sample_row_def
        MaxValueBytes_def containsAny_def)
  then show ?thesis by (simp add: revocationRow_def sample_values sample_rows_def)
qed

lemma sample_valid2:
  "ValidateSentinel sample_params sample_sentinel2 0 (sample_t0 + k * second_ns) = None" if "0 \<le> k" "k \<le> 100"
  using that
  by (simp add: ValidateSentinel_def params_retention_def Retention_def sample_rev_defs sample_sentinel2_def)

lemma sample_build2:
  "BuildSnapshot sample_sha sample_params (Some sample_sentinel2) (Some sample_sentinel2) sample_rows 0
     (sample_t0 + second_ns) (sample_t0 + 3 * second_ns) = Inr sample_snapshot2"
proof -
  have b: "build_entries sample_rows [] False Map.empty {} = Inr ([''jti-x7''], Map.empty, {''x7''})"
    by (simp add: sample_rows_def singleValue_def containsAny_def has_prefix_def MaxValueBytes_def)
  have c: "sample_t0 + second_ns \<noteq> 0" "sample_t0 + second_ns \<le> sample_t0 + 3 * second_ns"
    by (simp_all add: sample_rev_defs)
  have d: "rp_max_entries sample_params = 10" "length sample_rows = 2" "sn_count sample_sentinel2 = 1"
    "sn_digest sample_sentinel2 = EntriesDigest sample_sha [''jti-x7'']"
    "sn_generation sample_sentinel2 = 3" "rp_skew sample_params = 60 * second_ns"
    "rp_max_stale sample_params = 20 * second_ns"
    by (simp_all add: sample_params_def sample_rows_def sample_sentinel2_def EntriesDigest_def sample_sha_def numeral_eq_Suc)
  from b c d sample_valid2 [of 3] show ?thesis
    by (simp add: BuildSnapshot_def sample_snapshot2_def)
qed

lemma sample_reads:
  "reads_with sample_sha sample_text sample_rev_config sample_params (sample_server BindOK) 0 = Inr (Some sample_snapshot2)"
proof -
  have clock: "rs_clock (sample_server BindOK) i = sample_t0 + (1 + int i) * second_ns" for i
    by (simp add: sample_server_def)
  have "rp_max_entries sample_params = 10" by (simp add: sample_params_def)
  then have "attempt sample_sha sample_text sample_rev_config sample_params (sample_server BindOK) (sample_t0 + second_ns) 0 0 =
      Inr sample_snapshot2"
    using sample_valid2 [of 2] sample_build2
    by (simp add: attempt_def sample_read_sentinel sample_search rows_request_def sample_rows_read clock del: rows.simps)
  then show ?thesis
    using clock [of 0] by (simp add: reads_with_def reader_Read_def sample_rev_config_def sample_server_def)
qed

definition sample_round :: "bind_outcome \<Rightarrow> round" where
  "sample_round b = \<lparr> rd_read = reads_with sample_sha sample_text sample_rev_config sample_params (sample_server b),
     rd_bind = second_ns, rd_took = 2 * second_ns, rd_late = 0, rd_cancelled = False \<rparr>"

lemma sample_round_run:
  "mr_run (newMachineRevocation (5 * second_ns)) sample_t0 [sample_round BindOK] =
     (\<lparr> mr_snapshot = Some sample_snapshot2, mr_generation = 3, mr_successes = 1, mr_failures = 0,
        mr_refresh = 5 * second_ns, mr_backoff = 0 \<rparr>, [])"
  by (simp add: sample_round_def mr_update_def cred_failure_def newMachineRevocation_def sample_reads Let_def Generation_def
      uint64_inc_def sample_snapshot2_def)

theorem refresher_fails_closed_witness:
  "\<exists>sp s rs. vouched sample_sha sample_params sp s rs \<and> sn_generation s = 3"
proof -
  have ok: "mr_check \<lparr> mr_snapshot = Some sample_snapshot2, mr_generation = 3, mr_successes = 1, mr_failures = 0,
        mr_refresh = 5 * second_ns, mr_backoff = 0 \<rparr> ''app'' sample_t0 ''x8'' (sample_t0 + 5 * second_ns) = DecisionOK"
    by (simp add: mr_check_def snapshot_Check_def sample_snapshot2_def sample_t0_def time_Unix_def unix_epoch_def second_ns_def
        time_sub_def max_duration_def min_duration_def)
  have "\<forall>rd \<in> set [sample_round BindOK]. \<exists>sv. rd_read rd = reads_with sample_sha sample_text sample_rev_config sample_params sv"
    by (auto simp: sample_round_def)
  from refresher_fails_closed [OF sample_round_run this ok] show ?thesis by auto
qed

text \<open>Five rounds whose binds are all refused: the fifth refusal falls outside the window.\<close>

theorem revocation_lockout_bound_witness:
  "length (filter (\<lambda>f. f \<le> 900 * second_ns)
     (snd (mr_run (newMachineRevocation second_ns) 0 (replicate 5 (sample_round BindInvalidCredentials))))) \<le> 4 \<and>
   length (snd (mr_run (newMachineRevocation second_ns) 0 (replicate 5 (sample_round BindInvalidCredentials)))) = 5"
proof -
  let ?run = "mr_run (newMachineRevocation second_ns) 0 (replicate 5 (sample_round BindInvalidCredentials))"
  have ok: "list_all round_ok (replicate 5 (sample_round BindInvalidCredentials))"
    by (simp add: round_ok_def sample_round_def second_ns_def list_all_iff)
  have rd: "reads_with sample_sha sample_text sample_rev_config sample_params (sample_server BindInvalidCredentials) g =
      Inl ErrInvalidCredentials" for g
    by (simp add: reads_with_def reader_Read_def sample_rev_config_def sample_server_def)
  have fs: "snd ?run = [second_ns, 303 * second_ns, 605 * second_ns, 907 * second_ns, 1209 * second_ns]"
    by (simp add: numeral_eq_Suc sample_round_def mr_update_def cred_failure_def newMachineRevocation_def rd Let_def
        revocationBackoff_def nextRevocationBackoff_def minute_ns_def second_ns_def)
  have "mr_run (newMachineRevocation second_ns) 0 (replicate 5 (sample_round BindInvalidCredentials)) = (fst ?run, snd ?run)"
    by simp
  from revocation_lockout_bound [OF this ok, of 0]
  have "length (filter (\<lambda>f. 0 \<le> f \<and> f \<le> 0 + 900 * second_ns) (snd ?run)) \<le> 4" by (simp add: second_ns_def)
  moreover have "filter (\<lambda>f. 0 \<le> f \<and> f \<le> 0 + 900 * second_ns) (snd ?run) = filter (\<lambda>f. f \<le> 900 * second_ns) (snd ?run)"
    unfolding fs by (simp add: second_ns_def)
  ultimately show ?thesis using fs by simp
qed

end
