(* ===== verification/WriteGuard.thy ===== *)
theory WriteGuard
  imports GoStrings
begin

text \<open>
  What a machine client may touch, decided before any connection: \<open>httpapi/machine_write_guard.go\<close>
  (canonical names, subtrees, protected identities, writable groups), \<open>httpapi/revocation_guard.go\<close>
  (the protected revocation subtree), \<open>httpapi/machine_guard.go\<close> (the read boundary),
  \<open>domain/revision.go\<close> and \<open>httpapi/machine_conditional.go\<close> (revisions), \<open>validate/validate.go\<close>.

  A parsed name is the list of its RDNs, each the list of its type and value pairs. \<open>ldap.ParseDN\<close>,
  \<open>DN.EqualFold\<close>, \<open>DN.AncestorOfFold\<close> (package go-ldap) and \<open>strings.ToLower\<close> are the fields of
  \<open>dn_lib\<close>. The values tested for white space are also tested to be printable ASCII, so
  \<open>TrimSpace\<close> and \<open>Fields\<close> on ASCII decide the same values as Go's.
\<close>

type_synonym dn = "((string \<times> string) list) list"

record dn_lib =
  dl_parse :: "string \<Rightarrow> dn option"
  dl_eq :: "dn \<Rightarrow> dn \<Rightarrow> bool"
  dl_anc :: "dn \<Rightarrow> dn \<Rightarrow> bool"
  dl_lower :: "string \<Rightarrow> string"

subsection \<open>Canonical names\<close>

text \<open>The pattern \<open>=\s*#\<close> somewhere in the text: a BER-encoded value.\<close>

fun machineBERValue :: "string \<Rightarrow> bool" where
  "machineBERValue [] \<longleftrightarrow> False"
| "machineBERValue (c # cs) \<longleftrightarrow> c = CHR ''='' \<and> take 1 (dropWhile reSpace cs) = ''#'' \<or> machineBERValue cs"

definition naming_types :: "string list" where "naming_types = [''uid'', ''cn'', ''ou'', ''dc'']"

definition printable :: "string \<Rightarrow> bool" where
  "printable v \<longleftrightarrow> list_all (\<lambda>c. 32 \<le> (of_char c :: nat) \<and> (of_char c :: nat) \<le> 126) v"

definition plain_value :: "string \<Rightarrow> bool" where
  "plain_value v \<longleftrightarrow> v \<noteq> '''' \<and> TrimSpace v = v \<and> \<not> contains_sub v ''  '' \<and> printable v"

text \<open>The types of one RDN, each allowed and none twice.\<close>

fun plain_rdn :: "dn_lib \<Rightarrow> (string \<times> string) list \<Rightarrow> string list \<Rightarrow> bool" where
  "plain_rdn L [] seen \<longleftrightarrow> True"
| "plain_rdn L ((typ, v) # attrs) seen \<longleftrightarrow>
     dl_lower L typ \<in> set naming_types \<and> dl_lower L typ \<notin> set seen \<and> plain_value v \<and>
     plain_rdn L attrs (dl_lower L typ # seen)"

definition machineWriteDN :: "dn_lib \<Rightarrow> string \<Rightarrow> dn option" where
  "machineWriteDN L raw =
     (if machineBERValue raw then None
      else case dl_parse L raw of
        None \<Rightarrow> None
      | Some d \<Rightarrow>
          if d = [] then None
          else if list_all (\<lambda>rdn. length rdn = 1 \<and> plain_rdn L rdn []) d then Some d else None)"

text \<open>\<open>reproducibleWriteDN\<close> of \<open>ldapclient/machine_write_identity.go\<close>: bounded, multi-valued RDNs allowed.\<close>

definition reproducibleWriteDN :: "dn_lib \<Rightarrow> string \<Rightarrow> dn option" where
  "reproducibleWriteDN L raw =
     (if 4096 < length raw \<or> machineBERValue raw then None
      else case dl_parse L raw of
        None \<Rightarrow> None
      | Some d \<Rightarrow> if d = [] then None else if list_all (\<lambda>rdn. plain_rdn L rdn []) d then Some d else None)"

definition dnStrictlyWithinBase :: "dn_lib \<Rightarrow> string \<Rightarrow> string \<Rightarrow> bool" where
  "dnStrictlyWithinBase L base target =
     (case machineWriteDN L base of
        None \<Rightarrow> False
      | Some b \<Rightarrow> (case machineWriteDN L target of None \<Rightarrow> False | Some d \<Rightarrow> dl_anc L b d))"

subsection \<open>The policy of one client\<close>

record write_policy =
  wp_subtrees :: "string list"
  wp_protected :: "string list"
  wp_groups :: "string list"
  wp_cred_subtrees :: "string list"

fun ceiling_loop :: "dn_lib \<Rightarrow> dn \<Rightarrow> bool \<Rightarrow> string list \<Rightarrow> bool \<Rightarrow> bool" where
  "ceiling_loop L target parent [] allowed \<longleftrightarrow> allowed"
| "ceiling_loop L target parent (rawBase # rest) allowed \<longleftrightarrow>
     (case machineWriteDN L rawBase of
        None \<Rightarrow> False
      | Some base \<Rightarrow>
          if dl_eq L base target \<and> \<not> parent then False
          else ceiling_loop L target parent rest (allowed \<or> dl_eq L base target \<or> dl_anc L base target))"

definition withinCeiling :: "dn_lib \<Rightarrow> write_policy \<Rightarrow> string \<Rightarrow> bool \<Rightarrow> bool" where
  "withinCeiling L p raw parent =
     (case machineWriteDN L raw of None \<Rightarrow> False | Some target \<Rightarrow> ceiling_loop L target parent (wp_subtrees p) False)"

definition withinCredSubtree :: "dn_lib \<Rightarrow> write_policy \<Rightarrow> string \<Rightarrow> bool" where
  "withinCredSubtree L p raw =
     withinCeiling L \<lparr> wp_subtrees = wp_cred_subtrees p, wp_protected = [], wp_groups = [], wp_cred_subtrees = [] \<rparr> raw False"

definition isProtected :: "dn_lib \<Rightarrow> write_policy \<Rightarrow> string \<Rightarrow> bool" where
  "isProtected L p raw =
     (case machineWriteDN L raw of
        None \<Rightarrow> True
      | Some target \<Rightarrow>
          list_ex (\<lambda>q. case machineWriteDN L q of None \<Rightarrow> True | Some d \<Rightarrow> dl_eq L d target \<or> dl_anc L d target)
            (wp_protected p))"

fun group_loop :: "dn_lib \<Rightarrow> dn \<Rightarrow> string list \<Rightarrow> bool \<Rightarrow> bool" where
  "group_loop L target [] allowed \<longleftrightarrow> allowed"
| "group_loop L target (g # gs) allowed \<longleftrightarrow>
     (case machineWriteDN L g of None \<Rightarrow> False | Some d \<Rightarrow> group_loop L target gs (allowed \<or> dl_eq L d target))"

definition groupListed :: "dn_lib \<Rightarrow> write_policy \<Rightarrow> string \<Rightarrow> bool" where
  "groupListed L p raw =
     (case machineWriteDN L raw of None \<Rightarrow> False | Some target \<Rightarrow> group_loop L target (wp_groups p) False)"

definition permitsDN :: "dn_lib \<Rightarrow> write_policy \<Rightarrow> string \<Rightarrow> bool \<Rightarrow> bool" where
  "permitsDN L p raw parent \<longleftrightarrow> \<not> isProtected L p raw \<and> withinCeiling L p raw parent"

definition permitsMembership :: "dn_lib \<Rightarrow> write_policy \<Rightarrow> string \<Rightarrow> string \<Rightarrow> bool" where
  "permitsMembership L p grp member \<longleftrightarrow>
     permitsDN L p grp False \<and> permitsDN L p member False \<and> groupListed L p grp"

subsection \<open>The read boundary and the revocation subtree\<close>

definition dnWithinBase :: "dn_lib \<Rightarrow> string \<Rightarrow> string \<Rightarrow> bool" where
  "dnWithinBase L base raw =
     (case dl_parse L base of
        None \<Rightarrow> False
      | Some b \<Rightarrow>
          if b = [] then False
          else (case dl_parse L raw of None \<Rightarrow> False | Some d \<Rightarrow> dl_eq L b d \<or> dl_anc L b d))"

definition aliases :: "(string \<times> string) list" where
  "aliases =
     [(''cn'', ''cn''), (''commonname'', ''cn''), (''2.5.4.3'', ''cn''),
      (''ou'', ''ou''), (''organizationalunitname'', ''ou''), (''2.5.4.11'', ''ou''),
      (''dc'', ''dc''), (''domaincomponent'', ''dc''), (''0.9.2342.19200300.100.1.25'', ''dc''),
      (''uid'', ''uid''), (''userid'', ''uid''), (''0.9.2342.19200300.100.1.1'', ''uid'')]"

definition revocation_attr :: "dn_lib \<Rightarrow> string \<times> string \<Rightarrow> (string \<times> string) option" where
  "revocation_attr L a =
     (case map_of aliases (dl_lower L (fst a)) of
        None \<Rightarrow> None
      | Some name \<Rightarrow>
          if take 1 (snd a) = ''#'' then None
          else if list_ex (\<lambda>c. 127 < (of_char c :: nat)) (snd a) then None
          else Some (name, join_on (CHR '' '') (Fields (snd a))))"

fun all_some :: "('a \<Rightarrow> 'b option) \<Rightarrow> 'a list \<Rightarrow> 'b list option" where
  "all_some f [] = Some []"
| "all_some f (x # xs) =
     (case f x of None \<Rightarrow> None | Some y \<Rightarrow> (case all_some f xs of None \<Rightarrow> None | Some ys \<Rightarrow> Some (y # ys)))"

definition revocationDN :: "dn_lib \<Rightarrow> string \<Rightarrow> dn option" where
  "revocationDN L raw =
     (case dl_parse L raw of None \<Rightarrow> None | Some d \<Rightarrow> all_some (all_some (revocation_attr L)) d)"

definition protectedRevocationDN :: "dn_lib \<Rightarrow> string \<Rightarrow> string \<Rightarrow> bool \<Rightarrow> bool" where
  "protectedRevocationDN L base raw ancestors =
     (if base = '''' then False
      else (case revocationDN L base of
              None \<Rightarrow> True
            | Some b \<Rightarrow>
                (case revocationDN L raw of
                   None \<Rightarrow> True
                 | Some d \<Rightarrow> dl_eq L b d \<or> dl_anc L b d \<or> ancestors \<and> dl_anc L d b)))"

text \<open>\<open>revocationWriteGuard\<close>: may every one of the names be written? (\<open>False\<close> is the 403.)\<close>

definition revocationWriteGuard :: "dn_lib \<Rightarrow> bool \<Rightarrow> string \<Rightarrow> string list \<Rightarrow> bool" where
  "revocationWriteGuard L enabled base raws =
     (\<not> enabled \<or> list_all (\<lambda>r. \<not> protectedRevocationDN L base r True) raws)"

record audit_raw =
  ar_reqDN :: string
  ar_filter :: string

definition dropRevocationEvents :: "dn_lib \<Rightarrow> audit_raw list \<Rightarrow> string \<Rightarrow> audit_raw list" where
  "dropRevocationEvents L events base =
     (if base = '''' then events
      else map (\<lambda>e. e\<lparr> ar_filter := '''' \<rparr>)
             (filter (\<lambda>e. \<not> (ar_reqDN e = '''' \<or> protectedRevocationDN L base (ar_reqDN e) False)) events))"

definition machineDNGuard :: "dn_lib \<Rightarrow> string \<Rightarrow> string \<Rightarrow> bool \<Rightarrow> string \<Rightarrow> bool" where
  "machineDNGuard L baseDN revocationBase machine raw \<longleftrightarrow>
     \<not> machine \<or> (dnWithinBase L baseDN raw \<and> \<not> protectedRevocationDN L revocationBase raw False)"

subsection \<open>Revisions\<close>

text \<open>A pattern of segments of fixed length, each over a set of bytes.\<close>

fun match_segments :: "(nat \<times> string) list \<Rightarrow> string \<Rightarrow> bool" where
  "match_segments [] s \<longleftrightarrow> s = []"
| "match_segments ((n, cs) # segs) s \<longleftrightarrow>
     n \<le> length s \<and> list_all (\<lambda>c. c \<in> set cs) (take n s) \<and> match_segments segs (drop n s)"

definition dec_set :: string where "dec_set = ''0123456789''"
definition hex_upper :: string where "hex_upper = ''0123456789ABCDEF''"
definition hex_lower :: string where "hex_lower = ''0123456789abcdef''"

definition ValidCSN :: "string \<Rightarrow> bool" where
  "ValidCSN = match_segments [(14, dec_set), (1, ''.''), (6, dec_set), (1, ''Z''), (1, ''#''), (6, hex_upper),
     (1, ''#''), (3, hex_upper), (1, ''#''), (6, hex_upper)]"

definition ValidEntryUUID :: "string \<Rightarrow> bool" where
  "ValidEntryUUID = match_segments [(8, hex_lower), (1, ''-''), (4, hex_lower), (1, ''-''), (4, hex_lower), (1, ''-''),
     (4, hex_lower), (1, ''-''), (12, hex_lower)]"

definition ETagFromCSN :: "string \<Rightarrow> string" where
  "ETagFromCSN csn = (if \<not> ValidCSN csn then '''' else CHR 0x22 # csn @ [CHR 0x22])"

definition CSNFromETag :: "string \<Rightarrow> string option" where
  "CSNFromETag tag =
     (if length tag < 2 \<or> tag ! 0 \<noteq> CHR 0x22 \<or> tag ! (length tag - 1) \<noteq> CHR 0x22 then None
      else (let csn = drop 1 (take (length tag - 1) tag) in if \<not> ValidCSN csn then None else Some csn))"

datatype if_match_error = IfMatchRequired | InvalidIfMatch

text \<open>The human parser accepts no header and the wildcard as no condition; the machine one accepts neither.\<close>

definition ifMatchCSN :: "string list \<Rightarrow> if_match_error + string" where
  "ifMatchCSN values =
     (case values of
        [] \<Rightarrow> Inr ''''
      | [v] \<Rightarrow> if v = ''*'' then Inr ''''
               else (case CSNFromETag v of None \<Rightarrow> Inl InvalidIfMatch | Some csn \<Rightarrow> Inr csn)
      | _ \<Rightarrow> Inl InvalidIfMatch)"

definition machineIfMatch :: "string list \<Rightarrow> if_match_error + string" where
  "machineIfMatch values =
     (if values = [] \<or> values = [''''] then Inl IfMatchRequired
      else (case values of
              [v] \<Rightarrow> (case CSNFromETag v of None \<Rightarrow> Inl InvalidIfMatch | Some csn \<Rightarrow> Inr csn)
            | _ \<Rightarrow> Inl InvalidIfMatch))"

subsection \<open>Field validation\<close>

definition alnum :: string where
  "alnum = ''ABCDEFGHIJKLMNOPQRSTUVWXYZabcdefghijklmnopqrstuvwxyz0123456789''"

definition valid_UID :: "string \<Rightarrow> bool" where
  "valid_UID uid \<longleftrightarrow> uid \<noteq> '''' \<and> length uid \<le> 64 \<and> hd uid \<in> set alnum \<and>
     list_all (\<lambda>c. c \<in> set alnum \<or> c \<in> set ''._-'') uid"

definition valid_CN :: "string \<Rightarrow> bool" where
  "valid_CN cn \<longleftrightarrow> cn \<noteq> '''' \<and> length cn \<le> 128 \<and>
     list_all (\<lambda>c. 32 \<le> (of_char c :: nat) \<and> (of_char c :: nat) \<noteq> 127) cn"

definition valid_Password :: "string \<Rightarrow> bool" where
  "valid_Password pw \<longleftrightarrow> pw \<noteq> '''' \<and> length pw \<le> 1024"

definition valid_DN :: "string \<Rightarrow> bool" where
  "valid_DN d \<longleftrightarrow> d \<noteq> '''' \<and> CHR ''='' \<in> set d"

subsection \<open>What the guards decide\<close>

lemma ceiling_loop_exact:
  "ceiling_loop L target parent bases allowed \<longleftrightarrow>
     (\<forall>b \<in> set bases. \<exists>d. machineWriteDN L b = Some d \<and> (dl_eq L d target \<longrightarrow> parent)) \<and>
     (allowed \<or> (\<exists>b \<in> set bases. \<exists>d. machineWriteDN L b = Some d \<and> (dl_eq L d target \<or> dl_anc L d target)))"
proof (induction bases arbitrary: allowed)
  case (Cons b bases)
  then show ?case by (cases "machineWriteDN L b") auto
qed simp

text \<open>The ceiling of a client, whatever the order of its subtrees: the name is canonical, every listed subtree is,
  a subtree's own entry is reached only as a parent, and some subtree holds the name.\<close>

lemma withinCeiling_exact:
  "withinCeiling L p raw parent \<longleftrightarrow>
     (\<exists>t. machineWriteDN L raw = Some t \<and>
        (\<forall>b \<in> set (wp_subtrees p). \<exists>d. machineWriteDN L b = Some d \<and> (dl_eq L d t \<longrightarrow> parent)) \<and>
        (\<exists>b \<in> set (wp_subtrees p). \<exists>d. machineWriteDN L b = Some d \<and> (dl_eq L d t \<or> dl_anc L d t)))"
  by (cases "machineWriteDN L raw") (simp_all add: withinCeiling_def ceiling_loop_exact)

lemma group_loop_exact:
  "group_loop L target gs allowed \<longleftrightarrow> (\<forall>g \<in> set gs. machineWriteDN L g \<noteq> None) \<and>
     (allowed \<or> (\<exists>g \<in> set gs. \<exists>d. machineWriteDN L g = Some d \<and> dl_eq L d target))"
proof (induction gs arbitrary: allowed)
  case (Cons g gs)
  then show ?case by (cases "machineWriteDN L g") auto
qed simp

lemma groupListed_exact:
  "groupListed L p raw \<longleftrightarrow> (\<exists>t. machineWriteDN L raw = Some t \<and>
     (\<forall>g \<in> set (wp_groups p). machineWriteDN L g \<noteq> None) \<and>
     (\<exists>g \<in> set (wp_groups p). \<exists>d. machineWriteDN L g = Some d \<and> dl_eq L d t))"
  by (cases "machineWriteDN L raw") (auto simp: groupListed_def group_loop_exact)

lemma match_segments_length: "match_segments segs s \<Longrightarrow> length s = sum_list (map fst segs)"
proof (induction segs arbitrary: s)
  case (Cons seg segs)
  obtain n cs where "seg = (n, cs)" by fastforce
  with Cons show ?case by fastforce
qed simp

lemma ValidCSN_length: "ValidCSN s \<Longrightarrow> length s = 40"
proof -
  assume "ValidCSN s"
  from match_segments_length [OF this [unfolded ValidCSN_def]] show ?thesis by simp
qed

lemma CSNFromETag_exact: "CSNFromETag tag = Some csn \<longleftrightarrow> ValidCSN csn \<and> tag = ETagFromCSN csn"
proof
  assume a: "CSNFromETag tag = Some csn"
  then have t: "2 \<le> length tag" "tag ! 0 = CHR 0x22" "tag ! (length tag - 1) = CHR 0x22" "csn = drop 1 (take (length tag - 1) tag)"
    "ValidCSN csn"
    by (auto simp: CSNFromETag_def Let_def split: if_splits)
  then obtain ts where ts: "tag = CHR 0x22 # ts" "ts \<noteq> []" by (cases tag) (auto simp: Suc_le_eq)
  then have "last ts = CHR 0x22" "csn = butlast ts" using t(3,4) by (simp_all add: last_conv_nth butlast_conv_take drop_take)
  then have "tag = CHR 0x22 # csn @ [CHR 0x22]" using ts append_butlast_last_id [of ts] by simp
  with t(5) show "ValidCSN csn \<and> tag = ETagFromCSN csn" by (simp add: ETagFromCSN_def)
next
  assume "ValidCSN csn \<and> tag = ETagFromCSN csn"
  then show "CSNFromETag tag = Some csn" by (simp add: CSNFromETag_def ETagFromCSN_def nth_append)
qed

text \<open>C40: the revision a conditional machine write pins. A machine request passes the \<open>If-Match\<close> gate with
  a revision exactly when it has one header whose value is the entity tag of that revision and the
  revision is a well-formed entryCSN; no wildcard, no weak tag, no list of tags and no second header passes, and a tag that is
  issued for a revision is read back as it.\<close>

theorem revision_gate:
  "(machineIfMatch vs = Inr csn \<longleftrightarrow> ValidCSN csn \<and> vs = [ETagFromCSN csn]) \<and>
   (ValidCSN csn \<longrightarrow> ifMatchCSN [ETagFromCSN csn] = Inr csn)"
proof
  have ne: "ETagFromCSN csn \<noteq> ''''" if "ValidCSN csn" using that by (simp add: ETagFromCSN_def)
  show "machineIfMatch vs = Inr csn \<longleftrightarrow> ValidCSN csn \<and> vs = [ETagFromCSN csn]"
  proof
    assume "machineIfMatch vs = Inr csn"
    then obtain v where "vs = [v]" "CSNFromETag v = Some csn"
      by (auto simp: machineIfMatch_def split: list.splits option.splits if_splits)
    then show "ValidCSN csn \<and> vs = [ETagFromCSN csn]" by (simp add: CSNFromETag_exact)
  next
    assume v: "ValidCSN csn \<and> vs = [ETagFromCSN csn]"
    then have "CSNFromETag (ETagFromCSN csn) = Some csn" by (simp add: CSNFromETag_exact)
    with v ne show "machineIfMatch vs = Inr csn" by (simp add: machineIfMatch_def)
  qed
  show "ValidCSN csn \<longrightarrow> ifMatchCSN [ETagFromCSN csn] = Inr csn"
  proof
    assume v: "ValidCSN csn"
    then have "length (ETagFromCSN csn) \<noteq> length ''*''" using ValidCSN_length by (simp add: ETagFromCSN_def)
    then have "ETagFromCSN csn \<noteq> ''*''" by auto
    with v CSNFromETag_exact [of "ETagFromCSN csn" csn] show "ifMatchCSN [ETagFromCSN csn] = Inr csn"
      by (simp add: ifMatchCSN_def)
  qed
qed

theorem revision_gate_witness:
  "ifMatchCSN [ETagFromCSN ''20260102030405.000006Z#000000#001#000000''] = Inr ''20260102030405.000006Z#000000#001#000000''"
  using revision_gate [of "[]" "''20260102030405.000006Z#000000#001#000000''"]
  by (simp add: ValidCSN_def dec_set_def hex_upper_def)

end
