(* ===== verification/ConfigTypes.thy ===== *)
theory ConfigTypes
  imports WriteGuard GoNumbers
begin

text \<open>
  The data of package \<open>config\<close>: \<open>Config\<close> and its parts, the errors of the loaders, and what they call outside.

  An environment is the function \<open>getenv\<close>. A loader answers with an error or a value; \<open>bindE\<close> is Go's
  \<open>if err != nil { return err }\<close>. An error keeps what its text names, never the offending value: the variable and the rule,
  or the list of missing variables. \<open>Panicked\<close> is the dereference of the nil name \<open>ldap.ParseDN\<close> leaves beside an error
  the code discards.

  \<open>cfg_lib\<close>: \<open>cl_dn\<close> and \<open>cl_string\<close> are package go-ldap's operations on names, \<open>cl_fold\<close> is \<open>strings.EqualFold\<close>,
  \<open>cl_url\<close> is \<open>url.Parse\<close> with the parts of its result, \<open>cl_cidr\<close> tells what \<open>net.ParseCIDR\<close> accepts, \<open>cl_hostport\<close> is
  \<open>net.SplitHostPort\<close>, and \<open>cl_frac f unit scale\<close> is the floating-point product with which \<open>time.ParseDuration\<close> rounds the
  fraction of a unit.
\<close>

subsection \<open>Results\<close>

datatype config_error =
  Invalid string
| Barred string string
| Missing string "string list"
| Panicked

type_synonym getenv = "string \<Rightarrow> string"

definition bindE :: "'e + 'a \<Rightarrow> ('a \<Rightarrow> 'e + 'b) \<Rightarrow> 'e + 'b" where
  "bindE m f = (case m of Inl e \<Rightarrow> Inl e | Inr x \<Rightarrow> f x)"

definition need :: "bool \<Rightarrow> 'e \<Rightarrow> 'e + unit" where
  "need b e = (if b then Inr () else Inl e)"

lemma bindE_simps [simp]: "bindE (Inl e) f = Inl e" "bindE (Inr x) f = f x"
  by (simp_all add: bindE_def)

lemma bindE_Inr_iff: "bindE m f = Inr y \<longleftrightarrow> (\<exists>x. m = Inr x \<and> f x = Inr y)"
  by (cases m) auto

lemma need_Inr_iff [simp]: "need b e = Inr u \<longleftrightarrow> b"
  by (simp add: need_def)

lemma need_True [simp]: "need True e = Inr ()" "need False e = Inl e"
  by (simp_all add: need_def)

text \<open>A loop whose body may fail, threading what it has built.\<close>

fun foldE :: "('a \<Rightarrow> 'b \<Rightarrow> 'e + 'b) \<Rightarrow> 'a list \<Rightarrow> 'b \<Rightarrow> 'e + 'b" where
  "foldE f [] acc = Inr acc"
| "foldE f (x # xs) acc = bindE (f x acc) (foldE f xs)"

text \<open>A loop that only checks.\<close>

definition eachE :: "('a \<Rightarrow> 'e + unit) \<Rightarrow> 'a list \<Rightarrow> 'e + unit" where
  "eachE f xs = foldE (\<lambda>x _. f x) xs ()"

lemma eachE_simps [simp]:
  "eachE f [] = Inr ()" "eachE f (x # xs) = bindE (f x) (\<lambda>_. eachE f xs)"
  by (simp_all add: eachE_def)

lemma eachE_Inr_iff: "eachE f xs = Inr u \<longleftrightarrow> (\<forall>x \<in> set xs. f x = Inr ())"
  by (induction xs) (auto simp: bindE_Inr_iff)

lemma foldE_invariant:
  assumes "foldE f xs acc = Inr out" "P acc"
    and "\<And>x a b. x \<in> set xs \<Longrightarrow> P a \<Longrightarrow> f x a = Inr b \<Longrightarrow> P b"
  shows "P out"
  using assms by (induction xs arbitrary: acc) (auto simp: bindE_Inr_iff)

text \<open>What an iteration establishes and every later one keeps holds at the end.\<close>

lemma foldE_each:
  assumes "foldE f xs acc = Inr out" "x \<in> set xs"
    and "\<And>a b. f x a = Inr b \<Longrightarrow> Q b"
    and "\<And>y a b. Q a \<Longrightarrow> f y a = Inr b \<Longrightarrow> Q b"
  shows "Q out"
  using assms(1,2)
proof (induction xs arbitrary: acc)
  case (Cons y ys)
  then obtain b where b: "f y acc = Inr b" "foldE f ys b = Inr out" by (auto simp: bindE_Inr_iff)
  show ?case
  proof (cases "x \<in> set ys")
    case True
    then show ?thesis using Cons.IH b(2) by blast
  next
    case False
    with Cons.prems b have "Q b" using assms(3) by auto
    then show ?thesis using foldE_invariant [OF b(2), of Q] assms(4) by blast
  qed
qed simp

subsection \<open>What the loaders call outside\<close>

record url =
  ur_scheme :: string
  ur_host :: string
  ur_hostname :: string
  ur_port :: string
  ur_user :: bool
  ur_path :: string
  ur_query :: string
  ur_fragment :: string
  ur_opaque :: string

record cfg_lib =
  cl_dn :: dn_lib
  cl_string :: "dn \<Rightarrow> string"
  cl_fold :: "string \<Rightarrow> string \<Rightarrow> bool"
  cl_url :: "string \<Rightarrow> url option"
  cl_cidr :: "string \<Rightarrow> bool"
  cl_hostport :: "string \<Rightarrow> (string \<times> string) option"
  cl_frac :: "nat \<Rightarrow> nat \<Rightarrow> nat \<Rightarrow> nat"

subsection \<open>The configuration of the write scope\<close>

record machine_client =
  ml_id :: string
  ml_scopes :: "string list"

record bind_identity =
  bi_dn :: string
  bi_password :: string

record client_dns =
  cd_id :: string
  cd_dns :: "string list"

record write_limits =
  wl_rps :: int
  wl_burst :: int
  wl_slots :: int

record cred_canary =
  cc_password :: string
  cc_unmarked :: string
  cc_pending :: string

record write_config =
  wc_data :: bind_identity
  wc_lock_enabled :: bool
  wc_lock :: bind_identity
  wc_cred_enabled :: bool
  wc_cred :: bind_identity
  wc_cred_subtrees :: "client_dns list"
  wc_cred_min_length :: int
  wc_cred_policies :: "string list"
  wc_cred_pending_policy :: string
  wc_cred_rate :: int
  wc_reader :: bind_identity
  wc_canaries :: "cred_canary list"
  wc_pending_ttl :: duration
  wc_subtrees :: "client_dns list"
  wc_groups :: "client_dns list"
  wc_privileged :: "string list"
  wc_limits :: write_limits
  wc_audit_plain :: bool
  wc_group_seed :: string

definition no_identity :: bind_identity where
  "no_identity = \<lparr> bi_dn = '''', bi_password = '''' \<rparr>"

definition no_write :: write_config where
  "no_write = \<lparr> wc_data = no_identity, wc_lock_enabled = False, wc_lock = no_identity, wc_cred_enabled = False,
     wc_cred = no_identity, wc_cred_subtrees = [], wc_cred_min_length = 0, wc_cred_policies = [], wc_cred_pending_policy = '''',
     wc_cred_rate = 0, wc_reader = no_identity, wc_canaries = [], wc_pending_ttl = 0, wc_subtrees = [], wc_groups = [],
     wc_privileged = [], wc_limits = \<lparr> wl_rps = 0, wl_burst = 0, wl_slots = 0 \<rparr>, wc_audit_plain = False, wc_group_seed = '''' \<rparr>"

subsection \<open>The configuration of the machine clients\<close>

record rev_config =
  rv_enabled :: bool
  rv_refresh :: duration
  rv_max_stale :: duration
  rv_sentinel :: duration
  rv_base :: string
  rv_entries :: int

definition no_rev :: rev_config where
  "no_rev = \<lparr> rv_enabled = False, rv_refresh = 0, rv_max_stale = 0, rv_sentinel = 0, rv_base = '''', rv_entries = 0 \<rparr>"

record machine_config =
  mc_enabled :: bool
  mc_write_enabled :: bool
  mc_write :: write_config
  mc_rev :: rev_config
  mc_issuer :: string
  mc_insecure :: bool
  mc_audience :: string
  mc_algs :: "string list"
  mc_clients :: "machine_client list"
  mc_max_ttl :: duration
  mc_skew :: duration
  mc_jwks_ttl :: duration
  mc_jwks_stale :: duration
  mc_jwks_min :: duration
  mc_sa_prefix :: string
  mc_bind_dn :: string
  mc_bind_password :: string
  mc_root_dns :: "string list"
  mc_fail_limit :: int
  mc_fail_window :: duration
  mc_rps :: int
  mc_burst :: int
  mc_client_conc :: int
  mc_max_conc :: int
  mc_auth_conc :: int
  mc_timeout :: duration
  mc_ip_max :: int

definition no_machine :: machine_config where
  "no_machine = \<lparr> mc_enabled = False, mc_write_enabled = False, mc_write = no_write, mc_rev = no_rev, mc_issuer = '''',
     mc_insecure = False, mc_audience = '''', mc_algs = [], mc_clients = [], mc_max_ttl = 0, mc_skew = 0, mc_jwks_ttl = 0,
     mc_jwks_stale = 0, mc_jwks_min = 0, mc_sa_prefix = '''', mc_bind_dn = '''', mc_bind_password = '''', mc_root_dns = [],
     mc_fail_limit = 0, mc_fail_window = 0, mc_rps = 0, mc_burst = 0, mc_client_conc = 0, mc_max_conc = 0, mc_auth_conc = 0,
     mc_timeout = 0, mc_ip_max = 0 \<rparr>"

subsection \<open>The configuration of the server\<close>

record sso_config =
  sc_enabled :: bool
  sc_issuer :: string
  sc_client :: string
  sc_secret :: string
  sc_role :: string
  sc_origins :: "string list"
  sc_account :: string
  sc_account_password :: string

record keycloak_config =
  kk_url :: string
  kk_realm :: string
  kk_client :: string
  kk_secret :: string
  kk_observe :: "string list"
  kk_delegate :: "string list"
  kk_groups :: "string list"
  kk_isolated :: bool
  kk_local_http :: bool

record backup_settings =
  bk_operator :: string
  bk_policy :: string
  bk_worker :: string
  bk_python :: string
  bk_admins :: "string list"
  bk_timeout_data :: duration
  bk_timeout_logs :: duration

record openldap_info =
  ol_app :: string
  ol_version :: string
  ol_hash :: string
  ol_policy :: bool
  ol_unique :: string
  ol_modules :: string
  ol_overlays :: string

record failure_budget =
  fb_limit :: int
  fb_window :: duration
  fb_max :: int

record idempotency_settings =
  is_enabled :: bool
  is_ttl :: duration
  is_file :: string
  is_key :: string
  is_previous :: string

record config =
  cf_secret_source :: string
  cf_backup :: backup_settings
  cf_keycloak :: keycloak_config
  cf_profiles :: string
  cf_profile_admins :: "string list"
  cf_openldap :: openldap_info
  cf_listen :: string
  cf_ldap_url :: string
  cf_base :: string
  cf_user_search :: string
  cf_user_filter :: string
  cf_group_search :: string
  cf_user_create :: string
  cf_group_create :: string
  cf_start_tls :: bool
  cf_ca :: string
  cf_insecure :: bool
  cf_secret :: string
  cf_session_ttl :: duration
  cf_cookie_secure :: bool
  cf_sso :: sso_config
  cf_login :: failure_budget
  cf_change :: failure_budget
  cf_idem :: idempotency_settings
  cf_proxies :: string
  cf_metrics :: string
  cf_origins :: "string list"
  cf_machine :: machine_config

end
