(* ===== verification/WriteOps.thy ===== *)
theory WriteOps
  imports ConfigTypes
begin

text \<open>
  The operations a machine client may name: the operation tables of \<open>httpapi/machine_scopes.go\<close>,
  \<open>machine_write_scopes.go\<close> and \<open>machine_write_ops.go\<close>, the closed bodies of
  \<open>machine_write_attributes.go\<close> over the strict body of \<open>httpapi/idempotency.go\<close>, and the names a
  request carries (\<open>parseDNs\<close> and its helpers in \<open>machine_write_pipeline.go\<close>).

  A body is text. \<open>encoding/json\<close> is the argument \<open>json_lib\<close>: \<open>js_parse\<close> reads the first value of a
  text, members in their order and duplicates kept, and returns the rest; \<open>js_fold\<close> is
  \<open>strings.EqualFold\<close>, \<open>js_blank\<close> tells a text of white space only, \<open>js_media\<close> a JSON media type, \<open>js_print\<close> is \<open>json.Marshal\<close>.
\<close>

subsection \<open>Operations\<close>

record machine_op =
  mo_id :: string
  mo_method :: string
  mo_route :: string
  mo_scope :: string

datatype write_shape = ShapeCreate | ShapeTarget | ShapeMembership

record write_op = machine_op +
  wo_compartment :: string
  wo_kind :: string
  wo_class :: string
  wo_member_class :: string
  wo_shape :: write_shape
  wo_in_query :: bool
  wo_if_match :: bool

definition MOp :: "string \<Rightarrow> string \<Rightarrow> string \<Rightarrow> string \<Rightarrow> machine_op" where
  "MOp i m r s = \<lparr> mo_id = i, mo_method = m, mo_route = r, mo_scope = s \<rparr>"

definition WOp :: "string \<Rightarrow> string \<Rightarrow> string \<Rightarrow> string \<Rightarrow> string \<Rightarrow> string \<Rightarrow> string \<Rightarrow> string \<Rightarrow> write_shape \<Rightarrow> bool \<Rightarrow> bool \<Rightarrow> write_op" where
  "WOp i m r s cpt kind cls mcls shape q im =
     \<lparr> mo_id = i, mo_method = m, mo_route = r, mo_scope = s, wo_compartment = cpt, wo_kind = kind,
       wo_class = cls, wo_member_class = mcls, wo_shape = shape, wo_in_query = q, wo_if_match = im \<rparr>"

definition machineOps :: "machine_op list" where
  "machineOps =
     [MOp ''listUsers'' ''GET'' ''/api/users'' ''directory.users.read'',
      MOp ''listGroups'' ''GET'' ''/api/groups'' ''directory.groups.read'',
      MOp ''listTree'' ''GET'' ''/api/tree'' ''directory.tree.read'',
      MOp ''getEntry'' ''GET'' ''/api/entry'' ''directory.entry.read'',
      MOp ''listPasswordPolicies'' ''GET'' ''/api/password-policies'' ''directory.policies.read'',
      MOp ''getMonitor'' ''GET'' ''/api/monitor'' ''server.monitor.read'',
      MOp ''listAuditActions'' ''GET'' ''/api/audit/actions'' ''audit.read'',
      MOp ''getServerSettings'' ''GET'' ''/api/server-settings'' ''server.settings.read'']"

definition machineOpFor :: "string \<Rightarrow> string \<Rightarrow> machine_op option" where
  "machineOpFor method route =
     (if method \<noteq> ''GET'' then None
      else List.find (\<lambda>mop. mo_method mop @ '' '' @ mo_route mop = method @ '' '' @ route) (rev machineOps))"

definition machineCeilings :: "(string \<times> string list) list \<Rightarrow> string \<Rightarrow> string set" where
  "machineCeilings clients client = (case map_of (rev clients) client of None \<Rightarrow> {} | Some scopes \<Rightarrow> set scopes)"

definition scopeAllows :: "string set \<Rightarrow> string list \<Rightarrow> string \<Rightarrow> bool" where
  "scopeAllows ceiling tokenScopes required \<longleftrightarrow> required \<in> ceiling \<and> required \<in> set tokenScopes"

definition machineWriteOps :: "machine_op list" where
  "machineWriteOps =
     [MOp ''createUser'' ''POST'' ''/api/users'' ''directory.users.create'',
      MOp ''patchUser'' ''PATCH'' ''/api/users'' ''directory.users.update'',
      MOp ''deleteUser'' ''DELETE'' ''/api/users'' ''directory.users.delete'',
      MOp ''addGroupMember'' ''POST'' ''/api/groups/members'' ''directory.groups.members.add'',
      MOp ''removeGroupMember'' ''DELETE'' ''/api/groups/members'' ''directory.groups.members.remove'',
      MOp ''createGroup'' ''POST'' ''/api/groups'' ''directory.groups.create'',
      MOp ''patchGroup'' ''PATCH'' ''/api/groups'' ''directory.groups.update'',
      MOp ''deleteGroup'' ''DELETE'' ''/api/groups'' ''directory.groups.delete'',
      MOp ''lockUser'' ''POST'' ''/api/users/lock'' ''directory.users.lock'',
      MOp ''setPassword'' ''POST'' ''/api/users/password'' ''directory.users.password.write'']"

definition machineWriteCatalog :: "write_op list" where
  "machineWriteCatalog =
     [WOp ''createUser'' ''POST'' ''/api/users'' ''directory.users.create'' ''data'' ''user'' '''' '''' ShapeCreate False False,
      WOp ''patchUser'' ''PATCH'' ''/api/users'' ''directory.users.update'' ''data'' ''user'' ''inetOrgPerson'' '''' ShapeTarget False True,
      WOp ''deleteUser'' ''DELETE'' ''/api/users'' ''directory.users.delete'' ''data'' ''user'' ''inetOrgPerson'' '''' ShapeTarget True True,
      WOp ''addGroupMember'' ''POST'' ''/api/groups/members'' ''directory.groups.members.add'' ''data'' ''group'' ''groupOfNames''
        ''inetOrgPerson'' ShapeMembership False True,
      WOp ''removeGroupMember'' ''DELETE'' ''/api/groups/members'' ''directory.groups.members.remove'' ''data'' ''group''
        ''groupOfNames'' ''inetOrgPerson'' ShapeMembership True True,
      WOp ''createGroup'' ''POST'' ''/api/groups'' ''directory.groups.create'' ''data'' ''group'' '''' '''' ShapeCreate False False,
      WOp ''patchGroup'' ''PATCH'' ''/api/groups'' ''directory.groups.update'' ''data'' ''group'' ''groupOfNames'' '''' ShapeTarget False True,
      WOp ''deleteGroup'' ''DELETE'' ''/api/groups'' ''directory.groups.delete'' ''data'' ''group'' ''groupOfNames'' '''' ShapeTarget True True,
      WOp ''lockUser'' ''POST'' ''/api/users/lock'' ''directory.users.lock'' ''lock'' ''user'' ''inetOrgPerson'' '''' ShapeTarget False True,
      WOp ''setPassword'' ''POST'' ''/api/users/password'' ''directory.users.password.write'' ''cred'' ''user'' ''inetOrgPerson'' ''''
        ShapeTarget False False]"

datatype ops_error = NoCatalogEntry string | CatalogDisagrees string | NonWriteScope string string | RegisteredTwice string

definition op_key :: "string \<Rightarrow> string \<Rightarrow> string" where "op_key method route = method @ '' '' @ route"

text \<open>The last catalog entry with the operation's name, as the loop leaves it.\<close>

definition catalog_entry :: "write_op list \<Rightarrow> string \<Rightarrow> write_op option" where
  "catalog_entry catalog i = List.find (\<lambda>w. mo_id w = i) (rev catalog)"

fun resolveMachineWriteOps ::
    "string list \<Rightarrow> machine_op list \<Rightarrow> (string \<rightharpoonup> write_op) \<Rightarrow> ops_error + (string \<rightharpoonup> write_op)" where
  "resolveMachineWriteOps known [] out = Inr out"
| "resolveMachineWriteOps known (op # ops) out =
     (case catalog_entry machineWriteCatalog (mo_id op) of
        None \<Rightarrow> Inl (NoCatalogEntry (mo_id op))
      | Some spec \<Rightarrow>
          if mo_method op = ''GET'' \<or> op \<noteq> machine_op.truncate spec then Inl (CatalogDisagrees (mo_id op))
          else if mo_scope op \<notin> set known then Inl (NonWriteScope (mo_id op) (mo_scope op))
          else if out (op_key (mo_method op) (mo_route op)) \<noteq> None then Inl (RegisteredTwice (mo_id op))
          else resolveMachineWriteOps known ops (out(op_key (mo_method op) (mo_route op) \<mapsto> spec)))"

definition writeBindIdentity :: "write_config \<Rightarrow> string \<Rightarrow> bind_identity option" where
  "writeBindIdentity w compartment =
     (if compartment = ''data'' \<and> bi_dn (wc_data w) \<noteq> '''' then Some (wc_data w)
      else if compartment = ''lock'' \<and> wc_lock_enabled w \<and> bi_dn (wc_lock w) \<noteq> '''' then Some (wc_lock w)
      else if compartment = ''cred'' \<and> wc_cred_enabled w \<and> bi_dn (wc_cred w) \<noteq> '''' then Some (wc_cred w)
      else None)"

text \<open>The principal is the client's name, \<open>None\<close> on a human request; \<open>None\<close> as the result is the 403.\<close>

definition machineIdempotencySubject :: "string option \<Rightarrow> string \<Rightarrow> string \<Rightarrow> string option" where
  "machineIdempotencySubject client issuer humanDN =
     (case client of
        None \<Rightarrow> Some humanDN
      | Some c \<Rightarrow> if c = '''' \<or> issuer = '''' then None
                  else Some (''machine:'' @ itoa (length issuer) @ '':'' @ issuer @ c))"

subsection \<open>Strict bodies\<close>

datatype json = JNull | JBool bool | JNum string | JStr string | JArr "json list" | JObj "(string \<times> json) list"

record json_lib =
  js_parse :: "string \<Rightarrow> (json \<times> string) option"
  js_fold :: "string \<Rightarrow> string \<Rightarrow> bool"
  js_blank :: "string \<Rightarrow> bool"
  js_media :: "string \<Rightarrow> bool"
  js_print :: "json \<Rightarrow> string"

definition maxIdempotencyRequestBody :: nat where "maxIdempotencyRequestBody = 65536"

fun fold_distinct :: "(string \<Rightarrow> string \<Rightarrow> bool) \<Rightarrow> string list \<Rightarrow> string list \<Rightarrow> bool" where
  "fold_distinct eq [] seen \<longleftrightarrow> True"
| "fold_distinct eq (k # ks) seen \<longleftrightarrow> \<not> list_ex (eq k) seen \<and> fold_distinct eq ks (seen @ [k])"

fun walkNoDuplicates :: "(string \<Rightarrow> string \<Rightarrow> bool) \<Rightarrow> json \<Rightarrow> bool" where
  "walkNoDuplicates eq (JArr vs) \<longleftrightarrow> list_all (walkNoDuplicates eq) vs"
| "walkNoDuplicates eq (JObj ms) \<longleftrightarrow> fold_distinct eq (map fst ms) [] \<and> list_all (\<lambda>m. walkNoDuplicates eq (snd m)) ms"
| "walkNoDuplicates eq _ \<longleftrightarrow> True"

text \<open>The value \<open>json.Marshal\<close> prints: members sorted by name, at every depth.\<close>

fun sorted_members :: "json \<Rightarrow> json" where
  "sorted_members (JArr vs) = JArr (map sorted_members vs)"
| "sorted_members (JObj ms) = JObj (sort_key fst (map (\<lambda>m. (fst m, sorted_members (snd m))) ms))"
| "sorted_members j = j"

text \<open>The white space of JSON, after which the decoder reports the end of its input.\<close>

definition jsonSpace :: "char \<Rightarrow> bool" where
  "jsonSpace c \<longleftrightarrow> c \<in> {CHR 0x09, CHR 0x0A, CHR 0x0D, CHR '' ''}"

text \<open>\<open>None\<close> is the error, \<open>Some None\<close> the empty body.\<close>

definition strictBody :: "json_lib \<Rightarrow> string \<Rightarrow> string \<Rightarrow> string \<Rightarrow> json option option" where
  "strictBody J method contentType raw =
     (if method = ''DELETE'' then (if js_blank J raw then Some None else None)
      else if js_blank J raw then Some None
      else if \<not> js_media J contentType then None
      else (case js_parse J raw of
              None \<Rightarrow> None
            | Some (v, rest) \<Rightarrow>
                if walkNoDuplicates (js_fold J) v \<and> list_all jsonSpace rest then Some (Some (sorted_members v)) else None))"

definition allowed_fields :: "string \<Rightarrow> string list option" where
  "allowed_fields operation =
     map_of
      [(''createUser'', [''uid'', ''cn'', ''sn'', ''givenName'', ''mail'', ''department'', ''organization'', ''organizationalUnit'',
                         ''credentialPending'']),
       (''patchUser'', [''dn'', ''cn'', ''sn'', ''givenName'', ''mail'', ''department'', ''organization'', ''organizationalUnit'']),
       (''addGroupMember'', [''groupDn'', ''memberDn'']),
       (''createGroup'', [''cn'', ''description'']),
       (''lockUser'', [''dn'']),
       (''setPassword'', [''dn'', ''password'']),
       (''patchGroup'', [''dn'', ''description''])] operation"

definition clearable :: "string \<Rightarrow> string \<Rightarrow> bool" where
  "clearable operation name \<longleftrightarrow>
     operation = ''patchUser'' \<and> name \<noteq> ''dn'' \<and> name \<noteq> ''cn'' \<and> name \<noteq> ''sn'' \<or>
     operation = ''patchGroup'' \<and> name = ''description''"

definition member_allowed :: "string \<Rightarrow> string list \<Rightarrow> string \<times> json \<Rightarrow> bool" where
  "member_allowed operation allowed m \<longleftrightarrow>
     fst m \<in> set allowed \<and>
     (if snd m = JNull then clearable operation (fst m)
      else if operation = ''createUser'' \<and> fst m = ''credentialPending'' then snd m = JBool True \<or> snd m = JBool False
      else (case snd m of JStr _ \<Rightarrow> True | _ \<Rightarrow> False))"

definition machineWriteBodyAllowed :: "json_lib \<Rightarrow> string \<Rightarrow> string \<Rightarrow> bool" where
  "machineWriteBodyAllowed J operation raw =
     (if maxIdempotencyRequestBody < length raw then False
      else if operation = ''deleteUser'' \<or> operation = ''deleteGroup'' then js_blank J raw
      else (case allowed_fields operation of
              None \<Rightarrow> False
            | Some allowed \<Rightarrow>
                (case strictBody J ''POST'' ''application/json'' raw of
                   Some (Some (JObj ms)) \<Rightarrow> list_all (member_allowed operation allowed) ms
                 | _ \<Rightarrow> False)))"

end
