(* ===== verification/MachineLimits.thy ===== *)
theory MachineLimits
  imports LoginLimiterProps Complex_Main
begin

text \<open>
  The limits of the machine path: \<open>httpapi/machine_limiter.go\<close> (the failure throttle of a source with its
  in-flight reservations, on top of the login limiter's table, and the budget of a client),
  \<open>machine_write_limiter.go\<close> (the write budget and the global write slots) and
  \<open>machine_write_cred_limiter.go\<close> (the password budget and the targets in progress).

  The mutex of each limiter is the atomicity of its operations. A ticket or a release function is the
  value that lets its holder give the reservation back; its \<open>sync.Once\<close> is the caller's bookkeeping.
  The tokens of a bucket are rational numbers: the rounding of \<open>float64\<close> is not modelled.
\<close>

subsection \<open>The failure throttle of a source\<close>

record ip_reservation =
  ir_id :: nat
  ir_expires :: gtime

record ip_throttle =
  it_fails :: login_limiter
  it_max :: int
  it_ttl :: duration
  it_res :: "string \<rightharpoonup> ip_reservation list"
  it_next_id :: nat

record ip_ticket =
  tk_ip :: string
  tk_key :: string
  tk_id :: nat

definition newMachineIPThrottle :: "int \<Rightarrow> duration \<Rightarrow> int \<Rightarrow> duration \<Rightarrow> ip_throttle option" where
  "newMachineIPThrottle limit window maxEntries ttl =
     (if limit \<le> 0 \<or> window \<le> 0 then None
      else
        (let n = (if maxEntries \<le> 0 then defaultLoginLimiterMaxEntries else maxEntries)
         in Some \<lparr> it_fails = newBoundedLoginLimiter limit window n, it_max = n, it_ttl = ttl,
                   it_res = Map.empty, it_next_id = 0 \<rparr>))"

definition reserved_at :: "ip_throttle \<Rightarrow> string \<Rightarrow> ip_reservation list" where
  "reserved_at t key = (case it_res t key of None \<Rightarrow> [] | Some rs \<Rightarrow> rs)"

definition set_reserved :: "ip_throttle \<Rightarrow> string \<Rightarrow> ip_reservation list \<Rightarrow> ip_throttle" where
  "set_reserved t key rs = t\<lparr> it_res := (if rs = [] then (it_res t)(key := None) else (it_res t)(key \<mapsto> rs)) \<rparr>"

definition ip_liveLocked :: "ip_throttle \<Rightarrow> string \<Rightarrow> gtime \<Rightarrow> ip_throttle \<times> int" where
  "ip_liveLocked t key now =
     (if reserved_at t key = [] then (t, 0)
      else (let kept = filter (\<lambda>r. now < ir_expires r) (reserved_at t key)
            in (set_reserved t key kept, int (length kept))))"

definition ip_sweepLocked :: "((string \<rightharpoonup> ip_reservation list) \<Rightarrow> string list) \<Rightarrow> ip_throttle \<Rightarrow> gtime \<Rightarrow> ip_throttle" where
  "ip_sweepLocked ordr t now = fold (\<lambda>key t. fst (ip_liveLocked t key now)) (ordr (it_res t)) t"

datatype ip_admission = Admitted ip_ticket | Refused int

definition ip_admit ::
    "(string \<Rightarrow> string) \<Rightarrow> ((string \<rightharpoonup> limiter_entry) \<Rightarrow> string list) \<Rightarrow> ((string \<rightharpoonup> ip_reservation list) \<Rightarrow> string list) \<Rightarrow>
     ip_throttle \<Rightarrow> gtime \<Rightarrow> string \<Rightarrow> ip_throttle \<times> ip_admission" where
  "ip_admit key_of ord ordr t now ip =
     (let key = key_of ip;
          (t1, live) = ip_liveLocked t key now;
          full = (live = 0 \<and> it_max t1 \<le> int (mlen (it_res t1)));
          t2 = (if full then ip_sweepLocked ordr t1 now else t1)
      in if full \<and> it_max t2 \<le> int (mlen (it_res t2)) then (t2, Refused 1)
         else
           (case ll_admit key_of ord (it_fails t2) now ip live of
              (l, ok, wait) \<Rightarrow>
                (let t3 = t2\<lparr> it_fails := l \<rparr>
                 in if \<not> ok then (t3, Refused (max 1 (ceilSeconds wait)))
                    else
                      (let i = it_next_id t3 + 1
                       in (set_reserved (t3\<lparr> it_next_id := i \<rparr>) key
                             (reserved_at t3 key @ [\<lparr> ir_id = i, ir_expires = now + it_ttl t3 \<rparr>]),
                           Admitted \<lparr> tk_ip = ip, tk_key = key, tk_id = i \<rparr>)))))"

text \<open>\<open>append(rs[:i], rs[i+1:]...)\<close> at the first reservation with the ticket's number.\<close>

fun drop_reservation :: "nat \<Rightarrow> ip_reservation list \<Rightarrow> ip_reservation list" where
  "drop_reservation i [] = []"
| "drop_reservation i (r # rs) = (if ir_id r = i then rs else r # drop_reservation i rs)"

definition ip_release ::
    "(string \<Rightarrow> string) \<Rightarrow> ((string \<rightharpoonup> limiter_entry) \<Rightarrow> string list) \<Rightarrow> ip_throttle \<Rightarrow> gtime \<Rightarrow> ip_ticket \<Rightarrow> bool \<Rightarrow> ip_throttle" where
  "ip_release key_of ord t now k failed =
     (let t1 = set_reserved t (tk_key k) (drop_reservation (tk_id k) (reserved_at t (tk_key k)))
      in if failed then t1\<lparr> it_fails := ll_recordFailure key_of ord (it_fails t1) now (tk_ip k) \<rparr> else t1)"

subsection \<open>The budget of a client\<close>

record client_state =
  cs_tokens :: rat
  cs_last :: gtime
  cs_inflight :: int

record client_budget =
  cb_rps :: int
  cb_burst :: int
  cb_conc :: int
  cb_allowed :: "string list"
  cb_state :: "string \<rightharpoonup> client_state"

definition newClientBudget :: "int \<Rightarrow> int \<Rightarrow> int \<Rightarrow> string list \<Rightarrow> client_budget" where
  "newClientBudget rps burst conc clients =
     \<lparr> cb_rps = rps, cb_burst = burst, cb_conc = conc, cb_allowed = clients, cb_state = Map.empty \<rparr>"

definition cb_off :: "client_budget \<Rightarrow> bool" where
  "cb_off b \<longleftrightarrow> cb_rps b \<le> 0 \<and> cb_conc b \<le> 0"

definition client_state_of :: "client_budget \<Rightarrow> gtime \<Rightarrow> string \<Rightarrow> client_state" where
  "client_state_of b now client =
     (case cb_state b client of
        None \<Rightarrow> \<lparr> cs_tokens = of_int (cb_burst b), cs_last = now, cs_inflight = 0 \<rparr>
      | Some st \<Rightarrow> st)"

definition refill :: "client_budget \<Rightarrow> gtime \<Rightarrow> client_state \<Rightarrow> client_state" where
  "refill b now st =
     (let el = time_sub now (cs_last st)
      in if 0 < el then
           st\<lparr> cs_tokens := min (of_int (cb_burst b)) (cs_tokens st + of_int el / of_int second_ns * of_int (cb_rps b)),
               cs_last := now \<rparr>
         else st)"

definition put_state :: "client_budget \<Rightarrow> string \<Rightarrow> client_state \<Rightarrow> client_budget" where
  "put_state b client st = b\<lparr> cb_state := (cb_state b)(client \<mapsto> st) \<rparr>"

text \<open>The result is the retry delay of a refusal, \<open>None\<close> when the budget was taken.\<close>

definition cb_acquire :: "client_budget \<Rightarrow> gtime \<Rightarrow> string \<Rightarrow> client_budget \<times> int option" where
  "cb_acquire b now client =
     (if cb_off b then (b, None)
      else if client \<notin> set (cb_allowed b) then (b, Some 1)
      else
        (let st = client_state_of b now client
         in if 0 < cb_conc b \<and> cb_conc b \<le> cs_inflight st then (put_state b client st, Some 1)
            else if 0 < cb_rps b then
              (let st1 = refill b now st
               in if cs_tokens st1 < 1 then
                    (put_state b client st1, Some (max 1 (ceiling ((1 - cs_tokens st1) / of_int (cb_rps b)))))
                  else
                    (put_state b client (st1\<lparr> cs_tokens := cs_tokens st1 - 1, cs_inflight := cs_inflight st1 + 1 \<rparr>), None))
            else (put_state b client (st\<lparr> cs_inflight := cs_inflight st + 1 \<rparr>), None)))"

definition cb_release :: "client_budget \<Rightarrow> string \<Rightarrow> client_budget" where
  "cb_release b client =
     (if cb_off b then b
      else (case cb_state b client of
              None \<Rightarrow> b
            | Some st \<Rightarrow> put_state b client (st\<lparr> cs_inflight := cs_inflight st - 1 \<rparr>)))"

subsection \<open>The write limiter and the password limiter\<close>

record write_limiter =
  wl_budget :: client_budget
  wl_global :: nat
  wl_used :: nat

datatype write_refusal = WriteCanceled | WriteRate int | WriteCapacity

definition newMachineWriteLimiter :: "int \<Rightarrow> int \<Rightarrow> int \<Rightarrow> string list \<Rightarrow> write_limiter option" where
  "newMachineWriteLimiter rps burst global clients =
     (if rps < 1 \<or> burst < 1 \<or> global < 1 \<or> 64 < global \<or> clients = [] then None
      else Some \<lparr> wl_budget = newClientBudget rps burst 1 clients, wl_global = nat global, wl_used = 0 \<rparr>)"

definition wl_acquire :: "write_limiter option \<Rightarrow> gtime \<Rightarrow> bool \<Rightarrow> string \<Rightarrow> write_limiter option \<times> write_refusal option" where
  "wl_acquire lo now ctx_done client =
     (if ctx_done then (lo, Some WriteCanceled)
      else (case lo of
              None \<Rightarrow> (None, Some WriteCapacity)
            | Some l \<Rightarrow>
                (case cb_acquire (wl_budget l) now client of
                   (b, Some retry) \<Rightarrow> (Some (l\<lparr> wl_budget := b \<rparr>), Some (WriteRate retry))
                 | (b, None) \<Rightarrow>
                     if wl_used l < wl_global l then (Some (l\<lparr> wl_budget := b, wl_used := wl_used l + 1 \<rparr>), None)
                     else (Some (l\<lparr> wl_budget := cb_release b client \<rparr>), Some WriteCapacity))))"

definition wl_release :: "write_limiter option \<Rightarrow> string \<Rightarrow> write_limiter option" where
  "wl_release lo client =
     map_option (\<lambda>l. l\<lparr> wl_budget := cb_release (wl_budget l) client, wl_used := wl_used l - 1 \<rparr>) lo"

record cred_limiter =
  cl_budget :: client_budget
  cl_active :: "string list"

definition credBudgetKey :: string where "credBudgetKey = ''setPassword''"

definition newCredLimiter :: "int \<Rightarrow> int \<Rightarrow> cred_limiter option" where
  "newCredLimiter rps burst =
     (if rps < 1 \<or> burst < 1 then None
      else Some \<lparr> cl_budget = newClientBudget rps burst 0 [credBudgetKey], cl_active = [] \<rparr>)"

text \<open>\<open>None\<close>: a token was taken; \<open>Some n\<close>: refused, retry after \<open>n\<close> seconds. A missing limiter refuses.\<close>

definition cl_spend :: "cred_limiter option \<Rightarrow> gtime \<Rightarrow> cred_limiter option \<times> int option" where
  "cl_spend lo now =
     (case lo of
        None \<Rightarrow> (None, Some 1)
      | Some l \<Rightarrow>
          (case cb_acquire (cl_budget l) now credBudgetKey of
             (b, Some retry) \<Rightarrow> (Some (l\<lparr> cl_budget := b \<rparr>), Some retry)
           | (b, None) \<Rightarrow> (Some (l\<lparr> cl_budget := cb_release b credBudgetKey \<rparr>), None)))"

definition cl_lock :: "cred_limiter option \<Rightarrow> string \<Rightarrow> cred_limiter option \<times> bool" where
  "cl_lock lo uuid =
     (case lo of
        None \<Rightarrow> (None, False)
      | Some l \<Rightarrow>
          if uuid = '''' \<or> uuid \<in> set (cl_active l) then (lo, False)
          else (Some (l\<lparr> cl_active := uuid # cl_active l \<rparr>), True))"

definition cl_unlock :: "cred_limiter option \<Rightarrow> string \<Rightarrow> cred_limiter option" where
  "cl_unlock lo uuid = map_option (\<lambda>l. l\<lparr> cl_active := removeAll uuid (cl_active l) \<rparr>) lo"


subsection \<open>The throttle cannot be overshot\<close>

definition live_reservations :: "ip_throttle \<Rightarrow> gtime \<Rightarrow> string \<Rightarrow> int" where
  "live_reservations t now key = int (length (filter (\<lambda>r. now < ir_expires r) (reserved_at t key)))"

definition ticket_live :: "ip_throttle \<Rightarrow> gtime \<Rightarrow> ip_ticket \<Rightarrow> bool" where
  "ticket_live t now k \<longleftrightarrow> (\<exists>r \<in> set (reserved_at t (tk_key k)). ir_id r = tk_id k \<and> now < ir_expires r)"

definition throttle_inv :: "gtime \<Rightarrow> ip_throttle \<Rightarrow> bool" where
  "throttle_inv now t \<longleftrightarrow> linv now (it_fails t) \<and> 0 < now \<and>
     (\<forall>k. counted (it_fails t) now k + live_reservations t now k \<le> ll_limit (it_fails t)) \<and>
     (\<forall>k. distinct (map ir_id (reserved_at t k))) \<and>
     (\<forall>k. \<forall>r \<in> set (reserved_at t k). ir_id r \<le> it_next_id t)"

lemma reserved_at_set [simp]:
  "reserved_at (set_reserved t key rs) k = (if k = key then rs else reserved_at t k)"
  by (simp add: reserved_at_def set_reserved_def)

lemma set_reserved_fields [simp]:
  "it_fails (set_reserved t key rs) = it_fails t" "it_next_id (set_reserved t key rs) = it_next_id t"
  "it_ttl (set_reserved t key rs) = it_ttl t" "it_max (set_reserved t key rs) = it_max t"
  by (simp_all add: set_reserved_def)

lemma reserved_at_update [simp]:
  "reserved_at (t\<lparr> it_fails := l \<rparr>) k = reserved_at t k" "reserved_at (t\<lparr> it_next_id := i \<rparr>) k = reserved_at t k"
  by (simp_all add: reserved_at_def)

text \<open>Dropping expired reservations changes nothing that counts.\<close>

definition drops_expired :: "gtime \<Rightarrow> ip_throttle \<Rightarrow> ip_throttle \<Rightarrow> bool" where
  "drops_expired now t t' \<longleftrightarrow> it_fails t' = it_fails t \<and> it_next_id t' = it_next_id t \<and> it_ttl t' = it_ttl t \<and>
     (\<forall>k. reserved_at t' k = reserved_at t k \<or> reserved_at t' k = filter (\<lambda>r. now < ir_expires r) (reserved_at t k))"

lemma drops_expired_live: "drops_expired now t t' \<Longrightarrow> live_reservations t' now k = live_reservations t now k"
  unfolding drops_expired_def live_reservations_def by (elim conjE allE [of _ k] disjE) simp_all

lemma drops_expired_trans: "drops_expired now a b \<Longrightarrow> drops_expired now b c \<Longrightarrow> drops_expired now a c"
proof -
  assume a: "drops_expired now a b" "drops_expired now b c"
  let ?f = "filter (\<lambda>r. now < ir_expires r)"
  have "reserved_at c k = reserved_at a k \<or> reserved_at c k = ?f (reserved_at a k)" for k
  proof -
    from a have "reserved_at b k = reserved_at a k \<or> reserved_at b k = ?f (reserved_at a k)"
      "reserved_at c k = reserved_at b k \<or> reserved_at c k = ?f (reserved_at b k)"
      by (simp_all add: drops_expired_def)
    then show ?thesis by (elim disjE) simp_all
  qed
  with a show ?thesis by (simp add: drops_expired_def)
qed

lemma liveLocked_drops: "drops_expired now t (fst (ip_liveLocked t key now))"
  by (auto simp: drops_expired_def ip_liveLocked_def Let_def)

lemma liveLocked_count: "ip_liveLocked t key now = (t', n) \<Longrightarrow> n = live_reservations t now key"
  by (auto simp: ip_liveLocked_def live_reservations_def Let_def split: if_splits)

lemma sweepLocked_drops: "drops_expired now t (ip_sweepLocked ordr t now)"
proof -
  have "drops_expired now t (fold (\<lambda>key t. fst (ip_liveLocked t key now)) ks t)" for ks
  proof (induction ks arbitrary: t)
    case (Cons k ks)
    then show ?case using drops_expired_trans [OF liveLocked_drops Cons.IH] by simp
  qed (simp add: drops_expired_def)
  then show ?thesis by (simp add: ip_sweepLocked_def)
qed

lemma throttle_inv_drops: "throttle_inv now t \<Longrightarrow> drops_expired now t t' \<Longrightarrow> throttle_inv now t'"
  unfolding throttle_inv_def
  using drops_expired_live [of now t t']
  by (auto simp: drops_expired_def distinct_map_filter) (metis distinct_map_filter, metis filter_is_subset subsetD)

lemma counted_antimono: "now \<le> later \<Longrightarrow> counted l later k \<le> counted l now k"
proof -
  assume le: "now \<le> later"
  have "counted_fails l later k = filter (\<lambda>x. later - ll_window l \<le> x) (counted_fails l now k)"
    using le by (auto simp: counted_fails_def intro!: filter_cong)
  then show ?thesis by (simp add: counted_def)
qed

lemma live_antimono: "now \<le> later \<Longrightarrow> live_reservations t later k \<le> live_reservations t now k"
proof -
  assume le: "now \<le> later"
  have "filter (\<lambda>r. later < ir_expires r) xs = filter (\<lambda>r. later < ir_expires r) (filter (\<lambda>r. now < ir_expires r) xs)" for xs
    using le by (auto intro!: filter_cong)
  then have "filter (\<lambda>r. later < ir_expires r) (reserved_at t k) =
      filter (\<lambda>r. later < ir_expires r) (filter (\<lambda>r. now < ir_expires r) (reserved_at t k))" .
  then show ?thesis unfolding live_reservations_def using length_filter_le by (metis of_nat_le_iff)
qed

lemma throttle_inv_later: "throttle_inv now t \<Longrightarrow> now \<le> later \<Longrightarrow> throttle_inv later t"
  unfolding throttle_inv_def
  using counted_antimono [of now later] live_antimono [of now later] linv_mono
  by (meson add_mono dual_order.trans less_le_trans)

lemma ip_admit_inv:
  assumes inv: "throttle_inv now t" and o: "range_order ord" and a: "ip_admit key_of ord ordr t now ip = (t', res)"
  shows "throttle_inv now t'"
    and "case res of Admitted k \<Rightarrow> counted (it_fails t) now (key_of ip) + live_reservations t now (key_of ip) < ll_limit (it_fails t) \<and> tk_ip k = ip
         | Refused secs \<Rightarrow> 1 \<le> secs"
proof -
  let ?key = "key_of ip"
  obtain t1 n where L: "ip_liveLocked t ?key now = (t1, n)" by fastforce
  have d1: "drops_expired now t t1" using liveLocked_drops [of now t ?key] L by simp
  define t2 where "t2 = (if n = 0 \<and> it_max t1 \<le> int (mlen (it_res t1)) then ip_sweepLocked ordr t1 now else t1)"
  have d2: "drops_expired now t t2"
    using drops_expired_trans [OF d1 sweepLocked_drops] d1 by (simp add: t2_def)
  then have inv2: "throttle_inv now t2" using throttle_inv_drops [OF inv] by blast
  have n: "n = live_reservations t2 now ?key" using liveLocked_count [OF L] drops_expired_live [OF d2] by simp
  obtain l ok wait where A: "ll_admit key_of ord (it_fails t2) now ip n = (l, ok, wait)" by (metis prod_cases3)
  have lin: "linv now (it_fails t2)" "0 \<le> n" using inv2 n by (simp_all add: throttle_inv_def live_reservations_def)
  note S = admit_step [OF lin(1) o lin(2) A]
  have lim: "ll_limit l = ll_limit (it_fails t2)" using S(2) by (simp add: window_eq_def same_conf_def)
  have cnt: "counted l now k = counted (it_fails t2) now k" for k using counted_window_eq [OF S(2)] .
  have t3: "throttle_inv now (t2\<lparr> it_fails := l \<rparr>)"
    using inv2 S(1) by (simp add: throttle_inv_def lim cnt live_reservations_def)
  let ?t3 = "set_reserved (t2\<lparr> it_fails := l, it_next_id := it_next_id t2 + 1 \<rparr>) ?key
         (reserved_at t2 ?key @ [\<lparr> ir_id = it_next_id t2 + 1, ir_expires = now + it_ttl t2 \<rparr>])"
  have eq: "ip_admit key_of ord ordr t now ip =
    (if (n = 0 \<and> it_max t1 \<le> int (mlen (it_res t1))) \<and> it_max t2 \<le> int (mlen (it_res t2)) then (t2, Refused 1)
     else if \<not> ok then (t2\<lparr> it_fails := l \<rparr>, Refused (max 1 (ceilSeconds wait)))
     else (?t3, Admitted \<lparr> tk_ip = ip, tk_key = ?key, tk_id = it_next_id t2 + 1 \<rparr>))"
    unfolding ip_admit_def Let_def L prod.case t2_def [symmetric] A by simp
  from a consider "t' = t2" | "\<not> ok" "t' = t2\<lparr> it_fails := l \<rparr>" | "ok" "t' = ?t3"
    unfolding eq by (auto split: if_splits)
  then show "throttle_inv now t'"
  proof cases
    case 3
    have room: "counted (it_fails t2) now ?key + n < ll_limit (it_fails t2)" using S(3) 3(1) by simp
    have fresh: "it_next_id t2 + 1 \<notin> ir_id ` set (reserved_at t2 k)" for k
      using inv2 by (force simp: throttle_inv_def)
    have lv: "live_reservations t' now k = live_reservations t2 now k + (if k = ?key \<and> 0 < it_ttl t2 then 1 else 0)" for k
      unfolding 3(2) by (simp add: live_reservations_def)
    have "counted l now k + live_reservations t' now k \<le> ll_limit l" for k
    proof -
      have "counted (it_fails t2) now k + live_reservations t2 now k \<le> ll_limit (it_fails t2)" using inv2 by (simp add: throttle_inv_def)
      then show ?thesis using room n lv [of k] lim cnt [of k] by (auto split: if_splits)
    qed
    moreover have "distinct (map ir_id (reserved_at t' k))" for k
      using inv2 fresh [of ?key] unfolding 3(2) by (simp add: throttle_inv_def)
    moreover have "\<forall>r \<in> set (reserved_at t' k). ir_id r \<le> it_next_id t2 + 1" for k
      using inv2 unfolding 3(2) by (auto simp: throttle_inv_def le_SucI)
    moreover have "it_fails t' = l" "it_next_id t' = it_next_id t2 + 1" unfolding 3(2) by simp_all
    ultimately show ?thesis using S(1) inv2 by (simp add: throttle_inv_def)
  qed (use inv2 t3 in simp_all)
  have "counted (it_fails t2) now ?key = counted (it_fails t) now ?key" "live_reservations t2 now ?key = live_reservations t now ?key"
    "ll_limit (it_fails t2) = ll_limit (it_fails t)"
    using d2 drops_expired_live [OF d2] by (simp_all add: drops_expired_def)
  then show "case res of Admitted k \<Rightarrow> counted (it_fails t) now ?key + live_reservations t now ?key < ll_limit (it_fails t) \<and> tk_ip k = ip
      | Refused secs \<Rightarrow> 1 \<le> secs"
    using a S(3) n unfolding eq by (auto split: if_splits)
qed

lemma drop_reservation_facts:
  "distinct (map ir_id rs) \<Longrightarrow> distinct (map ir_id (drop_reservation i rs))"
  "set (drop_reservation i rs) \<subseteq> set rs"
  "length (filter P (drop_reservation i rs)) \<le> length (filter P rs)"
  "distinct (map ir_id rs) \<Longrightarrow> r \<in> set rs \<Longrightarrow> ir_id r = i \<Longrightarrow> P r \<Longrightarrow>
     length (filter P rs) = Suc (length (filter P (drop_reservation i rs)))"
proof -
  show sub: "set (drop_reservation i rs) \<subseteq> set rs" for rs by (induction rs) auto
  show "distinct (map ir_id rs) \<Longrightarrow> distinct (map ir_id (drop_reservation i rs))"
  proof (induction rs)
    case (Cons a rs)
    then show ?case using sub [of rs] by auto
  qed simp
  show "length (filter P (drop_reservation i rs)) \<le> length (filter P rs)" by (induction rs) auto
  show "distinct (map ir_id rs) \<Longrightarrow> r \<in> set rs \<Longrightarrow> ir_id r = i \<Longrightarrow> P r \<Longrightarrow>
     length (filter P rs) = Suc (length (filter P (drop_reservation i rs)))"
    by (induction rs) auto
qed

lemma release_inv:
  assumes inv: "throttle_inv now t" and o: "range_order ord" and key: "tk_key k = key_of (tk_ip k)"
    and lv: "failed \<longrightarrow> ticket_live t now k"
  shows "throttle_inv now (ip_release key_of ord t now k failed)"
proof -
  define t1 where "t1 = set_reserved t (tk_key k) (drop_reservation (tk_id k) (reserved_at t (tk_key k)))"
  have dis: "distinct (map ir_id (reserved_at t j))" for j using inv by (simp add: throttle_inv_def)
  have live_le: "live_reservations t1 now j \<le> live_reservations t now j" for j
    using drop_reservation_facts(3) by (simp add: t1_def live_reservations_def)
  have bnd: "\<forall>j. \<forall>r \<in> set (reserved_at t1 j). ir_id r \<le> it_next_id t"
  proof (intro allI ballI)
    fix j r assume "r \<in> set (reserved_at t1 j)"
    then have "r \<in> set (reserved_at t j)"
      using drop_reservation_facts(2) [of "tk_id k" "reserved_at t (tk_key k)"] by (auto simp: t1_def split: if_splits)
    with inv show "ir_id r \<le> it_next_id t" by (simp add: throttle_inv_def)
  qed
  have dis1: "\<forall>j. distinct (map ir_id (reserved_at t1 j))"
    using dis drop_reservation_facts(1) by (simp add: t1_def)
  have same: "it_fails t1 = it_fails t" "it_next_id t1 = it_next_id t" by (simp_all add: t1_def)
  have i1: "throttle_inv now t1"
    using inv live_le bnd dis1 unfolding throttle_inv_def same by (meson add_left_mono order_trans)
  show ?thesis
  proof (cases failed)
    case False
    then show ?thesis using i1 by (simp add: ip_release_def t1_def [symmetric])
  next
    case True
    with lv obtain r where r: "r \<in> set (reserved_at t (tk_key k))" "ir_id r = tk_id k" "now < ir_expires r"
      by (auto simp: ticket_live_def)
    have dec: "live_reservations t now (tk_key k) = live_reservations t1 now (tk_key k) + 1"
      using drop_reservation_facts(4) [OF dis r(1,2), of "\<lambda>r. now < ir_expires r"] r(3) by (simp add: live_reservations_def t1_def)
    define l where "l = ll_recordFailure key_of ord (it_fails t) now (tk_ip k)"
    have li: "linv now (it_fails t)" "0 < now" using inv by (simp_all add: throttle_inv_def)
    note S = record_step [OF li(1) o order_refl li(2) l_def]
    have lim: "ll_limit l = ll_limit (it_fails t)" using S(2) by (simp add: same_conf_def)
    have c: "counted l now j \<le> counted (it_fails t) now j + (if j = tk_key k then 1 else 0)" for j
    proof (cases "j = tk_key k")
      case True
      then show ?thesis using S(3) by (simp add: counted_def key)
    next
      case False
      with S(4) [of j] key have "counted_fails l now j = counted_fails (it_fails t) now j \<or> ll_failures l j = None" by auto
      then show ?thesis using False by (auto simp: counted_def counted_fails_def fails_of_def)
    qed
    have "counted l now j + live_reservations t1 now j \<le> ll_limit l" for j
    proof -
      have "counted (it_fails t) now j + live_reservations t now j \<le> ll_limit (it_fails t)" using inv by (simp add: throttle_inv_def)
      then show ?thesis using c [of j] dec live_le [of j] lim by (cases "j = tk_key k") auto
    qed
    then have "throttle_inv now (t1\<lparr> it_fails := l \<rparr>)"
      using S(1) li(2) bnd dis1 by (simp add: throttle_inv_def live_reservations_def same)
    then show ?thesis using True by (simp add: ip_release_def t1_def [symmetric] l_def same)
  qed
qed


text \<open>The throttles a process can reach, at an instant: requests come in and end in any order; a request
  that ends as a failure still holds its reservation (the reservation's life exceeds the longest request).\<close>

inductive ip_reachable ::
    "(string \<Rightarrow> string) \<Rightarrow> ((string \<rightharpoonup> limiter_entry) \<Rightarrow> string list) \<Rightarrow> ((string \<rightharpoonup> ip_reservation list) \<Rightarrow> string list) \<Rightarrow>
     gtime \<Rightarrow> ip_throttle \<Rightarrow> bool" for key_of ord ordr where
  ip_start: "newMachineIPThrottle limit window maxEntries ttl = Some t \<Longrightarrow> 0 < now \<Longrightarrow> ip_reachable key_of ord ordr now t"
| ip_time: "ip_reachable key_of ord ordr now t \<Longrightarrow> now \<le> later \<Longrightarrow> ip_reachable key_of ord ordr later t"
| ip_request: "ip_reachable key_of ord ordr now t \<Longrightarrow> ip_admit key_of ord ordr t now ip = (t', res) \<Longrightarrow>
    ip_reachable key_of ord ordr now t'"
| ip_end: "ip_reachable key_of ord ordr now t \<Longrightarrow> tk_key k = key_of (tk_ip k) \<Longrightarrow>
    (failed \<longrightarrow> ticket_live t now k) \<Longrightarrow> ip_reachable key_of ord ordr now (ip_release key_of ord t now k failed)"

lemma throttle_inv_new:
  assumes "newMachineIPThrottle limit window maxEntries ttl = Some t" "0 < now"
  shows "throttle_inv now t"
proof -
  obtain n where t: "0 < limit" "0 < window" "it_fails t = newBoundedLoginLimiter limit window n" "it_res t = Map.empty"
    using assms(1) by (auto simp: newMachineIPThrottle_def Let_def split: if_splits)
  have "counted_fails (it_fails t) now k = []" for k
    by (simp add: t counted_fails_def fails_of_def newBoundedLoginLimiter_def)
  then show ?thesis
    using assms(2) t linv_new [OF t(1,2), of now n]
    by (simp add: throttle_inv_def counted_def live_reservations_def reserved_at_def)
       (simp add: newBoundedLoginLimiter_def)
qed

lemma ip_reachable_inv: "ip_reachable key_of ord ordr now t \<Longrightarrow> range_order ord \<Longrightarrow> throttle_inv now t"
  by (induction rule: ip_reachable.induct)
     (auto intro: throttle_inv_new throttle_inv_later ip_admit_inv(1) release_inv)

text \<open>The failure throttle cannot be overshot: at every instant, for every source, the failures inside
  the window and the requests still in flight together never exceed the limit, however many requests are
  admitted concurrently and in whatever order they end; and a request is admitted only if after it the
  sum still fits.\<close>

theorem ip_throttle_never_overshoots:
  assumes "ip_reachable key_of ord ordr now t" "range_order ord"
  shows "counted (it_fails t) now source + live_reservations t now source \<le> ll_limit (it_fails t) \<and>
    (case ip_admit key_of ord ordr t now ip of
       (t', Admitted k) \<Rightarrow> counted (it_fails t) now (key_of ip) + live_reservations t now (key_of ip) < ll_limit (it_fails t) \<and>
         tk_ip k = ip \<and> counted (it_fails t') now source + live_reservations t' now source \<le> ll_limit (it_fails t')
     | (t', Refused secs) \<Rightarrow> 1 \<le> secs)"
proof -
  have inv: "throttle_inv now t" using ip_reachable_inv assms by blast
  obtain t' res where a: "ip_admit key_of ord ordr t now ip = (t', res)" by fastforce
  have "throttle_inv now t'" using ip_admit_inv(1) [OF inv assms(2) a] .
  then show ?thesis
    using inv ip_admit_inv(2) [OF inv assms(2) a] by (simp add: throttle_inv_def a split: ip_admission.splits)
qed

definition sample_throttle :: ip_throttle where
  "sample_throttle = the (newMachineIPThrottle 2 (60 * second_ns) 10 (30 * second_ns))"

theorem ip_throttle_never_overshoots_witness:
  "counted (it_fails sample_throttle) 5 ''a'' + live_reservations sample_throttle 5 ''a'' \<le> 2"
proof -
  have s: "newMachineIPThrottle 2 (60 * second_ns) 10 (30 * second_ns) = Some sample_throttle"
    by (simp add: sample_throttle_def newMachineIPThrottle_def second_ns_def)
  have r: "ip_reachable (\<lambda>ip. ip) sorted_range sorted_range 5 sample_throttle"
    by (rule ip_start [OF s]) simp
  have "ll_limit (it_fails sample_throttle) = 2"
    by (simp add: sample_throttle_def newMachineIPThrottle_def second_ns_def newBoundedLoginLimiter_def)
  then show ?thesis using ip_throttle_never_overshoots [OF r range_order_sorted, of "''a''" "''a''"] by simp
qed


subsection \<open>The rate of a client\<close>














end
