(* ===== verification/WritePipeline.thy ===== *)
theory WritePipeline
  imports WriteOps MachineLimits IdempotencyStore
begin

text \<open>
  The machine write pipeline, \<open>httpapi/machine_write_pipeline.go\<close>, with the idempotency middleware it runs
  its last steps in (\<open>httpapi/idempotency.go\<close>) and the executor (\<open>httpapi/machine_exec.go\<close>).

  A request is a \<open>wreq\<close>: what the source keeps of it, the resources it holds and the stage it has reached.
  \<open>mw_next\<close> is one step of one request on the state all requests share (the write limiter, the password
  limiter, the executor's slots, the idempotency store); a step ends where the source calls outside the
  process or takes or returns a shared resource, so that the steps of concurrent requests interleave as
  they do in the server. What the outside answers in a step is in \<open>answers\<close>. \<open>w_trace\<close> records, oldest
  first, what the request did outside and to the shared state; no step reads it.
\<close>

subsection \<open>Requests, answers and shared state\<close>

record write_dn =
  wd_raw :: string
  wd_parent :: bool
  wd_class :: string

datatype domain_error =
  DNotFound | DAlreadyExists | DConflict | DInvalidCredentials | DPermissionDenied | DInvalidInput
| DCurrentPasswordRejected | DRevisionConflict | DDeadline | DCanceled | DOther

record machine_request =
  rq_client :: string
  rq_scopes :: "string list"
  rq_op :: write_op
  rq_body :: "string option"
  rq_query :: "(string \<times> string list) list"
  rq_if_match :: "string list"
  rq_idem_keys :: "string list"
  rq_content_type :: string
  rq_target :: string

record handler_result =
  hr_status :: int
  hr_code :: string
  hr_body :: string
  hr_location :: string
  hr_unknown :: bool
  hr_definitive :: bool
  hr_panic :: bool

record answers =
  an_now :: gtime
  an_ctx_done :: bool
  an_ident :: "domain_error option"
  an_pending :: "domain_error + string"
  an_premise :: string
  an_bind :: bool
  an_handler :: handler_result
  an_password :: "domain_error option"
  an_clear :: bool

record pipe_config =
  pc_dn :: dn_lib
  pc_json :: json_lib
  pc_policies :: "string \<rightharpoonup> write_policy"
  pc_ceilings :: "string \<Rightarrow> string set"
  pc_write :: write_config
  pc_user_base :: string
  pc_group_base :: string
  pc_rev_enabled :: bool
  pc_rev_base :: string
  pc_issuer :: string
  pc_idem :: bool
  pc_exec_slots :: nat
  pc_sha_hex :: "string \<Rightarrow> string"
  pc_hmac :: "string \<Rightarrow> string \<Rightarrow> string"
  pc_order :: "(string \<rightharpoonup> entry) \<Rightarrow> string list"
  pc_unknown_body :: string

record shared =
  sh_limiter :: "write_limiter option"
  sh_cred :: "cred_limiter option"
  sh_slots :: nat
  sh_store :: store

datatype stage =
  AtScope | AtAdmit | AtParse | AtDenylist | AtIfMatch | AtIdempotency
| AtExecute | AtCheck nat | AtPrivileged | AtPending | AtLock | AtPrivileged2 | AtPending2 | AtPremise
| AtSlot | AtBind | AtHandler | AtPassword | AtCleanup nat
| AtClose | AtFreeSlot | AtUnlock | AtRecord | AtRelease | AtDone

datatype mw_event =
  EvAdmit | EvBegin | EvReplay | EvCheck string string | EvPrivileged | EvPending string | EvLock string
| EvPremise | EvSlot | EvBind string | EvHandler | EvPassword | EvClear | EvClose | EvFreeSlot | EvUnlock string
| EvRecord | EvRelease

record reply =
  rp_status :: int
  rp_code :: string
  rp_body :: string
  rp_location :: string
  rp_replayed :: bool

record wreq =
  w_req :: machine_request
  w_stage :: stage
  w_pol :: write_policy
  w_dns :: "write_dn list"
  w_csn :: string
  w_pending :: bool
  w_password :: string
  w_subject :: string
  w_reason :: string
  w_outcome :: string
  w_cleanup :: string
  w_bind_dn :: string
  w_admitted :: bool
  w_slot :: bool
  w_bound :: "bind_identity option"
  w_seen :: string
  w_uuid :: "string option"
  w_handle :: "handle option"
  w_result :: handler_result
  w_reply :: "reply option"
  w_trace :: "mw_event list"

definition no_policy :: write_policy where
  "no_policy = \<lparr> wp_subtrees = [], wp_protected = [], wp_groups = [], wp_cred_subtrees = [] \<rparr>"

definition no_handler_result :: handler_result where
  "no_handler_result = \<lparr> hr_status = 0, hr_code = '''', hr_body = '''', hr_location = '''', hr_unknown = False,
     hr_definitive = False, hr_panic = False \<rparr>"

definition new_wreq :: "machine_request \<Rightarrow> wreq" where
  "new_wreq q = \<lparr> w_req = q, w_stage = AtScope, w_pol = no_policy, w_dns = [], w_csn = '''', w_pending = False, w_password = '''',
     w_subject = '''', w_reason = '''', w_outcome = '''', w_cleanup = '''', w_bind_dn = '''', w_admitted = False, w_slot = False,
     w_bound = None, w_seen = '''', w_uuid = None, w_handle = None, w_result = no_handler_result, w_reply = None, w_trace = [] \<rparr>"

definition set_reason :: "string \<Rightarrow> wreq \<Rightarrow> wreq" where
  "set_reason x r = (if w_reason r = '''' then r\<lparr> w_reason := x \<rparr> else r)"

definition did :: "mw_event \<Rightarrow> wreq \<Rightarrow> wreq" where
  "did e r = r\<lparr> w_trace := w_trace r @ [e] \<rparr>"

definition goto :: "stage \<Rightarrow> wreq \<Rightarrow> wreq" where
  "goto st r = r\<lparr> w_stage := st \<rparr>"

text \<open>A refusal: the status and code, the audit reason and outcome. Before the idempotency record it is the
  reply; inside it, the handler's result, which the middleware judges.\<close>

definition reply_error :: "int \<Rightarrow> string \<Rightarrow> reply" where
  "reply_error status code = \<lparr> rp_status = status, rp_code = code, rp_body = '''', rp_location = '''', rp_replayed = False \<rparr>"

definition refuse :: "int \<Rightarrow> string \<Rightarrow> string \<Rightarrow> string \<Rightarrow> wreq \<Rightarrow> wreq" where
  "refuse status code reason outcome r =
     goto AtRelease ((set_reason reason r)\<lparr> w_outcome := outcome, w_reply := Some (reply_error status code) \<rparr>)"

definition deny :: "string \<Rightarrow> wreq \<Rightarrow> wreq" where
  "deny outcome = refuse 403 ''scope_denied'' ''scope'' outcome"

definition reject :: "int \<Rightarrow> string \<Rightarrow> wreq \<Rightarrow> wreq" where
  "reject status code = refuse status code ''request_rejected'' ''rejected''"

subsection \<open>Steps 2 to 6: authorization\<close>

definition step2Scope :: "pipe_config \<Rightarrow> wreq \<Rightarrow> wreq" where
  "step2Scope cfg r =
     (let q = w_req r
      in if pc_policies cfg (rq_client q) = None \<or>
            \<not> scopeAllows (pc_ceilings cfg (rq_client q)) (rq_scopes q) (mo_scope (rq_op q))
         then deny ''denied_guard'' r
         else goto AtAdmit r)"

definition step3Admit :: "answers \<Rightarrow> shared \<Rightarrow> wreq \<Rightarrow> shared \<times> wreq" where
  "step3Admit a sh r =
     (case wl_acquire (sh_limiter sh) (an_now a) (an_ctx_done a) (rq_client (w_req r)) of
        (l, None) \<Rightarrow> (sh\<lparr> sh_limiter := l \<rparr>, goto AtParse (did EvAdmit (r\<lparr> w_admitted := True \<rparr>)))
      | (l, Some (WriteRate retry)) \<Rightarrow>
          (sh\<lparr> sh_limiter := l \<rparr>,
           refuse 429 ''machine_rate_limited'' ''rate'' ''rejected'' (r\<lparr> w_reason := ''rate'' \<rparr>))
      | (l, Some WriteCanceled) \<Rightarrow> (sh\<lparr> sh_limiter := l \<rparr>, refuse 503 ''unavailable'' ''canceled'' ''rejected'' r)
      | (l, Some WriteCapacity) \<Rightarrow> (sh\<lparr> sh_limiter := l \<rparr>, refuse 503 ''unavailable'' ''capacity'' ''rejected'' r))"

definition machineCredMinLengthFloor :: int where "machineCredMinLengthFloor = 12"

definition parsePassword :: "pipe_config \<Rightarrow> string option \<Rightarrow> string option" where
  "parsePassword cfg field =
     (case field of
        None \<Rightarrow> None
      | Some pw \<Rightarrow>
          if \<not> valid_Password pw then None
          else if int (length pw) < max (wc_cred_min_length (pc_write cfg)) machineCredMinLengthFloor then None
          else Some pw)"

definition scopePasswordWrite :: string where "scopePasswordWrite = ''directory.users.password.write''"

text \<open>\<open>None\<close> is the error.\<close>

definition parsePending :: "pipe_config \<Rightarrow> string \<Rightarrow> (string \<times> json) list \<Rightarrow> bool option" where
  "parsePending cfg client ms =
     (case map_of ms ''credentialPending'' of
        None \<Rightarrow> Some False
      | Some v \<Rightarrow>
          if \<not> wc_cred_enabled (pc_write cfg) \<or> scopePasswordWrite \<notin> pc_ceilings cfg client then None
          else Some (v = JBool True))"

definition groupCreateDNs :: "dn_lib \<Rightarrow> string \<Rightarrow> string \<Rightarrow> write_dn list option" where
  "groupCreateDNs L cn base =
     (if \<not> valid_CN cn then None
      else
        (let raw = ''cn='' @ cn @ '','' @ base
         in case dl_parse L raw of
              Some ([(t, v)] # rdn # rdns) \<Rightarrow>
                if v = cn then Some [\<lparr> wd_raw = raw, wd_parent = False, wd_class = '''' \<rparr>,
                                     \<lparr> wd_raw = base, wd_parent = True, wd_class = '''' \<rparr>]
                else None
            | _ \<Rightarrow> None))"

definition bodyString :: "(string \<times> json) list \<Rightarrow> string \<Rightarrow> string option" where
  "bodyString ms name =
     (case map_of ms name of Some (JStr s) \<Rightarrow> if s = '''' then None else Some s | _ \<Rightarrow> None)"

definition query_names :: "write_op \<Rightarrow> string list" where
  "query_names op =
     (case wo_shape op of
        ShapeCreate \<Rightarrow> if wo_kind op = ''group'' then [''cn''] else [''uid'']
      | ShapeTarget \<Rightarrow> [''dn'']
      | ShapeMembership \<Rightarrow> [''groupDn'', ''memberDn''])"

text \<open>The parameters: from the query, or from the closed body.\<close>

definition request_fields :: "json_lib \<Rightarrow> machine_request \<Rightarrow> string \<Rightarrow> (string \<times> json) list option" where
  "request_fields J q raw =
     (let op = rq_op q
      in if wo_in_query op then
           (if \<not> js_blank J raw then None
            else if list_ex (\<lambda>kv. fst kv \<notin> set (query_names op) \<or> length (snd kv) \<noteq> 1) (rq_query q) then None
            else Some (map (\<lambda>kv. (fst kv, JStr (concat (snd kv)))) (rq_query q)))
         else if rq_query q \<noteq> [] then None
         else if \<not> machineWriteBodyAllowed J (mo_id op) raw then None
         else (case js_parse J raw of Some (JObj ms, rest) \<Rightarrow> Some ms | _ \<Rightarrow> None))"

definition parseDNs :: "pipe_config \<Rightarrow> machine_request \<Rightarrow> string \<Rightarrow> (write_dn list \<times> bool \<times> string) option" where
  "parseDNs cfg q raw =
     (let op = rq_op q
      in case request_fields (pc_json cfg) q raw of
           None \<Rightarrow> None
         | Some ms \<Rightarrow>
             (case wo_shape op of
                ShapeCreate \<Rightarrow>
                  if wo_kind op = ''group'' then
                    (case bodyString ms ''cn'' of
                       None \<Rightarrow> None
                     | Some cn \<Rightarrow> map_option (\<lambda>dns. (dns, False, '''')) (groupCreateDNs (pc_dn cfg) cn (pc_group_base cfg)))
                  else
                    (case bodyString ms ''uid'' of
                       None \<Rightarrow> None
                     | Some uid \<Rightarrow>
                         if \<not> valid_UID uid then None
                         else (case parsePending cfg (rq_client q) ms of
                                 None \<Rightarrow> None
                               | Some pending \<Rightarrow>
                                   Some ([\<lparr> wd_raw = ''uid='' @ uid @ '','' @ pc_user_base cfg, wd_parent = False, wd_class = '''' \<rparr>,
                                          \<lparr> wd_raw = pc_user_base cfg, wd_parent = True, wd_class = '''' \<rparr>], pending, '''')))
              | ShapeTarget \<Rightarrow>
                  (case bodyString ms ''dn'' of
                     None \<Rightarrow> None
                   | Some d \<Rightarrow>
                       (let dns = [\<lparr> wd_raw = d, wd_parent = False, wd_class = wo_class op \<rparr>]
                        in if mo_id op = ''setPassword'' then
                             map_option (\<lambda>pw. (dns, False, pw)) (parsePassword cfg (bodyString ms ''password''))
                           else Some (dns, False, '''')))
              | ShapeMembership \<Rightarrow>
                  (case bodyString ms ''groupDn'' of
                     None \<Rightarrow> None
                   | Some g \<Rightarrow>
                       (case bodyString ms ''memberDn'' of
                          None \<Rightarrow> None
                        | Some m \<Rightarrow>
                            Some ([\<lparr> wd_raw = g, wd_parent = False, wd_class = wo_class op \<rparr>,
                                   \<lparr> wd_raw = m, wd_parent = False, wd_class = wo_member_class op \<rparr>], False, '''')))))"

definition step4Parse :: "pipe_config \<Rightarrow> wreq \<Rightarrow> wreq" where
  "step4Parse cfg r =
     (let q = w_req r
      in case pc_policies cfg (rq_client q) of
           None \<Rightarrow> deny ''denied_guard'' r
         | Some pol \<Rightarrow>
             (let r1 = r\<lparr> w_pol := pol \<rparr>
              in case rq_body q of
                   None \<Rightarrow> reject 400 ''invalid_request'' r1
                 | Some raw \<Rightarrow>
                     if maxIdempotencyRequestBody < length raw then reject 400 ''invalid_request'' r1
                     else
                       (case parseDNs cfg q raw of
                          None \<Rightarrow> reject 400 ''invalid_request'' r1
                        | Some (dns, pending, pw) \<Rightarrow>
                            (let r2 = r1\<lparr> w_dns := dns, w_pending := pending, w_password := pw \<rparr>
                             in if list_ex (\<lambda>d. machineWriteDN (pc_dn cfg) (wd_raw d) = None \<or>
                                               \<not> withinCeiling (pc_dn cfg) pol (wd_raw d) (wd_parent d)) dns
                                then deny ''denied_guard'' r2
                                else if wo_compartment (rq_op q) = ''cred'' \<and>
                                        \<not> withinCredSubtree (pc_dn cfg) pol (wd_raw (hd dns))
                                then deny ''denied_guard'' r2
                                else goto AtDenylist r2))))"

definition step5Denylist :: "pipe_config \<Rightarrow> wreq \<Rightarrow> wreq" where
  "step5Denylist cfg r =
     (let op = rq_op (w_req r); L = pc_dn cfg
      in if list_ex (\<lambda>d. \<not> revocationWriteGuard L (pc_rev_enabled cfg) (pc_rev_base cfg) [wd_raw d] \<or>
                        isProtected L (w_pol r) (wd_raw d)) (w_dns r)
         then deny ''denied_protected'' r
         else if wo_kind op = ''group'' \<and> wo_shape op \<noteq> ShapeCreate \<and> \<not> groupListed L (w_pol r) (wd_raw (hd (w_dns r)))
         then deny ''denied_guard'' r
         else goto AtIfMatch r)"

definition step6IfMatch :: "wreq \<Rightarrow> wreq" where
  "step6IfMatch r =
     (let q = w_req r; op = rq_op q
      in if wo_compartment op = ''cred'' \<and> rq_if_match q \<noteq> [] then reject 400 ''invalid_request'' r
         else if \<not> wo_if_match op then goto AtIdempotency r
         else (case machineIfMatch (rq_if_match q) of
                 Inl IfMatchRequired \<Rightarrow> refuse 428 ''if_match_required'' ''request_rejected'' ''precondition_failed'' r
               | Inl InvalidIfMatch \<Rightarrow> reject 400 ''invalid_request'' r
               | Inr csn \<Rightarrow> goto AtIdempotency (r\<lparr> w_csn := csn \<rparr>)))"


subsection \<open>Step 7: the idempotency record\<close>

definition credentialPendingTag :: "pipe_config \<Rightarrow> string \<Rightarrow> string" where
  "credentialPendingTag cfg subject = take 16 (pc_sha_hex cfg subject)"

text \<open>A password body that asks the server to generate the password. The strict body has no two members
  whose names fold together, so at most one member is the field.\<close>

definition generatesPassword :: "json_lib \<Rightarrow> string \<Rightarrow> bool" where
  "generatesPassword J raw \<longleftrightarrow> js_blank J raw \<or>
     (case js_parse J raw of
        Some (JObj ms, rest) \<Rightarrow> list_all jsonSpace rest \<and>
          (case List.find (\<lambda>m. js_fold J (fst m) ''password'') ms of
             None \<Rightarrow> True
           | Some m \<Rightarrow> snd m = JNull \<or> snd m = JStr '''')
      | Some (JNull, rest) \<Rightarrow> list_all jsonSpace rest
      | _ \<Rightarrow> False)"

definition respond :: "reply \<Rightarrow> wreq \<Rightarrow> wreq" where
  "respond rep r = goto AtRelease (r\<lparr> w_reply := Some rep \<rparr>)"

definition replayIdempotent :: "result \<Rightarrow> reply" where
  "replayIdempotent res = \<lparr> rp_status = rs_status res, rp_code = '''', rp_body = rs_body res, rp_location = rs_location res,
     rp_replayed = True \<rparr>"

definition idempotent :: "pipe_config \<Rightarrow> bool \<Rightarrow> answers \<Rightarrow> shared \<Rightarrow> wreq \<Rightarrow> shared \<times> wreq" where
  "idempotent cfg password a sh r =
     (let q = w_req r; J = pc_json cfg
      in case ParseKey (rq_idem_keys q) of
           None \<Rightarrow> (sh, respond (reply_error 400 ''invalid_request'') r)
         | Some key \<Rightarrow>
             (case rq_body q of
                None \<Rightarrow> (sh, respond (reply_error 400 ''invalid_request'') r)
              | Some raw \<Rightarrow>
                  if maxIdempotencyRequestBody < length raw then (sh, respond (reply_error 400 ''invalid_request'') r)
                  else
                    (case strictBody J (mo_method (rq_op q)) (rq_content_type q) raw of
                       None \<Rightarrow> (sh, respond (reply_error 400 ''invalid_request'') r)
                     | Some canon \<Rightarrow>
                         if password \<and> generatesPassword J raw then (sh, respond (reply_error 422 ''validation_failed'') r)
                         else
                           (case Begin (pc_sha_hex cfg) (pc_hmac cfg) (pc_order cfg) (sh_store sh) (an_now a) (w_subject r) key
                                   [mo_method (rq_op q), rq_target q, (case canon of None \<Rightarrow> '''' | Some v \<Rightarrow> js_print J v)] of
                              (st, KindReplay res) \<Rightarrow> (sh\<lparr> sh_store := st \<rparr>, respond (replayIdempotent res) (did EvReplay r))
                            | (st, KindConflict) \<Rightarrow> (sh\<lparr> sh_store := st \<rparr>, respond (reply_error 409 ''idempotency_key_conflict'') r)
                            | (st, KindReused) \<Rightarrow> (sh\<lparr> sh_store := st \<rparr>, respond (reply_error 422 ''idempotency_key_reused'') r)
                            | (st, KindUnknownKey) \<Rightarrow> (sh\<lparr> sh_store := st \<rparr>, respond (reply_error 409 ''idempotency_outcome_unknown'') r)
                            | (st, KindCapacity) \<Rightarrow> (sh\<lparr> sh_store := st \<rparr>, respond (reply_error 503 ''idempotency_capacity'') r)
                            | (st, KindNew h) \<Rightarrow>
                                (sh\<lparr> sh_store := st \<rparr>, goto AtExecute (did EvBegin (r\<lparr> w_handle := Some h \<rparr>)))))))"

definition step7Idempotency :: "pipe_config \<Rightarrow> answers \<Rightarrow> shared \<Rightarrow> wreq \<Rightarrow> shared \<times> wreq" where
  "step7Idempotency cfg a sh r =
     (let q = w_req r
      in if rq_idem_keys q = [] then (sh, reject 428 ''idempotency_key_required'' r)
         else if \<not> pc_idem cfg then (sh, refuse 503 ''unavailable'' ''upstream_error'' ''rejected'' r)
         else
           (case machineIdempotencySubject (Some (rq_client q)) (pc_issuer cfg) '''' of
              None \<Rightarrow> (sh, respond (reply_error 403 ''scope_denied'') r)
            | Some subject \<Rightarrow> idempotent cfg (wo_compartment (rq_op q) = ''cred'') a sh (r\<lparr> w_subject := subject \<rparr>)))"

subsection \<open>Steps 8 and 9: execution\<close>

text \<open>An error of \<open>execute\<close> before the handler is definitive: nothing was sent to the directory.\<close>

definition definitive_error :: "int \<Rightarrow> string \<Rightarrow> handler_result" where
  "definitive_error status code = no_handler_result\<lparr> hr_status := status, hr_code := code, hr_definitive := True \<rparr>"

definition exec_fail :: "stage \<Rightarrow> int \<Rightarrow> string \<Rightarrow> string \<Rightarrow> string option \<Rightarrow> wreq \<Rightarrow> wreq" where
  "exec_fail next status code reason outcome r =
     goto next ((set_reason reason r)\<lparr> w_outcome := (case outcome of None \<Rightarrow> w_outcome r | Some x \<Rightarrow> x),
                                       w_result := definitive_error status code \<rparr>)"

definition credRateLimited :: "wreq \<Rightarrow> wreq" where
  "credRateLimited r = exec_fail AtUnlock 429 ''machine_rate_limited'' ''rate'' (Some ''rejected'') (r\<lparr> w_reason := ''rate'' \<rparr>)"

definition identityRefusal :: "domain_error \<Rightarrow> wreq \<Rightarrow> wreq" where
  "identityRefusal e r =
     (if e = DPermissionDenied \<or> e = DInvalidInput then
        exec_fail AtUnlock 403 ''scope_denied'' ''scope'' (Some ''denied_protected'') r
      else if e = DConflict then exec_fail AtUnlock 409 ''conflict'' ''request_rejected'' (Some ''rejected'') r
      else if e = DNotFound then exec_fail AtUnlock 404 ''not_found'' ''request_rejected'' (Some ''target_not_found'') r
      else exec_fail AtUnlock 503 ''unavailable'' ''upstream_error'' (Some ''rejected'') r)"

definition step_execute :: "pipe_config \<Rightarrow> answers \<Rightarrow> shared \<Rightarrow> wreq \<Rightarrow> shared \<times> wreq" where
  "step_execute cfg a sh r =
     (let op = rq_op (w_req r)
      in if writeBindIdentity (pc_write cfg) (wo_compartment op) = None then
           (sh, exec_fail AtUnlock 503 ''unavailable'' ''bind_failed'' (Some ''rejected'') r)
         else if mo_id op = ''createGroup'' \<and> wc_group_seed (pc_write cfg) = '''' then
           (sh, exec_fail AtUnlock 503 ''unavailable'' ''upstream_error'' (Some ''rejected'') r)
         else if mo_id op = ''setPassword'' then
           (case cl_spend (sh_cred sh) (an_now a) of
              (l, Some retry) \<Rightarrow> (sh\<lparr> sh_cred := l \<rparr>, credRateLimited r)
            | (l, None) \<Rightarrow> (sh\<lparr> sh_cred := l \<rparr>, goto (AtCheck 0) r))
         else (sh, goto (AtCheck 0) r))"

definition step_check :: "answers \<Rightarrow> nat \<Rightarrow> wreq \<Rightarrow> wreq" where
  "step_check a i r =
     (if length (w_dns r) \<le> i then
        goto (if mo_id (rq_op (w_req r)) = ''lockUser'' \<or> mo_id (rq_op (w_req r)) = ''setPassword'' then AtPrivileged else AtSlot) r
      else
        (let d = w_dns r ! i
         in if wd_class d = '''' then goto (AtCheck (i + 1)) r
            else (case an_ident a of
                    Some e \<Rightarrow> identityRefusal e r
                  | None \<Rightarrow> goto (AtCheck (i + 1)) (did (EvCheck (wd_raw d) (wd_class d)) r))))"

definition step_privileged :: "answers \<Rightarrow> stage \<Rightarrow> wreq \<Rightarrow> wreq" where
  "step_privileged a next r =
     (case an_ident a of Some e \<Rightarrow> identityRefusal e r | None \<Rightarrow> goto next (did EvPrivileged r))"

definition step_pending :: "answers \<Rightarrow> wreq \<Rightarrow> wreq" where
  "step_pending a r =
     (case an_pending a of
        Inl e \<Rightarrow> identityRefusal e r
      | Inr u \<Rightarrow> goto AtLock (did (EvPending u) (r\<lparr> w_seen := u \<rparr>)))"

definition step_lock :: "shared \<Rightarrow> wreq \<Rightarrow> shared \<times> wreq" where
  "step_lock sh r =
     (case cl_lock (sh_cred sh) (w_seen r) of
        (l, False) \<Rightarrow> (sh\<lparr> sh_cred := l \<rparr>, credRateLimited r)
      | (l, True) \<Rightarrow> (sh\<lparr> sh_cred := l \<rparr>, goto AtPrivileged2 (did (EvLock (w_seen r)) (r\<lparr> w_uuid := Some (w_seen r) \<rparr>))))"

definition step_pending2 :: "answers \<Rightarrow> wreq \<Rightarrow> wreq" where
  "step_pending2 a r =
     (case an_pending a of
        Inl e \<Rightarrow> identityRefusal e r
      | Inr again \<Rightarrow>
          if again \<noteq> w_seen r then identityRefusal DConflict (did (EvPending again) r)
          else goto AtPremise (did (EvPending again) r))"

definition step_premise :: "answers \<Rightarrow> wreq \<Rightarrow> wreq" where
  "step_premise a r =
     (if an_premise a \<noteq> '''' then exec_fail AtUnlock 503 ''unavailable'' ''upstream_error'' (Some ''rejected'') r
      else goto AtSlot (did EvPremise r))"

text \<open>\<open>runAs\<close>: the slot, then the bind as the identity the compartment selects.\<close>

definition step_slot :: "pipe_config \<Rightarrow> shared \<Rightarrow> wreq \<Rightarrow> shared \<times> wreq" where
  "step_slot cfg sh r =
     (if sh_slots sh < pc_exec_slots cfg
      then (sh\<lparr> sh_slots := sh_slots sh + 1 \<rparr>, goto AtBind (did EvSlot (r\<lparr> w_slot := True \<rparr>)))
      else (sh, exec_fail AtUnlock 503 ''unavailable'' ''capacity'' None r))"

definition step_bind :: "pipe_config \<Rightarrow> answers \<Rightarrow> wreq \<Rightarrow> wreq" where
  "step_bind cfg a r =
     (case writeBindIdentity (pc_write cfg) (wo_compartment (rq_op (w_req r))) of
        None \<Rightarrow> exec_fail AtFreeSlot 503 ''unavailable'' ''bind_failed'' None r
      | Some ident \<Rightarrow>
          if \<not> an_bind a then exec_fail AtFreeSlot 503 ''unavailable'' ''bind_failed'' None r
          else goto (if mo_id (rq_op (w_req r)) = ''setPassword'' then AtPassword else AtHandler)
                 (did (EvBind (bi_dn ident)) (r\<lparr> w_bound := Some ident, w_bind_dn := bi_dn ident \<rparr>)))"

definition step_handler :: "answers \<Rightarrow> wreq \<Rightarrow> wreq" where
  "step_handler a r = goto AtClose (did EvHandler (r\<lparr> w_result := an_handler a \<rparr>))"

text \<open>\<open>respondErr\<close> of a machine request on the error of the Password Modify: a domain error has its own
  status, every other failure is a 503 that proves nothing about the write.\<close>

definition domainStatus :: "domain_error \<Rightarrow> (int \<times> string) option" where
  "domainStatus e =
     (case e of
        DNotFound \<Rightarrow> Some (404, ''not_found'')
      | DAlreadyExists \<Rightarrow> Some (409, ''already_exists'')
      | DConflict \<Rightarrow> Some (409, ''conflict'')
      | DInvalidCredentials \<Rightarrow> Some (401, ''invalid_credentials'')
      | DPermissionDenied \<Rightarrow> Some (403, ''forbidden'')
      | DInvalidInput \<Rightarrow> Some (400, ''invalid_request'')
      | DCurrentPasswordRejected \<Rightarrow> Some (400, ''current_password_rejected'')
      | DRevisionConflict \<Rightarrow> Some (412, ''revision_conflict'')
      | _ \<Rightarrow> None)"

definition directory_failure_reason :: "domain_error \<Rightarrow> string" where
  "directory_failure_reason e = (if e = DDeadline then ''deadline'' else if e = DCanceled then ''canceled'' else '''')"

definition respondErr :: "domain_error \<Rightarrow> wreq \<Rightarrow> wreq" where
  "respondErr e r =
     (case domainStatus e of
        Some (status, code) \<Rightarrow> r\<lparr> w_result := no_handler_result\<lparr> hr_status := status, hr_code := code \<rparr> \<rparr>
      | None \<Rightarrow> (set_reason (directory_failure_reason e) r)
          \<lparr> w_result := no_handler_result\<lparr> hr_status := 503, hr_code := ''unavailable'' \<rparr> \<rparr>)"

definition step_password :: "answers \<Rightarrow> wreq \<Rightarrow> wreq" where
  "step_password a r =
     (case an_password a of
        Some e \<Rightarrow> goto AtClose (respondErr e (did EvPassword r))
      | None \<Rightarrow> goto (AtCleanup 0) (did EvPassword (r\<lparr> w_result := no_handler_result\<lparr> hr_status := 200, hr_body := ''{}'' \<rparr> \<rparr>)))"

definition step_cleanup :: "answers \<Rightarrow> nat \<Rightarrow> wreq \<Rightarrow> wreq" where
  "step_cleanup a k r =
     (if an_clear a then goto AtClose (did EvClear (r\<lparr> w_cleanup := ''done'' \<rparr>))
      else if k + 1 < 2 then goto (AtCleanup (k + 1)) r
      else goto AtClose (r\<lparr> w_cleanup := ''failed'' \<rparr>))"

subsection \<open>The way out\<close>

definition MaxResultBody :: nat where "MaxResultBody = 4096"

definition unknownResult :: "pipe_config \<Rightarrow> result" where
  "unknownResult cfg = \<lparr> rs_status = 409, rs_location = '''', rs_body = pc_unknown_body cfg, rs_envelope = True \<rparr>"

definition reply_of :: "handler_result \<Rightarrow> reply" where
  "reply_of h = \<lparr> rp_status = (if hr_status h = 0 then 200 else hr_status h), rp_code = hr_code h, rp_body = hr_body h,
     rp_location = hr_location h, rp_replayed = False \<rparr>"

text \<open>What \<open>runIdempotent\<close> makes of the handler's result: what is stored (\<open>None\<close>: the key is released) and
  what the client gets.\<close>

definition is_unknown :: "handler_result \<Rightarrow> bool" where
  "is_unknown h \<longleftrightarrow> hr_unknown h \<or> hr_panic h \<or>
     500 \<le> hr_status h \<and> \<not> hr_definitive h \<and> hr_code h \<noteq> ''partial_failure''"

definition runIdempotent :: "pipe_config \<Rightarrow> bool \<Rightarrow> handler_result \<Rightarrow> result option \<times> reply" where
  "runIdempotent cfg password h =
     (let rep = reply_of h; status = rp_status rep
      in if is_unknown h then (Some (unknownResult cfg), reply_error 409 ''idempotency_outcome_unknown'')
         else if 200 \<le> status \<and> status < 300 then
           (let body = (if password then ''{}'' else hr_body h)
            in if MaxResultBody < length body then (Some (unknownResult cfg), rep)
               else (Some \<lparr> rs_status = status, rs_location = hr_location h, rs_body = body, rs_envelope = False \<rparr>, rep))
         else if hr_code h = ''partial_failure'' then
           (if MaxResultBody < length (hr_body h) then (Some (unknownResult cfg), rep)
            else (Some \<lparr> rs_status = status, rs_location = '''', rs_body = hr_body h, rs_envelope = True \<rparr>, rep))
         else (None, rep))"

definition step_record :: "pipe_config \<Rightarrow> answers \<Rightarrow> shared \<Rightarrow> wreq \<Rightarrow> shared \<times> wreq" where
  "step_record cfg a sh r =
     (case w_handle r of
        None \<Rightarrow> (sh, goto AtRelease r)
      | Some h \<Rightarrow>
          (case runIdempotent cfg (wo_compartment (rq_op (w_req r)) = ''cred'') (w_result r) of
             (Some res, rep) \<Rightarrow>
               (sh\<lparr> sh_store := Complete (sh_store sh) (an_now a) h res \<rparr>,
                goto AtRelease (did EvRecord (r\<lparr> w_reply := Some rep \<rparr>)))
           | (None, rep) \<Rightarrow>
               (sh\<lparr> sh_store := Release (sh_store sh) h \<rparr>, goto AtRelease (did EvRecord (r\<lparr> w_reply := Some rep \<rparr>)))))"

text \<open>The audit outcome of a request no step has named. The envelope's code is known only when the envelope
  was written inside the idempotency record.\<close>

definition classify :: "wreq \<Rightarrow> wreq" where
  "classify r =
     (if w_outcome r \<noteq> '''' then r
      else
        (case w_reply r of
           None \<Rightarrow> r\<lparr> w_outcome := ''rejected'' \<rparr>
         | Some rep \<Rightarrow>
             (let code = (if w_handle r = None then '''' else rp_code rep)
              in r\<lparr> w_outcome :=
                   (if rp_replayed rep then ''replayed''
                    else if 200 \<le> rp_status rep \<and> rp_status rep < 300 then ''applied''
                    else if code = ''idempotency_outcome_unknown'' then ''outcome_unknown''
                    else if rp_status rep = 412 then ''precondition_failed''
                    else if w_bind_dn r \<noteq> '''' then ''ldap_refused''
                    else ''rejected'') \<rparr>)))"

definition step_unlock :: "shared \<Rightarrow> wreq \<Rightarrow> shared \<times> wreq" where
  "step_unlock sh r =
     (case w_uuid r of
        None \<Rightarrow> (sh, goto AtRecord r)
      | Some u \<Rightarrow> (sh\<lparr> sh_cred := cl_unlock (sh_cred sh) u \<rparr>, goto AtRecord (did (EvUnlock u) (r\<lparr> w_uuid := None \<rparr>))))"

definition step_release :: "shared \<Rightarrow> wreq \<Rightarrow> shared \<times> wreq" where
  "step_release sh r =
     (if w_admitted r
      then (sh\<lparr> sh_limiter := wl_release (sh_limiter sh) (rq_client (w_req r)) \<rparr>,
            goto AtDone (did EvRelease ((classify r)\<lparr> w_admitted := False \<rparr>)))
      else (sh, goto AtDone (classify r)))"

definition mw_next :: "pipe_config \<Rightarrow> answers \<Rightarrow> shared \<Rightarrow> wreq \<Rightarrow> shared \<times> wreq" where
  "mw_next cfg a sh r =
     (case w_stage r of
        AtScope \<Rightarrow> (sh, step2Scope cfg r)
      | AtAdmit \<Rightarrow> step3Admit a sh r
      | AtParse \<Rightarrow> (sh, step4Parse cfg r)
      | AtDenylist \<Rightarrow> (sh, step5Denylist cfg r)
      | AtIfMatch \<Rightarrow> (sh, step6IfMatch r)
      | AtIdempotency \<Rightarrow> step7Idempotency cfg a sh r
      | AtExecute \<Rightarrow> step_execute cfg a sh r
      | AtCheck i \<Rightarrow> (sh, step_check a i r)
      | AtPrivileged \<Rightarrow> (sh, step_privileged a (if mo_id (rq_op (w_req r)) = ''setPassword'' then AtPending else AtSlot) r)
      | AtPending \<Rightarrow> (sh, step_pending a r)
      | AtLock \<Rightarrow> step_lock sh r
      | AtPrivileged2 \<Rightarrow> (sh, step_privileged a AtPending2 r)
      | AtPending2 \<Rightarrow> (sh, step_pending2 a r)
      | AtPremise \<Rightarrow> (sh, step_premise a r)
      | AtSlot \<Rightarrow> step_slot cfg sh r
      | AtBind \<Rightarrow> (sh, step_bind cfg a r)
      | AtHandler \<Rightarrow> (sh, step_handler a r)
      | AtPassword \<Rightarrow> (sh, step_password a r)
      | AtCleanup k \<Rightarrow> (sh, step_cleanup a k r)
      | AtClose \<Rightarrow> (sh, goto AtFreeSlot (did EvClose (r\<lparr> w_bound := None \<rparr>)))
      | AtFreeSlot \<Rightarrow> (sh\<lparr> sh_slots := sh_slots sh - 1 \<rparr>, goto AtUnlock (did EvFreeSlot (r\<lparr> w_slot := False \<rparr>)))
      | AtUnlock \<Rightarrow> step_unlock sh r
      | AtRecord \<Rightarrow> step_record cfg a sh r
      | AtRelease \<Rightarrow> step_release sh r
      | AtDone \<Rightarrow> (sh, r))"

record mw_world =
  mw_shared :: shared
  mw_reqs :: "wreq list"

text \<open>The worlds the server can reach from an idle start, over the opened operations.\<close>

inductive mw_reachable :: "pipe_config \<Rightarrow> (string \<rightharpoonup> write_op) \<Rightarrow> mw_world \<Rightarrow> bool" for cfg ops where
  mw_start: "newMachineWriteLimiter rps burst global clients = wlim \<Longrightarrow> newCredLimiter rate 1 = cred \<Longrightarrow>
    mw_reachable cfg ops \<lparr> mw_shared = \<lparr> sh_limiter = wlim, sh_cred = cred, sh_slots = 0, sh_store = st \<rparr>, mw_reqs = [] \<rparr>"
| mw_arrive: "mw_reachable cfg ops w \<Longrightarrow> ops k = Some (rq_op q) \<Longrightarrow>
    mw_reachable cfg ops (w\<lparr> mw_reqs := mw_reqs w @ [new_wreq q] \<rparr>)"
| mw_step: "mw_reachable cfg ops w \<Longrightarrow> i < length (mw_reqs w) \<Longrightarrow> mw_next cfg a (mw_shared w) (mw_reqs w ! i) = (sh, r) \<Longrightarrow>
    mw_reachable cfg ops (w\<lparr> mw_shared := sh, mw_reqs := (mw_reqs w)[i := r] \<rparr>)"

end
