(* ===== verification/WriteSafety.thy ===== *)
theory WriteSafety
  imports WritePipeline
begin

text \<open>
  What the machine write pipeline guarantees in every reachable world: nothing leaves the process before a
  request is authorized, the write goes out as the identity of the operation's compartment, shared
  resources are held within their bounds and all returned, and password changes are serialized.
\<close>

subsection \<open>Automation\<close>

named_theorems mw_simps \<open>the helpers of the pipeline's steps\<close>

lemma set_reason_fields [simp]:
  "w_req (set_reason x r) = w_req r" "w_stage (set_reason x r) = w_stage r" "w_pol (set_reason x r) = w_pol r"
  "w_dns (set_reason x r) = w_dns r" "w_csn (set_reason x r) = w_csn r" "w_admitted (set_reason x r) = w_admitted r"
  "w_slot (set_reason x r) = w_slot r" "w_bound (set_reason x r) = w_bound r" "w_uuid (set_reason x r) = w_uuid r"
  "w_handle (set_reason x r) = w_handle r" "w_reply (set_reason x r) = w_reply r" "w_trace (set_reason x r) = w_trace r"
  "w_seen (set_reason x r) = w_seen r" "w_outcome (set_reason x r) = w_outcome r" "w_result (set_reason x r) = w_result r"
  "w_bind_dn (set_reason x r) = w_bind_dn r"
  by (simp_all add: set_reason_def)

lemma classify_fields [simp]:
  "w_req (classify r) = w_req r" "w_stage (classify r) = w_stage r" "w_pol (classify r) = w_pol r"
  "w_dns (classify r) = w_dns r" "w_csn (classify r) = w_csn r" "w_admitted (classify r) = w_admitted r"
  "w_slot (classify r) = w_slot r" "w_bound (classify r) = w_bound r" "w_uuid (classify r) = w_uuid r"
  "w_handle (classify r) = w_handle r" "w_reply (classify r) = w_reply r" "w_trace (classify r) = w_trace r"
  "w_seen (classify r) = w_seen r" "w_result (classify r) = w_result r"
  by (simp_all add: classify_def Let_def split: option.splits)

lemmas [mw_simps] = refuse_def deny_def reject_def goto_def did_def respond_def exec_fail_def
  credRateLimited_def reply_error_def

subsection \<open>Authorization\<close>

definition scope_ok :: "pipe_config \<Rightarrow> machine_request \<Rightarrow> bool" where
  "scope_ok cfg q \<longleftrightarrow> pc_policies cfg (rq_client q) \<noteq> None \<and>
     scopeAllows (pc_ceilings cfg (rq_client q)) (rq_scopes q) (mo_scope (rq_op q))"

text \<open>What a request names, read off the request itself and not off the parsed state: the value it gives a parameter, in the query or as
  a member of its body, and the names its shape makes of them. The first is the entry that is written.\<close>

definition request_value :: "json_lib \<Rightarrow> machine_request \<Rightarrow> string \<Rightarrow> string option" where
  "request_value J q f =
     (if wo_in_query (rq_op q) then (case map_of (rq_query q) f of Some [v] \<Rightarrow> Some v | _ \<Rightarrow> None)
      else case rq_body q of
        None \<Rightarrow> None
      | Some raw \<Rightarrow>
          (case js_parse J raw of
             Some (JObj ms, rest) \<Rightarrow> (case map_of ms f of Some (JStr v) \<Rightarrow> Some v | _ \<Rightarrow> None)
           | _ \<Rightarrow> None))"

definition request_names :: "pipe_config \<Rightarrow> machine_request \<Rightarrow> string option list" where
  "request_names cfg q =
     (let given = request_value (pc_json cfg) q in
      case wo_shape (rq_op q) of
        ShapeTarget \<Rightarrow> [given ''dn'']
      | ShapeMembership \<Rightarrow> [given ''groupDn'', given ''memberDn'']
      | ShapeCreate \<Rightarrow>
          if wo_kind (rq_op q) = ''group'' then [map_option (\<lambda>v. ''cn='' @ v @ '','' @ pc_group_base cfg) (given ''cn'')]
          else [map_option (\<lambda>v. ''uid='' @ v @ '','' @ pc_user_base cfg) (given ''uid'')])"

text \<open>The parsed names are these, each of them, in this order, beside the parent of a new entry.\<close>

definition covers :: "pipe_config \<Rightarrow> machine_request \<Rightarrow> write_dn list \<Rightarrow> bool" where
  "covers cfg q dns \<longleftrightarrow> map (\<lambda>d. Some (wd_raw d)) (filter (\<lambda>d. \<not> wd_parent d) dns) = request_names cfg q \<and> \<not> wd_parent (hd dns) \<and>
     (wo_shape (rq_op q) = ShapeCreate \<longrightarrow>
       (\<exists>d \<in> set dns. wd_parent d \<and> wd_raw d = (if wo_kind (rq_op q) = ''group'' then pc_group_base cfg else pc_user_base cfg)))"

lemma request_fields_value:
  assumes "request_fields J q raw = Some ms" "rq_body q = Some raw" "bodyString ms f = Some v"
  shows "request_value J q f = Some v"
proof (cases "wo_in_query (rq_op q)")
  case True
  with assms(1) have ms: "ms = map (\<lambda>kv. (fst kv, JStr (concat (snd kv)))) (rq_query q)"
    and one: "\<And>kv. kv \<in> set (rq_query q) \<Longrightarrow> length (snd kv) = 1"
    by (auto simp: request_fields_def Let_def list_ex_iff split: if_splits)
  have "map_of (map (\<lambda>kv. (fst kv, JStr (concat (snd kv)))) xs) f = map_option (\<lambda>vs. JStr (concat vs)) (map_of xs f)" for xs
    by (induction xs) auto
  with assms(3) ms obtain vs where vs: "map_of (rq_query q) f = Some vs" "concat vs = v"
    by (auto simp: bodyString_def split: option.splits json.splits if_splits)
  from one [OF map_of_SomeD [OF vs(1)]] obtain x where "vs = [x]" by (auto simp: length_Suc_conv)
  with vs True show ?thesis by (simp add: request_value_def)
next
  case False
  with assms show ?thesis
    by (auto simp: request_fields_def request_value_def bodyString_def Let_def split: if_splits option.splits json.splits)
qed

lemma parse_covers:
  assumes "parseDNs cfg q raw = Some (dns, p, pw)" "rq_body q = Some raw"
  shows "covers cfg q dns"
proof -
  obtain ms where ms: "request_fields (pc_json cfg) q raw = Some ms"
    using assms(1) by (auto simp: parseDNs_def Let_def split: option.splits)
  note given = request_fields_value [OF ms assms(2)]
  show ?thesis
  proof (cases "wo_shape (rq_op q)")
    case ShapeCreate
    show ?thesis
    proof (cases "wo_kind (rq_op q) = ''group''")
      case True
      with ShapeCreate assms(1) obtain cn where cn: "bodyString ms ''cn'' = Some cn" "groupCreateDNs (pc_dn cfg) cn (pc_group_base cfg) = Some dns"
        by (auto simp: parseDNs_def Let_def ms split: option.splits)
      then have "dns = [\<lparr> wd_raw = ''cn='' @ cn @ '','' @ pc_group_base cfg, wd_parent = False, wd_class = '''' \<rparr>,
                        \<lparr> wd_raw = pc_group_base cfg, wd_parent = True, wd_class = '''' \<rparr>]"
        by (auto simp: groupCreateDNs_def Let_def split: option.splits list.splits if_splits)
      with ShapeCreate True given [OF cn(1)] show ?thesis by (simp add: covers_def request_names_def)
    next
      case False
      with ShapeCreate assms(1) given show ?thesis
        by (auto simp: parseDNs_def covers_def request_names_def Let_def ms split: option.splits if_splits)
    qed
  next
    case ShapeTarget
    with assms(1) given show ?thesis
      by (auto simp: parseDNs_def covers_def request_names_def Let_def ms split: option.splits if_splits)
  next
    case ShapeMembership
    with assms(1) given show ?thesis
      by (auto simp: parseDNs_def covers_def request_names_def Let_def ms split: option.splits)
  qed
qed

definition names_ok :: "pipe_config \<Rightarrow> machine_request \<Rightarrow> write_policy \<Rightarrow> write_dn list \<Rightarrow> bool" where
  "names_ok cfg q pol dns \<longleftrightarrow> pc_policies cfg (rq_client q) = Some pol \<and> dns \<noteq> [] \<and> covers cfg q dns \<and>
     list_all (\<lambda>d. machineWriteDN (pc_dn cfg) (wd_raw d) \<noteq> None \<and> withinCeiling (pc_dn cfg) pol (wd_raw d) (wd_parent d)) dns \<and>
     (wo_compartment (rq_op q) = ''cred'' \<longrightarrow> withinCredSubtree (pc_dn cfg) pol (wd_raw (hd dns)))"

definition unprotected :: "pipe_config \<Rightarrow> machine_request \<Rightarrow> write_policy \<Rightarrow> write_dn list \<Rightarrow> bool" where
  "unprotected cfg q pol dns \<longleftrightarrow>
     list_all (\<lambda>d. \<not> isProtected (pc_dn cfg) pol (wd_raw d) \<and>
       revocationWriteGuard (pc_dn cfg) (pc_rev_enabled cfg) (pc_rev_base cfg) [wd_raw d]) dns \<and>
     (wo_kind (rq_op q) = ''group'' \<and> wo_shape (rq_op q) \<noteq> ShapeCreate \<longrightarrow>
       groupListed (pc_dn cfg) pol (wd_raw (hd dns)))"

definition revision_ok :: "machine_request \<Rightarrow> string \<Rightarrow> bool" where
  "revision_ok q csn \<longleftrightarrow>
     (wo_if_match (rq_op q) \<longrightarrow> machineIfMatch (rq_if_match q) = Inr csn) \<and>
     (wo_compartment (rq_op q) = ''cred'' \<longrightarrow> rq_if_match q = [])"

definition authorized :: "pipe_config \<Rightarrow> machine_request \<Rightarrow> write_policy \<Rightarrow> write_dn list \<Rightarrow> string \<Rightarrow> bool" where
  "authorized cfg q pol dns csn \<longleftrightarrow> scope_ok cfg q \<and> names_ok cfg q pol dns \<and> unprotected cfg q pol dns \<and> revision_ok q csn"

text \<open>What holds of a request at a stage: the guards it has passed.\<close>

fun cleared :: "pipe_config \<Rightarrow> stage \<Rightarrow> machine_request \<Rightarrow> write_policy \<Rightarrow> write_dn list \<Rightarrow> string \<Rightarrow> bool" where
  "cleared cfg AtScope q pol dns csn \<longleftrightarrow> True"
| "cleared cfg AtAdmit q pol dns csn \<longleftrightarrow> scope_ok cfg q"
| "cleared cfg AtParse q pol dns csn \<longleftrightarrow> scope_ok cfg q"
| "cleared cfg AtDenylist q pol dns csn \<longleftrightarrow> scope_ok cfg q \<and> names_ok cfg q pol dns"
| "cleared cfg AtIfMatch q pol dns csn \<longleftrightarrow> scope_ok cfg q \<and> names_ok cfg q pol dns \<and> unprotected cfg q pol dns"
| "cleared cfg AtRelease q pol dns csn \<longleftrightarrow> True"
| "cleared cfg AtDone q pol dns csn \<longleftrightarrow> True"
| "cleared cfg _ q pol dns csn \<longleftrightarrow> authorized cfg q pol dns csn"

text \<open>The stages before the idempotency record: nothing but the limiter has been touched.\<close>

fun early :: "stage \<Rightarrow> bool" where
  "early st \<longleftrightarrow> st \<in> {AtScope, AtAdmit, AtParse, AtDenylist, AtIfMatch, AtIdempotency}"

definition replayed :: "reply option \<Rightarrow> bool" where
  "replayed rep \<longleftrightarrow> (case rep of None \<Rightarrow> False | Some p \<Rightarrow> rp_replayed p)"

definition quiet :: "mw_event list \<Rightarrow> handle option \<Rightarrow> reply option \<Rightarrow> bool" where
  "quiet tr h rep \<longleftrightarrow> set tr \<subseteq> {EvAdmit, EvRelease} \<and> h = None \<and> \<not> replayed rep"

definition bind_ok :: "pipe_config \<Rightarrow> machine_request \<Rightarrow> mw_event list \<Rightarrow> bool" where
  "bind_ok cfg q tr \<longleftrightarrow> (\<forall>d. EvBind d \<in> set tr \<longrightarrow>
     map_option bi_dn (writeBindIdentity (pc_write cfg) (wo_compartment (rq_op q))) = Some d)"

definition auth_inv :: "pipe_config \<Rightarrow> wreq \<Rightarrow> bool" where
  "auth_inv cfg r \<longleftrightarrow> cleared cfg (w_stage r) (w_req r) (w_pol r) (w_dns r) (w_csn r) \<and>
     (quiet (w_trace r) (w_handle r) (w_reply r) \<or> authorized cfg (w_req r) (w_pol r) (w_dns r) (w_csn r)) \<and>
     (early (w_stage r) \<longrightarrow> quiet (w_trace r) (w_handle r) (w_reply r)) \<and> bind_ok cfg (w_req r) (w_trace r)"

lemma parse_dns_nonempty: "parseDNs cfg q raw = Some (dns, p, pw) \<Longrightarrow> dns \<noteq> []"
  by (auto simp: parseDNs_def groupCreateDNs_def Let_def split: option.splits write_shape.splits if_splits list.splits)

lemma quiet_simps [simp]:
  "quiet tr h None \<longleftrightarrow> set tr \<subseteq> {EvAdmit, EvRelease} \<and> h = None"
  "quiet tr h (Some rep) \<longleftrightarrow> set tr \<subseteq> {EvAdmit, EvRelease} \<and> h = None \<and> \<not> rp_replayed rep"
  "quiet tr (Some h') rep' \<longleftrightarrow> False"
  by (auto simp: quiet_def replayed_def)

lemma bind_ok_other [simp]: "(\<And>d. e \<noteq> EvBind d) \<Longrightarrow> bind_ok cfg q (tr @ [e]) = bind_ok cfg q tr"
  by (auto simp: bind_ok_def)

text \<open>The steps that lead to authorization.\<close>

lemma auth_step2: "auth_inv cfg r \<Longrightarrow> w_stage r = AtScope \<Longrightarrow> auth_inv cfg (step2Scope cfg r)"
  by (auto simp: auth_inv_def step2Scope_def mw_simps Let_def scope_ok_def quiet_def replayed_def)

lemma auth_step3: "auth_inv cfg r \<Longrightarrow> w_stage r = AtAdmit \<Longrightarrow> auth_inv cfg (snd (step3Admit a sh r))"
  by (auto simp: auth_inv_def step3Admit_def mw_simps quiet_def replayed_def
      split: prod.splits option.splits write_refusal.splits)

lemma auth_step4: "auth_inv cfg r \<Longrightarrow> w_stage r = AtParse \<Longrightarrow> auth_inv cfg (step4Parse cfg r)"
  by (auto simp: auth_inv_def step4Parse_def mw_simps Let_def names_ok_def quiet_def replayed_def list_all_iff list_ex_iff
      dest: parse_dns_nonempty parse_covers split: option.splits)

lemma auth_step5: "auth_inv cfg r \<Longrightarrow> w_stage r = AtDenylist \<Longrightarrow> auth_inv cfg (step5Denylist cfg r)"
  by (auto simp: auth_inv_def step5Denylist_def mw_simps Let_def unprotected_def quiet_def replayed_def list_all_iff list_ex_iff)

lemma auth_step6: "auth_inv cfg r \<Longrightarrow> w_stage r = AtIfMatch \<Longrightarrow> auth_inv cfg (step6IfMatch r)"
  by (auto simp: auth_inv_def step6IfMatch_def mw_simps Let_def authorized_def revision_ok_def quiet_def replayed_def
      split: sum.splits if_match_error.splits)

lemma auth_step7:
  assumes "auth_inv cfg r" "w_stage r = AtIdempotency"
  shows "auth_inv cfg (snd (step7Idempotency cfg a sh r))"
  using assms
  by (auto simp: auth_inv_def step7Idempotency_def idempotent_def replayIdempotent_def mw_simps Let_def
      split: option.splits prod.splits store_decision.splits)

lemma authorized_cleared: "authorized cfg q pol dns csn \<Longrightarrow> cleared cfg st q pol dns csn"
  by (cases st) (simp_all add: authorized_def)

text \<open>After authorization a step keeps what was decided.\<close>

definition keeps :: "wreq \<Rightarrow> wreq \<Rightarrow> bool" where
  "keeps r r' \<longleftrightarrow> w_req r' = w_req r \<and> w_pol r' = w_pol r \<and> w_dns r' = w_dns r \<and> w_csn r' = w_csn r \<and> \<not> early (w_stage r')"

lemma auth_late:
  assumes "auth_inv cfg r" "\<not> early (w_stage r)" "w_stage r \<noteq> AtRelease" "w_stage r \<noteq> AtDone" "keeps r r'"
    "bind_ok cfg (w_req r) (w_trace r')"
  shows "auth_inv cfg r'"
proof -
  have "authorized cfg (w_req r) (w_pol r) (w_dns r) (w_csn r)"
    using assms(1-4) by (cases "w_stage r") (auto simp: auth_inv_def)
  with assms(5,6) show ?thesis by (simp add: auth_inv_def keeps_def authorized_cleared)
qed

lemma late_steps:
  "w_stage r = AtExecute \<Longrightarrow> keeps r (snd (step_execute cfg a sh r)) \<and> w_trace (snd (step_execute cfg a sh r)) = w_trace r"
  "keeps r (step_check a i r) \<and> (w_trace (step_check a i r) = w_trace r \<or> (\<exists>x y. w_trace (step_check a i r) = w_trace r @ [EvCheck x y]))"
  "\<not> early next \<Longrightarrow> keeps r (step_privileged a next r) \<and>
     (w_trace (step_privileged a next r) = w_trace r \<or> w_trace (step_privileged a next r) = w_trace r @ [EvPrivileged])"
  "keeps r (step_pending a r) \<and> (w_trace (step_pending a r) = w_trace r \<or> (\<exists>u. w_trace (step_pending a r) = w_trace r @ [EvPending u]))"
  "keeps r (snd (step_lock sh r)) \<and>
     (w_trace (snd (step_lock sh r)) = w_trace r \<or> w_trace (snd (step_lock sh r)) = w_trace r @ [EvLock (w_seen r)])"
  "keeps r (step_pending2 a r) \<and> (w_trace (step_pending2 a r) = w_trace r \<or> (\<exists>u. w_trace (step_pending2 a r) = w_trace r @ [EvPending u]))"
  "keeps r (step_premise a r) \<and> (w_trace (step_premise a r) = w_trace r \<or> w_trace (step_premise a r) = w_trace r @ [EvPremise])"
  "keeps r (snd (step_slot cfg sh r)) \<and>
     (w_trace (snd (step_slot cfg sh r)) = w_trace r \<or> w_trace (snd (step_slot cfg sh r)) = w_trace r @ [EvSlot])"
  "keeps r (step_handler a r) \<and> w_trace (step_handler a r) = w_trace r @ [EvHandler]"
  "keeps r (step_password a r) \<and> w_trace (step_password a r) = w_trace r @ [EvPassword]"
  "keeps r (step_cleanup a k r) \<and> (w_trace (step_cleanup a k r) = w_trace r \<or> w_trace (step_cleanup a k r) = w_trace r @ [EvClear])"
  "keeps r (snd (step_unlock sh r)) \<and> (w_trace (snd (step_unlock sh r)) = w_trace r \<or> (\<exists>u. w_trace (snd (step_unlock sh r)) = w_trace r @ [EvUnlock u]))"
  "keeps r (snd (step_record cfg a sh r)) \<and>
     (w_trace (snd (step_record cfg a sh r)) = w_trace r \<or> w_trace (snd (step_record cfg a sh r)) = w_trace r @ [EvRecord])"
  by (auto simp: keeps_def step_execute_def step_check_def step_privileged_def step_pending_def step_lock_def step_pending2_def
      step_premise_def step_slot_def step_handler_def step_password_def respondErr_def step_cleanup_def step_unlock_def
      step_record_def identityRefusal_def mw_simps Let_def
      split: option.splits prod.splits sum.splits bool.splits if_splits)

lemma bind_step: "keeps r (step_bind cfg a r) \<and> (bind_ok cfg (w_req r) (w_trace r) \<longrightarrow> bind_ok cfg (w_req r) (w_trace (step_bind cfg a r)))"
  by (auto simp: keeps_def step_bind_def bind_ok_def mw_simps split: option.splits)

lemma auth_next_late:
  assumes "\<not> early (w_stage r)" "w_stage r \<noteq> AtRelease" "w_stage r \<noteq> AtDone" "bind_ok cfg (w_req r) (w_trace r)"
  shows "keeps r (snd (mw_next cfg a sh r)) \<and> bind_ok cfg (w_req r) (w_trace (snd (mw_next cfg a sh r)))"
proof (cases "w_stage r")
  case AtExecute
  then show ?thesis using late_steps(1) [OF AtExecute] assms(4) by (simp add: mw_next_def)
next
  case (AtCheck i)
  then show ?thesis using late_steps(2) [of r a i] assms(4) by (auto simp: mw_next_def)
next
  case AtPrivileged
  then show ?thesis
    using late_steps(3) [of "if mo_id (rq_op (w_req r)) = ''setPassword'' then AtPending else AtSlot" r a] assms(4)
    by (auto simp: mw_next_def)
next
  case AtPending
  then show ?thesis using late_steps(4) [of r a] assms(4) by (auto simp: mw_next_def)
next
  case AtLock
  then show ?thesis using late_steps(5) [of r sh] assms(4) by (auto simp: mw_next_def)
next
  case AtPrivileged2
  then show ?thesis using late_steps(3) [of AtPending2 r a] assms(4) by (auto simp: mw_next_def)
next
  case AtPending2
  then show ?thesis using late_steps(6) [of r a] assms(4) by (auto simp: mw_next_def)
next
  case AtPremise
  then show ?thesis using late_steps(7) [of r a] assms(4) by (auto simp: mw_next_def)
next
  case AtSlot
  then show ?thesis using late_steps(8) [of r cfg sh] assms(4) by (auto simp: mw_next_def)
next
  case AtBind
  then show ?thesis using bind_step [of r cfg a] assms(4) by (simp add: mw_next_def)
next
  case AtHandler
  then show ?thesis using late_steps(9) [of r a] assms(4) by (auto simp: mw_next_def)
next
  case AtPassword
  then show ?thesis using late_steps(10) [of r a] assms(4) by (auto simp: mw_next_def)
next
  case (AtCleanup k)
  then show ?thesis using late_steps(11) [of r a k] assms(4) by (auto simp: mw_next_def)
next
  case AtUnlock
  then show ?thesis using late_steps(12) [of r sh] assms(4) by (auto simp: mw_next_def)
next
  case AtRecord
  then show ?thesis using late_steps(13) [of r cfg a sh] assms(4) by (auto simp: mw_next_def)
qed (use assms in \<open>auto simp: mw_next_def mw_simps keeps_def\<close>)

lemma auth_next: "auth_inv cfg r \<Longrightarrow> auth_inv cfg (snd (mw_next cfg a sh r))"
proof -
  assume inv: "auth_inv cfg r"
  then have b: "bind_ok cfg (w_req r) (w_trace r)" by (simp add: auth_inv_def)
  consider "early (w_stage r)" | "w_stage r = AtRelease" | "w_stage r = AtDone"
    | "\<not> early (w_stage r)" "w_stage r \<noteq> AtRelease" "w_stage r \<noteq> AtDone" by blast
  then show ?thesis
  proof cases
    case 1
    then show ?thesis
      using inv auth_step2 auth_step3 auth_step4 auth_step5 auth_step6 auth_step7 by (auto simp: mw_next_def)
  next
    case 2
    with inv show ?thesis by (auto simp: auth_inv_def mw_next_def step_release_def mw_simps quiet_def)
  next
    case 4
    show ?thesis using auth_late [OF inv 4] auth_next_late [OF 4 b] by blast
  qed (use inv in \<open>simp add: mw_next_def\<close>)
qed

end
