(* ===== verification/WriteBounds.thy ===== *)
theory WriteBounds
  imports WriteSafety
begin

text \<open>
  The resources of the machine write pipeline: how each step takes and returns them, and the bounds every
  reachable world keeps.
\<close>

subsection \<open>Resources\<close>

fun slot_stage :: "stage \<Rightarrow> bool" where
  "slot_stage AtBind = True" | "slot_stage AtHandler = True" | "slot_stage AtPassword = True"
| "slot_stage (AtCleanup k) = True" | "slot_stage AtClose = True" | "slot_stage AtFreeSlot = True" | "slot_stage _ = False"

fun bound_stage :: "stage \<Rightarrow> bool" where
  "bound_stage AtHandler = True" | "bound_stage AtPassword = True" | "bound_stage (AtCleanup k) = True"
| "bound_stage AtClose = True" | "bound_stage _ = False"

fun locked_stage :: "stage \<Rightarrow> bool" where
  "locked_stage AtPrivileged2 = True" | "locked_stage AtPending2 = True" | "locked_stage AtPremise = True"
| "locked_stage AtSlot = True" | "locked_stage AtBind = True" | "locked_stage AtHandler = True" | "locked_stage AtPassword = True"
| "locked_stage (AtCleanup k) = True" | "locked_stage AtClose = True" | "locked_stage AtFreeSlot = True" | "locked_stage AtUnlock = True"
| "locked_stage _ = False"

definition holds_inv :: "wreq \<Rightarrow> bool" where
  "holds_inv r \<longleftrightarrow> w_slot r = slot_stage (w_stage r) \<and> (w_bound r \<noteq> None) = bound_stage (w_stage r) \<and>
     (w_uuid r \<noteq> None \<longrightarrow> locked_stage (w_stage r)) \<and>
     (w_admitted r \<longrightarrow> w_stage r \<notin> {AtScope, AtAdmit, AtDone}) \<and>
     (w_stage r \<notin> {AtScope, AtAdmit, AtRelease, AtDone} \<longrightarrow> w_admitted r)"

text \<open>What the steps without a shared resource leave alone, and where they lead.\<close>

definition frame :: "wreq \<Rightarrow> wreq \<Rightarrow> bool" where
  "frame r r' \<longleftrightarrow> w_req r' = w_req r \<and> w_admitted r' = w_admitted r \<and> w_slot r' = w_slot r \<and> w_uuid r' = w_uuid r \<and>
     w_bound r' = w_bound r"


lemma frame2: "frame r (step2Scope cfg r) \<and> w_stage (step2Scope cfg r) \<in> {AtAdmit, AtRelease}"
  by (auto simp: frame_def step2Scope_def mw_simps Let_def)

lemma frame5: "frame r (step5Denylist cfg r) \<and> w_stage (step5Denylist cfg r) \<in> {AtIfMatch, AtRelease}"
  by (auto simp: frame_def step5Denylist_def mw_simps Let_def)

lemma frame6: "frame r (step6IfMatch r) \<and> w_stage (step6IfMatch r) \<in> {AtIdempotency, AtRelease}"
  by (auto simp: frame_def step6IfMatch_def mw_simps Let_def split: sum.splits if_match_error.splits)

lemma frame_refusal: "frame r (identityRefusal e r) \<and> w_stage (identityRefusal e r) = AtUnlock"
  by (auto simp: frame_def identityRefusal_def mw_simps)

lemma frame_check: "frame r (step_check a i r) \<and> w_stage (step_check a i r) \<in> {AtCheck (i + 1), AtPrivileged, AtSlot, AtUnlock}"
  using frame_refusal [of r] by (auto simp: frame_def step_check_def goto_def did_def Let_def split: option.splits)

lemma frame_privileged: "frame r (step_privileged a next r) \<and> w_stage (step_privileged a next r) \<in> {next, AtUnlock}"
  using frame_refusal [of r] by (auto simp: frame_def step_privileged_def goto_def did_def split: option.splits)

lemma frame_pending: "frame r (step_pending a r) \<and> w_stage (step_pending a r) \<in> {AtLock, AtUnlock}"
  using frame_refusal [of r] by (auto simp: frame_def step_pending_def goto_def did_def split: sum.splits)

lemma frame_pending2: "frame r (step_pending2 a r) \<and> w_stage (step_pending2 a r) \<in> {AtPremise, AtUnlock}"
  by (auto simp: frame_def step_pending2_def identityRefusal_def mw_simps split: sum.splits)

lemma frame_premise: "frame r (step_premise a r) \<and> w_stage (step_premise a r) \<in> {AtSlot, AtUnlock}"
  by (auto simp: frame_def step_premise_def mw_simps)

lemma frame_handler: "frame r (step_handler a r) \<and> w_stage (step_handler a r) = AtClose"
  by (auto simp: frame_def step_handler_def mw_simps)

lemma frame_password: "frame r (step_password a r) \<and> w_stage (step_password a r) \<in> {AtClose, AtCleanup 0}"
  by (auto simp: frame_def step_password_def respondErr_def mw_simps split: option.splits)

lemma frame_cleanup: "frame r (step_cleanup a k r) \<and> w_stage (step_cleanup a k r) \<in> {AtClose, AtCleanup (k + 1)}"
  by (auto simp: frame_def step_cleanup_def mw_simps)

lemma frame4: "frame r (step4Parse cfg r) \<and> w_stage (step4Parse cfg r) \<in> {AtDenylist, AtRelease}"
  by (auto simp: frame_def step4Parse_def mw_simps Let_def split: option.splits)

definition same_resources :: "shared \<Rightarrow> shared \<Rightarrow> bool" where
  "same_resources sh sh' \<longleftrightarrow> sh_limiter sh' = sh_limiter sh \<and> sh_slots sh' = sh_slots sh \<and> sh_cred sh' = sh_cred sh"

lemma frame7:
  assumes "step7Idempotency cfg a sh r = (sh', r')"
  shows "frame r r' \<and> w_stage r' \<in> {AtExecute, AtRelease} \<and> same_resources sh sh'"
  using assms
  by (auto simp: frame_def same_resources_def step7Idempotency_def idempotent_def mw_simps Let_def
      split: option.splits prod.splits store_decision.splits if_splits)

lemma frame_record:
  assumes "step_record cfg a sh r = (sh', r')"
  shows "frame r r' \<and> w_stage r' = AtRelease \<and> same_resources sh sh'"
  using assms by (auto simp: frame_def same_resources_def step_record_def mw_simps split: option.splits prod.splits)

lemma frame_execute:
  assumes "step_execute cfg a sh r = (sh', r')"
  shows "frame r r' \<and> w_stage r' \<in> {AtCheck 0, AtUnlock} \<and> sh_limiter sh' = sh_limiter sh \<and> sh_slots sh' = sh_slots sh \<and>
    (sh_cred sh' = sh_cred sh \<or> sh_cred sh' = fst (cl_spend (sh_cred sh) (an_now a)))"
  using assms
  by (auto simp: frame_def step_execute_def mw_simps Let_def split: option.splits prod.splits if_splits)

text \<open>The stages whose step uses no shared resource but the store.\<close>

fun local_stage :: "stage \<Rightarrow> bool" where
  "local_stage AtAdmit = False" | "local_stage AtExecute = False" | "local_stage AtLock = False" | "local_stage AtSlot = False"
| "local_stage AtBind = False" | "local_stage AtClose = False" | "local_stage AtFreeSlot = False" | "local_stage AtUnlock = False"
| "local_stage AtRelease = False" | "local_stage _ = True"


text \<open>One lemma for the local steps: what they leave alone and the stage they lead to.\<close>

fun successors :: "stage \<Rightarrow> stage set" where
  "successors AtScope = {AtAdmit, AtRelease}"
| "successors AtParse = {AtDenylist, AtRelease}"
| "successors AtDenylist = {AtIfMatch, AtRelease}"
| "successors AtIfMatch = {AtIdempotency, AtRelease}"
| "successors AtIdempotency = {AtExecute, AtRelease}"
| "successors (AtCheck i) = {AtCheck (i + 1), AtPrivileged, AtSlot, AtUnlock}"
| "successors AtPrivileged = {AtPending, AtSlot, AtUnlock}"
| "successors AtPending = {AtLock, AtUnlock}"
| "successors AtPrivileged2 = {AtPending2, AtUnlock}"
| "successors AtPending2 = {AtPremise, AtUnlock}"
| "successors AtPremise = {AtSlot, AtUnlock}"
| "successors AtHandler = {AtClose}"
| "successors AtPassword = {AtClose, AtCleanup 0}"
| "successors (AtCleanup k) = {AtClose, AtCleanup (k + 1)}"
| "successors AtRecord = {AtRelease}"
| "successors st = {st}"

lemma local_frame:
  assumes "local_stage (w_stage r)" "mw_next cfg a sh r = (sh', r')"
  shows "frame r r' \<and> same_resources sh sh' \<and> w_stage r' \<in> successors (w_stage r)"
proof (cases "w_stage r")
  case AtScope
  with assms(2) show ?thesis using frame2 [of r cfg] by (auto simp: mw_next_def same_resources_def)
next
  case AtParse
  with assms(2) show ?thesis using frame4 [of r cfg] by (auto simp: mw_next_def same_resources_def)
next
  case AtDenylist
  with assms(2) show ?thesis using frame5 [of r cfg] by (auto simp: mw_next_def same_resources_def)
next
  case AtIfMatch
  with assms(2) show ?thesis using frame6 [of r] by (auto simp: mw_next_def same_resources_def)
next
  case AtIdempotency
  with assms(2) show ?thesis using frame7 [of cfg a sh r sh' r'] by (simp add: mw_next_def)
next
  case (AtCheck i)
  with assms(2) show ?thesis using frame_check [of r a i] by (auto simp: mw_next_def same_resources_def)
next
  case AtPrivileged
  with assms(2) show ?thesis
    using frame_privileged [of r a "if mo_id (rq_op (w_req r)) = ''setPassword'' then AtPending else AtSlot"]
    by (auto simp: mw_next_def same_resources_def split: if_splits)
next
  case AtPending
  with assms(2) show ?thesis using frame_pending [of r a] by (auto simp: mw_next_def same_resources_def)
next
  case AtPrivileged2
  with assms(2) show ?thesis using frame_privileged [of r a AtPending2] by (auto simp: mw_next_def same_resources_def)
next
  case AtPending2
  with assms(2) show ?thesis using frame_pending2 [of r a] by (auto simp: mw_next_def same_resources_def)
next
  case AtPremise
  with assms(2) show ?thesis using frame_premise [of r a] by (auto simp: mw_next_def same_resources_def)
next
  case AtHandler
  with assms(2) show ?thesis using frame_handler [of r a] by (auto simp: mw_next_def same_resources_def)
next
  case AtPassword
  with assms(2) show ?thesis using frame_password [of r a] by (auto simp: mw_next_def same_resources_def)
next
  case (AtCleanup k)
  with assms(2) show ?thesis using frame_cleanup [of r a k] by (auto simp: mw_next_def same_resources_def)
next
  case AtRecord
  with assms(2) show ?thesis using frame_record [of cfg a sh r sh' r'] by (simp add: mw_next_def)
qed (use assms in \<open>simp_all add: mw_next_def frame_def same_resources_def\<close>)

lemma holds_local:
  assumes "holds_inv r" "local_stage (w_stage r)" "frame r r'" "w_stage r' \<in> successors (w_stage r)"
  shows "holds_inv r'"
  using assms by (cases "w_stage r") (auto simp: holds_inv_def frame_def)

text \<open>The other steps take or return one resource each.\<close>

lemma holds_shared:
  assumes "holds_inv r" "\<not> local_stage (w_stage r)" "mw_next cfg a sh r = (sh', r')"
  shows "holds_inv r' \<and> w_req r' = w_req r"
proof (cases "w_stage r")
  case AtExecute
  obtain sh1 r1 where e: "step_execute cfg a sh r = (sh1, r1)" by fastforce
  with assms(3) AtExecute have "sh' = sh1" "r' = r1" by (simp_all add: mw_next_def)
  with assms(1) AtExecute frame_execute [OF e] show ?thesis by (auto simp: holds_inv_def frame_def)
next
  case AtAdmit
  with assms show ?thesis
    by (auto simp: mw_next_def holds_inv_def step3Admit_def mw_simps split: option.splits prod.splits write_refusal.splits)
next
  case AtLock
  with assms show ?thesis by (auto simp: mw_next_def holds_inv_def step_lock_def mw_simps split: prod.splits bool.splits)
next
  case AtSlot
  with assms show ?thesis by (auto simp: mw_next_def holds_inv_def step_slot_def mw_simps split: if_splits)
next
  case AtBind
  with assms show ?thesis by (auto simp: mw_next_def holds_inv_def step_bind_def mw_simps split: option.splits if_splits)
next
  case AtUnlock
  with assms show ?thesis by (auto simp: mw_next_def holds_inv_def step_unlock_def mw_simps split: option.splits)
next
  case AtRelease
  with assms show ?thesis by (auto simp: mw_next_def holds_inv_def step_release_def mw_simps split: if_splits)
next
  case AtClose
  with assms show ?thesis by (auto simp: mw_next_def holds_inv_def mw_simps)
next
  case AtFreeSlot
  with assms show ?thesis by (auto simp: mw_next_def holds_inv_def mw_simps)
qed (use assms(2) in simp_all)

lemma holds_next:
  assumes "holds_inv r" "mw_next cfg a sh r = (sh', r')"
  shows "holds_inv r' \<and> w_req r' = w_req r"
  using holds_shared [OF assms(1) _ assms(2)] holds_local [OF assms(1)] local_frame [OF _ assms(2)] frame_def by blast

end
