(* ===== verification/Holders.thy ===== *)
theory Holders
  imports MachineLimits
begin

text \<open>
  Who holds a shared resource: counting the requests that do, and what the budget of a client counts. The worlds of the
  write pipeline and of the bearer path both rest on these lemmas.
\<close>

subsection \<open>Counting holders\<close>

definition holders :: "('r \<Rightarrow> bool) \<Rightarrow> 'r list \<Rightarrow> nat" where
  "holders P rs = length (filter P rs)"

lemma holders_update:
  "i < length rs \<Longrightarrow> holders P (rs[i := r']) + of_bool (P (rs ! i)) = holders P rs + of_bool (P r')"
proof (induction rs arbitrary: i)
  case (Cons r rs)
  then show ?case by (cases i) (auto simp: holders_def)
qed simp

lemma holders_arrive: "\<not> P r \<Longrightarrow> holders P (rs @ [r]) = holders P rs"
  by (simp add: holders_def)

lemma holders_pos: "i < length rs \<Longrightarrow> P (rs ! i) \<Longrightarrow> 0 < holders P rs"
  by (auto simp: holders_def filter_empty_conv)

subsection \<open>The requests in flight of a client\<close>

definition cb_inflight :: "client_budget \<Rightarrow> string \<Rightarrow> int" where
  "cb_inflight b c = (case cb_state b c of None \<Rightarrow> 0 | Some st \<Rightarrow> cs_inflight st)"

lemma cb_inflight_put [simp]: "cb_inflight (put_state b k st) c = (if c = k then cs_inflight st else cb_inflight b c)"
  by (simp add: cb_inflight_def put_state_def)

lemma put_state_rates [simp]: "cb_rps (put_state b k st) = cb_rps b" "cb_conc (put_state b k st) = cb_conc b"
  by (simp_all add: put_state_def)

lemma inflight_state [simp]: "cs_inflight (client_state_of b now c) = cb_inflight b c"
  by (simp add: client_state_of_def cb_inflight_def split: option.split)

lemma inflight_refill [simp]: "cs_inflight (refill b now st) = cs_inflight st"
  by (simp add: refill_def Let_def)

lemma cb_acquire_inflight:
  assumes "cb_acquire b now c = (b', res)"
  shows "cb_rps b' = cb_rps b \<and> cb_conc b' = cb_conc b \<and>
    cb_inflight b' c' = cb_inflight b c' + of_bool (res = None \<and> c' = c \<and> \<not> cb_off b) \<and>
    (res = None \<longrightarrow> 0 < cb_conc b \<longrightarrow> cb_inflight b c < cb_conc b)"
proof -
  consider "cb_off b" | "\<not> cb_off b" "c \<notin> set (cb_allowed b)"
    | "\<not> cb_off b" "c \<in> set (cb_allowed b)" "0 < cb_conc b" "cb_conc b \<le> cb_inflight b c"
    | "\<not> cb_off b" "c \<in> set (cb_allowed b)" "0 < cb_conc b \<Longrightarrow> cb_inflight b c < cb_conc b" by fastforce
  then show ?thesis
  proof cases
    case 1
    with assms show ?thesis by (auto simp: cb_acquire_def cb_off_def)
  next
    case 2
    with assms have "b' = b" "res = Some 1" by (simp_all add: cb_acquire_def)
    then show ?thesis by simp
  next
    case 3
    with assms have "b' = put_state b c (client_state_of b now c)" "res = Some 1" by (simp_all add: cb_acquire_def Let_def)
    then show ?thesis by simp
  next
    case 4
    then have free: "\<not> (0 < cb_conc b \<and> cb_conc b \<le> cs_inflight (client_state_of b now c))" by auto
    show ?thesis
    proof (cases "0 < cb_rps b \<and> cs_tokens (refill b now (client_state_of b now c)) < 1")
      case True
      with 4 free assms have "b' = put_state b c (refill b now (client_state_of b now c))" "res \<noteq> None"
        by (auto simp: cb_acquire_def Let_def)
      then show ?thesis by auto
    next
      case False
      with 4(1,2) free assms have "res = None" "\<exists>st. b' = put_state b c st \<and> cs_inflight st = cb_inflight b c + 1"
        by (auto simp: cb_acquire_def Let_def split: if_splits)
      then show ?thesis using 4 by auto
    qed
  qed
qed

lemma rps_not_off: "0 < cb_rps b \<Longrightarrow> \<not> cb_off b"
  by (simp add: cb_off_def)

lemma cb_off_release [simp]: "cb_off (cb_release b c) = cb_off b"
  by (cases "cb_state b c") (simp_all add: cb_release_def, simp add: cb_off_def)

lemma cb_release_inflight:
  assumes "\<not> cb_off b" "0 < cb_inflight b c"
  shows "cb_rps (cb_release b c) = cb_rps b \<and> cb_conc (cb_release b c) = cb_conc b \<and>
    cb_inflight (cb_release b c) c' = cb_inflight b c' - of_bool (c' = c)"
proof (cases "cb_state b c")
  case None
  with assms(2) show ?thesis by (simp add: cb_inflight_def)
next
  case (Some st)
  then have "cs_inflight st = cb_inflight b c" by (simp add: cb_inflight_def)
  with Some assms(1) show ?thesis by (simp add: cb_release_def)
qed

end
