(* ===== verification/WriteWorld.thy ===== *)
theory WriteWorld
  imports WriteBounds Holders
begin

text \<open>
  The worlds of the machine write pipeline: the invariant that ties what the shared state counts to what the
  requests hold, and the properties of every reachable world.
\<close>

subsection \<open>The limiters\<close>

definition wl_count :: "write_limiter option \<Rightarrow> nat" where
  "wl_count lo = (case lo of None \<Rightarrow> 0 | Some l \<Rightarrow> wl_used l)"

definition in_flight :: "write_limiter option \<Rightarrow> string \<Rightarrow> int" where
  "in_flight lo c = (case lo of None \<Rightarrow> 0 | Some l \<Rightarrow> cb_inflight (wl_budget l) c)"

definition limiter_ok :: "write_limiter option \<Rightarrow> bool" where
  "limiter_ok lo \<longleftrightarrow> (\<forall>l. lo = Some l \<longrightarrow> 0 < cb_rps (wl_budget l) \<and> cb_conc (wl_budget l) = 1 \<and>
     wl_global l \<le> 64 \<and> wl_used l \<le> wl_global l) \<and> (\<forall>c. 0 \<le> in_flight lo c \<and> in_flight lo c \<le> 1)"

lemma in_flight_simps [simp]: "in_flight None c = 0" "in_flight (Some l) c = cb_inflight (wl_budget l) c"
  by (simp_all add: in_flight_def)

lemma wl_new: "limiter_ok (newMachineWriteLimiter rps burst global clients) \<and>
    wl_count (newMachineWriteLimiter rps burst global clients) = 0 \<and>
    in_flight (newMachineWriteLimiter rps burst global clients) c = 0"
  by (simp add: limiter_ok_def newMachineWriteLimiter_def newClientBudget_def wl_count_def cb_inflight_def nat_le_iff)

lemma limiter_ok_Some [simp]: "limiter_ok (Some l) \<longleftrightarrow> 0 < cb_rps (wl_budget l) \<and> cb_conc (wl_budget l) = 1 \<and>
     wl_global l \<le> 64 \<and> wl_used l \<le> wl_global l \<and> (\<forall>c. 0 \<le> cb_inflight (wl_budget l) c \<and> cb_inflight (wl_budget l) c \<le> 1)"
  by (auto simp: limiter_ok_def)

lemma wl_acquire_ok:
  assumes "wl_acquire lo now d c = (lo', res)" "limiter_ok lo"
  shows "limiter_ok lo' \<and> wl_count lo' = wl_count lo + of_bool (res = None) \<and>
    in_flight lo' c' = in_flight lo c' + of_bool (res = None \<and> c' = c)"
proof (cases "lo = None \<or> d")
  case True
  with assms(1) have "lo' = lo" "res \<noteq> None" by (cases lo; cases d; auto simp: wl_acquire_def)+
  with assms(2) show ?thesis by simp
next
  case False
  then obtain l where l: "lo = Some l" and d: "\<not> d" by (cases lo) auto
  obtain b r where a: "cb_acquire (wl_budget l) now c = (b, r)" by fastforce
  have rates: "0 < cb_rps (wl_budget l)" "cb_conc (wl_budget l) = 1" "wl_used l \<le> wl_global l" "wl_global l \<le> 64"
    and le: "0 \<le> cb_inflight (wl_budget l) x" "cb_inflight (wl_budget l) x \<le> 1" for x
    using assms(2) l by auto
  have A: "cb_rps b = cb_rps (wl_budget l)" "cb_conc b = 1" "r = None \<Longrightarrow> cb_inflight (wl_budget l) c < 1"
    and B: "cb_inflight b x = cb_inflight (wl_budget l) x + of_bool (r = None \<and> x = c)" for x
    using cb_acquire_inflight [OF a] rps_not_off [OF rates(1)] rates(1,2) by auto
  show ?thesis
  proof (cases r)
    case (Some n)
    with assms(1) l d a have "lo' = Some (l\<lparr> wl_budget := b \<rparr>)" "res = Some (WriteRate n)" by (simp_all add: wl_acquire_def)
    with rates le A(1,2) B Some l show ?thesis by (simp add: wl_count_def)
  next
    case None
    note A3 = A(3) [OF None]
    have le': "cb_inflight b x \<le> 1" "0 \<le> cb_inflight b x" for x using le [of x] B [of x] A3 by (auto simp: of_bool_def)
    show ?thesis
    proof (cases "wl_used l < wl_global l")
      case True
      with None assms(1) l d a have "lo' = Some (l\<lparr> wl_budget := b, wl_used := wl_used l + 1 \<rparr>)" "res = None"
        by (auto simp: wl_acquire_def)
      with rates A(1,2) B None l True le' show ?thesis by (simp add: wl_count_def)
    next
      case False
      with None assms(1) l d a have R: "lo' = Some (l\<lparr> wl_budget := cb_release b c \<rparr>)" "res = Some WriteCapacity"
        by (auto simp: wl_acquire_def)
      have "0 < cb_inflight b c" using le(1) [of c] B [of c] None by simp
      then have C: "cb_rps (cb_release b c) = cb_rps b" "cb_conc (cb_release b c) = cb_conc b"
        "cb_inflight (cb_release b c) x = cb_inflight (wl_budget l) x" for x
        using cb_release_inflight [of b c x] rps_not_off [of b] A(1) rates(1) B [of x] None by auto
      with R rates A(1,2) l le show ?thesis by (simp add: wl_count_def)
    qed
  qed
qed

lemma wl_release_ok:
  assumes "limiter_ok lo" "0 < wl_count lo" "0 < in_flight lo c"
  shows "limiter_ok (wl_release lo c) \<and> wl_count (wl_release lo c) + 1 = wl_count lo \<and>
    in_flight (wl_release lo c) c' = in_flight lo c' - of_bool (c' = c)"
proof (cases lo)
  case None
  with assms(3) show ?thesis by simp
next
  case (Some l)
  with assms have pos: "0 < cb_rps (wl_budget l)" "0 < cb_inflight (wl_budget l) c" "0 < wl_used l"
    by (simp_all add: wl_count_def)
  have "0 \<le> cb_inflight (cb_release (wl_budget l) c) x \<and> cb_inflight (cb_release (wl_budget l) c) x \<le> 1" for x
  proof -
    have "0 \<le> cb_inflight (wl_budget l) x" "cb_inflight (wl_budget l) x \<le> 1" using assms(1) [unfolded Some limiter_ok_Some] by blast+
    then show ?thesis using pos(2) cb_release_inflight [OF rps_not_off [OF pos(1)] pos(2), of x] by (cases "x = c") simp_all
  qed
  moreover have "wl_used l - Suc 0 \<le> wl_global l" using assms(1) [unfolded Some limiter_ok_Some] by linarith
  ultimately have "limiter_ok (wl_release lo c)"
    using assms(1) Some cb_release_inflight [OF rps_not_off [OF pos(1)] pos(2)] by (simp add: wl_release_def)
  with Some pos cb_release_inflight [OF rps_not_off [OF pos(1)] pos(2), of c'] show ?thesis by (simp add: wl_release_def wl_count_def)
qed

definition uuid_locks :: "cred_limiter option \<Rightarrow> string \<Rightarrow> nat" where
  "uuid_locks lo u = (case lo of None \<Rightarrow> 0 | Some l \<Rightarrow> count_list (cl_active l) u)"

lemma cl_spend_locks: "uuid_locks (fst (cl_spend lo now)) u = uuid_locks lo u"
  by (simp add: cl_spend_def uuid_locks_def split: option.split prod.split)

lemma cl_lock_locks:
  assumes "cl_lock lo u = (lo', ok)"
  shows "uuid_locks lo' v = uuid_locks lo v + of_bool (ok \<and> v = u)" "ok \<Longrightarrow> uuid_locks lo u = 0"
  using assms by (auto simp: cl_lock_def uuid_locks_def split: option.splits if_splits)

lemma count_list_removeAll: "count_list (removeAll u xs) v = (if v = u then 0 else count_list xs v)"
  by (induction xs) auto

lemma cl_unlock_locks: "uuid_locks (cl_unlock lo u) v = (if v = u then 0 else uuid_locks lo v)"
  by (simp add: cl_unlock_def uuid_locks_def count_list_removeAll split: option.split)

subsection \<open>One step of one request\<close>

text \<open>What the shared state counts and what the request holds change together.\<close>

definition balanced :: "shared \<Rightarrow> wreq \<Rightarrow> shared \<Rightarrow> wreq \<Rightarrow> bool" where
  "balanced sh r sh' r' \<longleftrightarrow>
     sh_slots sh' + of_bool (w_slot r) = sh_slots sh + of_bool (w_slot r') \<and>
     wl_count (sh_limiter sh') + of_bool (w_admitted r) = wl_count (sh_limiter sh) + of_bool (w_admitted r') \<and>
     (\<forall>c. in_flight (sh_limiter sh') c + of_bool (w_admitted r \<and> rq_client (w_req r) = c) =
          in_flight (sh_limiter sh) c + of_bool (w_admitted r' \<and> rq_client (w_req r') = c)) \<and>
     (\<forall>u. uuid_locks (sh_cred sh') u + of_bool (w_uuid r = Some u) = uuid_locks (sh_cred sh) u + of_bool (w_uuid r' = Some u))"

definition guarded :: "pipe_config \<Rightarrow> shared \<Rightarrow> bool" where
  "guarded cfg sh \<longleftrightarrow> limiter_ok (sh_limiter sh) \<and> sh_slots sh \<le> pc_exec_slots cfg \<and> (\<forall>u. uuid_locks (sh_cred sh) u \<le> 1)"

text \<open>What the request holds is counted.\<close>

definition covered :: "shared \<Rightarrow> wreq \<Rightarrow> bool" where
  "covered sh r \<longleftrightarrow> (w_slot r \<longrightarrow> 0 < sh_slots sh) \<and>
     (w_admitted r \<longrightarrow> 0 < wl_count (sh_limiter sh) \<and> 0 < in_flight (sh_limiter sh) (rq_client (w_req r))) \<and>
     (\<forall>u. w_uuid r = Some u \<longrightarrow> uuid_locks (sh_cred sh) u = 1)"

lemma balanced_frame: "frame r r' \<Longrightarrow> same_resources sh sh' \<Longrightarrow> guarded cfg sh \<Longrightarrow> balanced sh r sh' r' \<and> guarded cfg sh'"
  by (simp add: frame_def same_resources_def balanced_def guarded_def)

lemma balanced_admit:
  assumes "step3Admit a sh r = (sh', r')" "guarded cfg sh" "\<not> w_admitted r"
  shows "balanced sh r sh' r' \<and> guarded cfg sh'"
proof -
  obtain l res where a: "wl_acquire (sh_limiter sh) (an_now a) (an_ctx_done a) (rq_client (w_req r)) = (l, res)" by fastforce
  have ok: "limiter_ok (sh_limiter sh)" using assms(2) by (simp add: guarded_def)
  note W = wl_acquire_ok [OF a ok]
  have sh: "sh' = sh\<lparr> sh_limiter := l \<rparr>" using assms(1) a
    by (auto simp: step3Admit_def split: option.splits write_refusal.splits)
  have r: "w_slot r' = w_slot r" "w_uuid r' = w_uuid r" "w_req r' = w_req r" "w_admitted r' = (res = None)"
    using assms(1,3) a by (auto simp: step3Admit_def mw_simps split: option.splits write_refusal.splits)
  show ?thesis using W assms(2,3) by (simp add: balanced_def guarded_def sh r)
qed

lemma balanced_release:
  assumes "step_release sh r = (sh', r')" "guarded cfg sh" "covered sh r"
  shows "balanced sh r sh' r' \<and> guarded cfg sh'"
proof (cases "w_admitted r")
  case True
  then have W: "limiter_ok (wl_release (sh_limiter sh) (rq_client (w_req r)))"
    "wl_count (wl_release (sh_limiter sh) (rq_client (w_req r))) + 1 = wl_count (sh_limiter sh)"
    "in_flight (wl_release (sh_limiter sh) (rq_client (w_req r))) c = in_flight (sh_limiter sh) c - of_bool (c = rq_client (w_req r))" for c
    using wl_release_ok [of "sh_limiter sh" "rq_client (w_req r)"] assms(2,3) by (auto simp: guarded_def covered_def)
  show ?thesis using assms(1,2) True W by (auto simp: step_release_def mw_simps balanced_def guarded_def)
next
  case False
  with assms show ?thesis by (auto simp: step_release_def mw_simps balanced_def guarded_def)
qed

lemma balanced_execute:
  assumes "step_execute cfg a sh r = (sh', r')" "guarded cfg sh"
  shows "balanced sh r sh' r' \<and> guarded cfg sh'"
proof -
  have f: "frame r r'" "sh_limiter sh' = sh_limiter sh" "sh_slots sh' = sh_slots sh"
    "uuid_locks (sh_cred sh') u = uuid_locks (sh_cred sh) u" for u
    using frame_execute [OF assms(1)] cl_spend_locks [of "sh_cred sh" "an_now a" u] by auto
  with assms(2) show ?thesis by (simp add: balanced_def guarded_def frame_def)
qed

lemma balanced_lock:
  assumes "step_lock sh r = (sh', r')" "guarded cfg sh" "w_uuid r = None"
  shows "balanced sh r sh' r' \<and> guarded cfg sh'"
proof -
  obtain l ok where a: "cl_lock (sh_cred sh) (w_seen r) = (l, ok)" by fastforce
  note L = cl_lock_locks [OF a]
  have sh: "sh' = sh\<lparr> sh_cred := l \<rparr>" using assms(1) a by (auto simp: step_lock_def split: bool.splits)
  have r: "w_slot r' = w_slot r" "w_admitted r' = w_admitted r" "w_req r' = w_req r"
    "w_uuid r' = (if ok then Some (w_seen r) else None)"
    using assms(1,3) a by (auto simp: step_lock_def mw_simps split: bool.splits)
  show ?thesis using L assms(2,3) by (auto simp: balanced_def guarded_def sh r)
qed

lemma balanced_unlock:
  assumes "step_unlock sh r = (sh', r')" "guarded cfg sh" "covered sh r"
  shows "balanced sh r sh' r' \<and> guarded cfg sh'"
  using assms by (cases "w_uuid r") (auto simp: step_unlock_def mw_simps balanced_def guarded_def covered_def cl_unlock_locks)

lemma balanced_slot:
  assumes "step_slot cfg sh r = (sh', r')" "guarded cfg sh" "\<not> w_slot r"
  shows "balanced sh r sh' r' \<and> guarded cfg sh'"
  using assms by (auto simp: step_slot_def mw_simps balanced_def guarded_def split: if_splits)

lemma balanced_bind: "guarded cfg sh \<Longrightarrow> balanced sh r sh (step_bind cfg a r) \<and> guarded cfg sh"
  by (auto simp: step_bind_def mw_simps balanced_def split: option.splits)

end
