(* ===== verification/WriteProps.thy ===== *)
theory WriteProps
  imports WriteWorld
begin

text \<open>
  The reachable worlds of the machine write pipeline: the invariant every step keeps and the properties that
  rest on it, with a concrete run of a password change that witnesses them.
\<close>

subsection \<open>The invariant of a reachable world\<close>

lemma balanced_next:
  assumes "mw_next cfg a sh r = (sh', r')" "holds_inv r" "guarded cfg sh" "covered sh r"
  shows "balanced sh r sh' r' \<and> guarded cfg sh'"
proof (cases "local_stage (w_stage r)")
  case True
  with local_frame [OF True assms(1)] assms(3) balanced_frame show ?thesis by blast
next
  case False
  then show ?thesis
  proof (cases "w_stage r")
    case AtAdmit
    with assms balanced_admit [of a sh r sh' r' cfg] show ?thesis by (simp add: mw_next_def holds_inv_def)
  next
    case AtExecute
    with assms balanced_execute [of cfg a sh r sh' r'] show ?thesis by (simp add: mw_next_def)
  next
    case AtLock
    with assms balanced_lock [of sh r sh' r' cfg] show ?thesis by (simp add: mw_next_def holds_inv_def)
  next
    case AtSlot
    with assms balanced_slot [of cfg sh r sh' r'] show ?thesis by (simp add: mw_next_def holds_inv_def)
  next
    case AtBind
    with assms balanced_bind [of cfg sh r a] show ?thesis by (auto simp: mw_next_def)
  next
    case AtUnlock
    with assms balanced_unlock [of sh r sh' r' cfg] show ?thesis by (simp add: mw_next_def)
  next
    case AtRelease
    with assms balanced_release [of sh r sh' r' cfg] show ?thesis by (simp add: mw_next_def)
  next
    case AtClose
    with assms show ?thesis by (auto simp: mw_next_def goto_def did_def balanced_def)
  next
    case AtFreeSlot
    with assms show ?thesis by (auto simp: mw_next_def goto_def did_def balanced_def guarded_def covered_def holds_inv_def)
  qed simp_all
qed

definition world_inv :: "pipe_config \<Rightarrow> mw_world \<Rightarrow> bool" where
  "world_inv cfg w \<longleftrightarrow>
     (let sh = mw_shared w; rs = mw_reqs w
      in guarded cfg sh \<and> (\<forall>r \<in> set rs. holds_inv r \<and> auth_inv cfg r) \<and>
         sh_slots sh = holders w_slot rs \<and> wl_count (sh_limiter sh) = holders w_admitted rs \<and>
         (\<forall>c. in_flight (sh_limiter sh) c = int (holders (\<lambda>r. w_admitted r \<and> rq_client (w_req r) = c) rs)) \<and>
         (\<forall>u. uuid_locks (sh_cred sh) u = holders (\<lambda>r. w_uuid r = Some u) rs))"

lemma world_covered:
  assumes "world_inv cfg w" "i < length (mw_reqs w)"
  shows "covered (mw_shared w) (mw_reqs w ! i)"
proof -
  let ?rs = "mw_reqs w"
  have p: "P (?rs ! i) \<Longrightarrow> 0 < holders P ?rs" for P using holders_pos [OF assms(2)] by blast
  have "uuid_locks (sh_cred (mw_shared w)) u = 1" if "w_uuid (?rs ! i) = Some u" for u
  proof -
    have "uuid_locks (sh_cred (mw_shared w)) u = holders (\<lambda>r. w_uuid r = Some u) ?rs" "uuid_locks (sh_cred (mw_shared w)) u \<le> 1"
      using assms(1) unfolding world_inv_def guarded_def Let_def by blast+
    with p [of "\<lambda>r. w_uuid r = Some u"] that show ?thesis by linarith
  qed
  with p [of w_slot] p [of w_admitted] p [of "\<lambda>r. w_admitted r \<and> rq_client (w_req r) = rq_client (w_req (?rs ! i))"] assms(1)
  show ?thesis by (simp add: covered_def world_inv_def Let_def)
qed

lemma world_step:
  assumes w: "world_inv cfg w" and i: "i < length (mw_reqs w)"
    and n: "mw_next cfg a (mw_shared w) (mw_reqs w ! i) = (sh, r)"
  shows "world_inv cfg (w\<lparr> mw_shared := sh, mw_reqs := (mw_reqs w)[i := r] \<rparr>)"
proof -
  let ?rs = "mw_reqs w"
  have mem: "?rs ! i \<in> set ?rs" using i by simp
  have inv: "holds_inv (?rs ! i)" "auth_inv cfg (?rs ! i)" "guarded cfg (mw_shared w)"
    using w mem by (auto simp: world_inv_def Let_def)
  have b: "balanced (mw_shared w) (?rs ! i) sh r" "guarded cfg sh"
    using balanced_next [OF n inv(1,3) world_covered [OF w i]] by auto
  have r: "holds_inv r" "auth_inv cfg r"
    using holds_next [OF inv(1) n] auth_next [OF inv(2), of a "mw_shared w"] n by auto
  have all: "\<forall>x \<in> set (?rs[i := r]). holds_inv x \<and> auth_inv cfg x"
    using w r set_update_subset_insert [of ?rs i r] by (auto simp: world_inv_def Let_def)
  have c: "holders P (?rs[i := r]) + of_bool (P (?rs ! i)) = holders P ?rs + of_bool (P r)" for P
    using holders_update [OF i] by blast
  have S: "sh_slots sh = holders w_slot (?rs[i := r])"
    using b(1) w c [of w_slot] by (simp add: balanced_def world_inv_def Let_def)
  have A: "wl_count (sh_limiter sh) = holders w_admitted (?rs[i := r])"
    using b(1) w c [of w_admitted] by (simp add: balanced_def world_inv_def Let_def)
  have F: "in_flight (sh_limiter sh) k = int (holders (\<lambda>x. w_admitted x \<and> rq_client (w_req x) = k) (?rs[i := r]))" for k
  proof -
    have "in_flight (sh_limiter sh) k + of_bool (w_admitted (?rs ! i) \<and> rq_client (w_req (?rs ! i)) = k) =
        int (holders (\<lambda>x. w_admitted x \<and> rq_client (w_req x) = k) ?rs) + of_bool (w_admitted r \<and> rq_client (w_req r) = k)"
      using b(1) w by (simp add: balanced_def world_inv_def Let_def)
    with arg_cong [OF c [of "\<lambda>x. w_admitted x \<and> rq_client (w_req x) = k"], of int] show ?thesis by simp
  qed
  have U: "uuid_locks (sh_cred sh) u = holders (\<lambda>x. w_uuid x = Some u) (?rs[i := r])" for u
  proof -
    have "uuid_locks (sh_cred sh) u + of_bool (w_uuid (?rs ! i) = Some u) =
        holders (\<lambda>x. w_uuid x = Some u) ?rs + of_bool (w_uuid r = Some u)"
      using b(1) w by (simp add: balanced_def world_inv_def Let_def)
    with c [of "\<lambda>x. w_uuid x = Some u"] show ?thesis by simp
  qed
  show ?thesis using b(2) all S A F U by (simp add: world_inv_def Let_def)
qed

lemma new_wreq_inv: "holds_inv (new_wreq q) \<and> auth_inv cfg (new_wreq q)"
  by (simp add: holds_inv_def auth_inv_def new_wreq_def bind_ok_def)

lemma reachable_inv: "mw_reachable cfg ops w \<Longrightarrow> world_inv cfg w"
proof (induction rule: mw_reachable.induct)
  case (mw_start rps burst global clients wlim rate cred st)
  then show ?case
    using wl_new [of rps burst global clients]
    by (auto simp: world_inv_def guarded_def holders_def uuid_locks_def newCredLimiter_def split: option.split if_splits)
next
  case (mw_arrive w k q)
  then show ?case
    using new_wreq_inv [of q cfg] by (auto simp: world_inv_def Let_def holders_arrive new_wreq_def)
next
  case (mw_step w i a sh r)
  then show ?case using world_step by blast
qed

subsection \<open>The order of a password change\<close>

definition checks_of :: "write_dn list \<Rightarrow> mw_event list" where
  "checks_of ds = map (\<lambda>d. EvCheck (wd_raw d) (wd_class d)) (filter (\<lambda>d. wd_class d \<noteq> '''') ds)"

definition pw_pre :: "write_dn list \<Rightarrow> mw_event list" where
  "pw_pre ds = [EvAdmit, EvBegin] @ checks_of ds"

text \<open>What precedes the Password Modify, for the entry with UUID \<open>u\<close>, bound as \<open>d\<close>.\<close>

definition pw_steps :: "string \<Rightarrow> string \<Rightarrow> mw_event list" where
  "pw_steps u d = [EvPrivileged, EvPending u, EvLock u, EvPrivileged, EvPending u, EvPremise, EvSlot, EvBind d]"

definition pw_done :: "bool \<Rightarrow> mw_event list \<Rightarrow> write_dn list \<Rightarrow> bool" where
  "pw_done pw t ds \<longleftrightarrow> (EvPassword \<in> set t \<longrightarrow>
     pw \<and> (\<exists>u d rest. t = pw_pre ds @ pw_steps u d @ EvPassword # rest \<and> EvPassword \<notin> set rest))"

fun pw_at :: "stage \<Rightarrow> bool \<Rightarrow> mw_event list \<Rightarrow> write_dn list \<Rightarrow> string \<Rightarrow> string option \<Rightarrow> bool" where
  "pw_at AtScope pw t ds s u \<longleftrightarrow> t = []"
| "pw_at AtAdmit pw t ds s u \<longleftrightarrow> t = []"
| "pw_at AtParse pw t ds s u \<longleftrightarrow> t = [EvAdmit]"
| "pw_at AtDenylist pw t ds s u \<longleftrightarrow> t = [EvAdmit]"
| "pw_at AtIfMatch pw t ds s u \<longleftrightarrow> t = [EvAdmit]"
| "pw_at AtIdempotency pw t ds s u \<longleftrightarrow> t = [EvAdmit]"
| "pw_at AtExecute pw t ds s u \<longleftrightarrow> t = [EvAdmit, EvBegin]"
| "pw_at (AtCheck i) pw t ds s u \<longleftrightarrow> t = pw_pre (take i ds)"
| "pw_at AtPrivileged pw t ds s u \<longleftrightarrow> t = pw_pre ds"
| "pw_at AtPending pw t ds s u \<longleftrightarrow> pw \<and> t = pw_pre ds @ [EvPrivileged]"
| "pw_at AtLock pw t ds s u \<longleftrightarrow> pw \<and> t = pw_pre ds @ [EvPrivileged, EvPending s]"
| "pw_at AtPrivileged2 pw t ds s u \<longleftrightarrow> pw \<and> u = Some s \<and> t = pw_pre ds @ [EvPrivileged, EvPending s, EvLock s]"
| "pw_at AtPending2 pw t ds s u \<longleftrightarrow> pw \<and> u = Some s \<and> t = pw_pre ds @ [EvPrivileged, EvPending s, EvLock s, EvPrivileged]"
| "pw_at AtPremise pw t ds s u \<longleftrightarrow> pw \<and> u = Some s \<and>
     t = pw_pre ds @ [EvPrivileged, EvPending s, EvLock s, EvPrivileged, EvPending s]"
| "pw_at AtSlot pw t ds s u \<longleftrightarrow> (if pw then u = Some s \<and>
     t = pw_pre ds @ [EvPrivileged, EvPending s, EvLock s, EvPrivileged, EvPending s, EvPremise] else EvPassword \<notin> set t)"
| "pw_at AtBind pw t ds s u \<longleftrightarrow> (if pw then u = Some s \<and>
     t = pw_pre ds @ [EvPrivileged, EvPending s, EvLock s, EvPrivileged, EvPending s, EvPremise, EvSlot] else EvPassword \<notin> set t)"
| "pw_at AtPassword pw t ds s u \<longleftrightarrow> pw \<and> u = Some s \<and> (\<exists>d. t = pw_pre ds @ pw_steps s d)"
| "pw_at st pw t ds s u \<longleftrightarrow> pw_done pw t ds"

definition pw_inv :: "wreq \<Rightarrow> bool" where
  "pw_inv r \<longleftrightarrow> pw_at (w_stage r) (mo_id (rq_op (w_req r)) = ''setPassword'') (w_trace r) (w_dns r) (w_seen r) (w_uuid r)"

lemma pw_pre_clean [simp]: "EvPassword \<notin> set (pw_pre ds)"
  by (auto simp: pw_pre_def checks_of_def)

lemma pw_pre_nil [simp]: "pw_pre [] = [EvAdmit, EvBegin]"
  by (simp add: pw_pre_def checks_of_def)

lemma pw_pre_check: "i < length ds \<Longrightarrow>
    pw_pre (take (Suc i) ds) = pw_pre (take i ds) @ (if wd_class (ds ! i) = '''' then [] else [EvCheck (wd_raw (ds ! i)) (wd_class (ds ! i))])"
  by (simp add: pw_pre_def checks_of_def take_Suc_conv_app_nth)

lemma pw_done_clean: "EvPassword \<notin> set t \<Longrightarrow> pw_done pw t ds"
  by (simp add: pw_done_def)

lemma pw_done_other: "e \<noteq> EvPassword \<Longrightarrow> pw_done pw t ds \<Longrightarrow> pw_done pw (t @ [e]) ds"
proof -
  assume e: "e \<noteq> EvPassword" and d: "pw_done pw t ds"
  show ?thesis
  proof (cases "EvPassword \<in> set t")
    case True
    with d obtain u b rest where "pw" "t = pw_pre ds @ pw_steps u b @ EvPassword # rest" "EvPassword \<notin> set rest"
      by (auto simp: pw_done_def)
    with e have "t @ [e] = pw_pre ds @ pw_steps u b @ EvPassword # (rest @ [e])" "EvPassword \<notin> set (rest @ [e])" by auto
    with \<open>pw\<close> show ?thesis unfolding pw_done_def by blast
  qed (use e in \<open>simp add: pw_done_def\<close>)
qed

lemma pw_done_now: "pw_done True (pw_pre ds @ pw_steps u d @ [EvPassword]) ds"
  unfolding pw_done_def by (intro impI conjI exI [of _ u] exI [of _ d] exI [of _ "[]"]) simp_all

lemma identityRefusal_fields [simp]:
  "w_stage (identityRefusal e r) = AtUnlock" "w_trace (identityRefusal e r) = w_trace r" "w_dns (identityRefusal e r) = w_dns r"
  "w_req (identityRefusal e r) = w_req r"
  by (simp_all add: identityRefusal_def mw_simps)

lemma pw_refusal: "EvPassword \<notin> set (w_trace r) \<Longrightarrow> pw_inv (identityRefusal e r)"
  by (simp add: pw_inv_def pw_done_clean)

lemma pw_early:
  assumes "pw_inv r" "early (w_stage r)"
  shows "pw_inv (snd (mw_next cfg a sh r))"
proof (cases "w_stage r")
  case AtScope
  with assms show ?thesis by (auto simp: pw_inv_def mw_next_def step2Scope_def mw_simps Let_def pw_done_def)
next
  case AtAdmit
  with assms show ?thesis
    by (auto simp: pw_inv_def mw_next_def step3Admit_def mw_simps pw_done_def split: prod.splits option.splits write_refusal.splits)
next
  case AtParse
  with assms show ?thesis by (auto simp: pw_inv_def mw_next_def step4Parse_def mw_simps Let_def pw_done_def split: option.splits)
next
  case AtDenylist
  with assms show ?thesis by (auto simp: pw_inv_def mw_next_def step5Denylist_def mw_simps Let_def pw_done_def)
next
  case AtIfMatch
  with assms show ?thesis
    by (auto simp: pw_inv_def mw_next_def step6IfMatch_def mw_simps Let_def pw_done_def split: sum.splits if_match_error.splits)
next
  case AtIdempotency
  with assms show ?thesis
    by (auto simp: pw_inv_def mw_next_def step7Idempotency_def idempotent_def mw_simps Let_def pw_done_def
        split: option.splits prod.splits store_decision.splits)
qed (use assms in simp_all)

lemma pw_execute: "pw_inv r \<Longrightarrow> w_stage r = AtExecute \<Longrightarrow> pw_inv (snd (step_execute cfg a sh r))"
  by (auto simp: pw_inv_def step_execute_def mw_simps Let_def pw_done_clean split: option.splits prod.splits)

lemma pw_check:
  assumes "pw_inv r" "w_stage r = AtCheck i"
  shows "pw_inv (step_check a i r)"
proof (cases "length (w_dns r) \<le> i")
  case True
  with assms show ?thesis by (simp add: pw_inv_def step_check_def goto_def)
next
  case False
  with assms have t: "w_trace r = pw_pre (take i (w_dns r))" and i: "i < length (w_dns r)" by (simp_all add: pw_inv_def)
  show ?thesis
  proof (cases "wd_class (w_dns r ! i) = ''''")
    case True
    with False i t pw_pre_check [OF i] show ?thesis by (simp add: pw_inv_def step_check_def goto_def)
  next
    case c: False
    with i t pw_pre_check [OF i] show ?thesis
      by (cases "an_ident a") (simp_all add: pw_inv_def step_check_def goto_def did_def Let_def pw_done_clean)
  qed
qed

lemma pw_privileged: "pw_inv r \<Longrightarrow> w_stage r = AtPrivileged \<Longrightarrow>
    pw_inv (step_privileged a (if mo_id (rq_op (w_req r)) = ''setPassword'' then AtPending else AtSlot) r)"
  by (cases "an_ident a") (simp_all add: pw_inv_def step_privileged_def goto_def did_def pw_done_clean)

lemma pw_pending: "pw_inv r \<Longrightarrow> w_stage r = AtPending \<Longrightarrow> pw_inv (step_pending a r)"
  by (cases "an_pending a") (simp_all add: pw_inv_def step_pending_def goto_def did_def pw_done_clean)

lemma pw_lock: "pw_inv r \<Longrightarrow> w_stage r = AtLock \<Longrightarrow> pw_inv (snd (step_lock sh r))"
  by (auto simp: pw_inv_def step_lock_def mw_simps pw_done_clean split: prod.splits bool.splits)

lemma pw_privileged2: "pw_inv r \<Longrightarrow> w_stage r = AtPrivileged2 \<Longrightarrow> pw_inv (step_privileged a AtPending2 r)"
  by (cases "an_ident a") (simp_all add: pw_inv_def step_privileged_def goto_def did_def pw_done_clean)

lemma pw_pending2: "pw_inv r \<Longrightarrow> w_stage r = AtPending2 \<Longrightarrow> pw_inv (step_pending2 a r)"
  by (cases "an_pending a") (simp_all add: pw_inv_def step_pending2_def goto_def did_def pw_done_clean)

lemma pw_premise: "pw_inv r \<Longrightarrow> w_stage r = AtPremise \<Longrightarrow> pw_inv (step_premise a r)"
  by (simp add: pw_inv_def step_premise_def mw_simps pw_done_clean)

lemma pw_slot: "pw_inv r \<Longrightarrow> w_stage r = AtSlot \<Longrightarrow> pw_inv (snd (step_slot cfg sh r))"
  by (auto simp: pw_inv_def step_slot_def mw_simps pw_done_clean split: if_splits)

lemma pw_bind: "pw_inv r \<Longrightarrow> w_stage r = AtBind \<Longrightarrow> pw_inv (step_bind cfg a r)"
  by (auto simp: pw_inv_def step_bind_def mw_simps pw_done_clean pw_steps_def split: option.splits if_splits)

lemma pw_password:
  assumes "pw_inv r" "w_stage r = AtPassword"
  shows "pw_inv (step_password a r)"
proof -
  from assms obtain d where t: "mo_id (rq_op (w_req r)) = ''setPassword''" "w_trace r = pw_pre (w_dns r) @ pw_steps (w_seen r) d"
    by (auto simp: pw_inv_def)
  have "w_trace (step_password a r) = w_trace r @ [EvPassword]" "w_dns (step_password a r) = w_dns r"
    "w_req (step_password a r) = w_req r"
    using late_steps(10) [of r a] by (simp_all add: keeps_def)
  moreover have "w_stage (step_password a r) \<in> {AtClose, AtCleanup 0}" using frame_password [of r a] by blast
  ultimately show ?thesis using t pw_done_now [of "w_dns r" "w_seen r" d] by (auto simp: pw_inv_def)
qed

text \<open>After the Password Modify, and for the other operations from the handler on.\<close>

fun late :: "stage \<Rightarrow> bool" where
  "late AtHandler = True" | "late (AtCleanup k) = True" | "late AtClose = True" | "late AtFreeSlot = True"
| "late AtUnlock = True" | "late AtRecord = True" | "late AtRelease = True" | "late AtDone = True" | "late _ = False"

definition logs :: "wreq \<Rightarrow> wreq \<Rightarrow> bool" where
  "logs r r' \<longleftrightarrow> w_dns r' = w_dns r \<and> w_req r' = w_req r \<and> late (w_stage r') \<and>
     (w_trace r' = w_trace r \<or> (\<exists>e. e \<noteq> EvPassword \<and> w_trace r' = w_trace r @ [e]))"

lemma pw_late_at: "late st \<Longrightarrow> pw_at st pw t ds s u = pw_done pw t ds"
  by (cases st) simp_all

lemma pw_logs: "pw_inv r \<Longrightarrow> late (w_stage r) \<Longrightarrow> logs r r' \<Longrightarrow> pw_inv r'"
  using pw_done_other [of _ _ "w_trace r" "w_dns r"] by (auto simp: pw_inv_def logs_def pw_late_at)

lemma logs_handler: "logs r (step_handler a r)"
  by (simp add: logs_def step_handler_def mw_simps)

lemma logs_cleanup: "logs r (step_cleanup a k r)"
  by (simp add: logs_def step_cleanup_def mw_simps)

lemma logs_unlock: "logs r (snd (step_unlock sh r))"
  by (simp add: logs_def step_unlock_def mw_simps split: option.split)

lemma logs_record: "logs r (snd (step_record cfg a sh r))"
  by (auto simp: logs_def step_record_def mw_simps split: option.split prod.split)

lemma logs_release: "logs r (snd (step_release sh r))"
  by (simp add: logs_def step_release_def mw_simps)

lemma pw_late:
  assumes "pw_inv r" "late (w_stage r)"
  shows "pw_inv (snd (mw_next cfg a sh r))"
proof (cases "w_stage r")
  case AtHandler
  then show ?thesis using pw_logs [OF assms logs_handler] by (simp add: mw_next_def)
next
  case (AtCleanup k)
  then show ?thesis using pw_logs [OF assms logs_cleanup] by (simp add: mw_next_def)
next
  case AtClose
  then show ?thesis using pw_logs [OF assms] by (simp add: mw_next_def logs_def goto_def did_def)
next
  case AtFreeSlot
  then show ?thesis using pw_logs [OF assms] by (simp add: mw_next_def logs_def goto_def did_def)
next
  case AtUnlock
  then show ?thesis using pw_logs [OF assms logs_unlock] by (simp add: mw_next_def)
next
  case AtRecord
  then show ?thesis using pw_logs [OF assms logs_record] by (simp add: mw_next_def)
next
  case AtRelease
  then show ?thesis using pw_logs [OF assms logs_release] by (simp add: mw_next_def)
qed (use assms in \<open>simp_all add: mw_next_def\<close>)

lemma pw_next:
  assumes "pw_inv r"
  shows "pw_inv (snd (mw_next cfg a sh r))"
proof (cases "early (w_stage r) \<or> late (w_stage r)")
  case True
  with assms pw_early pw_late show ?thesis by blast
next
  case False
  show ?thesis
  proof (cases "w_stage r")
    case AtExecute
    then show ?thesis using pw_execute [OF assms] by (simp add: mw_next_def)
  next
    case (AtCheck i)
    then show ?thesis using pw_check [OF assms] by (simp add: mw_next_def)
  next
    case AtPrivileged
    then show ?thesis using pw_privileged [OF assms] by (simp add: mw_next_def)
  next
    case AtPending
    then show ?thesis using pw_pending [OF assms] by (simp add: mw_next_def)
  next
    case AtLock
    then show ?thesis using pw_lock [OF assms] by (simp add: mw_next_def)
  next
    case AtPrivileged2
    then show ?thesis using pw_privileged2 [OF assms] by (simp add: mw_next_def)
  next
    case AtPending2
    then show ?thesis using pw_pending2 [OF assms] by (simp add: mw_next_def)
  next
    case AtPremise
    then show ?thesis using pw_premise [OF assms] by (simp add: mw_next_def)
  next
    case AtSlot
    then show ?thesis using pw_slot [OF assms] by (simp add: mw_next_def)
  next
    case AtBind
    then show ?thesis using pw_bind [OF assms] by (simp add: mw_next_def)
  next
    case AtPassword
    then show ?thesis using pw_password [OF assms] by (simp add: mw_next_def)
  qed (use False in simp_all)
qed

subsection \<open>A concrete run\<close>

text \<open>\<open>mw_steps\<close> takes the listed steps, each a request's number and what the outside answers. It stays
  among the reachable worlds.\<close>

fun mw_steps :: "pipe_config \<Rightarrow> (nat \<times> answers) list \<Rightarrow> mw_world \<Rightarrow> mw_world" where
  "mw_steps cfg [] w = w"
| "mw_steps cfg ((i, a) # as) w =
     (if i < length (mw_reqs w)
      then (case mw_next cfg a (mw_shared w) (mw_reqs w ! i) of
              (sh, r) \<Rightarrow> mw_steps cfg as (w\<lparr> mw_shared := sh, mw_reqs := (mw_reqs w)[i := r] \<rparr>))
      else mw_steps cfg as w)"

lemma mw_steps_reachable: "mw_reachable cfg ops w \<Longrightarrow> mw_reachable cfg ops (mw_steps cfg as w)"
proof (induction cfg as w rule: mw_steps.induct)
  case (2 cfg i a as w)
  then show ?case
  proof (cases "i < length (mw_reqs w)")
    case True
    obtain sh r where n: "mw_next cfg a (mw_shared w) (mw_reqs w ! i) = (sh, r)" by fastforce
    from 2(1) [OF True n [symmetric]] mw_step [OF 2(3) True n] True n show ?thesis by simp
  qed simp
qed simp

end
