(* ===== verification/WriteDemo.thy ===== *)
theory WriteDemo
  imports WriteProps
begin

text \<open>
  A concrete run of the machine write pipeline: one client changes one password. It shows that the
  hypotheses of the pipeline's properties can hold, on a small configuration.
\<close>

definition demo_dn :: dn_lib where
  "demo_dn = \<lparr> dl_parse = map_of [(''uid=jane,dc=x'', [[(''uid'', ''jane'')], [(''dc'', ''x'')]]), (''dc=x'', [[(''dc'', ''x'')]])],
     dl_eq = (\<lambda>a b. a = b), dl_anc = (\<lambda>a b. length a < length b \<and> drop (length b - length a) b = a), dl_lower = (\<lambda>s. s) \<rparr>"

definition demo_json :: json_lib where
  "demo_json = \<lparr> js_parse = (\<lambda>s. if s = ''jane'' then Some (JObj [(''dn'', JStr ''uid=jane,dc=x''), (''password'', JStr ''aaaabbbbcccc'')], []) else None),
     js_fold = (\<lambda>a b. a = b), js_blank = (\<lambda>s. s = []), js_media = (\<lambda>s. True), js_print = (\<lambda>j. ''j'') \<rparr>"

definition demo_write :: write_config where
  "demo_write = no_write\<lparr> wc_data := \<lparr> bi_dn = ''data'', bi_password = [] \<rparr>, wc_cred_enabled := True,
     wc_cred := \<lparr> bi_dn = ''cred'', bi_password = [] \<rparr>, wc_cred_min_length := 12 \<rparr>"

definition demo_cfg :: pipe_config where
  "demo_cfg = \<lparr> pc_dn = demo_dn, pc_json = demo_json,
     pc_policies = [''app'' \<mapsto> \<lparr> wp_subtrees = [''dc=x''], wp_protected = [], wp_groups = [], wp_cred_subtrees = [''dc=x''] \<rparr>],
     pc_ceilings = (\<lambda>c. {scopePasswordWrite}), pc_write = demo_write, pc_user_base = ''dc=x'', pc_group_base = ''dc=x'',
     pc_rev_enabled = False, pc_rev_base = [], pc_issuer = ''i'', pc_idem = True, pc_exec_slots = 2, pc_sha_hex = (\<lambda>s. s),
     pc_hmac = (\<lambda>k m. m), pc_order = (\<lambda>m. []), pc_unknown_body = [] \<rparr>"

definition demo_op :: write_op where
  "demo_op = WOp ''setPassword'' ''POST'' ''/api/users/password'' scopePasswordWrite ''cred'' ''user'' ''inetOrgPerson'' []
     ShapeTarget False False"

definition demo_request :: machine_request where
  "demo_request = \<lparr> rq_client = ''app'', rq_scopes = [scopePasswordWrite], rq_op = demo_op, rq_body = Some ''jane'', rq_query = [],
     rq_if_match = [], rq_idem_keys = [''0123456789abcdef''], rq_content_type = [], rq_target = [] \<rparr>"

definition demo_answer :: answers where
  "demo_answer = \<lparr> an_now = 5, an_ctx_done = False, an_ident = None, an_pending = Inr ''u'', an_premise = [], an_bind = True,
     an_handler = no_handler_result, an_password = None, an_clear = True \<rparr>"

definition demo_start :: mw_world where
  "demo_start = \<lparr> mw_shared = \<lparr> sh_limiter = newMachineWriteLimiter 1 1 2 [''app''], sh_cred = newCredLimiter 1 1, sh_slots = 0,
       sh_store = NewStore \<lparr> kr_current = \<lparr> fk_id = ''1'', fk_key = [] \<rparr>, kr_previous = None \<rparr> 100 0 0 \<rparr>,
     mw_reqs = [new_wreq demo_request] \<rparr>"

definition demo_ops :: "string \<rightharpoonup> write_op" where
  "demo_ops = [op_key ''POST'' ''/api/users/password'' \<mapsto> demo_op]"

lemma demo_cfg_simps [simp]:
  "pc_dn demo_cfg = demo_dn" "pc_json demo_cfg = demo_json" "pc_write demo_cfg = demo_write" "pc_issuer demo_cfg = ''i''"
  "pc_idem demo_cfg" "pc_exec_slots demo_cfg = 2" "\<not> pc_rev_enabled demo_cfg" "pc_ceilings demo_cfg c = {scopePasswordWrite}"
  "pc_sha_hex demo_cfg = (\<lambda>s. s)" "pc_hmac demo_cfg = (\<lambda>k m. m)" "pc_order demo_cfg = (\<lambda>m. [])"
  "pc_policies demo_cfg ''app'' = Some \<lparr> wp_subtrees = [''dc=x''], wp_protected = [], wp_groups = [], wp_cred_subtrees = [''dc=x''] \<rparr>"
  by (simp_all add: demo_cfg_def)

lemma demo_request_simps [simp]:
  "rq_client demo_request = ''app''" "rq_scopes demo_request = [scopePasswordWrite]" "rq_op demo_request = demo_op"
  "rq_body demo_request = Some ''jane''" "rq_query demo_request = []" "rq_if_match demo_request = []"
  "rq_idem_keys demo_request = [''0123456789abcdef'']"
  by (simp_all add: demo_request_def)

lemma demo_op_simps [simp]:
  "mo_id demo_op = ''setPassword''" "mo_method demo_op = ''POST''" "mo_scope demo_op = scopePasswordWrite"
  "wo_compartment demo_op = ''cred''" "wo_kind demo_op = ''user''" "wo_class demo_op = ''inetOrgPerson''"
  "wo_shape demo_op = ShapeTarget" "\<not> wo_in_query demo_op" "\<not> wo_if_match demo_op"
  by (simp_all add: demo_op_def WOp_def)

lemma demo_answer_simps [simp]:
  "an_now demo_answer = 5" "\<not> an_ctx_done demo_answer" "an_ident demo_answer = None" "an_pending demo_answer = Inr ''u''"
  "an_premise demo_answer = []" "an_bind demo_answer" "an_password demo_answer = None" "an_clear demo_answer"
  by (simp_all add: demo_answer_def)

lemma demo_write_simps [simp]:
  "writeBindIdentity demo_write ''cred'' = Some \<lparr> bi_dn = ''cred'', bi_password = [] \<rparr>" "wc_cred_min_length demo_write = 12"
  by (simp_all add: demo_write_def writeBindIdentity_def)

text \<open>The names.\<close>

lemma demo_names [simp]:
  "machineWriteDN demo_dn ''dc=x'' = Some [[(''dc'', ''x'')]]"
  "machineWriteDN demo_dn ''uid=jane,dc=x'' = Some [[(''uid'', ''jane'')], [(''dc'', ''x'')]]"
  by (simp_all add: machineWriteDN_def demo_dn_def plain_value_def naming_types_def printable_def TrimSpace_def
      asciiSpace_def reSpace_def has_prefix_def)

definition demo_pol :: write_policy where
  "demo_pol = \<lparr> wp_subtrees = [''dc=x''], wp_protected = [], wp_groups = [], wp_cred_subtrees = [''dc=x''] \<rparr>"

definition demo_dns :: "write_dn list" where
  "demo_dns = [\<lparr> wd_raw = ''uid=jane,dc=x'', wd_parent = False, wd_class = ''inetOrgPerson'' \<rparr>]"

definition demo_password :: string where "demo_password = ''aaaabbbbcccc''"

lemma demo_body:
  "strictBody demo_json m t ''jane'' =
     (if m = ''DELETE'' then None
      else Some (Some (JObj [(''dn'', JStr ''uid=jane,dc=x''), (''password'', JStr demo_password)])))"
  by (simp add: strictBody_def demo_json_def demo_password_def)

lemma demo_members:
  "js_parse demo_json ''jane'' = Some (JObj [(''dn'', JStr ''uid=jane,dc=x''), (''password'', JStr demo_password)], [])"
  "\<not> js_blank demo_json ''jane''"
  by (simp_all add: demo_json_def demo_password_def)

lemma demo_body_allowed: "machineWriteBodyAllowed demo_json ''setPassword'' ''jane''"
  by (simp add: machineWriteBodyAllowed_def demo_body demo_members maxIdempotencyRequestBody_def allowed_fields_def member_allowed_def)

lemma demo_generated: "\<not> generatesPassword demo_json ''jane''"
  by (simp add: generatesPassword_def demo_members) (simp add: demo_json_def demo_password_def)

lemma demo_parse: "parseDNs demo_cfg demo_request ''jane'' = Some (demo_dns, False, demo_password)"
  by (simp add: parseDNs_def request_fields_def demo_body_allowed demo_members bodyString_def demo_dns_def parsePassword_def
      valid_Password_def demo_password_def machineCredMinLengthFloor_def)

lemma demo_within:
  "withinCeiling demo_dn demo_pol ''uid=jane,dc=x'' False" "withinCredSubtree demo_dn demo_pol ''uid=jane,dc=x''"
  "\<not> isProtected demo_dn demo_pol ''uid=jane,dc=x''"
  by (simp_all add: withinCeiling_def withinCredSubtree_def isProtected_def demo_pol_def) (simp_all add: demo_dn_def)

subsection \<open>The run, one stage at a time\<close>

definition demo_at :: "stage \<Rightarrow> shared \<Rightarrow> wreq \<Rightarrow> bool" where
  "demo_at st sh r \<longleftrightarrow> w_req r = demo_request \<and> w_stage r = st \<and>
     mw_reachable demo_cfg demo_ops \<lparr> mw_shared = sh, mw_reqs = [r] \<rparr>"

lemma demo_go:
  assumes "demo_at st sh r" "mw_next demo_cfg demo_answer sh r = (sh', r')" "w_req r' = demo_request" "w_stage r' = st'" "P sh' r'"
  shows "\<exists>sh r. demo_at st' sh r \<and> P sh r"
proof -
  have "demo_at st' sh' r'"
    using mw_step [of demo_cfg demo_ops "\<lparr> mw_shared = sh, mw_reqs = [r] \<rparr>" 0 demo_answer sh' r'] assms(1-4)
    by (simp add: demo_at_def)
  with assms(5) show ?thesis by blast
qed

definition demo_store :: store where
  "demo_store = NewStore \<lparr> kr_current = \<lparr> fk_id = ''1'', fk_key = [] \<rparr>, kr_previous = None \<rparr> 100 0 0"

definition demo_shared :: shared where
  "demo_shared = \<lparr> sh_limiter = newMachineWriteLimiter 1 1 2 [''app''], sh_cred = newCredLimiter 1 1, sh_slots = 0, sh_store = demo_store \<rparr>"

lemma demo_begin: "demo_at AtScope demo_shared (new_wreq demo_request)"
proof -
  have "mw_reachable demo_cfg demo_ops \<lparr> mw_shared = demo_shared, mw_reqs = [] \<rparr>"
    using mw_start [OF refl refl] by (simp add: demo_shared_def)
  from mw_arrive [OF this, of "op_key ''POST'' ''/api/users/password''" demo_request]
  show ?thesis by (simp add: demo_at_def demo_ops_def demo_shared_def new_wreq_def)
qed

lemma demo_scope: "\<exists>sh r. demo_at AtAdmit sh r \<and> sh = demo_shared"
proof -
  have "mw_next demo_cfg demo_answer demo_shared (new_wreq demo_request) = (demo_shared, goto AtAdmit (new_wreq demo_request))"
    by (simp add: mw_next_def new_wreq_def step2Scope_def scopeAllows_def goto_def)
  from demo_go [OF demo_begin this, of AtAdmit "\<lambda>sh r. sh = demo_shared"] show ?thesis by (simp add: goto_def new_wreq_def)
qed

definition demo_data :: "shared \<Rightarrow> bool" where
  "demo_data sh \<longleftrightarrow> sh_slots sh = 0 \<and> sh_cred sh = newCredLimiter 1 1 \<and> sh_store sh = demo_store"

lemma demo_admit: "\<exists>sh r. demo_at AtParse sh r \<and> demo_data sh"
proof -
  from demo_scope obtain r where r: "demo_at AtAdmit demo_shared r" by blast
  have "\<exists>l. wl_acquire (newMachineWriteLimiter 1 1 2 [''app'']) 5 False ''app'' = (l, None)"
    by (simp add: wl_acquire_def newMachineWriteLimiter_def newClientBudget_def cb_acquire_def cb_off_def client_state_of_def
        refill_def time_sub_def put_state_def Let_def min_duration_def max_duration_def)
  then obtain l where "wl_acquire (newMachineWriteLimiter 1 1 2 [''app'']) 5 False ''app'' = (l, None)" by blast
  then have "mw_next demo_cfg demo_answer demo_shared r =
      (demo_shared\<lparr> sh_limiter := l \<rparr>, goto AtParse (did EvAdmit (r\<lparr> w_admitted := True \<rparr>)))"
    using r by (simp add: mw_next_def demo_at_def step3Admit_def demo_shared_def)
  from demo_go [OF r this, of AtParse "\<lambda>sh r. demo_data sh"] r
  show ?thesis by (simp add: goto_def did_def demo_at_def demo_data_def demo_shared_def)
qed

definition demo_ready :: "shared \<Rightarrow> wreq \<Rightarrow> bool" where
  "demo_ready sh r \<longleftrightarrow> demo_data sh \<and> w_pol r = demo_pol \<and> w_dns r = demo_dns"

lemma demo_parsed: "\<exists>sh r. demo_at AtDenylist sh r \<and> demo_ready sh r"
proof -
  from demo_admit obtain sh r where r: "demo_at AtParse sh r" "demo_data sh" by blast
  have "mw_next demo_cfg demo_answer sh r =
      (sh, goto AtDenylist (r\<lparr> w_pol := demo_pol, w_dns := demo_dns, w_pending := False, w_password := demo_password \<rparr>))"
    using r(1) demo_within
    by (simp add: mw_next_def demo_at_def step4Parse_def maxIdempotencyRequestBody_def demo_parse demo_pol_def [symmetric])
       (simp add: demo_dns_def)
  from demo_go [OF r(1) this, of AtDenylist demo_ready] r show ?thesis by (simp add: goto_def demo_at_def demo_ready_def)
qed

lemma demo_listed: "\<exists>sh r. demo_at AtIfMatch sh r \<and> demo_ready sh r"
proof -
  from demo_parsed obtain sh r where r: "demo_at AtDenylist sh r" "demo_ready sh r" by blast
  then have "mw_next demo_cfg demo_answer sh r = (sh, goto AtIfMatch r)"
    using demo_within by (simp add: mw_next_def demo_ready_def demo_at_def step5Denylist_def revocationWriteGuard_def demo_dns_def)
  from demo_go [OF r(1) this, of AtIfMatch demo_ready] r show ?thesis by (simp add: goto_def demo_at_def demo_ready_def)
qed

lemma demo_matched: "\<exists>sh r. demo_at AtIdempotency sh r \<and> demo_ready sh r"
proof -
  from demo_listed obtain sh r where r: "demo_at AtIfMatch sh r" "demo_ready sh r" by blast
  then have "mw_next demo_cfg demo_answer sh r = (sh, goto AtIdempotency r)"
    by (simp add: mw_next_def demo_at_def step6IfMatch_def)
  from demo_go [OF r(1) this, of AtIdempotency demo_ready] r show ?thesis by (simp add: goto_def demo_at_def demo_ready_def)
qed

lemma demo_new: "\<exists>st h. Begin (\<lambda>s. s) (\<lambda>k m. m) (\<lambda>m. []) demo_store 5 subject key parts = (st, KindNew h)"
  by (simp add: Begin_def demo_store_def NewStore_def begin_new_def at_capacity_def subject_count_def Fingerprint_def Let_def
      DefaultMaxRecords_def DefaultMaxPerSubject_def)

lemma demo_key: "ParseKey [''0123456789abcdef''] = Some ''0123456789abcdef''"
  by (simp add: ParseKey_def unquote_def KeyMinLen_def KeyMaxLen_def allowedKeyRune_def)

text \<open>From the idempotency record on, what matters is the names, a free slot and an unlocked entry.\<close>

definition demo_free :: "shared \<Rightarrow> wreq \<Rightarrow> bool" where
  "demo_free sh r \<longleftrightarrow> sh_slots sh = 0 \<and> w_dns r = demo_dns \<and> (\<exists>l. sh_cred sh = Some l \<and> cl_active l = [])"

lemma demo_recorded: "\<exists>sh r. demo_at AtExecute sh r \<and> sh_slots sh = 0 \<and> w_dns r = demo_dns \<and> sh_cred sh = newCredLimiter 1 1"
proof -
  from demo_matched obtain sh r where r: "demo_at AtIdempotency sh r" "demo_ready sh r" by blast
  obtain subj where s: "machineIdempotencySubject (Some ''app'') ''i'' '''' = Some subj" by (simp add: machineIdempotencySubject_def)
  obtain canon where c: "strictBody demo_json ''POST'' t ''jane'' = Some (Some canon)" for t by (simp add: demo_body)
  obtain st h where b: "Begin (\<lambda>s. s) (\<lambda>k m. m) (\<lambda>m. []) demo_store 5 subj ''0123456789abcdef''
      [''POST'', rq_target demo_request, js_print demo_json canon] = (st, KindNew h)" using demo_new by blast
  have "mw_next demo_cfg demo_answer sh r =
      (sh\<lparr> sh_store := st \<rparr>, goto AtExecute (did EvBegin (r\<lparr> w_subject := subj, w_handle := Some h \<rparr>)))"
    using r s c b demo_generated
    by (simp add: mw_next_def demo_at_def demo_ready_def demo_data_def step7Idempotency_def idempotent_def demo_key
        maxIdempotencyRequestBody_def)
  from demo_go [OF r(1) this, of AtExecute "\<lambda>sh r. sh_slots sh = 0 \<and> w_dns r = demo_dns \<and> sh_cred sh = newCredLimiter 1 1"] r
  show ?thesis by (simp add: goto_def did_def demo_at_def demo_ready_def demo_data_def)
qed

lemma demo_executed: "\<exists>sh r. demo_at (AtCheck 0) sh r \<and> demo_free sh r"
proof -
  from demo_recorded obtain sh r where r: "demo_at AtExecute sh r" "sh_slots sh = 0" "w_dns r = demo_dns"
    "sh_cred sh = newCredLimiter 1 1" by blast
  have "\<exists>l. cl_spend (newCredLimiter 1 1) 5 = (Some l, None) \<and> cl_active l = []"
    by (simp add: cl_spend_def newCredLimiter_def newClientBudget_def cb_acquire_def cb_off_def client_state_of_def
        refill_def time_sub_def put_state_def Let_def min_duration_def max_duration_def)
  then obtain l where l: "cl_spend (newCredLimiter 1 1) 5 = (Some l, None)" "cl_active l = []" by blast
  have "mw_next demo_cfg demo_answer sh r = (sh\<lparr> sh_cred := Some l \<rparr>, goto (AtCheck 0) r)"
    using r l by (simp add: mw_next_def demo_at_def step_execute_def)
  from demo_go [OF r(1) this, of "AtCheck 0" demo_free] r l show ?thesis by (simp add: goto_def demo_at_def demo_free_def)
qed

lemma demo_checked: "\<exists>sh r. demo_at AtPrivileged sh r \<and> demo_free sh r"
proof -
  from demo_executed obtain sh r where r: "demo_at (AtCheck 0) sh r" "demo_free sh r" by blast
  then have "mw_next demo_cfg demo_answer sh r = (sh, goto (AtCheck 1) (did (EvCheck ''uid=jane,dc=x'' ''inetOrgPerson'') r))"
    by (simp add: mw_next_def demo_at_def demo_free_def step_check_def demo_dns_def)
  from demo_go [OF r(1) this, of "AtCheck 1" demo_free] r
  obtain sh r where r: "demo_at (AtCheck 1) sh r" "demo_free sh r" by (auto simp: goto_def did_def demo_at_def demo_free_def)
  then have "mw_next demo_cfg demo_answer sh r = (sh, goto AtPrivileged r)"
    by (simp add: mw_next_def demo_at_def demo_free_def step_check_def demo_dns_def)
  from demo_go [OF r(1) this, of AtPrivileged demo_free] r show ?thesis by (simp add: goto_def demo_at_def demo_free_def)
qed

lemma demo_unlocked: "\<exists>sh r. demo_at AtLock sh r \<and> demo_free sh r \<and> w_seen r = ''u''"
proof -
  from demo_checked obtain sh r where r: "demo_at AtPrivileged sh r" "demo_free sh r" by blast
  then have "mw_next demo_cfg demo_answer sh r = (sh, goto AtPending (did EvPrivileged r))"
    by (simp add: mw_next_def demo_at_def step_privileged_def)
  from demo_go [OF r(1) this, of AtPending demo_free] r
  obtain sh r where r: "demo_at AtPending sh r" "demo_free sh r" by (auto simp: goto_def did_def demo_at_def demo_free_def)
  then have "mw_next demo_cfg demo_answer sh r = (sh, goto AtLock (did (EvPending ''u'') (r\<lparr> w_seen := ''u'' \<rparr>)))"
    by (simp add: mw_next_def demo_at_def step_pending_def)
  from demo_go [OF r(1) this, of AtLock "\<lambda>sh r. demo_free sh r \<and> w_seen r = ''u''"] r
  show ?thesis by (simp add: goto_def did_def demo_at_def demo_free_def)
qed

definition demo_held :: "shared \<Rightarrow> wreq \<Rightarrow> bool" where
  "demo_held sh r \<longleftrightarrow> sh_slots sh = 0 \<and> w_seen r = ''u''"

lemma demo_locked: "\<exists>sh r. demo_at AtSlot sh r \<and> demo_held sh r"
proof -
  from demo_unlocked obtain sh r where r: "demo_at AtLock sh r" "demo_free sh r" "w_seen r = ''u''" by blast
  then obtain l where "sh_cred sh = Some l" "cl_active l = []" by (auto simp: demo_free_def)
  then have "mw_next demo_cfg demo_answer sh r =
      (sh\<lparr> sh_cred := Some (l\<lparr> cl_active := [''u''] \<rparr>) \<rparr>, goto AtPrivileged2 (did (EvLock ''u'') (r\<lparr> w_uuid := Some ''u'' \<rparr>)))"
    using r by (simp add: mw_next_def demo_at_def step_lock_def cl_lock_def)
  from demo_go [OF r(1) this, of AtPrivileged2 demo_held] r
  obtain sh r where r: "demo_at AtPrivileged2 sh r" "demo_held sh r"
    by (auto simp: goto_def did_def demo_at_def demo_free_def demo_held_def)
  then have "mw_next demo_cfg demo_answer sh r = (sh, goto AtPending2 (did EvPrivileged r))"
    by (simp add: mw_next_def demo_at_def step_privileged_def)
  from demo_go [OF r(1) this, of AtPending2 demo_held] r
  obtain sh r where r: "demo_at AtPending2 sh r" "demo_held sh r" by (auto simp: goto_def did_def demo_at_def demo_held_def)
  then have "mw_next demo_cfg demo_answer sh r = (sh, goto AtPremise (did (EvPending ''u'') r))"
    by (simp add: mw_next_def demo_at_def demo_held_def step_pending2_def)
  from demo_go [OF r(1) this, of AtPremise demo_held] r
  obtain sh r where r: "demo_at AtPremise sh r" "demo_held sh r" by (auto simp: goto_def did_def demo_at_def demo_held_def)
  then have "mw_next demo_cfg demo_answer sh r = (sh, goto AtSlot (did EvPremise r))"
    by (simp add: mw_next_def demo_at_def step_premise_def)
  from demo_go [OF r(1) this, of AtSlot demo_held] r
  show ?thesis by (simp add: goto_def did_def demo_at_def demo_held_def)
qed

lemma demo_bound: "\<exists>sh r. demo_at AtPassword sh r \<and> EvBind ''cred'' \<in> set (w_trace r)"
proof -
  from demo_locked obtain sh r where r: "demo_at AtSlot sh r" "demo_held sh r" by blast
  then have "mw_next demo_cfg demo_answer sh r = (sh\<lparr> sh_slots := 1 \<rparr>, goto AtBind (did EvSlot (r\<lparr> w_slot := True \<rparr>)))"
    by (simp add: mw_next_def demo_at_def demo_held_def step_slot_def)
  from demo_go [OF r(1) this, of AtBind "\<lambda>sh r. True"] r
  obtain sh r where r: "demo_at AtBind sh r" by (auto simp: goto_def did_def demo_at_def)
  then have "mw_next demo_cfg demo_answer sh r =
      (sh, goto AtPassword (did (EvBind ''cred'') (r\<lparr> w_bound := Some \<lparr> bi_dn = ''cred'', bi_password = [] \<rparr>, w_bind_dn := ''cred'' \<rparr>)))"
    by (simp add: mw_next_def demo_at_def step_bind_def)
  from demo_go [OF r this, of AtPassword "\<lambda>sh r. EvBind ''cred'' \<in> set (w_trace r)"] r
  show ?thesis by (simp add: goto_def did_def demo_at_def)
qed

lemma demo_changed: "\<exists>sh r. demo_at (AtCleanup 0) sh r \<and> EvPassword \<in> set (w_trace r)"
proof -
  from demo_bound obtain sh r where r: "demo_at AtPassword sh r" by blast
  then have "mw_next demo_cfg demo_answer sh r = (sh, step_password demo_answer r)"
    by (simp add: mw_next_def demo_at_def)
  from demo_go [OF r this, of "AtCleanup 0" "\<lambda>sh r. EvPassword \<in> set (w_trace r)"] r
  show ?thesis by (simp add: step_password_def goto_def did_def demo_at_def)
qed

subsection \<open>The properties of the pipeline\<close>

lemma reachable_pw: "mw_reachable cfg ops w \<Longrightarrow> \<forall>r \<in> set (mw_reqs w). pw_inv r"
proof (induction rule: mw_reachable.induct)
  case (mw_arrive w k q)
  then show ?case by (simp add: pw_inv_def new_wreq_def)
next
  case (mw_step w i a sh r)
  from mw_step(2,4) have "pw_inv (mw_reqs w ! i)" by simp
  then have "pw_inv r" using pw_next [of "mw_reqs w ! i" cfg a "mw_shared w"] mw_step(3) by simp
  with mw_step(4) show ?case using set_update_subset_insert [of "mw_reqs w" i r] by auto
qed simp

lemma reachable_authorized:
  assumes "mw_reachable cfg ops w" "r \<in> set (mw_reqs w)" "e \<in> set (w_trace r)" "e \<noteq> EvAdmit" "e \<noteq> EvRelease"
  shows "authorized cfg (w_req r) (w_pol r) (w_dns r) (w_csn r)"
    "e = EvBind d \<Longrightarrow> map_option bi_dn (writeBindIdentity (pc_write cfg) (wo_compartment (rq_op (w_req r)))) = Some d"
proof -
  have "auth_inv cfg r" using reachable_inv [OF assms(1)] assms(2) by (simp add: world_inv_def Let_def)
  then show "authorized cfg (w_req r) (w_pol r) (w_dns r) (w_csn r)"
    "e = EvBind d \<Longrightarrow> map_option bi_dn (writeBindIdentity (pc_write cfg) (wo_compartment (rq_op (w_req r)))) = Some d"
    using assms(3-5) by (auto simp: auth_inv_def quiet_def bind_ok_def)
qed

text \<open>Every name the request itself gives passes every guard.\<close>

definition name_permitted :: "pipe_config \<Rightarrow> machine_request \<Rightarrow> write_policy \<Rightarrow> string \<Rightarrow> bool" where
  "name_permitted cfg q pol n \<longleftrightarrow> machineWriteDN (pc_dn cfg) n \<noteq> None \<and> withinCeiling (pc_dn cfg) pol n False \<and>
     \<not> isProtected (pc_dn cfg) pol n \<and> revocationWriteGuard (pc_dn cfg) (pc_rev_enabled cfg) (pc_rev_base cfg) [n]"

lemma authorized_permitted:
  assumes "authorized cfg q pol dns csn"
  shows "pc_policies cfg (rq_client q) = Some pol \<and> (\<forall>x \<in> set (request_names cfg q). \<exists>n. x = Some n \<and> name_permitted cfg q pol n) \<and>
    (\<exists>n. hd (request_names cfg q) = Some n \<and>
      (wo_compartment (rq_op q) = ''cred'' \<longrightarrow> withinCredSubtree (pc_dn cfg) pol n) \<and>
      (wo_kind (rq_op q) = ''group'' \<and> wo_shape (rq_op q) \<noteq> ShapeCreate \<longrightarrow> groupListed (pc_dn cfg) pol n)) \<and>
    (wo_shape (rq_op q) = ShapeCreate \<longrightarrow>
      withinCeiling (pc_dn cfg) pol (if wo_kind (rq_op q) = ''group'' then pc_group_base cfg else pc_user_base cfg) True)"
proof -
  note A = assms [unfolded authorized_def names_ok_def unprotected_def list_all_iff covers_def]
  obtain d ds where dns: "dns = d # ds" "\<not> wd_parent d" using A by (cases dns) auto
  have names: "request_names cfg q = map (\<lambda>d. Some (wd_raw d)) (filter (\<lambda>d. \<not> wd_parent d) dns)" using A by simp
  have "\<exists>n. x = Some n \<and> name_permitted cfg q pol n" if "x \<in> set (request_names cfg q)" for x
  proof -
    from that names obtain e where e: "e \<in> set dns" "\<not> wd_parent e" "x = Some (wd_raw e)" by auto
    have "withinCeiling (pc_dn cfg) pol (wd_raw e) (wd_parent e)" using A e(1) by blast
    with A e show ?thesis by (simp add: name_permitted_def)
  qed
  moreover have "hd (request_names cfg q) = Some (wd_raw (hd dns))" using names dns by simp
  moreover have "withinCeiling (pc_dn cfg) pol (if wo_kind (rq_op q) = ''group'' then pc_group_base cfg else pc_user_base cfg) True"
    if c: "wo_shape (rq_op q) = ShapeCreate"
  proof -
    from A c obtain e where "e \<in> set dns" "wd_parent e" "wd_raw e = (if wo_kind (rq_op q) = ''group'' then pc_group_base cfg else pc_user_base cfg)"
      by blast
    moreover have "withinCeiling (pc_dn cfg) pol (wd_raw e) (wd_parent e)" using A calculation(1) by blast
    ultimately show ?thesis by simp
  qed
  ultimately show ?thesis using A by auto
qed

text \<open>C1: nothing is done for a machine client before the request is authorized. In every reachable
  interleaving, whatever a request did beyond being admitted to the limiter and released from it (replaying a stored
  result, beginning an idempotency record, reading or writing the directory) implies that the token and the
  client's ceiling carry the operation's scope; that no name its operation needs is missing from its query or body, and each
  (the entry, the member, the entry to be created) is canonical, inside the client's subtrees and neither protected nor part of the
  revocation subtree; that the entry is also within the password subtrees for a password, and listed when it is a group that is
  changed; that the parent of a new entry is inside the subtrees; and that the revision is the one the request pins. The connection
  it wrote over was bound as the identity of the operation's compartment.\<close>

theorem machine_write_authorized:
  assumes "mw_reachable cfg ops w" "r \<in> set (mw_reqs w)" "e \<in> set (w_trace r)" "e \<noteq> EvAdmit" "e \<noteq> EvRelease"
  shows "scope_ok cfg (w_req r) \<and>
    (\<exists>pol. pc_policies cfg (rq_client (w_req r)) = Some pol \<and>
      (\<forall>x \<in> set (request_names cfg (w_req r)). \<exists>n. x = Some n \<and> name_permitted cfg (w_req r) pol n) \<and>
      (\<exists>n. hd (request_names cfg (w_req r)) = Some n \<and>
        (wo_compartment (rq_op (w_req r)) = ''cred'' \<longrightarrow> withinCredSubtree (pc_dn cfg) pol n) \<and>
        (wo_kind (rq_op (w_req r)) = ''group'' \<and> wo_shape (rq_op (w_req r)) \<noteq> ShapeCreate \<longrightarrow> groupListed (pc_dn cfg) pol n)) \<and>
      (wo_shape (rq_op (w_req r)) = ShapeCreate \<longrightarrow>
        withinCeiling (pc_dn cfg) pol (if wo_kind (rq_op (w_req r)) = ''group'' then pc_group_base cfg else pc_user_base cfg) True)) \<and>
    revision_ok (w_req r) (w_csn r) \<and>
    (\<forall>d. e = EvBind d \<longrightarrow>
      map_option bi_dn (writeBindIdentity (pc_write cfg) (wo_compartment (rq_op (w_req r)))) = Some d)"
proof -
  have a: "authorized cfg (w_req r) (w_pol r) (w_dns r) (w_csn r)" by (rule reachable_authorized(1) [OF assms])
  then have "scope_ok cfg (w_req r)" "revision_ok (w_req r) (w_csn r)" by (simp_all add: authorized_def)
  with authorized_permitted [OF a] reachable_authorized(2) [OF assms] show ?thesis by blast
qed

theorem machine_write_authorized_witness:
  "\<exists>w. \<exists>r \<in> set (mw_reqs w). mw_reachable demo_cfg demo_ops w \<and> EvBind ''cred'' \<in> set (w_trace r) \<and> scope_ok demo_cfg (w_req r) \<and>
     name_permitted demo_cfg (w_req r) demo_pol ''uid=jane,dc=x'' \<and>
     map_option bi_dn (writeBindIdentity (pc_write demo_cfg) (wo_compartment (rq_op (w_req r)))) = Some ''cred''"
proof -
  from demo_bound obtain sh r where r: "demo_at AtPassword sh r" "EvBind ''cred'' \<in> set (w_trace r)" by blast
  then have "mw_reachable demo_cfg demo_ops \<lparr> mw_shared = sh, mw_reqs = [r] \<rparr>" by (simp add: demo_at_def)
  note w = this
  have q: "w_req r = demo_request" using r(1) by (simp add: demo_at_def)
  then have n: "request_names demo_cfg (w_req r) = [Some ''uid=jane,dc=x'']"
    by (simp add: request_names_def request_value_def demo_members)
  have "scope_ok demo_cfg (w_req r)" "name_permitted demo_cfg (w_req r) demo_pol ''uid=jane,dc=x''"
    "map_option bi_dn (writeBindIdentity (pc_write demo_cfg) (wo_compartment (rq_op (w_req r)))) = Some ''cred''"
    using machine_write_authorized [OF w, of r "EvBind ''cred''"] r(2) n q by (auto simp: demo_pol_def)
  with w r(2) show ?thesis by (intro exI [of _ "\<lparr> mw_shared = sh, mw_reqs = [r] \<rparr>"] bexI [of _ r]) simp_all
qed

lemma wl_count_bound: "limiter_ok lo \<Longrightarrow> wl_count lo \<le> 64"
  by (cases lo) (auto simp: wl_count_def)

text \<open>C5: the shared resources of machine writes are bounded and none leaks. In every reachable interleaving the
  executor's slots in use are exactly those of the requests that hold one, and at most the configured number;
  at most 64 requests are admitted at a time and at most one per client; at most one holds the password
  lock of an entry; and a request that has ended, on whatever path, holds no slot, no connection, no lock
  and no place in the limiter.\<close>

theorem machine_write_bounded:
  assumes "mw_reachable cfg ops w"
  shows "sh_slots (mw_shared w) = length (filter w_slot (mw_reqs w)) \<and> length (filter w_slot (mw_reqs w)) \<le> pc_exec_slots cfg \<and>
    length (filter w_admitted (mw_reqs w)) \<le> 64 \<and>
    (\<forall>c. length (filter (\<lambda>r. w_admitted r \<and> rq_client (w_req r) = c) (mw_reqs w)) \<le> 1) \<and>
    (\<forall>u. length (filter (\<lambda>r. w_uuid r = Some u) (mw_reqs w)) \<le> 1) \<and>
    (\<forall>r \<in> set (mw_reqs w). w_stage r = AtDone \<longrightarrow>
      \<not> w_admitted r \<and> \<not> w_slot r \<and> w_bound r = None \<and> w_uuid r = None)"
proof -
  let ?sh = "mw_shared w" and ?rs = "mw_reqs w"
  have inv: "world_inv cfg w" using reachable_inv [OF assms] .
  then have g: "guarded cfg ?sh" and s: "sh_slots ?sh = holders w_slot ?rs" and a: "wl_count (sh_limiter ?sh) = holders w_admitted ?rs"
    and f: "in_flight (sh_limiter ?sh) c = int (holders (\<lambda>r. w_admitted r \<and> rq_client (w_req r) = c) ?rs)"
    and u: "uuid_locks (sh_cred ?sh) v = holders (\<lambda>r. w_uuid r = Some v) ?rs" and h: "\<forall>r \<in> set ?rs. holds_inv r" for c v
    by (simp_all add: world_inv_def Let_def)
  have "in_flight (sh_limiter ?sh) c \<le> 1" for c using g by (simp add: guarded_def limiter_ok_def)
  then have one: "holders (\<lambda>r. w_admitted r \<and> rq_client (w_req r) = c) ?rs \<le> 1" for c using f [of c] by (metis of_nat_1 of_nat_le_iff)
  have L: "uuid_locks (sh_cred ?sh) v \<le> 1" "wl_count (sh_limiter ?sh) \<le> 64" for v
    using g wl_count_bound by (simp_all add: guarded_def)
  have U: "\<forall>v. holders (\<lambda>r. w_uuid r = Some v) ?rs \<le> 1" using L(1) u by simp
  have A: "holders w_admitted ?rs \<le> 64" using L(2) a by simp
  have S: "holders w_slot ?rs \<le> pc_exec_slots cfg" using s g by (simp add: guarded_def)
  have D: "\<forall>r \<in> set ?rs. w_stage r = AtDone \<longrightarrow> \<not> w_admitted r \<and> \<not> w_slot r \<and> w_bound r = None \<and> w_uuid r = None"
  proof (intro ballI impI)
    fix r
    assume r: "r \<in> set ?rs" "w_stage r = AtDone"
    from r(1) h have "holds_inv r" by blast
    with r(2) show "\<not> w_admitted r \<and> \<not> w_slot r \<and> w_bound r = None \<and> w_uuid r = None" by (simp add: holds_inv_def)
  qed
  have C: "\<forall>c. holders (\<lambda>r. w_admitted r \<and> rq_client (w_req r) = c) ?rs \<le> 1" using one by blast
  show ?thesis using s S A C U D unfolding holders_def by (intro conjI)
qed

theorem machine_write_bounded_witness:
  "\<exists>w. mw_reachable demo_cfg demo_ops w \<and> length (mw_reqs w) = 1 \<and> sh_slots (mw_shared w) = length (filter w_slot (mw_reqs w))"
proof -
  from demo_bound obtain sh r where "demo_at AtPassword sh r" by blast
  then have "mw_reachable demo_cfg demo_ops \<lparr> mw_shared = sh, mw_reqs = [r] \<rparr>" by (simp add: demo_at_def)
  with machine_write_bounded [OF this] show ?thesis by (intro exI [of _ "\<lparr> mw_shared = sh, mw_reqs = [r] \<rparr>"]) simp
qed

lemma one_holder:
  assumes "holders P rs \<le> 1" "i < length rs" "j < length rs" "P (rs ! i)" "P (rs ! j)"
  shows "i = j"
proof (rule ccontr)
  assume ij: "i \<noteq> j"
  have "{i, j} \<subseteq> {k. k < length rs \<and> P (rs ! k)}" using assms(2-5) by auto
  then have "card {i, j} \<le> card {k. k < length rs \<and> P (rs ! k)}" by (rule card_mono [rotated]) simp
  with ij assms(1) show False by (simp add: holders_def length_filter_conv_card)
qed

text \<open>C6: a password change happens exactly once and in the fixed order. A request that has sent
  a Password Modify is a \<open>setPassword\<close> and did, in this order: admission, its idempotency record, the class check of its
  target, the privilege check, the read of the pending marker of one entry UUID, that entry's lock, both
  reads again with the same UUID, the premise, the slot, the bind, and then one Password Modify; and while
  it is about to send it no other request holds that entry's lock.\<close>

theorem password_write_serialized:
  assumes "mw_reachable cfg ops w" "i < length (mw_reqs w)"
  shows "(EvPassword \<in> set (w_trace (mw_reqs w ! i)) \<longrightarrow>
      mo_id (rq_op (w_req (mw_reqs w ! i))) = ''setPassword'' \<and>
      (\<exists>u d rest. w_trace (mw_reqs w ! i) =
          [EvAdmit, EvBegin] @ checks_of (w_dns (mw_reqs w ! i)) @
          [EvPrivileged, EvPending u, EvLock u, EvPrivileged, EvPending u, EvPremise, EvSlot, EvBind d, EvPassword] @ rest \<and>
        EvPassword \<notin> set rest)) \<and>
    (w_stage (mw_reqs w ! i) = AtPassword \<longrightarrow> w_uuid (mw_reqs w ! i) = Some (w_seen (mw_reqs w ! i)) \<and>
      (\<forall>j < length (mw_reqs w). w_uuid (mw_reqs w ! j) = Some (w_seen (mw_reqs w ! i)) \<longrightarrow> j = i))"
proof (intro conjI impI allI)
  let ?r = "mw_reqs w ! i"
  have inv: "pw_inv ?r" using reachable_pw [OF assms(1)] assms(2) by simp
  {
    assume e: "EvPassword \<in> set (w_trace ?r)"
    have "pw_done (mo_id (rq_op (w_req ?r)) = ''setPassword'') (w_trace ?r) (w_dns ?r)"
      using inv e by (cases "w_stage ?r") (auto simp: pw_inv_def pw_steps_def split: if_splits)
    with e show "mo_id (rq_op (w_req ?r)) = ''setPassword''"
      "\<exists>u d rest. w_trace ?r = [EvAdmit, EvBegin] @ checks_of (w_dns ?r) @
          [EvPrivileged, EvPending u, EvLock u, EvPrivileged, EvPending u, EvPremise, EvSlot, EvBind d, EvPassword] @ rest \<and>
        EvPassword \<notin> set rest"
      by (auto simp: pw_done_def pw_pre_def pw_steps_def)
  }
  assume s: "w_stage ?r = AtPassword"
  show u: "w_uuid ?r = Some (w_seen ?r)" using inv s by (simp add: pw_inv_def)
  fix j
  assume j: "j < length (mw_reqs w)" "w_uuid (mw_reqs w ! j) = Some (w_seen ?r)"
  have "holders (\<lambda>r. w_uuid r = Some (w_seen ?r)) (mw_reqs w) \<le> 1"
  proof -
    have "uuid_locks (sh_cred (mw_shared w)) (w_seen ?r) \<le> 1"
      "uuid_locks (sh_cred (mw_shared w)) (w_seen ?r) = holders (\<lambda>r. w_uuid r = Some (w_seen ?r)) (mw_reqs w)"
      using reachable_inv [OF assms(1)] unfolding world_inv_def Let_def guarded_def by blast+
    then show ?thesis by simp
  qed
  from one_holder [OF this j(1) assms(2)] j(2) u show "j = i" by simp
qed

theorem password_write_serialized_witness:
  "\<exists>w. mw_reachable demo_cfg demo_ops w \<and> 0 < length (mw_reqs w) \<and> EvPassword \<in> set (w_trace (mw_reqs w ! 0)) \<and>
     mo_id (rq_op (w_req (mw_reqs w ! 0))) = ''setPassword''"
proof -
  from demo_changed obtain sh r where r: "demo_at (AtCleanup 0) sh r" "EvPassword \<in> set (w_trace r)" by blast
  then have "mw_reachable demo_cfg demo_ops \<lparr> mw_shared = sh, mw_reqs = [r] \<rparr>" by (simp add: demo_at_def)
  with password_write_serialized [OF this, of 0] r(2)
  show ?thesis by (intro exI [of _ "\<lparr> mw_shared = sh, mw_reqs = [r] \<rparr>"]) simp
qed

end
