(* ===== verification/MachineClaims.thy ===== *)
theory MachineClaims
  imports WriteOps Complex_Main
begin

text \<open>
  What a bearer token must say: the claim rules of \<open>machineauth/claims.go\<close> and the order of the verification in
  \<open>machineauth/verifier.go\<close>.

  The payload is text; \<open>encoding/json\<close> is the argument of \<open>WriteOps\<close>, a claim is its parsed value. The
  \<open>Float64\<close> of a number literal is the function \<open>ce_num\<close> (\<open>None\<close> when it is not finite), a rational, so the fraction of a second is
  computed exactly. SHA-256 is \<open>ce_sha_hex\<close>. The JOSE library is the record \<open>jose_lib\<close>.
\<close>

subsection \<open>Claims\<close>

datatype reason =
  ReasonFormat | ReasonAlg | ReasonTyp | ReasonKid | ReasonSig | ReasonIss | ReasonAud | ReasonAzp | ReasonSA
| ReasonScope | ReasonTime | ReasonTTL | ReasonJTI | ReasonExpire | ReasonJWKS

record claims_policy =
  cp_issuer :: string
  cp_audience :: string
  cp_clients :: "string list"
  cp_denied :: "string list"
  cp_prefix :: string
  cp_maxttl :: duration
  cp_skew :: duration
  cp_require_jti :: bool

record principal =
  pr_client :: string
  pr_scopes :: "string list"
  pr_subject :: string
  pr_expiry :: gtime
  pr_issued :: gtime
  pr_jti :: string

record failure =
  fl_reason :: reason
  fl_expired :: bool
  fl_unavailable :: bool
  fl_retry :: int

record claims_env =
  ce_json :: json_lib
  ce_num :: "string \<Rightarrow> rat option"
  ce_sha_hex :: "string \<Rightarrow> string"

definition invalid :: "reason \<Rightarrow> failure" where
  "invalid x = \<lparr> fl_reason = x, fl_expired = False, fl_unavailable = False, fl_retry = 0 \<rparr>"

text \<open>A claim set: of two members with one name the decoder keeps the last.\<close>

type_synonym claims = "string \<rightharpoonup> json"

definition decode_claims :: "json_lib \<Rightarrow> string \<Rightarrow> claims option" where
  "decode_claims J payload = (case js_parse J payload of Some (JObj ms, rest) \<Rightarrow> Some (map_of (rev ms)) | _ \<Rightarrow> None)"

definition stringClaim :: "claims \<Rightarrow> string \<Rightarrow> string option" where
  "stringClaim c name = (case c name of Some (JStr s) \<Rightarrow> if s = '''' then None else Some s | _ \<Rightarrow> None)"

definition audienceHas :: "json_lib \<Rightarrow> json option \<Rightarrow> string \<Rightarrow> bool" where
  "audienceHas J raw want =
     (if raw = None \<or> want = '''' \<or> js_fold J (TrimSpace want) ''account'' then False
      else (case the raw of
              JStr one \<Rightarrow> one = want
            | JArr vs \<Rightarrow> vs \<noteq> [] \<and> list_all (\<lambda>v. case v of JStr s \<Rightarrow> True | _ \<Rightarrow> False) vs \<and> JStr want \<in> set vs
            | _ \<Rightarrow> False))"

text \<open>The first second of 1970 in the model's time.\<close>

definition unix_epoch_s :: int where "unix_epoch_s = 62135596800"

definition numericDate :: "(string \<Rightarrow> rat option) \<Rightarrow> json \<Rightarrow> gtime option" where
  "numericDate num v =
     (case v of
        JNum lit \<Rightarrow>
          (case num lit of
             None \<Rightarrow> None
           | Some f \<Rightarrow>
               if 100000000000 < \<bar>f\<bar> then None
               else Some ((unix_epoch_s + \<lfloor>f\<rfloor>) * second_ns + \<lfloor>(f - of_int \<lfloor>f\<rfloor>) * of_int second_ns\<rfloor>))
      | _ \<Rightarrow> None)"

definition timeClaim :: "(string \<Rightarrow> rat option) \<Rightarrow> claims \<Rightarrow> string \<Rightarrow> gtime option" where
  "timeClaim num c name = (case c name of None \<Rightarrow> None | Some v \<Rightarrow> numericDate num v)"

definition token_scopes :: "string \<Rightarrow> string list" where
  "token_scopes raw = filter (\<lambda>w. w \<noteq> []) (split_on (CHR '' '') raw)"

text \<open>The claims of the identity, then those of time: one function of the source, split where the clock is first read.\<close>

definition identity_claims :: "claims_env \<Rightarrow> claims_policy \<Rightarrow> claims \<Rightarrow> failure + string \<times> string \<times> string" where
  "identity_claims E p c =
     (if stringClaim c ''typ'' \<noteq> Some ''Bearer'' then Inl (invalid ReasonTyp)
      else if stringClaim c ''iss'' \<noteq> Some (cp_issuer p) then Inl (invalid ReasonIss)
      else if \<not> audienceHas (ce_json E) (c ''aud'') (cp_audience p) then Inl (invalid ReasonAud)
      else
        (case (stringClaim c ''azp'', stringClaim c ''client_id'') of
           (Some azp, Some clientID) \<Rightarrow>
             if azp \<noteq> clientID \<or> azp \<notin> set (cp_clients p) \<or> azp \<in> set (cp_denied p) then Inl (invalid ReasonAzp)
             else if stringClaim c ''preferred_username'' \<noteq> Some (cp_prefix p @ clientID) then Inl (invalid ReasonSA)
             else
               (case stringClaim c ''sub'' of
                  None \<Rightarrow> Inl (invalid ReasonSA)
                | Some sub \<Rightarrow>
                    (case stringClaim c ''scope'' of
                       None \<Rightarrow> Inl (invalid ReasonScope)
                     | Some scopeRaw \<Rightarrow> Inr (clientID, sub, scopeRaw)))
         | _ \<Rightarrow> Inl (invalid ReasonAzp)))"

definition time_claims :: "claims_env \<Rightarrow> claims_policy \<Rightarrow> claims \<Rightarrow> gtime \<Rightarrow> failure + gtime \<times> gtime \<times> string" where
  "time_claims E p c now =
     (case timeClaim (ce_num E) c ''iat'' of
        None \<Rightarrow> Inl (invalid ReasonTime)
      | Some iat \<Rightarrow>
          if now + cp_skew p < iat then Inl (invalid ReasonTime)
          else
            (case timeClaim (ce_num E) c ''exp'' of
               None \<Rightarrow> Inl (invalid ReasonTime)
             | Some ex \<Rightarrow>
                 if ex \<le> iat then Inl (invalid ReasonTime)
                 else if cp_maxttl p < time_sub ex iat then Inl (invalid ReasonTTL)
                 else if c ''nbf'' \<noteq> None \<and>
                         (case timeClaim (ce_num E) c ''nbf'' of
                            None \<Rightarrow> True | Some nbf \<Rightarrow> ex < nbf \<or> now + cp_skew p < nbf) then Inl (invalid ReasonTime)
                 else if cp_require_jti p \<and> stringClaim c ''jti'' = None then Inl (invalid ReasonJTI)
                 else if ex + cp_skew p < now then
                   Inl \<lparr> fl_reason = ReasonExpire, fl_expired = True, fl_unavailable = False, fl_retry = 0 \<rparr>
                 else Inr (iat, ex, (case stringClaim c ''jti'' of None \<Rightarrow> '''' | Some j \<Rightarrow> j))))"

definition ValidateClaims :: "claims_env \<Rightarrow> claims_policy \<Rightarrow> string \<Rightarrow> gtime \<Rightarrow> failure + principal" where
  "ValidateClaims E p payload now =
     (case decode_claims (ce_json E) payload of
        None \<Rightarrow> Inl (invalid ReasonFormat)
      | Some c \<Rightarrow>
          (case identity_claims E p c of
             Inl f \<Rightarrow> Inl f
           | Inr (clientID, sub, scopeRaw) \<Rightarrow>
               (case time_claims E p c now of
                  Inl f \<Rightarrow> Inl f
                | Inr (iat, ex, jti) \<Rightarrow>
                    Inr \<lparr> pr_client = clientID, pr_scopes = token_scopes scopeRaw, pr_subject = take 12 (ce_sha_hex E sub),
                          pr_expiry = ex, pr_issued = iat, pr_jti = jti \<rparr>)))"

subsection \<open>The verification of a token\<close>

record jws_header =
  jh_typ :: string
  jh_kid :: string
  jh_alg :: string

text \<open>\<open>jl_parse\<close> is \<open>ParseSignedCompact\<close> with the allowed algorithms (the headers of the signatures), \<open>jl_parse_any\<close> with
  every algorithm the library knows, \<open>jl_alg\<close> tells a readable header that names an algorithm,
  \<open>jl_verify\<close> checks the signature with a key and returns the payload.\<close>

record 'key jose_lib =
  jl_parse :: "string \<Rightarrow> jws_header list option"
  jl_parse_any :: "string \<Rightarrow> bool"
  jl_alg :: "string \<Rightarrow> bool"
  jl_verify :: "string \<Rightarrow> 'key \<Rightarrow> string option"
  jl_key_alg :: "'key \<Rightarrow> string"

definition MaxTokenBytes :: nat where "MaxTokenBytes = 8192"

datatype 'key lookup_result = LookupKey 'key | LookupUnknown | LookupUnavailable int

datatype verify_error = VMalformed | VUnknownKid | VBadSignature | VUnavailable int

text \<open>\<open>VerifySignature\<close>: \<open>look\<close> is what the key source answers for the token's kid.\<close>

definition VerifySignature :: "'key jose_lib \<Rightarrow> (string \<Rightarrow> 'key lookup_result) \<Rightarrow> string \<Rightarrow> verify_error + string" where
  "VerifySignature L look jwt =
     (case jl_parse L jwt of
        Some [hdr] \<Rightarrow>
          if jh_kid hdr = '''' then Inl VUnknownKid
          else
            (case look (jh_kid hdr) of
               LookupUnavailable n \<Rightarrow> Inl (VUnavailable n)
             | LookupUnknown \<Rightarrow> Inl VUnknownKid
             | LookupKey key \<Rightarrow>
                 if jl_key_alg L key \<noteq> '''' \<and> jl_key_alg L key \<noteq> jh_alg hdr then Inl VBadSignature
                 else (case jl_verify L jwt key of None \<Rightarrow> Inl VBadSignature | Some payload \<Rightarrow> Inr payload))
      | _ \<Rightarrow> Inl VMalformed)"

definition classifyParseError :: "'key jose_lib \<Rightarrow> string \<Rightarrow> reason" where
  "classifyParseError L token = (if jl_parse_any L token \<or> jl_alg L token then ReasonAlg else ReasonFormat)"

definition Verify ::
    "claims_env \<Rightarrow> 'key jose_lib \<Rightarrow> claims_policy \<Rightarrow> (string \<Rightarrow> 'key lookup_result) \<Rightarrow> string \<Rightarrow> gtime \<Rightarrow> failure + principal" where
  "Verify E L p look token now =
     (if token = '''' \<or> MaxTokenBytes < length token then Inl (invalid ReasonFormat)
      else
        (case jl_parse L token of
           Some [hdr] \<Rightarrow>
             if \<not> js_fold (ce_json E) (jh_typ hdr) ''JWT'' \<and> \<not> js_fold (ce_json E) (jh_typ hdr) ''at+jwt'' then
               Inl (invalid ReasonTyp)
             else if jh_kid hdr = '''' then Inl (invalid ReasonKid)
             else
               (case VerifySignature L look token of
                  Inl (VUnavailable n) \<Rightarrow>
                    Inl \<lparr> fl_reason = ReasonJWKS, fl_expired = False, fl_unavailable = True, fl_retry = n \<rparr>
                | Inl VUnknownKid \<Rightarrow> Inl (invalid ReasonKid)
                | Inl VMalformed \<Rightarrow> Inl (invalid ReasonFormat)
                | Inl VBadSignature \<Rightarrow> Inl (invalid ReasonSig)
                | Inr payload \<Rightarrow> ValidateClaims E p payload now)
         | _ \<Rightarrow> Inl (invalid (classifyParseError L token))))"

subsection \<open>What an accepted token proves\<close>

lemma identity_claims_Inr:
  "identity_claims E p c = Inr (client, sub, scopes) \<longleftrightarrow>
     stringClaim c ''typ'' = Some ''Bearer'' \<and> stringClaim c ''iss'' = Some (cp_issuer p) \<and>
     audienceHas (ce_json E) (c ''aud'') (cp_audience p) \<and> stringClaim c ''azp'' = Some client \<and>
     stringClaim c ''client_id'' = Some client \<and> client \<in> set (cp_clients p) \<and> client \<notin> set (cp_denied p) \<and>
     stringClaim c ''preferred_username'' = Some (cp_prefix p @ client) \<and> stringClaim c ''sub'' = Some sub \<and>
     stringClaim c ''scope'' = Some scopes"
  by (auto simp: identity_claims_def split: option.splits if_splits)

definition in_time :: "claims_env \<Rightarrow> claims_policy \<Rightarrow> claims \<Rightarrow> gtime \<Rightarrow> gtime \<Rightarrow> gtime \<Rightarrow> bool" where
  "in_time E p c now iat ex \<longleftrightarrow> timeClaim (ce_num E) c ''iat'' = Some iat \<and> timeClaim (ce_num E) c ''exp'' = Some ex \<and>
     iat \<le> now + cp_skew p \<and> iat < ex \<and> time_sub ex iat \<le> cp_maxttl p \<and>
     (c ''nbf'' = None \<or> (\<exists>nbf. timeClaim (ce_num E) c ''nbf'' = Some nbf \<and> nbf \<le> ex \<and> nbf \<le> now + cp_skew p)) \<and>
     (cp_require_jti p \<longrightarrow> stringClaim c ''jti'' \<noteq> None)"

lemma time_claims_Inr:
  "time_claims E p c now = Inr (iat, ex, jti) \<longleftrightarrow> in_time E p c now iat ex \<and> now \<le> ex + cp_skew p \<and>
     jti = (case stringClaim c ''jti'' of None \<Rightarrow> '''' | Some j \<Rightarrow> j)"
  by (auto simp: time_claims_def in_time_def split: option.splits if_splits)

lemma time_claims_expired:
  "time_claims E p c now = Inl f \<and> fl_reason f = ReasonExpire \<longleftrightarrow>
     (\<exists>iat ex. in_time E p c now iat ex \<and> ex + cp_skew p < now) \<and>
     f = \<lparr> fl_reason = ReasonExpire, fl_expired = True, fl_unavailable = False, fl_retry = 0 \<rparr>"
  by (auto simp: time_claims_def in_time_def invalid_def split: option.splits if_splits)

lemma identity_not_expired: "identity_claims E p c = Inl f \<Longrightarrow> fl_reason f \<noteq> ReasonExpire"
  by (auto simp: identity_claims_def invalid_def split: option.splits if_splits)

lemma ValidateClaims_Inr:
  "ValidateClaims E p payload now = Inr pr \<longleftrightarrow>
     (\<exists>c sub scopes iat ex jti. decode_claims (ce_json E) payload = Some c \<and>
        identity_claims E p c = Inr (pr_client pr, sub, scopes) \<and> time_claims E p c now = Inr (iat, ex, jti) \<and>
        pr = \<lparr> pr_client = pr_client pr, pr_scopes = token_scopes scopes, pr_subject = take 12 (ce_sha_hex E sub),
               pr_expiry = ex, pr_issued = iat, pr_jti = jti \<rparr>)"
  by (auto simp: ValidateClaims_def split: option.splits sum.splits)

definition expired_at :: "claims_env \<Rightarrow> claims_policy \<Rightarrow> string \<Rightarrow> gtime \<Rightarrow> bool" where
  "expired_at E p payload now \<longleftrightarrow> (\<exists>f. ValidateClaims E p payload now = Inl f \<and> fl_expired f)"

lemma flagged_expired: "time_claims E p c now = Inl f \<Longrightarrow> fl_expired f \<longleftrightarrow> fl_reason f = ReasonExpire"
  by (auto simp: time_claims_def invalid_def split: option.splits if_splits)

lemma flagged_identity: "identity_claims E p c = Inl f \<Longrightarrow> \<not> fl_expired f"
  by (auto simp: identity_claims_def invalid_def split: option.splits if_splits)

lemma expired_at_exact:
  "expired_at E p payload now \<longleftrightarrow>
     (\<exists>c x iat ex. decode_claims (ce_json E) payload = Some c \<and> identity_claims E p c = Inr x \<and>
        in_time E p c now iat ex \<and> ex + cp_skew p < now)"
proof -
  have "expired_at E p payload now \<longleftrightarrow>
     (\<exists>c x f. decode_claims (ce_json E) payload = Some c \<and> identity_claims E p c = Inr x \<and>
        time_claims E p c now = Inl f \<and> fl_reason f = ReasonExpire)"
    using flagged_identity flagged_expired
    by (fastforce simp: expired_at_def ValidateClaims_def invalid_def split: option.splits sum.splits)
  then show ?thesis unfolding time_claims_expired by blast
qed

text \<open>A token is acceptable during one interval, whose length the policy bounds.\<close>

lemma in_time_later:
  assumes "in_time E p c now iat ex" "now \<le> later"
  shows "in_time E p c later iat ex"
  using assms unfolding in_time_def by auto

text \<open>the life of a token. A token is accepted only inside a window no longer than the configured maximal life plus the clock
  skew on both sides, so no two acceptances lie further apart; it is reported as expired (and not as
  invalid) only if it was acceptable at an earlier instant, so a client that renews on expiry renews a
  token that was good; and once expired it is expired for ever.\<close>

theorem token_lifetime:
  assumes "0 \<le> cp_skew p" "cp_maxttl p < max_duration"
  shows "(ValidateClaims E p payload t1 = Inr pr1 \<and> ValidateClaims E p payload t2 = Inr pr2 \<longrightarrow>
      t2 - t1 \<le> cp_maxttl p + 2 * cp_skew p) \<and>
    (expired_at E p payload now \<longrightarrow> (\<exists>t < now. \<exists>pr. ValidateClaims E p payload t = Inr pr) \<and>
      (\<forall>t \<ge> now. expired_at E p payload t \<and> (\<forall>pr. ValidateClaims E p payload t \<noteq> Inr pr)))"
proof (intro conjI impI)
  assume a: "ValidateClaims E p payload t1 = Inr pr1 \<and> ValidateClaims E p payload t2 = Inr pr2"
  then obtain c iat ex j iat' ex' j' where c: "time_claims E p c t1 = Inr (iat, ex, j)" "time_claims E p c t2 = Inr (iat', ex', j')"
    unfolding ValidateClaims_Inr by (metis option.inject)
  then have "iat' = iat" "ex' = ex" by (auto simp: time_claims_Inr in_time_def)
  with c have "iat \<le> t1 + cp_skew p" "t2 \<le> ex + cp_skew p" "time_sub ex iat \<le> cp_maxttl p" "iat < ex"
    by (auto simp: time_claims_Inr in_time_def)
  moreover from this(3,4) assms(2) have "ex - iat \<le> cp_maxttl p"
    using time_sub_le_iff [of "cp_maxttl p" ex iat] by (auto simp: time_sub_def min_duration_def max_duration_def split: if_splits)
  ultimately show "t2 - t1 \<le> cp_maxttl p + 2 * cp_skew p" by linarith
next
  assume a: "expired_at E p payload now"
  then obtain c x iat ex where c: "decode_claims (ce_json E) payload = Some c" "identity_claims E p c = Inr x"
    "in_time E p c now iat ex" "ex + cp_skew p < now" unfolding expired_at_exact by blast
  obtain client sub scopes where x: "x = (client, sub, scopes)" by (cases x)
  have "in_time E p c ex iat ex" using c(3) assms(1) unfolding in_time_def by auto
  then obtain jti where "time_claims E p c ex = Inr (iat, ex, jti)" using assms(1) by (simp add: time_claims_Inr)
  then have "\<exists>pr. ValidateClaims E p payload ex = Inr pr" using c x by (simp add: ValidateClaims_def)
  moreover have "ex < now" using c(4) assms(1) by linarith
  ultimately show "\<exists>t < now. \<exists>pr. ValidateClaims E p payload t = Inr pr" by blast
  show "\<forall>t \<ge> now. expired_at E p payload t \<and> (\<forall>pr. ValidateClaims E p payload t \<noteq> Inr pr)"
  proof (intro allI impI conjI)
    fix t pr
    assume t: "now \<le> t"
    from c(4) t have "ex + cp_skew p < t" by linarith
    with c in_time_later [OF c(3) t] show e: "expired_at E p payload t" unfolding expired_at_exact by blast
    then show "ValidateClaims E p payload t \<noteq> Inr pr" by (auto simp: expired_at_def)
  qed
qed

text \<open>C36: no principal without a signature. A token yields a principal only if it is not longer than 8 KiB, is one JWS with an allowed
  algorithm and one signature, the key source gave a key for its kid, that key names no other algorithm and verifies
  the token, and the payload it verifies, not anything the header says, names the configured issuer and audience and a client
  that is on the list, is not the browser client, and is its own service account.\<close>

theorem principal_vouched:
  assumes "Verify E L p look token now = Inr pr"
  shows "length token \<le> MaxTokenBytes \<and>
    (\<exists>hdr key payload c. jl_parse L token = Some [hdr] \<and> look (jh_kid hdr) = LookupKey key \<and>
       (jl_key_alg L key = '''' \<or> jl_key_alg L key = jh_alg hdr) \<and> jl_verify L token key = Some payload \<and>
       decode_claims (ce_json E) payload = Some c \<and> stringClaim c ''iss'' = Some (cp_issuer p) \<and>
       audienceHas (ce_json E) (c ''aud'') (cp_audience p) \<and> stringClaim c ''client_id'' = Some (pr_client pr) \<and>
       stringClaim c ''azp'' = Some (pr_client pr) \<and> stringClaim c ''preferred_username'' = Some (cp_prefix p @ pr_client pr) \<and>
       pr_client pr \<in> set (cp_clients p) \<and> pr_client pr \<notin> set (cp_denied p) \<and>
       pr_issued pr \<le> now + cp_skew p \<and> now \<le> pr_expiry pr + cp_skew p)"
proof -
  from assms obtain hdr where h: "length token \<le> MaxTokenBytes" "jl_parse L token = Some [hdr]" "jh_kid hdr \<noteq> ''''"
    and s: "\<exists>payload. VerifySignature L look token = Inr payload \<and> ValidateClaims E p payload now = Inr pr"
    by (auto simp: Verify_def split: if_splits option.splits list.splits sum.splits verify_error.splits)
  from s obtain payload where p: "VerifySignature L look token = Inr payload" "ValidateClaims E p payload now = Inr pr" by blast
  from p(1) h obtain key where k: "look (jh_kid hdr) = LookupKey key" "jl_key_alg L key = '''' \<or> jl_key_alg L key = jh_alg hdr"
    "jl_verify L token key = Some payload"
    by (auto simp: VerifySignature_def split: lookup_result.splits if_splits option.splits)
  from p(2) obtain c sub scopes iat ex jti where c: "decode_claims (ce_json E) payload = Some c"
    "identity_claims E p c = Inr (pr_client pr, sub, scopes)" "time_claims E p c now = Inr (iat, ex, jti)"
    "pr_expiry pr = ex" "pr_issued pr = iat"
    unfolding ValidateClaims_Inr by (metis principal.select_convs(4,5))
  with h k show ?thesis unfolding identity_claims_Inr time_claims_Inr in_time_def by blast
qed

subsection \<open>A concrete token\<close>

definition tok_json :: json_lib where
  "tok_json = \<lparr> js_parse = (\<lambda>s. Some (JObj [(''typ'', JStr ''Bearer''), (''iss'', JStr ''i''), (''aud'', JArr [JStr ''api'']),
       (''azp'', JStr ''app''), (''client_id'', JStr ''app''), (''preferred_username'', JStr ''sa-app''), (''sub'', JStr ''u''),
       (''scope'', JStr ''directory.users.read b''), (''iat'', JNum ''1''), (''exp'', JNum ''2'')], [])),
     js_fold = (\<lambda>a b. a = b), js_blank = (\<lambda>s. s = []), js_media = (\<lambda>s. True), js_print = (\<lambda>j. []) \<rparr>"

definition tok_env :: claims_env where
  "tok_env = \<lparr> ce_json = tok_json, ce_num = (\<lambda>s. if s = ''1'' then Some 100 else Some 160), ce_sha_hex = (\<lambda>s. s) \<rparr>"

definition tok_policy :: claims_policy where
  "tok_policy = \<lparr> cp_issuer = ''i'', cp_audience = ''api'', cp_clients = [''app''], cp_denied = [''web''], cp_prefix = ''sa-'',
     cp_maxttl = 300 * second_ns, cp_skew = 10 * second_ns, cp_require_jti = False \<rparr>"

definition tok_jose :: "unit jose_lib" where
  "tok_jose = \<lparr> jl_parse = (\<lambda>t. Some [\<lparr> jh_typ = ''JWT'', jh_kid = ''k'', jh_alg = ''RS256'' \<rparr>]), jl_parse_any = (\<lambda>t. True),
     jl_alg = (\<lambda>t. True), jl_verify = (\<lambda>t k. Some t), jl_key_alg = (\<lambda>k. []) \<rparr>"

definition tok_time :: "int \<Rightarrow> gtime" where "tok_time s = (unix_epoch_s + s) * second_ns"

lemma tok_decoded: "\<exists>c. decode_claims tok_json t = Some c \<and> identity_claims tok_env tok_policy c = Inr (''app'', ''u'', ''directory.users.read b'') \<and>
    c ''nbf'' = None \<and> c ''iat'' = Some (JNum ''1'') \<and> c ''exp'' = Some (JNum ''2'')"
  by (simp add: decode_claims_def identity_claims_Inr)
     (simp add: tok_json_def tok_env_def tok_policy_def stringClaim_def audienceHas_def TrimSpace_def asciiSpace_def)

lemma tok_in_time:
  "\<exists>c. decode_claims tok_json t = Some c \<and> identity_claims tok_env tok_policy c = Inr (''app'', ''u'', ''directory.users.read b'') \<and>
     (90 \<le> s \<longrightarrow> in_time tok_env tok_policy c (tok_time s) (tok_time 100) (tok_time 160))"
  using tok_decoded [of t]
  by (elim exE) (rule exI, auto simp: in_time_def timeClaim_def numericDate_def tok_env_def tok_policy_def tok_time_def second_ns_def
      time_sub_def max_duration_def min_duration_def)

lemma tok_accepted: "\<exists>pr. ValidateClaims tok_env tok_policy t (tok_time 120) = Inr pr \<and> pr_client pr = ''app''"
proof -
  obtain c where c: "decode_claims tok_json t = Some c" "identity_claims tok_env tok_policy c = Inr (''app'', ''u'', ''directory.users.read b'')"
    "in_time tok_env tok_policy c (tok_time 120) (tok_time 100) (tok_time 160)"
    using tok_in_time [of t 120] by auto
  then obtain j where "time_claims tok_env tok_policy c (tok_time 120) = Inr (tok_time 100, tok_time 160, j)"
    by (simp add: time_claims_Inr) (simp add: tok_policy_def tok_time_def second_ns_def)
  with c show ?thesis by (simp add: ValidateClaims_def) (simp add: tok_env_def)
qed

theorem token_lifetime_witness:
  "expired_at tok_env tok_policy ''t'' (tok_time 171) \<and>
   (\<exists>t < tok_time 171. \<exists>pr. ValidateClaims tok_env tok_policy ''t'' t = Inr pr)"
proof -
  obtain c where c: "decode_claims tok_json ''t'' = Some c" "identity_claims tok_env tok_policy c = Inr (''app'', ''u'', ''directory.users.read b'')"
    "in_time tok_env tok_policy c (tok_time 171) (tok_time 100) (tok_time 160)"
    using tok_in_time [of "''t''" 171] by auto
  have "tok_time 160 + cp_skew tok_policy < tok_time 171"
    by (simp add: tok_policy_def tok_time_def second_ns_def)
  with c have "expired_at tok_env tok_policy ''t'' (tok_time 171)"
    unfolding expired_at_exact by (auto simp: tok_env_def)
  moreover have "0 \<le> cp_skew tok_policy" "cp_maxttl tok_policy < max_duration"
    by (simp_all add: tok_policy_def second_ns_def max_duration_def)
  ultimately show ?thesis using token_lifetime [of tok_policy tok_env "''t''"] by blast
qed

theorem principal_vouched_witness:
  "\<exists>pr. Verify tok_env tok_jose tok_policy (\<lambda>k. LookupKey ()) ''t'' (tok_time 120) = Inr pr \<and> pr_client pr \<in> {''app''}"
proof -
  obtain pr where "ValidateClaims tok_env tok_policy ''t'' (tok_time 120) = Inr pr" using tok_accepted by blast
  moreover have "VerifySignature tok_jose (\<lambda>k. LookupKey ()) ''t'' = Inr ''t''"
    by (simp add: VerifySignature_def tok_jose_def)
  moreover have "jl_parse tok_jose t = Some [\<lparr> jh_typ = ''JWT'', jh_kid = ''k'', jh_alg = ''RS256'' \<rparr>]" for t
    by (simp add: tok_jose_def)
  moreover have "js_fold (ce_json tok_env) ''JWT'' ''JWT''" by (simp add: tok_env_def tok_json_def)
  ultimately have v: "Verify tok_env tok_jose tok_policy (\<lambda>k. LookupKey ()) ''t'' (tok_time 120) = Inr pr"
    by (simp add: Verify_def MaxTokenBytes_def)
  with principal_vouched [OF v] show ?thesis by (auto simp: tok_policy_def)
qed

end
