(* ===== verification/KeySource.thy ===== *)
theory KeySource
  imports MachineClaims "HOL-Library.Word" "HOL-Library.Signed_Division"
begin

text \<open>
  The signing keys of the identity provider: \<open>machineauth/keyset.go\<close>. A lookup of a kid is answered from the keys of the last
  successful refresh, or waits for the single refresh in flight; the gate \<open>ks_r\<close> bounds how often a refresh starts.

  A section under the mutex is one definition; what a goroutine does after a wait is a section of its own. The answers of
  the two fetches, \<open>encoding/json\<close> and the JWK parser are arguments.
\<close>

subsection \<open>State\<close>

record 'key keyset =
  ks_discovered :: bool
  ks_uri :: string
  ks_keys :: "string \<rightharpoonup> 'key"
  ks_s :: gtime
  ks_r :: gtime
  ks_fails :: nat
  ks_neg :: "string \<rightharpoonup> gtime"
  ks_inflight :: bool

record keyset_config =
  kc_issuer :: string
  kc_algs :: "string list"
  kc_insecure :: bool
  kc_ttl :: duration
  kc_max_stale :: duration
  kc_min :: duration

definition NewKeySet :: "'key keyset" where
  "NewKeySet = \<lparr> ks_discovered = False, ks_uri = '''', ks_keys = Map.empty, ks_s = 0, ks_r = 0, ks_fails = 0,
     ks_neg = Map.empty, ks_inflight = False \<rparr>"

text \<open>\<open>time.Duration\<close> is a 64-bit integer; its sums and products wrap around.\<close>

definition int64 :: "int \<Rightarrow> int" where "int64 x = sint (word_of_int x :: 64 word)"

lemma int64_small: "min_duration \<le> x \<Longrightarrow> x \<le> max_duration \<Longrightarrow> int64 x = x"
  by (simp add: int64_def sint_sbintrunc' signed_take_bit_int_eq_self min_duration_def max_duration_def)

datatype keyState = stateNone | stateFresh | stateStale | stateExpired

definition stateLocked :: "keyset_config \<Rightarrow> 'key keyset \<Rightarrow> gtime \<Rightarrow> keyState" where
  "stateLocked cfg k now =
     (if \<not> ks_discovered k then stateNone
      else (let age = time_sub now (ks_s k)
            in if age \<le> kc_ttl cfg then stateFresh
               else if age \<le> int64 (kc_ttl cfg + kc_max_stale cfg) then stateStale
               else stateExpired))"

definition maxRetryAfter :: duration where "maxRetryAfter = 300 * second_ns"

text \<open>The doubling loop, at most \<open>n\<close> times.\<close>

fun double_until :: "nat \<Rightarrow> duration \<Rightarrow> duration \<Rightarrow> duration" where
  "double_until 0 limit d = d"
| "double_until (Suc n) limit d = (if d < limit then double_until n limit (int64 (2 * d)) else d)"

definition backoff :: "keyset_config \<Rightarrow> nat \<Rightarrow> duration" where
  "backoff cfg n =
     (let limit = max maxRetryAfter (kc_min cfg); d = double_until (n - 1) limit (kc_min cfg)
      in if limit < d then limit else d)"

text \<open>Go's division truncates.\<close>

definition ks_ceilSeconds :: "duration \<Rightarrow> int" where
  "ks_ceilSeconds d =
     (let n = int64 (d + second_ns - 1) sdiv second_ns
      in if n < 1 then 1 else if 300 < n then 300 else n)"

subsection \<open>One refresh\<close>

datatype refresh_error = RefreshFetch | RefreshDocument | IssuerMismatch | RefreshURL | TooManyKeys | NoUsableKey

record 'key jwk =
  jk_kid :: string
  jk_use :: string
  jk_alg :: string
  jk_public :: bool
  jk_valid :: bool
  jk_key :: 'key

text \<open>\<open>jk_discovery\<close> reads issuer and \<open>jwks_uri\<close> of a discovery document, \<open>jk_keys\<close> the members of a key set, each
  \<open>None\<close> when the JWK parser refuses it; \<open>jk_lower\<close> is \<open>strings.ToLower\<close>.\<close>

record 'key jwk_lib =
  jk_discovery :: "string \<Rightarrow> (string \<times> string) option"
  jk_keys :: "string \<Rightarrow> 'key jwk option list option"
  jk_lower :: "string \<Rightarrow> string"

definition MaxJWKSKeys :: nat where "MaxJWKSKeys = 20"

definition httpsOrAllowed :: "'key jwk_lib \<Rightarrow> string \<Rightarrow> bool \<Rightarrow> bool" where
  "httpsOrAllowed L raw insecure \<longleftrightarrow>
     has_prefix (jk_lower L raw) ''https://'' \<or> insecure \<and> has_prefix (jk_lower L raw) ''http://''"

definition usable_key :: "string list \<Rightarrow> 'key jwk \<Rightarrow> bool" where
  "usable_key algs j \<longleftrightarrow> jk_kid j \<noteq> '''' \<and> (jk_use j = '''' \<or> jk_use j = ''sig'') \<and> jk_public j \<and> jk_valid j \<and>
     (jk_alg j = '''' \<or> jk_alg j \<in> set algs)"

fun collect_keys :: "string list \<Rightarrow> 'key jwk option list \<Rightarrow> (string \<rightharpoonup> 'key) \<Rightarrow> (string \<rightharpoonup> 'key)" where
  "collect_keys algs [] out = out"
| "collect_keys algs (None # js) out = collect_keys algs js out"
| "collect_keys algs (Some j # js) out =
     (if usable_key algs j \<and> out (jk_kid j) = None then collect_keys algs js (out(jk_kid j \<mapsto> jk_key j))
      else collect_keys algs js out)"

definition parseJWKS :: "'key jwk_lib \<Rightarrow> string list \<Rightarrow> string \<Rightarrow> refresh_error + (string \<rightharpoonup> 'key)" where
  "parseJWKS L algs body =
     (case jk_keys L body of
        None \<Rightarrow> Inl RefreshDocument
      | Some raws \<Rightarrow>
          if MaxJWKSKeys < length raws then Inl TooManyKeys
          else if \<not> list_ex (\<lambda>r. case r of None \<Rightarrow> False | Some j \<Rightarrow> usable_key algs j) raws then Inl NoUsableKey
          else Inr (collect_keys algs raws Map.empty))"

text \<open>\<open>fetch\<close> is what the fetcher answers for a URL during this refresh.\<close>

definition trim_slash :: "string \<Rightarrow> string" where
  "trim_slash s = (if has_suffix s ''/'' then take (length s - 1) s else s)"

definition discovery_url :: "string \<Rightarrow> string" where
  "discovery_url issuer = trim_slash issuer @ ''/.well-known/openid-configuration''"

definition fetchAll ::
    "'key jwk_lib \<Rightarrow> keyset_config \<Rightarrow> 'key keyset \<Rightarrow> (string \<Rightarrow> string option) \<Rightarrow> refresh_error + string \<times> (string \<rightharpoonup> 'key)" where
  "fetchAll L cfg k fetch =
     (let uri =
        (if ks_discovered k then Inr (ks_uri k)
         else (case fetch (discovery_url (kc_issuer cfg)) of
                 None \<Rightarrow> Inl RefreshFetch
               | Some doc \<Rightarrow>
                   (case jk_discovery L doc of
                      None \<Rightarrow> Inl RefreshDocument
                    | Some (issuer, jwks) \<Rightarrow>
                        if issuer \<noteq> kc_issuer cfg then Inl IssuerMismatch
                        else if \<not> httpsOrAllowed L jwks (kc_insecure cfg) then Inl RefreshURL
                        else Inr jwks)))
      in case uri of
           Inl e \<Rightarrow> Inl e
         | Inr u \<Rightarrow>
             (case fetch u of
                None \<Rightarrow> Inl RefreshFetch
              | Some body \<Rightarrow> (case parseJWKS L (kc_algs cfg) body of Inl e \<Rightarrow> Inl e | Inr keys \<Rightarrow> Inr (u, keys))))"

text \<open>What the flight carries to those that wait for it: the retry delay of a failure.\<close>

datatype flight = FlightOk | FlightFailed refresh_error int

definition ks_refresh ::
    "keyset_config \<Rightarrow> gtime \<Rightarrow> refresh_error + string \<times> (string \<rightharpoonup> 'key) \<Rightarrow> 'key keyset \<Rightarrow> 'key keyset \<times> flight" where
  "ks_refresh cfg t outcome k =
     (case outcome of
        Inl e \<Rightarrow>
          (let b = backoff cfg (ks_fails k + 1)
           in (k\<lparr> ks_fails := ks_fails k + 1, ks_r := t + b, ks_inflight := False \<rparr>, FlightFailed e (ks_ceilSeconds b)))
      | Inr (uri, keys) \<Rightarrow>
          (k\<lparr> ks_keys := keys, ks_uri := uri, ks_discovered := True, ks_s := t, ks_fails := 0, ks_r := t + kc_min cfg,
              ks_neg := Map.empty, ks_inflight := False \<rparr>, FlightOk))"

subsection \<open>A lookup\<close>

definition startFlightLocked :: "'key keyset \<Rightarrow> 'key keyset" where
  "startFlightLocked k = k\<lparr> ks_inflight := True \<rparr>"

definition maxNeg :: nat where "maxNeg = 256"

definition earliest_neg :: "(string \<rightharpoonup> gtime) \<Rightarrow> string list \<Rightarrow> string \<times> gtime" where
  "earliest_neg neg ids =
     foldl (\<lambda>(victim, earliest) i. case neg i of
              None \<Rightarrow> (victim, earliest)
            | Some e \<Rightarrow> if victim = '''' \<or> e < earliest then (i, e) else (victim, earliest)) ('''', 0) ids"

definition putNegLocked :: "((string \<rightharpoonup> gtime) \<Rightarrow> string list) \<Rightarrow> string \<Rightarrow> 'key keyset \<Rightarrow> 'key keyset" where
  "putNegLocked ord kid k =
     (let neg = (if maxNeg \<le> mlen (ks_neg k) then (ks_neg k)(fst (earliest_neg (ks_neg k) (ord (ks_neg k))) := None)
                 else ks_neg k)
      in k\<lparr> ks_neg := neg(kid \<mapsto> ks_r k) \<rparr>)"

text \<open>The section of one attempt: an answer, or a wait after which the table is evaluated again (rows 1 and 2) or the
  kid is looked up in the new keys (row 7).\<close>

datatype 'key lookup_step = Answer "'key lookup_result" | AwaitAgain | AwaitKeys

definition ks_lookup ::
    "keyset_config \<Rightarrow> ((string \<rightharpoonup> gtime) \<Rightarrow> string list) \<Rightarrow> gtime \<Rightarrow> string \<Rightarrow> 'key keyset \<Rightarrow> 'key keyset \<times> 'key lookup_step" where
  "ks_lookup cfg ord now kid k =
     (let st = stateLocked cfg k now; gate = (\<not> now < ks_r k)
      in if st = stateNone \<or> st = stateExpired then
           (if \<not> gate then (k, Answer (LookupUnavailable (ks_ceilSeconds (time_sub (ks_r k) now))))
            else (startFlightLocked k, AwaitAgain))
         else
           (case ks_keys k kid of
              Some key \<Rightarrow> (if st = stateStale \<and> gate then startFlightLocked k else k, Answer (LookupKey key))
            | None \<Rightarrow>
                if (case ks_neg k kid of None \<Rightarrow> False | Some e \<Rightarrow> now < e) then (k, Answer LookupUnknown)
                else if \<not> gate then
                  (if ks_fails k = 0 then (putNegLocked ord kid k, Answer LookupUnknown)
                   else (k, Answer (LookupUnavailable (ks_ceilSeconds (time_sub (ks_r k) now)))))
                else (startFlightLocked k, AwaitKeys)))"

text \<open>The section after a successful wait in row 7.\<close>

definition ks_after_wait :: "((string \<rightharpoonup> gtime) \<Rightarrow> string list) \<Rightarrow> string \<Rightarrow> 'key keyset \<Rightarrow> 'key keyset \<times> 'key lookup_result" where
  "ks_after_wait ord kid k =
     (case ks_keys k kid of Some key \<Rightarrow> (k, LookupKey key) | None \<Rightarrow> (putNegLocked ord kid k, LookupUnknown))"

text \<open>The start-up attempt: one refresh, waited for until the context ends (\<open>gone\<close>; the flight then goes on). Only another issuer
  in the discovery document matters to the caller.\<close>

datatype init_error = InitGone | InitIssuer

definition KeySet_Init ::
    "keyset_config \<Rightarrow> bool \<Rightarrow> gtime \<Rightarrow> refresh_error + string \<times> (string \<rightharpoonup> 'key) \<Rightarrow> 'key keyset \<Rightarrow> 'key keyset \<times> init_error option" where
  "KeySet_Init cfg gone t outcome k =
     (let k1 = startFlightLocked k in
      if gone then (k1, Some InitGone)
      else case ks_refresh cfg t outcome k1 of
        (k2, FlightOk) \<Rightarrow> (k2, None)
      | (k2, FlightFailed e retry) \<Rightarrow> (k2, if e = IssuerMismatch then Some InitIssuer else None))"

text \<open>The timer of \<open>Run\<close>: a refresh while nothing was ever loaded, when the gate allows it; and its delay.\<close>

definition RetryDiscovery :: "gtime \<Rightarrow> 'key keyset \<Rightarrow> 'key keyset" where
  "RetryDiscovery now k = (if ks_discovered k \<or> now < ks_r k then k else startFlightLocked k)"

definition run_wait :: "gtime \<Rightarrow> 'key keyset \<Rightarrow> duration option" where
  "run_wait now k = (if ks_discovered k then None else Some (max 100000000 (time_sub (ks_r k) now)))"

end
