(* ===== verification/KeySourceProps.thy ===== *)
theory KeySourceProps
  imports KeySource
begin

text \<open>
  The key source under concurrent lookups: the histories of its sections, what every answer is worth and how
  often the identity provider is asked.
\<close>

subsection \<open>Histories\<close>

text \<open>A goroutine that waits: the kid, when the lookup began, its attempt, whether it waits in row 7, and what its
  flight brought once it has landed.\<close>

record waiter =
  wt_kid :: string
  wt_arrived :: gtime
  wt_attempt :: nat
  wt_row7 :: bool
  wt_flight :: "flight option"

text \<open>\<open>kw_starts\<close>, \<open>kw_loads\<close> and \<open>kw_answers\<close> record, newest first, when a refresh began, what each
  successful one installed, and what every lookup answered; no section reads them.\<close>

record 'key key_world =
  kw_now :: gtime
  kw_set :: "'key keyset"
  kw_waiting :: "waiter list"
  kw_starts :: "gtime list"
  kw_loads :: "(gtime \<times> (string \<rightharpoonup> 'key)) list"
  kw_answers :: "(string \<times> gtime \<times> 'key lookup_result) list"

definition install :: "'key keyset \<Rightarrow> 'key key_world \<Rightarrow> 'key key_world" where
  "install k w = w\<lparr> kw_set := k,
     kw_starts := (if ks_inflight k \<and> \<not> ks_inflight (kw_set w) then kw_now w # kw_starts w else kw_starts w) \<rparr>"

definition answer :: "string \<Rightarrow> gtime \<Rightarrow> 'key lookup_result \<Rightarrow> 'key key_world \<Rightarrow> 'key key_world" where
  "answer kid arrived a w = w\<lparr> kw_answers := (kid, arrived, a) # kw_answers w \<rparr>"

text \<open>One pass of the loop of \<open>lookup\<close>, which makes at most three.\<close>

definition kw_attempt ::
    "keyset_config \<Rightarrow> ((string \<rightharpoonup> gtime) \<Rightarrow> string list) \<Rightarrow> string \<Rightarrow> gtime \<Rightarrow> nat \<Rightarrow> 'key key_world \<Rightarrow> 'key key_world" where
  "kw_attempt cfg ord kid arrived n w =
     (if 3 \<le> n then answer kid arrived (LookupUnavailable 1) w
      else
        (case ks_lookup cfg ord (kw_now w) kid (kw_set w) of
           (k, Answer a) \<Rightarrow> answer kid arrived a (install k w)
         | (k, AwaitAgain) \<Rightarrow>
             (install k w)\<lparr> kw_waiting := kw_waiting w @ [\<lparr> wt_kid = kid, wt_arrived = arrived, wt_attempt = n, wt_row7 = False, wt_flight = None \<rparr>] \<rparr>
         | (k, AwaitKeys) \<Rightarrow>
             (install k w)\<lparr> kw_waiting := kw_waiting w @ [\<lparr> wt_kid = kid, wt_arrived = arrived, wt_attempt = n, wt_row7 = True, wt_flight = None \<rparr>] \<rparr>))"

text \<open>What a goroutine does when it runs again after its flight.\<close>

definition kw_resumed ::
    "keyset_config \<Rightarrow> ((string \<rightharpoonup> gtime) \<Rightarrow> string list) \<Rightarrow> waiter \<Rightarrow> flight \<Rightarrow> 'key key_world \<Rightarrow> 'key key_world" where
  "kw_resumed cfg ord t f w =
     (case f of
        FlightFailed e n \<Rightarrow> answer (wt_kid t) (wt_arrived t) (LookupUnavailable n) w
      | FlightOk \<Rightarrow>
          if wt_row7 t then
            (case ks_after_wait ord (wt_kid t) (kw_set w) of (k, a) \<Rightarrow> answer (wt_kid t) (wt_arrived t) a (install k w))
          else kw_attempt cfg ord (wt_kid t) (wt_arrived t) (wt_attempt t + 1) w)"

definition land :: "flight \<Rightarrow> waiter \<Rightarrow> waiter" where
  "land f t = (if wt_flight t = None then t\<lparr> wt_flight := Some f \<rparr> else t)"

definition kw_finished :: "keyset_config \<Rightarrow> refresh_error + string \<times> (string \<rightharpoonup> 'key) \<Rightarrow> 'key key_world \<Rightarrow> 'key key_world" where
  "kw_finished cfg outcome w =
     (case ks_refresh cfg (kw_now w) outcome (kw_set w) of
        (k, f) \<Rightarrow> w\<lparr> kw_set := k, kw_waiting := map (land f) (kw_waiting w),
          kw_loads := (case outcome of Inl e \<Rightarrow> kw_loads w | Inr (uri, keys) \<Rightarrow> (kw_now w, keys) # kw_loads w) \<rparr>)"

definition kw_begin :: "gtime \<Rightarrow> 'key key_world" where
  "kw_begin t = \<lparr> kw_now = t, kw_set = startFlightLocked NewKeySet, kw_waiting = [], kw_starts = [t], kw_loads = [], kw_answers = [] \<rparr>"

text \<open>Every refresh outcome is possible, and goroutines run in any order.\<close>

inductive kw_reachable :: "keyset_config \<Rightarrow> ((string \<rightharpoonup> gtime) \<Rightarrow> string list) \<Rightarrow> 'key key_world \<Rightarrow> bool" for cfg ord where
  kw_init: "0 < t \<Longrightarrow> kw_reachable cfg ord (kw_begin t)"
| kw_time: "kw_reachable cfg ord w \<Longrightarrow> kw_now w \<le> t \<Longrightarrow> kw_reachable cfg ord (w\<lparr> kw_now := t \<rparr>)"
| kw_look: "kw_reachable cfg ord w \<Longrightarrow> kw_reachable cfg ord (kw_attempt cfg ord kid (kw_now w) 0 w)"
| kw_finish: "kw_reachable cfg ord w \<Longrightarrow> ks_inflight (kw_set w) \<Longrightarrow> kw_reachable cfg ord (kw_finished cfg outcome w)"
| kw_resume: "kw_reachable cfg ord w \<Longrightarrow> t \<in> set (kw_waiting w) \<Longrightarrow> wt_flight t = Some f \<Longrightarrow>
    kw_reachable cfg ord (kw_resumed cfg ord t f (w\<lparr> kw_waiting := remove1 t (kw_waiting w) \<rparr>))"
| kw_cancel: "kw_reachable cfg ord w \<Longrightarrow> t \<in> set (kw_waiting w) \<Longrightarrow>
    kw_reachable cfg ord (answer (wt_kid t) (wt_arrived t) (LookupUnavailable 1) (w\<lparr> kw_waiting := remove1 t (kw_waiting w) \<rparr>))"
| kw_timer: "kw_reachable cfg ord w \<Longrightarrow> kw_reachable cfg ord (install (RetryDiscovery (kw_now w) (kw_set w)) w)"

subsection \<open>The delays\<close>

lemma ks_ceilSeconds_range: "1 \<le> ks_ceilSeconds d \<and> ks_ceilSeconds d \<le> 300"
  by (simp add: ks_ceilSeconds_def Let_def)

lemma double_until_exact:
  "0 < d \<Longrightarrow> d \<le> limit \<Longrightarrow> 2 * limit \<le> max_duration \<Longrightarrow> min limit (double_until n limit d) = min limit (d * 2 ^ n)"
proof (induction n arbitrary: d)
  case (Suc n)
  show ?case
  proof (cases "d < limit")
    case True
    with Suc.prems have w: "int64 (2 * d) = 2 * d" by (intro int64_small) (simp_all add: min_duration_def)
    show ?thesis
    proof (cases "2 * d \<le> limit")
      case True
      with Suc \<open>d < limit\<close> w show ?thesis by (simp add: mult.assoc)
    next
      case False
      have "limit \<le> double_until n limit (2 * d)" using False by (cases n) auto
      moreover have "limit \<le> d * 2 ^ Suc n"
      proof -
        have "2 * d * 1 \<le> 2 * d * 2 ^ n" using Suc.prems(1) by (intro mult_left_mono) simp_all
        with False show ?thesis by (simp add: mult.assoc)
      qed
      ultimately show ?thesis using True w by simp
    qed
  next
    case False
    with Suc.prems have "d = limit" by simp
    moreover have "d * 1 \<le> d * 2 ^ Suc n" using Suc.prems(1) by (intro mult_left_mono one_le_power) simp_all
    ultimately show ?thesis using False by simp
  qed
qed simp

lemma if_min: "(if a < b then a else b) = min a (b::int)"
  by auto

lemma backoff_value:
  assumes "0 < kc_min cfg" "2 * kc_min cfg \<le> max_duration"
  shows "backoff cfg n = min (max maxRetryAfter (kc_min cfg)) (kc_min cfg * 2 ^ (n - 1))"
proof -
  have "backoff cfg n = min (max maxRetryAfter (kc_min cfg)) (double_until (n - 1) (max maxRetryAfter (kc_min cfg)) (kc_min cfg))"
    unfolding backoff_def Let_def by (rule if_min)
  moreover have "2 * max maxRetryAfter (kc_min cfg) \<le> max_duration"
    using assms(2) by (simp add: max_def maxRetryAfter_def second_ns_def max_duration_def)
  ultimately show ?thesis
    using double_until_exact [OF assms(1), of "max maxRetryAfter (kc_min cfg)" "n - 1"] by simp
qed

text \<open>C0: the backoff of the key source. After \<open>n\<close> failed refreshes in a row the next one is allowed after the base
  interval doubled \<open>n - 1\<close> times, at most five minutes or the base interval when that is longer; although
  the doubling is in 64 bits, no intermediate value overflows while the base interval is at most half the greatest duration.\<close>

theorem backoff_exact:
  assumes "0 < kc_min cfg" "2 * kc_min cfg \<le> max_duration"
  shows "backoff cfg n = min (max maxRetryAfter (kc_min cfg)) (kc_min cfg * 2 ^ (n - 1))"
  using assms by (rule backoff_value)

theorem backoff_exact_witness:
  "backoff \<lparr> kc_issuer = [], kc_algs = [], kc_insecure = False, kc_ttl = 0, kc_max_stale = 0, kc_min = 10 * second_ns \<rparr> 4 =
   80 * second_ns"
  by (subst backoff_exact) (simp_all add: second_ns_def maxRetryAfter_def max_duration_def)

lemma backoff_min:
  assumes "0 < kc_min cfg" "2 * kc_min cfg \<le> max_duration"
  shows "kc_min cfg \<le> backoff cfg n"
proof -
  have "kc_min cfg * 1 \<le> kc_min cfg * 2 ^ (n - 1)" using assms(1) by (intro mult_left_mono one_le_power) simp_all
  then show ?thesis by (simp add: backoff_value [OF assms])
qed

subsection \<open>The invariant of a history\<close>

definition spaced :: "duration \<Rightarrow> gtime list \<Rightarrow> bool" where
  "spaced m xs \<longleftrightarrow> sorted_wrt (\<lambda>x y. y + m \<le> x) xs"

text \<open>The refreshes are spaced, and the gate keeps the next one away.\<close>

definition budget_inv :: "keyset_config \<Rightarrow> 'key key_world \<Rightarrow> bool" where
  "budget_inv cfg w \<longleftrightarrow> kw_starts w \<noteq> [] \<and> spaced (kc_min cfg) (kw_starts w) \<and> hd (kw_starts w) \<le> kw_now w \<and>
     (\<not> ks_inflight (kw_set w) \<longrightarrow> hd (kw_starts w) + kc_min cfg \<le> ks_r (kw_set w))"

lemma spaced_Cons: "xs \<noteq> [] \<Longrightarrow> 0 < m \<Longrightarrow> spaced m xs \<Longrightarrow> hd xs + m \<le> t \<Longrightarrow> spaced m (t # xs)"
  by (cases xs) (auto simp: spaced_def)

lemma budget_install:
  assumes "budget_inv cfg w" "0 < kc_min cfg" "ks_r k = ks_r (kw_set w)"
    "ks_inflight k = ks_inflight (kw_set w) \<or> ks_inflight k \<and> ks_r (kw_set w) \<le> kw_now w"
  shows "budget_inv cfg (install k w)"
  using assms spaced_Cons [of "kw_starts w" "kc_min cfg" "kw_now w"] by (auto simp: budget_inv_def install_def)

text \<open>What a section does to the gate and to the flight.\<close>

definition section_ok :: "gtime \<Rightarrow> 'key keyset \<Rightarrow> 'key keyset \<Rightarrow> bool" where
  "section_ok now k k' \<longleftrightarrow> ks_r k' = ks_r k \<and> ks_s k' = ks_s k \<and> ks_discovered k' = ks_discovered k \<and> ks_keys k' = ks_keys k \<and>
     (ks_inflight k' = ks_inflight k \<or> ks_inflight k' \<and> ks_r k \<le> now)"

lemma section_refl [simp]: "section_ok now k k"
  by (simp add: section_ok_def)

lemma section_start: "ks_r k \<le> now \<Longrightarrow> section_ok now k (startFlightLocked k)"
  by (simp add: section_ok_def startFlightLocked_def)

lemma section_neg: "section_ok now k (putNegLocked ord kid k)"
  by (simp add: section_ok_def putNegLocked_def Let_def)

lemma section_lookup: "ks_lookup cfg ord now kid k = (k', s) \<Longrightarrow> section_ok now k k'"
  using section_start [of k now] section_neg [of now k ord kid]
  by (auto simp: ks_lookup_def Let_def split: if_splits option.splits)

lemma section_after: "ks_after_wait ord kid k = (k', a) \<Longrightarrow> section_ok now k k'"
  using section_neg [of now k ord kid] by (auto simp: ks_after_wait_def split: option.splits)

lemma section_timer: "section_ok now k (RetryDiscovery now k)"
  using section_start [of k now] by (simp add: RetryDiscovery_def)

text \<open>What the answers are worth.\<close>

definition fresh_for :: "keyset_config \<Rightarrow> gtime \<Rightarrow> gtime \<Rightarrow> bool" where
  "fresh_for cfg arrived s \<longleftrightarrow> arrived \<le> s + kc_ttl cfg + kc_max_stale cfg"

definition answer_ok :: "keyset_config \<Rightarrow> (gtime \<times> (string \<rightharpoonup> 'key)) list \<Rightarrow> string \<times> gtime \<times> 'key lookup_result \<Rightarrow> bool" where
  "answer_ok cfg loads x = (case x of (kid, arrived, a) \<Rightarrow>
     (case a of
        LookupKey key \<Rightarrow> (\<exists>(s, keys) \<in> set loads. keys kid = Some key \<and> fresh_for cfg arrived s)
      | LookupUnknown \<Rightarrow> (\<exists>(s, keys) \<in> set loads. keys kid = None \<and> fresh_for cfg arrived s)
      | LookupUnavailable n \<Rightarrow> 1 \<le> n \<and> n \<le> 300))"

fun flight_ok :: "bool \<Rightarrow> gtime \<Rightarrow> gtime \<Rightarrow> flight option \<Rightarrow> bool" where
  "flight_ok discovered s arrived None \<longleftrightarrow> True"
| "flight_ok discovered s arrived (Some FlightOk) \<longleftrightarrow> discovered \<and> arrived \<le> s"
| "flight_ok discovered s arrived (Some (FlightFailed e n)) \<longleftrightarrow> 1 \<le> n \<and> n \<le> 300"

definition waiter_ok :: "gtime \<Rightarrow> bool \<Rightarrow> gtime \<Rightarrow> waiter \<Rightarrow> bool" where
  "waiter_ok now discovered s t \<longleftrightarrow> wt_arrived t \<le> now \<and> flight_ok discovered s (wt_arrived t) (wt_flight t)"

definition answers_inv :: "keyset_config \<Rightarrow> 'key key_world \<Rightarrow> bool" where
  "answers_inv cfg w \<longleftrightarrow>
     (ks_discovered (kw_set w) \<longrightarrow> (ks_s (kw_set w), ks_keys (kw_set w)) \<in> set (kw_loads w)) \<and>
     ks_s (kw_set w) \<le> kw_now w \<and> 0 < kw_now w \<and>
     (\<forall>t \<in> set (kw_waiting w). waiter_ok (kw_now w) (ks_discovered (kw_set w)) (ks_s (kw_set w)) t) \<and> (\<forall>x \<in> set (kw_answers w). answer_ok cfg (kw_loads w) x)"

lemma install_fields [simp]:
  "kw_now (install k w) = kw_now w" "kw_set (install k w) = k" "kw_waiting (install k w) = kw_waiting w"
  "kw_loads (install k w) = kw_loads w" "kw_answers (install k w) = kw_answers w"
  by (simp_all add: install_def)

lemma answer_fields [simp]:
  "kw_now (answer kid arr a w) = kw_now w" "kw_set (answer kid arr a w) = kw_set w"
  "kw_waiting (answer kid arr a w) = kw_waiting w" "kw_loads (answer kid arr a w) = kw_loads w"
  "kw_starts (answer kid arr a w) = kw_starts w"
  "kw_answers (answer kid arr a w) = (kid, arr, a) # kw_answers w"
  by (simp_all add: answer_def)

lemma answers_install:
  assumes "answers_inv cfg w" "section_ok (kw_now w) (kw_set w) k"
  shows "answers_inv cfg (install k w)"
  using assms by (simp add: answers_inv_def section_ok_def)

lemma answers_answer:
  "answers_inv cfg w \<Longrightarrow> answer_ok cfg (kw_loads w) (kid, arr, a) \<Longrightarrow> answers_inv cfg (answer kid arr a w)"
  by (simp add: answers_inv_def)

lemma answers_wait:
  assumes "answers_inv cfg w" "wt_arrived t \<le> kw_now w" "wt_flight t = None"
  shows "answers_inv cfg (w\<lparr> kw_waiting := kw_waiting w @ [t] \<rparr>)"
  using assms by (auto simp: answers_inv_def waiter_ok_def)

lemma answers_drop: "answers_inv cfg w \<Longrightarrow> answers_inv cfg (w\<lparr> kw_waiting := remove1 t (kw_waiting w) \<rparr>)"
  by (auto simp: answers_inv_def dest: notin_set_remove1)

lemma fresh_now:
  assumes "stateLocked cfg k now \<noteq> stateNone" "stateLocked cfg k now \<noteq> stateExpired" "arrived \<le> now"
    "0 \<le> kc_max_stale cfg" "kc_ttl cfg + kc_max_stale cfg < max_duration" "0 \<le> kc_ttl cfg"
  shows "ks_discovered k \<and> fresh_for cfg arrived (ks_s k)"
proof -
  have w: "int64 (kc_ttl cfg + kc_max_stale cfg) = kc_ttl cfg + kc_max_stale cfg"
    using assms(4-6) by (intro int64_small) (simp_all add: min_duration_def)
  from assms(1,2,4) have d: "ks_discovered k" "time_sub now (ks_s k) \<le> kc_ttl cfg + kc_max_stale cfg"
    by (auto simp: stateLocked_def Let_def w split: if_splits)
  from d(2) assms(5) have "now - ks_s k \<le> kc_ttl cfg + kc_max_stale cfg \<or> now - ks_s k \<le> min_duration"
    by (auto simp: time_sub_def)
  moreover have "min_duration \<le> kc_ttl cfg + kc_max_stale cfg" using d(2) by (auto simp: time_sub_def min_duration_def max_duration_def)
  ultimately have "now - ks_s k \<le> kc_ttl cfg + kc_max_stale cfg" by linarith
  with d(1) assms(3) show ?thesis by (simp add: fresh_for_def)
qed

lemma lookup_answer:
  assumes "ks_lookup cfg ord now kid k = (k', Answer a)" "arrived \<le> now" "0 \<le> kc_max_stale cfg"
    "kc_ttl cfg + kc_max_stale cfg < max_duration" "ks_discovered k \<longrightarrow> (ks_s k, ks_keys k) \<in> set loads" "0 \<le> kc_ttl cfg"
  shows "answer_ok cfg loads (kid, arrived, a)"
proof (cases "stateLocked cfg k now = stateNone \<or> stateLocked cfg k now = stateExpired")
  case True
  with assms(1) ks_ceilSeconds_range show ?thesis
    by (auto simp: ks_lookup_def answer_ok_def Let_def split: if_splits)
next
  case False
  with fresh_now [of cfg k now arrived] assms(2-6) have f: "(ks_s k, ks_keys k) \<in> set loads" "fresh_for cfg arrived (ks_s k)"
    by auto
  show ?thesis
  proof (cases "ks_keys k kid")
    case None
    from False None assms(1) have "a = LookupUnknown \<or> (\<exists>d. a = LookupUnavailable (ks_ceilSeconds d))"
      by (auto simp: ks_lookup_def Let_def split: if_splits option.splits)
    with f None ks_ceilSeconds_range show ?thesis
      by (auto simp: answer_ok_def intro!: bexI [of _ "(ks_s k, ks_keys k)"])
  next
    case (Some key)
    with False assms(1) have "a = LookupKey key" by (auto simp: ks_lookup_def Let_def split: if_splits)
    with f Some show ?thesis by (auto simp: answer_ok_def intro!: bexI [of _ "(ks_s k, ks_keys k)"])
  qed
qed

definition window_ok :: "keyset_config \<Rightarrow> bool" where
  "window_ok cfg \<longleftrightarrow> 0 < kc_min cfg \<and> 0 \<le> kc_ttl cfg \<and> 0 \<le> kc_max_stale cfg \<and> kc_ttl cfg + kc_max_stale cfg < max_duration \<and>
     2 * kc_min cfg \<le> max_duration"

lemma attempt_inv:
  assumes "answers_inv cfg w" "budget_inv cfg w" "window_ok cfg" "arrived \<le> kw_now w"
  shows "answers_inv cfg (kw_attempt cfg ord kid arrived n w) \<and> budget_inv cfg (kw_attempt cfg ord kid arrived n w)"
proof (cases "3 \<le> n")
  case True
  with assms(1,2) show ?thesis by (simp add: kw_attempt_def answers_answer answer_ok_def budget_inv_def)
next
  case False
  obtain k s where l: "ks_lookup cfg ord (kw_now w) kid (kw_set w) = (k, s)" by fastforce
  note sec = section_lookup [OF l]
  have a: "answers_inv cfg (install k w)" using answers_install [OF assms(1) sec] .
  have b: "budget_inv cfg (install k w)"
    using budget_install [OF assms(2)] assms(3) sec by (simp add: window_ok_def section_ok_def)
  show ?thesis
  proof (cases s)
    case (Answer x)
    have "answer_ok cfg (kw_loads w) (kid, arrived, x)"
      using lookup_answer [OF l [unfolded Answer]] assms by (simp add: window_ok_def answers_inv_def)
    with a b False l Answer show ?thesis by (simp add: kw_attempt_def answers_answer budget_inv_def)
  next
    case AwaitAgain
    with a b False l assms(4) answers_wait [OF a] show ?thesis by (simp add: kw_attempt_def budget_inv_def)
  next
    case AwaitKeys
    with a b False l assms(4) answers_wait [OF a] show ?thesis by (simp add: kw_attempt_def budget_inv_def)
  qed
qed

lemma answer_ok_more: "answer_ok cfg loads x \<Longrightarrow> answer_ok cfg (l # loads) x"
  by (auto simp: answer_ok_def split: lookup_result.splits)

lemma finish_inv:
  assumes "answers_inv cfg w" "budget_inv cfg w" "window_ok cfg"
  shows "answers_inv cfg (kw_finished cfg outcome w) \<and> budget_inv cfg (kw_finished cfg outcome w)"
proof (cases outcome)
  case (Inl e)
  have "waiter_ok (kw_now w) d s (land (FlightFailed e (ks_ceilSeconds b)) t)" if "waiter_ok (kw_now w) d s t" for d s b t
    using that ks_ceilSeconds_range [of b] by (simp add: waiter_ok_def land_def)
  then have A: "answers_inv cfg (kw_finished cfg outcome w)"
    using assms(1) Inl by (simp add: kw_finished_def ks_refresh_def Let_def answers_inv_def)
  have "kc_min cfg \<le> backoff cfg (Suc (ks_fails (kw_set w)))" using backoff_min assms(3) by (simp add: window_ok_def)
  moreover have "hd (kw_starts w) \<le> kw_now w" using assms(2) by (simp add: budget_inv_def)
  ultimately have "hd (kw_starts w) + kc_min cfg \<le> kw_now w + backoff cfg (Suc (ks_fails (kw_set w)))" by linarith
  with assms(2) Inl have "budget_inv cfg (kw_finished cfg outcome w)"
    by (simp add: kw_finished_def ks_refresh_def Let_def budget_inv_def)
  with A show ?thesis by blast
next
  case (Inr x)
  obtain uri keys where x: "x = (uri, keys)" by fastforce
  have "waiter_ok (kw_now w) True (kw_now w) (land FlightOk t)" if "waiter_ok (kw_now w) d s t" "s \<le> kw_now w" for d s t
  proof (cases "wt_flight t")
    case (Some f)
    with that show ?thesis by (cases f) (auto simp: waiter_ok_def land_def)
  qed (use that in \<open>simp add: waiter_ok_def land_def\<close>)
  then have wt: "\<forall>t \<in> set (kw_waiting w). waiter_ok (kw_now w) True (kw_now w) (land FlightOk t)"
    using assms(1) by (auto simp: answers_inv_def)
  have "\<forall>y \<in> set (kw_answers w). answer_ok cfg ((kw_now w, keys) # kw_loads w) y"
    using assms(1) answer_ok_more unfolding answers_inv_def by blast
  with wt have "answers_inv cfg (kw_finished cfg outcome w)"
    using assms(1) by (simp add: answers_inv_def Inr x kw_finished_def ks_refresh_def)
  moreover have "budget_inv cfg (kw_finished cfg outcome w)"
    using assms(2) by (simp add: Inr x kw_finished_def ks_refresh_def budget_inv_def)
  ultimately show ?thesis by blast
qed

lemma resume_inv:
  assumes "answers_inv cfg w" "budget_inv cfg w" "window_ok cfg" "waiter_ok (kw_now w) (ks_discovered (kw_set w)) (ks_s (kw_set w)) t"
    "wt_flight t = Some f"
  shows "answers_inv cfg (kw_resumed cfg ord t f w) \<and> budget_inv cfg (kw_resumed cfg ord t f w)"
proof (cases f)
  case (FlightFailed e n)
  with assms show ?thesis by (simp add: kw_resumed_def answers_answer waiter_ok_def answer_ok_def budget_inv_def)
next
  case FlightOk
  with assms(4,5) have t: "ks_discovered (kw_set w)" "wt_arrived t \<le> ks_s (kw_set w)" "wt_arrived t \<le> kw_now w"
    by (simp_all add: waiter_ok_def)
  show ?thesis
  proof (cases "wt_row7 t")
    case False
    with attempt_inv [OF assms(1-3) t(3)] FlightOk show ?thesis by (simp add: kw_resumed_def)
  next
    case True
    obtain k a where l: "ks_after_wait ord (wt_kid t) (kw_set w) = (k, a)" by fastforce
    note sec = section_after [OF l, of "kw_now w"]
    have "(ks_s (kw_set w), ks_keys (kw_set w)) \<in> set (kw_loads w)" "fresh_for cfg (wt_arrived t) (ks_s (kw_set w))"
      using t assms(1,3) by (auto simp: answers_inv_def fresh_for_def window_ok_def)
    then have "answer_ok cfg (kw_loads w) (wt_kid t, wt_arrived t, a)"
      using l by (auto simp: ks_after_wait_def answer_ok_def split: option.splits intro!: bexI [of _ "(ks_s (kw_set w), ks_keys (kw_set w))"])
    moreover have "budget_inv cfg (install k w)"
      using budget_install [OF assms(2)] sec assms(3) by (simp add: window_ok_def section_ok_def)
    ultimately show ?thesis
      using answers_install [OF assms(1) sec] True FlightOk l by (simp add: kw_resumed_def answers_answer budget_inv_def)
  qed
qed

lemma kw_inv:
  assumes "kw_reachable cfg ord w" "window_ok cfg"
  shows "answers_inv cfg w \<and> budget_inv cfg w"
  using assms(1)
proof (induction rule: kw_reachable.induct)
  case (kw_init t)
  then show ?case
    by (simp add: answers_inv_def budget_inv_def kw_begin_def startFlightLocked_def NewKeySet_def spaced_def)
next
  case (kw_time w t)
  then show ?case by (auto simp: answers_inv_def budget_inv_def waiter_ok_def)
next
  case (kw_look w kid)
  then show ?case using attempt_inv assms(2) by blast
next
  case (kw_finish w outcome)
  then show ?case using finish_inv assms(2) by blast
next
  case (kw_resume w t f)
  let ?w = "w\<lparr> kw_waiting := remove1 t (kw_waiting w) \<rparr>"
  have "waiter_ok (kw_now ?w) (ks_discovered (kw_set ?w)) (ks_s (kw_set ?w)) t"
    using kw_resume by (auto simp: answers_inv_def)
  with resume_inv [of cfg ?w t f ord] answers_drop [of cfg w t] kw_resume assms(2) show ?case by (simp add: budget_inv_def)
next
  case (kw_cancel w t)
  then show ?case using answers_drop [of cfg w t] by (simp add: answers_answer answer_ok_def budget_inv_def)
next
  case (kw_timer w)
  note s = section_timer [of "kw_now w" "kw_set w"]
  show ?case
    using answers_install [OF _ s, of cfg] budget_install [of cfg w "RetryDiscovery (kw_now w) (kw_set w)"] s kw_timer assms(2)
    by (auto simp: window_ok_def section_ok_def)
qed

subsection \<open>The properties\<close>

text \<open>C37: what a lookup's answer is worth, in every interleaving of lookups, refreshes and cancellations. A key that is handed out, and an unknown kid
  (which ends in a 401), were decided by the keys of a refresh that had succeeded, and that was no older at
  the beginning of the lookup than the cache life plus the bounded stale use; in every other case the answer
  is unavailability with a delay of 1 to 300 seconds, never a verdict on the token.\<close>

theorem key_answers_sound:
  assumes "kw_reachable cfg ord w" "window_ok cfg" "(kid, arrived, a) \<in> set (kw_answers w)"
  shows "case a of
      LookupKey key \<Rightarrow> (\<exists>(s, keys) \<in> set (kw_loads w). keys kid = Some key \<and> arrived \<le> s + kc_ttl cfg + kc_max_stale cfg)
    | LookupUnknown \<Rightarrow> (\<exists>(s, keys) \<in> set (kw_loads w). keys kid = None \<and> arrived \<le> s + kc_ttl cfg + kc_max_stale cfg)
    | LookupUnavailable n \<Rightarrow> 1 \<le> n \<and> n \<le> 300"
proof -
  have "answer_ok cfg (kw_loads w) (kid, arrived, a)" using kw_inv [OF assms(1,2)] assms(3) by (simp add: answers_inv_def)
  then show ?thesis by (simp add: answer_ok_def fresh_for_def)
qed

lemma spaced_count:
  assumes "sorted_wrt (\<lambda>x y. y + m \<le> x) xs" "\<forall>x \<in> set xs. a \<le> x \<and> x \<le> b" "a \<le> b" "0 < m"
  shows "int (length xs) * m \<le> b - a + m"
  using assms
proof (induction xs arbitrary: b)
  case (Cons x xs)
  show ?case
  proof (cases "xs = []")
    case False
    then obtain y where "y \<in> set xs" by (cases xs) auto
    with Cons.prems have "a \<le> b - m" by fastforce
    moreover have "\<forall>y \<in> set xs. a \<le> y \<and> y \<le> b - m" using Cons.prems by fastforce
    ultimately have "int (length xs) * m \<le> b - m - a + m" using Cons.IH [of "b - m"] Cons.prems by simp
    then show ?thesis by (simp add: distrib_right)
  qed (use Cons.prems in simp)
qed simp

text \<open>C38: the identity provider is not flooded. However many lookups for however many unknown kids arrive, and
  however the refreshes end, the refreshes that begin within any span of time, times the minimal interval, are at most that
  span plus one interval.\<close>

theorem refresh_budget:
  assumes "kw_reachable cfg ord w" "window_ok cfg" "a \<le> b"
  shows "int (length (filter (\<lambda>t. a \<le> t \<and> t \<le> b) (kw_starts w))) * kc_min cfg \<le> b - a + kc_min cfg"
proof -
  have s: "spaced (kc_min cfg) (kw_starts w)" using kw_inv [OF assms(1,2)] by (simp add: budget_inv_def)
  show ?thesis
  proof (rule spaced_count)
    show "sorted_wrt (\<lambda>x y. y + kc_min cfg \<le> x) (filter (\<lambda>t. a \<le> t \<and> t \<le> b) (kw_starts w))"
      using s by (simp add: spaced_def sorted_wrt_filter)
  qed (use assms in \<open>auto simp: window_ok_def\<close>)
qed

definition sample_keys :: keyset_config where
  "sample_keys = \<lparr> kc_issuer = [], kc_algs = [], kc_insecure = False, kc_ttl = 600, kc_max_stale = 60, kc_min = 10 \<rparr>"

definition sample_kw :: "nat key_world" where
  "sample_kw = kw_attempt sample_keys sorted_range ''k'' 5 0 (kw_finished sample_keys (Inr (''u'', [''k'' \<mapsto> 7])) (kw_begin 5))"

lemma sample_kw_reachable: "kw_reachable sample_keys sorted_range sample_kw"
proof -
  have "kw_reachable sample_keys sorted_range (kw_finished sample_keys (Inr (''u'', [''k'' \<mapsto> (7::nat)])) (kw_begin 5))"
    by (rule kw_finish [OF kw_init]) (simp_all add: kw_begin_def startFlightLocked_def)
  from kw_look [OF this, of "''k''"] show ?thesis by (simp add: sample_kw_def kw_finished_def ks_refresh_def kw_begin_def)
qed

lemma sample_kw_values:
  "kw_answers sample_kw = [(''k'', 5, LookupKey 7)]" "kw_starts sample_kw = [5]" "kw_loads sample_kw = [(5, [''k'' \<mapsto> 7])]"
  by (simp_all add: sample_kw_def kw_attempt_def kw_finished_def ks_refresh_def kw_begin_def startFlightLocked_def NewKeySet_def
      ks_lookup_def stateLocked_def sample_keys_def time_sub_def min_duration_def max_duration_def answer_def install_def)

lemma sample_window: "window_ok sample_keys"
  by (simp add: window_ok_def sample_keys_def max_duration_def)

theorem key_answers_sound_witness:
  "(''k'', 5, LookupKey 7) \<in> set (kw_answers sample_kw) \<and>
   (\<exists>(s, keys) \<in> set (kw_loads sample_kw). keys ''k'' = Some 7 \<and> 5 \<le> s + kc_ttl sample_keys + kc_max_stale sample_keys)"
  using key_answers_sound [OF sample_kw_reachable sample_window, of "''k''" 5 "LookupKey 7"] by (simp add: sample_kw_values)

theorem refresh_budget_witness: "int (length (filter (\<lambda>t. 0 \<le> t \<and> t \<le> 20) (kw_starts sample_kw))) * 10 \<le> 30"
  using refresh_budget [OF sample_kw_reachable sample_window, of 0 20] by (simp add: sample_keys_def)

subsection \<open>The keys that are installed\<close>

definition parsed_keys :: "'key jwk option list \<Rightarrow> 'key jwk list" where
  "parsed_keys js = map the (filter (\<lambda>r. r \<noteq> None) js)"

lemma parsed_simps [simp]: "parsed_keys [] = []" "parsed_keys (None # js) = parsed_keys js" "parsed_keys (Some j # js) = j # parsed_keys js"
  by (simp_all add: parsed_keys_def)

lemma collect_keys_find:
  "collect_keys algs js out kid =
     (if out kid \<noteq> None then out kid
      else map_option jk_key (List.find (\<lambda>j. usable_key algs j \<and> jk_kid j = kid) (parsed_keys js)))"
proof (induction js arbitrary: out)
  case (Cons r js)
  show ?case
  proof (cases r)
    case None
    with Cons.IH show ?thesis by simp
  next
    case (Some j)
    then show ?thesis
      by (cases "usable_key algs j \<and> out (jk_kid j) = None"; cases "jk_kid j = kid") (auto simp: Cons.IH)
  qed
qed simp

text \<open>the keys a refresh installs are well formed. When a key set is accepted, it had at most twenty members and one that can be
  used; a kid is bound to the first usable member that carries it, and so every installed key has a non-empty kid of its own, is public and valid, is meant for
  signatures or for anything, and names an allowed algorithm or none.\<close>

theorem parseJWKS_wellformed:
  assumes "parseJWKS L algs body = Inr keys"
  shows "\<exists>raws. jk_keys L body = Some raws \<and> length raws \<le> 20 \<and> keys \<noteq> Map.empty \<and>
    (\<forall>kid. keys kid = map_option jk_key (List.find (\<lambda>j. usable_key algs j \<and> jk_kid j = kid) (parsed_keys raws))) \<and>
    (\<forall>kid key. keys kid = Some key \<longrightarrow> kid \<noteq> '''' \<and>
       (\<exists>j \<in> set (parsed_keys raws). jk_key j = key \<and> jk_kid j = kid \<and> jk_use j \<in> {'''', ''sig''} \<and> jk_public j \<and> jk_valid j \<and>
          jk_alg j \<in> {''''} \<union> set algs))"
proof -
  from assms obtain raws where r: "jk_keys L body = Some raws" by (cases "jk_keys L body") (simp_all add: parseJWKS_def)
  with assms have raws: "jk_keys L body = Some raws" "length raws \<le> 20"
      "list_ex (\<lambda>r. case r of None \<Rightarrow> False | Some j \<Rightarrow> usable_key algs j) raws" "keys = collect_keys algs raws Map.empty"
    by (simp_all add: parseJWKS_def MaxJWKSKeys_def split: if_splits)
  have all: "keys kid = map_option jk_key (List.find (\<lambda>j. usable_key algs j \<and> jk_kid j = kid) (parsed_keys raws))" for kid
    by (simp add: raws(4) collect_keys_find)
  from raws(3) obtain j where "Some j \<in> set raws" "usable_key algs j" by (auto simp: list_ex_iff split: option.splits)
  then have "j \<in> set (parsed_keys raws)" "usable_key algs j" by (auto simp: parsed_keys_def image_iff intro!: bexI [of _ "Some j"])
  then have "\<exists>y. List.find (\<lambda>x. usable_key algs x \<and> jk_kid x = jk_kid j) (parsed_keys raws) = Some y" by (intro find_exists) blast
  with all [of "jk_kid j"] have ne: "keys \<noteq> Map.empty" by auto
  have "kid \<noteq> '''' \<and> (\<exists>j \<in> set (parsed_keys raws). jk_key j = key \<and> jk_kid j = kid \<and> jk_use j \<in> {'''', ''sig''} \<and> jk_public j \<and> jk_valid j \<and>
      jk_alg j \<in> {''''} \<union> set algs)" if k: "keys kid = Some key" for kid key
  proof -
    from k all [of kid] obtain j where j: "List.find (\<lambda>j. usable_key algs j \<and> jk_kid j = kid) (parsed_keys raws) = Some j" "jk_key j = key"
      by auto
    from find_sound [OF j(1)] j(2) show ?thesis by (auto simp: usable_key_def)
  qed
  with raws all ne show ?thesis by (intro exI [of _ raws]) blast
qed

definition sample_jwk :: "string \<Rightarrow> string \<Rightarrow> nat \<Rightarrow> nat jwk" where
  "sample_jwk kid use n = \<lparr> jk_kid = kid, jk_use = use, jk_alg = ''RS256'', jk_public = True, jk_valid = True, jk_key = n \<rparr>"

definition sample_jwks :: "nat jwk_lib" where
  "sample_jwks = \<lparr> jk_discovery = (\<lambda>s. None),
     jk_keys = (\<lambda>s. Some [None, Some (sample_jwk ''k'' ''enc'' 1), Some (sample_jwk ''k'' ''sig'' 2), Some (sample_jwk ''k'' '''' 3)]),
     jk_lower = (\<lambda>s. s) \<rparr>"

theorem parseJWKS_wellformed_witness:
  "\<exists>keys. parseJWKS sample_jwks [''RS256''] '''' = Inr keys \<and> keys ''k'' = Some 2 \<and>
     (\<exists>raws. jk_keys sample_jwks '''' = Some raws \<and> length raws \<le> 20)"
proof -
  have p: "parseJWKS sample_jwks [''RS256''] '''' = Inr [''k'' \<mapsto> 2]"
    by (simp add: parseJWKS_def sample_jwks_def sample_jwk_def MaxJWKSKeys_def usable_key_def)
  with parseJWKS_wellformed [OF p] show ?thesis by auto
qed

end
