(* ===== verification/MachineSelect.thy ===== *)
theory MachineSelect
  imports GoStrings
begin

text \<open>
  Which credentials decide a request: the precedence matrix of \<open>httpapi/machine_select.go\<close>. A session cookie and a
  bearer token never mix, and a malformed \<open>Authorization\<close> header never falls back to the cookie.

  The scheme is compared with \<open>strings.EqualFold\<close>; none of its letters folds to a character outside ASCII,
  so comparing lower-case ASCII bytes decides the same.
\<close>

subsection \<open>Routes\<close>

datatype pathClass = classN | classPO | classPA | classP

definition publicOtherRoutes :: "string list" where
  "publicOtherRoutes = [''/api/v1/meta'', ''/api/v1/openapi.json'', ''/api/auth/config'', ''/api/health/ldap'']"

definition publicAuthRoutes :: "string list" where
  "publicAuthRoutes = [''/api/login'', ''/api/logout'', ''/api/sso/start'', ''/api/sso/callback'']"

definition isAPIPath :: "string \<Rightarrow> bool" where
  "isAPIPath p \<longleftrightarrow> p = ''/api'' \<or> has_prefix p ''/api/''"

definition classifyRoute :: "string \<Rightarrow> string \<Rightarrow> pathClass" where
  "classifyRoute urlPath routePath =
     (if \<not> isAPIPath urlPath \<or> routePath = '''' \<or> routePath = ''/api'' \<or> has_suffix routePath ''/*'' then classN
      else if routePath \<in> set publicAuthRoutes then classPA
      else if routePath \<in> set publicOtherRoutes then classPO
      else classP)"

subsection \<open>The Authorization header\<close>

datatype authKind = authA0 | authAV string | authAI | authAD

definition maxAuthorizationBytes :: nat where "maxAuthorizationBytes = 8192"

definition ascii_lower :: "char \<Rightarrow> char" where
  "ascii_lower c = (let n = (of_char c :: nat) in if 65 \<le> n \<and> n \<le> 90 then char_of (n + 32) else c)"

definition isToken68Char :: "char \<Rightarrow> bool" where
  "isToken68Char c \<longleftrightarrow>
     (let n = (of_char c :: nat)
      in 65 \<le> n \<and> n \<le> 90 \<or> 97 \<le> n \<and> n \<le> 122 \<or> 48 \<le> n \<and> n \<le> 57 \<or> c \<in> set ''-._~+/'')"

definition bearer_prefix :: string where "bearer_prefix = ''bearer ''"

definition classifyAuthorization :: "string list \<Rightarrow> authKind" where
  "classifyAuthorization values =
     (case values of
        [] \<Rightarrow> authA0
      | [v] \<Rightarrow>
          if maxAuthorizationBytes < length v \<or> length v \<le> length bearer_prefix \<or>
             map ascii_lower (take (length bearer_prefix) v) \<noteq> bearer_prefix then authAI
          else
            (let token = drop (length bearer_prefix) v
             in if takeWhile isToken68Char token = [] then authAI
                else if list_all (\<lambda>c. c = CHR ''='') (dropWhile isToken68Char token) then authAV token
                else authAI)
      | _ \<Rightarrow> authAD)"

subsection \<open>The matrix\<close>

datatype selection =
  actIgnore string
| actCookie
| actBearer string
| actReject int string string

record select_input =
  si_enabled :: bool
  si_class :: pathClass
  si_headers :: "string list"
  si_cookie :: bool

text \<open>The last component of a rejection is its audit reason.\<close>

definition selectAuth :: "select_input \<Rightarrow> selection" where
  "selectAuth i =
     (if \<not> si_enabled i then actIgnore ''''
      else (case si_class i of
              classN \<Rightarrow> actIgnore ''''
            | classPO \<Rightarrow> actIgnore ''ignored_public''
            | classPA \<Rightarrow>
                (case classifyAuthorization (si_headers i) of
                   authA0 \<Rightarrow> actIgnore ''''
                 | _ \<Rightarrow> actReject 400 ''invalid_request'' ''bearer_not_accepted'')
            | classP \<Rightarrow>
                (case classifyAuthorization (si_headers i) of
                   authA0 \<Rightarrow> actCookie
                 | authAI \<Rightarrow> actReject 401 ''token_invalid'' ''bad_header''
                 | authAD \<Rightarrow> actReject 401 ''token_invalid'' ''bad_header''
                 | authAV token \<Rightarrow>
                     if si_cookie i then actReject 400 ''invalid_request'' ''mixed_credentials''
                     else actBearer token)))"

text \<open>\<open>strings.Cut(part, "=")\<close> keeps what precedes the first sign.\<close>

definition hasCookieNamed :: "string list \<Rightarrow> string \<Rightarrow> bool" where
  "hasCookieNamed headers name =
     list_ex (\<lambda>h. list_ex (\<lambda>part. takeWhile (\<lambda>c. c \<noteq> CHR ''='') (TrimSpace part) = name) (split_on (CHR '';'') h)) headers"

subsection \<open>What the matrix guarantees\<close>

definition token68 :: "string \<Rightarrow> bool" where
  "token68 t \<longleftrightarrow> (\<exists>body pad. t = body @ pad \<and> body \<noteq> [] \<and> list_all isToken68Char body \<and> list_all (\<lambda>c. c = CHR ''='') pad)"

lemma equals_not_token [simp]: "\<not> isToken68Char (CHR ''='')"
  by (simp add: isToken68Char_def)

lemma token68_split:
  "token68 t \<longleftrightarrow> takeWhile isToken68Char t \<noteq> [] \<and> list_all (\<lambda>c. c = CHR ''='') (dropWhile isToken68Char t)"
proof
  assume "token68 t"
  then obtain body pad where t: "t = body @ pad" "body \<noteq> []" "list_all isToken68Char body" "list_all (\<lambda>c. c = CHR ''='') pad"
    by (auto simp: token68_def)
  then have "takeWhile isToken68Char pad = []" "dropWhile isToken68Char pad = pad"
    by (cases pad; simp)+
  with t show "takeWhile isToken68Char t \<noteq> [] \<and> list_all (\<lambda>c. c = CHR ''='') (dropWhile isToken68Char t)"
    by (simp add: list_all_iff takeWhile_append2 dropWhile_append2)
next
  assume a: "takeWhile isToken68Char t \<noteq> [] \<and> list_all (\<lambda>c. c = CHR ''='') (dropWhile isToken68Char t)"
  have "list_all isToken68Char (takeWhile isToken68Char t)" by (simp add: list_all_iff) (metis set_takeWhileD)
  with a show "token68 t" unfolding token68_def by (metis takeWhile_dropWhile_id)
qed

lemma classify_cases:
  obtains "vs = []" | v where "vs = [v]" | v w us where "vs = v # w # us"
  by (cases vs; cases "tl vs") auto

lemma classifyAuthorization_one:
  "classifyAuthorization [v] =
     (if maxAuthorizationBytes < length v \<or> length v \<le> length bearer_prefix \<or>
         map ascii_lower (take (length bearer_prefix) v) \<noteq> bearer_prefix then authAI
      else if takeWhile isToken68Char (drop (length bearer_prefix) v) \<noteq> [] \<and>
         list_all (\<lambda>c. c = CHR ''='') (dropWhile isToken68Char (drop (length bearer_prefix) v))
      then authAV (drop (length bearer_prefix) v) else authAI)"
  by (simp add: classifyAuthorization_def Let_def)

lemma classifyAuthorization_valid:
  "classifyAuthorization vs = authAV token \<longleftrightarrow>
     (\<exists>scheme. vs = [scheme @ token] \<and> map ascii_lower scheme = bearer_prefix \<and> token68 token \<and>
        length scheme + length token \<le> maxAuthorizationBytes)"
proof
  assume a: "classifyAuthorization vs = authAV token"
  then obtain v where v: "vs = [v]" by (cases vs rule: classify_cases) (auto simp: classifyAuthorization_def)
  have b: "length v \<le> maxAuthorizationBytes" "map ascii_lower (take (length bearer_prefix) v) = bearer_prefix"
    "token = drop (length bearer_prefix) v" "token68 token"
    using a [unfolded v classifyAuthorization_one token68_split [symmetric]] by (simp_all split: if_splits)
  have t: "v = take (length bearer_prefix) v @ token" using b(3) by simp
  show "\<exists>scheme. vs = [scheme @ token] \<and> map ascii_lower scheme = bearer_prefix \<and> token68 token \<and>
      length scheme + length token \<le> maxAuthorizationBytes"
  proof (intro exI conjI)
    show "vs = [take (length bearer_prefix) v @ token]" using v t by simp
    show "length (take (length bearer_prefix) v) + length token \<le> maxAuthorizationBytes"
      using b(1) arg_cong [OF t, of length] by (simp only: length_append)
  qed (use b in simp_all)
next
  assume "\<exists>scheme. vs = [scheme @ token] \<and> map ascii_lower scheme = bearer_prefix \<and> token68 token \<and>
      length scheme + length token \<le> maxAuthorizationBytes"
  then obtain scheme where s: "vs = [scheme @ token]" "map ascii_lower scheme = bearer_prefix" "token68 token"
    "length scheme + length token \<le> maxAuthorizationBytes" by blast
  have l: "length scheme = length bearer_prefix" using arg_cong [OF s(2), of length] by simp
  have "token \<noteq> []" using s(3) by (auto simp: token68_def)
  with s l show "classifyAuthorization vs = authAV token"
    by (simp add: classifyAuthorization_one token68_split)
qed

text \<open>Credentials never mix. With machine authentication on, a request takes the bearer path exactly when its route is
  protected, it has one \<open>Authorization\<close> line of at most 8 KiB that is the scheme in any case, one space and a token68, and no session
  cookie by name in whatever shape; it takes the cookie path exactly when its route is protected and it has no \<open>Authorization\<close> line at
  all, so no malformed or repeated header falls back to the cookie; and a public route that handles
  cookies refuses any \<open>Authorization\<close>.\<close>

theorem selectAuth_exact:
  "(selectAuth i = actBearer token \<longleftrightarrow> si_enabled i \<and> si_class i = classP \<and> \<not> si_cookie i \<and>
      (\<exists>scheme. si_headers i = [scheme @ token] \<and> map ascii_lower scheme = bearer_prefix \<and> token68 token \<and>
         length scheme + length token \<le> maxAuthorizationBytes)) \<and>
   (selectAuth i = actCookie \<longleftrightarrow> si_enabled i \<and> si_class i = classP \<and> si_headers i = []) \<and>
   ((\<exists>why. selectAuth i = actIgnore why) \<longleftrightarrow>
      \<not> (si_enabled i \<and> (si_class i = classP \<or> si_class i = classPA \<and> si_headers i \<noteq> [])))"
proof -
  have none: "classifyAuthorization vs = authA0 \<longleftrightarrow> vs = []" for vs
    by (auto simp: classifyAuthorization_def Let_def split: list.splits)
  have empty: "classifyAuthorization [] = authA0" by (simp add: classifyAuthorization_def)
  have "selectAuth i = actBearer token \<longleftrightarrow> si_enabled i \<and> si_class i = classP \<and> \<not> si_cookie i \<and>
      classifyAuthorization (si_headers i) = authAV token"
    by (auto simp: selectAuth_def split: pathClass.splits authKind.splits)
  moreover have "selectAuth i = actCookie \<longleftrightarrow> si_enabled i \<and> si_class i = classP \<and> si_headers i = []"
    by (auto simp: selectAuth_def none empty split: pathClass.splits authKind.splits)
  moreover have "(\<exists>why. selectAuth i = actIgnore why) \<longleftrightarrow>
      \<not> (si_enabled i \<and> (si_class i = classP \<or> si_class i = classPA \<and> si_headers i \<noteq> []))"
    by (auto simp: selectAuth_def none empty split: pathClass.splits authKind.splits)
  ultimately show ?thesis unfolding classifyAuthorization_valid by blast
qed

end
