(* ===== verification/MachineAuth.thy ===== *)
theory MachineAuth
  imports MachineSelect MachineClaims MachineLimits RevocationRefresh WriteGuard
begin

text \<open>
  The bearer path of \<open>httpapi/machine.go\<close>: from a token to the handler, with the executor of \<open>machine_exec.go\<close>.

  A request is a \<open>breq\<close>: what the source keeps of it, what it holds (the throttle's ticket, the authentication slot, the client's
  budget, the executor's slot, the directory connection) and the stage it has reached. \<open>b_next\<close> is one step on the
  state all requests share; a step ends where the source calls outside or takes or gives back something shared, so the steps of
  concurrent requests interleave as in the server. The deferred releases are stages of their own, in the order in
  which Go runs them. \<open>b_trace\<close> records what was decided on what; no step reads it.

  From outside come the clock, the key source's answer (\<open>KeySource\<close> models it), whether the phase's deadline had passed, whether the
  client has gone, the bind and what the handler replied: \<open>bearer_answers\<close>. A handler that panics is one that replied 500.
\<close>

subsection \<open>Requests, configuration, shared state\<close>

record bearer_request =
  br_ip :: string
  br_input :: select_input
  br_method :: string
  br_orig :: string
  br_route :: string
  br_dn :: string

text \<open>The middleware hands over a bearer token, or, to be counted and refused, a header it could not read.\<close>

definition br_token :: "bearer_request \<Rightarrow> string option" where
  "br_token q = (case selectAuth (br_input q) of actBearer token \<Rightarrow> Some token | _ \<Rightarrow> None)"

definition machineMiddleware :: "bearer_request \<Rightarrow> bool" where
  "machineMiddleware q =
     (case selectAuth (br_input q) of
        actBearer token \<Rightarrow> True
      | actReject status code why \<Rightarrow> why = ''bad_header''
      | _ \<Rightarrow> False)"

record 'key bearer_answers =
  ba_now :: gtime
  ba_gone :: bool
  ba_look :: "string \<Rightarrow> 'key lookup_result"
  ba_expired :: bool
  ba_bind :: bool
  ba_reply :: "int \<times> string"

text \<open>\<open>bc_slots\<close>: the authentication slots, \<open>None\<close> without a cap. \<open>bc_write\<close>: the lookup of the write pipeline, \<open>None\<close> without one.\<close>

record 'key machine_auth =
  bc_key_of :: "string \<Rightarrow> string"
  bc_order :: "(string \<rightharpoonup> limiter_entry) \<Rightarrow> string list"
  bc_res_order :: "(string \<rightharpoonup> ip_reservation list) \<Rightarrow> string list"
  bc_env :: claims_env
  bc_jose :: "'key jose_lib"
  bc_policy :: claims_policy
  bc_dn_lib :: dn_lib
  bc_ceilings :: "string \<Rightarrow> string set"
  bc_base_dn :: string
  bc_revocation_base :: string
  bc_slots :: "nat option"
  bc_exec_slots :: nat
  bc_write :: "(string \<Rightarrow> string \<Rightarrow> write_op option) option"

record bearer_shared =
  bs_throttle :: "ip_throttle option"
  bs_auth_used :: nat
  bs_revocation :: "machine_revocation option"
  bs_budget :: client_budget
  bs_exec_used :: nat

datatype bearer_stage =
  BAdmit | BBadHeader | BAuthSlot | BVerify | BFreeAuth | BJudge | BRevocation | BRoute | BWrite write_op
| BBudget | BGuards | BExecSlot | BBind | BHandler | BClose | BFreeExec | BFreeBudget | BFreeIP | BDone

datatype 'key bearer_event =
  BvVerified gtime "string \<Rightarrow> 'key lookup_result"
| BvRevocation gtime "snapshot option"
| BvHandler machine_op
| BvWrite write_op
| BvReleased bool

record bearer_reply =
  by_status :: int
  by_code :: string
  by_retry :: "int option"
  by_challenge :: bool

record 'key breq =
  b_req :: bearer_request
  b_stage :: bearer_stage
  b_ticket :: "ip_ticket option"
  b_failed :: bool
  b_auth_slot :: bool
  b_verdict :: "failure + principal"
  b_expired :: bool
  b_principal :: "principal option"
  b_budget :: bool
  b_op :: "machine_op option"
  b_audit_read :: bool
  b_exec :: bool
  b_bound :: bool
  b_reason :: string
  b_reply :: "bearer_reply option"
  b_trace :: "'key bearer_event list"

definition new_breq :: "bearer_request \<Rightarrow> 'key breq" where
  "new_breq q = \<lparr> b_req = q, b_stage = BAdmit, b_ticket = None, b_failed = False, b_auth_slot = False,
     b_verdict = Inl (invalid ReasonFormat), b_expired = False, b_principal = None, b_budget = False, b_op = None, b_audit_read = False,
     b_exec = False, b_bound = False, b_reason = (if br_token q = None then ''bad_header'' else ''''), b_reply = None, b_trace = [] \<rparr>"

text \<open>The first reason stays unless one is forced.\<close>

definition b_because :: "string \<Rightarrow> 'key breq \<Rightarrow> 'key breq" where
  "b_because x r = (if b_reason r = '''' then r\<lparr> b_reason := x \<rparr> else r)"

definition b_answered :: "bearer_stage \<Rightarrow> bearer_reply \<Rightarrow> 'key breq \<Rightarrow> 'key breq" where
  "b_answered st y r = r\<lparr> b_stage := st, b_reply := Some y \<rparr>"

definition plain_reply :: "int \<Rightarrow> string \<Rightarrow> bearer_reply" where
  "plain_reply status code = \<lparr> by_status = status, by_code = code, by_retry = None, by_challenge = False \<rparr>"

definition unavailable_reply :: "int \<Rightarrow> bearer_reply" where
  "unavailable_reply n = (plain_reply 503 ''unavailable'')\<lparr> by_retry := Some n \<rparr>"

definition rateLimited :: "int \<Rightarrow> bearer_reply" where
  "rateLimited n = (plain_reply 429 ''machine_rate_limited'')\<lparr> by_retry := Some n \<rparr>"

definition machineFailure :: "failure \<Rightarrow> bearer_reply" where
  "machineFailure f =
     (if fl_unavailable f then unavailable_reply (fl_retry f)
      else (plain_reply 401 (if fl_expired f then ''token_expired'' else ''token_invalid''))\<lparr> by_challenge := True \<rparr>)"

definition reason_text :: "reason \<Rightarrow> string" where
  "reason_text x =
     (case x of
        ReasonFormat \<Rightarrow> ''format'' | ReasonAlg \<Rightarrow> ''alg'' | ReasonTyp \<Rightarrow> ''typ'' | ReasonKid \<Rightarrow> ''kid'' | ReasonSig \<Rightarrow> ''sig''
      | ReasonIss \<Rightarrow> ''iss'' | ReasonAud \<Rightarrow> ''aud'' | ReasonAzp \<Rightarrow> ''azp'' | ReasonSA \<Rightarrow> ''sa_claims'' | ReasonScope \<Rightarrow> ''scope''
      | ReasonTime \<Rightarrow> ''time'' | ReasonTTL \<Rightarrow> ''ttl'' | ReasonJTI \<Rightarrow> ''jti'' | ReasonExpire \<Rightarrow> ''expired'' | ReasonJWKS \<Rightarrow> ''jwks_unavailable'')"

text \<open>\<open>tk.fail()\<close>: without a throttle there is no ticket to mark.\<close>

definition ticket_fail :: "'key breq \<Rightarrow> 'key breq" where
  "ticket_fail r = (if b_ticket r = None then r else r\<lparr> b_failed := True \<rparr>)"

subsection \<open>The steps\<close>

definition admitIP :: "'key machine_auth \<Rightarrow> 'key bearer_answers \<Rightarrow> bearer_shared \<Rightarrow> 'key breq \<Rightarrow> bearer_shared \<times> 'key breq" where
  "admitIP cfg a sh r =
     (let next = (if br_token (b_req r) = None then BBadHeader else BAuthSlot)
      in case bs_throttle sh of
           None \<Rightarrow> (sh, r\<lparr> b_stage := next \<rparr>)
         | Some t \<Rightarrow>
             (case ip_admit (bc_key_of cfg) (bc_order cfg) (bc_res_order cfg) t (ba_now a) (br_ip (b_req r)) of
                (t', Refused n) \<Rightarrow> (sh\<lparr> bs_throttle := Some t' \<rparr>, b_answered BDone (rateLimited n) (r\<lparr> b_reason := ''rate'' \<rparr>))
              | (t', Admitted k) \<Rightarrow> (sh\<lparr> bs_throttle := Some t' \<rparr>, r\<lparr> b_stage := next, b_ticket := Some k \<rparr>)))"

definition rejectBadHeader :: "'key breq \<Rightarrow> 'key breq" where
  "rejectBadHeader r = b_answered BFreeIP (plain_reply 401 ''token_invalid'') (ticket_fail r)"

definition acquireAuthSlot :: "'key machine_auth \<Rightarrow> bearer_shared \<Rightarrow> 'key breq \<Rightarrow> bearer_shared \<times> 'key breq" where
  "acquireAuthSlot cfg sh r =
     (case bc_slots cfg of
        None \<Rightarrow> (sh, r\<lparr> b_stage := BVerify \<rparr>)
      | Some n \<Rightarrow>
          if bs_auth_used sh < n
          then (sh\<lparr> bs_auth_used := bs_auth_used sh + 1 \<rparr>, r\<lparr> b_stage := BVerify, b_auth_slot := True \<rparr>)
          else (sh, b_answered BFreeIP (unavailable_reply 1) (b_because ''capacity'' r)))"

definition b_verify :: "'key machine_auth \<Rightarrow> 'key bearer_answers \<Rightarrow> 'key breq \<Rightarrow> 'key breq" where
  "b_verify cfg a r =
     (let v = Verify (bc_env cfg) (bc_jose cfg) (bc_policy cfg) (ba_look a) (the (br_token (b_req r))) (ba_now a)
      in r\<lparr> b_stage := BFreeAuth, b_verdict := v, b_expired := ba_expired a,
           b_trace := b_trace r @ (case v of Inr _ \<Rightarrow> [BvVerified (ba_now a) (ba_look a)] | Inl _ \<Rightarrow> []) \<rparr>)"

definition b_free_auth :: "bearer_shared \<Rightarrow> 'key breq \<Rightarrow> bearer_shared \<times> 'key breq" where
  "b_free_auth sh r =
     (if b_auth_slot r then (sh\<lparr> bs_auth_used := bs_auth_used sh - 1 \<rparr>, r\<lparr> b_stage := BJudge, b_auth_slot := False \<rparr>)
      else (sh, r\<lparr> b_stage := BJudge \<rparr>))"

definition b_judge :: "'key breq \<Rightarrow> 'key breq" where
  "b_judge r =
     (case b_verdict r of
        Inr p \<Rightarrow>
          if b_expired r then b_answered BFreeIP (unavailable_reply 1) (b_because ''deadline'' r)
          else r\<lparr> b_stage := BRevocation, b_principal := Some p \<rparr>
      | Inl f \<Rightarrow>
          (let r1 = (if fl_unavailable f then r else ticket_fail r);
               r2 = (if fl_unavailable f \<and> b_expired r then r1\<lparr> b_reason := ''deadline'' \<rparr> else b_because (reason_text (fl_reason f)) r1)
           in b_answered BFreeIP (machineFailure f) r2))"

definition b_who :: "'key breq \<Rightarrow> principal" where "b_who r = the (b_principal r)"

definition b_revoked :: "'key bearer_answers \<Rightarrow> bearer_shared \<Rightarrow> 'key breq \<Rightarrow> 'key breq" where
  "b_revoked a sh r =
     (case bs_revocation sh of
        None \<Rightarrow> r\<lparr> b_stage := BRoute \<rparr>
      | Some m \<Rightarrow>
          (case mr_check m (pr_client (b_who r)) (pr_issued (b_who r)) (pr_jti (b_who r)) (ba_now a) of
             DecisionRevoked \<Rightarrow>
               b_answered BFreeIP ((plain_reply 401 ''token_invalid'')\<lparr> by_challenge := True \<rparr>) (ticket_fail (r\<lparr> b_reason := ''revoked'' \<rparr>))
           | DecisionUnavailable \<Rightarrow> b_answered BFreeIP (unavailable_reply 1) (r\<lparr> b_reason := ''revocation_unavailable'' \<rparr>)
           | DecisionOK \<Rightarrow> r\<lparr> b_stage := BRoute, b_trace := b_trace r @ [BvRevocation (ba_now a) (mr_snapshot m)] \<rparr>))"

text \<open>HEAD is routed as GET; the method the client sent decides.\<close>

definition sent_method :: "bearer_request \<Rightarrow> string" where
  "sent_method q = (if br_orig q \<noteq> '''' then br_orig q else br_method q)"

definition b_route :: "'key machine_auth \<Rightarrow> 'key breq \<Rightarrow> 'key breq" where
  "b_route cfg r =
     (case bc_write cfg of
        None \<Rightarrow> r\<lparr> b_stage := BBudget \<rparr>
      | Some lookup \<Rightarrow>
          (case lookup (sent_method (b_req r)) (br_route (b_req r)) of
             None \<Rightarrow> r\<lparr> b_stage := BBudget \<rparr>
           | Some wop \<Rightarrow> r\<lparr> b_stage := BWrite wop \<rparr>))"

definition answer_of :: "int \<times> string \<Rightarrow> bearer_reply" where
  "answer_of x = plain_reply (fst x) (snd x)"

text \<open>The write pipeline takes the request over; \<open>WritePipeline\<close> models what it does until its reply.\<close>

definition b_write :: "'key bearer_answers \<Rightarrow> write_op \<Rightarrow> 'key breq \<Rightarrow> 'key breq" where
  "b_write a wop r = b_answered BFreeIP (answer_of (ba_reply a)) (r\<lparr> b_trace := b_trace r @ [BvWrite wop] \<rparr>)"

definition b_budget_step :: "'key bearer_answers \<Rightarrow> bearer_shared \<Rightarrow> 'key breq \<Rightarrow> bearer_shared \<times> 'key breq" where
  "b_budget_step a sh r =
     (case cb_acquire (bs_budget sh) (ba_now a) (pr_client (b_who r)) of
        (b, Some n) \<Rightarrow> (sh\<lparr> bs_budget := b \<rparr>, b_answered BFreeIP (rateLimited n) (r\<lparr> b_reason := ''rate'' \<rparr>))
      | (b, None) \<Rightarrow> (sh\<lparr> bs_budget := b \<rparr>, r\<lparr> b_stage := BGuards, b_budget := True \<rparr>))"

text \<open>The boundary of the operations that take a name: is the request refused?\<close>

definition outside_base :: "'key machine_auth \<Rightarrow> machine_op \<Rightarrow> string \<Rightarrow> bool" where
  "outside_base cfg mop d \<longleftrightarrow>
     mo_id mop \<in> {''getEntry'', ''listTree''} \<and> d \<noteq> '''' \<and> valid_DN d \<and>
     (\<not> dnWithinBase (bc_dn_lib cfg) (bc_base_dn cfg) d \<or> protectedRevocationDN (bc_dn_lib cfg) (bc_revocation_base cfg) d False)"

definition b_guards :: "'key machine_auth \<Rightarrow> 'key breq \<Rightarrow> 'key breq" where
  "b_guards cfg r =
     (let refused = b_answered BFreeBudget (plain_reply 403 ''scope_denied'') (b_because ''scope'' r)
      in case machineOpFor (sent_method (b_req r)) (br_route (b_req r)) of
           None \<Rightarrow> refused
         | Some mop \<Rightarrow>
             if \<not> scopeAllows (bc_ceilings cfg (pr_client (b_who r))) (pr_scopes (b_who r)) (mo_scope mop) then refused
             else if outside_base cfg mop (br_dn (b_req r)) then refused
             else r\<lparr> b_stage := BExecSlot, b_op := Some mop,
                    b_audit_read := scopeAllows (bc_ceilings cfg (pr_client (b_who r))) (pr_scopes (b_who r)) ''audit.read'' \<rparr>)"

definition b_exec_slot :: "'key machine_auth \<Rightarrow> bearer_shared \<Rightarrow> 'key breq \<Rightarrow> bearer_shared \<times> 'key breq" where
  "b_exec_slot cfg sh r =
     (if bs_exec_used sh < bc_exec_slots cfg
      then (sh\<lparr> bs_exec_used := bs_exec_used sh + 1 \<rparr>, r\<lparr> b_stage := BBind, b_exec := True \<rparr>)
      else (sh, b_answered BFreeBudget (unavailable_reply 1) (b_because ''capacity'' r)))"

definition b_bind :: "'key bearer_answers \<Rightarrow> 'key breq \<Rightarrow> 'key breq" where
  "b_bind a r =
     (if ba_bind a then r\<lparr> b_stage := BHandler, b_bound := True \<rparr>
      else b_answered BFreeExec (plain_reply 503 ''unavailable'') (b_because ''bind_failed'' r))"

definition b_handler :: "'key bearer_answers \<Rightarrow> 'key breq \<Rightarrow> 'key breq" where
  "b_handler a r = b_answered BClose (answer_of (ba_reply a)) (r\<lparr> b_trace := b_trace r @ [BvHandler (the (b_op r))] \<rparr>)"

definition releaseIP :: "'key machine_auth \<Rightarrow> 'key bearer_answers \<Rightarrow> bearer_shared \<Rightarrow> 'key breq \<Rightarrow> bearer_shared \<times> 'key breq" where
  "releaseIP cfg a sh r =
     (case (bs_throttle sh, b_ticket r) of
        (Some t, Some k) \<Rightarrow>
          (let failed = (\<not> ba_gone a \<and> b_failed r)
           in (sh\<lparr> bs_throttle := Some (ip_release (bc_key_of cfg) (bc_order cfg) t (ba_now a) k failed) \<rparr>,
               r\<lparr> b_stage := BDone, b_ticket := None, b_trace := b_trace r @ [BvReleased failed] \<rparr>))
      | _ \<Rightarrow> (sh, r\<lparr> b_stage := BDone \<rparr>))"

definition b_next :: "'key machine_auth \<Rightarrow> 'key bearer_answers \<Rightarrow> bearer_shared \<Rightarrow> 'key breq \<Rightarrow> bearer_shared \<times> 'key breq" where
  "b_next cfg a sh r =
     (case b_stage r of
        BAdmit \<Rightarrow> admitIP cfg a sh r
      | BBadHeader \<Rightarrow> (sh, rejectBadHeader r)
      | BAuthSlot \<Rightarrow> acquireAuthSlot cfg sh r
      | BVerify \<Rightarrow> (sh, b_verify cfg a r)
      | BFreeAuth \<Rightarrow> b_free_auth sh r
      | BJudge \<Rightarrow> (sh, b_judge r)
      | BRevocation \<Rightarrow> (sh, b_revoked a sh r)
      | BRoute \<Rightarrow> (sh, b_route cfg r)
      | BWrite wop \<Rightarrow> (sh, b_write a wop r)
      | BBudget \<Rightarrow> b_budget_step a sh r
      | BGuards \<Rightarrow> (sh, b_guards cfg r)
      | BExecSlot \<Rightarrow> b_exec_slot cfg sh r
      | BBind \<Rightarrow> (sh, b_bind a r)
      | BHandler \<Rightarrow> (sh, b_handler a r)
      | BClose \<Rightarrow> (sh, r\<lparr> b_stage := BFreeExec, b_bound := False \<rparr>)
      | BFreeExec \<Rightarrow> (sh\<lparr> bs_exec_used := bs_exec_used sh - 1 \<rparr>, r\<lparr> b_stage := BFreeBudget, b_exec := False \<rparr>)
      | BFreeBudget \<Rightarrow>
          (sh\<lparr> bs_budget := cb_release (bs_budget sh) (pr_client (b_who r)) \<rparr>, r\<lparr> b_stage := BFreeIP, b_budget := False \<rparr>)
      | BFreeIP \<Rightarrow> releaseIP cfg a sh r
      | BDone \<Rightarrow> (sh, r))"

record 'key bearer_world =
  bw_shared :: bearer_shared
  bw_reqs :: "'key breq list"

text \<open>The worlds of the bearer path, with or without a throttle and a revocation check: requests arrive and take steps in any order, the
  refresher publishes snapshots meanwhile.\<close>

inductive b_reachable :: "'key machine_auth \<Rightarrow> bool \<Rightarrow> bool \<Rightarrow> 'key bearer_world \<Rightarrow> bool" for cfg throttled checked where
  b_start: "throttled = (thr \<noteq> None) \<Longrightarrow> checked = (snaps \<noteq> None) \<Longrightarrow>
    b_reachable cfg throttled checked \<lparr> bw_shared = \<lparr> bs_throttle = thr, bs_auth_used = 0, bs_revocation = snaps,
      bs_budget = newClientBudget rps burst conc clients, bs_exec_used = 0 \<rparr>, bw_reqs = [] \<rparr>"
| b_arrive: "b_reachable cfg throttled checked w \<Longrightarrow> machineMiddleware q \<Longrightarrow> b_reachable cfg throttled checked (w\<lparr> bw_reqs := bw_reqs w @ [new_breq q] \<rparr>)"
| b_refresh: "b_reachable cfg throttled checked w \<Longrightarrow> bs_revocation (bw_shared w) = Some m \<Longrightarrow> mr_update cancelled read m = (m', delay) \<Longrightarrow>
    b_reachable cfg throttled checked (w\<lparr> bw_shared := (bw_shared w)\<lparr> bs_revocation := Some m' \<rparr> \<rparr>)"
| b_step: "b_reachable cfg throttled checked w \<Longrightarrow> i < length (bw_reqs w) \<Longrightarrow> b_next cfg a (bw_shared w) (bw_reqs w ! i) = (sh, r) \<Longrightarrow>
    b_reachable cfg throttled checked (w\<lparr> bw_shared := sh, bw_reqs := (bw_reqs w)[i := r] \<rparr>)"

end
