(* ===== verification/MachineAuthSpec.thy ===== *)
theory MachineAuthSpec
  imports MachineAuth
begin

text \<open>
  The bearer path as one function: the answer \<open>serve\<close> gives when nothing else happens meanwhile, one check after the other.
  The steps of \<open>MachineAuth\<close>, whose intermediate states other requests can see, implement it; and they always come to an end.
\<close>

subsection \<open>The abstract path\<close>

definition spec_bind :: "'key bearer_answers \<Rightarrow> bearer_reply" where
  "spec_bind a = (if ba_bind a then answer_of (ba_reply a) else plain_reply 503 ''unavailable'')"

definition spec_exec :: "'key machine_auth \<Rightarrow> 'key bearer_answers \<Rightarrow> bearer_shared \<Rightarrow> bearer_reply" where
  "spec_exec cfg a sh = (if bs_exec_used sh < bc_exec_slots cfg then spec_bind a else unavailable_reply 1)"

definition permitted :: "'key machine_auth \<Rightarrow> bearer_request \<Rightarrow> principal \<Rightarrow> bool" where
  "permitted cfg q p \<longleftrightarrow>
     (\<exists>mop. machineOpFor (sent_method q) (br_route q) = Some mop \<and>
        scopeAllows (bc_ceilings cfg (pr_client p)) (pr_scopes p) (mo_scope mop) \<and> \<not> outside_base cfg mop (br_dn q))"

definition spec_guards :: "'key machine_auth \<Rightarrow> 'key bearer_answers \<Rightarrow> bearer_shared \<Rightarrow> bearer_request \<Rightarrow> principal \<Rightarrow> bearer_reply" where
  "spec_guards cfg a sh q p = (if permitted cfg q p then spec_exec cfg a sh else plain_reply 403 ''scope_denied'')"

definition spec_budget :: "'key machine_auth \<Rightarrow> 'key bearer_answers \<Rightarrow> bearer_shared \<Rightarrow> bearer_request \<Rightarrow> principal \<Rightarrow> bearer_reply" where
  "spec_budget cfg a sh q p =
     (case snd (cb_acquire (bs_budget sh) (ba_now a) (pr_client p)) of
        Some n \<Rightarrow> rateLimited n
      | None \<Rightarrow> spec_guards cfg a sh q p)"

definition is_write :: "'key machine_auth \<Rightarrow> bearer_request \<Rightarrow> bool" where
  "is_write cfg q \<longleftrightarrow> (\<exists>lookup. bc_write cfg = Some lookup \<and> lookup (sent_method q) (br_route q) \<noteq> None)"

definition spec_route :: "'key machine_auth \<Rightarrow> 'key bearer_answers \<Rightarrow> bearer_shared \<Rightarrow> bearer_request \<Rightarrow> principal \<Rightarrow> bearer_reply" where
  "spec_route cfg a sh q p = (if is_write cfg q then answer_of (ba_reply a) else spec_budget cfg a sh q p)"

definition standing :: "'key bearer_answers \<Rightarrow> bearer_shared \<Rightarrow> principal \<Rightarrow> rev_decision" where
  "standing a sh p =
     (case bs_revocation sh of None \<Rightarrow> DecisionOK | Some m \<Rightarrow> mr_check m (pr_client p) (pr_issued p) (pr_jti p) (ba_now a))"

definition spec_identity :: "'key machine_auth \<Rightarrow> 'key bearer_answers \<Rightarrow> bearer_shared \<Rightarrow> bearer_request \<Rightarrow> principal \<Rightarrow> bearer_reply" where
  "spec_identity cfg a sh q p =
     (case standing a sh p of
        DecisionRevoked \<Rightarrow> (plain_reply 401 ''token_invalid'')\<lparr> by_challenge := True \<rparr>
      | DecisionUnavailable \<Rightarrow> unavailable_reply 1
      | DecisionOK \<Rightarrow> spec_route cfg a sh q p)"

definition spec_judge ::
    "'key machine_auth \<Rightarrow> 'key bearer_answers \<Rightarrow> bearer_shared \<Rightarrow> bearer_request \<Rightarrow> failure + principal \<Rightarrow> bool \<Rightarrow> bearer_reply" where
  "spec_judge cfg a sh q v expired =
     (case v of
        Inl f \<Rightarrow> machineFailure f
      | Inr p \<Rightarrow> if expired then unavailable_reply 1 else spec_identity cfg a sh q p)"

definition spec_verify :: "'key machine_auth \<Rightarrow> 'key bearer_answers \<Rightarrow> bearer_shared \<Rightarrow> bearer_request \<Rightarrow> bearer_reply" where
  "spec_verify cfg a sh q =
     spec_judge cfg a sh q (Verify (bc_env cfg) (bc_jose cfg) (bc_policy cfg) (ba_look a) (the (br_token q)) (ba_now a)) (ba_expired a)"

definition spec_token :: "'key machine_auth \<Rightarrow> 'key bearer_answers \<Rightarrow> bearer_shared \<Rightarrow> bearer_request \<Rightarrow> bearer_reply" where
  "spec_token cfg a sh q =
     (case bc_slots cfg of
        None \<Rightarrow> spec_verify cfg a sh q
      | Some n \<Rightarrow> if bs_auth_used sh < n then spec_verify cfg a sh q else unavailable_reply 1)"

definition spec_admitted :: "'key machine_auth \<Rightarrow> 'key bearer_answers \<Rightarrow> bearer_shared \<Rightarrow> bearer_request \<Rightarrow> bearer_reply" where
  "spec_admitted cfg a sh q = (if br_token q = None then plain_reply 401 ''token_invalid'' else spec_token cfg a sh q)"

definition spec_serve :: "'key machine_auth \<Rightarrow> 'key bearer_answers \<Rightarrow> bearer_shared \<Rightarrow> bearer_request \<Rightarrow> bearer_reply" where
  "spec_serve cfg a sh q =
     (case bs_throttle sh of
        None \<Rightarrow> spec_admitted cfg a sh q
      | Some t \<Rightarrow>
          (case snd (ip_admit (bc_key_of cfg) (bc_order cfg) (bc_res_order cfg) t (ba_now a) (br_ip q)) of
             Refused n \<Rightarrow> rateLimited n
           | Admitted _ \<Rightarrow> spec_admitted cfg a sh q))"

subsection \<open>What is left to do at a stage\<close>

fun spec_at :: "bearer_stage \<Rightarrow> 'key machine_auth \<Rightarrow> 'key bearer_answers \<Rightarrow> bearer_shared \<Rightarrow> 'key breq \<Rightarrow> bearer_reply" where
  "spec_at BAdmit cfg a sh r = spec_serve cfg a sh (b_req r)"
| "spec_at BBadHeader cfg a sh r = plain_reply 401 ''token_invalid''"
| "spec_at BAuthSlot cfg a sh r = spec_token cfg a sh (b_req r)"
| "spec_at BVerify cfg a sh r = spec_verify cfg a sh (b_req r)"
| "spec_at BFreeAuth cfg a sh r = spec_judge cfg a sh (b_req r) (b_verdict r) (b_expired r)"
| "spec_at BJudge cfg a sh r = spec_judge cfg a sh (b_req r) (b_verdict r) (b_expired r)"
| "spec_at BRevocation cfg a sh r = spec_identity cfg a sh (b_req r) (b_who r)"
| "spec_at BRoute cfg a sh r = spec_route cfg a sh (b_req r) (b_who r)"
| "spec_at (BWrite wop) cfg a sh r = answer_of (ba_reply a)"
| "spec_at BBudget cfg a sh r = spec_budget cfg a sh (b_req r) (b_who r)"
| "spec_at BGuards cfg a sh r = spec_guards cfg a sh (b_req r) (b_who r)"
| "spec_at BExecSlot cfg a sh r = spec_exec cfg a sh"
| "spec_at BBind cfg a sh r = spec_bind a"
| "spec_at BHandler cfg a sh r = answer_of (ba_reply a)"
| "spec_at _ cfg a sh r = the (b_reply r)"

text \<open>The shared parts the later checks read do not change while the earlier ones run.\<close>

definition same_later :: "bearer_shared \<Rightarrow> bearer_shared \<Rightarrow> bool" where
  "same_later sh sh' \<longleftrightarrow> bs_revocation sh' = bs_revocation sh \<and> bs_budget sh' = bs_budget sh \<and> bs_exec_used sh' = bs_exec_used sh"

lemma spec_frame:
  assumes "same_later sh sh'"
  shows "spec_identity cfg a sh' q p = spec_identity cfg a sh q p" "spec_judge cfg a sh' q v e = spec_judge cfg a sh q v e"
    "spec_verify cfg a sh' q = spec_verify cfg a sh q"
proof -
  have "spec_exec cfg a sh' = spec_exec cfg a sh" using assms by (simp add: spec_exec_def same_later_def)
  then have "spec_guards cfg a sh' q p = spec_guards cfg a sh q p" for q p by (simp add: spec_guards_def)
  then have "spec_route cfg a sh' q p = spec_route cfg a sh q p" for q p
    using assms by (simp add: spec_route_def spec_budget_def same_later_def split: option.split)
  moreover have "standing a sh' p = standing a sh p" for p using assms by (simp add: standing_def same_later_def)
  ultimately have i: "spec_identity cfg a sh' q p = spec_identity cfg a sh q p" for q p
    by (cases "standing a sh p") (simp_all add: spec_identity_def)
  then have j: "spec_judge cfg a sh' q v e = spec_judge cfg a sh q v e" for q v e by (cases v) (simp_all add: spec_judge_def)
  show "spec_identity cfg a sh' q p = spec_identity cfg a sh q p" by (rule i)
  show "spec_judge cfg a sh' q v e = spec_judge cfg a sh q v e" by (rule j)
  show "spec_verify cfg a sh' q = spec_verify cfg a sh q" by (simp add: spec_verify_def j)
qed

lemma later_updates [simp]:
  "same_later sh (sh\<lparr> bs_throttle := t \<rparr>)" "same_later sh (sh\<lparr> bs_auth_used := n \<rparr>)"
  by (simp_all add: same_later_def)

definition keeps_answer :: "'key machine_auth \<Rightarrow> 'key bearer_answers \<Rightarrow> bearer_shared \<times> 'key breq \<Rightarrow> bearer_shared \<times> 'key breq \<Rightarrow> bool" where
  "keeps_answer cfg a x y \<longleftrightarrow>
     spec_at (b_stage (snd y)) cfg a (fst y) (snd y) = spec_at (b_stage (snd x)) cfg a (fst x) (snd x)"

lemma answer_admit:
  assumes "b_stage r = BAdmit"
  shows "keeps_answer cfg a (sh, r) (admitIP cfg a sh r)"
proof -
  have t: "spec_token cfg a (sh\<lparr> bs_throttle := t \<rparr>) q = spec_token cfg a sh q" for t q
    using spec_frame(3) [of sh "sh\<lparr> bs_throttle := t \<rparr>" cfg a] by (simp add: spec_token_def split: option.split)
  show ?thesis
  proof (cases "bs_throttle sh")
    case None
    with assms show ?thesis by (cases "br_token (b_req r)") (simp_all add: keeps_answer_def admitIP_def spec_serve_def spec_admitted_def)
  next
    case (Some th)
    obtain th' res where ad: "ip_admit (bc_key_of cfg) (bc_order cfg) (bc_res_order cfg) th (ba_now a) (br_ip (b_req r)) = (th', res)"
      by fastforce
    show ?thesis
    proof (cases res)
      case (Refused n)
      with assms Some ad show ?thesis by (simp add: keeps_answer_def admitIP_def spec_serve_def b_answered_def)
    next
      case (Admitted k)
      with assms Some ad t show ?thesis
        by (cases "br_token (b_req r)") (simp_all add: keeps_answer_def admitIP_def spec_serve_def spec_admitted_def)
    qed
  qed
qed

lemma answer_auth_slot: "b_stage r = BAuthSlot \<Longrightarrow> keeps_answer cfg a (sh, r) (acquireAuthSlot cfg sh r)"
  using spec_frame(3) [of sh "sh\<lparr> bs_auth_used := Suc (bs_auth_used sh) \<rparr>" cfg a]
  by (simp add: keeps_answer_def acquireAuthSlot_def spec_token_def b_answered_def split: option.split)

lemma answer_verify: "b_stage r = BVerify \<Longrightarrow> keeps_answer cfg a (sh, r) (sh, b_verify cfg a r)"
  by (simp add: keeps_answer_def b_verify_def spec_verify_def Let_def)

lemma answer_free_auth: "b_stage r = BFreeAuth \<Longrightarrow> keeps_answer cfg a (sh, r) (b_free_auth sh r)"
  using spec_frame(2) [of sh "sh\<lparr> bs_auth_used := bs_auth_used sh - 1 \<rparr>" cfg a]
  by (simp add: keeps_answer_def b_free_auth_def)

lemma answer_judge: "b_stage r = BJudge \<Longrightarrow> keeps_answer cfg a (sh, r) (sh, b_judge r)"
  by (cases "b_verdict r"; cases "b_expired r")
     (simp_all add: keeps_answer_def b_judge_def spec_judge_def Let_def b_answered_def b_who_def)

lemma answer_revoked:
  assumes "b_stage r = BRevocation"
  shows "keeps_answer cfg a (sh, r) (sh, b_revoked a sh r)"
proof (cases "bs_revocation sh")
  case None
  with assms show ?thesis by (simp add: keeps_answer_def b_revoked_def spec_identity_def standing_def b_who_def)
next
  case (Some m)
  with assms show ?thesis
    by (cases "mr_check m (pr_client (b_who r)) (pr_issued (b_who r)) (pr_jti (b_who r)) (ba_now a)")
       (simp_all add: keeps_answer_def b_revoked_def spec_identity_def standing_def b_answered_def, simp add: b_who_def)
qed

lemma answer_route: "b_stage r = BRoute \<Longrightarrow> keeps_answer cfg a (sh, r) (sh, b_route cfg r)"
  by (auto simp: keeps_answer_def b_route_def spec_route_def is_write_def b_who_def split: option.split)

lemma answer_guards:
  assumes "b_stage r = BGuards"
  shows "keeps_answer cfg a (sh, r) (sh, b_guards cfg r)"
proof (cases "permitted cfg (b_req r) (b_who r)")
  case True
  then obtain mop where "machineOpFor (sent_method (b_req r)) (br_route (b_req r)) = Some mop"
    "scopeAllows (bc_ceilings cfg (pr_client (b_who r))) (pr_scopes (b_who r)) (mo_scope mop)" "\<not> outside_base cfg mop (br_dn (b_req r))"
    by (auto simp: permitted_def)
  with True assms show ?thesis by (simp add: keeps_answer_def b_guards_def spec_guards_def)
next
  case False
  then have "b_guards cfg r = b_answered BFreeBudget (plain_reply 403 ''scope_denied'') (b_because ''scope'' r)"
    by (auto simp: permitted_def b_guards_def Let_def split: option.split)
  with False assms show ?thesis by (simp add: keeps_answer_def spec_guards_def b_answered_def)
qed

lemma answer_next: "keeps_answer cfg a (sh, r) (b_next cfg a sh r)"
proof (cases "b_stage r")
  case BAdmit
  then show ?thesis using answer_admit by (simp add: b_next_def)
next
  case BBadHeader
  then show ?thesis by (simp add: b_next_def keeps_answer_def rejectBadHeader_def b_answered_def)
next
  case BAuthSlot
  then show ?thesis using answer_auth_slot by (simp add: b_next_def)
next
  case BVerify
  then show ?thesis using answer_verify by (simp add: b_next_def)
next
  case BFreeAuth
  then show ?thesis using answer_free_auth by (simp add: b_next_def)
next
  case BJudge
  then show ?thesis using answer_judge by (simp add: b_next_def)
next
  case BRevocation
  then show ?thesis using answer_revoked by (simp add: b_next_def)
next
  case BRoute
  then show ?thesis using answer_route by (simp add: b_next_def)
next
  case (BWrite wop)
  then show ?thesis by (simp add: b_next_def keeps_answer_def b_write_def b_answered_def)
next
  case BBudget
  then show ?thesis
    by (simp add: b_next_def keeps_answer_def b_budget_step_def spec_budget_def spec_guards_def spec_exec_def b_answered_def b_who_def
        split: prod.split option.split)
next
  case BGuards
  then show ?thesis using answer_guards by (simp add: b_next_def)
next
  case BExecSlot
  then show ?thesis by (simp add: b_next_def keeps_answer_def b_exec_slot_def spec_exec_def b_answered_def)
next
  case BBind
  then show ?thesis by (simp add: b_next_def keeps_answer_def b_bind_def spec_bind_def b_answered_def)
next
  case BHandler
  then show ?thesis by (simp add: b_next_def keeps_answer_def b_handler_def b_answered_def)
next
  case BFreeIP
  then show ?thesis by (simp add: b_next_def keeps_answer_def releaseIP_def Let_def split: option.split)
qed (simp_all add: b_next_def keeps_answer_def)

subsection \<open>Every request ends\<close>

fun b_rank :: "bearer_stage \<Rightarrow> nat" where
  "b_rank BAdmit = 16" | "b_rank BAuthSlot = 15" | "b_rank BVerify = 14" | "b_rank BFreeAuth = 13" | "b_rank BJudge = 12"
| "b_rank BRevocation = 11" | "b_rank BRoute = 10" | "b_rank BBudget = 9" | "b_rank BGuards = 8" | "b_rank BExecSlot = 7"
| "b_rank BBind = 6" | "b_rank BHandler = 5" | "b_rank BClose = 4" | "b_rank BFreeExec = 3" | "b_rank BFreeBudget = 2"
| "b_rank (BWrite wop) = 2" | "b_rank BBadHeader = 2" | "b_rank BFreeIP = 1" | "b_rank BDone = 0"

lemma rank_admit: "b_stage r = BAdmit \<Longrightarrow> b_rank (b_stage (snd (admitIP cfg a sh r))) < 16"
  by (auto simp: admitIP_def b_answered_def Let_def split: option.split prod.split ip_admission.split)

lemma rank_judge: "b_rank (b_stage (b_judge r)) < 12"
  by (cases "b_verdict r"; cases "b_expired r") (simp_all add: b_judge_def b_answered_def Let_def)

lemma rank_revoked: "b_rank (b_stage (b_revoked a sh r)) < 11"
  by (simp add: b_revoked_def b_answered_def split: option.split rev_decision.split)

lemma rank_route: "b_rank (b_stage (b_route cfg r)) < 10"
  by (simp add: b_route_def split: option.split)

lemma rank_guards: "b_rank (b_stage (b_guards cfg r)) < 8"
  by (simp add: b_guards_def b_answered_def Let_def split: option.split)

lemma rank_decreases: "b_stage r \<noteq> BDone \<Longrightarrow> b_rank (b_stage (snd (b_next cfg a sh r))) < b_rank (b_stage r)"
  by (cases "b_stage r")
     (simp_all add: b_next_def rank_admit rank_judge rank_revoked rank_route rank_guards rejectBadHeader_def acquireAuthSlot_def b_verify_def
       b_free_auth_def b_write_def b_budget_step_def b_exec_slot_def b_bind_def b_handler_def releaseIP_def b_answered_def Let_def
       split: option.split prod.split)

fun replied :: "bearer_stage \<Rightarrow> bool" where
  "replied BFreeIP = True" | "replied BFreeBudget = True" | "replied BFreeExec = True" | "replied BClose = True"
| "replied BDone = True" | "replied _ = False"

lemma replied_next:
  assumes "replied (b_stage r) \<longrightarrow> b_reply r \<noteq> None"
  shows "replied (b_stage (snd (b_next cfg a sh r))) \<longrightarrow> b_reply (snd (b_next cfg a sh r)) \<noteq> None"
proof (cases "replied (b_stage r)")
  case True
  with assms show ?thesis
    by (cases "b_stage r") (simp_all add: b_next_def releaseIP_def Let_def split: option.split)
next
  case False
  then show ?thesis
    by (cases "b_stage r"; simp add: b_next_def)
       (auto simp: admitIP_def rejectBadHeader_def acquireAuthSlot_def b_verify_def b_free_auth_def b_judge_def b_revoked_def b_route_def
         b_write_def b_budget_step_def b_guards_def b_exec_slot_def b_bind_def b_handler_def b_answered_def Let_def
         split: option.split prod.split ip_admission.split sum.split rev_decision.split)
qed

text \<open>A request among others: before each of its steps the shared state, and what the outside answers, may be anything.\<close>

fun b_run :: "'key machine_auth \<Rightarrow> ('key bearer_answers \<times> bearer_shared) list \<Rightarrow> 'key breq \<Rightarrow> 'key breq" where
  "b_run cfg [] r = r"
| "b_run cfg ((a, sh) # xs) r = b_run cfg xs (snd (b_next cfg a sh r))"

lemma b_run_ends:
  assumes "b_rank (b_stage r) \<le> length xs" "replied (b_stage r) \<longrightarrow> b_reply r \<noteq> None"
  shows "b_stage (b_run cfg xs r) = BDone \<and> b_reply (b_run cfg xs r) \<noteq> None"
  using assms
proof (induction xs arbitrary: r)
  case Nil
  then show ?case by (cases "b_stage r") simp_all
next
  case (Cons x xs)
  obtain a sh where x: "x = (a, sh)" by fastforce
  have "b_rank (b_stage (snd (b_next cfg a sh r))) \<le> length xs"
  proof (cases "b_stage r = BDone")
    case True
    then show ?thesis by (simp add: b_next_def)
  next
    case False
    with rank_decreases [OF False, of cfg a sh] Cons.prems(1) show ?thesis by simp
  qed
  with Cons.IH replied_next [OF Cons.prems(2)] show ?case by (simp add: x)
qed

subsection \<open>The steps implement the path\<close>

fun b_iterate :: "nat \<Rightarrow> 'key machine_auth \<Rightarrow> 'key bearer_answers \<Rightarrow> bearer_shared \<times> 'key breq \<Rightarrow> bearer_shared \<times> 'key breq" where
  "b_iterate 0 cfg a x = x"
| "b_iterate (Suc n) cfg a x = b_iterate n cfg a (b_next cfg a (fst x) (snd x))"

lemma iterate_answer: "keeps_answer cfg a x (b_iterate n cfg a x)"
proof (induction n arbitrary: x)
  case (Suc n)
  obtain sh r where x: "x = (sh, r)" by fastforce
  from Suc.IH [of "b_next cfg a sh r"] answer_next [of cfg a sh r] show ?case by (simp add: x keeps_answer_def)
qed (simp add: keeps_answer_def)

lemma iterate_run: "\<exists>xs. length xs = n \<and> snd (b_iterate n cfg a x) = b_run cfg xs (snd x)"
proof (induction n arbitrary: x)
  case (Suc n)
  from Suc.IH [of "b_next cfg a (fst x) (snd x)"] obtain xs where
    "length xs = n" "snd (b_iterate n cfg a (b_next cfg a (fst x) (snd x))) = b_run cfg xs (snd (b_next cfg a (fst x) (snd x)))" by blast
  then show ?case by (intro exI [of _ "(a, fst x) # xs"]) simp
qed simp

text \<open>C10: the stepwise bearer path refines its specification. Run alone, from any shared state, for any request and any answers of the
  outside, the sixteen steps end with exactly the reply of the one-function path: the throttle, the header,
  the slots, the token, the deadline, the revocation check, the write table, the budget, the scopes, the base, the
  executor, in this order, each deciding only when all before it passed.\<close>

theorem serve_refines:
  "b_stage (snd (b_iterate 16 cfg a (sh, new_breq q))) = BDone \<and>
   b_reply (snd (b_iterate 16 cfg a (sh, new_breq q))) = Some (spec_serve cfg a sh q)"
proof -
  let ?y = "b_iterate 16 cfg a (sh, new_breq q)"
  obtain xs where xs: "length xs = 16" "snd ?y = b_run cfg xs (new_breq q)"
    using iterate_run [of 16 cfg a "(sh, new_breq q)"] by auto
  then have e: "b_stage (snd ?y) = BDone" "b_reply (snd ?y) \<noteq> None"
    using b_run_ends [of "new_breq q" xs cfg] by (simp_all add: new_breq_def)
  have "spec_at (b_stage (snd ?y)) cfg a (fst ?y) (snd ?y) = spec_serve cfg a sh q"
    using iterate_answer [of cfg a "(sh, new_breq q)" 16] by (simp add: keeps_answer_def) (simp add: new_breq_def)
  with e show ?thesis by auto
qed

end
