(* ===== verification/MachineAuthProps.thy ===== *)
theory MachineAuthProps
  imports MachineAuthSpec Holders
begin

text \<open>
  The properties of the bearer path in every reachable world of \<open>MachineAuth\<close>: what a request that reached a handler must have
  passed, what the shared state counts against what the requests hold, and which requests count against their source.
\<close>

subsection \<open>What has been decided\<close>

definition b_vouched :: "'key machine_auth \<Rightarrow> bearer_request \<Rightarrow> 'key bearer_event set \<Rightarrow> principal \<Rightarrow> bool" where
  "b_vouched cfg q T p \<longleftrightarrow> (\<exists>now look token. BvVerified now look \<in> T \<and> br_token q = Some token \<and>
     Verify (bc_env cfg) (bc_jose cfg) (bc_policy cfg) look token now = Inr p)"

definition cleared :: "bool \<Rightarrow> 'key bearer_event set \<Rightarrow> principal \<Rightarrow> bool" where
  "cleared checked T p \<longleftrightarrow> (checked \<longrightarrow> (\<exists>now s. BvRevocation now s \<in> T \<and>
     snapshot_Check s (pr_client p) (pr_issued p) (pr_jti p) now = DecisionOK))"

definition granted :: "'key machine_auth \<Rightarrow> bearer_request \<Rightarrow> principal \<Rightarrow> machine_op \<Rightarrow> bool" where
  "granted cfg q p mop \<longleftrightarrow> mop \<in> set machineOps \<and> sent_method q = ''GET'' \<and> mo_route mop = br_route q \<and>
     mo_scope mop \<in> bc_ceilings cfg (pr_client p) \<and> mo_scope mop \<in> set (pr_scopes p) \<and> \<not> outside_base cfg mop (br_dn q)"

definition delegated :: "'key machine_auth \<Rightarrow> bearer_request \<Rightarrow> write_op \<Rightarrow> bool" where
  "delegated cfg q wop \<longleftrightarrow> (\<exists>lookup. bc_write cfg = Some lookup \<and> lookup (sent_method q) (br_route q) = Some wop)"

lemma vouched_mono: "b_vouched cfg q T p \<Longrightarrow> T \<subseteq> T' \<Longrightarrow> b_vouched cfg q T' p"
  unfolding b_vouched_def by blast

lemma cleared_mono: "cleared checked T p \<Longrightarrow> T \<subseteq> T' \<Longrightarrow> cleared checked T' p"
  unfolding cleared_def by blast

text \<open>What is known of a request at each stage.\<close>

fun b_known :: "'key machine_auth \<Rightarrow> bool \<Rightarrow> bearer_stage \<Rightarrow> 'key breq \<Rightarrow> bool" where
  "b_known cfg checked BFreeAuth r = (\<forall>p. b_verdict r = Inr p \<longrightarrow> b_vouched cfg (b_req r) (set (b_trace r)) p)"
| "b_known cfg checked BJudge r = (\<forall>p. b_verdict r = Inr p \<longrightarrow> b_vouched cfg (b_req r) (set (b_trace r)) p)"
| "b_known cfg checked BRevocation r = b_vouched cfg (b_req r) (set (b_trace r)) (b_who r)"
| "b_known cfg checked (BWrite wop) r = (b_vouched cfg (b_req r) (set (b_trace r)) (b_who r) \<and> cleared checked (set (b_trace r)) (b_who r) \<and>
     delegated cfg (b_req r) wop)"
| "b_known cfg checked st r =
     ((st \<in> {BAuthSlot, BVerify} \<longrightarrow> br_token (b_req r) \<noteq> None) \<and>
      (st \<in> {BRoute, BBudget, BGuards, BExecSlot, BBind, BHandler} \<longrightarrow>
         b_vouched cfg (b_req r) (set (b_trace r)) (b_who r) \<and> cleared checked (set (b_trace r)) (b_who r)) \<and>
      (st \<in> {BExecSlot, BBind, BHandler} \<longrightarrow> (\<exists>mop. b_op r = Some mop \<and> granted cfg (b_req r) (b_who r) mop)))"

definition b_events :: "'key machine_auth \<Rightarrow> bool \<Rightarrow> 'key breq \<Rightarrow> bool" where
  "b_events cfg checked r \<longleftrightarrow> (\<forall>e \<in> set (b_trace r). case e of
       BvHandler mop \<Rightarrow> b_vouched cfg (b_req r) (set (b_trace r)) (b_who r) \<and> cleared checked (set (b_trace r)) (b_who r) \<and>
         granted cfg (b_req r) (b_who r) mop
     | BvWrite wop \<Rightarrow> b_vouched cfg (b_req r) (set (b_trace r)) (b_who r) \<and> cleared checked (set (b_trace r)) (b_who r) \<and>
         delegated cfg (b_req r) wop
     | _ \<Rightarrow> True)"

fun quiet :: "'key bearer_event \<Rightarrow> bool" where
  "quiet (BvHandler _) = False" | "quiet (BvWrite _) = False" | "quiet _ = True"

definition early :: "bearer_stage \<Rightarrow> bool" where
  "early st \<longleftrightarrow> st \<in> {BAdmit, BBadHeader, BAuthSlot, BVerify, BFreeAuth, BJudge}"

definition b_inv :: "'key machine_auth \<Rightarrow> bool \<Rightarrow> 'key breq \<Rightarrow> bool" where
  "b_inv cfg checked r \<longleftrightarrow> b_known cfg checked (b_stage r) r \<and> b_events cfg checked r \<and>
     (early (b_stage r) \<longrightarrow> list_all quiet (b_trace r))"

named_theorems b_steps

lemmas b_simps = b_answered_def b_because_def ticket_fail_def

lemmas [b_steps] = admitIP_def rejectBadHeader_def acquireAuthSlot_def b_verify_def b_free_auth_def b_judge_def b_revoked_def
  b_route_def b_write_def b_budget_step_def b_guards_def b_exec_slot_def b_bind_def b_handler_def releaseIP_def

lemma who_eq [simp]:
  "b_who (b_answered st y r) = b_who r" "b_who (b_because x r) = b_who r" "b_who (ticket_fail r) = b_who r"
  by (simp_all add: b_who_def b_simps)

lemma machineOpFor_facts: "machineOpFor m route = Some mop \<Longrightarrow> mop \<in> set machineOps \<and> m = ''GET'' \<and> mo_route mop = route"
proof -
  assume a: "machineOpFor m route = Some mop"
  then have f: "m = ''GET''" "List.find (\<lambda>x. mo_method x @ '' '' @ mo_route x = m @ '' '' @ route) (rev machineOps) = Some mop"
    by (auto simp: machineOpFor_def split: if_splits)
  then have g: "mop \<in> set machineOps" "mo_method mop @ '' '' @ mo_route mop = m @ '' '' @ route"
    using find_sound [OF f(2)] by (simp_all del: in_set_conv_nth)
  have "\<forall>x \<in> set machineOps. mo_method x = ''GET''" by (simp add: machineOps_def MOp_def)
  with f g show ?thesis by auto
qed

lemma inv_admit: "b_stage r = BAdmit \<Longrightarrow> b_inv cfg checked r \<Longrightarrow> b_inv cfg checked (snd (admitIP cfg a sh r))"
  by (auto simp: b_inv_def early_def b_events_def b_steps b_simps b_who_def Let_def
      split: option.splits prod.splits ip_admission.splits bearer_event.splits)

text \<open>A step that decides nothing new keeps what was known; one that appends an event keeps it too.\<close>

lemma events_quiet: "list_all quiet (b_trace r) \<Longrightarrow> b_events cfg checked r"
  by (auto simp: b_events_def list_all_iff split: bearer_event.split)

lemma events_grow:
  assumes "b_events cfg checked r" "b_req r' = b_req r" "b_who r' = b_who r" "b_trace r' = b_trace r @ es" "list_all quiet es"
  shows "b_events cfg checked r'"
proof -
  have m: "set (b_trace r) \<subseteq> set (b_trace r')" using assms(4) by simp
  show ?thesis
    unfolding b_events_def
  proof
    fix e assume "e \<in> set (b_trace r')"
    then consider "e \<in> set (b_trace r)" | "quiet e" using assms(4,5) by (auto simp: list_all_iff)
    then show "case e of
       BvHandler mop \<Rightarrow> b_vouched cfg (b_req r') (set (b_trace r')) (b_who r') \<and> cleared checked (set (b_trace r')) (b_who r') \<and>
         granted cfg (b_req r') (b_who r') mop
     | BvWrite wop \<Rightarrow> b_vouched cfg (b_req r') (set (b_trace r')) (b_who r') \<and> cleared checked (set (b_trace r')) (b_who r') \<and>
         delegated cfg (b_req r') wop
     | _ \<Rightarrow> True"
    proof cases
      case 1
      with assms(1) have "case e of
         BvHandler mop \<Rightarrow> b_vouched cfg (b_req r) (set (b_trace r)) (b_who r) \<and> cleared checked (set (b_trace r)) (b_who r) \<and>
           granted cfg (b_req r) (b_who r) mop
       | BvWrite wop \<Rightarrow> b_vouched cfg (b_req r) (set (b_trace r)) (b_who r) \<and> cleared checked (set (b_trace r)) (b_who r) \<and>
           delegated cfg (b_req r) wop
       | _ \<Rightarrow> True" unfolding b_events_def by blast
      with assms(2,3) vouched_mono [OF _ m] cleared_mono [OF _ m] show ?thesis by (cases e) auto
    qed (cases e; simp)
  qed
qed


lemma inv_bad_header: "b_stage r = BBadHeader \<Longrightarrow> b_inv cfg checked r \<Longrightarrow> b_inv cfg checked (rejectBadHeader r)"
  by (auto simp: b_inv_def early_def rejectBadHeader_def b_simps intro!: events_quiet)

lemma inv_auth_slot: "b_stage r = BAuthSlot \<Longrightarrow> b_inv cfg checked r \<Longrightarrow> b_inv cfg checked (snd (acquireAuthSlot cfg sh r))"
  by (auto simp: b_inv_def early_def acquireAuthSlot_def b_simps intro!: events_quiet split: option.split)

lemma inv_verify:
  assumes "b_stage r = BVerify" "b_inv cfg checked r"
  shows "b_inv cfg checked (b_verify cfg a r)"
proof -
  obtain token where t: "br_token (b_req r) = Some token" and q: "list_all quiet (b_trace r)"
    using assms by (auto simp: b_inv_def early_def)
  then have "list_all quiet (b_trace (b_verify cfg a r))" by (simp add: b_verify_def Let_def split: sum.split)
  note ev = events_quiet [OF this] this
  have "b_vouched cfg (b_req r) (set (b_trace (b_verify cfg a r))) p" if "b_verdict (b_verify cfg a r) = Inr p" for p
    unfolding b_vouched_def using that t
    by (intro exI [of _ "ba_now a"] exI [of _ "ba_look a"] exI [of _ token]) (simp add: b_verify_def Let_def)
  with ev show ?thesis by (simp add: b_inv_def early_def) (simp add: b_verify_def Let_def)
qed

lemma inv_free_auth: "b_stage r = BFreeAuth \<Longrightarrow> b_inv cfg checked r \<Longrightarrow> b_inv cfg checked (snd (b_free_auth sh r))"
  by (auto simp: b_inv_def early_def b_free_auth_def b_simps intro!: events_quiet)

lemma inv_judge:
  assumes "b_stage r = BJudge" "b_inv cfg checked r"
  shows "b_inv cfg checked (b_judge r)"
proof (cases "b_verdict r")
  case (Inl f)
  with assms show ?thesis by (auto simp: b_inv_def early_def b_judge_def b_simps Let_def intro!: events_quiet)
next
  case (Inr p)
  with assms show ?thesis by (auto simp: b_inv_def early_def b_judge_def b_simps b_who_def intro!: events_quiet)
qed

lemma inv_revoked:
  assumes "b_stage r = BRevocation" "b_inv cfg checked r" "checked \<longleftrightarrow> bs_revocation sh \<noteq> None"
  shows "b_inv cfg checked (b_revoked a sh r)"
proof -
  have v: "b_vouched cfg (b_req r) (set (b_trace r)) (b_who r)" and e: "b_events cfg checked r"
    using assms(1,2) by (simp_all add: b_inv_def)
  have ev: "b_events cfg checked (b_revoked a sh r)"
    by (rule events_grow [OF e, where es = "drop (length (b_trace r)) (b_trace (b_revoked a sh r))"])
       (auto simp: b_revoked_def b_simps b_who_def split: option.split rev_decision.split)
  show ?thesis
  proof (cases "bs_revocation sh")
    case None
    with v ev assms(3) show ?thesis by (simp add: b_inv_def b_revoked_def early_def cleared_def b_who_def)
  next
    case (Some m)
    have "b_vouched cfg (b_req r) (insert x (set (b_trace r))) (b_who r)" for x using vouched_mono [OF v] by blast
    with v ev Some show ?thesis
      by (cases "mr_check m (pr_client (b_who r)) (pr_issued (b_who r)) (pr_jti (b_who r)) (ba_now a)")
         (auto simp: b_inv_def b_revoked_def early_def b_simps cleared_def b_who_def mr_check_def)
  qed
qed

lemma inv_move:
  assumes "b_inv cfg checked r" "b_req r' = b_req r" "b_who r' = b_who r" "b_trace r' = b_trace r @ es" "list_all quiet es"
    "b_stage r' \<in> {BFreeIP, BDone, BClose, BFreeExec, BFreeBudget}"
  shows "b_inv cfg checked r'"
proof -
  have e: "b_events cfg checked r'" using events_grow [OF _ assms(2-5)] assms(1) by (simp add: b_inv_def)
  from assms(6) show ?thesis by (elim insertE emptyE) (simp_all add: b_inv_def early_def e)
qed


text \<open>The stages between the revocation check and the handler.\<close>

lemma events_still:
  assumes "b_events cfg checked r" "b_req r' = b_req r" "b_who r' = b_who r" "b_trace r' = b_trace r"
  shows "b_events cfg checked r'"
  using events_grow [OF assms(1-3), of "[]"] assms(4) by simp

lemma inv_route:
  assumes "b_stage r = BRoute" "b_inv cfg checked r"
  shows "b_inv cfg checked (b_route cfg r)"
proof -
  have "b_events cfg checked (b_route cfg r)"
    by (rule events_still [where r = r]) (use assms in \<open>auto simp: b_inv_def b_route_def b_who_def split: option.split\<close>)
  with assms show ?thesis
    by (auto simp: b_inv_def early_def) (auto simp: b_route_def b_who_def delegated_def split: option.split)
qed

lemma who_update [simp]: "b_who (r\<lparr> b_trace := t \<rparr>) = b_who r" "b_who (r\<lparr> b_reason := x \<rparr>) = b_who r" "b_who (r\<lparr> b_stage := st \<rparr>) = b_who r"
  "b_who (r\<lparr> b_reply := y \<rparr>) = b_who r" "b_who (r\<lparr> b_op := y' \<rparr>) = b_who r"
  by (simp_all add: b_who_def)

lemma events_act:
  assumes "b_events cfg checked r" "b_req r' = b_req r" "b_who r' = b_who r" "b_trace r' = b_trace r @ [e]"
    "b_vouched cfg (b_req r) (set (b_trace r)) (b_who r)" "cleared checked (set (b_trace r)) (b_who r)"
    "case e of BvHandler mop \<Rightarrow> granted cfg (b_req r) (b_who r) mop | BvWrite wop \<Rightarrow> delegated cfg (b_req r) wop | _ \<Rightarrow> True"
  shows "b_events cfg checked r'"
proof -
  have m: "set (b_trace r) \<subseteq> set (b_trace r')" using assms(4) by auto
  have v: "b_vouched cfg (b_req r) (set (b_trace r')) (b_who r)" "cleared checked (set (b_trace r')) (b_who r)"
    using vouched_mono [OF assms(5) m] cleared_mono [OF assms(6) m] .
  show ?thesis
    unfolding b_events_def
  proof
    fix x assume "x \<in> set (b_trace r')"
    then have "x = e \<or> x \<in> set (b_trace r)" using assms(4) by auto
    with assms(1,7) have "case x of BvHandler mop \<Rightarrow> granted cfg (b_req r) (b_who r) mop | BvWrite wop \<Rightarrow> delegated cfg (b_req r) wop | _ \<Rightarrow> True"
      by (cases x) (auto simp: b_events_def)
    with v assms(2,3) show "case x of
       BvHandler mop \<Rightarrow> b_vouched cfg (b_req r') (set (b_trace r')) (b_who r') \<and> cleared checked (set (b_trace r')) (b_who r') \<and>
         granted cfg (b_req r') (b_who r') mop
     | BvWrite wop \<Rightarrow> b_vouched cfg (b_req r') (set (b_trace r')) (b_who r') \<and> cleared checked (set (b_trace r')) (b_who r') \<and>
         delegated cfg (b_req r') wop
     | _ \<Rightarrow> True" by (cases x) auto
  qed
qed

lemma inv_write:
  assumes "b_stage r = BWrite wop" "b_inv cfg checked r"
  shows "b_inv cfg checked (b_write a wop r)"
proof -
  have "b_events cfg checked (b_write a wop r)"
    by (rule events_act [where r = r and e = "BvWrite wop"]) (use assms in \<open>auto simp: b_inv_def b_write_def b_answered_def\<close>)
  then show ?thesis by (simp add: b_inv_def early_def) (simp add: b_write_def b_answered_def)
qed

lemma inv_handler:
  assumes "b_stage r = BHandler" "b_inv cfg checked r"
  shows "b_inv cfg checked (b_handler a r)"
proof -
  have "b_events cfg checked (b_handler a r)"
    by (rule events_act [where r = r and e = "BvHandler (the (b_op r))"]) (use assms in \<open>auto simp: b_inv_def b_handler_def b_answered_def\<close>)
  then show ?thesis by (simp add: b_inv_def early_def) (simp add: b_handler_def b_answered_def)
qed

lemma inv_budget:
  assumes "b_stage r = BBudget" "b_inv cfg checked r"
  shows "b_inv cfg checked (snd (b_budget_step a sh r))"
proof -
  have "b_events cfg checked (snd (b_budget_step a sh r))"
    by (rule events_still [where r = r])
       (use assms in \<open>auto simp: b_inv_def b_budget_step_def b_simps b_who_def split: option.split prod.split\<close>)
  with assms show ?thesis
    by (auto simp: b_inv_def b_budget_step_def early_def b_simps b_who_def split: option.split prod.split)
qed

lemma inv_guards:
  assumes "b_stage r = BGuards" "b_inv cfg checked r"
  shows "b_inv cfg checked (b_guards cfg r)"
proof (cases "b_stage (b_guards cfg r) = BExecSlot")
  case True
  then obtain mop where m: "machineOpFor (sent_method (b_req r)) (br_route (b_req r)) = Some mop"
    "scopeAllows (bc_ceilings cfg (pr_client (b_who r))) (pr_scopes (b_who r)) (mo_scope mop)" "\<not> outside_base cfg mop (br_dn (b_req r))"
    by (auto simp: b_guards_def b_simps Let_def split: option.splits if_splits)
  with machineOpFor_facts [OF m(1)] have "granted cfg (b_req r) (b_who r) mop" by (simp add: granted_def scopeAllows_def)
  moreover have "b_events cfg checked (b_guards cfg r)"
    by (rule events_still [where r = r]) (use assms m in \<open>simp_all add: b_inv_def b_guards_def b_who_def\<close>)
  ultimately show ?thesis using assms m by (simp add: b_inv_def early_def b_guards_def b_who_def)
next
  case False
  have "b_stage (b_guards cfg r) = BFreeBudget \<and> b_req (b_guards cfg r) = b_req r \<and> b_who (b_guards cfg r) = b_who r \<and> b_trace (b_guards cfg r) = b_trace r @ []"
    using False by (auto simp: b_guards_def b_simps b_who_def Let_def split: option.splits)
  then show ?thesis using inv_move [OF assms(2)] by (metis insertI1 insert_iff list.pred_inject(1))
qed

lemma inv_exec_slot:
  assumes "b_stage r = BExecSlot" "b_inv cfg checked r"
  shows "b_inv cfg checked (snd (b_exec_slot cfg sh r))"
proof -
  have "b_events cfg checked (snd (b_exec_slot cfg sh r))"
    by (rule events_still [where r = r]) (use assms in \<open>auto simp: b_inv_def b_exec_slot_def b_simps b_who_def\<close>)
  with assms show ?thesis by (auto simp: b_inv_def b_exec_slot_def early_def b_simps b_who_def)
qed

lemma inv_bind:
  assumes "b_stage r = BBind" "b_inv cfg checked r"
  shows "b_inv cfg checked (b_bind a r)"
proof -
  have "b_events cfg checked (b_bind a r)"
    by (rule events_still [where r = r]) (use assms in \<open>auto simp: b_inv_def b_bind_def b_simps b_who_def\<close>)
  with assms show ?thesis by (auto simp: b_inv_def b_bind_def early_def b_simps b_who_def)
qed


subsection \<open>Every step\<close>

lemma next_inv:
  assumes "b_next cfg a sh r = (sh', r')" "b_inv cfg checked r" "checked \<longleftrightarrow> bs_revocation sh \<noteq> None"
  shows "b_inv cfg checked r'"
proof (cases "b_stage r")
  case BAdmit
  with assms inv_admit [OF _ assms(2), where a = a and sh = sh] show ?thesis by (simp add: b_next_def)
next
  case BBadHeader
  with assms inv_bad_header [OF _ assms(2)] show ?thesis by (auto simp: b_next_def)
next
  case BAuthSlot
  with assms inv_auth_slot [OF _ assms(2), where sh = sh] show ?thesis by (simp add: b_next_def)
next
  case BVerify
  with assms inv_verify [OF _ assms(2)] show ?thesis by (auto simp: b_next_def)
next
  case BFreeAuth
  with assms inv_free_auth [OF _ assms(2), where sh = sh] show ?thesis by (simp add: b_next_def)
next
  case BJudge
  with assms inv_judge [OF _ assms(2)] show ?thesis by (auto simp: b_next_def)
next
  case BRevocation
  with assms inv_revoked [OF _ assms(2,3)] show ?thesis by (auto simp: b_next_def)
next
  case BRoute
  with assms inv_route [OF _ assms(2)] show ?thesis by (auto simp: b_next_def)
next
  case (BWrite wop)
  with assms inv_write [OF BWrite assms(2)] show ?thesis by (auto simp: b_next_def)
next
  case BBudget
  with assms inv_budget [OF _ assms(2), where a = a and sh = sh] show ?thesis by (simp add: b_next_def)
next
  case BGuards
  with assms inv_guards [OF _ assms(2)] show ?thesis by (auto simp: b_next_def)
next
  case BExecSlot
  with assms inv_exec_slot [OF _ assms(2), where sh = sh] show ?thesis by (simp add: b_next_def)
next
  case BBind
  with assms inv_bind [OF _ assms(2)] show ?thesis by (auto simp: b_next_def)
next
  case BHandler
  with assms inv_handler [OF _ assms(2)] show ?thesis by (auto simp: b_next_def)
next
  case BClose
  with assms show ?thesis by (intro inv_move [OF assms(2), of _ "[]"]) (auto simp: b_next_def b_who_def)
next
  case BFreeExec
  with assms show ?thesis by (intro inv_move [OF assms(2), of _ "[]"]) (auto simp: b_next_def b_who_def)
next
  case BFreeBudget
  with assms show ?thesis by (intro inv_move [OF assms(2), of _ "[]"]) (auto simp: b_next_def b_who_def)
next
  case BFreeIP
  have "b_trace r' = b_trace r @ drop (length (b_trace r)) (b_trace r')" "list_all quiet (drop (length (b_trace r)) (b_trace r'))"
    "b_stage r' = BDone" "b_req r' = b_req r" "b_who r' = b_who r"
    using assms(1) BFreeIP by (auto simp: b_next_def releaseIP_def b_who_def Let_def split: option.splits)
  with inv_move [OF assms(2)] show ?thesis by blast
next
  case BDone
  with assms show ?thesis by (simp add: b_next_def)
qed

text \<open>What no step changes of the shared state.\<close>

lemma next_shared:
  assumes "b_next cfg a sh r = (sh', r')"
  shows "bs_revocation sh' = bs_revocation sh \<and> (bs_throttle sh' = None \<longleftrightarrow> bs_throttle sh = None)"
  using assms
  by (cases "b_stage r")
     (auto simp: b_next_def admitIP_def acquireAuthSlot_def b_free_auth_def b_budget_step_def b_exec_slot_def releaseIP_def Let_def
       split: option.splits prod.splits ip_admission.splits if_splits)

lemma reachable_shared:
  "b_reachable cfg throttled checked w \<Longrightarrow>
     (checked \<longleftrightarrow> bs_revocation (bw_shared w) \<noteq> None) \<and> (throttled \<longleftrightarrow> bs_throttle (bw_shared w) \<noteq> None)"
  by (induction rule: b_reachable.induct) (auto dest: next_shared)

lemma new_breq_inv: "b_inv cfg checked (new_breq q)"
  by (simp add: b_inv_def new_breq_def b_events_def)

lemma next_req: "b_next cfg a sh r = (sh', r') \<Longrightarrow> b_req r' = b_req r"
  by (cases "b_stage r")
     (auto simp: b_next_def b_steps b_simps Let_def split: option.splits prod.splits ip_admission.splits if_splits rev_decision.splits sum.splits)

lemma breq_reachable_inv:
  assumes "b_reachable cfg throttled checked w"
  shows "\<forall>r \<in> set (bw_reqs w). b_inv cfg checked r \<and> machineMiddleware (b_req r)"
  using assms
proof (induction rule: b_reachable.induct)
  case (b_arrive w q)
  then show ?case by (auto simp: new_breq_inv) (simp add: new_breq_def)
next
  case (b_step w i a sh r)
  then have "b_inv cfg checked (bw_reqs w ! i)" "machineMiddleware (b_req (bw_reqs w ! i))" by simp_all
  with b_step.hyps next_inv [OF b_step.hyps(3)] next_req [OF b_step.hyps(3)] reachable_shared [OF b_step.hyps(1)]
  have "b_inv cfg checked r \<and> machineMiddleware (b_req r)" by simp
  with b_step.IH show ?case by (auto dest!: set_update_cases)
qed simp_all


subsection \<open>What the requests hold\<close>

fun in_auth :: "bearer_stage \<Rightarrow> bool" where
  "in_auth BVerify = True" | "in_auth BFreeAuth = True" | "in_auth _ = False"

fun in_bound :: "bearer_stage \<Rightarrow> bool" where
  "in_bound BHandler = True" | "in_bound BClose = True" | "in_bound _ = False"

fun in_exec :: "bearer_stage \<Rightarrow> bool" where
  "in_exec BBind = True" | "in_exec BFreeExec = True" | "in_exec st = in_bound st"

fun in_budget :: "bearer_stage \<Rightarrow> bool" where
  "in_budget BGuards = True" | "in_budget BExecSlot = True" | "in_budget BFreeBudget = True" | "in_budget st = in_exec st"

fun in_flight_ip :: "bearer_stage \<Rightarrow> bool" where
  "in_flight_ip BAdmit = False" | "in_flight_ip BDone = False" | "in_flight_ip _ = True"

definition b_holds :: "bool \<Rightarrow> 'key breq \<Rightarrow> bool" where
  "b_holds throttled r \<longleftrightarrow> (b_auth_slot r \<longrightarrow> in_auth (b_stage r)) \<and> (b_budget r \<longleftrightarrow> in_budget (b_stage r)) \<and>
     (b_exec r \<longleftrightarrow> in_exec (b_stage r)) \<and> (b_bound r \<longleftrightarrow> in_bound (b_stage r)) \<and>
     (b_ticket r \<noteq> None \<longleftrightarrow> throttled \<and> in_flight_ip (b_stage r))"

text \<open>Most steps leave what is held alone and stay where the same things are held.\<close>

definition same_place :: "'key breq \<Rightarrow> 'key breq \<Rightarrow> bool" where
  "same_place r r' \<longleftrightarrow> b_auth_slot r' = b_auth_slot r \<and> b_budget r' = b_budget r \<and> b_exec r' = b_exec r \<and> b_bound r' = b_bound r \<and>
     b_ticket r' = b_ticket r \<and> in_auth (b_stage r') = in_auth (b_stage r) \<and> in_budget (b_stage r') = in_budget (b_stage r) \<and>
     in_exec (b_stage r') = in_exec (b_stage r) \<and> in_bound (b_stage r') = in_bound (b_stage r) \<and>
     in_flight_ip (b_stage r') = in_flight_ip (b_stage r)"

lemma holds_same: "same_place r r' \<Longrightarrow> b_holds throttled r \<Longrightarrow> b_holds throttled r'"
  by (simp add: same_place_def b_holds_def)

lemma place_answered: "same_place r r' \<Longrightarrow> in_auth st = in_auth (b_stage r) \<Longrightarrow> in_budget st = in_budget (b_stage r) \<Longrightarrow>
    in_exec st = in_exec (b_stage r) \<Longrightarrow> in_bound st = in_bound (b_stage r) \<Longrightarrow> in_flight_ip st = in_flight_ip (b_stage r) \<Longrightarrow>
    same_place r (b_answered st y r')"
  by (simp add: same_place_def b_answered_def)

lemma place_refl [simp]: "same_place r r"
  by (simp add: same_place_def)

lemma place_because [simp]: "same_place r (b_because x r') = same_place r r'"
  by (simp add: same_place_def b_because_def)

lemma place_fail [simp]: "same_place r (ticket_fail r') = same_place r r'"
  by (simp add: same_place_def ticket_fail_def)

lemma place_fields [simp]:
  "same_place r (r'\<lparr> b_reason := x \<rparr>) = same_place r r'" "same_place r (r'\<lparr> b_trace := t \<rparr>) = same_place r r'"
  by (simp_all add: same_place_def)

lemma place_bad_header: "b_stage r = BBadHeader \<Longrightarrow> same_place r (rejectBadHeader r)"
  by (simp add: rejectBadHeader_def place_answered)

lemma place_verify: "b_stage r = BVerify \<Longrightarrow> same_place r (b_verify cfg a r)"
  by (simp add: b_verify_def same_place_def Let_def)

lemma place_judge: "b_stage r = BJudge \<Longrightarrow> same_place r (b_judge r)"
proof (cases "b_verdict r")
  case (Inl f)
  then show "b_stage r = BJudge \<Longrightarrow> same_place r (b_judge r)" by (simp add: b_judge_def Let_def place_answered)
next
  case (Inr p)
  then show "b_stage r = BJudge \<Longrightarrow> same_place r (b_judge r)"
    by (cases "b_expired r") (simp_all add: b_judge_def place_answered, simp add: same_place_def)
qed

lemma place_revoked:
  assumes "b_stage r = BRevocation"
  shows "same_place r (b_revoked a sh r)"
proof (cases "bs_revocation sh")
  case None
  with assms show ?thesis by (simp add: b_revoked_def same_place_def)
next
  case (Some m)
  with assms show ?thesis
    by (cases "mr_check m (pr_client (b_who r)) (pr_issued (b_who r)) (pr_jti (b_who r)) (ba_now a)")
       (simp_all add: b_revoked_def place_answered, simp add: same_place_def)
qed

lemma place_route: "b_stage r = BRoute \<Longrightarrow> same_place r (b_route cfg r)"
  by (simp add: b_route_def same_place_def split: option.split)

lemma place_write: "b_stage r = BWrite wop \<Longrightarrow> same_place r (b_write a wop r)"
  by (simp add: b_write_def place_answered)

lemma place_guards:
  assumes "b_stage r = BGuards"
  shows "same_place r (b_guards cfg r)"
proof (cases "machineOpFor (sent_method (b_req r)) (br_route (b_req r))")
  case None
  with assms show ?thesis by (simp add: b_guards_def place_answered)
next
  case (Some mop)
  with assms have "same_place r (b_answered BFreeBudget (plain_reply 403 ''scope_denied'') (b_because ''scope'' r))"
    by (simp add: place_answered)
  with Some assms show ?thesis by (simp add: b_guards_def Let_def) (simp add: same_place_def)
qed

lemma place_handler: "b_stage r = BHandler \<Longrightarrow> same_place r (b_handler a r)"
  by (simp add: b_handler_def place_answered)

lemmas same_places = place_bad_header place_verify place_judge place_revoked place_route place_write place_guards place_handler

lemma holds_admit:
  assumes "admitIP cfg a sh r = (sh', r')" "b_stage r = BAdmit" "b_holds throttled r" "throttled \<longleftrightarrow> bs_throttle sh \<noteq> None"
  shows "b_holds throttled r'"
proof (cases "bs_throttle sh")
  case None
  with assms show ?thesis by (cases "br_token (b_req r)") (auto simp: admitIP_def b_holds_def)
next
  case (Some t)
  with assms show ?thesis
    by (cases "br_token (b_req r)") (auto simp: admitIP_def b_holds_def b_answered_def split: prod.splits ip_admission.splits)
qed

lemma holds_release:
  assumes "releaseIP cfg a sh r = (sh', r')" "b_stage r = BFreeIP" "b_holds throttled r" "throttled \<longleftrightarrow> bs_throttle sh \<noteq> None"
  shows "b_holds throttled r'"
  using assms by (cases "bs_throttle sh"; cases "b_ticket r") (auto simp: releaseIP_def b_holds_def Let_def)

lemma holds_auth: "acquireAuthSlot cfg sh r = (sh', r') \<Longrightarrow> b_stage r = BAuthSlot \<Longrightarrow> b_holds throttled r \<Longrightarrow> b_holds throttled r'"
  by (cases "bc_slots cfg") (auto simp: acquireAuthSlot_def b_holds_def b_simps split: if_splits)

lemma holds_free_auth: "b_free_auth sh r = (sh', r') \<Longrightarrow> b_stage r = BFreeAuth \<Longrightarrow> b_holds throttled r \<Longrightarrow> b_holds throttled r'"
  by (auto simp: b_free_auth_def b_holds_def split: if_splits)

lemma holds_budget: "b_budget_step a sh r = (sh', r') \<Longrightarrow> b_stage r = BBudget \<Longrightarrow> b_holds throttled r \<Longrightarrow> b_holds throttled r'"
  by (auto simp: b_budget_step_def b_holds_def b_answered_def split: prod.splits option.splits)

lemma holds_exec: "b_exec_slot cfg sh r = (sh', r') \<Longrightarrow> b_stage r = BExecSlot \<Longrightarrow> b_holds throttled r \<Longrightarrow> b_holds throttled r'"
  by (auto simp: b_exec_slot_def b_holds_def b_simps split: if_splits)

lemma holds_bind: "b_stage r = BBind \<Longrightarrow> b_holds throttled r \<Longrightarrow> b_holds throttled (b_bind a r)"
  by (auto simp: b_bind_def b_holds_def b_simps)

lemma next_holds:
  assumes "b_next cfg a sh r = (sh', r')" "b_holds throttled r" "throttled \<longleftrightarrow> bs_throttle sh \<noteq> None"
  shows "b_holds throttled r'"
proof (cases "b_stage r")
  case BAdmit
  with assms holds_admit show ?thesis by (simp add: b_next_def)
next
  case BAuthSlot
  with assms holds_auth show ?thesis by (simp add: b_next_def)
next
  case BFreeAuth
  with assms holds_free_auth show ?thesis by (simp add: b_next_def)
next
  case BBudget
  with assms holds_budget show ?thesis by (simp add: b_next_def)
next
  case BExecSlot
  with assms holds_exec show ?thesis by (simp add: b_next_def)
next
  case BBind
  with assms holds_bind [OF BBind assms(2)] show ?thesis by (auto simp: b_next_def)
next
  case BClose
  with assms show ?thesis by (auto simp: b_next_def b_holds_def)
next
  case BFreeExec
  with assms show ?thesis by (auto simp: b_next_def b_holds_def)
next
  case BFreeBudget
  with assms show ?thesis by (auto simp: b_next_def b_holds_def)
next
  case BFreeIP
  with assms holds_release show ?thesis by (simp add: b_next_def)
qed (use assms(1,2) in \<open>auto simp: b_next_def intro: same_places [THEN holds_same]\<close>)

lemma next_auth_slots:
  assumes "b_next cfg a sh r = (sh', r')" "b_holds throttled r" "b_auth_slot r \<Longrightarrow> 0 < bs_auth_used sh"
  shows "bs_auth_used sh' + of_bool (b_auth_slot r) = bs_auth_used sh + of_bool (b_auth_slot r') \<and>
    (bs_auth_used sh' \<le> bs_auth_used sh \<or> (\<exists>n. bc_slots cfg = Some n \<and> bs_auth_used sh' \<le> n) )"
  using assms
  by (cases "b_stage r")
     (auto simp: b_holds_def b_next_def b_steps b_simps Let_def
       split: option.splits prod.splits ip_admission.splits if_splits rev_decision.splits sum.splits)

lemma next_exec_slots:
  assumes "b_next cfg a sh r = (sh', r')" "b_holds throttled r" "b_exec r \<Longrightarrow> 0 < bs_exec_used sh"
  shows "bs_exec_used sh' + of_bool (b_exec r) = bs_exec_used sh + of_bool (b_exec r') \<and>
    (bs_exec_used sh' \<le> bs_exec_used sh \<or> bs_exec_used sh' \<le> bc_exec_slots cfg)"
  using assms
  by (cases "b_stage r")
     (auto simp: b_holds_def b_next_def b_steps b_simps Let_def
       split: option.splits prod.splits ip_admission.splits if_splits rev_decision.splits sum.splits)

lemma next_other_budget:
  assumes "b_next cfg a sh r = (sh', r')" "b_stage r \<notin> {BBudget, BFreeBudget}" "b_holds throttled r"
  shows "bs_budget sh' = bs_budget sh \<and> b_budget r' = b_budget r \<and> (b_budget r \<longrightarrow> b_who r' = b_who r)"
  using assms
  by (cases "b_stage r")
     (auto simp: b_holds_def b_next_def b_steps b_simps Let_def b_who_def
       split: option.splits prod.splits ip_admission.splits if_splits rev_decision.splits sum.splits)

lemma next_budget:
  assumes "b_next cfg a sh r = (sh', r')" "b_holds throttled r" "\<not> cb_off (bs_budget sh)"
    "b_budget r \<Longrightarrow> 0 < cb_inflight (bs_budget sh) (pr_client (b_who r))"
  shows "\<not> cb_off (bs_budget sh') \<and> cb_conc (bs_budget sh') = cb_conc (bs_budget sh) \<and>
    cb_inflight (bs_budget sh') c + of_bool (b_budget r \<and> pr_client (b_who r) = c) =
      cb_inflight (bs_budget sh) c + of_bool (b_budget r' \<and> pr_client (b_who r') = c) \<and>
    (0 < cb_conc (bs_budget sh) \<longrightarrow> cb_inflight (bs_budget sh') c \<le> cb_inflight (bs_budget sh) c \<or>
       cb_inflight (bs_budget sh') c \<le> cb_conc (bs_budget sh))"
proof (cases "b_stage r \<in> {BBudget, BFreeBudget}")
  case False
  with next_other_budget [OF assms(1) _ assms(2)] assms(3) show ?thesis by auto
next
  case True
  show ?thesis
  proof (cases "b_stage r = BBudget")
    case budget: True
    obtain b res where a: "cb_acquire (bs_budget sh) (ba_now a) (pr_client (b_who r)) = (b, res)" by fastforce
    from budget assms(1,2) a have s: "bs_budget sh' = b" "b_budget r' \<longleftrightarrow> res = None" "\<not> b_budget r" "b_who r' = b_who r"
      by (auto simp: b_next_def b_budget_step_def b_holds_def b_simps b_who_def split: option.splits)
    show ?thesis using cb_acquire_inflight [OF a, of c] s assms(3) by (auto simp: cb_off_def)
  next
    case False
    with True assms(1,2) have s: "bs_budget sh' = cb_release (bs_budget sh) (pr_client (b_who r))" "b_budget r" "\<not> b_budget r'"
      by (auto simp: b_next_def b_holds_def)
    show ?thesis using cb_release_inflight [OF assms(3) assms(4) [OF s(2)], of c] s assms(3) by (auto simp: cb_off_def)
  qed
qed


definition holds_budget_of :: "string \<Rightarrow> 'key breq \<Rightarrow> bool" where
  "holds_budget_of c r \<longleftrightarrow> b_budget r \<and> pr_client (b_who r) = c"

definition b_balanced :: "'key machine_auth \<Rightarrow> bool \<Rightarrow> 'key bearer_world \<Rightarrow> bool" where
  "b_balanced cfg throttled w \<longleftrightarrow>
     (\<forall>r \<in> set (bw_reqs w). b_holds throttled r) \<and>
     bs_auth_used (bw_shared w) = holders b_auth_slot (bw_reqs w) \<and> (\<forall>n. bc_slots cfg = Some n \<longrightarrow> bs_auth_used (bw_shared w) \<le> n) \<and>
     bs_exec_used (bw_shared w) = holders b_exec (bw_reqs w) \<and> bs_exec_used (bw_shared w) \<le> bc_exec_slots cfg \<and>
     (\<not> cb_off (bs_budget (bw_shared w)) \<longrightarrow>
        (\<forall>c. cb_inflight (bs_budget (bw_shared w)) c = int (holders (holds_budget_of c) (bw_reqs w)))) \<and>
     (\<forall>c. 0 < cb_conc (bs_budget (bw_shared w)) \<longrightarrow> int (holders (holds_budget_of c) (bw_reqs w)) \<le> cb_conc (bs_budget (bw_shared w)))"

lemma next_off:
  assumes "b_next cfg a sh r = (sh', r')"
  shows "cb_off (bs_budget sh') = cb_off (bs_budget sh)"
proof (cases "b_stage r \<in> {BBudget, BFreeBudget}")
  case True
  then show ?thesis
  proof (elim insertE emptyE)
    assume "b_stage r = BBudget"
    with assms obtain res where "cb_acquire (bs_budget sh) (ba_now a) (pr_client (b_who r)) = (bs_budget sh', res)"
      by (auto simp: b_next_def b_budget_step_def split: prod.splits option.splits)
    from cb_acquire_inflight [OF this] show ?thesis by (simp add: cb_off_def)
  next
    assume "b_stage r = BFreeBudget"
    with assms show ?thesis by (auto simp: b_next_def)
  qed
next
  case False
  with assms have "bs_budget sh' = bs_budget sh"
    by (cases "b_stage r")
       (auto simp: b_next_def admitIP_def acquireAuthSlot_def b_free_auth_def b_exec_slot_def releaseIP_def Let_def
         split: option.splits prod.splits ip_admission.splits if_splits)
  then show ?thesis by simp
qed

lemma balanced_budget:
  assumes "b_balanced cfg throttled w" "i < length (bw_reqs w)" "b_next cfg a (bw_shared w) (bw_reqs w ! i) = (sh', r')"
    "\<not> cb_off (bs_budget sh')"
  shows "cb_inflight (bs_budget sh') c = int (holders (holds_budget_of c) ((bw_reqs w)[i := r'])) \<and>
    (0 < cb_conc (bs_budget sh') \<longrightarrow> int (holders (holds_budget_of c) ((bw_reqs w)[i := r'])) \<le> cb_conc (bs_budget sh'))"
proof -
  let ?r = "bw_reqs w ! i" and ?sh = "bw_shared w" and ?rs = "bw_reqs w"
  note H = holders_update [OF assms(2), where r' = r'] holders_pos [OF assms(2)]
  have h: "b_holds throttled ?r" using assms(1,2) by (simp add: b_balanced_def)
  have off: "\<not> cb_off (bs_budget ?sh)" using assms(4) next_off [OF assms(3)] by simp
  have f: "cb_inflight (bs_budget ?sh) c = int (holders (holds_budget_of c) ?rs)"
    "0 < cb_conc (bs_budget ?sh) \<longrightarrow> int (holders (holds_budget_of c) ?rs) \<le> cb_conc (bs_budget ?sh)" for c
    using assms(1) off unfolding b_balanced_def by blast+
  have pos: "b_budget ?r \<Longrightarrow> 0 < cb_inflight (bs_budget ?sh) (pr_client (b_who ?r))"
    using H(2) [of "holds_budget_of (pr_client (b_who ?r))"] f(1) by (simp add: holds_budget_of_def)
  have B: "cb_conc (bs_budget sh') = cb_conc (bs_budget ?sh)"
    "cb_inflight (bs_budget sh') c + of_bool (holds_budget_of c ?r) = cb_inflight (bs_budget ?sh) c + of_bool (holds_budget_of c r')"
    "0 < cb_conc (bs_budget ?sh) \<longrightarrow> cb_inflight (bs_budget sh') c \<le> cb_inflight (bs_budget ?sh) c \<or>
       cb_inflight (bs_budget sh') c \<le> cb_conc (bs_budget ?sh)"
    using next_budget [OF assms(3) h off pos, of c] by (simp_all add: holds_budget_of_def)
  have "int (holders (holds_budget_of c) (?rs[i := r'])) + of_bool (holds_budget_of c ?r) =
      int (holders (holds_budget_of c) ?rs) + of_bool (holds_budget_of c r')"
    using H(1) [of "holds_budget_of c"] by (cases "holds_budget_of c ?r"; cases "holds_budget_of c r'") simp_all
  with B(2) f(1) [of c] have e: "cb_inflight (bs_budget sh') c = int (holders (holds_budget_of c) (?rs[i := r']))" by linarith
  moreover have "0 < cb_conc (bs_budget sh') \<longrightarrow> int (holders (holds_budget_of c) (?rs[i := r'])) \<le> cb_conc (bs_budget sh')"
    using B(1,3) f [of c] e by auto
  ultimately show ?thesis by blast
qed

lemma balanced_step:
  assumes "b_balanced cfg throttled w" "i < length (bw_reqs w)" "b_next cfg a (bw_shared w) (bw_reqs w ! i) = (sh', r')"
    "throttled \<longleftrightarrow> bs_throttle (bw_shared w) \<noteq> None"
  shows "b_balanced cfg throttled (w\<lparr> bw_shared := sh', bw_reqs := (bw_reqs w)[i := r'] \<rparr>)"
proof -
  let ?r = "bw_reqs w ! i" and ?sh = "bw_shared w" and ?rs = "bw_reqs w"
  note H = holders_update [OF assms(2), where r' = r'] holders_pos [OF assms(2)]
  have h: "b_holds throttled ?r" and R: "\<forall>r \<in> set ?rs. b_holds throttled r" using assms(1,2) by (simp_all add: b_balanced_def)
  have au: "bs_auth_used ?sh = holders b_auth_slot ?rs" and eu: "bs_exec_used ?sh = holders b_exec ?rs"
    and al: "bc_slots cfg = Some n \<Longrightarrow> bs_auth_used ?sh \<le> n" and el: "bs_exec_used ?sh \<le> bc_exec_slots cfg" for n
    using assms(1) by (simp_all add: b_balanced_def)
  have A: "bs_auth_used sh' + of_bool (b_auth_slot ?r) = bs_auth_used ?sh + of_bool (b_auth_slot r') \<and>
      (bs_auth_used sh' \<le> bs_auth_used ?sh \<or> (\<exists>n. bc_slots cfg = Some n \<and> bs_auth_used sh' \<le> n))"
    by (rule next_auth_slots [OF assms(3) h]) (use H(2) au in simp)
  have E: "bs_exec_used sh' + of_bool (b_exec ?r) = bs_exec_used ?sh + of_bool (b_exec r') \<and>
      (bs_exec_used sh' \<le> bs_exec_used ?sh \<or> bs_exec_used sh' \<le> bc_exec_slots cfg)"
    by (rule next_exec_slots [OF assms(3) h]) (use H(2) eu in simp)
  have "bs_auth_used sh' = holders b_auth_slot (?rs[i := r'])" using A H(1) [of b_auth_slot] au by linarith
  moreover have "bs_exec_used sh' = holders b_exec (?rs[i := r'])" using E H(1) [of b_exec] eu by linarith
  moreover have "bs_exec_used sh' \<le> bc_exec_slots cfg" using E el by linarith
  moreover have "bs_auth_used sh' \<le> n" if "bc_slots cfg = Some n" for n using A al [OF that] that by auto
  moreover have "\<forall>r \<in> set (?rs[i := r']). b_holds throttled r"
    using R next_holds [OF assms(3) h assms(4)] by (auto dest!: set_update_cases)
  moreover have B: "\<not> cb_off (bs_budget sh') \<longrightarrow> cb_inflight (bs_budget sh') c = int (holders (holds_budget_of c) (?rs[i := r']))"
    "0 < cb_conc (bs_budget sh') \<longrightarrow> int (holders (holds_budget_of c) (?rs[i := r'])) \<le> cb_conc (bs_budget sh')" for c
  proof -
    have "(cb_off (bs_budget sh') \<longrightarrow> \<not> 0 < cb_conc (bs_budget sh')) \<and> (\<not> cb_off (bs_budget sh') \<longrightarrow>
        cb_inflight (bs_budget sh') c = int (holders (holds_budget_of c) (?rs[i := r'])) \<and>
        (0 < cb_conc (bs_budget sh') \<longrightarrow> int (holders (holds_budget_of c) (?rs[i := r'])) \<le> cb_conc (bs_budget sh')))"
      using balanced_budget [OF assms(1-3)] by (auto simp: cb_off_def)
    then show "\<not> cb_off (bs_budget sh') \<longrightarrow> cb_inflight (bs_budget sh') c = int (holders (holds_budget_of c) (?rs[i := r']))"
      "0 < cb_conc (bs_budget sh') \<longrightarrow> int (holders (holds_budget_of c) (?rs[i := r'])) \<le> cb_conc (bs_budget sh')" by blast+
  qed
  ultimately show ?thesis by (simp add: b_balanced_def)
qed

lemma reachable_balanced: "b_reachable cfg throttled checked w \<Longrightarrow> b_balanced cfg throttled w"
proof (induction rule: b_reachable.induct)
  case (b_start thr snaps rps burst conc clients)
  then show ?case by (simp add: b_balanced_def holders_def newClientBudget_def cb_inflight_def)
next
  case (b_arrive w q)
  have "holders b_auth_slot (bw_reqs w @ [new_breq q]) = holders b_auth_slot (bw_reqs w)"
    "holders b_exec (bw_reqs w @ [new_breq q]) = holders b_exec (bw_reqs w)"
    "holders (holds_budget_of c) (bw_reqs w @ [new_breq q]) = holders (holds_budget_of c) (bw_reqs w)" for c
    by (rule holders_arrive, simp add: new_breq_def holds_budget_of_def)+
  moreover have "\<forall>r \<in> set (bw_reqs w @ [new_breq q]). b_holds throttled r"
    using b_arrive.IH by (auto simp: b_balanced_def) (simp_all add: new_breq_def b_holds_def)
  ultimately show ?case using b_arrive.IH by (auto simp: b_balanced_def)
next
  case (b_refresh w m cancelled read m' delay)
  then show ?case by (auto simp: b_balanced_def)
next
  case (b_step w i a sh r)
  with balanced_step [OF b_step.IH b_step.hyps(2,3)] reachable_shared show ?case by blast
qed


subsection \<open>Which requests count against their source\<close>

fun released :: "'key bearer_event list \<Rightarrow> bool list" where
  "released [] = []"
| "released (BvReleased f # es) = f # released es"
| "released (_ # es) = released es"

lemma released_append [simp]: "released (xs @ ys) = released xs @ released ys"
  by (induction xs rule: released.induct) simp_all

definition b_executed :: "'key breq \<Rightarrow> bool" where
  "b_executed r \<longleftrightarrow> \<not> list_all quiet (b_trace r)"

text \<open>The path's own refusal of the credentials: a 401 that no handler gave.\<close>

definition rejected :: "'key breq \<Rightarrow> bool" where
  "rejected r \<longleftrightarrow> \<not> b_executed r \<and> (\<exists>y. b_reply r = Some y \<and> by_status y = 401)"

definition b_counted :: "'key breq \<Rightarrow> bool" where
  "b_counted r \<longleftrightarrow>
     (b_failed r \<longleftrightarrow> rejected r) \<and> (b_executed r \<longrightarrow> replied (b_stage r)) \<and> (b_reply r \<noteq> None \<longleftrightarrow> replied (b_stage r)) \<and>
     (if b_stage r = BDone then b_trace r = [] \<and> map_option by_status (b_reply r) = Some 429 \<or>
        (\<exists>f. released (b_trace r) = [f] \<and> (f \<longrightarrow> b_failed r))
      else released (b_trace r) = []) \<and> (b_stage r = BAdmit \<longrightarrow> b_trace r = [])"

lemma counted_refused:
  assumes "b_counted r" "\<not> replied (b_stage r)" "b_trace r' = b_trace r" "b_reply r' = Some y" "replied (b_stage r')" "b_stage r' \<noteq> BDone"
    "b_failed r' \<longleftrightarrow> by_status y = 401"
  shows "b_counted r'"
proof -
  have "b_stage r \<noteq> BDone" using assms(2) by auto
  with assms show ?thesis by (auto simp: b_counted_def rejected_def b_executed_def)
qed

lemma counted_moved:
  assumes "b_counted r" "b_stage r \<noteq> BDone" "b_trace r' = b_trace r @ es" "list_all quiet es" "released es = []" "b_reply r' = b_reply r"
    "b_failed r' = b_failed r" "replied (b_stage r') = replied (b_stage r)" "b_stage r' \<noteq> BDone" "b_stage r' \<noteq> BAdmit"
  shows "b_counted r'"
  using assms by (auto simp: b_counted_def rejected_def b_executed_def)

lemma counted_ran:
  assumes "b_counted r" "\<not> replied (b_stage r)" "b_trace r' = b_trace r @ [e]" "\<not> quiet e" "b_reply r' = Some y"
    "b_failed r' = b_failed r" "replied (b_stage r')" "b_stage r' \<noteq> BDone"
  shows "b_counted r'"
proof -
  have "b_stage r \<noteq> BDone" using assms(2) by auto
  with assms show ?thesis by (cases e) (auto simp: b_counted_def rejected_def b_executed_def)
qed

lemma counted_fresh: "b_counted r \<Longrightarrow> \<not> replied (b_stage r) \<Longrightarrow> \<not> b_failed r"
  by (auto simp: b_counted_def rejected_def)

lemma answered_fields [simp]:
  "b_trace (b_answered st y r) = b_trace r" "b_reply (b_answered st y r) = Some y" "b_stage (b_answered st y r) = st"
  "b_failed (b_answered st y r) = b_failed r" "b_ticket (b_answered st y r) = b_ticket r"
  by (simp_all add: b_answered_def)

lemma because_fields [simp]:
  "b_trace (b_because x r) = b_trace r" "b_reply (b_because x r) = b_reply r" "b_stage (b_because x r) = b_stage r"
  "b_failed (b_because x r) = b_failed r" "b_ticket (b_because x r) = b_ticket r"
  by (simp_all add: b_because_def)

lemma fail_fields [simp]:
  "b_trace (ticket_fail r) = b_trace r" "b_reply (ticket_fail r) = b_reply r" "b_stage (ticket_fail r) = b_stage r"
  "b_failed (ticket_fail r) \<longleftrightarrow> b_failed r \<or> b_ticket r \<noteq> None" "b_ticket (ticket_fail r) = b_ticket r"
  by (auto simp: ticket_fail_def)

lemma reply_status [simp]:
  "by_status (plain_reply s c) = s" "by_status (unavailable_reply n) = 503" "by_status (rateLimited n) = 429"
  "by_status ((plain_reply s c)\<lparr> by_challenge := b \<rparr>) = s" "by_status (machineFailure f) = (if fl_unavailable f then 503 else 401)"
  by (simp_all add: plain_reply_def unavailable_reply_def rateLimited_def machineFailure_def)

lemma counted_admit:
  assumes "admitIP cfg a sh r = (sh', r')" "b_stage r = BAdmit" "b_counted r"
  shows "b_counted r'"
proof (cases "b_stage r' = BDone")
  case True
  with assms have "b_trace r' = []" "map_option by_status (b_reply r') = Some 429" "\<not> b_failed r'"
    using counted_fresh [OF assms(3)]
    by (auto simp: admitIP_def b_counted_def Let_def split: option.splits prod.splits ip_admission.splits if_splits)
  with True show ?thesis by (auto simp: b_counted_def rejected_def b_executed_def)
next
  case False
  with assms(1,2) have "b_trace r' = b_trace r @ []" "b_reply r' = b_reply r" "b_failed r' = b_failed r" "b_stage r' \<in> {BBadHeader, BAuthSlot}"
    by (auto simp: admitIP_def Let_def split: option.splits prod.splits ip_admission.splits if_splits)
  with counted_moved [OF assms(3) _ this(1)] assms(2) show ?thesis by auto
qed

lemma counted_release:
  assumes "releaseIP cfg a sh r = (sh', r')" "b_stage r = BFreeIP" "b_counted r" "b_holds True r" "bs_throttle sh \<noteq> None"
  shows "b_counted r'"
proof -
  from assms(2,4,5) obtain t k where "bs_throttle sh = Some t" "b_ticket r = Some k" by (auto simp: b_holds_def)
  with assms(1) have "r' = r\<lparr> b_stage := BDone, b_ticket := None, b_trace := b_trace r @ [BvReleased (\<not> ba_gone a \<and> b_failed r)] \<rparr>"
    by (auto simp: releaseIP_def Let_def)
  with assms(2,3) show ?thesis by (auto simp: b_counted_def rejected_def b_executed_def)
qed

lemma counted_judge:
  assumes "b_stage r = BJudge" "b_counted r" "b_ticket r \<noteq> None"
  shows "b_counted (b_judge r)"
proof -
  have nf: "\<not> b_failed r" using counted_fresh [OF assms(2)] assms(1) by simp
  show ?thesis
  proof (cases "b_verdict r")
    case (Inl f)
    have "b_trace (b_judge r) = b_trace r" "b_reply (b_judge r) = Some (machineFailure f)" "b_stage (b_judge r) = BFreeIP"
      "b_failed (b_judge r) = (\<not> fl_unavailable f)"
      using Inl nf assms(3) by (auto simp: b_judge_def Let_def)
    then show ?thesis using counted_refused [OF assms(2), of "b_judge r" "machineFailure f"] assms(1) by simp
  next
    case (Inr p)
    show ?thesis
    proof (cases "b_expired r")
      case True
      with Inr assms nf show ?thesis by (intro counted_refused [OF assms(2), where y = "unavailable_reply 1"]) (simp_all add: b_judge_def)
    next
      case False
      with Inr assms show ?thesis by (intro counted_moved [OF assms(2), where es = "[]"]) (simp_all add: b_judge_def)
    qed
  qed
qed

lemma counted_revoked:
  assumes "b_stage r = BRevocation" "b_counted r" "b_ticket r \<noteq> None"
  shows "b_counted (b_revoked a sh r)"
proof -
  have nf: "\<not> b_failed r" using counted_fresh [OF assms(2)] assms(1) by simp
  show ?thesis
  proof (cases "bs_revocation sh")
    case None
    with assms show ?thesis by (intro counted_moved [OF assms(2), where es = "[]"]) (simp_all add: b_revoked_def)
  next
    case (Some m)
    let ?d = "mr_check m (pr_client (b_who r)) (pr_issued (b_who r)) (pr_jti (b_who r)) (ba_now a)"
    show ?thesis
    proof (cases ?d)
      case DecisionOK
      with Some assms show ?thesis
        by (intro counted_moved [OF assms(2), where es = "[BvRevocation (ba_now a) (mr_snapshot m)]"]) (simp_all add: b_revoked_def)
    next
      case DecisionRevoked
      with Some assms nf show ?thesis
        by (intro counted_refused [OF assms(2), where y = "(plain_reply 401 ''token_invalid'')\<lparr> by_challenge := True \<rparr>"])
           (simp_all add: b_revoked_def)
    next
      case DecisionUnavailable
      with Some assms nf show ?thesis
        by (intro counted_refused [OF assms(2), where y = "unavailable_reply 1"]) (simp_all add: b_revoked_def)
    qed
  qed
qed

lemma counted_budget:
  assumes "b_budget_step a sh r = (sh', r')" "b_stage r = BBudget" "b_counted r"
  shows "b_counted r'"
proof -
  obtain b res where c: "cb_acquire (bs_budget sh) (ba_now a) (pr_client (b_who r)) = (b, res)" by fastforce
  have nf: "\<not> b_failed r" using counted_fresh [OF assms(3)] assms(2) by simp
  show ?thesis
  proof (cases res)
    case None
    with c assms show ?thesis by (intro counted_moved [OF assms(3), where es = "[]"]) (auto simp: b_budget_step_def)
  next
    case (Some n)
    with c assms nf show ?thesis by (intro counted_refused [OF assms(3), where y = "rateLimited n"]) (auto simp: b_budget_step_def)
  qed
qed

lemma counted_guards:
  assumes "b_stage r = BGuards" "b_counted r"
  shows "b_counted (b_guards cfg r)"
proof (cases "b_stage (b_guards cfg r) = BExecSlot")
  case True
  then have "b_trace (b_guards cfg r) = b_trace r @ []" "b_reply (b_guards cfg r) = b_reply r" "b_failed (b_guards cfg r) = b_failed r"
    by (auto simp: b_guards_def Let_def split: option.splits if_splits)
  with counted_moved [OF assms(2) _ this(1)] True assms(1) show ?thesis by simp
next
  case False
  then have "b_trace (b_guards cfg r) = b_trace r" "b_reply (b_guards cfg r) = Some (plain_reply 403 ''scope_denied'')"
      "b_failed (b_guards cfg r) = b_failed r" "b_stage (b_guards cfg r) = BFreeBudget"
    by (auto simp: b_guards_def Let_def split: option.splits if_splits)
  with counted_refused [OF assms(2) _ this(1,2)] counted_fresh [OF assms(2)] assms(1) show ?thesis by simp
qed

lemma next_counted:
  assumes "b_next cfg a sh r = (sh', r')" "b_counted r" "b_holds True r" "bs_throttle sh \<noteq> None"
  shows "b_counted r'"
proof -
  have fresh: "\<not> replied (b_stage r) \<Longrightarrow> \<not> b_failed r" using counted_fresh [OF assms(2)] .
  have ticket: "b_stage r \<noteq> BAdmit \<Longrightarrow> b_stage r \<noteq> BDone \<Longrightarrow> b_ticket r \<noteq> None"
    using assms(3) by (cases "b_stage r") (auto simp: b_holds_def)
  note moved = counted_moved [OF assms(2), where es = "[]"] and refused = counted_refused [OF assms(2)]
  show ?thesis
  proof (cases "b_stage r")
    case BAdmit
    with assms counted_admit show ?thesis by (simp add: b_next_def)
  next
    case BBadHeader
    with assms(1) ticket fresh show ?thesis
      by (intro refused [where y = "plain_reply 401 ''token_invalid''"]) (auto simp: b_next_def rejectBadHeader_def)
  next
    case BAuthSlot
    show ?thesis
    proof (cases "b_stage r' = BVerify")
      case True
      with BAuthSlot assms(1) show ?thesis
        by (intro moved) (auto simp: b_next_def acquireAuthSlot_def split: option.splits if_splits)
    next
      case False
      with BAuthSlot assms(1) fresh show ?thesis
        by (intro refused [where y = "unavailable_reply 1"])
           (auto simp: b_next_def acquireAuthSlot_def split: option.splits if_splits)
    qed
  next
    case BVerify
    with assms(1) show ?thesis
      by (intro counted_moved [OF assms(2), where es = "drop (length (b_trace r)) (b_trace r')"])
         (auto simp: b_next_def b_verify_def Let_def split: sum.splits)
  next
    case BFreeAuth
    with assms(1) show ?thesis by (intro moved) (auto simp: b_next_def b_free_auth_def split: if_splits)
  next
    case BJudge
    with assms(1) counted_judge [OF BJudge assms(2)] ticket show ?thesis by (auto simp: b_next_def)
  next
    case BRevocation
    with assms(1) counted_revoked [OF BRevocation assms(2)] ticket show ?thesis by (auto simp: b_next_def)
  next
    case BRoute
    with assms(1) show ?thesis by (intro moved) (auto simp: b_next_def b_route_def split: option.splits)
  next
    case (BWrite wop)
    with assms(1) show ?thesis
      by (intro counted_ran [OF assms(2), where e = "BvWrite wop" and y = "answer_of (ba_reply a)"]) (auto simp: b_next_def b_write_def b_answered_def)
  next
    case BBudget
    with assms counted_budget show ?thesis by (simp add: b_next_def)
  next
    case BGuards
    with assms(1) counted_guards [OF BGuards assms(2)] show ?thesis by (auto simp: b_next_def)
  next
    case BExecSlot
    show ?thesis
    proof (cases "b_stage r' = BBind")
      case True
      with BExecSlot assms(1) show ?thesis by (intro moved) (auto simp: b_next_def b_exec_slot_def split: if_splits)
    next
      case False
      with BExecSlot assms(1) fresh show ?thesis
        by (intro refused [where y = "unavailable_reply 1"]) (auto simp: b_next_def b_exec_slot_def split: if_splits)
    qed
  next
    case BBind
    show ?thesis
    proof (cases "ba_bind a")
      case True
      with BBind assms(1) show ?thesis by (intro moved) (auto simp: b_next_def b_bind_def)
    next
      case False
      with BBind assms(1) fresh show ?thesis
        by (intro refused [where y = "plain_reply 503 ''unavailable''"]) (auto simp: b_next_def b_bind_def)
    qed
  next
    case BHandler
    with assms(1) show ?thesis
      by (intro counted_ran [OF assms(2), where e = "BvHandler (the (b_op r))" and y = "answer_of (ba_reply a)"])
         (auto simp: b_next_def b_handler_def b_answered_def)
  next
    case BFreeIP
    with assms counted_release show ?thesis by (simp add: b_next_def)
  next
    case BDone
    with assms(1,2) show ?thesis by (simp add: b_next_def)
  qed (use assms(1) in \<open>auto simp: b_next_def intro!: moved\<close>)
qed

lemma breq_counted_new: "b_counted (new_breq q)"
  by (simp add: b_counted_def rejected_def b_executed_def new_breq_def)

lemma reachable_counted:
  assumes "b_reachable cfg True checked w"
  shows "\<forall>r \<in> set (bw_reqs w). b_counted r"
  using assms
proof (induction w rule: b_reachable.induct)
  case (b_arrive w q)
  then show ?case using breq_counted_new by auto
next
  case (b_step w i a sh r)
  have "b_holds True (bw_reqs w ! i)" using reachable_balanced [OF b_step.hyps(1)] b_step.hyps(2) by (simp add: b_balanced_def)
  moreover have "b_counted (bw_reqs w ! i)" using b_step.IH b_step.hyps(2) by simp
  ultimately have "b_counted r" using next_counted [OF b_step.hyps(3)] reachable_shared [OF b_step.hyps(1)] by simp
  with b_step.IH show ?case by (auto dest!: set_update_cases)
qed simp_all

subsection \<open>The properties\<close>

lemma bearer_selected: "br_token q = Some token \<Longrightarrow> si_class (br_input q) = classP \<and> \<not> si_cookie (br_input q)"
  by (auto simp: br_token_def selectAuth_def split: selection.splits if_splits pathClass.splits authKind.splits)

text \<open>C7: nothing is executed for a machine client without its identity, its standing and its permission. In every interleaving of requests
  and snapshot refreshes, a request that reached a handler or the write pipeline came over a protected route without a session cookie; its own token
  was verified; when revocation is on, a snapshot published by then cleared that principal; a handler it reached is one of the eight reads,
  asked for with GET as sent, its scope is in the client's ceiling and in the token, and a name it asks for lies inside the base
  and outside the revocation subtree; a write it was handed over for is a registered one.\<close>

theorem bearer_authorized:
  assumes "b_reachable cfg throttled checked w" "r \<in> set (bw_reqs w)" "b_executed r"
  shows "\<exists>p token now look.
    br_token (b_req r) = Some token \<and> si_class (br_input (b_req r)) = classP \<and> \<not> si_cookie (br_input (b_req r)) \<and>
    BvVerified now look \<in> set (b_trace r) \<and> Verify (bc_env cfg) (bc_jose cfg) (bc_policy cfg) look token now = Inr p \<and>
    (checked \<longrightarrow> (\<exists>t s. BvRevocation t s \<in> set (b_trace r) \<and> snapshot_Check s (pr_client p) (pr_issued p) (pr_jti p) t = DecisionOK)) \<and>
    (\<forall>mop. BvHandler mop \<in> set (b_trace r) \<longrightarrow>
       mop \<in> set machineOps \<and> sent_method (b_req r) = ''GET'' \<and> mo_route mop = br_route (b_req r) \<and>
       mo_scope mop \<in> bc_ceilings cfg (pr_client p) \<and> mo_scope mop \<in> set (pr_scopes p) \<and>
       (mo_id mop \<in> {''getEntry'', ''listTree''} \<and> br_dn (b_req r) \<noteq> '''' \<and> valid_DN (br_dn (b_req r)) \<longrightarrow>
          dnWithinBase (bc_dn_lib cfg) (bc_base_dn cfg) (br_dn (b_req r)) \<and>
          \<not> protectedRevocationDN (bc_dn_lib cfg) (bc_revocation_base cfg) (br_dn (b_req r)) False)) \<and>
    (\<forall>wop. BvWrite wop \<in> set (b_trace r) \<longrightarrow>
       (\<exists>lookup. bc_write cfg = Some lookup \<and> lookup (sent_method (b_req r)) (br_route (b_req r)) = Some wop))"
proof -
  have inv: "b_events cfg checked r" using breq_reachable_inv [OF assms(1)] assms(2) by (simp add: b_inv_def)
  from assms(3) obtain e where e: "e \<in> set (b_trace r)" "\<not> quiet e" by (auto simp: b_executed_def list_all_iff)
  with inv have k: "b_vouched cfg (b_req r) (set (b_trace r)) (b_who r)" "cleared checked (set (b_trace r)) (b_who r)"
    by (cases e; force simp: b_events_def)+
  then obtain now look token where v: "BvVerified now look \<in> set (b_trace r)" "br_token (b_req r) = Some token"
    "Verify (bc_env cfg) (bc_jose cfg) (bc_policy cfg) look token now = Inr (b_who r)" by (auto simp: b_vouched_def)
  have g: "granted cfg (b_req r) (b_who r) mop" if "BvHandler mop \<in> set (b_trace r)" for mop
    using inv that by (force simp: b_events_def)
  have d: "delegated cfg (b_req r) wop" if "BvWrite wop \<in> set (b_trace r)" for wop
    using inv that by (force simp: b_events_def)
  show ?thesis
    using v k(2) bearer_selected [OF v(2)] g d
    by (intro exI [of _ "b_who r"] exI [of _ token] exI [of _ now] exI [of _ look])
       (auto simp: cleared_def granted_def delegated_def outside_base_def)
qed

text \<open>C9: only a rejected credential counts against its source, and every admission is settled once. With the throttle on, a request that has ended either was
  refused by it (429, and it has done nothing else), or has given its reservation back exactly once; it is marked as a failure exactly when the path itself answered 401
  without running anything, so no 403, 429, 503 or handler's reply ever counts; and the reservation turns into a failure only for a marked
  request.\<close>

theorem only_rejections_count:
  assumes "b_reachable cfg True checked w" "r \<in> set (bw_reqs w)" "b_stage r = BDone"
  shows "(b_failed r \<longleftrightarrow> \<not> b_executed r \<and> map_option by_status (b_reply r) = Some 401) \<and>
    (b_trace r = [] \<and> map_option by_status (b_reply r) = Some 429 \<or>
     (\<exists>f. released (b_trace r) = [f] \<and> (f \<longrightarrow> b_failed r)))"
proof -
  have "b_counted r" using reachable_counted [OF assms(1)] assms(2) by blast
  with assms(3) show ?thesis by (auto simp: b_counted_def rejected_def)
qed

text \<open>A request at a stage of the authentication has a slot, when there are slots.\<close>

definition auth_held :: "'key machine_auth \<Rightarrow> 'key breq \<Rightarrow> bool" where
  "auth_held cfg r \<longleftrightarrow> (in_auth (b_stage r) \<longrightarrow> bc_slots cfg \<noteq> None \<longrightarrow> b_auth_slot r)"

lemma next_auth_held: "b_next cfg a sh r = (sh', r') \<Longrightarrow> auth_held cfg r \<Longrightarrow> auth_held cfg r'"
  by (cases "b_stage r")
     (auto simp: auth_held_def b_next_def b_steps b_simps Let_def
       split: option.splits prod.splits ip_admission.splits if_splits rev_decision.splits sum.splits)

lemma reachable_auth_held: "b_reachable cfg throttled checked w \<Longrightarrow> \<forall>r \<in> set (bw_reqs w). auth_held cfg r"
proof (induction rule: b_reachable.induct)
  case (b_arrive w q)
  then show ?case by (auto simp: auth_held_def new_breq_def)
next
  case (b_step w i a sh r)
  then have "auth_held cfg r" using next_auth_held [OF b_step.hyps(3)] by simp
  with b_step.IH show ?case by (auto dest!: set_update_cases)
qed simp_all

lemma filter_le_holders:
  assumes "\<And>r. r \<in> set rs \<Longrightarrow> P r \<Longrightarrow> Q r"
  shows "length (filter P rs) \<le> holders Q rs"
  using assms unfolding holders_def by (induction rs) auto

text \<open>C8: the capacity of the machine path is bounded and comes back. In every interleaving at most the configured number of requests
  is at a stage of the authentication (about to verify its token, or verified and not yet past it), at most the executor's
  number is between taking an execution slot and giving it back, directory connection included, and at most the configured number of one client's requests
  is between its budget and the end of its run; and when every request has ended, nothing is held: all slots are free and no client
  has anything in flight.\<close>

theorem bearer_bounded:
  assumes "b_reachable cfg throttled checked w"
  shows "(\<forall>n. bc_slots cfg = Some n \<longrightarrow> length (filter (\<lambda>r. b_stage r \<in> {BVerify, BFreeAuth}) (bw_reqs w)) \<le> n) \<and>
    length (filter (\<lambda>r. b_stage r \<in> {BBind, BHandler, BClose, BFreeExec} \<or> b_bound r) (bw_reqs w)) \<le> bc_exec_slots cfg \<and>
    (\<forall>c. 0 < cb_conc (bs_budget (bw_shared w)) \<longrightarrow>
       int (length (filter (\<lambda>r. b_stage r \<in> {BGuards, BExecSlot, BBind, BHandler, BClose, BFreeExec, BFreeBudget} \<and>
         pr_client (b_who r) = c) (bw_reqs w))) \<le> cb_conc (bs_budget (bw_shared w))) \<and>
    (list_all (\<lambda>r. b_stage r = BDone) (bw_reqs w) \<longrightarrow>
       bs_auth_used (bw_shared w) = 0 \<and> bs_exec_used (bw_shared w) = 0 \<and>
       (\<not> cb_off (bs_budget (bw_shared w)) \<longrightarrow> (\<forall>c. cb_inflight (bs_budget (bw_shared w)) c = 0)) \<and>
       (\<forall>r \<in> set (bw_reqs w). b_ticket r = None \<and> \<not> b_bound r))"
proof -
  note B = reachable_balanced [OF assms, unfolded b_balanced_def]
  have none: "holders P (bw_reqs w) = 0" if "list_all (\<lambda>r. b_stage r = BDone) (bw_reqs w)" "\<And>r. r \<in> set (bw_reqs w) \<Longrightarrow> b_stage r = BDone \<Longrightarrow> \<not> P r" for P
    using that by (auto simp: holders_def filter_empty_conv list_all_iff)
  have free: "\<not> b_auth_slot r \<and> \<not> b_exec r \<and> \<not> holds_budget_of c r \<and> \<not> b_bound r \<and> b_ticket r = None"
    if "r \<in> set (bw_reqs w)" "b_stage r = BDone" for r c
  proof -
    have "b_holds throttled r" using that B by blast
    with that show ?thesis by (simp add: b_holds_def holds_budget_of_def)
  qed
  have H: "b_holds throttled r" if "r \<in> set (bw_reqs w)" for r using B that by blast
  have "length (filter (\<lambda>r. b_stage r \<in> {BVerify, BFreeAuth}) (bw_reqs w)) \<le> holders b_auth_slot (bw_reqs w)" if "bc_slots cfg \<noteq> None"
    by (rule filter_le_holders) (use reachable_auth_held [OF assms] that in \<open>auto simp: auth_held_def\<close>)
  then have auth: "length (filter (\<lambda>r. b_stage r \<in> {BVerify, BFreeAuth}) (bw_reqs w)) \<le> n" if "bc_slots cfg = Some n" for n
    using B that by fastforce
  have "length (filter (\<lambda>r. b_stage r \<in> {BBind, BHandler, BClose, BFreeExec} \<or> b_bound r) (bw_reqs w)) \<le> holders b_exec (bw_reqs w)"
  proof (rule filter_le_holders)
    fix r
    assume r: "r \<in> set (bw_reqs w)" "b_stage r \<in> {BBind, BHandler, BClose, BFreeExec} \<or> b_bound r"
    have "b_exec r \<longleftrightarrow> in_exec (b_stage r)" "b_bound r \<longleftrightarrow> in_bound (b_stage r)" using H [OF r(1)] by (simp_all add: b_holds_def)
    with r(2) show "b_exec r" by (cases "b_stage r") auto
  qed
  then have exec: "length (filter (\<lambda>r. b_stage r \<in> {BBind, BHandler, BClose, BFreeExec} \<or> b_bound r) (bw_reqs w)) \<le> bc_exec_slots cfg"
    using B by linarith
  have "length (filter (\<lambda>r. b_stage r \<in> {BGuards, BExecSlot, BBind, BHandler, BClose, BFreeExec, BFreeBudget} \<and> pr_client (b_who r) = c) (bw_reqs w))
      \<le> holders (holds_budget_of c) (bw_reqs w)" for c
    by (rule filter_le_holders) (use H in \<open>force simp: b_holds_def holds_budget_of_def\<close>)
  then have budget: "int (length (filter (\<lambda>r. b_stage r \<in> {BGuards, BExecSlot, BBind, BHandler, BClose, BFreeExec, BFreeBudget} \<and>
      pr_client (b_who r) = c) (bw_reqs w))) \<le> cb_conc (bs_budget (bw_shared w))" if "0 < cb_conc (bs_budget (bw_shared w))" for c
    using B that by (meson of_nat_le_iff order_trans)
  show ?thesis
  proof (intro conjI impI)
    assume fin: "list_all (\<lambda>r. b_stage r = BDone) (bw_reqs w)"
    show "bs_auth_used (bw_shared w) = 0" using B none [OF fin, of b_auth_slot] free by simp
    show "bs_exec_used (bw_shared w) = 0" using B none [OF fin, of b_exec] free by simp
    show "\<forall>c. cb_inflight (bs_budget (bw_shared w)) c = 0" if "\<not> cb_off (bs_budget (bw_shared w))"
      using B that none [OF fin, of "holds_budget_of _"] free by simp
    show "\<forall>r \<in> set (bw_reqs w). b_ticket r = None \<and> \<not> b_bound r"
      using B fin free by (simp add: list_all_iff)
  qed (use auth exec budget in blast)+
qed


subsection \<open>A concrete request\<close>

lemma iterate_reachable:
  "b_reachable cfg throttled checked \<lparr> bw_shared = fst x, bw_reqs = [snd x] \<rparr> \<Longrightarrow>
     b_reachable cfg throttled checked \<lparr> bw_shared = fst (b_iterate n cfg a x), bw_reqs = [snd (b_iterate n cfg a x)] \<rparr>"
proof (induction n arbitrary: x)
  case (Suc n)
  have "b_next cfg a (fst x) (snd x) = (fst (b_next cfg a (fst x) (snd x)), snd (b_next cfg a (fst x) (snd x)))" by simp
  from b_step [OF Suc.prems, of 0, simplified, OF this] Suc.IH [of "b_next cfg a (fst x) (snd x)"] show ?case by simp
qed simp

definition tok_auth :: "unit machine_auth" where
  "tok_auth = \<lparr> bc_key_of = (\<lambda>s. s), bc_order = sorted_range, bc_res_order = sorted_range, bc_env = tok_env, bc_jose = tok_jose,
     bc_policy = tok_policy, bc_dn_lib = \<lparr> dl_parse = (\<lambda>s. None), dl_eq = (\<lambda>a b. a = b), dl_anc = (\<lambda>a b. False), dl_lower = (\<lambda>s. s) \<rparr>,
     bc_ceilings = (\<lambda>c. {''directory.users.read''}), bc_base_dn = ''dc=x'', bc_revocation_base = '''', bc_slots = Some 1,
     bc_exec_slots = 1, bc_write = None \<rparr>"

definition tok_request :: "string \<Rightarrow> bearer_request" where
  "tok_request header = \<lparr> br_ip = ''h'', br_input = \<lparr> si_enabled = True, si_class = classP, si_headers = [header], si_cookie = False \<rparr>,
     br_method = ''GET'', br_orig = '''', br_route = ''/api/users'', br_dn = '''' \<rparr>"

definition tok_answer :: "unit bearer_answers" where
  "tok_answer = \<lparr> ba_now = tok_time 120, ba_gone = False, ba_look = (\<lambda>k. LookupKey ()), ba_expired = False, ba_bind = True,
     ba_reply = (200, '''') \<rparr>"

definition tok_shared :: "ip_throttle option \<Rightarrow> bearer_shared" where
  "tok_shared thr = \<lparr> bs_throttle = thr, bs_auth_used = 0, bs_revocation = None, bs_budget = newClientBudget 0 0 1 [''app''], bs_exec_used = 0 \<rparr>"

lemma tok_selected: "selectAuth (br_input (tok_request ''Bearer t'')) = actBearer ''t''"
  "selectAuth (br_input (tok_request ''Basic t'')) = actReject 401 ''token_invalid'' ''bad_header''"
  by code_simp+

lemma tok_verified: "\<exists>pr. Verify tok_env tok_jose tok_policy (\<lambda>k. LookupKey ()) ''t'' (tok_time 120) = Inr pr \<and> pr_client pr = ''app'' \<and>
    ''directory.users.read'' \<in> set (pr_scopes pr)"
proof -
  obtain c where c: "decode_claims tok_json ''t'' = Some c" "identity_claims tok_env tok_policy c = Inr (''app'', ''u'', ''directory.users.read b'')"
    "in_time tok_env tok_policy c (tok_time 120) (tok_time 100) (tok_time 160)"
    using tok_in_time [of "''t''" 120] by auto
  then obtain j where "time_claims tok_env tok_policy c (tok_time 120) = Inr (tok_time 100, tok_time 160, j)"
    by (simp add: time_claims_Inr) (simp add: tok_policy_def tok_time_def second_ns_def)
  with c have "\<exists>pr. ValidateClaims tok_env tok_policy ''t'' (tok_time 120) = Inr pr \<and> pr_client pr = ''app'' \<and>
      pr_scopes pr = token_scopes ''directory.users.read b''"
    by (simp add: ValidateClaims_def) (simp add: tok_env_def)
  moreover have "''directory.users.read'' \<in> set (token_scopes ''directory.users.read b'')" by code_simp
  moreover have "VerifySignature tok_jose (\<lambda>k. LookupKey ()) ''t'' = Inr ''t''"
    by (simp add: VerifySignature_def tok_jose_def)
  moreover have "jl_parse tok_jose t = Some [\<lparr> jh_typ = ''JWT'', jh_kid = ''k'', jh_alg = ''RS256'' \<rparr>]" for t
    by (simp add: tok_jose_def)
  moreover have "js_fold (ce_json tok_env) ''JWT'' ''JWT''" by (simp add: tok_env_def tok_json_def)
  ultimately show ?thesis by (auto simp: Verify_def MaxTokenBytes_def)
qed

lemma tok_start:
  assumes "machineMiddleware q" "throttled = (thr \<noteq> None)"
  shows "b_reachable cfg throttled False \<lparr> bw_shared = tok_shared thr, bw_reqs = [new_breq q] \<rparr>"
proof -
  have "b_reachable cfg throttled False \<lparr> bw_shared = tok_shared thr, bw_reqs = [] \<rparr>"
    unfolding tok_shared_def by (rule b_start) (simp_all add: assms(2))
  from b_arrive [OF this assms(1)] show ?thesis by simp
qed


lemma tok_auth_simps [simp]:
  "bc_env tok_auth = tok_env" "bc_jose tok_auth = tok_jose" "bc_policy tok_auth = tok_policy" "bc_slots tok_auth = Some 1"
  "bc_exec_slots tok_auth = 1" "bc_write tok_auth = None" "bc_ceilings tok_auth = (\<lambda>c. {''directory.users.read''})"
  by (simp_all add: tok_auth_def)

lemma tok_answer_simps [simp]:
  "ba_now tok_answer = tok_time 120" "\<not> ba_gone tok_answer" "ba_look tok_answer = (\<lambda>k. LookupKey ())" "\<not> ba_expired tok_answer"
  "ba_bind tok_answer" "ba_reply tok_answer = (200, '''')"
  by (simp_all add: tok_answer_def)

lemma tok_request_simps [simp]:
  "br_token (tok_request ''Bearer t'') = Some ''t''" "br_token (tok_request ''Basic t'') = None"
  "machineMiddleware (tok_request ''Bearer t'')" "machineMiddleware (tok_request ''Basic t'')"
  "sent_method (tok_request h) = ''GET''" "br_route (tok_request h) = ''/api/users''" "br_dn (tok_request h) = ''''"
  using tok_selected by (simp_all add: br_token_def machineMiddleware_def) (simp_all add: sent_method_def tok_request_def)

lemma tok_op: "machineOpFor ''GET'' ''/api/users'' = Some (MOp ''listUsers'' ''GET'' ''/api/users'' ''directory.users.read'')"
  by code_simp

lemma tok_run: "b_executed (snd (b_iterate 12 tok_auth tok_answer (tok_shared None, new_breq (tok_request ''Bearer t''))))"
proof -
  obtain pr where v: "Verify tok_env tok_jose tok_policy (\<lambda>k. LookupKey ()) ''t'' (tok_time 120) = Inr pr" "pr_client pr = ''app''"
    "''directory.users.read'' \<in> set (pr_scopes pr)" using tok_verified by blast
  have b: "fst (cb_acquire (newClientBudget 0 0 1 [''app'']) now ''app'') = put_state (newClientBudget 0 0 1 [''app'']) ''app'' \<lparr> cs_tokens = 0, cs_last = now, cs_inflight = 1 \<rparr>"
    "snd (cb_acquire (newClientBudget 0 0 1 [''app'']) now ''app'') = None" for now
    by (simp_all add: cb_acquire_def newClientBudget_def cb_off_def client_state_of_def Let_def)
  show ?thesis
    using v by (simp add: numeral_eq_Suc b_next_def new_breq_def admitIP_def acquireAuthSlot_def b_verify_def b_free_auth_def b_judge_def b_revoked_def
      b_route_def b_budget_step_def b_guards_def b_exec_slot_def b_bind_def b_handler_def tok_shared_def b_who_def tok_op scopeAllows_def MOp_def
      outside_base_def b_executed_def b_answered_def Let_def case_prod_beta b)
qed

theorem bearer_authorized_witness:
  "\<exists>p now look. br_token (tok_request ''Bearer t'') = Some ''t'' \<and> Verify tok_env tok_jose tok_policy look ''t'' now = Inr p"
proof -
  let ?x = "(tok_shared None, new_breq (tok_request ''Bearer t'') :: unit breq)"
  let ?w = "\<lparr> bw_shared = fst (b_iterate 12 tok_auth tok_answer ?x), bw_reqs = [snd (b_iterate 12 tok_auth tok_answer ?x)] \<rparr>"
  have w: "b_reachable tok_auth False False ?w" by (rule iterate_reachable) (simp add: tok_start)
  have q: "b_req (snd (b_iterate n tok_auth tok_answer x)) = b_req (snd x)" for n x
    by (induction n arbitrary: x) (simp_all add: next_req [OF prod.collapse [symmetric]])
  have "b_req (snd (b_iterate 12 tok_auth tok_answer ?x)) = tok_request ''Bearer t''" by (simp only: q) (simp add: new_breq_def)
  moreover have "\<exists>p token now look. br_token (b_req (snd (b_iterate 12 tok_auth tok_answer ?x))) = Some token \<and>
      Verify (bc_env tok_auth) (bc_jose tok_auth) (bc_policy tok_auth) look token now = Inr p"
    using bearer_authorized [OF w _ tok_run] by fastforce
  ultimately show ?thesis by simp
qed

lemma tok_admitted:
  "\<exists>t k. ip_admit (bc_key_of tok_auth) (bc_order tok_auth) (bc_res_order tok_auth)
     (the (newMachineIPThrottle 2 (60 * second_ns) 10 (30 * second_ns))) now ip = (t, Admitted k)"
proof -
  have t: "the (newMachineIPThrottle 2 (60 * second_ns) 10 (30 * second_ns)) =
      \<lparr> it_fails = newBoundedLoginLimiter 2 (60 * second_ns) 10, it_max = 10, it_ttl = 30 * second_ns, it_res = Map.empty, it_next_id = 0 \<rparr>"
    by (simp add: newMachineIPThrottle_def second_ns_def)
  let ?l = "ll_maybeSweep sorted_range (newBoundedLoginLimiter 2 (60 * second_ns) 10) now"
  have "sorted_range (Map.empty :: string \<rightharpoonup> limiter_entry) = []" by (simp add: sorted_range_def)
  then have l: "ll_failures ?l = Map.empty" "ll_limit ?l = 2" "ll_maxEntries ?l = 10"
    by (simp_all add: ll_maybeSweep_def newBoundedLoginLimiter_def ll_sweep_def)
  then have room: "ll_makeRoom sorted_range ?l now False = (?l, True)" by (simp add: ll_makeRoom_def has_slot_def mlen_def)
  have "ll_limit (newBoundedLoginLimiter 2 (60 * second_ns) 10) = 2" by (simp add: newBoundedLoginLimiter_def)
  with l room have a: "ll_admit key_of sorted_range (newBoundedLoginLimiter 2 (60 * second_ns) 10) now ip 0 = (?l, True, 0)" for key_of
    by (simp add: ll_admit_def fails_of_def Let_def)
  have k: "bc_order tok_auth = sorted_range" by (simp add: tok_auth_def)
  show ?thesis by (simp add: t k ip_admit_def ip_liveLocked_def reserved_at_def mlen_def Let_def a)
qed

theorem only_rejections_count_witness:
  "\<exists>r :: unit breq. b_failed r \<and> map_option by_status (b_reply r) = Some 401 \<and> (\<exists>f. released (b_trace r) = [f])"
proof -
  let ?t = "the (newMachineIPThrottle 2 (60 * second_ns) 10 (30 * second_ns))"
  let ?x = "(tok_shared (Some ?t), new_breq (tok_request ''Basic t'') :: unit breq)"
  let ?y = "b_iterate 3 tok_auth tok_answer ?x"
  have w: "b_reachable tok_auth True False \<lparr> bw_shared = fst ?y, bw_reqs = [snd ?y] \<rparr>"
    by (rule iterate_reachable) (simp add: tok_start)
  obtain t k where a: "ip_admit (bc_key_of tok_auth) (bc_order tok_auth) (bc_res_order tok_auth) ?t (tok_time 120) (br_ip (tok_request ''Basic t'')) = (t, Admitted k)"
    using tok_admitted by blast
  have y: "b_stage (snd ?y) = BDone" "b_trace (snd ?y) = [BvReleased True]" "map_option by_status (b_reply (snd ?y)) = Some 401"
    using a by (simp_all add: numeral_eq_Suc b_next_def new_breq_def admitIP_def rejectBadHeader_def releaseIP_def tok_shared_def b_simps Let_def)
  with only_rejections_count [OF w _ y(1)] show ?thesis by (intro exI [of _ "snd ?y"]) (auto simp: b_executed_def)
qed

text \<open>Two requests and one slot: while the first is at its token the second is turned away.\<close>

definition tok_first :: "bearer_shared \<times> unit breq" where
  "tok_first = b_iterate 2 tok_auth tok_answer (tok_shared None, new_breq (tok_request ''Bearer t''))"

definition tok_second :: "bearer_shared \<times> unit breq" where
  "tok_second = b_iterate 2 tok_auth tok_answer (fst tok_first, new_breq (tok_request ''Bearer t''))"

lemma tok_both: "b_stage (snd tok_first) = BVerify" "b_stage (snd tok_second) = BFreeIP"
  "b_reachable tok_auth False False \<lparr> bw_shared = fst tok_second, bw_reqs = [snd tok_first, snd tok_second] \<rparr>"
proof -
  show "b_stage (snd tok_first) = BVerify" "b_stage (snd tok_second) = BFreeIP"
    by (simp_all add: tok_second_def tok_first_def numeral_2_eq_2 b_next_def new_breq_def admitIP_def acquireAuthSlot_def tok_shared_def b_simps)
  let ?q = "new_breq (tok_request ''Bearer t'') :: unit breq"
  have "b_reachable tok_auth False False \<lparr> bw_shared = fst tok_first, bw_reqs = [snd tok_first] \<rparr>"
    unfolding tok_first_def by (rule iterate_reachable) (simp add: tok_start)
  from b_arrive [OF this, of "tok_request ''Bearer t''"]
  have w: "b_reachable tok_auth False False \<lparr> bw_shared = fst tok_first, bw_reqs = [snd tok_first, ?q] \<rparr>" by simp
  obtain sh1 r1 where n1: "b_next tok_auth tok_answer (fst tok_first) ?q = (sh1, r1)" by fastforce
  obtain sh2 r2 where n2: "b_next tok_auth tok_answer sh1 r1 = (sh2, r2)" by fastforce
  from b_step [OF w, of 1 tok_answer sh1 r1] n1
  have w1: "b_reachable tok_auth False False \<lparr> bw_shared = sh1, bw_reqs = [snd tok_first, r1] \<rparr>" by simp
  from b_step [OF w1, of 1 tok_answer sh2 r2] n2
  have "b_reachable tok_auth False False \<lparr> bw_shared = sh2, bw_reqs = [snd tok_first, r2] \<rparr>" by simp
  then show "b_reachable tok_auth False False \<lparr> bw_shared = fst tok_second, bw_reqs = [snd tok_first, snd tok_second] \<rparr>"
    by (simp add: tok_second_def numeral_2_eq_2 n1 n2)
qed

theorem bearer_bounded_witness:
  "length (filter (\<lambda>r. b_stage r \<in> {BVerify, BFreeAuth}) [snd tok_first, snd tok_second]) \<le> 1 \<and> b_stage (snd tok_first) = BVerify"
  using bearer_bounded [OF tok_both(3)] tok_both(1) by simp

end
