(* ===== verification/SecretStore.thy ===== *)
theory SecretStore
  imports ConfigTypes
begin

text \<open>
  \<open>loadOrGenerateSecret\<close> of \<open>config/secrets.go\<close>: a key made once, published by a hard link and never replaced, however many
  processes start at once.

  A process is a \<open>secret_proc\<close> at the call it is about to make; \<open>secret_next\<close> makes it on the files all processes share, so the
  calls of processes starting together interleave. A process that never moves again has crashed. The path is one file, the temporary
  files beside it are known by a number; \<open>sf_private\<close> says mode 0600 and the server's own user. The answers of the system
  (\<open>secret_answers\<close>): \<open>sa_abs\<close> and \<open>sa_dir\<close> judge the path and its directory, \<open>sa_random\<close> is \<open>rand.Read\<close>, \<open>sa_name\<close> the
  name \<open>os.CreateTemp\<close> tries next, \<open>sa_io\<close> whether a call succeeds, \<open>sa_written\<close> how much a failed write left.
\<close>

subsection \<open>Files and processes\<close>

record secret_file =
  sf_regular :: bool
  sf_private :: bool
  sf_bytes :: string

record secret_fs =
  fs_store :: "secret_file option"
  fs_temps :: "nat \<rightharpoonup> secret_file"

record secret_answers =
  sa_abs :: bool
  sa_dir :: bool
  sa_random :: "nat list option"
  sa_name :: nat
  sa_io :: bool
  sa_written :: nat

datatype secret_stage =
  SCheck
| SStat bool
| SRead bool
| SRandom
| SCreate
| SWrite
| SSync
| SClose
| SLink
| SRemove "config_error + string"
| SReturned "config_error + string"

record secret_proc =
  sp_stage :: secret_stage
  sp_key :: string
  sp_temp :: "nat option"

definition new_proc :: secret_proc where
  "new_proc = \<lparr> sp_stage = SCheck, sp_key = '''', sp_temp = None \<rparr>"

definition store_error :: "string \<Rightarrow> config_error + string" where
  "store_error why = Inl (Barred ''SESSION_SECRET_STORE'' why)"

text \<open>\<open>hex.EncodeToString\<close>.\<close>

definition hex_text :: "nat list \<Rightarrow> string" where
  "hex_text bs = concat (map (\<lambda>b. [hex_lower ! (b div 16 mod 16), hex_lower ! (b mod 16)]) bs)"

subsection \<open>One call\<close>

text \<open>A return; a process with a temporary file removes it first.\<close>

definition sp_return :: "config_error + string \<Rightarrow> secret_proc \<Rightarrow> secret_proc" where
  "sp_return r p = p\<lparr> sp_stage := (if sp_temp p = None then SReturned r else SRemove r) \<rparr>"

definition sp_at :: "secret_stage \<Rightarrow> secret_proc \<Rightarrow> secret_proc" where
  "sp_at st p = p\<lparr> sp_stage := st \<rparr>"

text \<open>The two halves of \<open>read\<close>: the check of the file, which only the first time may find none, and its contents.\<close>

definition secret_stat :: "secret_answers \<Rightarrow> secret_fs \<Rightarrow> bool \<Rightarrow> secret_proc \<Rightarrow> secret_proc" where
  "secret_stat a fs first p =
     (if \<not> sa_io a then sp_return (store_error ''stat'') p
      else case fs_store fs of
        None \<Rightarrow> if first then sp_at SRandom p else sp_return (store_error ''absent'') p
      | Some f \<Rightarrow>
          if \<not> sf_regular f \<or> \<not> sf_private f \<or> 4096 < length (sf_bytes f) then sp_return (store_error ''private file'') p
          else sp_at (SRead first) p)"

definition secret_read :: "secret_answers \<Rightarrow> secret_fs \<Rightarrow> secret_proc \<Rightarrow> secret_proc" where
  "secret_read a fs p =
     (case (if sa_io a then fs_store fs else None) of
        None \<Rightarrow> sp_return (store_error ''read'') p
      | Some f \<Rightarrow>
          if length (TrimSpace (sf_bytes f)) < 32 then sp_return (store_error ''short'') p
          else sp_return (Inr (TrimSpace (sf_bytes f))) p)"

definition temp_file :: "string \<Rightarrow> secret_file" where
  "temp_file bytes = \<lparr> sf_regular = True, sf_private = True, sf_bytes = bytes \<rparr>"

definition set_temp :: "nat option \<Rightarrow> secret_file option \<Rightarrow> secret_fs \<Rightarrow> secret_fs" where
  "set_temp n f fs = (case n of None \<Rightarrow> fs | Some k \<Rightarrow> fs\<lparr> fs_temps := (fs_temps fs)(k := f) \<rparr>)"

definition temp_of :: "secret_fs \<Rightarrow> secret_proc \<Rightarrow> secret_file option" where
  "temp_of fs p = (case sp_temp p of None \<Rightarrow> None | Some k \<Rightarrow> fs_temps fs k)"

definition secret_create :: "secret_answers \<Rightarrow> secret_fs \<Rightarrow> secret_proc \<Rightarrow> secret_fs \<times> secret_proc" where
  "secret_create a fs p =
     (if \<not> sa_io a then (fs, sp_return (store_error ''temporary'') p)
      else if fs_temps fs (sa_name a) \<noteq> None then (fs, p)
      else (set_temp (Some (sa_name a)) (Some (temp_file '''')) fs, p\<lparr> sp_stage := SWrite, sp_temp := Some (sa_name a) \<rparr>))"

definition secret_link :: "secret_answers \<Rightarrow> secret_fs \<Rightarrow> secret_proc \<Rightarrow> secret_fs \<times> secret_proc" where
  "secret_link a fs p =
     (if \<not> sa_io a then (fs, sp_return (store_error ''publish'') p)
      else if fs_store fs \<noteq> None then (fs, sp_at (SStat False) p)
      else if temp_of fs p = None then (fs, sp_return (store_error ''publish'') p)
      else (fs\<lparr> fs_store := temp_of fs p \<rparr>, sp_at (SStat False) p))"

definition secret_next :: "secret_answers \<Rightarrow> secret_fs \<Rightarrow> secret_proc \<Rightarrow> secret_fs \<times> secret_proc" where
  "secret_next a fs p =
     (case sp_stage p of
        SCheck \<Rightarrow>
          (fs, if \<not> sa_abs a then sp_return (store_error ''absolute'') p
               else if \<not> sa_dir a then sp_return (store_error ''private directory'') p
               else sp_at (SStat True) p)
      | SStat first \<Rightarrow> (fs, secret_stat a fs first p)
      | SRead first \<Rightarrow> (fs, secret_read a fs p)
      | SRandom \<Rightarrow>
          (fs, case sa_random a of
                 None \<Rightarrow> sp_return (store_error ''random'') p
               | Some bs \<Rightarrow> p\<lparr> sp_stage := SCreate, sp_key := hex_text bs \<rparr>)
      | SCreate \<Rightarrow> secret_create a fs p
      | SWrite \<Rightarrow>
          if sa_io a then (set_temp (sp_temp p) (Some (temp_file (sp_key p))) fs, sp_at SSync p)
          else (set_temp (sp_temp p) (Some (temp_file (take (sa_written a) (sp_key p)))) fs, sp_return (store_error ''persistence'') p)
      | SSync \<Rightarrow> (fs, if sa_io a then sp_at SClose p else sp_return (store_error ''sync'') p)
      | SClose \<Rightarrow> (fs, if sa_io a then sp_at SLink p else sp_return (store_error ''close'') p)
      | SLink \<Rightarrow> secret_link a fs p
      | SRemove r \<Rightarrow>
          (if sa_io a then set_temp (sp_temp p) None fs else fs, p\<lparr> sp_stage := SReturned r, sp_temp := None \<rparr>)
      | SReturned r \<Rightarrow> (fs, p))"

subsection \<open>Processes starting together\<close>

record secret_world =
  sw_fs :: secret_fs
  sw_procs :: "secret_proc list"

inductive sw_reachable :: "secret_file option \<Rightarrow> secret_world \<Rightarrow> bool" for f0 where
  sw_start: "sw_reachable f0 \<lparr> sw_fs = \<lparr> fs_store = f0, fs_temps = Map.empty \<rparr>, sw_procs = [] \<rparr>"
| sw_arrive: "sw_reachable f0 w \<Longrightarrow> sw_reachable f0 (w\<lparr> sw_procs := sw_procs w @ [new_proc] \<rparr>)"
| sw_step: "sw_reachable f0 w \<Longrightarrow> i < length (sw_procs w) \<Longrightarrow> (\<forall>bs. sa_random a = Some bs \<longrightarrow> length bs = 32) \<Longrightarrow>
    secret_next a (sw_fs w) (sw_procs w ! i) = (fs, p) \<Longrightarrow>
    sw_reachable f0 (w\<lparr> sw_fs := fs, sw_procs := (sw_procs w)[i := p] \<rparr>)"

subsection \<open>Keys\<close>

definition key_text :: "string \<Rightarrow> bool" where
  "key_text k \<longleftrightarrow> (\<exists>bs. length bs = 32 \<and> k = hex_text bs)"

definition whole_key :: "secret_file \<Rightarrow> bool" where
  "whole_key f \<longleftrightarrow> sf_regular f \<and> sf_private f \<and> key_text (sf_bytes f)"

lemma hex_text_digits: "set (hex_text bs) \<subseteq> set hex_lower"
proof -
  have "length hex_lower = 16" by (simp add: hex_lower_def)
  then have "hex_lower ! (n mod 16) \<in> set hex_lower" for n by simp
  then show ?thesis by (auto simp: hex_text_def)
qed

lemma key_text_trim: "key_text k \<Longrightarrow> TrimSpace k = k \<and> length k = 64"
proof -
  assume "key_text k"
  then obtain bs where k: "length bs = 32" "k = hex_text bs" by (auto simp: key_text_def)
  have n: "length (hex_text cs) = 2 * length cs" for cs by (induction cs) (simp_all add: hex_text_def)
  have "\<not> asciiSpace c" if "c \<in> set k" for c
    using that hex_text_digits [of bs] by (auto simp: k(2) hex_lower_def asciiSpace_def)
  then show ?thesis using n [of bs] k by (auto simp: TrimSpace_ends)
qed

subsection \<open>What every interleaving keeps\<close>

definition safe_file :: "secret_file \<Rightarrow> bool" where
  "safe_file f \<longleftrightarrow> 32 \<le> length (TrimSpace (sf_bytes f))"

text \<open>The file is the one found at the start, or a whole key published since.\<close>

definition store_ok :: "secret_file option \<Rightarrow> secret_fs \<Rightarrow> bool" where
  "store_ok f0 fs \<longleftrightarrow> (case f0 of Some f \<Rightarrow> fs_store fs = Some f | None \<Rightarrow> (\<forall>f. fs_store fs = Some f \<longrightarrow> whole_key f))"

text \<open>A value is what the file holds.\<close>

definition held :: "secret_fs \<Rightarrow> string \<Rightarrow> bool" where
  "held fs v \<longleftrightarrow> (\<exists>f. fs_store fs = Some f \<and> safe_file f \<and> v = TrimSpace (sf_bytes f))"

fun stage_ok :: "secret_fs \<Rightarrow> secret_proc \<Rightarrow> secret_stage \<Rightarrow> bool" where
  "stage_ok fs p (SReturned (Inr v)) \<longleftrightarrow> held fs v"
| "stage_ok fs p (SRemove (Inr v)) \<longleftrightarrow> held fs v"
| "stage_ok fs p SCreate \<longleftrightarrow> key_text (sp_key p) \<and> sp_temp p = None"
| "stage_ok fs p SWrite \<longleftrightarrow> key_text (sp_key p) \<and> sp_temp p \<noteq> None"
| "stage_ok fs p SSync \<longleftrightarrow> (\<exists>f. temp_of fs p = Some f \<and> whole_key f)"
| "stage_ok fs p SClose \<longleftrightarrow> (\<exists>f. temp_of fs p = Some f \<and> whole_key f)"
| "stage_ok fs p SLink \<longleftrightarrow> (\<exists>f. temp_of fs p = Some f \<and> whole_key f)"
| "stage_ok fs p SRandom \<longleftrightarrow> sp_temp p = None"
| "stage_ok fs p SCheck \<longleftrightarrow> sp_temp p = None"
| "stage_ok fs p (SStat first) \<longleftrightarrow> (first \<longrightarrow> sp_temp p = None)"
| "stage_ok fs p st \<longleftrightarrow> True"

definition proc_ok :: "secret_fs \<Rightarrow> secret_proc \<Rightarrow> bool" where
  "proc_ok fs p \<longleftrightarrow> stage_ok fs p (sp_stage p) \<and> (sp_temp p \<noteq> None \<longrightarrow> temp_of fs p \<noteq> None)"

text \<open>No two processes have one temporary file.\<close>

definition temps_apart :: "secret_proc list \<Rightarrow> bool" where
  "temps_apart ps \<longleftrightarrow>
     (\<forall>i < length ps. \<forall>j < length ps. i \<noteq> j \<longrightarrow> sp_temp (ps ! i) \<noteq> None \<longrightarrow> sp_temp (ps ! i) \<noteq> sp_temp (ps ! j))"

definition sw_inv :: "secret_file option \<Rightarrow> secret_world \<Rightarrow> bool" where
  "sw_inv f0 w \<longleftrightarrow> store_ok f0 (sw_fs w) \<and> list_all (proc_ok (sw_fs w)) (sw_procs w) \<and> temps_apart (sw_procs w)"

text \<open>What one step of a process may do to the files: publish its key where there was none, write, remove or create its own
  temporary file.\<close>

definition fs_step :: "secret_fs \<Rightarrow> secret_proc \<Rightarrow> secret_fs \<Rightarrow> secret_proc \<Rightarrow> bool" where
  "fs_step fs p fs' p' \<longleftrightarrow>
     (fs_store fs' = fs_store fs \<or> fs_store fs = None \<and> (\<exists>f. fs_store fs' = Some f \<and> whole_key f)) \<and>
     (\<forall>n. Some n \<noteq> sp_temp p \<longrightarrow> fs_temps fs n \<noteq> None \<longrightarrow> fs_temps fs' n = fs_temps fs n) \<and>
     (sp_temp p' = sp_temp p \<or> sp_temp p' = None \<or> (\<exists>n. sp_temp p' = Some n \<and> fs_temps fs n = None))"

lemma store_ok_step: "fs_step fs p fs' p' \<Longrightarrow> store_ok f0 fs \<Longrightarrow> store_ok f0 fs'"
  by (auto simp: fs_step_def store_ok_def split: option.splits)

lemma held_step: "fs_step fs p fs' p' \<Longrightarrow> held fs v \<Longrightarrow> held fs' v"
  by (auto simp: fs_step_def held_def)

lemma stage_ok_stage [simp]: "stage_ok fs (p\<lparr> sp_stage := st \<rparr>) st' = stage_ok fs p st'"
  by (cases "(fs, p, st')" rule: stage_ok.cases) (simp_all add: temp_of_def)

lemma temp_of_stage [simp]: "temp_of fs (p\<lparr> sp_stage := st \<rparr>) = temp_of fs p"
  by (simp add: temp_of_def)

lemma temp_of_store [simp]: "temp_of (fs\<lparr> fs_store := x \<rparr>) p = temp_of fs p"
  by (simp add: temp_of_def split: option.split)

lemma at_ok: "proc_ok fs p \<Longrightarrow> stage_ok fs p st \<Longrightarrow> proc_ok fs (sp_at st p)"
  by (simp add: proc_ok_def sp_at_def)

lemma return_ok: "proc_ok fs p \<Longrightarrow> held fs v \<Longrightarrow> proc_ok fs (sp_return (Inr v) p)"
  by (simp add: proc_ok_def sp_return_def)

lemma error_ok: "proc_ok fs p \<Longrightarrow> proc_ok fs (sp_return (store_error why) p)"
  by (simp add: proc_ok_def sp_return_def store_error_def)

lemma step_same: "fs_step fs p fs (sp_at st p)" "fs_step fs p fs (sp_return r p)" "fs_step fs p fs p"
  by (auto simp: fs_step_def sp_at_def sp_return_def)

lemma stat_ok: "proc_ok fs p \<Longrightarrow> sp_stage p = SStat first \<Longrightarrow> proc_ok fs (secret_stat a fs first p)"
  by (auto simp: secret_stat_def proc_ok_def [of fs p] intro!: error_ok at_ok split: option.splits)

lemma stat_step: "fs_step fs p fs (secret_stat a fs first p)"
  by (simp add: secret_stat_def step_same split: option.split)

lemma read_ok: "proc_ok fs p \<Longrightarrow> proc_ok fs (secret_read a fs p)"
  by (auto simp: secret_read_def held_def safe_file_def intro!: error_ok return_ok split: option.splits)

lemma read_step: "fs_step fs p fs (secret_read a fs p)"
  by (simp add: secret_read_def step_same split: option.split)

text \<open>One step: the files move as a step may move them, and the process keeps its invariant.\<close>

definition good_step :: "secret_fs \<Rightarrow> secret_proc \<Rightarrow> secret_fs \<times> secret_proc \<Rightarrow> bool" where
  "good_step fs p r \<longleftrightarrow> fs_step fs p (fst r) (snd r) \<and> proc_ok (fst r) (snd r)"

lemma good_same: "proc_ok fs q \<Longrightarrow> fs_step fs p fs q \<Longrightarrow> good_step fs p (fs, q)"
  by (simp add: good_step_def)

lemma create_good: "proc_ok fs p \<Longrightarrow> sp_stage p = SCreate \<Longrightarrow> good_step fs p (secret_create a fs p)"
  by (auto simp: secret_create_def proc_ok_def good_step_def fs_step_def set_temp_def temp_of_def sp_return_def store_error_def)

lemma link_good:
  assumes "proc_ok fs p" "sp_stage p = SLink"
  shows "good_step fs p (secret_link a fs p)"
proof -
  obtain f where f: "temp_of fs p = Some f" "whole_key f" using assms by (auto simp: proc_ok_def)
  show ?thesis
    using assms f by (auto simp: secret_link_def good_step_def step_same intro!: error_ok at_ok)
      (auto simp: fs_step_def sp_at_def proc_ok_def)
qed

lemma write_good:
  assumes "proc_ok fs p" "sp_stage p = SWrite"
  shows "good_step fs p (secret_next a fs p)"
proof -
  obtain n where n: "sp_temp p = Some n" "key_text (sp_key p)" using assms by (auto simp: proc_ok_def)
  then show ?thesis
    using assms by (auto simp: secret_next_def good_step_def fs_step_def set_temp_def sp_at_def sp_return_def proc_ok_def temp_of_def
        whole_key_def temp_file_def store_error_def)
qed

lemma remove_good: "proc_ok fs p \<Longrightarrow> sp_stage p = SRemove r \<Longrightarrow> good_step fs p (secret_next a fs p)"
  by (cases r) (auto simp: secret_next_def good_step_def fs_step_def set_temp_def proc_ok_def held_def split: option.splits)

lemma next_good:
  assumes "proc_ok fs p" "\<forall>bs. sa_random a = Some bs \<longrightarrow> length bs = 32"
  shows "good_step fs p (secret_next a fs p)"
proof (cases "sp_stage p")
  case SRandom
  have "sp_temp p = None" using assms(1) SRandom by (simp add: proc_ok_def)
  then have "good_step fs p (fs, p\<lparr> sp_stage := SCreate, sp_key := hex_text bs \<rparr>)" if "length bs = 32" for bs
    using that by (auto simp: good_step_def fs_step_def proc_ok_def key_text_def)
  then show ?thesis
    using assms SRandom by (auto simp: secret_next_def intro!: good_same error_ok step_same split: option.splits)
next
  case SCheck
  have "sp_temp p = None" using assms(1) SCheck by (simp add: proc_ok_def)
  then show ?thesis
    using SCheck by (auto simp: secret_next_def intro!: good_same step_same error_ok at_ok assms(1))
next
  case (SStat first)
  then show ?thesis using stat_ok [OF assms(1) SStat] by (simp add: secret_next_def good_same stat_step)
next
  case SSync
  have "stage_ok fs p SClose" using assms(1) SSync by (simp add: proc_ok_def)
  then show ?thesis using SSync by (auto simp: secret_next_def intro!: good_same step_same error_ok at_ok assms(1))
next
  case SClose
  have "stage_ok fs p SLink" using assms(1) SClose by (simp add: proc_ok_def)
  then show ?thesis using SClose by (auto simp: secret_next_def intro!: good_same step_same error_ok at_ok assms(1))
qed (use assms(1) create_good link_good write_good remove_good in
      \<open>simp_all add: secret_next_def good_same step_same read_step read_ok\<close>)

text \<open>The others are untouched.\<close>

lemma other_ok:
  assumes "fs_step fs p fs' p'" "proc_ok fs q" "sp_temp q = None \<or> sp_temp q \<noteq> sp_temp p"
  shows "proc_ok fs' q"
proof -
  have t: "temp_of fs' q = temp_of fs q"
  proof (cases "sp_temp q")
    case (Some n)
    with assms(2) have "fs_temps fs n \<noteq> None" by (simp add: proc_ok_def temp_of_def)
    with assms(1,3) Some show ?thesis by (simp add: fs_step_def temp_of_def)
  qed (simp add: temp_of_def)
  have "stage_ok fs' q st" if "stage_ok fs q st" for st
    using that t held_step [OF assms(1)] by (cases "(fs, q, st)" rule: stage_ok.cases) simp_all
  with assms(2) t show ?thesis by (simp add: proc_ok_def)
qed

lemma apart_step:
  assumes "temps_apart ps" "i < length ps" "fs_step fs (ps ! i) fs' p'" "list_all (proc_ok fs) ps"
  shows "temps_apart (ps[i := p'])"
proof -
  have "sp_temp p' \<noteq> None \<Longrightarrow> j < length ps \<Longrightarrow> j \<noteq> i \<Longrightarrow> sp_temp (ps ! j) \<noteq> sp_temp p'" for j
  proof (cases "sp_temp p' = sp_temp (ps ! i)")
    case True
    then show "sp_temp p' \<noteq> None \<Longrightarrow> j < length ps \<Longrightarrow> j \<noteq> i \<Longrightarrow> sp_temp (ps ! j) \<noteq> sp_temp p'"
      using assms(1,2) by (metis temps_apart_def)
  next
    case False
    assume j: "sp_temp p' \<noteq> None" "j < length ps" "j \<noteq> i"
    then obtain n where n: "sp_temp p' = Some n" "fs_temps fs n = None" using False assms(3) by (auto simp: fs_step_def)
    have "proc_ok fs (ps ! j)" using assms(4) j(2) by (simp add: list_all_length)
    then show "sp_temp (ps ! j) \<noteq> sp_temp p'" using n by (auto simp: proc_ok_def temp_of_def)
  qed
  then show ?thesis using assms(1,2) by (fastforce simp: temps_apart_def nth_list_update)
qed

lemma sw_reachable_inv: "sw_reachable f0 w \<Longrightarrow> sw_inv f0 w"
proof (induction rule: sw_reachable.induct)
  case sw_start
  show ?case by (simp add: sw_inv_def store_ok_def temps_apart_def split: option.split)
next
  case (sw_arrive w)
  have "temps_apart (sw_procs w @ [new_proc])"
    using sw_arrive.IH by (auto simp: sw_inv_def temps_apart_def nth_append new_proc_def)
  then show ?case using sw_arrive.IH by (simp add: sw_inv_def proc_ok_def new_proc_def)
next
  case (sw_step w i a fs p)
  then have inv: "store_ok f0 (sw_fs w)" "list_all (proc_ok (sw_fs w)) (sw_procs w)" "temps_apart (sw_procs w)"
    by (simp_all add: sw_inv_def)
  have "proc_ok (sw_fs w) (sw_procs w ! i)" using inv(2) sw_step.hyps(2) by (simp add: list_all_length)
  then have g: "fs_step (sw_fs w) (sw_procs w ! i) fs p" "proc_ok fs p"
    using next_good [OF _ sw_step.hyps(3), of "sw_fs w" "sw_procs w ! i"] sw_step.hyps(4) by (simp_all add: good_step_def)
  have "proc_ok fs ((sw_procs w)[i := p] ! j)" if "j < length (sw_procs w)" for j
  proof (cases "j = i")
    case False
    then have "sp_temp (sw_procs w ! j) = None \<or> sp_temp (sw_procs w ! j) \<noteq> sp_temp (sw_procs w ! i)"
      using inv(3) that sw_step.hyps(2) by (auto simp: temps_apart_def)
    then show ?thesis using other_ok [OF g(1)] inv(2) that False by (simp add: list_all_length)
  qed (use g that in simp)
  then show ?case
    using store_ok_step [OF g(1) inv(1)] apart_step [OF inv(3) sw_step.hyps(2) g(1) inv(2)] by (simp add: sw_inv_def list_all_length)
qed

subsection \<open>One key\<close>

text \<open>C16: However many processes start at once, crash or fail at any call, every process that returns a key returns the same one. It has
  at least 32 bytes; a key file found at the start is never replaced, and a key made here is all 64 hexadecimal digits of one
  process's key, never part of one.
\<close>

theorem one_secret:
  assumes "sw_reachable f0 w" "p \<in> set (sw_procs w)" "q \<in> set (sw_procs w)"
    "sp_stage p = SReturned (Inr v)" "sp_stage q = SReturned (Inr v')"
  shows "v' = v \<and> 32 \<le> length v \<and>
    (\<exists>f. fs_store (sw_fs w) = Some f \<and> v = TrimSpace (sf_bytes f) \<and>
         (case f0 of Some f1 \<Rightarrow> f = f1 | None \<Rightarrow> v = sf_bytes f \<and> key_text v \<and> length v = 64))"
proof -
  note I = sw_reachable_inv [OF assms(1)]
  have held: "held (sw_fs w) u" if "r \<in> set (sw_procs w)" "sp_stage r = SReturned (Inr u)" for r u
    using I that by (auto simp: sw_inv_def list_all_iff proc_ok_def)
  obtain f where f: "fs_store (sw_fs w) = Some f" "safe_file f" "v = TrimSpace (sf_bytes f)"
    using held [OF assms(2,4)] by (auto simp: held_def)
  have "v' = v" using held [OF assms(3,5)] f by (simp add: held_def)
  moreover have "case f0 of Some f1 \<Rightarrow> f = f1 | None \<Rightarrow> whole_key f"
    using I f(1) by (simp add: sw_inv_def store_ok_def split: option.splits)
  ultimately show ?thesis
    using f key_text_trim [of "sf_bytes f"] by (auto simp: safe_file_def whole_key_def split: option.splits)
qed

text \<open>Two processes race: both find no file, both write a key, the second publishes first.\<close>

definition race_answer :: "nat \<Rightarrow> secret_answers" where
  "race_answer n = \<lparr> sa_abs = True, sa_dir = True, sa_random = Some (replicate 32 n), sa_name = n, sa_io = True, sa_written = 0 \<rparr>"

definition race_move :: "nat \<Rightarrow> secret_world \<Rightarrow> secret_world" where
  "race_move i w = (case secret_next (race_answer i) (sw_fs w) (sw_procs w ! i) of
     (fs, p) \<Rightarrow> w\<lparr> sw_fs := fs, sw_procs := (sw_procs w)[i := p] \<rparr>)"

definition race_start :: secret_world where
  "race_start = \<lparr> sw_fs = \<lparr> fs_store = None, fs_temps = Map.empty \<rparr>, sw_procs = [new_proc, new_proc] \<rparr>"

definition race_end :: secret_world where
  "race_end = fold race_move [0, 1, 0, 1, 0, 1, 0, 1, 0, 1, 0, 1, 0, 1, 1, 0, 0, 0, 0, 1, 1, 1] race_start"

lemma race_moves: "sw_reachable f0 w \<Longrightarrow> \<forall>i \<in> set is. i < length (sw_procs w) \<Longrightarrow> sw_reachable f0 (fold race_move is w)"
proof (induction "is" arbitrary: w)
  case (Cons i js)
  obtain fs p where n: "secret_next (race_answer i) (sw_fs w) (sw_procs w ! i) = (fs, p)" by fastforce
  have "sw_reachable f0 (w\<lparr> sw_fs := fs, sw_procs := (sw_procs w)[i := p] \<rparr>)"
    by (rule sw_step [OF Cons.prems(1) _ _ n]) (use Cons.prems(2) in \<open>auto simp: race_answer_def\<close>)
  then show ?case using Cons.IH [of "race_move i w"] Cons.prems(2) by (simp add: race_move_def n)
qed simp

lemma race_reachable: "sw_reachable None race_end"
proof -
  have "sw_reachable None race_start"
    using sw_arrive [OF sw_arrive [OF sw_start]] by (simp add: race_start_def)
  then show ?thesis unfolding race_end_def by (rule race_moves) (simp add: race_start_def)
qed

lemma race_result:
  "map sp_stage (sw_procs race_end) = [SReturned (Inr (hex_text (replicate 32 1))), SReturned (Inr (hex_text (replicate 32 1)))]"
  by code_simp

lemma one_secret_witness:
  "\<exists>p q v. p = sw_procs race_end ! 0 \<and> q = sw_procs race_end ! 1 \<and> sp_stage p = SReturned (Inr v) \<and> sp_stage q = SReturned (Inr v) \<and>
     32 \<le> length v \<and> fs_store (sw_fs race_end) \<noteq> None"
proof -
  let ?v = "hex_text (replicate 32 1)"
  have n: "length (sw_procs race_end) = 2" using arg_cong [OF race_result, of length] by simp
  then have s: "sp_stage (sw_procs race_end ! 0) = SReturned (Inr ?v)" "sp_stage (sw_procs race_end ! 1) = SReturned (Inr ?v)"
    using arg_cong [OF race_result, of "\<lambda>xs. xs ! 0"] arg_cong [OF race_result, of "\<lambda>xs. xs ! 1"] by (simp_all add: numeral_2_eq_2)
  show ?thesis
    using one_secret [OF race_reachable _ _ s(1) s(2)] s n by auto
qed

end
