(* ===== verification/ConfigEnv.thy ===== *)
theory ConfigEnv
  imports ConfigTypes
begin

text \<open>
  Reading one setting: the helpers of \<open>config/config.go\<close> and \<open>config/machine.go\<close> (\<open>boolEnv\<close>, \<open>orDefault\<close>, \<open>missingEnv\<close>,
  \<open>machineDurations\<close>, \<open>machineInts\<close>), the entry lists of \<open>config/keycloak.go\<close>, and the parsers of
  Go's \<open>strconv\<close> and \<open>time\<close> packages they use.
\<close>

subsection \<open>Booleans and durations\<close>

definition ParseBool :: "string \<Rightarrow> bool option" where
  "ParseBool s =
     (if s \<in> set [''1'', ''t'', ''T'', ''TRUE'', ''true'', ''True''] then Some True
      else if s \<in> set [''0'', ''f'', ''F'', ''FALSE'', ''false'', ''False''] then Some False else None)"

text \<open>\<open>leadingInt\<close> and \<open>leadingFraction\<close> of \<open>time.ParseDuration\<close>: a \<open>uint64\<close> up to \<open>2^63\<close>, and digits past its capacity dropped.\<close>

fun leadingInt :: "nat \<Rightarrow> string \<Rightarrow> (nat \<times> string) option" where
  "leadingInt x [] = Some (x, [])"
| "leadingInt x (c # cs) =
     (if c \<notin> set digits then Some (x, c # cs)
      else if 2 ^ 63 div 10 < x then None
      else if 2 ^ 63 < 10 * x + digit_value c then None
      else leadingInt (10 * x + digit_value c) cs)"

fun leadingFraction :: "nat \<Rightarrow> nat \<Rightarrow> bool \<Rightarrow> string \<Rightarrow> nat \<times> nat \<times> string" where
  "leadingFraction x scale over [] = (x, scale, [])"
| "leadingFraction x scale over (c # cs) =
     (if c \<notin> set digits then (x, scale, c # cs)
      else if over \<or> (2 ^ 63 - 1) div 10 < x \<or> 2 ^ 63 < 10 * x + digit_value c then leadingFraction x scale True cs
      else leadingFraction (10 * x + digit_value c) (10 * scale) False cs)"

definition unitMap :: "(string \<times> nat) list" where
  "unitMap = [(''ns'', 1), (''us'', 1000), ([CHR 0xC2, CHR 0xB5, CHR ''s''], 1000), ([CHR 0xCE, CHR 0xBC, CHR ''s''], 1000),
     (''ms'', 1000000), (''s'', 1000000000), (''m'', 60000000000), (''h'', 3600000000000)]"

text \<open>One number with its unit: the nanoseconds it adds and the text after it.\<close>

definition unit_end :: "char \<Rightarrow> bool" where
  "unit_end c \<longleftrightarrow> c = CHR ''.'' \<or> c \<in> set digits"

definition fraction_part :: "string \<Rightarrow> nat \<times> nat \<times> bool \<times> string" where
  "fraction_part s =
     (if take 1 s = ''.''
      then (case leadingFraction 0 1 False (drop 1 s) of (f, scale, r) \<Rightarrow> (f, scale, length r \<noteq> length (drop 1 s), r))
      else (0, 1, False, s))"

definition dur_item :: "(nat \<Rightarrow> nat \<Rightarrow> nat \<Rightarrow> nat) \<Rightarrow> string \<Rightarrow> (nat \<times> string) option" where
  "dur_item frac s =
     (if \<not> unit_end (hd s) then None
      else case leadingInt 0 s of
        None \<Rightarrow> None
      | Some (v, s1) \<Rightarrow>
          (case fraction_part s1 of
             (f, scale, post, s2) \<Rightarrow>
               (let u = takeWhile (\<lambda>c. \<not> unit_end c) s2
                in if length s1 = length s \<and> \<not> post then None
                   else case map_of unitMap u of
                     None \<Rightarrow> None
                   | Some n \<Rightarrow>
                       if 2 ^ 63 div n < v then None
                       else let w = v * n + (if 0 < f then frac f n scale else 0)
                            in if 2 ^ 63 < w then None else Some (w, drop (length u) s2))))"

lemma leadingInt_shorter: "leadingInt x s = Some (v, r) \<Longrightarrow> length r \<le> length s"
  by (induction x s rule: leadingInt.induct) (auto split: if_splits)

lemma leadingFraction_shorter: "leadingFraction x sc b s = (f, sc', r) \<Longrightarrow> length r \<le> length s"
  by (induction x sc b s rule: leadingFraction.induct) (auto split: if_splits)

lemma fraction_part_shorter: "fraction_part s = (f, sc, post, r) \<Longrightarrow> length r \<le> length s"
  using leadingFraction_shorter [of 0 1 False "drop 1 s" f sc r] by (auto simp: fraction_part_def split: if_splits prod.splits)

lemma unit_not_empty: "map_of unitMap [] = None"
  by (simp add: unitMap_def)

lemma dur_item_shorter:
  assumes "dur_item frac s = Some (v, r)"
  shows "length r < length s"
proof -
  obtain w s1 where i: "leadingInt 0 s = Some (w, s1)"
    using assms by (auto simp: dur_item_def split: if_splits option.splits)
  obtain f sc post s2 where t: "fraction_part s1 = (f, sc, post, s2)" by (metis surj_pair)
  let ?u = "takeWhile (\<lambda>c. \<not> unit_end c) s2"
  have "length s2 \<le> length s1" using fraction_part_shorter [OF t] .
  moreover have "length s1 \<le> length s" using leadingInt_shorter [OF i] .
  moreover have "map_of unitMap ?u \<noteq> None" "r = drop (length ?u) s2"
    using assms i t by (auto simp: dur_item_def Let_def split: if_splits option.splits)
  moreover from this(1) have "?u \<noteq> []" using unit_not_empty by auto
  then have "0 < length ?u" by simp
  moreover have "length ?u \<le> length s2" by (rule length_takeWhile_le)
  ultimately show ?thesis by (simp del: length_greater_0_conv)
qed

function dur_loop :: "(nat \<Rightarrow> nat \<Rightarrow> nat \<Rightarrow> nat) \<Rightarrow> string \<Rightarrow> nat \<Rightarrow> nat option" where
  "dur_loop frac s d =
     (if s = [] then Some d
      else case dur_item frac s of
        None \<Rightarrow> None
      | Some (v, r) \<Rightarrow> let e = (d + v) mod 2 ^ 64 in if 2 ^ 63 < e then None else dur_loop frac r e)"
  by pat_completeness auto

termination
  by (relation "measure (\<lambda>(frac, s, d). length s)") (auto dest: dur_item_shorter)

declare dur_loop.simps [simp del]

definition ParseDuration :: "cfg_lib \<Rightarrow> string \<Rightarrow> duration option" where
  "ParseDuration L s =
     (let neg = (take 1 s = ''-'');
          t = (if take 1 s = ''-'' \<or> take 1 s = ''+'' then drop 1 s else s)
      in if t = ''0'' then Some 0
         else if t = '''' then None
         else case dur_loop (cl_frac L) t 0 of
           None \<Rightarrow> None
         | Some d \<Rightarrow> if neg then Some (- int d) else if 2 ^ 63 - 1 < d then None else Some (int d))"

text \<open>A parsed duration is an \<open>int64\<close>.\<close>

lemma dur_loop_bound: "dur_loop frac s d = Some n \<Longrightarrow> d \<le> 2 ^ 63 \<Longrightarrow> n \<le> 2 ^ 63"
proof (induction frac s d rule: dur_loop.induct)
  case (1 frac s d)
  show ?case
  proof (cases "s = []")
    case True
    with 1 show ?thesis by (simp add: dur_loop.simps)
  next
    case False
    with "1.prems"(1) obtain v r where i: "dur_item frac s = Some (v, r)" "(d + v) mod 2 ^ 64 \<le> (2::nat) ^ 63"
      "dur_loop frac r ((d + v) mod 2 ^ 64) = Some n"
      by (subst (asm) dur_loop.simps) (auto simp: Let_def not_less split: option.splits if_splits)
    then show ?thesis using "1.IH" [OF False i(1) refl refl] by (simp add: not_less)
  qed
qed

lemma ParseDuration_int64: "ParseDuration L s = Some d \<Longrightarrow> min_duration \<le> d \<and> d \<le> max_duration"
  using dur_loop_bound [of "cl_frac L" _ 0]
  by (fastforce simp: ParseDuration_def Let_def min_duration_def max_duration_def split: option.splits if_splits)

subsection \<open>Settings\<close>

definition boolEnv :: "getenv \<Rightarrow> string \<Rightarrow> bool \<Rightarrow> config_error + bool" where
  "boolEnv E key def =
     (let raw = TrimSpace (E key)
      in if raw = '''' then Inr def else case ParseBool raw of None \<Rightarrow> Inl (Invalid key) | Some v \<Rightarrow> Inr v)"

definition orDefault :: "string \<Rightarrow> string \<Rightarrow> string" where
  "orDefault v def = (if TrimSpace v = '''' then def else v)"

fun missingEnv :: "(string \<times> string) list \<Rightarrow> string list" where
  "missingEnv [] = []"
| "missingEnv ((v, name) # vs) = (if v = '''' then name # missingEnv vs else missingEnv vs)"

definition containsEntry :: "string list \<Rightarrow> string \<Rightarrow> bool" where
  "containsEntry values v \<longleftrightarrow> list_ex (\<lambda>e. e = v) values"

definition split_step :: "string list \<Rightarrow> string \<Rightarrow> string list" where
  "split_step out v = (let t = TrimSpace v in if t \<noteq> [] \<and> \<not> containsEntry out t then out @ [t] else out)"

definition splitEntries :: "string \<Rightarrow> string list" where
  "splitEntries raw = foldl split_step [] (split_on (CHR '';'') raw)"

text \<open>\<open>machineDurations.get\<close> and \<open>machineInts.get\<close>: the value, and the error the collector keeps if it has none yet.\<close>

definition durations_get ::
  "cfg_lib \<Rightarrow> getenv \<Rightarrow> string \<Rightarrow> duration \<Rightarrow> duration \<Rightarrow> duration \<Rightarrow> config_error option \<Rightarrow> duration \<times> config_error option" where
  "durations_get L E name def lo hi err =
     (let raw = TrimSpace (E name)
      in if raw = '''' then (def, err)
         else case ParseDuration L raw of
           None \<Rightarrow> (def, if err = None then Some (Invalid name) else err)
         | Some d \<Rightarrow> if d < lo \<or> hi < d then (def, if err = None then Some (Invalid name) else err) else (d, err))"

definition ints_get ::
  "getenv \<Rightarrow> string \<Rightarrow> int \<Rightarrow> int \<Rightarrow> int \<Rightarrow> config_error option \<Rightarrow> int \<times> config_error option" where
  "ints_get E name def lo hi err =
     (let raw = TrimSpace (E name)
      in if raw = '''' then (def, err)
         else case ParseInt raw 64 of
           None \<Rightarrow> (def, if err = None then Some (Invalid name) else err)
         | Some n \<Rightarrow> if n < lo \<or> hi < n then (def, if err = None then Some (Invalid name) else err) else (n, err))"

definition no_error :: "config_error option \<Rightarrow> config_error + unit" where
  "no_error err = (case err of None \<Rightarrow> Inr () | Some e \<Rightarrow> Inl e)"

lemma no_error_Inr [simp]: "no_error err = Inr u \<longleftrightarrow> err = None"
  by (cases err) (simp_all add: no_error_def)

lemma durations_get_range:
  "durations_get L E name def lo hi err = (d, None) \<Longrightarrow> lo \<le> def \<Longrightarrow> def \<le> hi \<Longrightarrow> err = None \<and> lo \<le> d \<and> d \<le> hi"
  by (auto simp: durations_get_def Let_def split: if_splits option.splits)

lemma ints_get_range:
  "ints_get E name def lo hi err = (n, None) \<Longrightarrow> lo \<le> def \<Longrightarrow> def \<le> hi \<Longrightarrow> err = None \<and> lo \<le> n \<and> n \<le> hi"
  by (auto simp: ints_get_def Let_def split: if_splits option.splits)

lemma TrimSpace_idem [simp]: "TrimSpace (TrimSpace v) = TrimSpace v"
proof (cases "TrimSpace v = []")
  case False
  define w where "w = dropWhile asciiSpace v"
  have t: "TrimSpace v = rev (dropWhile asciiSpace (rev w))" by (simp add: TrimSpace_def w_def)
  have ne: "dropWhile asciiSpace (rev w) \<noteq> []" using False t by simp
  then have w: "w \<noteq> []" by auto
  have "\<not> asciiSpace (last (TrimSpace v))" using hd_dropWhile [OF ne] by (simp add: t last_rev)
  moreover have "hd (TrimSpace v) = hd w"
    using last_dropWhile [OF ne] w ne by (simp add: t hd_rev last_rev)
  moreover have "\<not> asciiSpace (hd w)" using w unfolding w_def by (rule hd_dropWhile)
  ultimately show ?thesis by (simp add: TrimSpace_ends)
next
  case True
  show ?thesis unfolding True by (simp add: TrimSpace_def)
qed

definition entries_ok :: "string list \<Rightarrow> bool" where
  "entries_ok out \<longleftrightarrow> distinct out \<and> (\<forall>v \<in> set out. v \<noteq> [] \<and> TrimSpace v = v)"

lemma splitEntries_ok: "entries_ok (splitEntries raw)"
proof -
  have "entries_ok out \<Longrightarrow> entries_ok (foldl split_step out ws)" for ws out
  proof (induction ws arbitrary: out)
    case (Cons x xs)
    have "entries_ok (split_step out x)"
      using Cons.prems by (auto simp: entries_ok_def split_step_def Let_def containsEntry_def list_ex_iff)
    then show ?case using Cons.IH by simp
  qed simp
  from this [of "[]" "split_on (CHR '';'') raw"] show ?thesis by (simp add: splitEntries_def entries_ok_def)
qed

end
