(* ===== verification/ConfigMachine.thy ===== *)
theory ConfigMachine
  imports ConfigEnv
begin

text \<open>
  The settings of the machine clients, less those of the write scope: \<open>config/machine.go\<close> (issuer, algorithms, client ceilings,
  the bind name) and \<open>config/machine_revocation.go\<close>. \<open>loadMachine\<close> itself stands in \<open>ConfigLoad\<close>, after the write scope it loads.
\<close>

subsection \<open>Scopes and algorithms\<close>

definition MachineReadScopes :: "string list" where
  "MachineReadScopes =
     [''directory.users.read'', ''directory.groups.read'', ''directory.tree.read'', ''directory.entry.read'',
      ''directory.policies.read'', ''server.monitor.read'', ''audit.read'', ''server.settings.read'']"

definition MachineWriteScopes :: "string list" where
  "MachineWriteScopes =
     [''directory.users.create'', ''directory.users.update'', ''directory.users.delete'', ''directory.users.lock'',
      ''directory.users.unlock'', ''directory.groups.create'', ''directory.groups.update'', ''directory.groups.delete'',
      ''directory.groups.members.add'', ''directory.groups.members.remove'', ''directory.users.password.write'']"

definition MachineWriteOpenScopes :: "string list" where
  "MachineWriteOpenScopes =
     [''directory.users.create'', ''directory.users.update'', ''directory.users.delete'', ''directory.users.lock'',
      ''directory.groups.create'', ''directory.groups.update'', ''directory.groups.delete'',
      ''directory.groups.members.add'', ''directory.groups.members.remove'', ''directory.users.password.write'']"

definition machineAlgs :: "string list" where
  "machineAlgs = [''RS256'', ''RS384'', ''RS512'', ''PS256'', ''PS384'', ''PS512'', ''ES256'', ''ES384'', ''ES512'', ''EdDSA'']"

definition builtinRootDNs :: "string list" where
  "builtinRootDNs = [''cn=monitoring,cn=Monitor'', ''cn=admin,cn=accesslog'', ''cn=admin,cn=config'']"

definition machineSAMaxClientID :: nat where "machineSAMaxClientID = 256"

definition alg_step :: "string \<Rightarrow> string list \<Rightarrow> config_error + string list" where
  "alg_step raw out =
     (let a = TrimSpace raw
      in if a \<notin> set machineAlgs then Inl (Invalid ''MACHINE_OIDC_ALGS'')
         else Inr (if a \<in> set out then out else out @ [a]))"

definition parseMachineAlgs :: "string \<Rightarrow> config_error + string list" where
  "parseMachineAlgs raw =
     (if TrimSpace raw = '''' then Inr [''RS256'', ''ES256''] else foldE alg_step (split_on (CHR '','') raw) [])"

subsection \<open>URLs\<close>

definition parseHTTPURL :: "cfg_lib \<Rightarrow> string \<Rightarrow> bool \<Rightarrow> string \<Rightarrow> config_error + url" where
  "parseHTTPURL L raw allowPath name =
     (case cl_url L raw of
        None \<Rightarrow> Inl (Barred name ''absolute'')
      | Some u \<Rightarrow>
          if ur_scheme u = '''' \<or> ur_host u = '''' \<or> ur_user u \<or> ur_query u \<noteq> '''' \<or> ur_fragment u \<noteq> ''''
          then Inl (Barred name ''absolute'')
          else if ur_scheme u \<noteq> ''http'' \<and> ur_scheme u \<noteq> ''https'' then Inl (Barred name ''scheme'')
          else if \<not> allowPath \<and> ur_path u \<noteq> '''' \<and> ur_path u \<noteq> ''/'' then Inl (Barred name ''origin'')
          else Inr u)"

definition validateMachineIssuer :: "cfg_lib \<Rightarrow> string \<Rightarrow> bool \<Rightarrow> config_error + unit" where
  "validateMachineIssuer L raw insecure =
     bindE (parseHTTPURL L raw True ''machine issuer'') (\<lambda>u.
     need (ur_scheme u = ''https'' \<or> insecure) (Barred ''machine issuer'' ''https''))"

subsection \<open>Client ceilings\<close>

text \<open>\<open>strings.Cut\<close> at a one-byte separator.\<close>

definition cut_at :: "char \<Rightarrow> string \<Rightarrow> string \<times> string \<times> bool" where
  "cut_at sep s =
     (let k = takeWhile (\<lambda>c. c \<noteq> sep) s in if k = s then (s, '''', False) else (k, drop (Suc (length k)) s, True))"

definition scope_step :: "string \<Rightarrow> string list \<Rightarrow> config_error + string list" where
  "scope_step raw scopes =
     (let s = TrimSpace raw
      in if s = '''' then Inr scopes
         else if s \<in> set MachineWriteScopes \<and> s \<notin> set MachineWriteOpenScopes
              then Inl (Barred ''MACHINE_ALLOWED_CLIENTS'' ''closed scope'')
         else if s \<notin> set MachineReadScopes \<and> s \<notin> set MachineWriteScopes
              then Inl (Barred ''MACHINE_ALLOWED_CLIENTS'' ''unknown scope'')
         else Inr (if s \<in> set scopes then scopes else scopes @ [s]))"

definition client_id_ok :: "string \<Rightarrow> string \<Rightarrow> bool" where
  "client_id_ok banned cid \<longleftrightarrow> cid \<noteq> '''' \<and> length cid \<le> machineSAMaxClientID \<and> \<not> containsAny cid banned"

definition client_step :: "string \<Rightarrow> machine_client list \<Rightarrow> config_error + machine_client list" where
  "client_step raw out =
     (let entry = TrimSpace raw
      in if entry = '''' then Inr out
         else (case cut_at (CHR ''='') entry of
           (k, scopeList, ok) \<Rightarrow>
             (let cid = TrimSpace k
              in bindE (need (ok \<and> client_id_ok [CHR '' '', CHR 0x09, CHR '','', CHR '';'', CHR ''=''] cid)
                          (Invalid ''MACHINE_ALLOWED_CLIENTS'')) (\<lambda>_.
                 bindE (need (cid \<notin> set (map ml_id out)) (Barred ''MACHINE_ALLOWED_CLIENTS'' ''twice'')) (\<lambda>_.
                 bindE (foldE scope_step (split_on (CHR '','') scopeList) []) (\<lambda>scopes.
                 bindE (need (scopes \<noteq> []) (Barred ''MACHINE_ALLOWED_CLIENTS'' ''no scope'')) (\<lambda>_.
                 Inr (out @ [\<lparr> ml_id = cid, ml_scopes = scopes \<rparr>]))))))))"

definition parseMachineClients :: "string \<Rightarrow> config_error + machine_client list" where
  "parseMachineClients raw =
     bindE (foldE client_step (split_on (CHR '';'') raw) []) (\<lambda>out.
     bindE (need (out \<noteq> []) (Barred ''MACHINE_ALLOWED_CLIENTS'' ''no client'')) (\<lambda>_. Inr out))"

subsection \<open>The bind name\<close>

definition dnEqual :: "cfg_lib \<Rightarrow> dn \<Rightarrow> string \<Rightarrow> string \<Rightarrow> bool" where
  "dnEqual L a aRaw other =
     (case dl_parse (cl_dn L) other of
        None \<Rightarrow> cl_fold L (TrimSpace aRaw) (TrimSpace other)
      | Some b \<Rightarrow> dl_eq (cl_dn L) a b)"

text \<open>The contiguous runs \<open>RDNs[i:j]\<close> of a name, \<open>i < j\<close>, in the order of the two loops.\<close>

definition dn_runs :: "dn \<Rightarrow> dn list" where
  "dn_runs d = concat (map (\<lambda>i. map (\<lambda>j. take (j - i) (drop i d)) [Suc i..<Suc (length d)]) [0..<length d])"

definition privileged_dns :: "config \<Rightarrow> string list \<Rightarrow> string list" where
  "privileged_dns cfg rootDNs =
     bk_admins (cf_backup cfg) @ cf_profile_admins cfg @
     (if sc_account (cf_sso cfg) \<noteq> '''' then [sc_account (cf_sso cfg)] else []) @ rootDNs @ builtinRootDNs"

definition run_inside :: "cfg_lib \<Rightarrow> dn \<Rightarrow> string \<Rightarrow> bool" where
  "run_inside L bind other =
     (case dl_parse (cl_dn L) other of None \<Rightarrow> False | Some d \<Rightarrow> list_ex (dl_eq (cl_dn L) bind) (dn_runs d))"

definition checkMachineBindDN :: "cfg_lib \<Rightarrow> string \<Rightarrow> config \<Rightarrow> string list \<Rightarrow> config_error + unit" where
  "checkMachineBindDN L bindDN cfg rootDNs =
     (case dl_parse (cl_dn L) bindDN of
        None \<Rightarrow> Inl (Invalid ''MACHINE_LDAP_BIND_DN'')
      | Some bind \<Rightarrow>
          bindE (need (\<not> list_ex (dnEqual L bind bindDN) (privileged_dns cfg rootDNs))
                   (Barred ''MACHINE_LDAP_BIND_DN'' ''privileged'')) (\<lambda>_.
          need (\<not> list_ex (run_inside L bind) (privileged_dns cfg rootDNs)) (Barred ''MACHINE_LDAP_BIND_DN'' ''run'')))"

subsection \<open>Token revocation\<close>

definition lower_types :: "cfg_lib \<Rightarrow> dn \<Rightarrow> dn" where
  "lower_types L = map (map (\<lambda>a. (dl_lower (cl_dn L) (fst a), snd a)))"

definition canonRevocationBaseDN :: "cfg_lib \<Rightarrow> string \<Rightarrow> config_error + string" where
  "canonRevocationBaseDN L raw =
     (case dl_parse (cl_dn L) raw of
        None \<Rightarrow> Inl (Invalid ''MACHINE_REVOCATION_BASE_DN'')
      | Some d \<Rightarrow>
          (case d of
             [(typ, v)] # parent # rest \<Rightarrow>
               if cl_fold L typ ''ou'' \<and> cl_fold L v ''revocations''
               then Inr (cl_string L ([(dl_lower (cl_dn L) typ, ''revocations'')] # lower_types L (parent # rest)))
               else Inl (Invalid ''MACHINE_REVOCATION_BASE_DN'')
           | _ \<Rightarrow> Inl (Invalid ''MACHINE_REVOCATION_BASE_DN'')))"

definition revocationMaxEntriesHi :: int where "revocationMaxEntriesHi = 2500"
definition revocationMinStaleGap :: duration where "revocationMinStaleGap = 5 * second_ns"

definition loadMachineRevocation :: "cfg_lib \<Rightarrow> getenv \<Rightarrow> config \<Rightarrow> config_error + rev_config" where
  "loadMachineRevocation L E cfg =
     bindE (boolEnv E ''MACHINE_REVOCATION_ENABLED'' False) (\<lambda>on.
     if \<not> on then Inr no_rev
     else
       let (refresh, e1) = durations_get L E ''MACHINE_REVOCATION_REFRESH'' (5 * second_ns) second_ns minute_ns None in
       bindE (no_error e1) (\<lambda>_.
       let (stale, e2) = durations_get L E ''MACHINE_REVOCATION_MAX_STALE'' (max (3 * refresh) (refresh + revocationMinStaleGap))
             refresh (10 * minute_ns) e1;
           (sentinel, e3) = durations_get L E ''MACHINE_REVOCATION_SENTINEL_MAX_AGE'' (5 * minute_ns) (30 * second_ns) hour_ns e2 in
       bindE (no_error e3) (\<lambda>_.
       bindE (need (refresh + revocationMinStaleGap \<le> stale) (Barred ''MACHINE_REVOCATION_MAX_STALE'' ''gap'')) (\<lambda>_.
       let (entries, e4) = ints_get E ''MACHINE_REVOCATION_MAX_ENTRIES'' 2000 1 revocationMaxEntriesHi None in
       bindE (no_error e4) (\<lambda>_.
       let raw = TrimSpace (E ''MACHINE_REVOCATION_BASE_DN'');
           named = (if raw = '''' then ''ou=revocations,ou=system,'' @ cf_base cfg else raw) in
       bindE (canonRevocationBaseDN L named) (\<lambda>base.
       Inr \<lparr> rv_enabled = True, rv_refresh = refresh, rv_max_stale = stale, rv_sentinel = sentinel,
             rv_base = base, rv_entries = entries \<rparr>))))))"

subsection \<open>What a loaded setting promises\<close>

lemma parseMachineAlgs_ok:
  assumes "parseMachineAlgs raw = Inr out"
  shows "out \<noteq> [] \<and> distinct out \<and> set out \<subseteq> set machineAlgs"
proof (cases "TrimSpace raw = ''''")
  case True
  with assms show ?thesis by (auto simp: parseMachineAlgs_def machineAlgs_def)
next
  case False
  with assms have f: "foldE alg_step (split_on (CHR '','') raw) [] = Inr out" by (simp add: parseMachineAlgs_def)
  have "distinct out \<and> set out \<subseteq> set machineAlgs"
    by (rule foldE_invariant [OF f]) (auto simp: alg_step_def Let_def split: if_splits)
  moreover have "alg_step x a = Inr b \<Longrightarrow> b \<noteq> []" for x a b by (auto simp: alg_step_def Let_def split: if_splits)
  then have "out \<noteq> []" using foldE_each [OF f hd_in_set [OF split_on_not_Nil], of "\<lambda>z. z \<noteq> []"] by blast
  ultimately show ?thesis by blast
qed

definition scope_known :: "string \<Rightarrow> bool" where
  "scope_known s \<longleftrightarrow> s \<in> set MachineReadScopes \<or> s \<in> set MachineWriteOpenScopes"

lemma scope_step_ok: "scope_step raw a = Inr b \<Longrightarrow> (distinct a \<and> list_all scope_known a) \<Longrightarrow> distinct b \<and> list_all scope_known b"
  by (auto simp: scope_step_def scope_known_def Let_def split: if_splits)

definition client_ok :: "machine_client \<Rightarrow> bool" where
  "client_ok c \<longleftrightarrow> client_id_ok [CHR '' '', CHR 0x09, CHR '','', CHR '';'', CHR ''=''] (ml_id c) \<and>
     ml_scopes c \<noteq> [] \<and> distinct (ml_scopes c) \<and> list_all scope_known (ml_scopes c)"

lemma client_step_ok:
  assumes "client_step raw a = Inr b" "distinct (map ml_id a) \<and> list_all client_ok a"
  shows "distinct (map ml_id b) \<and> list_all client_ok b"
proof (cases "TrimSpace raw = ''''")
  case True
  with assms show ?thesis by (simp add: client_step_def)
next
  case False
  obtain k sl ok where c: "cut_at (CHR ''='') (TrimSpace raw) = (k, sl, ok)" by (metis surj_pair)
  with False assms(1) obtain scopes where s: "client_id_ok [CHR '' '', CHR 0x09, CHR '','', CHR '';'', CHR ''=''] (TrimSpace k)"
    "TrimSpace k \<notin> set (map ml_id a)" "foldE scope_step (split_on (CHR '','') sl) [] = Inr scopes" "scopes \<noteq> []"
    "b = a @ [\<lparr> ml_id = TrimSpace k, ml_scopes = scopes \<rparr>]"
    by (auto simp: client_step_def Let_def bindE_Inr_iff)
  have "distinct scopes \<and> list_all scope_known scopes"
    by (rule foldE_invariant [OF s(3)]) (use scope_step_ok in \<open>auto\<close>)
  with assms(2) s show ?thesis by (auto simp: client_ok_def)
qed

lemma parseMachineClients_ok:
  assumes "parseMachineClients raw = Inr out"
  shows "out \<noteq> [] \<and> distinct (map ml_id out) \<and> list_all client_ok out"
proof -
  have f: "foldE client_step (split_on (CHR '';'') raw) [] = Inr out" "out \<noteq> []"
    using assms by (auto simp: parseMachineClients_def bindE_Inr_iff)
  have "distinct (map ml_id out) \<and> list_all client_ok out"
    by (rule foldE_invariant [OF f(1)]) (auto intro: client_step_ok [THEN conjunct1] client_step_ok [THEN conjunct2])
  with f(2) show ?thesis by blast
qed

definition rev_ok :: "rev_config \<Rightarrow> bool" where
  "rev_ok r \<longleftrightarrow> (rv_enabled r \<longrightarrow>
     second_ns \<le> rv_refresh r \<and> rv_refresh r \<le> minute_ns \<and> rv_refresh r + revocationMinStaleGap \<le> rv_max_stale r \<and>
     rv_max_stale r \<le> 10 * minute_ns \<and> 30 * second_ns \<le> rv_sentinel r \<and> rv_sentinel r \<le> hour_ns \<and>
     1 \<le> rv_entries r \<and> rv_entries r \<le> revocationMaxEntriesHi)"

lemma loadMachineRevocation_ok:
  assumes "loadMachineRevocation L E cfg = Inr r"
  shows "rev_ok r"
proof -
  obtain on where on: "boolEnv E ''MACHINE_REVOCATION_ENABLED'' False = Inr on"
    using assms by (auto simp: loadMachineRevocation_def bindE_Inr_iff)
  show ?thesis
  proof (cases on)
    case False
    with assms on show ?thesis by (auto simp: loadMachineRevocation_def rev_ok_def no_rev_def)
  next
    case True
    obtain refresh e1 where d1: "durations_get L E ''MACHINE_REVOCATION_REFRESH'' (5 * second_ns) second_ns minute_ns None = (refresh, e1)"
      by fastforce
    obtain stale e2 where d2: "durations_get L E ''MACHINE_REVOCATION_MAX_STALE'' (max (3 * refresh) (refresh + revocationMinStaleGap))
        refresh (10 * minute_ns) e1 = (stale, e2)" by fastforce
    obtain sentinel e3 where d3: "durations_get L E ''MACHINE_REVOCATION_SENTINEL_MAX_AGE'' (5 * minute_ns) (30 * second_ns) hour_ns e2
        = (sentinel, e3)" by fastforce
    obtain entries e4 where n: "ints_get E ''MACHINE_REVOCATION_MAX_ENTRIES'' 2000 1 revocationMaxEntriesHi None = (entries, e4)"
      by fastforce
    have r: "e1 = None" "e3 = None" "e4 = None" "refresh + revocationMinStaleGap \<le> stale"
      "rv_refresh r = refresh" "rv_max_stale r = stale" "rv_sentinel r = sentinel" "rv_entries r = entries"
      using assms on True d1 d2 d3 n by (auto simp: loadMachineRevocation_def bindE_Inr_iff Let_def)
    have c: "second_ns \<le> refresh \<and> refresh \<le> minute_ns"
      using durations_get_range [OF d1 [unfolded r(1)]] by (simp add: minute_ns_def second_ns_def)
    have s: "e2 = None \<and> 30 * second_ns \<le> sentinel \<and> sentinel \<le> hour_ns"
      using durations_get_range [OF d3 [unfolded r(2)]] by (simp add: hour_ns_def minute_ns_def second_ns_def)
    have "stale \<le> 10 * minute_ns"
      using durations_get_range [of L E _ _ _ _ _ stale] d2 s c
      by (auto simp: revocationMinStaleGap_def minute_ns_def second_ns_def)
    moreover have "1 \<le> entries \<and> entries \<le> revocationMaxEntriesHi"
      using ints_get_range [OF n [unfolded r(3)]] by (simp add: revocationMaxEntriesHi_def)
    ultimately show ?thesis using c s r by (simp add: rev_ok_def)
  qed
qed

end
