(* ===== verification/ConfigWrite.thy ===== *)
theory ConfigWrite
  imports ConfigMachine IdempotencyStore
begin

text \<open>
  The settings of the machine write scope: the identities of \<open>config/machine_write.go\<close>, the ceilings, groups, seed and limits of
  \<open>config/machine_write_scope.go\<close>, the credential compartment of \<open>config/machine_write_cred.go\<close>.

  The code parses again, with the error dropped, names it has accepted before; where that parse would fail the model says
  \<open>Panicked\<close>. \<open>return w, loadMachineWriteCredIdentity(getenv, cfg, m, &w)\<close> reads \<open>w\<close> and changes it in one statement: the
  language leaves the order open, the model has the compiler's (the call comes first).
\<close>

subsection \<open>Identities\<close>

definition loadMachineWrite :: "getenv \<Rightarrow> bool \<Rightarrow> config_error + bool" where
  "loadMachineWrite E machineEnabled =
     bindE (boolEnv E ''MACHINE_WRITE_ENABLED'' False) (\<lambda>on.
     if \<not> on then Inr False
     else bindE (need machineEnabled (Barred ''MACHINE_WRITE_ENABLED'' ''MACHINE_AUTH_ENABLED'')) (\<lambda>_. Inr True))"

definition parsed :: "cfg_lib \<Rightarrow> string \<Rightarrow> config_error + dn" where
  "parsed L raw = (case dl_parse (cl_dn L) raw of None \<Rightarrow> Inl Panicked | Some d \<Rightarrow> Inr d)"

definition writeIdentityDNUnambiguous :: "cfg_lib \<Rightarrow> dn \<Rightarrow> bool" where
  "writeIdentityDNUnambiguous L d \<longleftrightarrow> d \<noteq> [] \<and> list_all (\<lambda>rdn. plain_rdn (cl_dn L) rdn []) d"

definition unambiguous :: "cfg_lib \<Rightarrow> string \<Rightarrow> bool" where
  "unambiguous L raw \<longleftrightarrow>
     (case dl_parse (cl_dn L) raw of None \<Rightarrow> False | Some d \<Rightarrow> writeIdentityDNUnambiguous L d)"

definition replicator_dn :: "config \<Rightarrow> string" where
  "replicator_dn cfg = ''cn=replicator,'' @ cf_base cfg"

definition machineIdentityFromVars ::
  "cfg_lib \<Rightarrow> getenv \<Rightarrow> string \<Rightarrow> string \<Rightarrow> string \<Rightarrow> config \<Rightarrow> machine_config \<Rightarrow> config_error + bind_identity" where
  "machineIdentityFromVars L E pre dnVar pwVar cfg m =
     (let ident = \<lparr> bi_dn = TrimSpace (E dnVar), bi_password = E pwVar \<rparr>;
          rooted = mc_root_dns m @ [mc_bind_dn m, replicator_dn cfg];
          guarded = rooted @ bk_admins (cf_backup cfg) @ cf_profile_admins cfg @
            (if sc_account (cf_sso cfg) \<noteq> '''' then [sc_account (cf_sso cfg)] else [])
      in bindE (need (bi_dn ident \<noteq> '''' \<and> bi_password ident \<noteq> '''') (Missing pre [dnVar, pwVar])) (\<lambda>_.
         case dl_parse (cl_dn L) (bi_dn ident) of
           None \<Rightarrow> Inl (Invalid dnVar)
         | Some d \<Rightarrow>
             bindE (need (checkMachineBindDN L (bi_dn ident) cfg rooted = Inr ()) (Barred dnVar ''privileged'')) (\<lambda>_.
             bindE (need (writeIdentityDNUnambiguous L d) (Barred dnVar ''ambiguous'')) (\<lambda>_.
             bindE (need (list_all (unambiguous L) guarded) (Barred pre ''ambiguous'')) (\<lambda>_. Inr ident)))))"

definition machineWriteIdentity :: "cfg_lib \<Rightarrow> getenv \<Rightarrow> string \<Rightarrow> config \<Rightarrow> machine_config \<Rightarrow> config_error + bind_identity" where
  "machineWriteIdentity L E pre = machineIdentityFromVars L E pre (pre @ ''_BIND_DN'') (pre @ ''_BIND_PASSWORD'')"

definition names_scope :: "string \<Rightarrow> machine_config \<Rightarrow> bool" where
  "names_scope s m \<longleftrightarrow> list_ex (\<lambda>c. s \<in> set (ml_scopes c)) (mc_clients m)"

text \<open>A name is none of the others, compared parsed, in their order.\<close>

definition distinct_from :: "cfg_lib \<Rightarrow> dn \<Rightarrow> config_error \<Rightarrow> string list \<Rightarrow> config_error + unit" where
  "distinct_from L d e others =
     eachE (\<lambda>raw. bindE (parsed L raw) (\<lambda>other. need (\<not> dl_eq (cl_dn L) other d) e)) others"

definition cred_switch :: "getenv \<Rightarrow> config_error + bool" where
  "cred_switch E =
     (let raw = TrimSpace (E ''MACHINE_WRITE_CRED_ENABLED'')
      in if raw = '''' then Inr False
         else case ParseBool raw of None \<Rightarrow> Inl (Invalid ''MACHINE_WRITE_CRED_ENABLED'') | Some v \<Rightarrow> Inr v)"

definition loadMachineWriteCredIdentity ::
  "cfg_lib \<Rightarrow> getenv \<Rightarrow> config \<Rightarrow> machine_config \<Rightarrow> write_config \<Rightarrow> config_error + write_config" where
  "loadMachineWriteCredIdentity L E cfg m w =
     bindE (cred_switch E) (\<lambda>on.
     if \<not> on then Inr (w\<lparr> wc_cred_enabled := False \<rparr>)
     else
       bindE (machineWriteIdentity L E ''MACHINE_WRITE_CRED'' cfg m) (\<lambda>ident.
       bindE (parsed L (bi_dn ident)) (\<lambda>cred.
       let others = bi_dn (wc_data w) # (if wc_lock_enabled w then [bi_dn (wc_lock w)] else []) in
       bindE (distinct_from L cred (Barred ''MACHINE_WRITE_CRED_BIND_DN'' ''distinct'') others) (\<lambda>_.
       bindE (machineIdentityFromVars L E ''MACHINE_WRITE_CRED_ACL_READER'' ''MACHINE_WRITE_CRED_ACL_READER_DN''
                ''MACHINE_WRITE_CRED_ACL_READER_PASSWORD'' cfg m) (\<lambda>reader_ident.
       bindE (parsed L (bi_dn reader_ident)) (\<lambda>reader.
       bindE (distinct_from L reader (Barred ''MACHINE_WRITE_CRED_ACL_READER_DN'' ''distinct'') (others @ [bi_dn ident])) (\<lambda>_.
       Inr (w\<lparr> wc_cred_enabled := True, wc_cred := ident, wc_reader := reader_ident \<rparr>))))))))"

text \<open>The lock compartment: without it no ceiling may name the lock scope.\<close>

definition load_lock ::
  "cfg_lib \<Rightarrow> getenv \<Rightarrow> config \<Rightarrow> machine_config \<Rightarrow> bind_identity \<Rightarrow> bool \<Rightarrow> config_error + bind_identity" where
  "load_lock L E cfg m data_ident lock_on =
     (if \<not> lock_on
      then bindE (need (\<not> names_scope ''directory.users.lock'' m) (Barred ''MACHINE_ALLOWED_CLIENTS'' ''MACHINE_WRITE_LOCK_ENABLED''))
             (\<lambda>_. Inr no_identity)
      else bindE (machineWriteIdentity L E ''MACHINE_WRITE_LOCK'' cfg m) (\<lambda>ident.
           bindE (parsed L (bi_dn data_ident)) (\<lambda>d.
           bindE (parsed L (bi_dn ident)) (\<lambda>l.
           bindE (need (\<not> dl_eq (cl_dn L) d l) (Barred ''MACHINE_WRITE_LOCK_BIND_DN'' ''distinct'')) (\<lambda>_. Inr ident)))))"

definition loadMachineWriteIdentities ::
  "cfg_lib \<Rightarrow> getenv \<Rightarrow> config \<Rightarrow> machine_config \<Rightarrow> config_error + write_config" where
  "loadMachineWriteIdentities L E cfg m =
     (if \<not> mc_write_enabled m then Inr no_write
      else
        bindE (need (is_enabled (cf_idem cfg)) (Barred ''MACHINE_WRITE_ENABLED'' ''UI_IDEMPOTENCY_ENABLED'')) (\<lambda>_.
        bindE (machineWriteIdentity L E ''MACHINE_WRITE_DATA'' cfg m) (\<lambda>data_ident.
        bindE (boolEnv E ''MACHINE_WRITE_AUDIT_TARGET_DN'' False) (\<lambda>plain.
        bindE (boolEnv E ''MACHINE_WRITE_LOCK_ENABLED'' False) (\<lambda>lock_on.
        bindE (load_lock L E cfg m data_ident lock_on) (\<lambda>lock_ident.
        loadMachineWriteCredIdentity L E cfg m
          (no_write\<lparr> wc_data := data_ident, wc_audit_plain := plain, wc_lock_enabled := lock_on, wc_lock := lock_ident \<rparr>)))))))"

subsection \<open>Canonical names and client lists\<close>

definition machineWriteMaxDNsPerClient :: nat where "machineWriteMaxDNsPerClient = 16"
definition machineWriteMaxDNLen :: nat where "machineWriteMaxDNLen = 1024"

definition canonical_value :: "string \<Rightarrow> bool" where
  "canonical_value v \<longleftrightarrow> plain_value v \<and> \<not> containsAny v '',+;<>=''"

definition canonicalWriteDN :: "cfg_lib \<Rightarrow> string \<Rightarrow> dn option" where
  "canonicalWriteDN L raw =
     (if raw = '''' \<or> machineWriteMaxDNLen < length raw \<or> containsAny raw [CHR 0x5C, CHR ''#'', CHR 0x22] then None
      else case dl_parse (cl_dn L) raw of
        None \<Rightarrow> None
      | Some d \<Rightarrow>
          if d = [] \<or> \<not> list_all (\<lambda>rdn. length rdn = 1 \<and> fst (hd rdn) \<in> set naming_types \<and> canonical_value (snd (hd rdn))) d
          then None
          else if join_on (CHR '','') (map (\<lambda>rdn. fst (hd rdn) @ ''='' @ snd (hd rdn)) d) \<noteq> raw then None
          else Some d)"

text \<open>The names of one client, none twice up to case.\<close>

definition dn_step :: "cfg_lib \<Rightarrow> string \<Rightarrow> string \<Rightarrow> string list \<Rightarrow> config_error + string list" where
  "dn_step L name raw dns =
     bindE (need (canonicalWriteDN L raw \<noteq> None) (Invalid name)) (\<lambda>_.
     bindE (need (dl_lower (cl_dn L) raw \<notin> set (map (dl_lower (cl_dn L)) dns)) (Barred name ''DN twice'')) (\<lambda>_.
     Inr (dns @ [raw])))"

definition client_dns_step ::
  "cfg_lib \<Rightarrow> string \<Rightarrow> string list \<Rightarrow> string \<Rightarrow> client_dns list \<Rightarrow> config_error + client_dns list" where
  "client_dns_step L name known raw out =
     (let entry = TrimSpace raw
      in if entry = '''' then Inr out
         else
           let (k, lst, ok) = cut_at (CHR ''='') entry; cid = TrimSpace k in
           bindE (need (ok \<and> client_id_ok [CHR '' '', CHR 0x09, CHR '','', CHR '';'', CHR ''='', CHR ''|''] cid) (Invalid name)) (\<lambda>_.
           bindE (need (cid \<in> set known) (Barred name ''unknown client'')) (\<lambda>_.
           bindE (need (cid \<notin> set (map cd_id out)) (Barred name ''client twice'')) (\<lambda>_.
           bindE (foldE (dn_step L name) (split_on (CHR ''|'') lst) []) (\<lambda>dns.
           bindE (need (length dns \<le> machineWriteMaxDNsPerClient) (Barred name ''too many'')) (\<lambda>_.
           Inr (out @ [\<lparr> cd_id = cid, cd_dns = dns \<rparr>])))))))"

definition parseMachineWriteClientDNs ::
  "cfg_lib \<Rightarrow> string \<Rightarrow> string \<Rightarrow> string list \<Rightarrow> config_error + client_dns list" where
  "parseMachineWriteClientDNs L name raw known = foldE (client_dns_step L name known) (split_on (CHR '';'') raw) []"

subsection \<open>Protected names\<close>

definition machineWriteIdentityDNs :: "config \<Rightarrow> machine_config \<Rightarrow> write_config \<Rightarrow> string list" where
  "machineWriteIdentityDNs cfg m w =
     [mc_bind_dn m, bi_dn (wc_data w)] @
     (if wc_lock_enabled w then [bi_dn (wc_lock w)] else []) @
     (if wc_cred_enabled w
      then [bi_dn (wc_cred w)] @ (if bi_dn (wc_reader w) \<noteq> '''' then [bi_dn (wc_reader w)] else []) @
           (if wc_cred_pending_policy w \<noteq> '''' then [wc_cred_pending_policy w] else []) @ wc_cred_policies w
      else []) @
     mc_root_dns m @ [replicator_dn cfg, ''cn=admin,'' @ cf_base cfg] @
     bk_admins (cf_backup cfg) @ cf_profile_admins cfg @
     (if sc_account (cf_sso cfg) \<noteq> '''' then [sc_account (cf_sso cfg)] else []) @
     (if wc_group_seed w \<noteq> '''' then [wc_group_seed w] else [])"

definition canary_DNs :: "cred_canary \<Rightarrow> string list" where
  "canary_DNs c = [cc_password c, cc_unmarked c, cc_pending c]"

definition machineWriteProtectedDNs :: "config \<Rightarrow> machine_config \<Rightarrow> write_config \<Rightarrow> string list" where
  "machineWriteProtectedDNs cfg m w =
     machineWriteIdentityDNs cfg m w @ wc_privileged w @ concat (map canary_DNs (wc_canaries w))"

text \<open>A new name is none of the protected ones, each of which must be unambiguous.\<close>

definition outside_protected :: "cfg_lib \<Rightarrow> string \<Rightarrow> dn \<Rightarrow> string list \<Rightarrow> config_error + unit" where
  "outside_protected L name d others =
     eachE (\<lambda>other. case dl_parse (cl_dn L) other of
              None \<Rightarrow> Inl (Barred name ''ambiguous'')
            | Some p \<Rightarrow>
                if \<not> writeIdentityDNUnambiguous L p then Inl (Barred name ''ambiguous'')
                else need (\<not> dl_eq (cl_dn L) p d) (Barred name ''protected'')) others"

definition loadMachineWriteGroupSeed ::
  "cfg_lib \<Rightarrow> getenv \<Rightarrow> config \<Rightarrow> machine_config \<Rightarrow> write_config \<Rightarrow> dn \<Rightarrow> config_error + string" where
  "loadMachineWriteGroupSeed L E cfg m w base =
     (let raw = E ''MACHINE_WRITE_GROUP_SEED_DN'' in
      if raw = ''''
      then bindE (need (\<not> names_scope ''directory.groups.create'' m) (Missing ''MACHINE_WRITE_GROUP_SEED_DN'' [])) (\<lambda>_. Inr '''')
      else case canonicalWriteDN L raw of
        None \<Rightarrow> Inl (Invalid ''MACHINE_WRITE_GROUP_SEED_DN'')
      | Some seed \<Rightarrow>
          bindE (need (dl_anc (cl_dn L) base seed) (Barred ''MACHINE_WRITE_GROUP_SEED_DN'' ''base'')) (\<lambda>_.
          bindE (outside_protected L ''MACHINE_WRITE_GROUP_SEED_DN'' seed (machineWriteProtectedDNs cfg m w)) (\<lambda>_.
          case dl_parse (cl_dn L) (bi_dn (wc_data w)) of
            None \<Rightarrow> Inl (Barred ''MACHINE_WRITE_GROUP_SEED_DN'' ''container'')
          | Some wdata \<Rightarrow>
              if length wdata < 2 \<or> \<not> dl_eq (cl_dn L) (drop 1 seed) (drop 1 wdata)
              then Inl (Barred ''MACHINE_WRITE_GROUP_SEED_DN'' ''container'') else Inr raw)))"

subsection \<open>Checks between the settings\<close>

definition has_open_scope :: "machine_config \<Rightarrow> string \<Rightarrow> bool" where
  "has_open_scope m cid \<longleftrightarrow>
     list_ex (\<lambda>c. ml_id c = cid \<and> list_ex (\<lambda>s. s \<in> set MachineWriteOpenScopes) (ml_scopes c)) (mc_clients m)"

definition checkWriteHasWriter :: "machine_config \<Rightarrow> client_dns list \<Rightarrow> config_error + unit" where
  "checkWriteHasWriter m subtrees =
     bindE (need (subtrees \<noteq> []) (Missing ''MACHINE_WRITE_SUBTREES'' [])) (\<lambda>_.
     need (list_ex (\<lambda>e. has_open_scope m (cd_id e)) subtrees) (Barred ''MACHINE_WRITE_SUBTREES'' ''no writer''))"

definition checkWriteCeilingStrict :: "cfg_lib \<Rightarrow> dn \<Rightarrow> dn \<Rightarrow> config_error + unit" where
  "checkWriteCeilingStrict L base ceiling = need (dl_anc (cl_dn L) base ceiling) (Barred ''MACHINE_WRITE_SUBTREES'' ''base'')"

definition checkWriteCeilingOverlap :: "cfg_lib \<Rightarrow> dn \<Rightarrow> string list \<Rightarrow> string list \<Rightarrow> config_error + unit" where
  "checkWriteCeilingOverlap L ceiling identities groups =
     bindE
       (eachE (\<lambda>raw. case dl_parse (cl_dn L) raw of
          None \<Rightarrow> Inl (Barred ''MACHINE_WRITE_SUBTREES'' ''unparseable'')
        | Some p \<Rightarrow>
            need (\<not> (dl_eq (cl_dn L) p ceiling \<or> dl_anc (cl_dn L) p ceiling \<or> dl_anc (cl_dn L) ceiling p))
              (Barred ''MACHINE_WRITE_SUBTREES'' ''overlap'')) identities) (\<lambda>_.
     eachE (\<lambda>raw. case dl_parse (cl_dn L) raw of
          None \<Rightarrow> Inl (Barred ''MACHINE_WRITE_SUBTREES'' ''unparseable'')
        | Some p \<Rightarrow>
            need (\<not> (dl_eq (cl_dn L) p ceiling \<or> dl_anc (cl_dn L) p ceiling))
              (Barred ''MACHINE_WRITE_SUBTREES'' ''overlap'')) groups)"

definition checkLockNeedsPrivilegedGroups :: "machine_config \<Rightarrow> write_config \<Rightarrow> config_error + unit" where
  "checkLockNeedsPrivilegedGroups m w =
     need (wc_privileged w \<noteq> [] \<or> \<not> names_scope ''directory.users.lock'' m) (Missing ''MACHINE_WRITE_PRIVILEGED_GROUPS'' [])"

text \<open>The parsed ceilings of every client.\<close>

definition parse_ceilings :: "cfg_lib \<Rightarrow> client_dns list \<Rightarrow> config_error + (string \<times> dn) list" where
  "parse_ceilings L entries =
     foldE (\<lambda>(cid, raw) out. bindE (parsed L raw) (\<lambda>d. Inr (out @ [(cid, d)])))
       (concat (map (\<lambda>e. map (Pair (cd_id e)) (cd_dns e)) entries)) []"

definition ceilings_of :: "(string \<times> dn) list \<Rightarrow> string \<Rightarrow> dn list" where
  "ceilings_of cs cid = map snd (filter (\<lambda>c. fst c = cid) cs)"

text \<open>Every name of every entry is inside a ceiling of the entry's client and neither a privileged group nor below one.\<close>

definition inside_ceilings ::
  "cfg_lib \<Rightarrow> (dn \<Rightarrow> dn \<Rightarrow> bool) \<Rightarrow> string \<Rightarrow> string list \<Rightarrow> (string \<times> dn) list \<Rightarrow> client_dns \<Rightarrow> config_error + unit" where
  "inside_ceilings L within name privileged cs e =
     eachE (\<lambda>raw.
       bindE (parsed L raw) (\<lambda>g.
       bindE (need (list_ex (\<lambda>c. within c g) (ceilings_of cs (cd_id e))) (Barred name ''outside'')) (\<lambda>_.
       eachE (\<lambda>rawPriv. bindE (parsed L rawPriv) (\<lambda>p.
                need (\<not> (dl_eq (cl_dn L) p g \<or> dl_anc (cl_dn L) p g)) (Barred name ''privileged''))) privileged))) (cd_dns e)"

definition checkWriteGroups :: "cfg_lib \<Rightarrow> write_config \<Rightarrow> config_error + unit" where
  "checkWriteGroups L w =
     bindE (need (wc_groups w = [] \<or> wc_privileged w \<noteq> []) (Missing ''MACHINE_WRITE_PRIVILEGED_GROUPS'' [])) (\<lambda>_.
     bindE (parse_ceilings L (wc_subtrees w)) (\<lambda>cs.
     eachE (\<lambda>e.
       bindE (need (ceilings_of cs (cd_id e) \<noteq> []) (Barred ''MACHINE_WRITE_GROUPS'' ''no subtree'')) (\<lambda>_.
       inside_ceilings L (dl_anc (cl_dn L)) ''MACHINE_WRITE_GROUPS'' (wc_privileged w) cs e)) (wc_groups w)))"

definition checkCredSubtrees :: "cfg_lib \<Rightarrow> write_config \<Rightarrow> config_error + unit" where
  "checkCredSubtrees L w =
     bindE (parse_ceilings L (wc_subtrees w)) (\<lambda>cs.
     eachE (inside_ceilings L (\<lambda>c d. dl_eq (cl_dn L) c d \<or> dl_anc (cl_dn L) c d) ''MACHINE_WRITE_CRED_SUBTREES''
              (wc_privileged w) cs) (wc_cred_subtrees w))"

definition machineWriteHumanReserve :: int where "machineWriteHumanReserve = 1"

definition checkMachineWriteQuota :: "int \<Rightarrow> int \<Rightarrow> int \<Rightarrow> config_error + unit" where
  "checkMachineWriteQuota maxPerSubject maxRecords clients =
     need (\<not> maxRecords < (clients + machineWriteHumanReserve) * maxPerSubject) (Barred ''MACHINE_WRITE_SUBTREES'' ''quota'')"

end
