(* ===== verification/ConfigCred.thy ===== *)
theory ConfigCred
  imports ConfigWrite
begin

text \<open>
  The credential compartment (\<open>config/machine_write_cred.go\<close>) and the loader of the whole write scope
  (\<open>loadMachineWriteScope\<close> of \<open>config/machine_write_scope.go\<close>).
\<close>

subsection \<open>Canaries\<close>

definition distinct_subtrees :: "cfg_lib \<Rightarrow> client_dns list \<Rightarrow> config_error + dn list" where
  "distinct_subtrees L entries =
     foldE (\<lambda>raw out. bindE (parsed L raw) (\<lambda>d.
              Inr (if list_ex (\<lambda>have. dl_eq (cl_dn L) have d) out then out else out @ [d])))
       (concat (map cd_dns entries)) []"

definition parse_protected :: "cfg_lib \<Rightarrow> string list \<Rightarrow> config_error + dn list" where
  "parse_protected L raws =
     foldE (\<lambda>raw out. case dl_parse (cl_dn L) raw of
              None \<Rightarrow> Inl (Barred ''MACHINE_WRITE_CRED_CANARIES'' ''unparseable'')
            | Some p \<Rightarrow> Inr (out @ [p])) raws []"

text \<open>One name of a set: what \<open>seen\<close> and \<open>set\<close> become.\<close>

definition canary_part ::
  "cfg_lib \<Rightarrow> dn \<Rightarrow> dn list \<Rightarrow> string \<Rightarrow> dn list \<times> dn list \<Rightarrow> config_error + dn list \<times> dn list" where
  "canary_part L base guarded part acc =
     (case canonicalWriteDN L (TrimSpace part) of
        None \<Rightarrow> Inl (Invalid ''MACHINE_WRITE_CRED_CANARIES'')
      | Some d \<Rightarrow>
          bindE (need (dl_anc (cl_dn L) base d) (Barred ''MACHINE_WRITE_CRED_CANARIES'' ''base'')) (\<lambda>_.
          bindE (need (\<not> list_ex (\<lambda>other. dl_eq (cl_dn L) other d) (fst acc @ guarded))
                   (Barred ''MACHINE_WRITE_CRED_CANARIES'' ''distinct'')) (\<lambda>_.
          Inr (fst acc @ [d], snd acc @ [d]))))"

record canary_scan =
  ck_out :: "cred_canary list"
  ck_seen :: "dn list"
  ck_covered :: "bool list"

definition canary_step ::
  "cfg_lib \<Rightarrow> dn \<Rightarrow> dn list \<Rightarrow> dn list \<Rightarrow> string \<Rightarrow> canary_scan \<Rightarrow> config_error + canary_scan" where
  "canary_step L base subtrees guarded entry k =
     (case split_on (CHR ''|'') entry of
        [p1, p2, p3] \<Rightarrow>
          bindE (foldE (canary_part L base guarded) [p1, p2, p3] (ck_seen k, [])) (\<lambda>(seen, ds).
          let hit = map (\<lambda>s. list_all (dl_anc (cl_dn L) s) ds) subtrees in
          bindE (need (True \<in> set hit) (Barred ''MACHINE_WRITE_CRED_CANARIES'' ''outside'')) (\<lambda>_.
          Inr \<lparr> ck_out = ck_out k @ [\<lparr> cc_password = TrimSpace p1, cc_unmarked = TrimSpace p2, cc_pending = TrimSpace p3 \<rparr>],
                ck_seen = seen, ck_covered = map2 (\<or>) (ck_covered k) hit \<rparr>))
      | _ \<Rightarrow> Inl (Invalid ''MACHINE_WRITE_CRED_CANARIES''))"

definition loadCredCanaries ::
  "cfg_lib \<Rightarrow> string \<Rightarrow> config \<Rightarrow> machine_config \<Rightarrow> write_config \<Rightarrow> dn \<Rightarrow> config_error + cred_canary list" where
  "loadCredCanaries L raw cfg m w base =
     bindE (distinct_subtrees L (wc_cred_subtrees w)) (\<lambda>subtrees.
     bindE (parse_protected L (machineWriteProtectedDNs cfg m w)) (\<lambda>guarded.
     bindE (foldE (canary_step L base subtrees guarded) (splitEntries raw)
              \<lparr> ck_out = [], ck_seen = [], ck_covered = map (\<lambda>_. False) subtrees \<rparr>) (\<lambda>k.
     bindE (need (length (ck_out k) \<le> machineWriteMaxDNsPerClient) (Barred ''MACHINE_WRITE_CRED_CANARIES'' ''too many'')) (\<lambda>_.
     bindE (need (list_all (\<lambda>c. c) (ck_covered k)) (Barred ''MACHINE_WRITE_CRED_CANARIES'' ''uncovered'')) (\<lambda>_.
     Inr (ck_out k))))))"

subsection \<open>The compartment\<close>

definition credMinLengthDefault :: int where "credMinLengthDefault = 12"
definition credMinLengthMax :: int where "credMinLengthMax = 1024"
definition credRateMax :: int where "credRateMax = 10"

text \<open>One entry of the policy allowlist: the texts and the names so far.\<close>

definition policy_step ::
  "cfg_lib \<Rightarrow> dn \<Rightarrow> string \<Rightarrow> string list \<times> dn list \<Rightarrow> config_error + string list \<times> dn list" where
  "policy_step L base raw acc =
     (case canonicalWriteDN L raw of
        None \<Rightarrow> Inl (Invalid ''MACHINE_WRITE_CRED_POLICY_DNS'')
      | Some d \<Rightarrow>
          bindE (need (dl_anc (cl_dn L) base d) (Barred ''MACHINE_WRITE_CRED_POLICY_DNS'' ''base'')) (\<lambda>_.
          bindE (need (\<not> list_ex (\<lambda>p. dl_eq (cl_dn L) p d) (snd acc)) (Barred ''MACHINE_WRITE_CRED_POLICY_DNS'' ''twice'')) (\<lambda>_.
          Inr (fst acc @ [raw], snd acc @ [d]))))"

definition pending_policy ::
  "cfg_lib \<Rightarrow> getenv \<Rightarrow> config \<Rightarrow> machine_config \<Rightarrow> write_config \<Rightarrow> dn \<Rightarrow> dn list \<Rightarrow> config_error + string" where
  "pending_policy L E cfg m w base policies =
     (let raw = E ''MACHINE_WRITE_CRED_PENDING_POLICY_DN'' in
      bindE (need (raw \<noteq> '''') (Missing ''MACHINE_WRITE_CRED_PENDING_POLICY_DN'' [])) (\<lambda>_.
      case canonicalWriteDN L raw of
        None \<Rightarrow> Inl (Invalid ''MACHINE_WRITE_CRED_PENDING_POLICY_DN'')
      | Some pending \<Rightarrow>
          bindE (need (dl_anc (cl_dn L) base pending) (Barred ''MACHINE_WRITE_CRED_PENDING_POLICY_DN'' ''base'')) (\<lambda>_.
          bindE (parsed L (''cn=default,ou=policies,'' @ cf_base cfg)) (\<lambda>def.
          bindE (need (\<not> dl_eq (cl_dn L) def pending) (Barred ''MACHINE_WRITE_CRED_PENDING_POLICY_DN'' ''default'')) (\<lambda>_.
          bindE (need (\<not> list_ex (\<lambda>p. dl_eq (cl_dn L) p pending) policies)
                   (Barred ''MACHINE_WRITE_CRED_PENDING_POLICY_DN'' ''allowlist'')) (\<lambda>_.
          bindE (outside_protected L ''MACHINE_WRITE_CRED_PENDING_POLICY_DN'' pending (machineWriteProtectedDNs cfg m w)) (\<lambda>_.
          Inr raw)))))))"

definition loadMachineWriteCredScope ::
  "cfg_lib \<Rightarrow> getenv \<Rightarrow> config \<Rightarrow> machine_config \<Rightarrow> write_config \<Rightarrow> dn \<Rightarrow> string list \<Rightarrow> config_error + write_config" where
  "loadMachineWriteCredScope L E cfg m w base known =
     (if \<not> wc_cred_enabled w then Inr w
      else
        bindE (need (wc_privileged w \<noteq> []) (Missing ''MACHINE_WRITE_PRIVILEGED_GROUPS'' [])) (\<lambda>_.
        bindE (parseMachineWriteClientDNs L ''MACHINE_WRITE_CRED_SUBTREES'' (E ''MACHINE_WRITE_CRED_SUBTREES'') known) (\<lambda>subtrees.
        bindE (need (subtrees \<noteq> []) (Missing ''MACHINE_WRITE_CRED_SUBTREES'' [])) (\<lambda>_.
        let (minLength, e1) = ints_get E ''MACHINE_WRITE_CRED_MIN_LENGTH'' credMinLengthDefault credMinLengthDefault credMinLengthMax None;
            (rate, e2) = ints_get E ''MACHINE_WRITE_CRED_RATE_LIMIT_RPS'' 1 1 credRateMax e1 in
        bindE (no_error e2) (\<lambda>_.
        bindE (foldE (policy_step L base) (splitEntries (E ''MACHINE_WRITE_CRED_POLICY_DNS'')) ([], [])) (\<lambda>(policies, names).
        bindE (need (length policies \<le> machineWriteMaxDNsPerClient) (Barred ''MACHINE_WRITE_CRED_POLICY_DNS'' ''too many'')) (\<lambda>_.
        bindE (pending_policy L E cfg m w base names) (\<lambda>pending.
        let w1 = w\<lparr> wc_cred_subtrees := subtrees, wc_cred_min_length := minLength, wc_cred_policies := policies,
                    wc_cred_pending_policy := pending, wc_cred_rate := rate \<rparr>;
            (ttl, e3) = durations_get L E ''MACHINE_WRITE_CRED_PENDING_TTL'' (24 * hour_ns) hour_ns (720 * hour_ns) None in
        bindE (no_error e3) (\<lambda>_.
        let w2 = w1\<lparr> wc_pending_ttl := ttl \<rparr> in
        bindE (loadCredCanaries L (E ''MACHINE_WRITE_CRED_CANARIES'') cfg m w2 base) (\<lambda>canaries.
        Inr (w2\<lparr> wc_canaries := canaries \<rparr>)))))))))))"

subsection \<open>The write scope\<close>

definition load_privileged :: "cfg_lib \<Rightarrow> getenv \<Rightarrow> config_error + string list" where
  "load_privileged L E =
     bindE (eachE (\<lambda>raw. need (canonicalWriteDN L raw \<noteq> None) (Invalid ''MACHINE_WRITE_PRIVILEGED_GROUPS''))
              (splitEntries (E ''MACHINE_WRITE_PRIVILEGED_GROUPS''))) (\<lambda>_.
     Inr (splitEntries (E ''MACHINE_WRITE_PRIVILEGED_GROUPS'')))"

definition check_ceilings :: "cfg_lib \<Rightarrow> config \<Rightarrow> machine_config \<Rightarrow> write_config \<Rightarrow> dn \<Rightarrow> config_error + unit" where
  "check_ceilings L cfg m w base =
     eachE (\<lambda>raw. bindE (parsed L raw) (\<lambda>d.
              bindE (checkWriteCeilingStrict L base d) (\<lambda>_.
              checkWriteCeilingOverlap L d (machineWriteIdentityDNs cfg m w) (wc_privileged w))))
       (concat (map cd_dns (wc_subtrees w)))"

definition load_limits :: "getenv \<Rightarrow> config_error + write_limits" where
  "load_limits E =
     (let (rps, e1) = ints_get E ''MACHINE_WRITE_RATE_LIMIT_RPS'' 1 1 100 None;
          (burst, e2) = ints_get E ''MACHINE_WRITE_RATE_LIMIT_BURST'' 2 1 100 e1;
          (slots, e3) = ints_get E ''MACHINE_WRITE_GLOBAL_SLOTS'' 2 1 64 e2 in
      bindE (no_error e3) (\<lambda>_. Inr \<lparr> wl_rps = rps, wl_burst = burst, wl_slots = slots \<rparr>))"

definition CheckIdempotencyQuota :: "write_config \<Rightarrow> config_error + unit" where
  "CheckIdempotencyQuota w =
     checkMachineWriteQuota DefaultMaxPerSubject DefaultMaxRecords (int (length (wc_subtrees w)))"

definition loadMachineWriteScope ::
  "cfg_lib \<Rightarrow> getenv \<Rightarrow> config \<Rightarrow> machine_config \<Rightarrow> write_config \<Rightarrow> config_error + write_config" where
  "loadMachineWriteScope L E cfg m w =
     (if \<not> mc_write_enabled m then Inr w
      else
        let known = map ml_id (mc_clients m) in
        bindE (parseMachineWriteClientDNs L ''MACHINE_WRITE_SUBTREES'' (E ''MACHINE_WRITE_SUBTREES'') known) (\<lambda>subtrees.
        bindE (checkWriteHasWriter m subtrees) (\<lambda>_.
        bindE (parseMachineWriteClientDNs L ''MACHINE_WRITE_GROUPS'' (E ''MACHINE_WRITE_GROUPS'') known) (\<lambda>groups.
        bindE (load_privileged L E) (\<lambda>privileged.
        case dl_parse (cl_dn L) (cf_base cfg) of
          None \<Rightarrow> Inl (Barred ''MACHINE_WRITE_SUBTREES'' ''LDAP_BASE_DN'')
        | Some base \<Rightarrow>
            bindE (loadMachineWriteCredScope L E cfg m
                     (w\<lparr> wc_subtrees := subtrees, wc_groups := groups, wc_privileged := privileged \<rparr>) base known) (\<lambda>w1.
            bindE (loadMachineWriteGroupSeed L E cfg m w1 base) (\<lambda>seed.
            let w2 = w1\<lparr> wc_group_seed := seed \<rparr> in
            bindE (check_ceilings L cfg m w2 base) (\<lambda>_.
            bindE (checkCredSubtrees L w2) (\<lambda>_.
            bindE (checkWriteGroups L w2) (\<lambda>_.
            bindE (checkLockNeedsPrivilegedGroups m w2) (\<lambda>_.
            bindE (load_limits E) (\<lambda>limits.
            let w3 = w2\<lparr> wc_limits := limits \<rparr> in
            bindE (CheckIdempotencyQuota w3) (\<lambda>_. Inr w3)))))))))))))"

end
