(* ===== verification/ConfigLoad.thy ===== *)
theory ConfigLoad
  imports ConfigCred
begin

text \<open>
  From the environment to a validated configuration: \<open>Load\<close> and \<open>validate\<close> with their parsers (\<open>config/config.go\<close>),
  \<open>loadIdempotency\<close> (\<open>config/idempotency.go\<close>), \<open>loadKeycloak\<close> (\<open>config/keycloak.go\<close>), \<open>sessionSecret\<close>
  (\<open>config/secrets.go\<close>) and \<open>loadMachine\<close> (\<open>config/machine.go\<close>).

  What the loader reads from disk is \<open>load_files\<close>: \<open>lf_read\<close> is \<open>os.ReadFile\<close>, \<open>lf_store\<close> what
  \<open>loadOrGenerateSecret\<close> answers for a path (\<open>SecretStore\<close> models it).
\<close>

record load_files =
  lf_read :: "string \<Rightarrow> string option"
  lf_store :: "string \<Rightarrow> config_error + string"

subsection \<open>Addresses and origins\<close>

definition validateTrustedProxies :: "cfg_lib \<Rightarrow> string \<Rightarrow> config_error + string" where
  "validateTrustedProxies L raw =
     (let t = TrimSpace raw; v = (if t = '''' then ''private'' else t) in
      if v = ''private'' \<or> v = ''none'' then Inr v
      else bindE (eachE (\<lambda>e. let entry = TrimSpace e in
                       need (entry = '''' \<or> cl_cidr L entry) (Invalid ''UI_TRUSTED_PROXIES'')) (split_on (CHR '','') v)) (\<lambda>_. Inr v))"

definition wild_host :: "string \<Rightarrow> bool" where
  "wild_host h \<longleftrightarrow> h = '''' \<or> h = ''0.0.0.0'' \<or> h = ''::''"

definition port_ok :: "string \<Rightarrow> bool" where
  "port_ok port \<longleftrightarrow> (case ParseUint port 16 of None \<Rightarrow> False | Some n \<Rightarrow> n \<noteq> 0)"

definition listener_clash :: "cfg_lib \<Rightarrow> string \<Rightarrow> string \<Rightarrow> string \<Rightarrow> bool" where
  "listener_clash L listenAddr host port =
     (case cl_hostport L listenAddr of
        None \<Rightarrow> False
      | Some (lh, lp) \<Rightarrow> lp = port \<and> (lh = host \<or> wild_host lh \<or> wild_host host))"

definition validateMetricsAddr :: "cfg_lib \<Rightarrow> string \<Rightarrow> string \<Rightarrow> config_error + string" where
  "validateMetricsAddr L raw listenAddr =
     (let v = TrimSpace raw in
      if v = '''' then Inr ''''
      else case cl_hostport L v of
        None \<Rightarrow> Inl (Invalid ''METRICS_ADDR'')
      | Some (host, port) \<Rightarrow>
          bindE (need (port_ok port) (Barred ''METRICS_ADDR'' ''port'')) (\<lambda>_.
          bindE (need (\<not> containsAny host [CHR '' '', CHR 0x09, CHR ''/'', CHR ''?'', CHR ''#'', CHR ''@''])
                   (Barred ''METRICS_ADDR'' ''host'')) (\<lambda>_.
          bindE (need (\<not> listener_clash L listenAddr host port) (Barred ''METRICS_ADDR'' ''LISTEN_ADDR'')) (\<lambda>_. Inr v))))"

text \<open>One entry of the CORS list in the form a browser sends.\<close>

definition cors_origin :: "cfg_lib \<Rightarrow> string \<Rightarrow> config_error + string" where
  "cors_origin L entry =
     bindE (need (entry \<noteq> '''') (Barred ''CORS_ALLOWED_ORIGINS'' ''empty'')) (\<lambda>_.
     bindE (need (\<not> cl_fold L entry ''null'' \<and> CHR ''*'' \<notin> set entry) (Barred ''CORS_ALLOWED_ORIGINS'' ''wildcard'')) (\<lambda>_.
     bindE (need (list_all (\<lambda>c. (of_char c :: nat) \<le> 127) entry) (Barred ''CORS_ALLOWED_ORIGINS'' ''ascii'')) (\<lambda>_.
     case cl_url L entry of
       None \<Rightarrow> Inl (Invalid ''CORS_ALLOWED_ORIGINS'')
     | Some u \<Rightarrow>
         bindE (need (\<not> containsAny entry ''?#'' \<and> ur_opaque u = '''' \<and> \<not> ur_user u \<and> ur_path u = '''' \<and> ur_hostname u \<noteq> '''' \<and>
                      (ur_scheme u = ''http'' \<or> ur_scheme u = ''https'')) (Invalid ''CORS_ALLOWED_ORIGINS'')) (\<lambda>_.
         let h = dl_lower (cl_dn L) (ur_hostname u);
             host = (if CHR '':'' \<in> set h then ''['' @ h @ '']'' else h);
             start = dl_lower (cl_dn L) (ur_scheme u) @ ''://'' @ host in
         if ur_port u = '''' \<and> \<not> has_suffix (ur_host u) '':'' then Inr start
         else case ParseUint (ur_port u) 16 of
           None \<Rightarrow> Inl (Barred ''CORS_ALLOWED_ORIGINS'' ''port'')
         | Some n \<Rightarrow>
             if n = 0 then Inl (Barred ''CORS_ALLOWED_ORIGINS'' ''port'')
             else if ur_scheme u = ''http'' \<and> n = 80 \<or> ur_scheme u = ''https'' \<and> n = 443 then Inr start
             else Inr (start @ '':'' @ itoa n)))))"

definition add_new :: "string list \<Rightarrow> string \<Rightarrow> string list" where
  "add_new out x = (if x \<in> set out then out else out @ [x])"

definition parseCORSOrigins :: "cfg_lib \<Rightarrow> string \<Rightarrow> config_error + string list" where
  "parseCORSOrigins L raw =
     (if TrimSpace raw = '''' then Inr []
      else foldE (\<lambda>e out. bindE (cors_origin L (TrimSpace e)) (\<lambda>origin. Inr (add_new out origin))) (split_on (CHR '','') raw) [])"

definition normalizeOrigin :: "cfg_lib \<Rightarrow> string \<Rightarrow> config_error + string" where
  "normalizeOrigin L raw =
     bindE (parseHTTPURL L raw False ''SSO_CALLBACK_ORIGINS'') (\<lambda>u.
     Inr (dl_lower (cl_dn L) (ur_scheme u) @ ''://'' @ dl_lower (cl_dn L) (ur_host u)))"

definition callbackOrigins :: "cfg_lib \<Rightarrow> string \<Rightarrow> config_error + string list" where
  "callbackOrigins L raw =
     foldE (\<lambda>e out. let v = TrimSpace e in
              if v = '''' then Inr out else bindE (normalizeOrigin L v) (\<lambda>origin. Inr (add_new out origin)))
       (split_on (CHR '','') raw) []"

definition backupJobTimeout :: "cfg_lib \<Rightarrow> getenv \<Rightarrow> string \<Rightarrow> config_error + duration" where
  "backupJobTimeout L E name =
     (let raw = TrimSpace (E name) in
      if raw = '''' then Inr (2 * hour_ns)
      else case ParseDuration L raw of
        None \<Rightarrow> Inl (Invalid name)
      | Some d \<Rightarrow> if d < minute_ns \<or> 24 * hour_ns < d then Inl (Invalid name) else Inr d)"

subsection \<open>Keycloak, idempotency, session secret\<close>

definition trim_right_slash :: "string \<Rightarrow> string" where
  "trim_right_slash s = rev (dropWhile (\<lambda>c. c = CHR ''/'') (rev s))"

definition loopback :: "string \<Rightarrow> bool" where
  "loopback h \<longleftrightarrow> h = ''localhost'' \<or> h = ''127.0.0.1'' \<or> h = ''::1''"

definition builtin_clients :: "string list" where
  "builtin_clients = [''broker'', ''realm-management'', ''security-admin-console'', ''admin-cli'', ''account'', ''account-console'']"

definition check_keycloak :: "cfg_lib \<Rightarrow> keycloak_config \<Rightarrow> config_error + keycloak_config" where
  "check_keycloak L c =
     (if kk_url c = ''''
      then bindE (need (\<not> (kk_client c \<noteq> '''' \<or> kk_secret c \<noteq> '''' \<or> kk_delegate c \<noteq> [])) (Missing ''KEYCLOAK_ADMIN_URL'' [])) (\<lambda>_. Inr c)
      else case cl_url L (kk_url c) of
        None \<Rightarrow> Inl (Invalid ''KEYCLOAK_ADMIN_URL'')
      | Some u \<Rightarrow>
          bindE (need (\<not> (ur_host u = '''' \<or> ur_user u \<or> ur_query u \<noteq> '''' \<or> ur_fragment u \<noteq> '''')) (Invalid ''KEYCLOAK_ADMIN_URL'')) (\<lambda>_.
          bindE (need (ur_scheme u = ''https'' \<or> kk_local_http c \<and> ur_scheme u = ''http'' \<and> loopback (ur_hostname u))
                   (Barred ''KEYCLOAK_ADMIN_URL'' ''https'')) (\<lambda>_.
          bindE (need (\<not> (kk_realm c = '''' \<or> kk_realm c = ''master'' \<or> containsAny (kk_realm c) [CHR ''/'', CHR 0x5C, CHR ''?'', CHR ''#''] \<or>
                          kk_client c = '''' \<or> kk_secret c = '''' \<or> kk_observe c = []))
                   (Missing ''KEYCLOAK_ADMIN_REALM'' [''KEYCLOAK_ADMIN_CLIENT_ID'', ''KEYCLOAK_ADMIN_CLIENT_SECRET'', ''KEYCLOAK_OBSERVE_CLIENTS''])) (\<lambda>_.
          bindE (need (\<not> (100 < length (kk_observe c) \<or> 20 < length (kk_groups c))) (Barred ''KEYCLOAK_OBSERVE_CLIENTS'' ''too many'')) (\<lambda>_.
          bindE (eachE (\<lambda>x. need (x \<notin> set builtin_clients \<and> x \<noteq> kk_client c) (Barred ''KEYCLOAK_OBSERVE_CLIENTS'' ''builtin'')) (kk_observe c)) (\<lambda>_.
          bindE (eachE (\<lambda>x. need (containsEntry (kk_observe c) x) (Barred ''KEYCLOAK_DELEGATE_CLIENTS'' ''observe'')) (kk_delegate c)) (\<lambda>_.
          bindE (need (kk_delegate c = [] \<or> kk_isolated c) (Barred ''KEYCLOAK_DELEGATE_CLIENTS'' ''isolated'')) (\<lambda>_.
          Inr c))))))))"

definition loadKeycloak :: "cfg_lib \<Rightarrow> getenv \<Rightarrow> config_error + keycloak_config" where
  "loadKeycloak L E =
     bindE (boolEnv E ''KEYCLOAK_ISOLATED_REALM'' False) (\<lambda>isolated.
     bindE (boolEnv E ''KEYCLOAK_ALLOW_LOCAL_HTTP'' False) (\<lambda>local_http.
     check_keycloak L
       \<lparr> kk_url = trim_right_slash (TrimSpace (E ''KEYCLOAK_ADMIN_URL'')), kk_realm = TrimSpace (E ''KEYCLOAK_ADMIN_REALM''),
         kk_client = TrimSpace (E ''KEYCLOAK_ADMIN_CLIENT_ID''), kk_secret = E ''KEYCLOAK_ADMIN_CLIENT_SECRET'',
         kk_observe = splitEntries (E ''KEYCLOAK_OBSERVE_CLIENTS''), kk_delegate = splitEntries (E ''KEYCLOAK_DELEGATE_CLIENTS''),
         kk_groups = splitEntries (E ''KEYCLOAK_MANAGED_GROUP_IDS''), kk_isolated = isolated, kk_local_http = local_http \<rparr>))"

definition minIdempotencyKeyLen :: nat where "minIdempotencyKeyLen = 32"

definition idempotency_ttl :: "cfg_lib \<Rightarrow> getenv \<Rightarrow> config_error + duration" where
  "idempotency_ttl L E =
     (let raw = TrimSpace (E ''UI_IDEMPOTENCY_TTL'') in
      if raw = '''' then Inr (24 * hour_ns)
      else case ParseDuration L raw of
        None \<Rightarrow> Inl (Invalid ''UI_IDEMPOTENCY_TTL'')
      | Some d \<Rightarrow> if d < minute_ns \<or> 7 * 24 * hour_ns < d then Inl (Invalid ''UI_IDEMPOTENCY_TTL'') else Inr d)"

definition loadIdempotency :: "cfg_lib \<Rightarrow> load_files \<Rightarrow> getenv \<Rightarrow> config_error + idempotency_settings" where
  "loadIdempotency L F E =
     bindE (boolEnv E ''UI_IDEMPOTENCY_ENABLED'' False) (\<lambda>on.
     bindE (idempotency_ttl L E) (\<lambda>ttl.
     let file = TrimSpace (E ''UI_IDEMPOTENCY_KEY_FILE'') in
     if file = '''' then Inr \<lparr> is_enabled = on, is_ttl = ttl, is_file = '''', is_key = '''', is_previous = '''' \<rparr>
     else
       bindE (case lf_store F file of Inl e \<Rightarrow> Inl (Barred ''UI_IDEMPOTENCY_KEY_FILE'' ''store'') | Inr v \<Rightarrow> Inr v) (\<lambda>v.
       let keys = Fields v in
       bindE (need (\<not> (length keys < 1 \<or> 2 < length keys)) (Barred ''UI_IDEMPOTENCY_KEY_FILE'' ''keys'')) (\<lambda>_.
       bindE (eachE (\<lambda>k. need (minIdempotencyKeyLen \<le> length k) (Barred ''UI_IDEMPOTENCY_KEY_FILE'' ''short'')) keys) (\<lambda>_.
       Inr \<lparr> is_enabled = on, is_ttl = ttl, is_file = file, is_key = hd keys,
             is_previous = (if length keys = 2 then keys ! 1 else '''') \<rparr>)))))"

definition defaultSessionSecretStore :: string where
  "defaultSessionSecretStore = ''/var/lib/ldapium/secrets/session-secret''"

definition sessionSecret :: "load_files \<Rightarrow> getenv \<Rightarrow> config_error + string \<times> string" where
  "sessionSecret F E =
     (let file = TrimSpace (E ''SESSION_SECRET_FILE'') in
      if file \<noteq> ''''
      then (case lf_read F file of
              None \<Rightarrow> Inl (Barred ''SESSION_SECRET_FILE'' ''read'')
            | Some b \<Rightarrow> bindE (need (32 \<le> length (TrimSpace b)) (Barred ''SESSION_SECRET_FILE'' ''short'')) (\<lambda>_. Inr (TrimSpace b, ''file'')))
      else if E ''SESSION_SECRET'' \<noteq> '''' then Inr (E ''SESSION_SECRET'', ''environment'')
      else let p = TrimSpace (E ''SESSION_SECRET_STORE'') in
           bindE (lf_store F (if p = '''' then defaultSessionSecretStore else p)) (\<lambda>v. Inr (v, ''generated_file'')))"

subsection \<open>Machine authentication\<close>

definition machine_limits :: "cfg_lib \<Rightarrow> getenv \<Rightarrow> machine_config \<Rightarrow> config_error + machine_config" where
  "machine_limits L E m =
     (let (max_ttl, d1) = durations_get L E ''MACHINE_TOKEN_MAX_TTL'' (10 * minute_ns) 1000000 hour_ns None;
          (skew, d2) = durations_get L E ''MACHINE_CLOCK_SKEW'' (30 * second_ns) 0 (60 * second_ns) d1;
          (jwks_ttl, d3) = durations_get L E ''MACHINE_JWKS_CACHE_TTL'' (10 * minute_ns) minute_ns (24 * hour_ns) d2;
          (jwks_stale, d4) = durations_get L E ''MACHINE_JWKS_MAX_STALE'' hour_ns 0 (24 * hour_ns) d3;
          (jwks_min, d5) = durations_get L E ''MACHINE_JWKS_MIN_REFRESH'' (30 * second_ns) second_ns hour_ns d4;
          (window, d6) = durations_get L E ''MACHINE_AUTH_FAILURE_WINDOW'' minute_ns second_ns hour_ns d5;
          (timeout, d7) = durations_get L E ''MACHINE_REQUEST_TIMEOUT'' (10 * second_ns) second_ns (5 * minute_ns) d6 in
      bindE (no_error d7) (\<lambda>_.
      let (limit, n1) = ints_get E ''MACHINE_AUTH_FAILURE_LIMIT'' 10 1 1000 None;
          (rps, n2) = ints_get E ''MACHINE_RATE_LIMIT_RPS'' 5 1 10000 n1;
          (burst, n3) = ints_get E ''MACHINE_RATE_LIMIT_BURST'' 10 1 10000 n2;
          (client_conc, n4) = ints_get E ''MACHINE_CLIENT_CONCURRENCY'' 4 1 1000 n3;
          (max_conc, n5) = ints_get E ''MACHINE_MAX_CONCURRENCY'' 8 1 1000 n4;
          (auth_conc, n6) = ints_get E ''MACHINE_MAX_AUTH_CONCURRENCY'' 16 1 1000 n5;
          (ip_max, n7) = ints_get E ''MACHINE_IP_LIMITER_MAX'' 10000 1 1000000 n6 in
      bindE (no_error n7) (\<lambda>_.
      Inr (m\<lparr> mc_max_ttl := max_ttl, mc_skew := skew, mc_jwks_ttl := jwks_ttl, mc_jwks_stale := jwks_stale,
              mc_jwks_min := jwks_min, mc_fail_window := window, mc_timeout := timeout, mc_fail_limit := limit, mc_rps := rps,
              mc_burst := burst, mc_client_conc := client_conc, mc_max_conc := max_conc, mc_auth_conc := auth_conc,
              mc_ip_max := ip_max \<rparr>))))"

text \<open>The settings that must be there, in the order of the error text.\<close>

definition machine_required :: "machine_config \<Rightarrow> string \<Rightarrow> string list \<Rightarrow> string list" where
  "machine_required m clientsRaw rootDNs =
     missingEnv [(mc_issuer m, ''MACHINE_OIDC_ISSUER_URL''), (mc_audience m, ''MACHINE_OIDC_AUDIENCE''),
       (clientsRaw, ''MACHINE_ALLOWED_CLIENTS''), (mc_bind_dn m, ''MACHINE_LDAP_BIND_DN''),
       (mc_bind_password m, ''MACHINE_LDAP_BIND_PASSWORD'')] @
     (if rootDNs = [] then [''MACHINE_LDAP_ROOT_DNS''] else [])"

text \<open>The token settings: issuer, audience, algorithms, ceilings, names; none of the limits.\<close>

definition machine_named :: "getenv \<Rightarrow> config \<Rightarrow> bool \<Rightarrow> bool \<Rightarrow> machine_config" where
  "machine_named E cfg writeEnabled insecure =
     (let named = TrimSpace (E ''MACHINE_OIDC_ISSUER_URL'') in
      no_machine\<lparr> mc_enabled := True, mc_write_enabled := writeEnabled,
        mc_issuer := (if named = '''' \<and> sc_enabled (cf_sso cfg) then sc_issuer (cf_sso cfg) else named), mc_insecure := insecure,
        mc_audience := TrimSpace (E ''MACHINE_OIDC_AUDIENCE''), mc_bind_dn := TrimSpace (E ''MACHINE_LDAP_BIND_DN''),
        mc_bind_password := E ''MACHINE_LDAP_BIND_PASSWORD'' \<rparr>)"

definition machine_identity :: "cfg_lib \<Rightarrow> getenv \<Rightarrow> config \<Rightarrow> bool \<Rightarrow> config_error + machine_config \<times> string list" where
  "machine_identity L E cfg writeEnabled =
     bindE (boolEnv E ''MACHINE_OIDC_INSECURE_HTTP'' False) (\<lambda>insecure.
     let m = machine_named E cfg writeEnabled insecure;
         rootDNs = splitEntries (E ''MACHINE_LDAP_ROOT_DNS'');
         clientsRaw = TrimSpace (E ''MACHINE_ALLOWED_CLIENTS'') in
     bindE (need (\<not> cl_fold L (mc_audience m) ''account'') (Barred ''MACHINE_OIDC_AUDIENCE'' ''account'')) (\<lambda>_.
     bindE (need (machine_required m clientsRaw rootDNs = []) (Missing ''MACHINE_AUTH_ENABLED'' (machine_required m clientsRaw rootDNs))) (\<lambda>_.
     bindE (validateMachineIssuer L (mc_issuer m) insecure) (\<lambda>_.
     bindE (parseMachineAlgs (E ''MACHINE_OIDC_ALGS'')) (\<lambda>algs.
     bindE (parseMachineClients clientsRaw) (\<lambda>clients.
     bindE (need (\<not> (sc_enabled (cf_sso cfg) \<and> sc_client (cf_sso cfg) \<in> set (map ml_id clients)))
              (Barred ''MACHINE_ALLOWED_CLIENTS'' ''SSO client'')) (\<lambda>_.
     Inr (m\<lparr> mc_algs := algs, mc_clients := clients, mc_sa_prefix := orDefault (E ''MACHINE_SA_USERNAME_PREFIX'') ''service-account-'' \<rparr>,
          rootDNs))))))))"

definition loadMachine :: "cfg_lib \<Rightarrow> getenv \<Rightarrow> config \<Rightarrow> config_error + config" where
  "loadMachine L E cfg =
     bindE (boolEnv E ''MACHINE_AUTH_ENABLED'' False) (\<lambda>enabled.
     bindE (loadMachineWrite E enabled) (\<lambda>writeEnabled.
     if \<not> enabled then Inr cfg
     else
       bindE (machine_identity L E cfg writeEnabled) (\<lambda>(m1, rootDNs).
       bindE (machine_limits L E m1) (\<lambda>m2.
       bindE (need (list_all (\<lambda>e. dl_parse (cl_dn L) e \<noteq> None) rootDNs) (Invalid ''MACHINE_LDAP_ROOT_DNS'')) (\<lambda>_.
       let m3 = m2\<lparr> mc_root_dns := rootDNs \<rparr> in
       bindE (checkMachineBindDN L (mc_bind_dn m3) cfg rootDNs) (\<lambda>_.
       bindE (need (cf_proxies cfg \<noteq> ''private'') (Barred ''UI_TRUSTED_PROXIES'' ''private'')) (\<lambda>_.
       bindE (loadMachineRevocation L E cfg) (\<lambda>rev_cfg.
       let m4 = m3\<lparr> mc_rev := rev_cfg \<rparr> in
       bindE (loadMachineWriteIdentities L E cfg m4) (\<lambda>w.
       let m5 = m4\<lparr> mc_write := w \<rparr> in
       bindE (loadMachineWriteScope L E cfg m5 w) (\<lambda>w'.
       Inr (cfg\<lparr> cf_machine := m5\<lparr> mc_write := w' \<rparr> \<rparr>)))))))))))"

subsection \<open>Load\<close>

definition load_budget :: "cfg_lib \<Rightarrow> getenv \<Rightarrow> string \<Rightarrow> string \<Rightarrow> string \<Rightarrow> config_error + failure_budget" where
  "load_budget L E limitVar windowVar maxVar =
     (case ParseInt (TrimSpace (orDefault (E limitVar) ''10'')) 64 of
        None \<Rightarrow> Inl (Invalid limitVar)
      | Some limit \<Rightarrow>
          bindE (need (0 \<le> limit) (Barred limitVar ''negative'')) (\<lambda>_.
          case ParseDuration L (orDefault (E windowVar) ''1m'') of
            None \<Rightarrow> Inl (Invalid windowVar)
          | Some window \<Rightarrow>
              bindE (need (0 < window) (Barred windowVar ''positive'')) (\<lambda>_.
              case ParseInt (TrimSpace (orDefault (E maxVar) ''10000'')) 64 of
                None \<Rightarrow> Inl (Invalid maxVar)
              | Some most \<Rightarrow>
                  bindE (need (1 \<le> most) (Barred maxVar ''positive'')) (\<lambda>_.
                  Inr \<lparr> fb_limit = limit, fb_window = window, fb_max = most \<rparr>))))"

definition profile_admins :: "getenv \<Rightarrow> string list" where
  "profile_admins E = filter (\<lambda>d. d \<noteq> '''') (map TrimSpace (split_on (CHR '';'') (E ''APP_PROFILES_ADMIN_DNS'')))"

definition load_backup :: "cfg_lib \<Rightarrow> getenv \<Rightarrow> config_error + backup_settings" where
  "load_backup L E =
     (let operator = TrimSpace (E ''BACKUP_OPERATOR_CONFIG'');
          pol = TrimSpace (E ''BACKUP_POLICY_PATH'');
          worker = TrimSpace (E ''BACKUP_WORKER_PATH'');
          admins = splitEntries (E ''BACKUP_ADMIN_DNS'') in
      bindE (need (\<not> (TrimSpace (E ''APP_PROFILES_PATH'') \<noteq> '''' \<and> profile_admins E = [])) (Missing ''APP_PROFILES_ADMIN_DNS'' [])) (\<lambda>_.
      bindE (need (\<not> (operator \<noteq> '''' \<and> (pol = '''' \<or> worker = '''' \<or> admins = []))) (Missing ''BACKUP_OPERATOR_CONFIG'' [])) (\<lambda>_.
      bindE (backupJobTimeout L E ''BACKUP_JOB_TIMEOUT_DATA'') (\<lambda>data_timeout.
      bindE (backupJobTimeout L E ''BACKUP_JOB_TIMEOUT_LOGS'') (\<lambda>logs_timeout.
      Inr \<lparr> bk_operator = operator, bk_policy = pol, bk_worker = worker,
            bk_python = orDefault (E ''BACKUP_PYTHON'') ''/usr/bin/python3'', bk_admins = admins,
            bk_timeout_data = data_timeout, bk_timeout_logs = logs_timeout \<rparr>)))))"

definition load_sso :: "cfg_lib \<Rightarrow> getenv \<Rightarrow> config_error + sso_config" where
  "load_sso L E =
     bindE (boolEnv E ''SSO_ENABLED'' False) (\<lambda>on.
     bindE (if on then callbackOrigins L (E ''SSO_CALLBACK_ORIGINS'') else Inr []) (\<lambda>origins.
     Inr \<lparr> sc_enabled = on, sc_issuer = TrimSpace (E ''SSO_ISSUER_URL''), sc_client = TrimSpace (E ''SSO_CLIENT_ID''),
           sc_secret = E ''SSO_CLIENT_SECRET'', sc_role = orDefault (E ''SSO_ADMIN_ROLE'') ''ldap-admin'', sc_origins = origins,
           sc_account = TrimSpace (E ''LDAP_SERVICE_ACCOUNT_DN''), sc_account_password = E ''LDAP_SERVICE_ACCOUNT_PASSWORD'' \<rparr>))"

definition or_base :: "string \<Rightarrow> string \<Rightarrow> string" where
  "or_base v base = (if v = '''' then base else v)"

definition validate :: "cfg_lib \<Rightarrow> config \<Rightarrow> config_error + unit" where
  "validate L c =
     (let missing = missingEnv [(cf_ldap_url c, ''LDAP_URL''), (cf_base c, ''LDAP_BASE_DN''), (cf_secret c, ''SESSION_SECRET'')];
          s = cf_sso c;
          sso_missing = missingEnv [(sc_issuer s, ''SSO_ISSUER_URL''), (sc_client s, ''SSO_CLIENT_ID''),
            (sc_secret s, ''SSO_CLIENT_SECRET''), (sc_account s, ''LDAP_SERVICE_ACCOUNT_DN''),
            (sc_account_password s, ''LDAP_SERVICE_ACCOUNT_PASSWORD''), (cf_user_filter c, ''LDAP_USER_SEARCH_FILTER'')] @
            (if sc_origins s = [] then [''SSO_CALLBACK_ORIGINS''] else []) in
      bindE (need (missing = []) (Missing ''environment'' missing)) (\<lambda>_.
      bindE (need (32 \<le> length (cf_secret c)) (Barred ''SESSION_SECRET'' ''short'')) (\<lambda>_.
      bindE (need (has_prefix (cf_ldap_url c) ''ldap://'' \<or> has_prefix (cf_ldap_url c) ''ldaps://'') (Barred ''LDAP_URL'' ''scheme'')) (\<lambda>_.
      if \<not> sc_enabled s then Inr ()
      else
        bindE (need (sso_missing = []) (Missing ''SSO_ENABLED'' sso_missing)) (\<lambda>_.
        bindE (parseHTTPURL L (sc_issuer s) True ''SSO_ISSUER_URL'') (\<lambda>_.
        need (TrimSpace (sc_role s) \<noteq> '''') (Barred ''SSO_ADMIN_ROLE'' ''empty'')))))))"

text \<open>The values read before the machine settings, and what is settled after them.\<close>

definition load_settings :: "cfg_lib \<Rightarrow> load_files \<Rightarrow> getenv \<Rightarrow> config_error + config" where
  "load_settings L F E =
     bindE (load_backup L E) (\<lambda>backup.
     bindE (loadKeycloak L E) (\<lambda>keycloak.
     bindE (boolEnv E ''LDAP_START_TLS'' False) (\<lambda>start_tls.
     bindE (boolEnv E ''OPENLDAP_PASSWORD_POLICY_ENABLED'' True) (\<lambda>policy_on.
     bindE (boolEnv E ''LDAP_TLS_INSECURE_SKIP_VERIFY'' False) (\<lambda>insecure.
     bindE (boolEnv E ''COOKIE_SECURE'' True) (\<lambda>cookie_secure.
     bindE (load_sso L E) (\<lambda>sso.
     case ParseDuration L (orDefault (E ''SESSION_TTL'') ''30m'') of
       None \<Rightarrow> Inl (Invalid ''SESSION_TTL'')
     | Some session_ttl \<Rightarrow>
     bindE (load_budget L E ''UI_LOGIN_FAILURE_LIMIT'' ''UI_LOGIN_FAILURE_WINDOW'' ''UI_LOGIN_LIMITER_MAX_ENTRIES'') (\<lambda>login.
     bindE (load_budget L E ''UI_PASSWORD_CHANGE_FAILURE_LIMIT'' ''UI_PASSWORD_CHANGE_FAILURE_WINDOW''
              ''UI_PASSWORD_CHANGE_LIMITER_MAX_ENTRIES'') (\<lambda>change.
     bindE (validateTrustedProxies L (E ''UI_TRUSTED_PROXIES'')) (\<lambda>proxies.
     bindE (validateMetricsAddr L (E ''METRICS_ADDR'') (orDefault (E ''LISTEN_ADDR'') '':8080'')) (\<lambda>metrics.
     bindE (loadIdempotency L F E) (\<lambda>idem.
     bindE (parseCORSOrigins L (E ''CORS_ALLOWED_ORIGINS'')) (\<lambda>origins.
     Inr \<lparr> cf_secret_source = '''', cf_backup = backup, cf_keycloak = keycloak, cf_profiles = TrimSpace (E ''APP_PROFILES_PATH''),
           cf_profile_admins = profile_admins E,
           cf_openldap = \<lparr> ol_app = orDefault (E ''APP_VERSION'') ''development'', ol_version = TrimSpace (E ''OPENLDAP_VERSION''),
             ol_hash = TrimSpace (E ''OPENLDAP_PASSWORD_HASH''), ol_policy = policy_on,
             ol_unique = TrimSpace (E ''OPENLDAP_UNIQUE_ATTRIBUTES''), ol_modules = TrimSpace (E ''OPENLDAP_MODULES''),
             ol_overlays = TrimSpace (E ''OPENLDAP_OVERLAYS'') \<rparr>,
           cf_listen = orDefault (E ''LISTEN_ADDR'') '':8080'', cf_ldap_url = TrimSpace (E ''LDAP_URL''),
           cf_base = TrimSpace (E ''LDAP_BASE_DN''), cf_user_search = TrimSpace (E ''LDAP_USER_SEARCH_BASE''),
           cf_user_filter = TrimSpace (E ''LDAP_USER_SEARCH_FILTER''), cf_group_search = TrimSpace (E ''LDAP_GROUP_SEARCH_BASE''),
           cf_user_create = TrimSpace (E ''LDAP_USER_CREATE_BASE''), cf_group_create = TrimSpace (E ''LDAP_GROUP_CREATE_BASE''),
           cf_start_tls = start_tls, cf_ca = TrimSpace (E ''LDAP_TLS_CA_CERT''), cf_insecure = insecure,
           cf_secret = E ''SESSION_SECRET'', cf_session_ttl = session_ttl, cf_cookie_secure = cookie_secure, cf_sso = sso,
           cf_login = login, cf_change = change, cf_idem = idem, cf_proxies = proxies, cf_metrics = metrics,
           cf_origins = origins, cf_machine = no_machine \<rparr>)))))))))))))"

definition Load :: "cfg_lib \<Rightarrow> load_files \<Rightarrow> getenv \<Rightarrow> config_error + config" where
  "Load L F E =
     bindE (load_settings L F E) (\<lambda>c0.
     bindE (loadMachine L E c0) (\<lambda>c1.
     let c2 = c1\<lparr> cf_user_search := or_base (cf_user_search c1) (cf_base c1), cf_group_search := or_base (cf_group_search c1) (cf_base c1),
                  cf_user_create := or_base (cf_user_create c1) (cf_base c1), cf_group_create := or_base (cf_group_create c1) (cf_base c1) \<rparr> in
     bindE (if cf_ldap_url c2 \<noteq> '''' \<and> cf_base c2 \<noteq> ''''
            then bindE (sessionSecret F E) (\<lambda>(secret, source). Inr (c2\<lparr> cf_secret := secret, cf_secret_source := source \<rparr>))
            else Inr c2) (\<lambda>c3.
     bindE (validate L c3) (\<lambda>_. Inr c3))))"

end
