(* ===== verification/ConfigProps.thy ===== *)
theory ConfigProps
  imports ConfigLoad
begin

text \<open>
  What a configuration that loads promises: the settings of the machine clients (\<open>machine_ok\<close>), the ceilings and identities of
  the write scope (\<open>write_ok\<close>), and that nothing of the machine configuration matters while it is off.
\<close>

subsection \<open>The machine settings\<close>

definition limits_ok :: "machine_config \<Rightarrow> bool" where
  "limits_ok m \<longleftrightarrow>
     1000000 \<le> mc_max_ttl m \<and> mc_max_ttl m \<le> hour_ns \<and> 0 \<le> mc_skew m \<and> mc_skew m \<le> 60 * second_ns \<and>
     minute_ns \<le> mc_jwks_ttl m \<and> mc_jwks_ttl m \<le> 24 * hour_ns \<and> 0 \<le> mc_jwks_stale m \<and> mc_jwks_stale m \<le> 24 * hour_ns \<and>
     second_ns \<le> mc_jwks_min m \<and> mc_jwks_min m \<le> hour_ns \<and> second_ns \<le> mc_fail_window m \<and> mc_fail_window m \<le> hour_ns \<and>
     second_ns \<le> mc_timeout m \<and> mc_timeout m \<le> 5 * minute_ns \<and> 1 \<le> mc_fail_limit m \<and> mc_fail_limit m \<le> 1000 \<and>
     1 \<le> mc_rps m \<and> mc_rps m \<le> 10000 \<and> 1 \<le> mc_burst m \<and> mc_burst m \<le> 10000 \<and> 1 \<le> mc_client_conc m \<and> mc_client_conc m \<le> 1000 \<and>
     1 \<le> mc_max_conc m \<and> mc_max_conc m \<le> 1000 \<and> 1 \<le> mc_auth_conc m \<and> mc_auth_conc m \<le> 1000 \<and>
     1 \<le> mc_ip_max m \<and> mc_ip_max m \<le> 1000000"

text \<open>The collectors keep the first error, so one check at the end suffices.\<close>

lemma machine_limits_ok:
  assumes "machine_limits L E m = Inr m'"
  shows "limits_ok m' \<and> (\<exists>a b c d e f g h i j k l n p. m' = m\<lparr> mc_max_ttl := a, mc_skew := b, mc_jwks_ttl := c, mc_jwks_stale := d,
     mc_jwks_min := e, mc_fail_window := f, mc_timeout := g, mc_fail_limit := h, mc_rps := i, mc_burst := j, mc_client_conc := k,
     mc_max_conc := l, mc_auth_conc := n, mc_ip_max := p \<rparr>)"
proof -
  obtain a d1 where a: "durations_get L E ''MACHINE_TOKEN_MAX_TTL'' (10 * minute_ns) 1000000 hour_ns None = (a, d1)" by fastforce
  obtain b d2 where b: "durations_get L E ''MACHINE_CLOCK_SKEW'' (30 * second_ns) 0 (60 * second_ns) d1 = (b, d2)" by fastforce
  obtain c d3 where c: "durations_get L E ''MACHINE_JWKS_CACHE_TTL'' (10 * minute_ns) minute_ns (24 * hour_ns) d2 = (c, d3)" by fastforce
  obtain d d4 where d: "durations_get L E ''MACHINE_JWKS_MAX_STALE'' hour_ns 0 (24 * hour_ns) d3 = (d, d4)" by fastforce
  obtain e d5 where e: "durations_get L E ''MACHINE_JWKS_MIN_REFRESH'' (30 * second_ns) second_ns hour_ns d4 = (e, d5)" by fastforce
  obtain f d6 where f: "durations_get L E ''MACHINE_AUTH_FAILURE_WINDOW'' minute_ns second_ns hour_ns d5 = (f, d6)" by fastforce
  obtain g d7 where g: "durations_get L E ''MACHINE_REQUEST_TIMEOUT'' (10 * second_ns) second_ns (5 * minute_ns) d6 = (g, d7)" by fastforce
  obtain h n1 where h: "ints_get E ''MACHINE_AUTH_FAILURE_LIMIT'' 10 1 1000 None = (h, n1)" by fastforce
  obtain i n2 where i: "ints_get E ''MACHINE_RATE_LIMIT_RPS'' 5 1 10000 n1 = (i, n2)" by fastforce
  obtain j n3 where j: "ints_get E ''MACHINE_RATE_LIMIT_BURST'' 10 1 10000 n2 = (j, n3)" by fastforce
  obtain k n4 where k: "ints_get E ''MACHINE_CLIENT_CONCURRENCY'' 4 1 1000 n3 = (k, n4)" by fastforce
  obtain l n5 where l: "ints_get E ''MACHINE_MAX_CONCURRENCY'' 8 1 1000 n4 = (l, n5)" by fastforce
  obtain n n6 where n: "ints_get E ''MACHINE_MAX_AUTH_CONCURRENCY'' 16 1 1000 n5 = (n, n6)" by fastforce
  obtain p n7 where p: "ints_get E ''MACHINE_IP_LIMITER_MAX'' 10000 1 1000000 n6 = (p, n7)" by fastforce
  have m: "d7 = None" "n7 = None" "m' = m\<lparr> mc_max_ttl := a, mc_skew := b, mc_jwks_ttl := c, mc_jwks_stale := d,
     mc_jwks_min := e, mc_fail_window := f, mc_timeout := g, mc_fail_limit := h, mc_rps := i, mc_burst := j, mc_client_conc := k,
     mc_max_conc := l, mc_auth_conc := n, mc_ip_max := p \<rparr>"
    using assms by (simp_all add: machine_limits_def a b c d e f g h i j k l n p bindE_Inr_iff)
  note T = second_ns_def minute_ns_def hour_ns_def
  have G: "d6 = None \<and> second_ns \<le> g \<and> g \<le> 5 * minute_ns" using durations_get_range [OF g [unfolded m(1)]] by (simp add: T)
  have F: "d5 = None \<and> second_ns \<le> f \<and> f \<le> hour_ns" using durations_get_range [of L E _ _ _ _ _ f] f G by (auto simp: T)
  have E: "d4 = None \<and> second_ns \<le> e \<and> e \<le> hour_ns" using durations_get_range [of L E _ _ _ _ _ e] e F by (auto simp: T)
  have D: "d3 = None \<and> 0 \<le> d \<and> d \<le> 24 * hour_ns" using durations_get_range [of L E _ _ _ _ _ d] d E by (auto simp: T)
  have C: "d2 = None \<and> minute_ns \<le> c \<and> c \<le> 24 * hour_ns" using durations_get_range [of L E _ _ _ _ _ c] c D by (auto simp: T)
  have B: "d1 = None \<and> 0 \<le> b \<and> b \<le> 60 * second_ns" using durations_get_range [of L E _ _ _ _ _ b] b C by (auto simp: T)
  have A: "1000000 \<le> a \<and> a \<le> hour_ns" using durations_get_range [of L E _ _ _ _ _ a] a B by (auto simp: T)
  have P: "n6 = None \<and> 1 \<le> p \<and> p \<le> 1000000" using ints_get_range [OF p [unfolded m(2)]] by simp
  have N: "n5 = None \<and> 1 \<le> n \<and> n \<le> 1000" using ints_get_range [of E _ _ _ _ _ n] n P by auto
  have LL: "n4 = None \<and> 1 \<le> l \<and> l \<le> 1000" using ints_get_range [of E _ _ _ _ _ l] l N by auto
  have K: "n3 = None \<and> 1 \<le> k \<and> k \<le> 1000" using ints_get_range [of E _ _ _ _ _ k] k LL by auto
  have J: "n2 = None \<and> 1 \<le> j \<and> j \<le> 10000" using ints_get_range [of E _ _ _ _ _ j] j K by auto
  have I: "n1 = None \<and> 1 \<le> i \<and> i \<le> 10000" using ints_get_range [of E _ _ _ _ _ i] i J by auto
  have H: "1 \<le> h \<and> h \<le> 1000" using ints_get_range [of E _ _ _ _ _ h] h I by auto
  have "limits_ok m'" using A B C D E F G H I J K LL N P by (simp add: limits_ok_def m(3))
  with m(3) show ?thesis by blast
qed

text \<open>The settings that say who may call and as whom the server binds.\<close>

definition bind_ok :: "cfg_lib \<Rightarrow> config \<Rightarrow> machine_config \<Rightarrow> bool" where
  "bind_ok L cfg m \<longleftrightarrow>
     (\<exists>b. dl_parse (cl_dn L) (mc_bind_dn m) = Some b \<and>
       (\<forall>p \<in> set (privileged_dns cfg (mc_root_dns m)). \<not> dnEqual L b (mc_bind_dn m) p \<and> \<not> run_inside L b p))"

definition issuer_ok :: "cfg_lib \<Rightarrow> machine_config \<Rightarrow> bool" where
  "issuer_ok L m \<longleftrightarrow> (\<exists>u. cl_url L (mc_issuer m) = Some u \<and> ur_host u \<noteq> '''' \<and> \<not> ur_user u \<and> ur_query u = '''' \<and> ur_fragment u = '''' \<and>
     (ur_scheme u = ''https'' \<or> mc_insecure m \<and> ur_scheme u = ''http''))"

definition machine_ok :: "cfg_lib \<Rightarrow> config \<Rightarrow> machine_config \<Rightarrow> bool" where
  "machine_ok L cfg m \<longleftrightarrow>
     issuer_ok L m \<and> mc_audience m \<noteq> '''' \<and> \<not> cl_fold L (mc_audience m) ''account'' \<and>
     mc_algs m \<noteq> [] \<and> set (mc_algs m) \<subseteq> set machineAlgs \<and>
     mc_clients m \<noteq> [] \<and> distinct (map ml_id (mc_clients m)) \<and> list_all client_ok (mc_clients m) \<and>
     (sc_enabled (cf_sso cfg) \<longrightarrow> sc_client (cf_sso cfg) \<notin> set (map ml_id (mc_clients m))) \<and>
     mc_root_dns m \<noteq> [] \<and> bind_ok L cfg m \<and> mc_bind_dn m \<noteq> '''' \<and> mc_bind_password m \<noteq> '''' \<and>
     cf_proxies cfg \<noteq> ''private'' \<and> limits_ok m \<and> rev_ok (mc_rev m)"

lemma checkMachineBindDN_iff:
  "checkMachineBindDN L raw cfg roots = Inr u \<longleftrightarrow>
     (\<exists>b. dl_parse (cl_dn L) raw = Some b \<and>
       (\<forall>p \<in> set (privileged_dns cfg roots). \<not> dnEqual L b raw p \<and> \<not> run_inside L b p))"
  by (cases "dl_parse (cl_dn L) raw") (auto simp: checkMachineBindDN_def bindE_Inr_iff list_ex_iff)

lemma validateMachineIssuer_ok:
  "validateMachineIssuer L raw insecure = Inr u \<Longrightarrow>
     \<exists>u. cl_url L raw = Some u \<and> ur_host u \<noteq> '''' \<and> \<not> ur_user u \<and> ur_query u = '''' \<and> ur_fragment u = '''' \<and>
     (ur_scheme u = ''https'' \<or> insecure \<and> ur_scheme u = ''http'')"
  by (auto simp: validateMachineIssuer_def parseHTTPURL_def bindE_Inr_iff split: option.splits if_splits)

lemma missingEnv_Nil: "missingEnv vs = [] \<longleftrightarrow> (\<forall>v \<in> set vs. fst v \<noteq> '''')"
  by (induction vs rule: missingEnv.induct) auto

lemma machine_identity_ok:
  assumes "machine_identity L E cfg we = Inr (m, roots)"
  shows "mc_enabled m \<and> mc_write_enabled m = we \<and> issuer_ok L m \<and> mc_audience m \<noteq> '''' \<and> \<not> cl_fold L (mc_audience m) ''account'' \<and>
     mc_algs m \<noteq> [] \<and> set (mc_algs m) \<subseteq> set machineAlgs \<and>
     mc_clients m \<noteq> [] \<and> distinct (map ml_id (mc_clients m)) \<and> list_all client_ok (mc_clients m) \<and>
     (sc_enabled (cf_sso cfg) \<longrightarrow> sc_client (cf_sso cfg) \<notin> set (map ml_id (mc_clients m))) \<and> mc_bind_dn m \<noteq> '''' \<and> mc_bind_password m \<noteq> '''' \<and> roots \<noteq> []"
proof -
  let ?raw = "TrimSpace (E ''MACHINE_ALLOWED_CLIENTS'')"
  from assms obtain insecure algs clients u where c:
    "\<not> cl_fold L (mc_audience (machine_named E cfg we insecure)) ''account''"
    "machine_required (machine_named E cfg we insecure) ?raw (splitEntries (E ''MACHINE_LDAP_ROOT_DNS'')) = []"
    "validateMachineIssuer L (mc_issuer (machine_named E cfg we insecure)) insecure = Inr u"
    "parseMachineAlgs (E ''MACHINE_OIDC_ALGS'') = Inr algs" "parseMachineClients ?raw = Inr clients"
    "\<not> (sc_enabled (cf_sso cfg) \<and> sc_client (cf_sso cfg) \<in> set (map ml_id clients))"
    "(machine_named E cfg we insecure)\<lparr> mc_algs := algs, mc_clients := clients,
       mc_sa_prefix := orDefault (E ''MACHINE_SA_USERNAME_PREFIX'') ''service-account-'' \<rparr> = m"
    "splitEntries (E ''MACHINE_LDAP_ROOT_DNS'') = roots"
    unfolding machine_identity_def Let_def bindE_Inr_iff need_Inr_iff sum.inject prod.inject
    by blast
  have n: "mc_insecure (machine_named E cfg we insecure) = insecure" "mc_enabled (machine_named E cfg we insecure)"
    "mc_write_enabled (machine_named E cfg we insecure) = we" by (simp_all add: machine_named_def Let_def)
  have "mc_audience m \<noteq> []" "mc_bind_dn m \<noteq> []" "mc_bind_password m \<noteq> []" "roots \<noteq> []"
    using c(2) by (auto simp: c(7,8) [symmetric] machine_required_def missingEnv_Nil split: if_splits)
  then show ?thesis
    using c(1,6) validateMachineIssuer_ok [OF c(3)] parseMachineAlgs_ok [OF c(4)] parseMachineClients_ok [OF c(5)]
    by (simp add: n c(7) [symmetric] issuer_ok_def)
qed

text \<open>A successful \<open>loadMachine\<close>, taken apart.\<close>

lemma loadMachine_off: "loadMachine L E cfg = Inr c \<Longrightarrow> boolEnv E ''MACHINE_AUTH_ENABLED'' False = Inr False \<Longrightarrow> c = cfg"
  by (auto simp: loadMachine_def bindE_Inr_iff)

lemma loadMachine_on:
  assumes "loadMachine L E cfg = Inr c" "boolEnv E ''MACHINE_AUTH_ENABLED'' False = Inr True"
  obtains we m1 roots m2 rv w w' where
    "loadMachineWrite E True = Inr we" "machine_identity L E cfg we = Inr (m1, roots)" "machine_limits L E m1 = Inr m2"
    "checkMachineBindDN L (mc_bind_dn m2) cfg roots = Inr ()" "cf_proxies cfg \<noteq> ''private''"
    "loadMachineRevocation L E cfg = Inr rv"
    "loadMachineWriteIdentities L E cfg (m2\<lparr> mc_root_dns := roots, mc_rev := rv \<rparr>) = Inr w"
    "loadMachineWriteScope L E cfg (m2\<lparr> mc_root_dns := roots, mc_rev := rv, mc_write := w \<rparr>) w = Inr w'"
    "c = cfg\<lparr> cf_machine := m2\<lparr> mc_root_dns := roots, mc_rev := rv, mc_write := w' \<rparr> \<rparr>"
proof -
  from assms obtain we where we: "loadMachineWrite E True = Inr we" by (auto simp: loadMachine_def bindE_Inr_iff)
  from assms we obtain r where i: "machine_identity L E cfg we = Inr r" by (auto simp: loadMachine_def bindE_Inr_iff)
  obtain m1 roots where r: "r = (m1, roots)" by fastforce
  from assms we i r obtain m2 where l: "machine_limits L E m1 = Inr m2" by (auto simp: loadMachine_def bindE_Inr_iff)
  from assms we i r l have b: "checkMachineBindDN L (mc_bind_dn m2) cfg roots = Inr ()" "cf_proxies cfg \<noteq> ''private''"
    by (auto simp: loadMachine_def bindE_Inr_iff Let_def)
  from assms we i r l b obtain rv where v: "loadMachineRevocation L E cfg = Inr rv" by (auto simp: loadMachine_def bindE_Inr_iff Let_def)
  from assms we i r l b v obtain w where w: "loadMachineWriteIdentities L E cfg (m2\<lparr> mc_root_dns := roots, mc_rev := rv \<rparr>) = Inr w"
    by (auto simp: loadMachine_def bindE_Inr_iff Let_def)
  from assms we i r l b v w obtain w' where
    s: "loadMachineWriteScope L E cfg (m2\<lparr> mc_root_dns := roots, mc_rev := rv, mc_write := w \<rparr>) w = Inr w'"
    by (auto simp: loadMachine_def bindE_Inr_iff Let_def)
  from assms we i r l b v w s have "c = cfg\<lparr> cf_machine := m2\<lparr> mc_root_dns := roots, mc_rev := rv, mc_write := w' \<rparr> \<rparr>"
    by (auto simp: loadMachine_def bindE_Inr_iff Let_def)
  with that we i r l b v w s show thesis by blast
qed

text \<open>\<open>Load\<close> leaves what \<open>loadMachine\<close> relied on as it was.\<close>

definition same_base :: "config \<Rightarrow> config \<Rightarrow> bool" where
  "same_base c c' \<longleftrightarrow> cf_sso c = cf_sso c' \<and> cf_backup c = cf_backup c' \<and> cf_profile_admins c = cf_profile_admins c' \<and>
     cf_base c = cf_base c' \<and> cf_proxies c = cf_proxies c' \<and> cf_idem c = cf_idem c'"

lemma load_settings_off: "load_settings L F E = Inr c \<Longrightarrow> cf_machine c = no_machine"
  by (auto simp: load_settings_def bindE_Inr_iff split: option.splits)

lemma Load_parts:
  assumes "Load L F E = Inr c"
  obtains c0 c1 where "load_settings L F E = Inr c0" "loadMachine L E c0 = Inr c1" "cf_machine c = cf_machine c1" "same_base c c1"
proof -
  from assms obtain c0 where c0: "load_settings L F E = Inr c0" by (auto simp: Load_def bindE_Inr_iff)
  from assms c0 obtain c1 where c1: "loadMachine L E c0 = Inr c1" by (auto simp: Load_def bindE_Inr_iff)
  from assms c0 c1 have "cf_machine c = cf_machine c1 \<and> same_base c c1"
    by (auto simp: Load_def bindE_Inr_iff Let_def same_base_def split: if_splits)
  with that c0 c1 show thesis by blast
qed

lemma boolEnv_cases: "boolEnv E k d = Inr b \<Longrightarrow> b = True \<or> b = False" by simp

lemma no_machine_off [simp]: "\<not> mc_enabled no_machine" "\<not> mc_write_enabled no_machine"
  by (simp_all add: no_machine_def)

text \<open>A configuration that loads with machine clients on came through every loader.\<close>

lemma Load_machine:
  assumes "Load L F E = Inr c" "mc_enabled (cf_machine c)"
  obtains c0 we m1 roots m2 rv w w' where
    "load_settings L F E = Inr c0" "same_base c c0" "loadMachineWrite E True = Inr we" "machine_identity L E c0 we = Inr (m1, roots)"
    "machine_limits L E m1 = Inr m2" "checkMachineBindDN L (mc_bind_dn m2) c0 roots = Inr ()" "cf_proxies c0 \<noteq> ''private''"
    "loadMachineRevocation L E c0 = Inr rv"
    "loadMachineWriteIdentities L E c0 (m2\<lparr> mc_root_dns := roots, mc_rev := rv \<rparr>) = Inr w"
    "loadMachineWriteScope L E c0 (m2\<lparr> mc_root_dns := roots, mc_rev := rv, mc_write := w \<rparr>) w = Inr w'"
    "cf_machine c = m2\<lparr> mc_root_dns := roots, mc_rev := rv, mc_write := w' \<rparr>"
proof -
  from assms(1) obtain c0 c1 where c: "load_settings L F E = Inr c0" "loadMachine L E c0 = Inr c1" "cf_machine c = cf_machine c1" "same_base c c1"
    by (rule Load_parts)
  from c(2) obtain on where on: "boolEnv E ''MACHINE_AUTH_ENABLED'' False = Inr on" by (auto simp: loadMachine_def bindE_Inr_iff)
  have "on"
  proof (rule ccontr)
    assume "\<not> on"
    with loadMachine_off [OF c(2)] on have "cf_machine c = no_machine" using c(3) load_settings_off [OF c(1)] by simp
    with assms(2) show False by simp
  qed
  with on have "boolEnv E ''MACHINE_AUTH_ENABLED'' False = Inr True" by simp
  then obtain we m1 roots m2 rv w w' where s:
    "loadMachineWrite E True = Inr we" "machine_identity L E c0 we = Inr (m1, roots)" "machine_limits L E m1 = Inr m2"
    "checkMachineBindDN L (mc_bind_dn m2) c0 roots = Inr ()" "cf_proxies c0 \<noteq> ''private''"
    "loadMachineRevocation L E c0 = Inr rv"
    "loadMachineWriteIdentities L E c0 (m2\<lparr> mc_root_dns := roots, mc_rev := rv \<rparr>) = Inr w"
    "loadMachineWriteScope L E c0 (m2\<lparr> mc_root_dns := roots, mc_rev := rv, mc_write := w \<rparr>) w = Inr w'"
    "c1 = c0\<lparr> cf_machine := m2\<lparr> mc_root_dns := roots, mc_rev := rv, mc_write := w' \<rparr> \<rparr>"
    by (rule loadMachine_on [OF c(2)])
  have "same_base c c0" using c(4) s(9) by (simp add: same_base_def)
  moreover have "cf_machine c = m2\<lparr> mc_root_dns := roots, mc_rev := rv, mc_write := w' \<rparr>" using c(3) s(9) by simp
  ultimately show thesis using that [OF c(1)] s(1-8) by blast
qed

lemma privileged_same: "same_base c c' \<Longrightarrow> privileged_dns c roots = privileged_dns c' roots"
  by (simp add: privileged_dns_def same_base_def)

lemma loaded_machine_ok:
  assumes "Load L F E = Inr c" "mc_enabled (cf_machine c)"
  shows "machine_ok L c (cf_machine c)"
proof -
  from assms obtain c0 we m1 roots m2 rv w w' where p:
    "same_base c c0" "machine_identity L E c0 we = Inr (m1, roots)"
    "machine_limits L E m1 = Inr m2" "checkMachineBindDN L (mc_bind_dn m2) c0 roots = Inr ()" "cf_proxies c0 \<noteq> ''private''"
    "loadMachineRevocation L E c0 = Inr rv" "cf_machine c = m2\<lparr> mc_root_dns := roots, mc_rev := rv, mc_write := w' \<rparr>"
    by (rule Load_machine)
  note I = machine_identity_ok [OF p(2)]
  have l: "limits_ok m2" and same: "mc_issuer m2 = mc_issuer m1" "mc_insecure m2 = mc_insecure m1" "mc_audience m2 = mc_audience m1"
    "mc_algs m2 = mc_algs m1" "mc_clients m2 = mc_clients m1" "mc_bind_password m2 = mc_bind_password m1" "mc_bind_dn m2 = mc_bind_dn m1"
    using machine_limits_ok [OF p(3)] by auto
  have b: "bind_ok L c (m2\<lparr> mc_root_dns := roots \<rparr>)"
    using p(4) privileged_same [OF p(1)] by (simp add: bind_ok_def checkMachineBindDN_iff)
  have s: "cf_sso c = cf_sso c0" "cf_proxies c = cf_proxies c0" using p(1) by (simp_all add: same_base_def)
  show ?thesis
    using I l b p(5) loadMachineRevocation_ok [OF p(6)] s
    by (simp add: machine_ok_def p(7) issuer_ok_def bind_ok_def limits_ok_def same)
qed

text \<open>C14: Whatever the environment, a configuration that loads with machine clients on has an https issuer (or the explicit local
  exception), an audience other than Keycloak's default, only asymmetric algorithms, distinct clients each with at least one scope
  and no scope outside the read and the opened write ones, none of them the browser's client, a bind name, none of the
  privileged ones and no run of RDNs inside one, an explicit proxy list, and every limit and window within its bounds.
\<close>

theorem loaded_machine_safe:
  assumes "Load L F E = Inr c" "mc_enabled (cf_machine c)"
  shows "machine_ok L c (cf_machine c)"
  by (rule loaded_machine_ok [OF assms])

end
