(* ===== verification/ConfigWriteProps.thy ===== *)
theory ConfigWriteProps
  imports ConfigProps
begin

text \<open>
  What a loaded write scope promises: each identity is apart from every other, each ceiling lies strictly inside the base and clear of
  every identity, each writable group and each credential subtree lies inside a ceiling of its own client.
\<close>

subsection \<open>Client lists\<close>

definition dns_ok :: "cfg_lib \<Rightarrow> string list \<Rightarrow> client_dns \<Rightarrow> bool" where
  "dns_ok L known e \<longleftrightarrow> cd_id e \<in> set known \<and> cd_dns e \<noteq> [] \<and> length (cd_dns e) \<le> machineWriteMaxDNsPerClient \<and>
     (\<forall>raw \<in> set (cd_dns e). canonicalWriteDN L raw \<noteq> None)"

lemma dn_step_ok: "dn_step L name raw a = Inr b \<Longrightarrow> b = a @ [raw] \<and> canonicalWriteDN L raw \<noteq> None"
  by (auto simp: dn_step_def bindE_Inr_iff)

lemma client_dns_step_ok:
  assumes "client_dns_step L name known raw a = Inr b" "distinct (map cd_id a) \<and> list_all (dns_ok L known) a"
  shows "distinct (map cd_id b) \<and> list_all (dns_ok L known) b"
proof (cases "TrimSpace raw = ''''")
  case True
  with assms show ?thesis by (simp add: client_dns_step_def)
next
  case False
  obtain k lst ok where c: "cut_at (CHR ''='') (TrimSpace raw) = (k, lst, ok)" by (metis surj_pair)
  with False assms(1) obtain dns where s: "TrimSpace k \<in> set known" "TrimSpace k \<notin> set (map cd_id a)"
    "foldE (dn_step L name) (split_on (CHR ''|'') lst) [] = Inr dns" "length dns \<le> machineWriteMaxDNsPerClient"
    "b = a @ [\<lparr> cd_id = TrimSpace k, cd_dns = dns \<rparr>]"
    by (auto simp: client_dns_step_def Let_def bindE_Inr_iff)
  have "\<forall>raw \<in> set dns. canonicalWriteDN L raw \<noteq> None"
    by (rule foldE_invariant [OF s(3)]) (use dn_step_ok in \<open>auto simp: dest!: dn_step_ok\<close>)
  moreover have "dns \<noteq> []"
    using foldE_each [OF s(3) hd_in_set [OF split_on_not_Nil], of "\<lambda>z. z \<noteq> []"] dn_step_ok by blast
  ultimately show ?thesis using assms(2) s by (auto simp: dns_ok_def)
qed

lemma parseMachineWriteClientDNs_ok:
  assumes "parseMachineWriteClientDNs L name raw known = Inr out"
  shows "distinct (map cd_id out) \<and> list_all (dns_ok L known) out"
  by (rule foldE_invariant [OF assms [unfolded parseMachineWriteClientDNs_def]])
    (auto intro: client_dns_step_ok [THEN conjunct1] client_dns_step_ok [THEN conjunct2])

lemma canonical_parse: "canonicalWriteDN L raw = Some d \<Longrightarrow> dl_parse (cl_dn L) raw = Some d"
  by (auto simp: canonicalWriteDN_def split: if_splits option.splits)

lemma parsed_Inr [simp]: "parsed L raw = Inr d \<longleftrightarrow> dl_parse (cl_dn L) raw = Some d"
  by (simp add: parsed_def split: option.split)

subsection \<open>Ceilings, groups, subtrees\<close>

text \<open>A ceiling is inside the base, clear of the identities, and neither a privileged group nor below one.\<close>

definition ceiling_ok :: "cfg_lib \<Rightarrow> dn \<Rightarrow> string list \<Rightarrow> string list \<Rightarrow> string \<Rightarrow> bool" where
  "ceiling_ok L base identities groups raw \<longleftrightarrow>
     (\<exists>b. dl_parse (cl_dn L) raw = Some b \<and> dl_anc (cl_dn L) base b \<and>
       (\<forall>i \<in> set identities. \<exists>p. dl_parse (cl_dn L) i = Some p \<and>
          \<not> dl_eq (cl_dn L) p b \<and> \<not> dl_anc (cl_dn L) p b \<and> \<not> dl_anc (cl_dn L) b p) \<and>
       (\<forall>g \<in> set groups. \<exists>p. dl_parse (cl_dn L) g = Some p \<and> \<not> dl_eq (cl_dn L) p b \<and> \<not> dl_anc (cl_dn L) p b))"

lemma overlap_iff:
  "checkWriteCeilingOverlap L b identities groups = Inr u \<longleftrightarrow>
     (\<forall>i \<in> set identities. \<exists>p. dl_parse (cl_dn L) i = Some p \<and>
        \<not> dl_eq (cl_dn L) p b \<and> \<not> dl_anc (cl_dn L) p b \<and> \<not> dl_anc (cl_dn L) b p) \<and>
     (\<forall>g \<in> set groups. \<exists>p. dl_parse (cl_dn L) g = Some p \<and> \<not> dl_eq (cl_dn L) p b \<and> \<not> dl_anc (cl_dn L) p b)"
proof -
  have "(case dl_parse (cl_dn L) raw of None \<Rightarrow> Inl e | Some p \<Rightarrow> need (P p) e') = Inr () \<longleftrightarrow> (\<exists>p. dl_parse (cl_dn L) raw = Some p \<and> P p)"
    for raw P and e e' :: config_error
    by (simp split: option.split)
  then show ?thesis by (simp add: checkWriteCeilingOverlap_def bindE_Inr_iff eachE_Inr_iff)
qed

lemma check_ceilings_ok:
  "check_ceilings L cfg m w base = Inr u \<Longrightarrow> e \<in> set (wc_subtrees w) \<Longrightarrow> raw \<in> set (cd_dns e) \<Longrightarrow>
     ceiling_ok L base (machineWriteIdentityDNs cfg m w) (wc_privileged w) raw"
  unfolding check_ceilings_def eachE_Inr_iff ceiling_ok_def
  by (fastforce simp: bindE_Inr_iff checkWriteCeilingStrict_def overlap_iff)

lemma parse_ceilings_members:
  assumes "parse_ceilings L entries = Inr cs" "(cid, d) \<in> set cs"
  shows "\<exists>e \<in> set entries. cd_id e = cid \<and> (\<exists>raw \<in> set (cd_dns e). dl_parse (cl_dn L) raw = Some d)"
proof -
  let ?f = "\<lambda>(cid, raw) out. bindE (parsed L raw) (\<lambda>d. Inr (out @ [(cid, d)]))"
  have "\<forall>x \<in> set cs. \<exists>e \<in> set entries. cd_id e = fst x \<and> (\<exists>raw \<in> set (cd_dns e). dl_parse (cl_dn L) raw = Some (snd x))"
    by (rule foldE_invariant [OF assms(1) [unfolded parse_ceilings_def]]) (simp, fastforce simp: bindE_Inr_iff)
  with assms(2) show ?thesis by fastforce
qed

text \<open>A name inside one of its client's ceilings, and neither a privileged group nor below one.\<close>

definition confined :: "cfg_lib \<Rightarrow> (dn \<Rightarrow> dn \<Rightarrow> bool) \<Rightarrow> client_dns list \<Rightarrow> string list \<Rightarrow> string \<Rightarrow> string \<Rightarrow> bool" where
  "confined L within subtrees privileged cid raw \<longleftrightarrow>
     (\<exists>d. dl_parse (cl_dn L) raw = Some d \<and>
       (\<exists>e \<in> set subtrees. cd_id e = cid \<and> (\<exists>c b. c \<in> set (cd_dns e) \<and> dl_parse (cl_dn L) c = Some b \<and> within b d)) \<and>
       (\<forall>g \<in> set privileged. \<exists>p. dl_parse (cl_dn L) g = Some p \<and> \<not> dl_eq (cl_dn L) p d \<and> \<not> dl_anc (cl_dn L) p d))"

lemma inside_ceilings_ok:
  assumes "inside_ceilings L within name privileged cs e = Inr u" "parse_ceilings L subtrees = Inr cs" "raw \<in> set (cd_dns e)"
  shows "confined L within subtrees privileged (cd_id e) raw"
proof -
  obtain g where g: "dl_parse (cl_dn L) raw = Some g" "list_ex (\<lambda>c. within c g) (ceilings_of cs (cd_id e))"
    "\<forall>r \<in> set privileged. \<exists>p. dl_parse (cl_dn L) r = Some p \<and> \<not> dl_eq (cl_dn L) p g \<and> \<not> dl_anc (cl_dn L) p g"
    using assms(1,3) by (fastforce simp: inside_ceilings_def eachE_Inr_iff bindE_Inr_iff)
  then obtain c where c: "(cd_id e, c) \<in> set cs" "within c g" by (auto simp: ceilings_of_def list_ex_iff)
  with parse_ceilings_members [OF assms(2) c(1)] g show ?thesis unfolding confined_def by blast
qed

lemma checkWriteGroups_ok:
  assumes "checkWriteGroups L w = Inr u" "e \<in> set (wc_groups w)" "raw \<in> set (cd_dns e)"
  shows "confined L (dl_anc (cl_dn L)) (wc_subtrees w) (wc_privileged w) (cd_id e) raw"
proof -
  obtain cs where cs: "parse_ceilings L (wc_subtrees w) = Inr cs"
    "inside_ceilings L (dl_anc (cl_dn L)) ''MACHINE_WRITE_GROUPS'' (wc_privileged w) cs e = Inr ()"
    using assms(1,2) by (fastforce simp: checkWriteGroups_def bindE_Inr_iff eachE_Inr_iff)
  show ?thesis by (rule inside_ceilings_ok [OF cs(2,1) assms(3)])
qed

lemma checkCredSubtrees_ok:
  assumes "checkCredSubtrees L w = Inr u" "e \<in> set (wc_cred_subtrees w)" "raw \<in> set (cd_dns e)"
  shows "confined L (\<lambda>c d. dl_eq (cl_dn L) c d \<or> dl_anc (cl_dn L) c d) (wc_subtrees w) (wc_privileged w) (cd_id e) raw"
proof -
  obtain cs where cs: "parse_ceilings L (wc_subtrees w) = Inr cs"
    "inside_ceilings L (\<lambda>c d. dl_eq (cl_dn L) c d \<or> dl_anc (cl_dn L) c d) ''MACHINE_WRITE_CRED_SUBTREES'' (wc_privileged w) cs e = Inr ()"
    using assms(1,2) by (fastforce simp: checkCredSubtrees_def bindE_Inr_iff eachE_Inr_iff)
  show ?thesis by (rule inside_ceilings_ok [OF cs(2,1) assms(3)])
qed

subsection \<open>The whole write scope\<close>

definition limits_in_range :: "write_limits \<Rightarrow> bool" where
  "limits_in_range l \<longleftrightarrow> 1 \<le> wl_rps l \<and> wl_rps l \<le> 100 \<and> 1 \<le> wl_burst l \<and> wl_burst l \<le> 100 \<and> 1 \<le> wl_slots l \<and> wl_slots l \<le> 64"

lemma load_limits_ok:
  assumes "load_limits E = Inr l"
  shows "limits_in_range l"
proof -
  obtain rps e1 where r: "ints_get E ''MACHINE_WRITE_RATE_LIMIT_RPS'' 1 1 100 None = (rps, e1)" by fastforce
  obtain burst e2 where b: "ints_get E ''MACHINE_WRITE_RATE_LIMIT_BURST'' 2 1 100 e1 = (burst, e2)" by fastforce
  obtain slots e3 where s: "ints_get E ''MACHINE_WRITE_GLOBAL_SLOTS'' 2 1 64 e2 = (slots, e3)" by fastforce
  have l: "e3 = None" "l = \<lparr> wl_rps = rps, wl_burst = burst, wl_slots = slots \<rparr>"
    using assms by (auto simp: load_limits_def r b s bindE_Inr_iff)
  have S: "e2 = None \<and> 1 \<le> slots \<and> slots \<le> 64" using ints_get_range [OF s [unfolded l(1)]] by simp
  have B: "e1 = None \<and> 1 \<le> burst \<and> burst \<le> 100" using ints_get_range [of E _ _ _ _ _ burst] b S by auto
  have "1 \<le> rps \<and> rps \<le> 100" using ints_get_range [of E _ _ _ _ _ rps] r B by auto
  with S B show ?thesis by (simp add: limits_in_range_def l(2))
qed

text \<open>What the credential scope leaves alone, and its own bounds.\<close>

definition cred_ok :: "cfg_lib \<Rightarrow> string list \<Rightarrow> write_config \<Rightarrow> bool" where
  "cred_ok L known w \<longleftrightarrow> (wc_cred_enabled w \<longrightarrow> wc_privileged w \<noteq> [] \<and> wc_cred_subtrees w \<noteq> [] \<and>
     list_all (dns_ok L known) (wc_cred_subtrees w) \<and>
     12 \<le> wc_cred_min_length w \<and> wc_cred_min_length w \<le> 1024 \<and> 1 \<le> wc_cred_rate w \<and> wc_cred_rate w \<le> 10)"

lemma loadMachineWriteCredScope_ok:
  assumes "loadMachineWriteCredScope L E cfg m w base known = Inr w'"
  shows "cred_ok L known w' \<and> wc_subtrees w' = wc_subtrees w \<and> wc_groups w' = wc_groups w \<and> wc_privileged w' = wc_privileged w \<and>
    wc_data w' = wc_data w \<and> wc_lock_enabled w' = wc_lock_enabled w \<and> wc_lock w' = wc_lock w \<and> wc_cred_enabled w' = wc_cred_enabled w \<and>
    wc_cred w' = wc_cred w \<and> wc_reader w' = wc_reader w"
proof (cases "wc_cred_enabled w")
  case False
  with assms show ?thesis by (auto simp: loadMachineWriteCredScope_def cred_ok_def)
next
  case True
  obtain mn e1 where mn: "ints_get E ''MACHINE_WRITE_CRED_MIN_LENGTH'' credMinLengthDefault credMinLengthDefault credMinLengthMax None = (mn, e1)"
    by fastforce
  obtain rate e2 where rate: "ints_get E ''MACHINE_WRITE_CRED_RATE_LIMIT_RPS'' 1 1 credRateMax e1 = (rate, e2)" by fastforce
  obtain ttl e3 where ttl: "durations_get L E ''MACHINE_WRITE_CRED_PENDING_TTL'' (24 * hour_ns) hour_ns (720 * hour_ns) None = (ttl, e3)"
    by fastforce
  obtain subtrees policies pending canaries where w:
    "wc_privileged w \<noteq> []" "parseMachineWriteClientDNs L ''MACHINE_WRITE_CRED_SUBTREES'' (E ''MACHINE_WRITE_CRED_SUBTREES'') known = Inr subtrees"
    "subtrees \<noteq> []" "e2 = None"
    "w' = w\<lparr> wc_cred_subtrees := subtrees, wc_cred_min_length := mn, wc_cred_policies := policies, wc_cred_pending_policy := pending,
       wc_cred_rate := rate, wc_pending_ttl := ttl, wc_canaries := canaries \<rparr>"
    using assms True by (auto simp: loadMachineWriteCredScope_def mn rate ttl bindE_Inr_iff Let_def split: prod.splits)
  have R: "e1 = None \<and> 1 \<le> rate \<and> rate \<le> 10" using ints_get_range [OF rate [unfolded w(4)]] by (simp add: credRateMax_def)
  have M: "12 \<le> mn \<and> mn \<le> 1024"
    using ints_get_range [of E _ _ _ _ _ mn] mn R by (auto simp: credMinLengthDefault_def credMinLengthMax_def)
  show ?thesis using w(1,3) R M parseMachineWriteClientDNs_ok [OF w(2)] by (simp add: w(5) cred_ok_def)
qed

text \<open>Everything \<open>loadMachineWriteScope\<close> checked, on the configuration it returns.\<close>

definition write_scope_ok :: "cfg_lib \<Rightarrow> config \<Rightarrow> machine_config \<Rightarrow> write_config \<Rightarrow> bool" where
  "write_scope_ok L cfg m w \<longleftrightarrow>
     (\<exists>base. dl_parse (cl_dn L) (cf_base cfg) = Some base \<and>
       (\<forall>e \<in> set (wc_subtrees w). \<forall>raw \<in> set (cd_dns e).
          ceiling_ok L base (machineWriteIdentityDNs cfg m w) (wc_privileged w) raw)) \<and>
     wc_subtrees w \<noteq> [] \<and> distinct (map cd_id (wc_subtrees w)) \<and> list_all (dns_ok L (map ml_id (mc_clients m))) (wc_subtrees w) \<and>
     (\<exists>e \<in> set (wc_subtrees w). has_open_scope m (cd_id e)) \<and>
     (\<forall>e \<in> set (wc_groups w). \<forall>raw \<in> set (cd_dns e).
        confined L (dl_anc (cl_dn L)) (wc_subtrees w) (wc_privileged w) (cd_id e) raw) \<and>
     (\<forall>e \<in> set (wc_cred_subtrees w). \<forall>raw \<in> set (cd_dns e).
        confined L (\<lambda>c d. dl_eq (cl_dn L) c d \<or> dl_anc (cl_dn L) c d) (wc_subtrees w) (wc_privileged w) (cd_id e) raw) \<and>
     (names_scope ''directory.users.lock'' m \<longrightarrow> wc_privileged w \<noteq> []) \<and> limits_in_range (wc_limits w) \<and>
     (int (length (wc_subtrees w)) + 1) * DefaultMaxPerSubject \<le> DefaultMaxRecords \<and> cred_ok L (map ml_id (mc_clients m)) w"

lemma identity_dns_limits [simp]: "machineWriteIdentityDNs cfg m (w\<lparr> wc_limits := l \<rparr>) = machineWriteIdentityDNs cfg m w"
  by (simp add: machineWriteIdentityDNs_def)

lemma loadMachineWriteScope_parts:
  assumes "loadMachineWriteScope L E cfg m w = Inr w'" "mc_write_enabled m"
  obtains subtrees groups privileged base w1 seed limits where
    "parseMachineWriteClientDNs L ''MACHINE_WRITE_SUBTREES'' (E ''MACHINE_WRITE_SUBTREES'') (map ml_id (mc_clients m)) = Inr subtrees"
    "checkWriteHasWriter m subtrees = Inr ()"
    "dl_parse (cl_dn L) (cf_base cfg) = Some base"
    "loadMachineWriteCredScope L E cfg m (w\<lparr> wc_subtrees := subtrees, wc_groups := groups, wc_privileged := privileged \<rparr>) base
       (map ml_id (mc_clients m)) = Inr w1"
    "check_ceilings L cfg m (w1\<lparr> wc_group_seed := seed \<rparr>) base = Inr ()"
    "checkCredSubtrees L (w1\<lparr> wc_group_seed := seed \<rparr>) = Inr ()" "checkWriteGroups L (w1\<lparr> wc_group_seed := seed \<rparr>) = Inr ()"
    "checkLockNeedsPrivilegedGroups m (w1\<lparr> wc_group_seed := seed \<rparr>) = Inr ()" "load_limits E = Inr limits"
    "CheckIdempotencyQuota w' = Inr ()" "w' = w1\<lparr> wc_group_seed := seed, wc_limits := limits \<rparr>"
  using assms unfolding loadMachineWriteScope_def
  by (auto simp: bindE_Inr_iff Let_def split: option.splits)

lemma loadMachineWriteScope_ok:
  assumes "loadMachineWriteScope L E cfg m w = Inr w'" "mc_write_enabled m"
  shows "write_scope_ok L cfg m w' \<and> wc_data w' = wc_data w \<and> wc_lock_enabled w' = wc_lock_enabled w \<and> wc_lock w' = wc_lock w \<and>
    wc_cred_enabled w' = wc_cred_enabled w \<and> wc_cred w' = wc_cred w \<and> wc_reader w' = wc_reader w"
proof -
  from assms obtain subtrees groups privileged base w1 seed limits where p:
    "parseMachineWriteClientDNs L ''MACHINE_WRITE_SUBTREES'' (E ''MACHINE_WRITE_SUBTREES'') (map ml_id (mc_clients m)) = Inr subtrees"
    "checkWriteHasWriter m subtrees = Inr ()"
    "dl_parse (cl_dn L) (cf_base cfg) = Some base"
    "loadMachineWriteCredScope L E cfg m (w\<lparr> wc_subtrees := subtrees, wc_groups := groups, wc_privileged := privileged \<rparr>) base
       (map ml_id (mc_clients m)) = Inr w1"
    "check_ceilings L cfg m (w1\<lparr> wc_group_seed := seed \<rparr>) base = Inr ()"
    "checkCredSubtrees L (w1\<lparr> wc_group_seed := seed \<rparr>) = Inr ()" "checkWriteGroups L (w1\<lparr> wc_group_seed := seed \<rparr>) = Inr ()"
    "checkLockNeedsPrivilegedGroups m (w1\<lparr> wc_group_seed := seed \<rparr>) = Inr ()" "load_limits E = Inr limits"
    "CheckIdempotencyQuota w' = Inr ()" "w' = w1\<lparr> wc_group_seed := seed, wc_limits := limits \<rparr>"
    by (rule loadMachineWriteScope_parts)
  note c = loadMachineWriteCredScope_ok [OF p(4)]
  have "write_scope_ok L cfg m w'"
    unfolding write_scope_ok_def
  proof (intro conjI)
    show "\<exists>base. dl_parse (cl_dn L) (cf_base cfg) = Some base \<and> (\<forall>e \<in> set (wc_subtrees w'). \<forall>raw \<in> set (cd_dns e).
        ceiling_ok L base (machineWriteIdentityDNs cfg m w') (wc_privileged w') raw)"
      using p(3) check_ceilings_ok [OF p(5)] by (auto simp: p(11))
    show "wc_subtrees w' \<noteq> []" "\<exists>e \<in> set (wc_subtrees w'). has_open_scope m (cd_id e)"
      using p(2) c by (auto simp: checkWriteHasWriter_def bindE_Inr_iff list_ex_iff p(11))
    show "distinct (map cd_id (wc_subtrees w'))" "list_all (dns_ok L (map ml_id (mc_clients m))) (wc_subtrees w')"
      using parseMachineWriteClientDNs_ok [OF p(1)] c by (simp_all add: p(11))
    show "\<forall>e \<in> set (wc_groups w'). \<forall>raw \<in> set (cd_dns e).
        confined L (dl_anc (cl_dn L)) (wc_subtrees w') (wc_privileged w') (cd_id e) raw"
      using checkWriteGroups_ok [OF p(7)] by (simp add: p(11))
    show "\<forall>e \<in> set (wc_cred_subtrees w'). \<forall>raw \<in> set (cd_dns e).
        confined L (\<lambda>c d. dl_eq (cl_dn L) c d \<or> dl_anc (cl_dn L) c d) (wc_subtrees w') (wc_privileged w') (cd_id e) raw"
      using checkCredSubtrees_ok [OF p(6)] by (simp add: p(11))
    show "names_scope ''directory.users.lock'' m \<longrightarrow> wc_privileged w' \<noteq> []"
      using p(8) by (auto simp: checkLockNeedsPrivilegedGroups_def p(11))
    show "limits_in_range (wc_limits w')" using load_limits_ok [OF p(9)] by (simp add: p(11))
    show "(int (length (wc_subtrees w')) + 1) * DefaultMaxPerSubject \<le> DefaultMaxRecords"
      using p(10) by (simp add: CheckIdempotencyQuota_def checkMachineWriteQuota_def machineWriteHumanReserve_def)
    show "cred_ok L (map ml_id (mc_clients m)) w'" using c [THEN conjunct1] by (simp add: p(11) cred_ok_def)
  qed
  with c show ?thesis by (simp add: p(11))
qed

subsection \<open>Identities\<close>

definition identity_ok :: "cfg_lib \<Rightarrow> config \<Rightarrow> machine_config \<Rightarrow> bind_identity \<Rightarrow> bool" where
  "identity_ok L cfg m i \<longleftrightarrow> bi_dn i \<noteq> [] \<and> bi_password i \<noteq> [] \<and>
     (\<exists>d. dl_parse (cl_dn L) (bi_dn i) = Some d \<and> writeIdentityDNUnambiguous L d \<and>
       (\<forall>p \<in> set (privileged_dns cfg (mc_root_dns m @ [mc_bind_dn m, replicator_dn cfg])).
          \<not> dnEqual L d (bi_dn i) p \<and> \<not> run_inside L d p))"

lemma machineIdentityFromVars_ok:
  "machineIdentityFromVars L E pre dnVar pwVar cfg m = Inr i \<Longrightarrow> identity_ok L cfg m i"
  by (auto simp: machineIdentityFromVars_def Let_def bindE_Inr_iff identity_ok_def checkMachineBindDN_iff split: option.splits)

text \<open>No two names of a list are equal.\<close>

fun names_apart :: "cfg_lib \<Rightarrow> string list \<Rightarrow> bool" where
  "names_apart L [] \<longleftrightarrow> True"
| "names_apart L (raw # raws) \<longleftrightarrow> names_apart L raws \<and>
     (\<forall>r \<in> set raws. \<forall>a b. dl_parse (cl_dn L) raw = Some a \<longrightarrow> dl_parse (cl_dn L) r = Some b \<longrightarrow> \<not> dl_eq (cl_dn L) a b)"

definition write_identities :: "write_config \<Rightarrow> bind_identity list" where
  "write_identities w = wc_data w # (if wc_lock_enabled w then [wc_lock w] else []) @
     (if wc_cred_enabled w then [wc_cred w, wc_reader w] else [])"

definition identities_ok :: "cfg_lib \<Rightarrow> config \<Rightarrow> machine_config \<Rightarrow> write_config \<Rightarrow> bool" where
  "identities_ok L cfg m w \<longleftrightarrow> is_enabled (cf_idem cfg) \<and> list_all (identity_ok L cfg m) (write_identities w) \<and>
     names_apart L (map bi_dn (write_identities w)) \<and> (names_scope ''directory.users.lock'' m \<longrightarrow> wc_lock_enabled w)"

lemma distinct_from_iff:
  "distinct_from L d e others = Inr u \<longleftrightarrow>
     (\<forall>raw \<in> set others. \<exists>p. dl_parse (cl_dn L) raw = Some p \<and> \<not> dl_eq (cl_dn L) p d)"
  by (simp add: distinct_from_def eachE_Inr_iff bindE_Inr_iff)

lemma loadMachineWriteCredIdentity_ok:
  assumes "loadMachineWriteCredIdentity L E cfg m w = Inr w'"
  shows "wc_data w' = wc_data w \<and> wc_lock_enabled w' = wc_lock_enabled w \<and> wc_lock w' = wc_lock w \<and>
    (wc_cred_enabled w' \<longrightarrow> identity_ok L cfg m (wc_cred w') \<and> identity_ok L cfg m (wc_reader w') \<and>
      (\<exists>c r. dl_parse (cl_dn L) (bi_dn (wc_cred w')) = Some c \<and> dl_parse (cl_dn L) (bi_dn (wc_reader w')) = Some r \<and> \<not> dl_eq (cl_dn L) c r \<and>
        (\<forall>raw \<in> set (bi_dn (wc_data w) # (if wc_lock_enabled w then [bi_dn (wc_lock w)] else [])).
           \<exists>p. dl_parse (cl_dn L) raw = Some p \<and> \<not> dl_eq (cl_dn L) p c \<and> \<not> dl_eq (cl_dn L) p r)))"
proof -
  obtain on where on: "cred_switch E = Inr on" using assms by (auto simp: loadMachineWriteCredIdentity_def bindE_Inr_iff)
  show ?thesis
  proof (cases on)
    case False
    with assms on show ?thesis by (auto simp: loadMachineWriteCredIdentity_def)
  next
    case True
    define others where "others = bi_dn (wc_data w) # (if wc_lock_enabled w then [bi_dn (wc_lock w)] else [])"
    obtain i c j r where p: "machineWriteIdentity L E ''MACHINE_WRITE_CRED'' cfg m = Inr i" "dl_parse (cl_dn L) (bi_dn i) = Some c"
      "distinct_from L c (Barred ''MACHINE_WRITE_CRED_BIND_DN'' ''distinct'') others = Inr ()"
      "machineIdentityFromVars L E ''MACHINE_WRITE_CRED_ACL_READER'' ''MACHINE_WRITE_CRED_ACL_READER_DN''
         ''MACHINE_WRITE_CRED_ACL_READER_PASSWORD'' cfg m = Inr j"
      "dl_parse (cl_dn L) (bi_dn j) = Some r"
      "distinct_from L r (Barred ''MACHINE_WRITE_CRED_ACL_READER_DN'' ''distinct'') (others @ [bi_dn i]) = Inr ()"
      "w' = w\<lparr> wc_cred_enabled := True, wc_cred := i, wc_reader := j \<rparr>"
      using assms on True by (auto simp: loadMachineWriteCredIdentity_def bindE_Inr_iff Let_def others_def)
    have "\<forall>raw \<in> set others. \<exists>p. dl_parse (cl_dn L) raw = Some p \<and> \<not> dl_eq (cl_dn L) p c \<and> \<not> dl_eq (cl_dn L) p r"
      "\<not> dl_eq (cl_dn L) c r"
      using p(2,3,6) by (auto simp: distinct_from_iff) force+
    then show ?thesis
      using machineIdentityFromVars_ok [OF p(1) [unfolded machineWriteIdentity_def]] machineIdentityFromVars_ok [OF p(4)] p(2,5)
      by (simp add: p(7) others_def)
  qed
qed

lemma load_lock_ok:
  assumes "load_lock L E cfg m i lock_on = Inr j"
  shows "if lock_on then identity_ok L cfg m j \<and>
      (\<exists>d l. dl_parse (cl_dn L) (bi_dn i) = Some d \<and> dl_parse (cl_dn L) (bi_dn j) = Some l \<and> \<not> dl_eq (cl_dn L) d l)
    else \<not> names_scope ''directory.users.lock'' m"
  using assms by (cases lock_on) (auto simp: load_lock_def bindE_Inr_iff machineWriteIdentity_def intro: machineIdentityFromVars_ok)

lemma loadMachineWriteIdentities_ok:
  assumes "loadMachineWriteIdentities L E cfg m = Inr w" "mc_write_enabled m"
  shows "identities_ok L cfg m w"
proof -
  obtain i plain lock_on j where p: "is_enabled (cf_idem cfg)" "machineWriteIdentity L E ''MACHINE_WRITE_DATA'' cfg m = Inr i"
    "load_lock L E cfg m i lock_on = Inr j"
    "loadMachineWriteCredIdentity L E cfg m
       (no_write\<lparr> wc_data := i, wc_audit_plain := plain, wc_lock_enabled := lock_on, wc_lock := j \<rparr>) = Inr w"
    using assms by (auto simp: loadMachineWriteIdentities_def bindE_Inr_iff)
  note l = load_lock_ok [OF p(3)]
  have i: "identity_ok L cfg m i" using machineIdentityFromVars_ok p(2) by (simp add: machineWriteIdentity_def)
  have j: "lock_on \<Longrightarrow> identity_ok L cfg m j" using l by simp
  note c = loadMachineWriteCredIdentity_ok [OF p(4)]
  have w: "wc_data w = i" "wc_lock_enabled w = lock_on" "wc_lock w = j" using c by simp_all
  have "list_all (identity_ok L cfg m) (write_identities w)" using i j c by (simp add: write_identities_def w)
  moreover have "names_apart L (map bi_dn (write_identities w))"
    using l c by (auto simp: write_identities_def w split: if_splits)
  ultimately show ?thesis using p(1) l by (auto simp: identities_ok_def w split: if_splits)
qed

lemma loaded_write_scope_ok:
  assumes "Load L F E = Inr c" "mc_enabled (cf_machine c)" "mc_write_enabled (cf_machine c)"
  shows "identities_ok L c (cf_machine c) (mc_write (cf_machine c)) \<and> write_scope_ok L c (cf_machine c) (mc_write (cf_machine c))"
proof -
  from assms(1,2) obtain c0 m2 roots rv w w' where p:
    "same_base c c0" "loadMachineWriteIdentities L E c0 (m2\<lparr> mc_root_dns := roots, mc_rev := rv \<rparr>) = Inr w"
    "loadMachineWriteScope L E c0 (m2\<lparr> mc_root_dns := roots, mc_rev := rv, mc_write := w \<rparr>) w = Inr w'"
    "cf_machine c = m2\<lparr> mc_root_dns := roots, mc_rev := rv, mc_write := w' \<rparr>"
    by (rule Load_machine)
  have on: "mc_write_enabled m2" using assms(3) p(4) by simp
  note i = loadMachineWriteIdentities_ok [OF p(2)] and s = loadMachineWriteScope_ok [OF p(3)]
  have b: "cf_base c = cf_base c0" "cf_idem c = cf_idem c0" "\<And>r. privileged_dns c r = privileged_dns c0 r"
    using p(1) privileged_same [OF p(1)] by (simp_all add: same_base_def)
  have d: "machineWriteIdentityDNs c m u = machineWriteIdentityDNs c0 m u" for m u
    using p(1) by (simp add: machineWriteIdentityDNs_def same_base_def replicator_dn_def)
  have "write_identities w' = write_identities w" "wc_lock_enabled w' = wc_lock_enabled w" using s on by (simp_all add: write_identities_def)
  then have "identities_ok L c (cf_machine c) w'"
    using i on by (simp add: identities_ok_def p(4) b identity_ok_def [abs_def] names_scope_def replicator_dn_def)
  moreover have "machineWriteIdentityDNs c (cf_machine c) w' = machineWriteIdentityDNs c0 (m2\<lparr> mc_root_dns := roots, mc_rev := rv, mc_write := w \<rparr>) w'"
    by (simp add: d) (simp add: machineWriteIdentityDNs_def p(4))
  then have "write_scope_ok L c (cf_machine c) w'"
    using s on by (simp add: write_scope_ok_def p(4) b names_scope_def has_open_scope_def)
  ultimately show ?thesis by (simp add: p(4))
qed

text \<open>C13: A configuration that loads with machine writes on has the idempotency store on; a data identity, and a lock, a credential and
  a reader identity where those compartments are on, each an unambiguous name that is none of the privileged ones, no two of them
  equal; every ceiling strictly inside the base, clear of every identity in both directions and at or below no privileged group;
  every writable group and credential subtree inside a ceiling of its own client; a client with both a ceiling and an open write scope;
  limits within their bounds, and room for human sessions in the idempotency store.
\<close>

theorem loaded_write_scope:
  assumes "Load L F E = Inr c" "mc_enabled (cf_machine c)" "mc_write_enabled (cf_machine c)"
  shows "identities_ok L c (cf_machine c) (mc_write (cf_machine c)) \<and> write_scope_ok L c (cf_machine c) (mc_write (cf_machine c))"
  by (rule loaded_write_scope_ok [OF assms])

end
