(* ===== verification/ConfigDemo.thy ===== *)
theory ConfigDemo
  imports ConfigWriteProps "HOL-Library.Code_Target_Nat"
begin

text \<open>
  An environment that loads: one client with a write ceiling, one that reads, the browser's login without single sign-on. The names are
  read by a parser that knows no escapes.
\<close>

definition simple_rdn :: "string \<Rightarrow> (string \<times> string) list" where
  "simple_rdn p = (let k = takeWhile (\<lambda>c. c \<noteq> CHR ''='') p in [(k, drop (Suc (length k)) p)])"

definition simple_parse :: "string \<Rightarrow> dn option" where
  "simple_parse s = Some (map simple_rdn (split_on (CHR '','') s))"

definition simple_anc :: "dn \<Rightarrow> dn \<Rightarrow> bool" where
  "simple_anc a b \<longleftrightarrow> length a < length b \<and> drop (length b - length a) b = a"

definition simple_dn :: dn_lib where
  "simple_dn = \<lparr> dl_parse = simple_parse, dl_eq = (=), dl_anc = simple_anc, dl_lower = (\<lambda>s. s) \<rparr>"

definition simple_url :: "string \<Rightarrow> url option" where
  "simple_url s =
     (if has_prefix s ''https://''
      then Some \<lparr> ur_scheme = ''https'', ur_host = drop 8 s, ur_hostname = drop 8 s, ur_port = '''', ur_user = False, ur_path = '''',
                  ur_query = '''', ur_fragment = '''', ur_opaque = '''' \<rparr>
      else None)"

definition simple_lib :: cfg_lib where
  "simple_lib = \<lparr> cl_dn = simple_dn, cl_string = (\<lambda>d. ''''), cl_fold = (=), cl_url = simple_url, cl_cidr = (\<lambda>s. False),
     cl_hostport = (\<lambda>s. None), cl_frac = (\<lambda>f u s. f * u div s) \<rparr>"

definition simple_files :: load_files where
  "simple_files = \<lparr> lf_read = (\<lambda>p. None), lf_store = (\<lambda>p. Inl (Barred p ''none'')) \<rparr>"

definition simple_table :: "(string \<times> string) list" where
  "simple_table =
     [(''LDAP_URL'', ''ldap://d''), (''LDAP_BASE_DN'', ''dc=x''), (''SESSION_SECRET'', replicate 32 (CHR ''s'')),
      (''UI_TRUSTED_PROXIES'', ''none''), (''UI_IDEMPOTENCY_ENABLED'', ''true''), (''MACHINE_AUTH_ENABLED'', ''true''),
      (''MACHINE_OIDC_ISSUER_URL'', ''https://kc''), (''MACHINE_OIDC_AUDIENCE'', ''api''), (''MACHINE_LDAP_BIND_DN'', ''cn=m,ou=system,dc=x''),
      (''MACHINE_LDAP_BIND_PASSWORD'', ''p''), (''MACHINE_LDAP_ROOT_DNS'', ''cn=admin,dc=x''),
      (''MACHINE_ALLOWED_CLIENTS'', ''app=directory.users.read,directory.users.delete; web=audit.read''),
      (''MACHINE_TOKEN_MAX_TTL'', ''90s''), (''MACHINE_RATE_LIMIT_RPS'', ''7''),
      (''MACHINE_WRITE_ENABLED'', ''true''), (''MACHINE_WRITE_DATA_BIND_DN'', ''cn=w,ou=system,dc=x''),
      (''MACHINE_WRITE_DATA_BIND_PASSWORD'', ''q''), (''MACHINE_WRITE_SUBTREES'', ''app=ou=people,dc=x''),
      (''MACHINE_WRITE_PRIVILEGED_GROUPS'', ''cn=admins,ou=groups,dc=x'')]"

definition simple_env :: getenv where
  "simple_env k = (case map_of simple_table k of None \<Rightarrow> '''' | Some v \<Rightarrow> v)"

text \<open>What it loads to.\<close>

definition simple_identity :: bind_identity where
  "simple_identity = \<lparr> bi_dn = ''cn=w,ou=system,dc=x'', bi_password = ''q'' \<rparr>"

definition simple_write :: write_config where
  "simple_write = no_write\<lparr> wc_data := simple_identity, wc_subtrees := [\<lparr> cd_id = ''app'', cd_dns = [''ou=people,dc=x''] \<rparr>],
     wc_privileged := [''cn=admins,ou=groups,dc=x''], wc_limits := \<lparr> wl_rps = 1, wl_burst = 2, wl_slots = 2 \<rparr> \<rparr>"

definition simple_machine :: machine_config where
  "simple_machine = no_machine\<lparr> mc_enabled := True, mc_write_enabled := True, mc_write := simple_write, mc_issuer := ''https://kc'',
     mc_audience := ''api'', mc_algs := [''RS256'', ''ES256''],
     mc_clients := [\<lparr> ml_id = ''app'', ml_scopes = [''directory.users.read'', ''directory.users.delete''] \<rparr>,
       \<lparr> ml_id = ''web'', ml_scopes = [''audit.read''] \<rparr>],
     mc_max_ttl := 90 * second_ns, mc_skew := 30 * second_ns, mc_jwks_ttl := 10 * minute_ns, mc_jwks_stale := hour_ns,
     mc_jwks_min := 30 * second_ns, mc_sa_prefix := ''service-account-'', mc_bind_dn := ''cn=m,ou=system,dc=x'',
     mc_bind_password := ''p'', mc_root_dns := [''cn=admin,dc=x''], mc_fail_limit := 10, mc_fail_window := minute_ns, mc_rps := 7,
     mc_burst := 10, mc_client_conc := 4, mc_max_conc := 8, mc_auth_conc := 16, mc_timeout := 10 * second_ns, mc_ip_max := 10000 \<rparr>"

definition simple_config :: config where
  "simple_config = \<lparr> cf_secret_source = ''environment'',
     cf_backup = \<lparr> bk_operator = '''', bk_policy = '''', bk_worker = '''', bk_python = ''/usr/bin/python3'', bk_admins = [],
       bk_timeout_data = 2 * hour_ns, bk_timeout_logs = 2 * hour_ns \<rparr>,
     cf_keycloak = \<lparr> kk_url = '''', kk_realm = '''', kk_client = '''', kk_secret = '''', kk_observe = [], kk_delegate = [], kk_groups = [],
       kk_isolated = False, kk_local_http = False \<rparr>,
     cf_profiles = '''', cf_profile_admins = [],
     cf_openldap = \<lparr> ol_app = ''development'', ol_version = '''', ol_hash = '''', ol_policy = True, ol_unique = '''', ol_modules = '''',
       ol_overlays = '''' \<rparr>,
     cf_listen = '':8080'', cf_ldap_url = ''ldap://d'', cf_base = ''dc=x'', cf_user_search = ''dc=x'', cf_user_filter = '''',
     cf_group_search = ''dc=x'', cf_user_create = ''dc=x'', cf_group_create = ''dc=x'', cf_start_tls = False, cf_ca = '''',
     cf_insecure = False, cf_secret = replicate 32 (CHR ''s''), cf_session_ttl = 30 * minute_ns, cf_cookie_secure = True,
     cf_sso = \<lparr> sc_enabled = False, sc_issuer = '''', sc_client = '''', sc_secret = '''', sc_role = ''ldap-admin'', sc_origins = [],
       sc_account = '''', sc_account_password = '''' \<rparr>,
     cf_login = \<lparr> fb_limit = 10, fb_window = minute_ns, fb_max = 10000 \<rparr>,
     cf_change = \<lparr> fb_limit = 10, fb_window = minute_ns, fb_max = 10000 \<rparr>,
     cf_idem = \<lparr> is_enabled = True, is_ttl = 24 * hour_ns, is_file = '''', is_key = '''', is_previous = '''' \<rparr>,
     cf_proxies = ''none'', cf_metrics = '''', cf_origins = [], cf_machine = simple_machine \<rparr>"

lemma simple_loads: "Load simple_lib simple_files simple_env = Inr simple_config"
  by code_simp

lemma simple_on [simp]: "mc_enabled (cf_machine simple_config)" "mc_write_enabled (cf_machine simple_config)"
  by (simp_all add: simple_config_def simple_machine_def)

lemma loaded_machine_safe_witness: "machine_ok simple_lib simple_config (cf_machine simple_config)"
  using loaded_machine_safe [OF simple_loads] by simp

lemma loaded_write_scope_witness:
  "identities_ok simple_lib simple_config (cf_machine simple_config) (mc_write (cf_machine simple_config)) \<and>
   write_scope_ok simple_lib simple_config (cf_machine simple_config) (mc_write (cf_machine simple_config))"
  using loaded_write_scope [OF simple_loads] by simp

end
