(* ===== verification/PremiseAcl.thy ===== *)
theory PremiseAcl
  imports ConfigTypes
begin

text \<open>
  Check 1 of the password premise, \<open>ldapclient/machine_write_premise_acl.go\<close>: the access rules stored in the directory are compared with
  the expected ones as text, with names at the places of the tokens.

  A regular expression of \<open>compileRule\<close> is a literal text with groups \<open>[^"()]+\<close>: a list of elements, each a byte or a group with the
  name it must equal. \<open>rule_match\<close> is \<open>FindStringSubmatch\<close> on it, greedy with backtracking. A group takes whole characters in Go; here it
  takes bytes, and what follows a group is an ASCII byte or the end, which no part of a character is.
\<close>

subsection \<open>The expected rules\<close>

text \<open>A fixture is the list of its lines; the empty piece that \<open>strings.Split\<close> finds behind the last line end is no rule.\<close>

definition premiseReplRule :: "string list" where
  \<open>premiseReplRule =
    [''olcAccess: {0}to * by dn.exact="@REPL_DN@" ssf=128 read by dn.exact="@REPL_DN@" none by * break'']\<close>

definition premiseMRules :: "string list" where
  \<open>premiseMRules =
    [''olcAccess: {0}to attrs=userPassword,shadowLastChange,pwdHistory,pKCS8PrivateKey,userPKCS12,oathSecret,oathEncKey,oathTokenPIN'',
     ''  by dn.exact="@MACHINE_DN@" none'',
     ''  by * break'',
     ''olcAccess: {1}to dn.subtree="@ALLOWED_DN@"'',
     ''  by dn.exact="@MACHINE_DN@" read'',
     ''  by * break'',
     ''olcAccess: {2}to *'',
     ''  by dn.exact="@MACHINE_DN@" none'',
     ''  by * break'']\<close>

definition premiseDataRules :: "string list" where
  \<open>premiseDataRules =
    [''olcAccess: {0}to dn.subtree="@SYSTEM_DN@"'',
     ''  by dn.exact="@WDATA_DN@" none'',
     ''  by * break'',
     ''olcAccess: {1}to dn.exact="@REPL_DN@"'',
     ''  by dn.exact="@WDATA_DN@" none'',
     ''  by * break'',
     ''olcAccess: {2}to attrs=userPassword,shadowLastChange,pwdHistory,pKCS8PrivateKey,userPKCS12,oathSecret,oathEncKey,oathTokenPIN,memberOf,pwdAccountLockedTime,pwdChangedTime,pwdFailureTime,pwdGraceUseTime,pwdReset,pwdPolicySubentry,pwdStartTime,pwdEndTime,pwdLastSuccess'',
     ''  by dn.exact="@WDATA_DN@" none'',
     ''  by * break'',
     ''olcAccess: {3}to dn.subtree="@WRITE_DN@" attrs=entry,children'',
     ''  by dn.exact="@WDATA_DN@" write'',
     ''  by * break'',
     ''olcAccess: {4}to dn.subtree="@WRITE_DN@" attrs=objectClass'',
     ''  by dn.exact="@WDATA_DN@" add'',
     ''  by * break'',
     ''olcAccess: {5}to dn.subtree="@WRITE_DN@" filter=(objectClass=groupOfNames) attrs=description'',
     ''  by dn.exact="@WDATA_DN@" write'',
     ''  by * break'',
     ''olcAccess: {6}to dn.subtree="@WRITE_DN@" attrs=uid,cn,sn,givenName,mail,departmentNumber,o,ou,member'',
     ''  by dn.exact="@WDATA_DN@" write'',
     ''  by * break'',
     ''olcAccess: {7}to dn.subtree="@WRITE_DN@"'',
     ''  by dn.exact="@WDATA_DN@" read'',
     ''  by * break'',
     ''olcAccess: {8}to *'',
     ''  by dn.exact="@WDATA_DN@" none'',
     ''  by * break'']\<close>

definition premiseLockRules :: "string list" where
  \<open>premiseLockRules =
    [''olcAccess: {0}to dn.subtree="@SYSTEM_DN@"'',
     ''  by dn.exact="@WLOCK_DN@" none'',
     ''  by * break'',
     ''olcAccess: {1}to dn.exact="@REPL_DN@"'',
     ''  by dn.exact="@WLOCK_DN@" none'',
     ''  by * break'',
     ''olcAccess: {2}to attrs=userPassword,shadowLastChange,pwdHistory,pKCS8PrivateKey,userPKCS12,oathSecret,oathEncKey,oathTokenPIN,memberOf,pwdChangedTime,pwdFailureTime,pwdGraceUseTime,pwdReset,pwdPolicySubentry,pwdStartTime,pwdEndTime,pwdLastSuccess'',
     ''  by dn.exact="@WLOCK_DN@" none'',
     ''  by * break'',
     ''olcAccess: {3}to dn.subtree="@WRITE_DN@" attrs=pwdAccountLockedTime'',
     ''  by dn.exact="@WLOCK_DN@" add'',
     ''  by * break'',
     ''olcAccess: {4}to dn.subtree="@WRITE_DN@"'',
     ''  by dn.exact="@WLOCK_DN@" read'',
     ''  by * break'',
     ''olcAccess: {5}to *'',
     ''  by dn.exact="@WLOCK_DN@" none'',
     ''  by * break'']\<close>

definition premiseDataCredRules :: "string list" where
  \<open>premiseDataCredRules =
    [''olcAccess: {0}to dn.subtree="@WRITE_DN@" attrs=entry filter=(&(!(objectClass=groupOfNames))(!(creatorsName=@WDATA_DN@)))'',
     ''  by dn.exact="@WDATA_DN@" =rsc'',
     ''  by * break'',
     ''olcAccess: {1}to dn.exact="@PRIV_GROUP_DN@" attrs=member'',
     ''  by dn.exact="@WDATA_DN@" =rsc'',
     ''  by * break'',
     ''olcAccess: {2}to dn.subtree="@CRED_DN@" attrs=employeeType val.regex="^ldapium-credential-pending:[0-9a-f]{16}$" filter=(&(objectClass=inetOrgPerson)(creatorsName=@WDATA_DN@)(employeeType=ldapium-credential-pending:*)(!(userPassword=*))@PRIV_FILTER@(pwdPolicySubentry=@PENDING_POLICY_DN@))'',
     ''  by dn.exact="@WDATA_DN@" add'',
     ''  by * break'',
     ''olcAccess: {3}to dn.subtree="@CRED_DN@" attrs=pwdPolicySubentry val="@PENDING_POLICY_DN@" filter=(&(objectClass=inetOrgPerson)(creatorsName=@WDATA_DN@)(employeeType=ldapium-credential-pending:*)(!(userPassword=*))@PRIV_FILTER@(pwdPolicySubentry=@PENDING_POLICY_DN@))'',
     ''  by dn.exact="@WDATA_DN@" add'',
     ''  by * break'']\<close>

definition premiseCredRules :: "string list" where
  \<open>premiseCredRules =
    [''olcAccess: {0}to dn.subtree="@SYSTEM_DN@"'',
     ''  by dn.exact="@WCRED_DN@" none'',
     ''  by * break'',
     ''olcAccess: {1}to dn.exact="@REPL_DN@"'',
     ''  by dn.exact="@WCRED_DN@" none'',
     ''  by * break'',
     ''olcAccess: {2}to dn.subtree="@CRED_DN@" attrs=userPassword filter=(&(objectClass=inetOrgPerson)(creatorsName=@WDATA_DN@)(employeeType=ldapium-credential-pending:*)(!(userPassword=*))@PRIV_FILTER@(pwdPolicySubentry=@PENDING_POLICY_DN@))'',
     ''  by dn.exact="@WCRED_DN@" =w'',
     ''  by * break'',
     ''olcAccess: {3}to dn.subtree="@CRED_DN@" attrs=employeeType val.regex="^ldapium-credential-pending:[0-9a-f]{16}$" filter=(&(creatorsName=@WDATA_DN@)(pwdPolicySubentry=@PENDING_POLICY_DN@))'',
     ''  by dn.exact="@WCRED_DN@" =z'',
     ''  by * break'',
     ''olcAccess: {4}to dn.subtree="@CRED_DN@" attrs=pwdPolicySubentry val="@PENDING_POLICY_DN@" filter=(creatorsName=@WDATA_DN@)'',
     ''  by dn.exact="@WCRED_DN@" =z'',
     ''  by * break'',
     ''olcAccess: {5}to attrs=userPassword,shadowLastChange,pwdHistory,pKCS8PrivateKey,userPKCS12,oathSecret,oathEncKey,oathTokenPIN,memberOf,pwdAccountLockedTime,pwdChangedTime,pwdFailureTime,pwdGraceUseTime,pwdReset,pwdPolicySubentry,pwdStartTime,pwdEndTime,pwdLastSuccess'',
     ''  by dn.exact="@WCRED_DN@" none'',
     ''  by * break'',
     ''olcAccess: {6}to *'',
     ''  by dn.exact="@WCRED_DN@" none'',
     ''  by * break'']\<close>

definition premiseReaderMainRules :: "string list" where
  \<open>premiseReaderMainRules =
    [''olcAccess: {0}to *'',
     ''  by dn.exact="@READER_DN@" none'',
     ''  by * break'']\<close>

text \<open>\<open>collapseSpace\<close>: a run of white space is one space, none at the ends.\<close>

fun squeeze :: "string \<Rightarrow> string" where
  "squeeze [] = []"
| "squeeze (c # s) =
     (if reSpace c then (case squeeze s of CHR '' '' # r \<Rightarrow> CHR '' '' # r | r \<Rightarrow> CHR '' '' # r) else c # squeeze s)"

definition collapseSpace :: "string \<Rightarrow> string" where
  "collapseSpace s = TrimSpace (squeeze s)"

text \<open>The prefix \<open>{n}\<close> of a stored value.\<close>

definition drop_index :: "string \<Rightarrow> string" where
  "drop_index s =
     (case s of
        c # r \<Rightarrow>
          (let ds = takeWhile (\<lambda>d. d \<in> set digits) r; after = drop (length ds) r in
           if c = CHR ''{'' \<and> ds \<noteq> [] \<and> take 1 after = ''}'' then drop 1 after else s)
      | [] \<Rightarrow> s)"

definition template_line :: "string list \<Rightarrow> string \<Rightarrow> string list" where
  "template_line out line =
     (if has_prefix line ''olcAccess: '' then out @ [drop 11 line]
      else if has_prefix line '' '' \<and> out \<noteq> [] then butlast out @ [last out @ drop 1 line]
      else out)"

definition templateRules :: "string list \<Rightarrow> string list" where
  "templateRules ldif = map (\<lambda>r. collapseSpace (drop_index r)) (foldl template_line [] ldif)"

subsection \<open>Compiling a rule\<close>

definition token_char :: "char \<Rightarrow> bool" where
  "token_char c \<longleftrightarrow> c \<in> set ''ABCDEFGHIJKLMNOPQRSTUVWXYZ0123456789_''"

text \<open>A token \<open>@NAME@\<close> at the head of the text, with what follows it.\<close>

definition token_at :: "string \<Rightarrow> (string \<times> string) option" where
  "token_at s =
     (case s of
        [] \<Rightarrow> None
      | c # r \<Rightarrow>
          if c \<noteq> CHR ''@'' then None
          else (let name = takeWhile token_char r; after = drop (length name) r in
                if name \<noteq> [] \<and> take 1 after = ''@'' then Some (name, drop 1 after) else None))"

datatype piece = Byte char | Token string

lemma token_at_shorter: "token_at s = Some (name, rest) \<Longrightarrow> length rest < length s"
  by (auto simp: token_at_def Let_def split: list.splits if_splits)

function pieces :: "string \<Rightarrow> piece list" where
  "pieces [] = []"
| "pieces (c # s) = (case token_at (c # s) of None \<Rightarrow> Byte c # pieces s | Some (name, rest) \<Rightarrow> Token name # pieces rest)"
  by pat_completeness auto

termination
  by (relation "measure length") (auto dest: token_at_shorter)

text \<open>\<open>strings.ReplaceAll\<close> of a text that is not empty.\<close>

function ReplaceAll :: "string \<Rightarrow> string \<Rightarrow> string \<Rightarrow> string" where
  "ReplaceAll old new [] = []"
| "ReplaceAll old new (c # s) =
     (if old \<noteq> [] \<and> has_prefix (c # s) old then new @ ReplaceAll old new (drop (length old) (c # s)) else c # ReplaceAll old new s)"
  by pat_completeness auto

termination
  by (relation "measure (\<lambda>(old, new, s). length s)") (auto simp: neq_Nil_conv)

text \<open>Evaluation looks at the first byte before it compares the whole prefix.\<close>

lemma ReplaceAll_code [code]:
  "ReplaceAll old new [] = []"
  "ReplaceAll old new (c # s) =
     (if take 1 old = [c] then
        (if has_prefix (c # s) old then new @ ReplaceAll old new (drop (length old) (c # s)) else c # ReplaceAll old new s)
      else c # ReplaceAll old new s)"
  by (cases old; auto simp: has_prefix_def)+

lemma contains_sub_code [code]:
  "contains_sub [] sub = (sub = [])"
  "contains_sub (c # s) sub =
     (if sub = [] then True else if take 1 sub = [c] then (if has_prefix (c # s) sub then True else contains_sub s sub) else contains_sub s sub)"
  by (cases sub; auto simp: has_prefix_def)+

definition priv_filter :: "nat \<Rightarrow> string" where
  "priv_filter n = concat (map (\<lambda>i. ''(!(memberOf=@PRIV_'' @ itoa i @ ''@))'') [0..<n])"

definition token_value :: "(string \<Rightarrow> string) \<Rightarrow> string list \<Rightarrow> string \<Rightarrow> string" where
  "token_value tokens privileged name =
     (if has_prefix name ''PRIV_'' \<and> name \<noteq> ''PRIV_GROUP_DN''
      then privileged ! nat (case ParseInt (drop 5 name) 64 of None \<Rightarrow> 0 | Some n \<Rightarrow> n)
      else tokens name)"

datatype aelem = Lit char | Group string

definition compile_piece :: "(string \<Rightarrow> string) \<Rightarrow> string list \<Rightarrow> piece \<Rightarrow> aelem" where
  "compile_piece tokens privileged p =
     (case p of Byte c \<Rightarrow> Lit c | Token name \<Rightarrow> Group (token_value tokens privileged name))"

definition compileRule :: "string \<Rightarrow> (string \<Rightarrow> string) \<Rightarrow> string list \<Rightarrow> aelem list" where
  "compileRule tpl tokens privileged =
     map (compile_piece tokens privileged) (pieces (ReplaceAll ''@PRIV_FILTER@'' (priv_filter (length privileged)) tpl))"

definition compile_template :: "(string \<Rightarrow> string) \<Rightarrow> string list \<Rightarrow> string \<Rightarrow> aelem list list" where
  "compile_template tokens privileged tpl =
     (if contains_sub tpl ''@PRIV_GROUP_DN@''
      then map (\<lambda>g. compileRule tpl (tokens(''PRIV_GROUP_DN'' := g)) privileged) privileged
      else [compileRule tpl tokens privileged])"

definition compileBlock :: "string list \<Rightarrow> (string \<Rightarrow> string) \<Rightarrow> string list \<Rightarrow> aelem list list" where
  "compileBlock ldif tokens privileged = concat (map (compile_template tokens privileged) (templateRules ldif))"

subsection \<open>Matching\<close>

definition group_char :: "char \<Rightarrow> bool" where
  "group_char c \<longleftrightarrow> c \<noteq> CHR 0x22 \<and> c \<noteq> CHR ''('' \<and> c \<noteq> CHR '')''"

fun first_some :: "('a \<Rightarrow> 'b option) \<Rightarrow> 'a list \<Rightarrow> 'b option" where
  "first_some f [] = None"
| "first_some f (x # xs) = (case f x of None \<Rightarrow> first_some f xs | Some y \<Rightarrow> Some y)"

primrec rule_match :: "aelem list \<Rightarrow> string \<Rightarrow> string list option" where
  "rule_match [] = (\<lambda>s. if s = [] then Some [] else None)"
| "rule_match (x # r) =
     (\<lambda>s. case x of
        Lit c \<Rightarrow> (case s of [] \<Rightarrow> None | d # s' \<Rightarrow> if d = c then rule_match r s' else None)
      | Group w \<Rightarrow>
          first_some (\<lambda>n. map_option (\<lambda>caps. take n s # caps) (rule_match r (drop n s)))
            (rev [1..<Suc (length (takeWhile group_char s))]))"

definition wants :: "aelem list \<Rightarrow> string list" where
  "wants es = concat (map (\<lambda>e. case e of Lit c \<Rightarrow> [] | Group w \<Rightarrow> [w]) es)"

definition name_matches :: "dn_lib \<Rightarrow> string \<Rightarrow> string \<Rightarrow> bool" where
  "name_matches D want cap \<longleftrightarrow>
     (case dl_parse D (TrimSpace cap) of
        None \<Rightarrow> False
      | Some got \<Rightarrow> got \<noteq> [] \<and> (want = '''' \<or> (case dl_parse D want of None \<Rightarrow> False | Some w \<Rightarrow> dl_eq D got w)))"

definition aclRule_match :: "dn_lib \<Rightarrow> aelem list \<Rightarrow> string \<Rightarrow> bool" where
  "aclRule_match D es stored \<longleftrightarrow>
     (case rule_match es stored of None \<Rightarrow> False | Some caps \<Rightarrow> list_all2 (name_matches D) (wants es) caps)"

text \<open>The stored values must be numbered 0, 1, 2, \<dots>\<close>

fun number_from :: "nat \<Rightarrow> string list \<Rightarrow> string list option" where
  "number_from i [] = Some []"
| "number_from i (v # vs) =
     (let t = TrimSpace v; want = ''{'' @ itoa i @ ''}'' in
      if \<not> has_prefix t want then None
      else map_option (\<lambda>rs. collapseSpace (drop (length want) t) # rs) (number_from (i + 1) vs))"

definition storedRules :: "string list \<Rightarrow> string list option" where
  "storedRules values = (case number_from 0 values of None \<Rightarrow> None | Some [] \<Rightarrow> None | Some rs \<Rightarrow> Some rs)"

definition matchBlock :: "dn_lib \<Rightarrow> string list \<Rightarrow> nat \<Rightarrow> aelem list list \<Rightarrow> bool" where
  "matchBlock D rules pos block \<longleftrightarrow>
     pos + length block \<le> length rules \<and> list_all (\<lambda>i. aclRule_match D (block ! i) (rules ! (pos + i))) [0..<length block]"

record acl_params =
  ap_machine :: string
  ap_data :: string
  ap_lock :: string
  ap_cred :: string
  ap_reader :: string
  ap_system :: string
  ap_repl :: string
  ap_write :: string
  ap_cred_base :: string
  ap_pending :: string
  ap_privileged :: "string list"

definition acl_tokens :: "acl_params \<Rightarrow> string \<Rightarrow> string" where
  "acl_tokens p name =
     (case map_of
        [(''MACHINE_DN'', ap_machine p), (''ALLOWED_DN'', ''''), (''WDATA_DN'', ap_data p), (''WLOCK_DN'', ap_lock p),
         (''WCRED_DN'', ap_cred p), (''READER_DN'', ap_reader p), (''SYSTEM_DN'', ap_system p), (''REPL_DN'', ap_repl p),
         (''WRITE_DN'', ap_write p), (''CRED_DN'', ap_cred_base p), (''PENDING_POLICY_DN'', ap_pending p)] name of
        None \<Rightarrow> '''' | Some v \<Rightarrow> v)"

text \<open>The blocks that may come in either order: the first that matches is taken, until none is left.\<close>

fun find_block :: "dn_lib \<Rightarrow> string list \<Rightarrow> nat \<Rightarrow> aelem list list list \<Rightarrow> (aelem list list \<times> aelem list list list) option" where
  "find_block D rules pos [] = None"
| "find_block D rules pos (b # bs) =
     (if matchBlock D rules pos b then Some (b, bs) else map_option (\<lambda>(f, r). (f, b # r)) (find_block D rules pos bs))"

lemma find_block_shorter: "find_block D rules pos bs = Some (b, rest) \<Longrightarrow> length bs = Suc (length rest)"
  by (induction bs arbitrary: rest) (auto split: if_splits)

function match_blocks :: "dn_lib \<Rightarrow> string list \<Rightarrow> nat \<Rightarrow> aelem list list list \<Rightarrow> nat option" where
  "match_blocks D rules pos blocks =
     (if blocks = [] then Some pos
      else case find_block D rules pos blocks of
        None \<Rightarrow> None
      | Some (b, rest) \<Rightarrow> match_blocks D rules (pos + length b) rest)"
  by pat_completeness auto

termination
  by (relation "measure (\<lambda>(D, rules, pos, blocks). length blocks)") (auto dest: find_block_shorter)

declare match_blocks.simps [simp del]

definition data_block :: "acl_params \<Rightarrow> aelem list list" where
  "data_block p =
     (let data = compileBlock premiseDataRules (acl_tokens p) (ap_privileged p) in
      take 2 data @ compileBlock premiseDataCredRules (acl_tokens p) (ap_privileged p) @ drop 2 data)"

definition movable_blocks :: "acl_params \<Rightarrow> aelem list list list" where
  "movable_blocks p =
     data_block p # (if ap_lock p \<noteq> '''' then [compileBlock premiseLockRules (acl_tokens p) (ap_privileged p)] else [])"

definition compareCredACL :: "dn_lib \<Rightarrow> string list \<Rightarrow> acl_params \<Rightarrow> string" where
  "compareCredACL D values p =
     (case storedRules values of
        None \<Rightarrow> ''acl_unreadable''
      | Some rules \<Rightarrow>
          (let block = (\<lambda>ldif. compileBlock ldif (acl_tokens p) (ap_privileged p));
               start = (if matchBlock D rules 0 (block premiseReplRule) then 1 else 0) in
           if \<not> matchBlock D rules start (block premiseMRules) then ''acl_prefix_mismatch''
           else case match_blocks D rules (start + 3) (movable_blocks p) of
             None \<Rightarrow> ''acl_prefix_mismatch''
           | Some pos \<Rightarrow>
               if \<not> matchBlock D rules pos (block premiseCredRules) then ''acl_cred_bundle_mismatch''
               else if \<not> matchBlock D rules (pos + length (block premiseCredRules)) (block premiseReaderMainRules)
               then ''acl_reader_rule_missing''
               else ''''))"

text \<open>\<open>commonAncestor\<close>: the deepest name equal to or above every name of the list.\<close>

fun common_suffix :: "dn_lib \<Rightarrow> dn \<Rightarrow> dn \<Rightarrow> nat" where
  "common_suffix D (a # as) (b # bs) = (if dl_eq D [a] [b] then Suc (common_suffix D as bs) else 0)"
| "common_suffix D _ _ = 0"

text \<open>The two names are compared from their last component on.\<close>

definition common_step :: "dn_lib \<Rightarrow> string \<Rightarrow> dn option \<Rightarrow> dn option option" where
  "common_step D raw common =
     (case dl_parse D raw of
        None \<Rightarrow> None
      | Some d \<Rightarrow>
          if d = [] then None
          else Some (case common of
              None \<Rightarrow> Some d
            | Some c \<Rightarrow> Some (drop (length c - common_suffix D (rev c) (rev d)) c)))"

fun common_loop :: "dn_lib \<Rightarrow> string list \<Rightarrow> dn option \<Rightarrow> dn option" where
  "common_loop D [] common = common"
| "common_loop D (raw # raws) common =
     (case common_step D raw common of None \<Rightarrow> None | Some c \<Rightarrow> common_loop D raws c)"

definition commonAncestor :: "dn_lib \<Rightarrow> string list \<Rightarrow> dn option" where
  "commonAncestor D list = (case common_loop D list None of Some c \<Rightarrow> if c = [] then None else Some c | None \<Rightarrow> None)"

end
