(* ===== verification/PremiseAclProps.thy ===== *)
theory PremiseAclProps
  imports PremiseAcl
begin

text \<open>
  What access rules that pass \<open>compareCredACL\<close> say: whatever stands before the bundle of the password writer names one of the other
  identities and passes on, and the bundle ends with a rule that gives the password writer nothing more.
\<close>

subsection \<open>Templates that end in one clause\<close>

definition clause_head :: string where \<open>clause_head = '' by dn.exact="''\<close>
definition clause_rest :: "string \<Rightarrow> string" where \<open>clause_rest acc = ''" '' @ acc @ '' by * break''\<close>

definition clause_tail :: "string \<Rightarrow> string \<Rightarrow> piece list" where
  "clause_tail name acc = map Byte clause_head @ Token name # map Byte (clause_rest acc)"

definition accesses :: "string list" where
  "accesses = [''none'', ''write'', ''add'', ''read'', ''=rsc'', ''=w'', ''=z'']"

definition ends_in :: "piece list \<Rightarrow> piece list \<Rightarrow> bool" where
  "ends_in ps suf \<longleftrightarrow> take (length suf) (rev ps) = rev suf"

lemma ends_in_iff: "ends_in ps suf \<longleftrightarrow> (\<exists>qs. ps = qs @ suf)"
proof
  assume "ends_in ps suf"
  then have "rev ps = rev suf @ drop (length suf) (rev ps)" by (metis append_take_drop_id ends_in_def)
  then have "ps = rev (drop (length suf) (rev ps)) @ suf" by (metis rev_append rev_rev_ident)
  then show "\<exists>qs. ps = qs @ suf" by blast
qed (auto simp: ends_in_def)

definition tail_ok :: "string list \<Rightarrow> piece list \<Rightarrow> bool" where
  "tail_ok names ps \<longleftrightarrow> list_ex (\<lambda>name. list_ex (\<lambda>acc. ends_in ps (clause_tail name acc)) accesses) names"

lemma tail_ok_iff: "tail_ok names ps \<longleftrightarrow> (\<exists>name \<in> set names. \<exists>acc \<in> set accesses. \<exists>qs. ps = qs @ clause_tail name acc)"
  by (simp add: tail_ok_def list_ex_iff ends_in_iff)

lemma tail_ok_append: "tail_ok names ps \<Longrightarrow> tail_ok names (qs @ ps)"
  unfolding tail_ok_iff by (metis append_assoc)

text \<open>The filter of the privileged groups is inserted behind a closing parenthesis, where no token can begin or end.\<close>

fun cut_first :: "string \<Rightarrow> string \<Rightarrow> (string \<times> string) option" where
  "cut_first old [] = None"
| "cut_first old (c # s) =
     (if take 1 old = [c] then
        (if has_prefix (c # s) old then Some ([], drop (length old) (c # s)) else map_option (\<lambda>(a, b). (c # a, b)) (cut_first old s))
      else map_option (\<lambda>(a, b). (c # a, b)) (cut_first old s))"

lemma has_prefix_first: "has_prefix (c # s) old \<Longrightarrow> old \<noteq> [] \<Longrightarrow> take 1 old = [c]"
  by (cases old) (auto simp: has_prefix_def)

lemma ReplaceAll_uncut: "cut_first old s = None \<Longrightarrow> ReplaceAll old new s = s"
  by (induction s) (auto dest: has_prefix_first split: if_splits)

lemma uncut_contains: "cut_first old s = None \<Longrightarrow> old \<noteq> [] \<Longrightarrow> \<not> contains_sub s old"
  by (induction s) (auto dest: has_prefix_first split: if_splits)

lemma ReplaceAll_cut: "cut_first old s = Some (a, b) \<Longrightarrow> old \<noteq> [] \<Longrightarrow> ReplaceAll old new s = a @ new @ ReplaceAll old new b"
  by (induction s arbitrary: a) (auto dest: has_prefix_first split: if_splits)

definition boundary :: "char \<Rightarrow> bool" where
  "boundary c \<longleftrightarrow> \<not> token_char c \<and> c \<noteq> CHR ''@''"

lemma takeWhile_until: "\<not> P c \<Longrightarrow> takeWhile P (xs @ c # ys) = takeWhile P xs"
  by (induction xs) auto

lemma token_at_append:
  assumes "boundary c"
  shows "token_at (x # xs @ c # ys) = (case token_at (x # xs @ [c]) of None \<Rightarrow> None | Some (name, rest) \<Rightarrow> Some (name, rest @ ys))"
    and "token_at (x # xs @ [c]) = Some (name, rest) \<Longrightarrow> rest \<noteq> [] \<and> last rest = c"
proof -
  let ?n = "takeWhile token_char xs"
  have n: "takeWhile token_char (xs @ c # ys) = ?n" "takeWhile token_char (xs @ [c]) = ?n"
    using assms by (auto simp: boundary_def takeWhile_until)
  have len: "length ?n \<le> length xs" by (simp add: length_takeWhile_le)
  show "token_at (x # xs @ c # ys) = (case token_at (x # xs @ [c]) of None \<Rightarrow> None | Some (name, rest) \<Rightarrow> Some (name, rest @ ys))"
    using len assms by (cases "drop (length ?n) xs") (auto simp: token_at_def Let_def n boundary_def)
  assume "token_at (x # xs @ [c]) = Some (name, rest)"
  then show "rest \<noteq> [] \<and> last rest = c"
    using len assms by (cases "drop (length ?n) xs") (auto simp: token_at_def Let_def n boundary_def split: if_splits)
qed

lemma pieces_append_last: "xs \<noteq> [] \<Longrightarrow> boundary (last xs) \<Longrightarrow> pieces (xs @ ys) = pieces xs @ pieces ys"
proof (induction xs rule: length_induct)
  case (1 xs)
  show ?case
  proof (cases xs)
    case (Cons x zs)
    show ?thesis
    proof (cases "zs = []")
      case True
      with 1 Cons have "token_at (x # ys) = None" "token_at [x] = None" by (auto simp: token_at_def boundary_def Let_def)
      with True Cons show ?thesis by simp
    next
      case False
      then obtain ws c where zs: "zs = ws @ [c]" by (metis rev_exhaust)
      have c: "boundary c" using 1(3) Cons zs by simp
      note t = token_at_append(1) [OF c, of x ws ys]
      show ?thesis
      proof (cases "token_at (x # ws @ [c])")
        case None
        have "length (ws @ [c]) < length xs" "ws @ [c] \<noteq> []" "boundary (last (ws @ [c]))" by (simp_all add: Cons zs c)
        with 1(1) have "pieces ((ws @ [c]) @ ys) = pieces (ws @ [c]) @ pieces ys" by blast
        with t None Cons zs show ?thesis by simp
      next
        case (Some p)
        obtain name rest where p: "p = (name, rest)" by fastforce
        have r: "rest \<noteq> []" "last rest = c" "length rest < length xs"
          using token_at_append(2) [OF c Some [unfolded p]] token_at_shorter [OF Some [unfolded p]] Cons zs by auto
        from 1(1) r c have "pieces (rest @ ys) = pieces rest @ pieces ys" by blast
        with t Some p Cons zs show ?thesis by simp
      qed
    qed
  qed (use 1 in simp)
qed

lemma priv_filter_boundary: "priv_filter n = [] \<or> boundary (last (priv_filter n))"
proof (cases n)
  case (Suc m)
  have "boundary (CHR '')'')" by code_simp
  with Suc show ?thesis by (simp add: priv_filter_def)
qed (simp add: priv_filter_def)

definition filter_mark :: string where "filter_mark = ''@PRIV_FILTER@''"

definition template_ok :: "string list \<Rightarrow> string \<Rightarrow> bool" where
  "template_ok names tpl \<longleftrightarrow>
     (case cut_first filter_mark tpl of
        None \<Rightarrow> tail_ok names (pieces tpl)
      | Some (a, b) \<Rightarrow> a \<noteq> [] \<and> boundary (last a) \<and> cut_first filter_mark b = None \<and> tail_ok names (pieces b))"

lemma template_tail:
  assumes "template_ok names tpl"
  shows "tail_ok names (pieces (ReplaceAll filter_mark (priv_filter n) tpl))"
proof (cases "cut_first filter_mark tpl")
  case None
  with assms ReplaceAll_uncut [OF None] show ?thesis by (simp add: template_ok_def)
next
  case (Some ab)
  obtain a b where ab: "ab = (a, b)" by fastforce
  have t: "a \<noteq> []" "boundary (last a)" "cut_first filter_mark b = None" "tail_ok names (pieces b)"
    using assms Some ab by (auto simp: template_ok_def)
  have "ReplaceAll filter_mark (priv_filter n) tpl = a @ priv_filter n @ b"
    using ReplaceAll_cut [OF Some [unfolded ab]] ReplaceAll_uncut [OF t(3)] by (simp add: filter_mark_def)
  moreover have "pieces (priv_filter n @ b) = pieces (priv_filter n) @ pieces b"
    using priv_filter_boundary [of n] pieces_append_last by (cases "priv_filter n = []") auto
  ultimately show ?thesis using t by (simp add: pieces_append_last tail_ok_append)
qed

subsection \<open>The fixtures\<close>

subsection \<open>The fixtures\<close>

lemma repl_tails: "list_all (template_ok [''REPL_DN'']) (templateRules premiseReplRule)"
  by code_simp

lemma machine_tails: "list_all (template_ok [''MACHINE_DN'']) (templateRules premiseMRules)"
  by code_simp

lemma data_tails: "list_all (template_ok [''WDATA_DN'']) (templateRules premiseDataRules)"
  by code_simp

lemma lock_tails: "list_all (template_ok [''WLOCK_DN'']) (templateRules premiseLockRules)"
  by code_simp

lemma data_cred_tails: "list_all (template_ok [''WDATA_DN'']) (templateRules premiseDataCredRules)"
  by code_simp

text \<open>The bundle of the password writer has seven rules, none of them repeated per group, and ends in a rule for everything.\<close>

definition catch_all :: "string \<Rightarrow> piece list" where
  "catch_all name = map Byte ''to *'' @ clause_tail name ''none''"

definition bundle_ok :: "string \<Rightarrow> string list \<Rightarrow> bool" where
  "bundle_ok name tpls \<longleftrightarrow>
     list_all (\<lambda>t. cut_first ''@PRIV_GROUP_DN@'' t = None) tpls \<and> cut_first filter_mark (last tpls) = None \<and> pieces (last tpls) = catch_all name"

lemma cred_bundle: "length (templateRules premiseCredRules) = 7 \<and> bundle_ok ''WCRED_DN'' (templateRules premiseCredRules)"
  by code_simp

lemma reader_bundle: "length (templateRules premiseReaderMainRules) = 1 \<and> bundle_ok ''READER_DN'' (templateRules premiseReaderMainRules)"
  by code_simp

subsection \<open>What a match says of the stored text\<close>

lemma first_some_Some: "first_some f xs = Some y \<Longrightarrow> \<exists>x \<in> set xs. f x = Some y"
  by (induction xs) (auto split: option.splits)

lemma wants_simps [simp]: "wants [] = []" "wants (Lit c # es) = wants es" "wants (Group w # es) = w # wants es"
  "wants (es @ fs) = wants es @ wants fs" "wants (map Lit cs) = []"
  by (auto simp: wants_def)

lemma rule_match_append:
  "rule_match (es @ fs) s = Some caps \<Longrightarrow>
     \<exists>s1 s2 c1 c2. s = s1 @ s2 \<and> caps = c1 @ c2 \<and> length c1 = length (wants es) \<and> rule_match fs s2 = Some c2"
proof (induction es arbitrary: s caps)
  case Nil
  then show ?case by (intro exI [of _ "[]"] exI [of _ s] exI [of _ "[]"] exI [of _ caps]) simp
next
  case (Cons e es)
  show ?case
  proof (cases e)
    case (Lit c)
    with Cons.prems obtain s' where s: "s = c # s'" "rule_match (es @ fs) s' = Some caps" by (auto split: list.splits if_splits)
    obtain s1 s2 c1 c2 where *: "s' = s1 @ s2" "caps = c1 @ c2" "length c1 = length (wants es)" "rule_match fs s2 = Some c2"
      using Cons.IH [OF s(2)] by blast
    then show ?thesis using s(1) Lit by (intro exI [of _ "c # s1"] exI [of _ s2] exI [of _ c1] exI [of _ c2]) simp
  next
    case (Group w)
    with Cons.prems obtain n cs where n: "rule_match (es @ fs) (drop n s) = Some cs" "caps = take n s # cs"
      by (auto dest: first_some_Some)
    obtain s1 s2 c1 c2 where *: "drop n s = s1 @ s2" "cs = c1 @ c2" "length c1 = length (wants es)" "rule_match fs s2 = Some c2"
      using Cons.IH [OF n(1)] by blast
    have "s = (take n s @ s1) @ s2" using *(1) by (metis append.assoc append_take_drop_id)
    then show ?thesis using n(2) * Group by (intro exI [of _ "take n s @ s1"] exI [of _ s2] exI [of _ "take n s # c1"] exI [of _ c2]) simp
  qed
qed

lemma rule_match_lits: "rule_match (map Lit cs @ fs) s = Some caps \<Longrightarrow> \<exists>s2. s = cs @ s2 \<and> rule_match fs s2 = Some caps"
  by (induction cs arbitrary: s) (auto split: list.splits if_splits)

lemma rule_match_only_lits: "rule_match (map Lit cs) s = Some caps \<Longrightarrow> s = cs \<and> caps = []"
  using rule_match_lits [of cs "[]" s caps] by (auto split: if_splits)

lemma rule_match_group:
  "rule_match (Group w # fs) s = Some caps \<Longrightarrow> \<exists>who s2 cs. s = who @ s2 \<and> caps = who # cs \<and> rule_match fs s2 = Some cs"
  by (auto dest!: first_some_Some) (metis append_take_drop_id)+

text \<open>A rule whose last clause names the identity and passes on to the next rule.\<close>

definition clause_text :: "string \<Rightarrow> string \<Rightarrow> string" where
  "clause_text who acc = clause_head @ who @ clause_rest acc"

definition names_last :: "dn_lib \<Rightarrow> string list \<Rightarrow> string \<Rightarrow> bool" where
  "names_last D wanted rule \<longleftrightarrow>
     (\<exists>front who. \<exists>acc \<in> set accesses. \<exists>w \<in> set wanted. rule = front @ clause_text who acc \<and> name_matches D w who)"

definition tail_elems :: "string \<Rightarrow> string \<Rightarrow> aelem list" where
  "tail_elems w acc = map Lit clause_head @ Group w # map Lit (clause_rest acc)"

lemma tail_match:
  assumes "rule_match (tail_elems w acc) s = Some caps"
  obtains who where "s = clause_text who acc" "caps = [who]"
proof -
  obtain s2 where s2: "s = clause_head @ s2" "rule_match (Group w # map Lit (clause_rest acc)) s2 = Some caps"
    using rule_match_lits [OF assms [unfolded tail_elems_def]] by blast
  obtain who s3 cs where w: "s2 = who @ s3" "caps = who # cs" "rule_match (map Lit (clause_rest acc)) s3 = Some cs"
    using rule_match_group [OF s2(2)] by blast
  from rule_match_only_lits [OF w(3)] w s2(1) that show ?thesis by (simp add: clause_text_def)
qed

lemma match_names_last:
  assumes "aclRule_match D (es @ tail_elems w acc) s" "acc \<in> set accesses" "w \<in> set wanted"
  shows "names_last D wanted s"
proof -
  obtain caps where caps: "rule_match (es @ tail_elems w acc) s = Some caps"
    "list_all2 (name_matches D) (wants (es @ tail_elems w acc)) caps"
    using assms(1) by (auto simp: aclRule_match_def split: option.splits)
  obtain s1 s2 c1 c2 where p: "s = s1 @ s2" "caps = c1 @ c2" "length c1 = length (wants es)" "rule_match (tail_elems w acc) s2 = Some c2"
    using rule_match_append [OF caps(1)] by blast
  obtain who where who: "s2 = clause_text who acc" "c2 = [who]" by (rule tail_match [OF p(4)])
  have "name_matches D w who"
    using caps(2) p(2,3) who(2) by (simp add: tail_elems_def list_all2_append)
  with p(1) who(1) assms(2,3) show ?thesis unfolding names_last_def by blast
qed

subsection \<open>Blocks\<close>

definition plain_token :: "string \<Rightarrow> bool" where
  "plain_token name \<longleftrightarrow> \<not> has_prefix name ''PRIV_''"

lemma compile_bytes [simp]: "map (compile_piece toks privileged \<circ> Byte) cs = map Lit cs"
  by (simp add: compile_piece_def)

lemma compile_tail:
  assumes "plain_token name"
  shows "map (compile_piece toks privileged) (qs @ clause_tail name acc) = map (compile_piece toks privileged) qs @ tail_elems (toks name) acc"
  using assms by (simp add: clause_tail_def tail_elems_def compile_piece_def token_value_def plain_token_def)

lemma compiled_rule:
  assumes "template_ok names tpl" "list_all plain_token names" "aclRule_match D (compileRule tpl toks privileged) s"
  shows "names_last D (map toks names) s"
proof -
  obtain name acc qs where t: "name \<in> set names" "acc \<in> set accesses"
    "pieces (ReplaceAll filter_mark (priv_filter (length privileged)) tpl) = qs @ clause_tail name acc"
    using template_tail [OF assms(1), of "length privileged"] unfolding tail_ok_iff by blast
  have n: "plain_token name" using assms(2) t(1) by (auto simp: list_all_iff)
  have "compileRule tpl toks privileged = map (compile_piece toks privileged) qs @ tail_elems (toks name) acc"
    by (simp only: compileRule_def filter_mark_def [symmetric] t(3) compile_tail [OF n])
  with assms(3) match_names_last t(1,2) show ?thesis by (metis image_eqI list.set_map)
qed

lemma compiled_block:
  assumes "list_all (template_ok names) (templateRules ldif)" "list_all plain_token names" "es \<in> set (compileBlock ldif toks privileged)"
    "aclRule_match D es s"
  shows "names_last D (map toks names) s"
proof -
  obtain tpl where tpl: "tpl \<in> set (templateRules ldif)" "es \<in> set (compile_template toks privileged tpl)"
    using assms(3) by (auto simp: compileBlock_def)
  have ok: "template_ok names tpl" using assms(1) tpl(1) by (simp add: list_all_iff)
  from tpl(2) consider (plain) "es = compileRule tpl toks privileged"
    | (group) g where "es = compileRule tpl (toks(''PRIV_GROUP_DN'' := g)) privileged"
    by (auto simp: compile_template_def split: if_splits)
  then show ?thesis
  proof cases
    case plain
    with compiled_rule [OF ok assms(2)] assms(4) show ?thesis by blast
  next
    case group
    have "map (toks(''PRIV_GROUP_DN'' := g)) names = map toks names"
      using assms(2) by (auto simp: list_all_iff plain_token_def has_prefix_def)
    with compiled_rule [OF ok assms(2)] assms(4) group show ?thesis by metis
  qed
qed

lemma matchBlock_rule:
  "matchBlock D rules pos block \<Longrightarrow> pos \<le> i \<Longrightarrow> i < pos + length block \<Longrightarrow> aclRule_match D (block ! (i - pos)) (rules ! i)"
  by (auto simp: matchBlock_def list_all_iff dest!: bspec [of _ _ "i - pos"])

lemma find_block_in: "find_block D rules pos bs = Some (b, rest) \<Longrightarrow> matchBlock D rules pos b \<and> set bs = insert b (set rest)"
  by (induction bs arbitrary: rest) (auto split: if_splits)

lemma matchBlock_all:
  assumes "matchBlock D rules pos b" "\<And>es s. es \<in> set b \<Longrightarrow> aclRule_match D es s \<Longrightarrow> Q s" "\<forall>i < pos. Q (rules ! i)"
  shows "\<forall>i < pos + length b. Q (rules ! i)"
proof (intro allI impI)
  fix i assume i: "i < pos + length b"
  show "Q (rules ! i)"
  proof (cases "i < pos")
    case False
    with matchBlock_rule [OF assms(1), of i] i assms(2) [of "b ! (i - pos)"] show ?thesis by simp
  qed (use assms(3) in simp)
qed

lemma match_blocks_all:
  assumes "match_blocks D rules pos blocks = Some n" "\<And>b es s. b \<in> set blocks \<Longrightarrow> es \<in> set b \<Longrightarrow> aclRule_match D es s \<Longrightarrow> Q s"
    "\<forall>i < pos. Q (rules ! i)"
  shows "\<forall>i < n. Q (rules ! i)"
  using assms
proof (induction D rules pos blocks rule: match_blocks.induct)
  case (1 D rules pos blocks)
  show ?case
  proof (cases "blocks = []")
    case False
    with 1(2) obtain b rest where f: "find_block D rules pos blocks = Some (b, rest)" "match_blocks D rules (pos + length b) rest = Some n"
      by (auto simp: match_blocks.simps [of D rules pos blocks] split: option.splits)
    have b: "matchBlock D rules pos b" "set blocks = insert b (set rest)" using find_block_in [OF f(1)] by auto
    have "\<forall>i < pos + length b. Q (rules ! i)" using matchBlock_all [OF b(1), of Q] 1(3,4) b(2) by blast
    from 1(1) [OF False f(1) refl f(2) _ this] 1(3) b(2) show ?thesis by blast
  qed (use 1 in \<open>simp add: match_blocks.simps\<close>)
qed

text \<open>The identities that may stand before the bundle.\<close>

definition other_names :: "acl_params \<Rightarrow> string list" where
  "other_names p = [ap_repl p, ap_machine p, ap_data p] @ (if ap_lock p \<noteq> '''' then [ap_lock p] else [])"

lemma acl_token_values [simp]:
  "acl_tokens p ''REPL_DN'' = ap_repl p" "acl_tokens p ''MACHINE_DN'' = ap_machine p" "acl_tokens p ''WDATA_DN'' = ap_data p"
  "acl_tokens p ''WLOCK_DN'' = ap_lock p" "acl_tokens p ''WCRED_DN'' = ap_cred p" "acl_tokens p ''READER_DN'' = ap_reader p"
  by (simp_all add: acl_tokens_def)

lemma plain_names: "list_all plain_token [''REPL_DN'']" "list_all plain_token [''MACHINE_DN'']" "list_all plain_token [''WDATA_DN'']"
  "list_all plain_token [''WLOCK_DN'']" "plain_token ''WCRED_DN''" "plain_token ''READER_DN''"
  by code_simp+

lemma names_last_mono: "names_last D xs s \<Longrightarrow> set xs \<subseteq> set ys \<Longrightarrow> names_last D ys s"
  by (force simp: names_last_def)

lemmas block_names =
  compiled_block [OF repl_tails plain_names(1)] compiled_block [OF machine_tails plain_names(2)]
  compiled_block [OF data_tails plain_names(3)] compiled_block [OF lock_tails plain_names(4)]
  compiled_block [OF data_cred_tails plain_names(3)]

lemma movable_names:
  assumes "b \<in> set (movable_blocks p)" "es \<in> set b" "aclRule_match D es s"
  shows "names_last D (other_names p) s"
proof -
  have "(es \<in> set (compileBlock premiseDataRules (acl_tokens p) (ap_privileged p)) \<or>
      es \<in> set (compileBlock premiseDataCredRules (acl_tokens p) (ap_privileged p))) \<or>
      ap_lock p \<noteq> '''' \<and> es \<in> set (compileBlock premiseLockRules (acl_tokens p) (ap_privileged p))"
    using assms(1,2) by (auto simp: movable_blocks_def data_block_def Let_def dest: in_set_takeD in_set_dropD split: if_splits)
  then consider "names_last D [ap_data p] s" | "ap_lock p \<noteq> ''''" "names_last D [ap_lock p] s"
    using block_names(3,4,5) [of es "acl_tokens p" "ap_privileged p" D s] assms(3) by auto
  then show ?thesis by cases (auto simp: other_names_def elim: names_last_mono)
qed

text \<open>A rule for everything that gives the identity nothing.\<close>

definition shuts_out :: "dn_lib \<Rightarrow> string \<Rightarrow> string \<Rightarrow> bool" where
  "shuts_out D w rule \<longleftrightarrow> (\<exists>who. rule = ''to *'' @ clause_text who ''none'' \<and> name_matches D w who)"

lemma bundle_last:
  assumes "bundle_ok name (templateRules ldif)" "plain_token name" "templateRules ldif \<noteq> []"
  shows "length (compileBlock ldif toks privileged) = length (templateRules ldif) \<and>
    (aclRule_match D (last (compileBlock ldif toks privileged)) s \<longrightarrow> shuts_out D (toks name) s)"
proof -
  let ?tpls = "templateRules ldif"
  have plain: "compile_template toks privileged t = [compileRule t toks privileged]" if "t \<in> set ?tpls" for t
    using assms(1) that uncut_contains [of "''@PRIV_GROUP_DN@''" t]
    by (auto simp: bundle_ok_def list_all_iff compile_template_def)
  have blk: "compileBlock ldif toks privileged = map (\<lambda>t. compileRule t toks privileged) ?tpls"
    using plain unfolding compileBlock_def by (induction ?tpls) (auto simp: compileBlock_def cong: map_cong)
  have l: "cut_first filter_mark (last ?tpls) = None" "pieces (last ?tpls) = catch_all name"
    using assms(1) by (auto simp: bundle_ok_def)
  have c: "compileRule (last ?tpls) toks privileged = map Lit ''to *'' @ tail_elems (toks name) ''none''"
    unfolding compileRule_def filter_mark_def [symmetric] ReplaceAll_uncut [OF l(1)] l(2) catch_all_def compile_tail [OF assms(2)]
    by (simp add: compile_piece_def)
  have "shuts_out D (toks name) s" if m: "aclRule_match D (last (compileBlock ldif toks privileged)) s"
  proof -
    have "aclRule_match D (map Lit ''to *'' @ tail_elems (toks name) ''none'') s"
      using m unfolding blk last_map [OF assms(3)] c .
    then obtain caps where caps: "rule_match (map Lit ''to *'' @ tail_elems (toks name) ''none'') s = Some caps"
      "list_all2 (name_matches D) (wants (map Lit ''to *'' @ tail_elems (toks name) ''none'')) caps"
      by (auto simp: aclRule_match_def split: option.splits)
    obtain s2 where s2: "s = ''to *'' @ s2" "rule_match (tail_elems (toks name) ''none'') s2 = Some caps"
      using rule_match_lits [OF caps(1)] by blast
    obtain who where who: "s2 = clause_text who ''none''" "caps = [who]" by (rule tail_match [OF s2(2)])
    have "name_matches D (toks name) who"
      using caps(2) unfolding who(2) wants_simps(4) wants_simps(5) tail_elems_def by simp
    with s2(1) who(1) show ?thesis unfolding shuts_out_def by blast
  qed
  with blk show ?thesis by simp
qed

text \<open>Templates that name no single group compile to one rule each.\<close>

definition single_rules :: "string list \<Rightarrow> bool" where
  "single_rules tpls \<longleftrightarrow> list_all (\<lambda>t. cut_first ''@PRIV_GROUP_DN@'' t = None) tpls"

lemma one_per_rule: "single_rules (templateRules ldif) \<Longrightarrow> length (compileBlock ldif toks privileged) = length (templateRules ldif)"
proof -
  assume s: "single_rules (templateRules ldif)"
  have "length (concat (map (compile_template toks privileged) ts)) = length ts" if "single_rules ts" for ts
    using that uncut_contains [of "''@PRIV_GROUP_DN@''"] by (induction ts) (auto simp: single_rules_def compile_template_def)
  with s show ?thesis by (simp add: compileBlock_def)
qed

lemma repl_length: "length (templateRules premiseReplRule) = 1 \<and> single_rules (templateRules premiseReplRule)"
  by code_simp

lemma machine_length: "length (templateRules premiseMRules) = 3 \<and> single_rules (templateRules premiseMRules)"
  by code_simp

text \<open>Rules that pass: \<open>n\<close> of them before the bundle, each naming another identity; then the seven of the bundle; then the reader's.\<close>

definition acl_layout :: "dn_lib \<Rightarrow> acl_params \<Rightarrow> string list \<Rightarrow> nat \<Rightarrow> bool" where
  "acl_layout D p rules n \<longleftrightarrow>
     n + 7 < length rules \<and> (\<forall>i < n. names_last D (other_names p) (rules ! i)) \<and>
     matchBlock D rules n (compileBlock premiseCredRules (acl_tokens p) (ap_privileged p)) \<and>
     shuts_out D (ap_cred p) (rules ! (n + 6)) \<and> shuts_out D (ap_reader p) (rules ! (n + 7))"

lemma compareCredACL_layout:
  assumes "compareCredACL D values p = ''''"
  shows "\<exists>rules n. storedRules values = Some rules \<and> acl_layout D p rules n"
proof -
  let ?block = "\<lambda>ldif. compileBlock ldif (acl_tokens p) (ap_privileged p)"
  obtain rules where rules: "storedRules values = Some rules" using assms by (auto simp: compareCredACL_def split: option.splits)
  define start :: nat where "start = (if matchBlock D rules 0 (?block premiseReplRule) then 1 else 0)"
  obtain n where n: "matchBlock D rules start (?block premiseMRules)" "match_blocks D rules (start + 3) (movable_blocks p) = Some n"
    "matchBlock D rules n (?block premiseCredRules)" "matchBlock D rules (n + length (?block premiseCredRules)) (?block premiseReaderMainRules)"
    using assms by (auto simp: compareCredACL_def rules Let_def start_def split: option.splits if_splits)
  have lens: "length (?block premiseMRules) = 3" "length (?block premiseReplRule) = 1"
    using machine_length repl_length by (auto simp: one_per_rule)
  have s: "\<forall>i < start. names_last D (other_names p) (rules ! i)"
  proof (cases "matchBlock D rules 0 (?block premiseReplRule)")
    case True
    have "\<forall>i < 0 + length (?block premiseReplRule). names_last D (other_names p) (rules ! i)"
      by (rule matchBlock_all [OF True]) (auto simp: other_names_def dest!: block_names(1) elim: names_last_mono)
    with True show ?thesis by (simp add: start_def lens(2))
  qed (simp add: start_def)
  have "\<forall>i < start + length (?block premiseMRules). names_last D (other_names p) (rules ! i)"
    by (rule matchBlock_all [OF n(1) _ s]) (auto simp: other_names_def dest!: block_names(2) elim: names_last_mono)
  then have m: "\<forall>i < start + 3. names_last D (other_names p) (rules ! i)" by (simp only: lens(1))
  have before: "\<forall>i < n. names_last D (other_names p) (rules ! i)"
    by (rule match_blocks_all [OF n(2) _ m]) (rule movable_names)
  note cred = bundle_last [OF conjunct2 [OF cred_bundle] plain_names(5)] and reader = bundle_last [OF conjunct2 [OF reader_bundle] plain_names(6)]
  have cl: "length (?block premiseCredRules) = 7" "length (?block premiseReaderMainRules) = 1"
    using cred reader cred_bundle reader_bundle by (metis list.size(3) zero_neq_numeral, metis list.size(3) zero_neq_one)
  have ne: "templateRules premiseCredRules \<noteq> []" "templateRules premiseReaderMainRules \<noteq> []"
    using cred_bundle reader_bundle by (metis list.size(3) zero_neq_numeral, metis list.size(3) zero_neq_one)
  have "last (?block premiseCredRules) = ?block premiseCredRules ! 6" "last (?block premiseReaderMainRules) = ?block premiseReaderMainRules ! 0"
    using cl by (subst last_conv_nth; force)+
  note at_end = this
  have "aclRule_match D (last (?block premiseCredRules)) (rules ! (n + 6))"
    using matchBlock_rule [OF n(3), of "n + 6"] cl(1) by (simp add: at_end)
  then have c6: "shuts_out D (ap_cred p) (rules ! (n + 6))" using cred [OF ne(1)] acl_token_values(5) by metis
  have "aclRule_match D (last (?block premiseReaderMainRules)) (rules ! (n + 7))"
    using matchBlock_rule [OF n(4), of "n + 7"] cl by (simp add: at_end)
  then have r: "shuts_out D (ap_reader p) (rules ! (n + 7))" using reader [OF ne(2)] acl_token_values(6) by metis
  have "n + 7 < length rules" using n(4) cl by (simp add: matchBlock_def)
  with before n(3) c6 r rules show ?thesis unfolding acl_layout_def by blast
qed

end
