(* ===== verification/LdapEntry.thy ===== *)
theory LdapEntry
  imports WritePipeline
begin

text \<open>
  Entries, searches and conditional writes of package \<open>ldapclient\<close>: \<open>attrValues\<close> and \<open>readEntryAttr\<close> of
  \<open>machine_write_identity.go\<close>, the assertion controls of \<open>assertion.go\<close> and \<open>machine_write_assertion.go\<close>, the error map of
  \<open>errors.go\<close>.

  What one search answers is an argument: whether the context had ended before and after it, and the LDAP result code (-1 when
  there is none) or the entries and the number of referrals. The values of a Go context are a record \<open>write_ctx\<close>.
  An assertion control is its filter text.
\<close>

subsection \<open>Entries and searches\<close>

record dir_entry =
  le_dn :: string
  le_attrs :: "(string \<times> string list) list"

record search_result =
  sr_entries :: "dir_entry list"
  sr_referrals :: nat

record dir_answer =
  da_before :: bool
  da_after :: bool
  da_result :: "int + search_result"

text \<open>One connection: whether it opened, whether a bind under a name succeeds, and the answer to its n-th search when that asks for the
  entry of a name.\<close>

record dir_session =
  ds_conn :: bool
  ds_bind :: "string \<Rightarrow> bool"
  ds_answer :: "nat \<Rightarrow> string \<Rightarrow> dir_answer"

definition attrValues :: "cfg_lib \<Rightarrow> dir_entry \<Rightarrow> string \<Rightarrow> string list" where
  "attrValues L e name = concat (map snd (filter (\<lambda>a. cl_fold L (fst a) name) (le_attrs e)))"

definition noSuchObject :: "int + search_result \<Rightarrow> bool" where
  "noSuchObject r \<longleftrightarrow> r = Inl 32"

definition readEntryAttr :: "dir_answer \<Rightarrow> domain_error + dir_entry" where
  "readEntryAttr a =
     (if noSuchObject (da_result a) \<and> \<not> da_after a then Inl DNotFound
      else case da_result a of
        Inl _ \<Rightarrow> Inl DOther
      | Inr r \<Rightarrow> if da_after a \<or> length (sr_entries r) \<noteq> 1 \<or> sr_referrals r \<noteq> 0 then Inl DOther else Inr (sr_entries r ! 0))"

text \<open>The entry a search answered, if it answered exactly one.\<close>

definition answered :: "dir_answer \<Rightarrow> dir_entry \<Rightarrow> bool" where
  "answered a e \<longleftrightarrow> \<not> da_after a \<and> (\<exists>r. da_result a = Inr r \<and> sr_entries r = [e] \<and> sr_referrals r = 0)"

lemma readEntryAttr_ok: "readEntryAttr a = Inr e \<longleftrightarrow> answered a e"
  by (auto simp: readEntryAttr_def answered_def noSuchObject_def length_Suc_conv split: sum.splits if_splits)

subsection \<open>Assertion controls\<close>

record write_ctx =
  wx_machine :: bool
  wx_seed :: string
  wx_pending :: "(string \<times> string) option"

text \<open>\<open>assertionControl\<close> fails only when go-ldap does not compile the filter; \<open>compile\<close> tells.\<close>

definition assertionControl :: "(string \<Rightarrow> bool) \<Rightarrow> string \<Rightarrow> domain_error + string" where
  "assertionControl compile flt = (if compile flt then Inr flt else Inl DOther)"

definition revisionControls :: "(string \<Rightarrow> bool) \<Rightarrow> string \<Rightarrow> domain_error + string list" where
  "revisionControls compile csn =
     (if csn = '''' then Inr []
      else if \<not> ValidCSN csn then Inl DInvalidInput
      else bindE (assertionControl compile (''(entryCSN='' @ csn @ '')'')) (\<lambda>ctrl. Inr [ctrl]))"

definition identityControls :: "(string \<Rightarrow> bool) \<Rightarrow> string \<Rightarrow> string \<Rightarrow> domain_error + string list" where
  "identityControls compile uuid csn =
     (if \<not> ValidEntryUUID uuid \<or> \<not> ValidCSN csn then Inl DInvalidInput
      else bindE (assertionControl compile (''(&(entryUUID='' @ uuid @ '')(entryCSN='' @ csn @ ''))'')) (\<lambda>ctrl. Inr [ctrl]))"

definition writeRevisionControls :: "(string \<Rightarrow> bool) \<Rightarrow> write_ctx \<Rightarrow> string \<Rightarrow> string \<Rightarrow> domain_error + string list" where
  "writeRevisionControls compile ctx csn requiredClass =
     (if \<not> wx_machine ctx then revisionControls compile csn
      else if \<not> ValidCSN csn then Inl DInvalidInput
      else if requiredClass \<noteq> ''inetOrgPerson'' \<and> requiredClass \<noteq> ''groupOfNames'' then Inl DInvalidInput
      else bindE (assertionControl compile (''(&(entryCSN='' @ csn @ '')(objectClass='' @ requiredClass @ ''))'')) (\<lambda>ctrl. Inr [ctrl]))"

lemma identityControls_ok:
  "identityControls compile uuid csn = Inr ctrls \<longleftrightarrow>
     ValidEntryUUID uuid \<and> ValidCSN csn \<and> compile (''(&(entryUUID='' @ uuid @ '')(entryCSN='' @ csn @ ''))'') \<and>
     ctrls = [''(&(entryUUID='' @ uuid @ '')(entryCSN='' @ csn @ ''))'']"
  by (auto simp: identityControls_def assertionControl_def)

lemma revisionControls_ok:
  "revisionControls compile csn = Inr ctrls \<Longrightarrow>
     csn = '''' \<and> ctrls = [] \<or> ValidCSN csn \<and> ctrls = [''(entryCSN='' @ csn @ '')'']"
  by (auto simp: revisionControls_def assertionControl_def split: if_splits)

lemma writeRevisionControls_machine:
  "writeRevisionControls compile ctx csn cls = Inr ctrls \<Longrightarrow> wx_machine ctx \<Longrightarrow>
     ValidCSN csn \<and> cls \<in> {''inetOrgPerson'', ''groupOfNames''} \<and> ctrls = [''(&(entryCSN='' @ csn @ '')(objectClass='' @ cls @ ''))'']"
  by (auto simp: writeRevisionControls_def assertionControl_def split: if_splits)

lemma writeRevisionControls_human: "\<not> wx_machine ctx \<Longrightarrow> writeRevisionControls compile ctx csn cls = revisionControls compile csn"
  by (simp add: writeRevisionControls_def)

subsection \<open>Pending accounts and seeds\<close>

definition CredentialPendingPrefix :: string where "CredentialPendingPrefix = ''ldapium-credential-pending:''"

definition validPendingTag :: "string \<Rightarrow> bool" where
  "validPendingTag tag \<longleftrightarrow> length tag = 16 \<and> list_all (\<lambda>c. c \<in> set hex_lower) tag"

definition credentialPendingAttrs :: "write_ctx \<Rightarrow> string \<Rightarrow> domain_error + (string \<times> string) option" where
  "credentialPendingAttrs ctx password =
     (if \<not> wx_machine ctx then Inr None
      else case wx_pending ctx of
        None \<Rightarrow> Inr None
      | Some (tag, policyDN) \<Rightarrow>
          if \<not> validPendingTag tag \<or> policyDN = '''' \<or> password \<noteq> '''' then Inl DInvalidInput
          else Inr (Some (CredentialPendingPrefix @ tag, policyDN)))"

definition groupSeedMember :: "write_ctx \<Rightarrow> string \<Rightarrow> domain_error + string" where
  "groupSeedMember ctx boundDN =
     (if \<not> wx_machine ctx then Inr boundDN else if wx_seed ctx = '''' then Inl DInvalidInput else Inr (wx_seed ctx))"

subsection \<open>Errors of the directory\<close>

text \<open>A failed request: its LDAP result code and diagnostic, or no LDAP result at all.\<close>

datatype ldap_failure = Code int string | NoCode

datatype mapped_error = Known domain_error | SizeLimited | Unmapped

definition mapErr :: "ldap_failure \<Rightarrow> mapped_error" where
  "mapErr f =
     (case f of
        NoCode \<Rightarrow> Unmapped
      | Code n _ \<Rightarrow>
          if n = 49 then Known DInvalidCredentials
          else if n = 32 then Known DNotFound
          else if n = 68 then Known DAlreadyExists
          else if n = 50 then Known DPermissionDenied
          else if n = 122 then Known DRevisionConflict
          else if n = 4 then SizeLimited
          else if n = 19 \<or> n = 65 \<or> n = 21 then Known DInvalidInput
          else if n = 66 then Known DConflict
          else if n = 71 then Known DInvalidInput
          else Unmapped)"

definition mapMemberErr :: "ldap_failure \<Rightarrow> mapped_error" where
  "mapMemberErr f =
     (case f of
        NoCode \<Rightarrow> mapErr f
      | Code n _ \<Rightarrow> if n = 20 then Known DConflict else if n = 16 then Known DNotFound else mapErr f)"

definition oldPasswordNotVerified :: string where "oldPasswordNotVerified = ''unwilling to verify old password''"

definition mapSetPasswordErr :: "string \<Rightarrow> ldap_failure \<Rightarrow> mapped_error" where
  "mapSetPasswordErr oldPassword f =
     (case f of
        NoCode \<Rightarrow> mapErr f
      | Code n diag \<Rightarrow>
          if oldPassword \<noteq> '''' \<and> n = 53 \<and> contains_sub diag oldPasswordNotVerified then Known DCurrentPasswordRejected
          else mapErr f)"

text \<open>\<open>None\<close> is success: the account already carries the marker.\<close>

definition mapMachineLockErr :: "ldap_failure \<Rightarrow> mapped_error option" where
  "mapMachineLockErr f =
     (case f of
        NoCode \<Rightarrow> Some (mapErr f)
      | Code n _ \<Rightarrow> if n = 20 then None else if n = 19 then Some (Known DConflict) else Some (mapErr f))"

end
