(* ===== verification/WriteIdentity.thy ===== *)
theory WriteIdentity
  imports LdapEntry ConfigLoad
begin

text \<open>
  What the read identity M must find before a writer connection opens: \<open>ldapclient/machine_write_identity.go\<close> (the target, its
  class, the protected identities by their UUIDs, the privileged groups) and the pre-read of \<open>ldapclient/machine_write_cred.go\<close> (a
  pending account). A connection is a \<open>dir_session\<close>: its answer to a search depends on how many it has had and on the name the search
  asks for, so that a check that read another entry would not establish what is proved here.
\<close>

subsection \<open>One identity\<close>

record write_identity =
  wi_dn :: string
  wi_uuid :: string
  wi_classes :: "string list option"

text \<open>go-ldap delivers an attribute with a slice of values, so that \<open>classes\<close> is not nil once the attribute was met.\<close>

definition identity_attr :: "cfg_lib \<Rightarrow> string \<times> string list \<Rightarrow> write_identity \<Rightarrow> domain_error + write_identity" where
  "identity_attr L a i =
     (let name = dl_lower (cl_dn L) (fst a); vs = snd a in
      if name = ''entrydn'' then
        (if wi_dn i \<noteq> '''' \<or> length vs \<noteq> 1 \<or> 4096 < length (vs ! 0) then Inl DPermissionDenied else Inr (i\<lparr> wi_dn := vs ! 0 \<rparr>))
      else if name = ''entryuuid'' then
        (if wi_uuid i \<noteq> '''' \<or> length vs \<noteq> 1 then Inl DPermissionDenied else Inr (i\<lparr> wi_uuid := vs ! 0 \<rparr>))
      else if name = ''objectclass'' then
        (if wi_classes i \<noteq> None \<or> 128 < length vs \<or> list_ex (\<lambda>v. 512 < length v) vs then Inl DPermissionDenied
         else Inr (i\<lparr> wi_classes := Some vs \<rparr>))
      else Inl DPermissionDenied)"

definition read_entry :: "dir_answer \<Rightarrow> domain_error + dir_entry" where
  "read_entry a = (if da_before a then Inl DOther else readEntryAttr a)"

definition readWriteIdentity :: "cfg_lib \<Rightarrow> dir_answer \<Rightarrow> domain_error + write_identity" where
  "readWriteIdentity L a =
     bindE (read_entry a) (\<lambda>e.
     bindE (foldE (identity_attr L) (le_attrs e) \<lparr> wi_dn = '''', wi_uuid = '''', wi_classes = None \<rparr>) (\<lambda>i.
       if wi_dn i = '''' \<or> \<not> ValidEntryUUID (wi_uuid i) \<or> wi_classes i = None \<or> wi_classes i = Some [] then Inl DPermissionDenied
       else Inr i))"

definition protectedReadError :: "domain_error \<Rightarrow> domain_error" where
  "protectedReadError e = (if e = DNotFound then DOther else e)"

definition guard_read :: "domain_error + 'a \<Rightarrow> domain_error + 'a" where
  "guard_read m = (case m of Inl e \<Rightarrow> Inl (protectedReadError e) | Inr x \<Rightarrow> Inr x)"

subsection \<open>The target and the protected identities\<close>

text \<open>The writers the server resolves by UUID: \<open>resolvedWriterDNs\<close> of \<open>httpapi/machine_write_runtime.go\<close>. The password writer is not
  one of them.\<close>

definition resolvedWriterDNs :: "write_config \<Rightarrow> string list" where
  "resolvedWriterDNs w = bi_dn (wc_data w) # (if wc_lock_enabled w then [bi_dn (wc_lock w)] else [])"

text \<open>\<open>NewWriteIdentityReader\<close>: the names it protects.\<close>

definition reader_protected :: "config \<Rightarrow> string list \<Rightarrow> string list" where
  "reader_protected c writers =
     mc_root_dns (cf_machine c) @ [mc_bind_dn (cf_machine c)] @ bk_admins (cf_backup c) @ cf_profile_admins c @
     (if sc_account (cf_sso c) \<noteq> '''' then [sc_account (cf_sso c)] else []) @ writers"

definition lexical_step :: "cfg_lib \<Rightarrow> dn \<Rightarrow> dn \<Rightarrow> string \<Rightarrow> string list \<Rightarrow> domain_error + string list" where
  "lexical_step L base target raw inside =
     (case reproducibleWriteDN (cl_dn L) raw of
        None \<Rightarrow> Inl DPermissionDenied
      | Some p \<Rightarrow>
          if dl_eq (cl_dn L) p target \<or> dl_anc (cl_dn L) p target then Inl DPermissionDenied
          else Inr (if dl_eq (cl_dn L) base p \<or> dl_anc (cl_dn L) base p then inside @ [raw] else inside))"

definition fixed_identities :: "config \<Rightarrow> string list" where
  "fixed_identities c =
     (let w = mc_write (cf_machine c) in
      [''cn=admin,'' @ cf_base c, ''cn=replicator,'' @ cf_base c] @
      (if wc_cred_enabled w \<and> bi_dn (wc_cred w) \<noteq> '''' then [bi_dn (wc_cred w)] else []))"

definition fixed_step :: "cfg_lib \<Rightarrow> dn \<Rightarrow> string \<Rightarrow> domain_error + unit" where
  "fixed_step L target raw =
     (case reproducibleWriteDN (cl_dn L) raw of
        None \<Rightarrow> Inl DPermissionDenied
      | Some p \<Rightarrow> need (\<not> (dl_eq (cl_dn L) p target \<or> dl_anc (cl_dn L) p target)) DPermissionDenied)"

text \<open>The checks that need no connection: the parsed target and the protected names inside the base.\<close>

definition lexical_check :: "cfg_lib \<Rightarrow> config \<Rightarrow> string list \<Rightarrow> string \<Rightarrow> string \<Rightarrow> domain_error + dn \<times> string list" where
  "lexical_check L c writers target requiredClass =
     (let m = cf_machine c; guarded = reader_protected c writers in
      bindE (need (mc_enabled m \<and> mc_write_enabled m \<and> length guarded \<le> 128) DPermissionDenied) (\<lambda>_.
      bindE (need (requiredClass = ''inetOrgPerson'' \<or> requiredClass = ''groupOfNames'') DInvalidInput) (\<lambda>_.
        case reproducibleWriteDN (cl_dn L) (cf_base c) of
          None \<Rightarrow> Inl DPermissionDenied
        | Some base \<Rightarrow>
            (case reproducibleWriteDN (cl_dn L) target of
               None \<Rightarrow> Inl DPermissionDenied
             | Some d \<Rightarrow>
                 bindE (need (dl_anc (cl_dn L) base d) DPermissionDenied) (\<lambda>_.
                 bindE (foldE (lexical_step L base d) guarded []) (\<lambda>inside.
                 bindE (eachE (fixed_step L d) (fixed_identities c)) (\<lambda>_. Inr (d, inside))))))))"

definition open_as_machine :: "config \<Rightarrow> dir_session \<Rightarrow> domain_error + unit" where
  "open_as_machine c s = need (ds_conn s \<and> ds_bind s (mc_bind_dn (cf_machine c))) DOther"

fun compare_identities :: "cfg_lib \<Rightarrow> dir_session \<Rightarrow> string \<Rightarrow> nat \<Rightarrow> string list \<Rightarrow> domain_error + unit" where
  "compare_identities L s uuid n [] = Inr ()"
| "compare_identities L s uuid n (raw # rest) =
     bindE (guard_read (readWriteIdentity L (ds_answer s n raw))) (\<lambda>other.
       if wi_uuid other = uuid then Inl DPermissionDenied else compare_identities L s uuid (n + 1) rest)"

definition check_target :: "cfg_lib \<Rightarrow> config \<Rightarrow> string list \<Rightarrow> dir_session \<Rightarrow> string \<Rightarrow> string \<Rightarrow> domain_error + unit" where
  "check_target L c writers s target requiredClass =
     bindE (lexical_check L c writers target requiredClass) (\<lambda>(d, inside).
     bindE (open_as_machine c s) (\<lambda>_.
     bindE (readWriteIdentity L (ds_answer s 0 target)) (\<lambda>i.
     bindE (need (case reproducibleWriteDN (cl_dn L) (wi_dn i) of None \<Rightarrow> False | Some r \<Rightarrow> dl_eq (cl_dn L) d r) DPermissionDenied) (\<lambda>_.
     bindE (need (list_ex (\<lambda>v. cl_fold L v requiredClass) (the (wi_classes i))) DPermissionDenied) (\<lambda>_.
       compare_identities L s (wi_uuid i) 1 inside)))))"

subsection \<open>Privileged members\<close>

definition memberOf_step :: "cfg_lib \<Rightarrow> string list \<Rightarrow> string \<Rightarrow> domain_error + unit" where
  "memberOf_step L privileged v =
     (case reproducibleWriteDN (cl_dn L) v of
        None \<Rightarrow> Inl DPermissionDenied
      | Some d \<Rightarrow>
          need (\<not> list_ex (\<lambda>raw. case dl_parse (cl_dn L) raw of None \<Rightarrow> True | Some p \<Rightarrow> dl_eq (cl_dn L) p d) privileged) DPermissionDenied)"

definition memberOfPrivileged :: "cfg_lib \<Rightarrow> dir_entry \<Rightarrow> string list \<Rightarrow> domain_error + unit" where
  "memberOfPrivileged L e privileged = eachE (memberOf_step L privileged) (attrValues L e ''memberOf'')"

definition groupListsMember :: "cfg_lib \<Rightarrow> dir_entry \<Rightarrow> string \<Rightarrow> domain_error + unit" where
  "groupListsMember L g target =
     (let members = attrValues L g ''member'' in
      bindE (need (members \<noteq> []) DPermissionDenied) (\<lambda>_.
        case dl_parse (cl_dn L) target of
          None \<Rightarrow> Inl DPermissionDenied
        | Some t \<Rightarrow>
            need (\<not> list_ex (\<lambda>v. case dl_parse (cl_dn L) v of None \<Rightarrow> True | Some d \<Rightarrow> dl_eq (cl_dn L) d t) members) DPermissionDenied))"

fun read_groups :: "cfg_lib \<Rightarrow> dir_session \<Rightarrow> string \<Rightarrow> nat \<Rightarrow> string list \<Rightarrow> domain_error + unit" where
  "read_groups L s target n [] = Inr ()"
| "read_groups L s target n (g # gs) =
     bindE (guard_read (readEntryAttr (ds_answer s n g))) (\<lambda>e.
     bindE (groupListsMember L e target) (\<lambda>_. read_groups L s target (n + 1) gs))"

definition CheckNotPrivileged :: "cfg_lib \<Rightarrow> config \<Rightarrow> dir_session \<Rightarrow> string \<Rightarrow> domain_error + unit" where
  "CheckNotPrivileged L c s target =
     (let m = cf_machine c; groups = wc_privileged (mc_write m) in
      bindE (need (mc_enabled m \<and> mc_write_enabled m \<and> groups \<noteq> []) DPermissionDenied) (\<lambda>_.
      bindE (need (reproducibleWriteDN (cl_dn L) target \<noteq> None) DPermissionDenied) (\<lambda>_.
      bindE (open_as_machine c s) (\<lambda>_.
      bindE (readEntryAttr (ds_answer s 0 target)) (\<lambda>e.
      bindE (memberOfPrivileged L e groups) (\<lambda>_. read_groups L s target 1 groups))))))"

subsection \<open>A pending account\<close>

text \<open>\<open>withoutSpaces\<close>: the UTF-8 encodings of Unicode's white space are dropped.\<close>

definition space_pair :: "char \<Rightarrow> char \<Rightarrow> bool" where
  "space_pair a b \<longleftrightarrow> a = CHR 0xC2 \<and> (b = CHR 0x85 \<or> b = CHR 0xA0)"

definition space_triple :: "char \<Rightarrow> char \<Rightarrow> char \<Rightarrow> bool" where
  "space_triple a b c \<longleftrightarrow>
     a = CHR 0xE1 \<and> b = CHR 0x9A \<and> c = CHR 0x80 \<or>
     a = CHR 0xE2 \<and> b = CHR 0x80 \<and> (128 \<le> (of_char c :: nat) \<and> (of_char c :: nat) \<le> 138 \<or> c = CHR 0xA8 \<or> c = CHR 0xA9 \<or> c = CHR 0xAF) \<or>
     a = CHR 0xE2 \<and> b = CHR 0x81 \<and> c = CHR 0x9F \<or>
     a = CHR 0xE3 \<and> b = CHR 0x80 \<and> c = CHR 0x80"

fun withoutSpaces :: "string \<Rightarrow> string" where
  "withoutSpaces (a # b # c # s) =
     (if asciiSpace a then withoutSpaces (b # c # s)
      else if space_pair a b then withoutSpaces (c # s)
      else if space_triple a b c then withoutSpaces s
      else a # withoutSpaces (b # c # s))"
| "withoutSpaces [a, b] = (if asciiSpace a then withoutSpaces [b] else if space_pair a b then [] else a # withoutSpaces [b])"
| "withoutSpaces [a] = (if asciiSpace a then [] else [a])"
| "withoutSpaces [] = []"

definition looks_pending :: "cfg_lib \<Rightarrow> string \<Rightarrow> bool" where
  "looks_pending L v \<longleftrightarrow> has_prefix (dl_lower (cl_dn L) (withoutSpaces v)) CredentialPendingPrefix"

definition singleDNEquals :: "cfg_lib \<Rightarrow> string list \<Rightarrow> string \<Rightarrow> bool" where
  "singleDNEquals L vs want \<longleftrightarrow>
     length vs = 1 \<and> want \<noteq> '''' \<and>
     (case dl_parse (cl_dn L) (vs ! 0) of
        None \<Rightarrow> False
      | Some got \<Rightarrow> (case dl_parse (cl_dn L) want of None \<Rightarrow> False | Some w \<Rightarrow> dl_eq (cl_dn L) got w))"

definition credentialPendingVerdict :: "cfg_lib \<Rightarrow> dir_entry \<Rightarrow> string \<Rightarrow> string \<Rightarrow> string \<Rightarrow> domain_error + unit" where
  "credentialPendingVerdict L e tag writerDN policyDN =
     bindE (need (validPendingTag tag) DInvalidInput) (\<lambda>_.
     bindE (need (singleDNEquals L (attrValues L e ''creatorsName'') writerDN) DPermissionDenied) (\<lambda>_.
     bindE (need (filter (looks_pending L) (attrValues L e ''employeeType'') = [CredentialPendingPrefix @ tag]) DPermissionDenied) (\<lambda>_.
     bindE (need (singleDNEquals L (attrValues L e ''pwdPolicySubentry'') policyDN) DPermissionDenied) (\<lambda>_.
       need (attrValues L e ''pwdChangedTime'' = []) DConflict))))"

definition pendingEntryUUID :: "cfg_lib \<Rightarrow> dir_entry \<Rightarrow> domain_error + string" where
  "pendingEntryUUID L e =
     (let v = attrValues L e ''entryUUID'' in
      if length v \<noteq> 1 \<or> TrimSpace (v ! 0) = '''' then Inl DPermissionDenied else Inr (dl_lower (cl_dn L) (TrimSpace (v ! 0))))"

definition CheckCredentialPending :: "cfg_lib \<Rightarrow> config \<Rightarrow> dir_session \<Rightarrow> string \<Rightarrow> string \<Rightarrow> domain_error + string" where
  "CheckCredentialPending L c s target tag =
     (let m = cf_machine c; w = mc_write m in
      bindE (need (mc_enabled m \<and> mc_write_enabled m \<and> wc_cred_enabled w) DPermissionDenied) (\<lambda>_.
      bindE (need (reproducibleWriteDN (cl_dn L) target \<noteq> None) DPermissionDenied) (\<lambda>_.
      bindE (open_as_machine c s) (\<lambda>_.
      bindE (readEntryAttr (ds_answer s 0 target)) (\<lambda>e.
      bindE (credentialPendingVerdict L e tag (bi_dn (wc_data w)) (wc_cred_pending_policy w)) (\<lambda>_. pendingEntryUUID L e))))))"

text \<open>The cleanup after the password: two deletions of values, never of an attribute.\<close>

definition credentialPendingCleanup :: "string \<Rightarrow> string \<Rightarrow> domain_error + (string \<times> string list) list" where
  "credentialPendingCleanup tag policyDN =
     (if \<not> validPendingTag tag \<or> policyDN = '''' then Inl DInvalidInput
      else Inr [(''employeeType'', [CredentialPendingPrefix @ tag]), (''pwdPolicySubentry'', [policyDN])])"

subsection \<open>What the checks establish\<close>

lemma guard_read_ok [simp]: "guard_read m = Inr x \<longleftrightarrow> m = Inr x"
  by (cases m) (auto simp: guard_read_def)

lemma open_as_machine_ok [simp]: "open_as_machine c s = Inr u \<longleftrightarrow> ds_conn s \<and> ds_bind s (mc_bind_dn (cf_machine c))"
  by (auto simp: open_as_machine_def)

text \<open>A name that is neither a protected one nor below it.\<close>

definition apart :: "cfg_lib \<Rightarrow> dn \<Rightarrow> string \<Rightarrow> bool" where
  "apart L d raw \<longleftrightarrow>
     (\<exists>p. reproducibleWriteDN (cl_dn L) raw = Some p \<and> \<not> dl_eq (cl_dn L) p d \<and> \<not> dl_anc (cl_dn L) p d)"

definition in_base :: "cfg_lib \<Rightarrow> dn \<Rightarrow> string \<Rightarrow> bool" where
  "in_base L base raw \<longleftrightarrow> (\<exists>p. reproducibleWriteDN (cl_dn L) raw = Some p \<and> (dl_eq (cl_dn L) base p \<or> dl_anc (cl_dn L) base p))"

lemma lexical_loop:
  "foldE (lexical_step L base d) xs acc = Inr inside \<Longrightarrow> (\<forall>x \<in> set xs. apart L d x) \<and> inside = acc @ filter (in_base L base) xs"
proof (induction xs arbitrary: acc)
  case (Cons x xs)
  then obtain acc' where a: "lexical_step L base d x acc = Inr acc'" "foldE (lexical_step L base d) xs acc' = Inr inside"
    by (auto simp: bindE_Inr_iff)
  then obtain p where p: "reproducibleWriteDN (cl_dn L) x = Some p" "\<not> dl_eq (cl_dn L) p d" "\<not> dl_anc (cl_dn L) p d"
    "acc' = (if dl_eq (cl_dn L) base p \<or> dl_anc (cl_dn L) base p then acc @ [x] else acc)"
    by (auto simp: lexical_step_def split: option.splits if_splits)
  from Cons.IH [OF a(2)] p show ?case by (auto simp: apart_def in_base_def)
qed simp

lemma lexical_check_ok:
  assumes "lexical_check L c writers target cls = Inr (d, inside)"
  obtains base where "reproducibleWriteDN (cl_dn L) (cf_base c) = Some base" "reproducibleWriteDN (cl_dn L) target = Some d"
    "dl_anc (cl_dn L) base d" "\<forall>x \<in> set (reader_protected c writers @ fixed_identities c). apart L d x"
    "inside = filter (in_base L base) (reader_protected c writers)" "cls \<in> {''inetOrgPerson'', ''groupOfNames''}"
proof -
  obtain base where b: "reproducibleWriteDN (cl_dn L) (cf_base c) = Some base" "reproducibleWriteDN (cl_dn L) target = Some d"
    "dl_anc (cl_dn L) base d" "foldE (lexical_step L base d) (reader_protected c writers) [] = Inr inside"
    "eachE (fixed_step L d) (fixed_identities c) = Inr ()" "cls \<in> {''inetOrgPerson'', ''groupOfNames''}"
    using assms by (auto simp: lexical_check_def Let_def bindE_Inr_iff split: option.splits)
  have "\<forall>x \<in> set (fixed_identities c). apart L d x"
    using b(5) by (auto simp: eachE_Inr_iff fixed_step_def apart_def split: option.splits)
  with lexical_loop [OF b(4)] b that show ?thesis by auto
qed

text \<open>What one search says of an identity.\<close>

definition reports :: "cfg_lib \<Rightarrow> dir_answer \<Rightarrow> write_identity \<Rightarrow> bool" where
  "reports L a i \<longleftrightarrow> (\<exists>e. answered a e \<and> foldE (identity_attr L) (le_attrs e) \<lparr> wi_dn = '''', wi_uuid = '''', wi_classes = None \<rparr> = Inr i) \<and>
     ValidEntryUUID (wi_uuid i) \<and> wi_dn i \<noteq> ''''"

lemma readWriteIdentity_ok: "readWriteIdentity L a = Inr i \<Longrightarrow> reports L a i"
  by (auto simp: readWriteIdentity_def reports_def read_entry_def bindE_Inr_iff readEntryAttr_ok split: if_splits)

lemma compare_identities_ok:
  "compare_identities L s uuid n xs = Inr () \<Longrightarrow> k < length xs \<Longrightarrow>
     \<exists>i. reports L (ds_answer s (n + k) (xs ! k)) i \<and> wi_uuid i \<noteq> uuid"
proof (induction xs arbitrary: n k)
  case (Cons x xs)
  then obtain i where i: "readWriteIdentity L (ds_answer s n x) = Inr i" "wi_uuid i \<noteq> uuid" "compare_identities L s uuid (n + 1) xs = Inr ()"
    by (auto simp: bindE_Inr_iff split: if_splits)
  show ?case
  proof (cases k)
    case 0
    with i readWriteIdentity_ok [OF i(1)] show ?thesis by auto
  next
    case (Suc k')
    with Cons.IH [OF i(3), of k'] Cons.prems(2) show ?thesis by simp
  qed
qed simp

text \<open>The identities a target is compared with: by the UUID its entry reports, and by name alone. The lists are written out from the
  configuration. An identity named only here as fixed may be absent from the directory, so that no UUID is asked of it.\<close>

definition by_uuid :: "config \<Rightarrow> string set" where
  "by_uuid c =
     (let m = cf_machine c; w = mc_write m in
      set (mc_root_dns m) \<union> {mc_bind_dn m} \<union> set (bk_admins (cf_backup c)) \<union> set (cf_profile_admins c) \<union>
      {x. x = sc_account (cf_sso c) \<and> x \<noteq> ''''} \<union> {bi_dn (wc_data w)} \<union> {x. wc_lock_enabled w \<and> x = bi_dn (wc_lock w)})"

definition by_name :: "config \<Rightarrow> string set" where
  "by_name c =
     (let w = mc_write (cf_machine c) in
      {''cn=admin,'' @ cf_base c, ''cn=replicator,'' @ cf_base c} \<union> {x. wc_cred_enabled w \<and> x = bi_dn (wc_cred w) \<and> x \<noteq> ''''})"

lemma identity_sets:
  "set (reader_protected c (resolvedWriterDNs (mc_write (cf_machine c)))) = by_uuid c" "set (fixed_identities c) = by_name c"
  by (auto simp: reader_protected_def resolvedWriterDNs_def by_uuid_def fixed_identities_def by_name_def Let_def)

text \<open>The target as M found it: the entry itself, of the class, and no protected entry under another name.\<close>

definition target_vouched :: "cfg_lib \<Rightarrow> config \<Rightarrow> dir_session \<Rightarrow> string \<Rightarrow> string \<Rightarrow> bool" where
  "target_vouched L c s target cls \<longleftrightarrow> ds_bind s (mc_bind_dn (cf_machine c)) \<and>
     (\<exists>base d i r. reproducibleWriteDN (cl_dn L) (cf_base c) = Some base \<and> reproducibleWriteDN (cl_dn L) target = Some d \<and> dl_anc (cl_dn L) base d \<and>
        (\<forall>x \<in> by_uuid c \<union> by_name c. apart L d x) \<and>
        reports L (ds_answer s 0 target) i \<and> reproducibleWriteDN (cl_dn L) (wi_dn i) = Some r \<and> dl_eq (cl_dn L) d r \<and>
        (\<exists>v \<in> set (the (wi_classes i)). cl_fold L v cls) \<and>
        (\<forall>x \<in> by_uuid c. in_base L base x \<longrightarrow>
           (\<exists>k other. reports L (ds_answer s (1 + k) x) other \<and> wi_uuid other \<noteq> wi_uuid i)))"

lemma check_target_ok:
  assumes "check_target L c (resolvedWriterDNs (mc_write (cf_machine c))) s target cls = Inr ()"
  shows "target_vouched L c s target cls"
proof -
  let ?writers = "resolvedWriterDNs (mc_write (cf_machine c))"
  obtain d inside i r where c: "lexical_check L c ?writers target cls = Inr (d, inside)" "ds_bind s (mc_bind_dn (cf_machine c))"
    "readWriteIdentity L (ds_answer s 0 target) = Inr i"
    "reproducibleWriteDN (cl_dn L) (wi_dn i) = Some r" "dl_eq (cl_dn L) d r" "list_ex (\<lambda>v. cl_fold L v cls) (the (wi_classes i))"
    "compare_identities L s (wi_uuid i) 1 inside = Inr ()"
    using assms by (auto simp: check_target_def bindE_Inr_iff split: option.splits)
  from lexical_check_ok [OF c(1)] obtain base where b: "reproducibleWriteDN (cl_dn L) (cf_base c) = Some base"
    "reproducibleWriteDN (cl_dn L) target = Some d" "dl_anc (cl_dn L) base d"
    "\<forall>x \<in> set (reader_protected c ?writers @ fixed_identities c). apart L d x" "inside = filter (in_base L base) (reader_protected c ?writers)"
    by metis
  have "\<exists>k other. reports L (ds_answer s (1 + k) x) other \<and> wi_uuid other \<noteq> wi_uuid i" if x: "x \<in> by_uuid c" "in_base L base x" for x
  proof -
    have "x \<in> set inside" using x by (simp add: b(5) identity_sets)
    then obtain k where "k < length inside" "x = inside ! k" by (auto simp: in_set_conv_nth)
    with compare_identities_ok [OF c(7), of k] show ?thesis by blast
  qed
  moreover have "\<forall>x \<in> by_uuid c \<union> by_name c. apart L d x" using b(4) by (simp add: identity_sets)
  ultimately show ?thesis using b(1-3) c(2,4-6) readWriteIdentity_ok [OF c(3)] unfolding target_vouched_def list_ex_iff by blast
qed

text \<open>Nobody of the privileged groups: neither the target's \<open>memberOf\<close> nor the member list of any of these groups says so, and
  none of them is hidden.\<close>

definition not_member :: "cfg_lib \<Rightarrow> dn \<Rightarrow> dir_entry \<Rightarrow> bool" where
  "not_member L t g \<longleftrightarrow> attrValues L g ''member'' \<noteq> [] \<and>
     (\<forall>v \<in> set (attrValues L g ''member''). \<exists>d. dl_parse (cl_dn L) v = Some d \<and> \<not> dl_eq (cl_dn L) d t)"

definition memberOf_clear :: "cfg_lib \<Rightarrow> string list \<Rightarrow> dir_entry \<Rightarrow> bool" where
  "memberOf_clear L groups e \<longleftrightarrow>
     (\<forall>v \<in> set (attrValues L e ''memberOf''). \<exists>d. reproducibleWriteDN (cl_dn L) v = Some d \<and>
        (\<forall>g \<in> set groups. \<exists>p. dl_parse (cl_dn L) g = Some p \<and> \<not> dl_eq (cl_dn L) p d))"

definition unprivileged :: "cfg_lib \<Rightarrow> string list \<Rightarrow> dir_session \<Rightarrow> string \<Rightarrow> bool" where
  "unprivileged L groups s target \<longleftrightarrow> groups \<noteq> [] \<and>
     (\<exists>t e. dl_parse (cl_dn L) target = Some t \<and> answered (ds_answer s 0 target) e \<and> memberOf_clear L groups e \<and>
        (\<forall>k < length groups. \<exists>g. answered (ds_answer s (1 + k) (groups ! k)) g \<and> not_member L t g))"

lemma reproducible_parse: "reproducibleWriteDN D raw = Some d \<Longrightarrow> dl_parse D raw = Some d"
  by (auto simp: reproducibleWriteDN_def split: if_splits option.splits)

lemma memberOfPrivileged_ok: "memberOfPrivileged L e groups = Inr u \<Longrightarrow> memberOf_clear L groups e"
  by (fastforce simp: memberOfPrivileged_def memberOf_clear_def eachE_Inr_iff memberOf_step_def list_ex_iff split: option.splits)

lemma groupListsMember_ok: "groupListsMember L g target = Inr u \<Longrightarrow> dl_parse (cl_dn L) target = Some t \<Longrightarrow> not_member L t g"
  by (fastforce simp: groupListsMember_def not_member_def Let_def bindE_Inr_iff list_ex_iff split: option.splits)

lemma read_groups_ok:
  "read_groups L s target n gs = Inr () \<Longrightarrow> dl_parse (cl_dn L) target = Some t \<Longrightarrow> k < length gs \<Longrightarrow>
     \<exists>g. answered (ds_answer s (n + k) (gs ! k)) g \<and> not_member L t g"
proof (induction gs arbitrary: n k)
  case (Cons x gs)
  then obtain g where g: "answered (ds_answer s n x) g" "groupListsMember L g target = Inr ()" "read_groups L s target (n + 1) gs = Inr ()"
    by (auto simp: bindE_Inr_iff readEntryAttr_ok)
  show ?case
  proof (cases k)
    case 0
    with g groupListsMember_ok [OF g(2) Cons.prems(2)] show ?thesis by auto
  next
    case (Suc k')
    with Cons.IH [OF g(3) Cons.prems(2), of k'] Cons.prems(3) show ?thesis by simp
  qed
qed simp

lemma CheckNotPrivileged_ok:
  assumes "CheckNotPrivileged L c s target = Inr ()"
  shows "unprivileged L (wc_privileged (mc_write (cf_machine c))) s target"
proof -
  obtain e d where e: "wc_privileged (mc_write (cf_machine c)) \<noteq> []" "reproducibleWriteDN (cl_dn L) target = Some d"
    "answered (ds_answer s 0 target) e" "memberOfPrivileged L e (wc_privileged (mc_write (cf_machine c))) = Inr ()"
    "read_groups L s target 1 (wc_privileged (mc_write (cf_machine c))) = Inr ()"
    using assms by (auto simp: CheckNotPrivileged_def Let_def bindE_Inr_iff readEntryAttr_ok)
  note t = reproducible_parse [OF e(2)]
  show ?thesis
    unfolding unprivileged_def
    using e(1,3) t memberOfPrivileged_ok [OF e(4)] read_groups_ok [OF e(5) t] by blast
qed

text \<open>A pending account of this client: made by the data identity, one marker and it is the client's, the pending policy and no other,
  no password yet.\<close>

definition pending_account :: "cfg_lib \<Rightarrow> config \<Rightarrow> string \<Rightarrow> string \<Rightarrow> dir_entry \<Rightarrow> bool" where
  "pending_account L c tag uuid e \<longleftrightarrow>
     (let w = mc_write (cf_machine c) in
      singleDNEquals L (attrValues L e ''creatorsName'') (bi_dn (wc_data w)) \<and>
      filter (looks_pending L) (attrValues L e ''employeeType'') = [CredentialPendingPrefix @ tag] \<and>
      singleDNEquals L (attrValues L e ''pwdPolicySubentry'') (wc_cred_pending_policy w) \<and>
      attrValues L e ''pwdChangedTime'' = [] \<and> (\<exists>v. attrValues L e ''entryUUID'' = [v] \<and> uuid = dl_lower (cl_dn L) (TrimSpace v)))"

lemma pendingEntryUUID_ok: "pendingEntryUUID L e = Inr u \<Longrightarrow> \<exists>v. attrValues L e ''entryUUID'' = [v] \<and> u = dl_lower (cl_dn L) (TrimSpace v)"
  by (auto simp: pendingEntryUUID_def Let_def length_Suc_conv split: if_splits)

lemma CheckCredentialPending_ok:
  assumes "CheckCredentialPending L c s target tag = Inr uuid"
  obtains e where "answered (ds_answer s 0 target) e" "pending_account L c tag uuid e" "validPendingTag tag"
  using assms
  by (auto simp: CheckCredentialPending_def Let_def bindE_Inr_iff readEntryAttr_ok credentialPendingVerdict_def pending_account_def
      dest!: pendingEntryUUID_ok)

text \<open>C4: Whose password a machine may set. When the three reads before a password pass, each bound as M, the name lies strictly inside the
  base and is neither a protected identity nor below one, by name. Asked for that name, the directory reported one entry which calls itself by it and has the
  required class; asked for each root, M, backup and profile administrator, SSO account and resolved writer inside the base,
  it reported an entry with another UUID, so that no alias of these gets through (\<open>cn=admin\<close>, \<open>cn=replicator\<close> and the password
  writer, which may be absent, are excluded by name only). Each privileged group was read and lists members, none of them the target, nor
  is one of them in its \<open>memberOf\<close>; and the account of that name was made by the data identity, carries one marker, that of the
  given tag, and the pending policy, has no password, and its UUID is the key returned.\<close>

theorem password_target_vouched:
  assumes "check_target L c (resolvedWriterDNs (mc_write (cf_machine c))) s1 target cls = Inr ()"
    "CheckNotPrivileged L c s2 target = Inr ()" "CheckCredentialPending L c s3 target tag = Inr uuid"
  shows "target_vouched L c s1 target cls \<and>
    ds_bind s2 (mc_bind_dn (cf_machine c)) \<and> unprivileged L (wc_privileged (mc_write (cf_machine c))) s2 target \<and>
    ds_bind s3 (mc_bind_dn (cf_machine c)) \<and> (\<exists>e. answered (ds_answer s3 0 target) e \<and> pending_account L c tag uuid e)"
proof -
  have "ds_bind s2 (mc_bind_dn (cf_machine c))" "ds_bind s3 (mc_bind_dn (cf_machine c))"
    using assms(2,3) by (auto simp: CheckNotPrivileged_def CheckCredentialPending_def Let_def bindE_Inr_iff)
  with check_target_ok [OF assms(1)] CheckNotPrivileged_ok [OF assms(2)] CheckCredentialPending_ok [OF assms(3)] show ?thesis by metis
qed

end
