(* ===== verification/DirectoryWrites.thy ===== *)
theory DirectoryWrites
  imports LdapEntry
begin

text \<open>
  The writes of package \<open>ldapclient\<close>: \<open>users.go\<close>, \<open>groups.go\<close>, and the compensation of a half-done user creation,
  \<open>create_compensation.go\<close>.

  An operation builds a request or refuses; \<open>ctxErr\<close> is the error of its context. A request carries its assertion filters.
  \<open>client_lib\<close> holds what go-ldap computes: the attribute of an entry by name, the escape of a name's value, and whether a filter compiles.
  The session mutex is the atomicity of one request; \<open>CreateUser\<close>, which sends several, is a function of the answers to them.
\<close>

subsection \<open>Requests\<close>

record client_lib =
  kl_get :: "dir_entry \<Rightarrow> string \<Rightarrow> string"
  kl_escape_dn :: "string \<Rightarrow> string"
  kl_compile :: "string \<Rightarrow> bool"

datatype change = ChAdd string "string list" | ChReplace string "string list" | ChDelete string "string list"

datatype ldap_request =
  ReqAdd string "(string \<times> string list) list"
| ReqModify string "change list" "string list"
| ReqDelete string "string list"
| ReqPassword string string string

primrec change_attr :: "change \<Rightarrow> string" where
  "change_attr (ChAdd a vs) = a"
| "change_attr (ChReplace a vs) = a"
| "change_attr (ChDelete a vs) = a"

subsection \<open>Names\<close>

text \<open>\<open>utf8.ValidString\<close>.\<close>

definition byte_in :: "nat \<Rightarrow> nat \<Rightarrow> char \<Rightarrow> bool" where
  "byte_in lo hi c \<longleftrightarrow> lo \<le> of_char c \<and> (of_char c :: nat) \<le> hi"

fun ValidString :: "string \<Rightarrow> bool" where
  "ValidString [] \<longleftrightarrow> True"
| "ValidString (a # s) \<longleftrightarrow>
     (if byte_in 0 127 a then ValidString s
      else case s of
        [] \<Rightarrow> False
      | b # s2 \<Rightarrow>
          if byte_in 194 223 a then byte_in 128 191 b \<and> ValidString s2
          else case s2 of
            [] \<Rightarrow> False
          | c # s3 \<Rightarrow>
              if byte_in 224 239 a then
                byte_in (if a = CHR 0xE0 then 160 else 128) (if a = CHR 0xED then 159 else 191) b \<and> byte_in 128 191 c \<and> ValidString s3
              else case s3 of
                [] \<Rightarrow> False
              | d # s4 \<Rightarrow>
                  byte_in 240 244 a \<and> byte_in (if a = CHR 0xF0 then 144 else 128) (if a = CHR 0xF4 then 143 else 191) b \<and>
                  byte_in 128 191 c \<and> byte_in 128 191 d \<and> ValidString s4)"

definition buildUserDN :: "client_lib \<Rightarrow> string \<Rightarrow> string \<Rightarrow> domain_error + string" where
  "buildUserDN K uid base = (if \<not> ValidString uid then Inl DInvalidInput else Inr (''uid='' @ kl_escape_dn K uid @ '','' @ base))"

definition buildGroupDN :: "client_lib \<Rightarrow> string \<Rightarrow> string \<Rightarrow> domain_error + string" where
  "buildGroupDN K cn base = (if \<not> ValidString cn then Inl DInvalidInput else Inr (''cn='' @ kl_escape_dn K cn @ '','' @ base))"

subsection \<open>Users\<close>

record user_input =
  ui_uid :: string
  ui_cn :: string
  ui_sn :: string
  ui_given :: string
  ui_mail :: string
  ui_password :: string
  ui_department :: string
  ui_organization :: string
  ui_unit :: string

definition add_optional :: "string \<Rightarrow> string \<Rightarrow> (string \<times> string list) list" where
  "add_optional attr v = (if v \<noteq> '''' then [(attr, [v])] else [])"

definition userAddRequest :: "write_ctx \<Rightarrow> string \<Rightarrow> user_input \<Rightarrow> domain_error + ldap_request" where
  "userAddRequest ctx dn inp =
     bindE (credentialPendingAttrs ctx (ui_password inp)) (\<lambda>pending.
       Inr (ReqAdd dn
         ([(''objectClass'', [''top'', ''person'', ''organizationalPerson'', ''inetOrgPerson'']),
           (''uid'', [ui_uid inp]), (''cn'', [ui_cn inp]), (''sn'', [ui_sn inp])] @
          add_optional ''givenName'' (ui_given inp) @ add_optional ''mail'' (ui_mail inp) @
          add_optional ''departmentNumber'' (ui_department inp) @ add_optional ''o'' (ui_organization inp) @
          add_optional ''ou'' (ui_unit inp) @
          (case pending of None \<Rightarrow> [] | Some (marker, policyDN) \<Rightarrow> [(''employeeType'', [marker]), (''pwdPolicySubentry'', [policyDN])]))))"

text \<open>A marker is never empty, so the test on it is the test whether there is one.\<close>

definition replaceOrClear :: "string \<Rightarrow> string \<Rightarrow> change" where
  "replaceOrClear attr v = (if v = '''' then ChReplace attr [] else ChReplace attr [v])"

definition live_ctx :: "domain_error option \<Rightarrow> domain_error + unit" where
  "live_ctx ctxErr = (case ctxErr of None \<Rightarrow> Inr () | Some e \<Rightarrow> Inl e)"

definition UpdateUser :: "client_lib \<Rightarrow> write_ctx \<Rightarrow> domain_error option \<Rightarrow> string \<Rightarrow> user_input \<Rightarrow> string \<Rightarrow> domain_error + ldap_request" where
  "UpdateUser K ctx ctxErr dn inp ifMatch =
     bindE (live_ctx ctxErr) (\<lambda>_.
     bindE (need (ui_cn inp \<noteq> '''' \<and> ui_sn inp \<noteq> '''') DInvalidInput) (\<lambda>_.
     bindE (writeRevisionControls (kl_compile K) ctx ifMatch ''inetOrgPerson'') (\<lambda>ctrls.
       Inr (ReqModify dn
         [ChReplace ''cn'' [ui_cn inp], ChReplace ''sn'' [ui_sn inp], replaceOrClear ''givenName'' (ui_given inp),
          replaceOrClear ''mail'' (ui_mail inp), replaceOrClear ''departmentNumber'' (ui_department inp),
          replaceOrClear ''o'' (ui_organization inp), replaceOrClear ''ou'' (ui_unit inp)] ctrls))))"

record patch_field =
  pf_clear :: bool
  pf_value :: string

record user_patch =
  up_cn :: "patch_field option"
  up_sn :: "patch_field option"
  up_given :: "patch_field option"
  up_mail :: "patch_field option"
  up_department :: "patch_field option"
  up_organization :: "patch_field option"
  up_unit :: "patch_field option"

definition user_patch_Empty :: "user_patch \<Rightarrow> bool" where
  "user_patch_Empty p \<longleftrightarrow> up_cn p = None \<and> up_sn p = None \<and> up_given p = None \<and> up_mail p = None \<and>
     up_department p = None \<and> up_organization p = None \<and> up_unit p = None"

definition patchAttr :: "string \<Rightarrow> patch_field option \<Rightarrow> change list" where
  "patchAttr attr f =
     (case f of None \<Rightarrow> [] | Some p \<Rightarrow> if pf_clear p then [ChReplace attr []] else [ChReplace attr [pf_value p]])"

definition userPatchModify :: "string \<Rightarrow> user_patch \<Rightarrow> string list \<Rightarrow> ldap_request" where
  "userPatchModify dn p ctrls =
     ReqModify dn (patchAttr ''cn'' (up_cn p) @ patchAttr ''sn'' (up_sn p) @ patchAttr ''givenName'' (up_given p) @
       patchAttr ''mail'' (up_mail p) @ patchAttr ''departmentNumber'' (up_department p) @ patchAttr ''o'' (up_organization p) @
       patchAttr ''ou'' (up_unit p)) ctrls"

definition removes :: "patch_field option \<Rightarrow> bool" where
  "removes f \<longleftrightarrow> (case f of None \<Rightarrow> False | Some p \<Rightarrow> pf_clear p \<or> pf_value p = '''')"

definition PatchUser :: "client_lib \<Rightarrow> write_ctx \<Rightarrow> domain_error option \<Rightarrow> string \<Rightarrow> user_patch \<Rightarrow> string \<Rightarrow> domain_error + ldap_request" where
  "PatchUser K ctx ctxErr dn p ifMatch =
     bindE (live_ctx ctxErr) (\<lambda>_.
     bindE (need (\<not> user_patch_Empty p) DInvalidInput) (\<lambda>_.
     bindE (need (\<not> removes (up_cn p) \<and> \<not> removes (up_sn p)) DInvalidInput) (\<lambda>_.
     bindE (writeRevisionControls (kl_compile K) ctx ifMatch ''inetOrgPerson'') (\<lambda>ctrls.
       Inr (userPatchModify dn p ctrls)))))"

definition DeleteUser :: "client_lib \<Rightarrow> write_ctx \<Rightarrow> domain_error option \<Rightarrow> string \<Rightarrow> string \<Rightarrow> domain_error + ldap_request" where
  "DeleteUser K ctx ctxErr dn ifMatch =
     bindE (live_ctx ctxErr) (\<lambda>_.
     bindE (writeRevisionControls (kl_compile K) ctx ifMatch ''inetOrgPerson'') (\<lambda>ctrls. Inr (ReqDelete dn ctrls)))"

definition SetPassword :: "domain_error option \<Rightarrow> string \<Rightarrow> string \<Rightarrow> string \<Rightarrow> domain_error + ldap_request" where
  "SetPassword ctxErr dn old new = bindE (live_ctx ctxErr) (\<lambda>_. Inr (ReqPassword dn old new))"

definition unlockModify :: "change list" where "unlockModify = [ChReplace ''pwdAccountLockedTime'' []]"

definition Unlock :: "client_lib \<Rightarrow> write_ctx \<Rightarrow> domain_error option \<Rightarrow> string \<Rightarrow> string \<Rightarrow> domain_error + ldap_request" where
  "Unlock K ctx ctxErr dn ifMatch =
     bindE (live_ctx ctxErr) (\<lambda>_.
     bindE (writeRevisionControls (kl_compile K) ctx ifMatch ''inetOrgPerson'') (\<lambda>ctrls. Inr (ReqModify dn unlockModify ctrls)))"

definition pwdAccountLockedTimeIndefinite :: string where "pwdAccountLockedTimeIndefinite = ''000001010000Z''"

definition lockModify :: "change list" where
  "lockModify = [ChReplace ''pwdAccountLockedTime'' [pwdAccountLockedTimeIndefinite]]"

definition machineLockModify :: "change list" where
  "machineLockModify = [ChAdd ''pwdAccountLockedTime'' [pwdAccountLockedTimeIndefinite]]"

definition Lock :: "client_lib \<Rightarrow> write_ctx \<Rightarrow> domain_error option \<Rightarrow> string \<Rightarrow> string \<Rightarrow> domain_error + ldap_request" where
  "Lock K ctx ctxErr dn ifMatch =
     bindE (live_ctx ctxErr) (\<lambda>_.
     bindE (writeRevisionControls (kl_compile K) ctx ifMatch ''inetOrgPerson'') (\<lambda>ctrls.
       Inr (ReqModify dn (if wx_machine ctx then machineLockModify else lockModify) ctrls)))"

subsection \<open>Groups\<close>

record group_input =
  gi_cn :: string
  gi_description :: string

definition CreateGroup :: "client_lib \<Rightarrow> write_ctx \<Rightarrow> domain_error option \<Rightarrow> string \<Rightarrow> string \<Rightarrow> group_input \<Rightarrow> domain_error + ldap_request" where
  "CreateGroup K ctx ctxErr boundDN base inp =
     bindE (live_ctx ctxErr) (\<lambda>_.
     bindE (need (gi_cn inp \<noteq> '''') DInvalidInput) (\<lambda>_.
     bindE (buildGroupDN K (gi_cn inp) base) (\<lambda>dn.
     bindE (groupSeedMember ctx boundDN) (\<lambda>seed.
       Inr (ReqAdd dn ([(''objectClass'', [''top'', ''groupOfNames'']), (''cn'', [gi_cn inp]), (''member'', [seed])] @
         add_optional ''description'' (gi_description inp)))))))"

definition UpdateGroup :: "client_lib \<Rightarrow> write_ctx \<Rightarrow> domain_error option \<Rightarrow> string \<Rightarrow> group_input \<Rightarrow> string \<Rightarrow> domain_error + ldap_request" where
  "UpdateGroup K ctx ctxErr dn inp ifMatch =
     bindE (live_ctx ctxErr) (\<lambda>_.
     bindE (need (gi_cn inp \<noteq> '''') DInvalidInput) (\<lambda>_.
     bindE (writeRevisionControls (kl_compile K) ctx ifMatch ''groupOfNames'') (\<lambda>ctrls.
       Inr (ReqModify dn [ChReplace ''cn'' [gi_cn inp], replaceOrClear ''description'' (gi_description inp)] ctrls))))"

record group_patch =
  gp_cn :: "patch_field option"
  gp_description :: "patch_field option"

definition groupPatchModify :: "string \<Rightarrow> group_patch \<Rightarrow> string list \<Rightarrow> ldap_request" where
  "groupPatchModify dn p ctrls = ReqModify dn (patchAttr ''cn'' (gp_cn p) @ patchAttr ''description'' (gp_description p)) ctrls"

definition PatchGroup :: "client_lib \<Rightarrow> write_ctx \<Rightarrow> domain_error option \<Rightarrow> string \<Rightarrow> group_patch \<Rightarrow> string \<Rightarrow> domain_error + ldap_request" where
  "PatchGroup K ctx ctxErr dn p ifMatch =
     bindE (live_ctx ctxErr) (\<lambda>_.
     bindE (need (\<not> (gp_cn p = None \<and> gp_description p = None)) DInvalidInput) (\<lambda>_.
     bindE (need (\<not> removes (gp_cn p)) DInvalidInput) (\<lambda>_.
     bindE (writeRevisionControls (kl_compile K) ctx ifMatch ''groupOfNames'') (\<lambda>ctrls. Inr (groupPatchModify dn p ctrls)))))"

definition DeleteGroup :: "client_lib \<Rightarrow> write_ctx \<Rightarrow> domain_error option \<Rightarrow> string \<Rightarrow> string \<Rightarrow> domain_error + ldap_request" where
  "DeleteGroup K ctx ctxErr dn ifMatch =
     bindE (live_ctx ctxErr) (\<lambda>_.
     bindE (writeRevisionControls (kl_compile K) ctx ifMatch ''groupOfNames'') (\<lambda>ctrls. Inr (ReqDelete dn ctrls)))"

definition AddMember :: "client_lib \<Rightarrow> write_ctx \<Rightarrow> domain_error option \<Rightarrow> string \<Rightarrow> string \<Rightarrow> string \<Rightarrow> domain_error + ldap_request" where
  "AddMember K ctx ctxErr grp member ifMatch =
     bindE (live_ctx ctxErr) (\<lambda>_.
     bindE (writeRevisionControls (kl_compile K) ctx ifMatch ''groupOfNames'') (\<lambda>ctrls.
       Inr (ReqModify grp [ChAdd ''member'' [member]] ctrls)))"

definition RemoveMember :: "client_lib \<Rightarrow> write_ctx \<Rightarrow> domain_error option \<Rightarrow> string \<Rightarrow> string \<Rightarrow> string \<Rightarrow> domain_error + ldap_request" where
  "RemoveMember K ctx ctxErr grp member ifMatch =
     bindE (live_ctx ctxErr) (\<lambda>_.
     bindE (writeRevisionControls (kl_compile K) ctx ifMatch ''groupOfNames'') (\<lambda>ctrls.
       Inr (ReqModify grp [ChDelete ''member'' [member]] ctrls)))"

end
