(* ===== verification/PremiseCheck.thy ===== *)
theory PremiseCheck
  imports PremiseAclProps WriteIdentity DirectoryWrites
begin

text \<open>
  The password premise: the verdicts of \<open>ldapclient/machine_write_premise_verdict.go\<close> and the checks and sweeps of
  \<open>ldapclient/machine_write_premise_ldap.go\<close> that feed them. What the directory answers is an argument (\<open>premise_answers\<close>,
  \<open>sweep_answers\<close>). An empty code is success.
\<close>

subsection \<open>Policies\<close>

datatype policy_kind = PolicyDefault | PolicyPending | PolicyAllowed

definition policyKindName :: "policy_kind \<Rightarrow> string" where
  "policyKindName k = (case k of PolicyDefault \<Rightarrow> ''default'' | PolicyPending \<Rightarrow> ''pending'' | PolicyAllowed \<Rightarrow> ''allowed'')"

definition policy_code :: "policy_kind \<Rightarrow> string \<Rightarrow> string" where
  "policy_code k attr = ''policy_'' @ policyKindName k @ ''_'' @ attr"

text \<open>The only value of an attribute.\<close>

definition only_value :: "cfg_lib \<Rightarrow> dir_entry \<Rightarrow> string \<Rightarrow> string option" where
  "only_value L e name = (let v = attrValues L e name in if length v \<noteq> 1 then None else Some (TrimSpace (v ! 0)))"

definition at_least :: "cfg_lib \<Rightarrow> dir_entry \<Rightarrow> string \<Rightarrow> int \<Rightarrow> bool" where
  "at_least L e name least \<longleftrightarrow>
     (case only_value L e name of None \<Rightarrow> False | Some v \<Rightarrow> (case ParseInt v 64 of None \<Rightarrow> False | Some n \<Rightarrow> least \<le> n))"

definition policyVerdict :: "cfg_lib \<Rightarrow> dir_entry option \<Rightarrow> policy_kind \<Rightarrow> int \<Rightarrow> string" where
  "policyVerdict L entry k minLength =
     (case entry of
        None \<Rightarrow> policy_code k ''unreadable''
      | Some e \<Rightarrow>
          if \<not> (case only_value L e ''pwdAttribute'' of None \<Rightarrow> False | Some v \<Rightarrow> cl_fold L v ''userPassword'' \<or> v = ''2.5.4.35'')
          then policy_code k ''attribute''
          else if \<not> at_least L e ''pwdMinLength'' minLength then policy_code k ''min_length''
          else if \<not> at_least L e ''pwdCheckQuality'' (if k = PolicyPending then 2 else 1) then policy_code k ''check_quality''
          else if k \<noteq> PolicyPending \<and> \<not> at_least L e ''pwdInHistory'' 1 then policy_code k ''in_history''
          else if k = PolicyDefault \<and> only_value L e ''pwdSafeModify'' \<noteq> Some ''TRUE'' then policy_code k ''safe_modify''
          else if k = PolicyPending \<and> only_value L e ''pwdSafeModify'' \<noteq> Some ''FALSE'' then policy_code k ''safe_modify''
          else '''')"

definition trimmed_values :: "cfg_lib \<Rightarrow> dir_entry \<Rightarrow> string \<Rightarrow> string list" where
  "trimmed_values L e name = map TrimSpace (attrValues L e name)"

definition off_or_absent :: "string list \<Rightarrow> string \<Rightarrow> bool" where
  "off_or_absent v off \<longleftrightarrow> v = [] \<or> v = [off]"

definition same_name :: "dn_lib \<Rightarrow> dn \<Rightarrow> string \<Rightarrow> bool" where
  "same_name D d other \<longleftrightarrow> (case dl_parse D other of None \<Rightarrow> True | Some p \<Rightarrow> dl_eq D p d)"

definition wcredPolicyVerdict :: "cfg_lib \<Rightarrow> string list \<Rightarrow> dir_entry option \<Rightarrow> string \<Rightarrow> string \<Rightarrow> string" where
  "wcredPolicyVerdict L subentries policy defaultDN pendingDN =
     (if length subentries \<noteq> 1 then ''wcred_policy_missing''
      else case dl_parse (cl_dn L) (TrimSpace (subentries ! 0)) of
        None \<Rightarrow> ''wcred_policy_missing''
      | Some d \<Rightarrow>
          if same_name (cl_dn L) d defaultDN \<or> same_name (cl_dn L) d pendingDN then ''wcred_policy_shared''
          else case policy of
            None \<Rightarrow> ''wcred_policy_unreadable''
          | Some e \<Rightarrow>
              if trimmed_values L e ''pwdLockout'' \<noteq> [''FALSE''] then ''wcred_policy_lockout''
              else if \<not> off_or_absent (trimmed_values L e ''pwdMaxFailure'') ''0'' then ''wcred_policy_max_failure''
              else if \<not> off_or_absent (trimmed_values L e ''pwdMaxAge'') ''0'' then ''wcred_policy_max_age''
              else if \<not> off_or_absent (trimmed_values L e ''pwdMustChange'') ''FALSE'' then ''wcred_policy_must_change''
              else '''')"

subsection \<open>The access log and the canaries\<close>

definition ldapResultCode :: "ldap_failure option \<Rightarrow> int" where
  "ldapResultCode err = (case err of None \<Rightarrow> 0 | Some (Code n _) \<Rightarrow> n | Some NoCode \<Rightarrow> -1)"

definition accesslogVerdict :: "nat \<Rightarrow> ldap_failure option \<Rightarrow> string" where
  "accesslogVerdict entries err =
     (if 0 < entries then ''accesslog_children_readable''
      else case err of
        None \<Rightarrow> ''''
      | Some (Code n _) \<Rightarrow>
          if n = 32 then '''' else if n = 4 then ''accesslog_children_readable'' else ''accesslog_unverifiable''
      | Some NoCode \<Rightarrow> ''accesslog_unverifiable'')"

datatype canary_probe = CanaryWithPassword | CanaryUnmarked | CanaryPendingShort | CanaryPendingHashed

definition canaryProbeName :: "canary_probe \<Rightarrow> string" where
  "canaryProbeName p =
     (case p of CanaryWithPassword \<Rightarrow> ''with_password'' | CanaryUnmarked \<Rightarrow> ''unmarked'' | CanaryPendingShort \<Rightarrow> ''pending_short''
      | CanaryPendingHashed \<Rightarrow> ''pending_hashed'')"

definition canary_expects :: "canary_probe \<Rightarrow> int" where
  "canary_expects p = (if p = CanaryPendingShort \<or> p = CanaryPendingHashed then 19 else 50)"

definition canaryVerdict :: "canary_probe \<Rightarrow> int \<Rightarrow> string" where
  "canaryVerdict p result =
     (if result = canary_expects p then ''''
      else if result = 0 then ''canary_'' @ canaryProbeName p @ ''_accepted''
      else ''canary_'' @ canaryProbeName p @ ''_unexpected'')"

subsection \<open>The checks\<close>

definition aclParams :: "cfg_lib \<Rightarrow> config \<Rightarrow> acl_params option" where
  "aclParams L c =
     (let D = cl_dn L; m = cf_machine c; w = mc_write m in
      case commonAncestor D (concat (map cd_dns (wc_subtrees w))) of
        None \<Rightarrow> None
      | Some write \<Rightarrow>
          (case commonAncestor D (concat (map cd_dns (wc_cred_subtrees w))) of
             None \<Rightarrow> None
           | Some cred \<Rightarrow>
               (case dl_parse D (bi_dn (wc_data w)) of
                  None \<Rightarrow> None
                | Some data \<Rightarrow>
                    if length data < 2 then None
                    else Some \<lparr> ap_machine = mc_bind_dn m, ap_data = bi_dn (wc_data w),
                      ap_lock = (if wc_lock_enabled w then bi_dn (wc_lock w) else ''''), ap_cred = bi_dn (wc_cred w),
                      ap_reader = bi_dn (wc_reader w), ap_system = cl_string L (tl data), ap_repl = ''cn=replicator,'' @ cf_base c,
                      ap_write = cl_string L write, ap_cred_base = cl_string L cred, ap_pending = wc_cred_pending_policy w,
                      ap_privileged = wc_privileged w \<rparr>)))"

text \<open>The answers of one check: to the binds under a name, to the subtree searches below a name, to the n-th read of the entry of a name,
  and to the probes of the n-th set of canaries on the entry of a name.\<close>

record premise_answers =
  pa_reader :: "string \<Rightarrow> bool"
  pa_config :: "string \<Rightarrow> dir_answer"
  pa_machine :: "string \<Rightarrow> bool"
  pa_read :: "nat \<Rightarrow> string \<Rightarrow> dir_answer"
  pa_log_entries :: "string \<Rightarrow> nat"
  pa_log_err :: "string \<Rightarrow> ldap_failure option"
  pa_log_done :: bool
  pa_cred :: "string \<Rightarrow> bool"
  pa_probe :: "nat \<Rightarrow> string \<Rightarrow> canary_probe \<Rightarrow> ldap_failure option"
  pa_probe_done :: "nat \<Rightarrow> canary_probe \<Rightarrow> bool"

definition CredPremiseMainDB :: string where "CredPremiseMainDB = ''olcDatabase={1}mdb,cn=config''"
definition credPremiseAccesslogBase :: string where "credPremiseAccesslogBase = ''cn=accesslog''"

definition is_main :: "dn_lib \<Rightarrow> dir_entry \<Rightarrow> bool" where
  "is_main D e \<longleftrightarrow>
     (case dl_parse D (le_dn e) of
        None \<Rightarrow> False
      | Some d \<Rightarrow> (case dl_parse D CredPremiseMainDB of None \<Rightarrow> False | Some main \<Rightarrow> dl_eq D d main))"

text \<open>The rules, the value of \<open>olcAddContentAcl\<close> and the default policy.\<close>

definition readConfig :: "cfg_lib \<Rightarrow> config \<Rightarrow> premise_answers \<Rightarrow> string + string list \<times> string list \<times> string" where
  "readConfig L c a =
     (if \<not> pa_reader a (bi_dn (wc_reader (mc_write (cf_machine c)))) then Inl ''reader_bind_failed''
      else case da_result (pa_config a CredPremiseMainDB) of
        Inl _ \<Rightarrow> Inl ''reader_unreadable''
      | Inr r \<Rightarrow>
          if da_after (pa_config a CredPremiseMainDB) \<or> sr_referrals r \<noteq> 0 then Inl ''reader_unreadable''
          else
            (let mains = filter (is_main (cl_dn L)) (sr_entries r);
                 defaults = concat (map (\<lambda>e. attrValues L e ''olcPPolicyDefault'') (filter (\<lambda>e. \<not> is_main (cl_dn L) e) (sr_entries r)))
             in if length mains \<noteq> 1 \<or> attrValues L (mains ! 0) ''olcAccess'' = [] then Inl ''reader_unreadable''
                else if length defaults \<noteq> 1 then Inl ''policy_default_unknown''
                else Inr (attrValues L (mains ! 0) ''olcAccess'', attrValues L (mains ! 0) ''olcAddContentAcl'', defaults ! 0)))"

definition policy_entry :: "dir_answer \<Rightarrow> dir_entry option" where
  "policy_entry a = (case readEntryAttr a of Inl _ \<Rightarrow> None | Inr e \<Rightarrow> Some e)"

fun policy_checks :: "cfg_lib \<Rightarrow> premise_answers \<Rightarrow> int \<Rightarrow> nat \<Rightarrow> (string \<times> policy_kind) list \<Rightarrow> string" where
  "policy_checks L a minLength n [] = ''''"
| "policy_checks L a minLength n ((name, k) # ks) =
     (let code = policyVerdict L (policy_entry (pa_read a n name)) k minLength in
      if code \<noteq> '''' then code else policy_checks L a minLength (n + 1) ks)"

text \<open>The policies read: the default, the pending one, the allowed ones; then the password writer's own.\<close>

definition policy_kinds :: "write_config \<Rightarrow> string \<Rightarrow> (string \<times> policy_kind) list" where
  "policy_kinds w defaultPolicy =
     (defaultPolicy, PolicyDefault) # (wc_cred_pending_policy w, PolicyPending) # map (\<lambda>name. (name, PolicyAllowed)) (wc_cred_policies w)"

definition wcred_check :: "cfg_lib \<Rightarrow> write_config \<Rightarrow> premise_answers \<Rightarrow> string \<Rightarrow> string" where
  "wcred_check L w a defaultPolicy =
     (let n = length (policy_kinds w defaultPolicy);
          subentries = (case policy_entry (pa_read a n (bi_dn (wc_cred w))) of None \<Rightarrow> [] | Some e \<Rightarrow> attrValues L e ''pwdPolicySubentry'');
          policy = (if length subentries = 1 then policy_entry (pa_read a (n + 1) (subentries ! 0)) else None)
      in wcredPolicyVerdict L subentries policy defaultPolicy (wc_cred_pending_policy w))"

definition checkAsMachine :: "cfg_lib \<Rightarrow> config \<Rightarrow> premise_answers \<Rightarrow> string \<Rightarrow> bool \<Rightarrow> string" where
  "checkAsMachine L c a defaultPolicy wcred =
     (let w = mc_write (cf_machine c) in
      case dl_parse (cl_dn L) defaultPolicy of
        None \<Rightarrow> ''policy_default_unknown''
      | Some def \<Rightarrow>
          (case dl_parse (cl_dn L) (wc_cred_pending_policy w) of
             None \<Rightarrow> ''policy_default_unknown''
           | Some pending \<Rightarrow>
               if dl_eq (cl_dn L) def pending then ''policy_pending_is_default''
               else if \<not> pa_machine a (mc_bind_dn (cf_machine c)) then ''machine_bind_failed''
               else if policy_checks L a (wc_cred_min_length w) 0 (policy_kinds w defaultPolicy) \<noteq> ''''
               then policy_checks L a (wc_cred_min_length w) 0 (policy_kinds w defaultPolicy)
               else if wcred \<and> wcred_check L w a defaultPolicy \<noteq> '''' then wcred_check L w a defaultPolicy
               else if pa_log_done a then ''accesslog_unverifiable''
               else accesslogVerdict (pa_log_entries a credPremiseAccesslogBase) (pa_log_err a credPremiseAccesslogBase)))"

definition all_probes :: "canary_probe list" where
  "all_probes = [CanaryWithPassword, CanaryUnmarked, CanaryPendingShort, CanaryPendingHashed]"

definition probe_target :: "cred_canary \<Rightarrow> canary_probe \<Rightarrow> string" where
  "probe_target x p =
     (case p of CanaryWithPassword \<Rightarrow> cc_password x | CanaryUnmarked \<Rightarrow> cc_unmarked x | CanaryPendingShort \<Rightarrow> cc_pending x
      | CanaryPendingHashed \<Rightarrow> cc_pending x)"

fun judge_probes :: "premise_answers \<Rightarrow> nat \<Rightarrow> cred_canary \<Rightarrow> canary_probe list \<Rightarrow> string" where
  "judge_probes a k x [] = ''''"
| "judge_probes a k x (p # ps) =
     (if pa_probe_done a k p then ''canary_'' @ canaryProbeName p @ ''_unexpected''
      else let code = canaryVerdict p (ldapResultCode (pa_probe a k (probe_target x p) p)) in if code \<noteq> '''' then code else judge_probes a k x ps)"

fun probe_sets :: "premise_answers \<Rightarrow> nat \<Rightarrow> cred_canary list \<Rightarrow> string" where
  "probe_sets a k [] = ''''"
| "probe_sets a k (x # xs) = (let code = judge_probes a k x all_probes in if code \<noteq> '''' then code else probe_sets a (k + 1) xs)"

definition probeCanaries :: "config \<Rightarrow> premise_answers \<Rightarrow> string" where
  "probeCanaries c a =
     (if \<not> pa_cred a (bi_dn (wc_cred (mc_write (cf_machine c)))) then ''wcred_bind_failed'' else probe_sets a 0 (wc_canaries (mc_write (cf_machine c))))"

definition premise_check :: "cfg_lib \<Rightarrow> config \<Rightarrow> premise_answers \<Rightarrow> bool \<Rightarrow> string" where
  "premise_check L c a canaries =
     (case aclParams L c of
        None \<Rightarrow> ''config_incomplete''
      | Some p \<Rightarrow>
          (case readConfig L c a of
             Inl code \<Rightarrow> code
           | Inr (values, addContent, defaultPolicy) \<Rightarrow>
               if compareCredACL (cl_dn L) values p \<noteq> '''' then compareCredACL (cl_dn L) values p
               else if length addContent \<noteq> 1 \<or> \<not> cl_fold L (TrimSpace (addContent ! 0)) ''TRUE'' then ''acl_add_content_acl_off''
               else if checkAsMachine L c a defaultPolicy canaries \<noteq> '''' then checkAsMachine L c a defaultPolicy canaries
               else if canaries then probeCanaries c a
               else ''''))"

subsection \<open>The sweeps\<close>

datatype sweep_kind = SweepStuck | SweepTTL | SweepOrphan | SweepForeign

definition sweepKinds :: "sweep_kind list" where "sweepKinds = [SweepStuck, SweepTTL, SweepOrphan, SweepForeign]"

definition sweep_name :: "sweep_kind \<Rightarrow> string" where
  "sweep_name k = (case k of SweepStuck \<Rightarrow> ''stuck'' | SweepTTL \<Rightarrow> ''ttl'' | SweepOrphan \<Rightarrow> ''orphan'' | SweepForeign \<Rightarrow> ''foreign'')"

text \<open>\<open>esc\<close> is go-ldap's \<open>EscapeFilter\<close>, \<open>cutoff\<close> the formatted time before which a pending account is abandoned.\<close>

definition sweepFilter :: "(string \<Rightarrow> string) \<Rightarrow> sweep_kind \<Rightarrow> string \<Rightarrow> string \<Rightarrow> string \<Rightarrow> string" where
  "sweepFilter esc k policyDN writerDN cutoff =
     (let pol = ''(pwdPolicySubentry='' @ esc policyDN @ '')'';
          mine = ''(creatorsName='' @ esc writerDN @ '')'';
          marker = ''(employeeType='' @ CredentialPendingPrefix @ ''*)''
      in case k of
           SweepStuck \<Rightarrow> ''(&'' @ pol @ mine @ ''(pwdChangedTime=*))''
         | SweepTTL \<Rightarrow> ''(&'' @ pol @ mine @ marker @ ''(!(pwdChangedTime=*))(createTimestamp<='' @ cutoff @ ''))''
         | SweepOrphan \<Rightarrow> ''(&'' @ pol @ mine @ ''(!'' @ marker @ ''))''
         | SweepForeign \<Rightarrow> ''(&'' @ pol @ ''(!'' @ mine @ ''))'')"

definition markerValue :: "string \<Rightarrow> bool" where
  "markerValue v \<longleftrightarrow> has_prefix v CredentialPendingPrefix \<and> validPendingTag (drop (length CredentialPendingPrefix) v)"

definition sweepCleanupModify :: "string list \<Rightarrow> string \<Rightarrow> change list" where
  "sweepCleanupModify employeeType policyDN =
     (let markers = filter markerValue employeeType in
      (if markers \<noteq> [] then [ChDelete ''employeeType'' markers] else []) @ [ChDelete ''pwdPolicySubentry'' [policyDN]])"

definition containsDN :: "dn_lib \<Rightarrow> string list \<Rightarrow> string \<Rightarrow> bool" where
  "containsDN D vs want \<longleftrightarrow>
     (case dl_parse D want of
        None \<Rightarrow> False
      | Some w \<Rightarrow> list_ex (\<lambda>v. case dl_parse D v of None \<Rightarrow> False | Some got \<Rightarrow> dl_eq D got w) vs)"

definition isCanary :: "dn_lib \<Rightarrow> string \<Rightarrow> string list \<Rightarrow> bool" where
  "isCanary D dn canaries \<longleftrightarrow>
     (case dl_parse D dn of
        None \<Rightarrow> False
      | Some got \<Rightarrow> list_ex (\<lambda>c. case dl_parse D c of None \<Rightarrow> False | Some want \<Rightarrow> dl_eq D got want) canaries)"

text \<open>The answers to one cleanup, by the name each request carries: the first Modify, the two reads, the second Modify. \<open>None\<close> of
  \<open>sweepRetryModify\<close> is done.\<close>

definition sweepRetryModify :: "dn_lib \<Rightarrow> string list \<Rightarrow> string list \<Rightarrow> string \<Rightarrow> change list option" where
  "sweepRetryModify D employeeType policies policyDN =
     (if \<not> containsDN D policies policyDN then None else Some (sweepCleanupModify employeeType policyDN))"

record clean_answers =
  ka_first :: "string \<Rightarrow> bool"
  ka_read :: "nat \<Rightarrow> string \<Rightarrow> dir_answer"
  ka_second :: "string \<Rightarrow> bool"

definition cleanSwept :: "cfg_lib \<Rightarrow> string \<Rightarrow> clean_answers \<Rightarrow> string \<Rightarrow> bool" where
  "cleanSwept L policy a name =
     (ka_first a name \<or>
      (case readEntryAttr (ka_read a 0 name) of
         Inl e \<Rightarrow> e = DNotFound
       | Inr now \<Rightarrow>
           (case sweepRetryModify (cl_dn L) (attrValues L now ''employeeType'') (attrValues L now ''pwdPolicySubentry'') policy of
              None \<Rightarrow> True
            | Some cs \<Rightarrow>
                ka_second a name \<and>
                (case readEntryAttr (ka_read a 1 name) of
                   Inl e \<Rightarrow> e = DNotFound
                 | Inr again \<Rightarrow>
                     sweepRetryModify (cl_dn L) (attrValues L again ''employeeType'') (attrValues L again ''pwdPolicySubentry'') policy = None))))"

record sweep_result =
  sw_found :: "sweep_kind \<Rightarrow> nat"
  sw_cleaned :: nat
  sw_code :: "string option"

definition sweep_fail :: "string \<Rightarrow> sweep_result \<Rightarrow> sweep_result" where
  "sweep_fail code r = (if sw_code r = None then r\<lparr> sw_code := Some code \<rparr> else r)"

text \<open>The answers of one round: to the binds, to the search below a name with a filter, and to the cleanup of the n-th entry of a kind;
  with the escaping of filter values and the formatted time the round uses.\<close>

record sweep_answers =
  wa_machine :: "string \<Rightarrow> bool"
  wa_escape :: "string \<Rightarrow> string"
  wa_cutoff :: string
  wa_search :: "string \<Rightarrow> string \<Rightarrow> dir_entry list option"
  wa_err :: "string \<Rightarrow> string \<Rightarrow> ldap_failure option"
  wa_done :: "sweep_kind \<Rightarrow> bool"
  wa_cred :: "string \<Rightarrow> bool"
  wa_clean :: "sweep_kind \<Rightarrow> nat \<Rightarrow> clean_answers"

definition sweep_asks :: "config \<Rightarrow> sweep_answers \<Rightarrow> sweep_kind \<Rightarrow> string" where
  "sweep_asks c a k =
     (let w = mc_write (cf_machine c) in sweepFilter (wa_escape a) k (wc_cred_pending_policy w) (bi_dn (wc_data w)) (wa_cutoff a))"

text \<open>One entry of a sweep. The result is \<open>Inl\<close> when the sweep returns at once, because W_cred cannot bind.\<close>

definition sweep_entry :: "cfg_lib \<Rightarrow> config \<Rightarrow> sweep_answers \<Rightarrow> bool \<Rightarrow> sweep_kind \<Rightarrow> nat \<Rightarrow> dir_entry \<Rightarrow> sweep_result \<Rightarrow>
    sweep_result + sweep_result" where
  "sweep_entry L c a clean k n e r =
     (let w = mc_write (cf_machine c) in
      if isCanary (cl_dn L) (le_dn e) (concat (map canary_DNs (wc_canaries w))) then Inr r
      else
        (let r1 = r\<lparr> sw_found := (sw_found r)(k := Suc (sw_found r k)) \<rparr> in
         if k = SweepForeign \<or> \<not> clean then Inr r1
         else if \<not> wa_cred a (bi_dn (wc_cred w)) then Inl (sweep_fail ''wcred_bind_failed'' r1)
         else if \<not> cleanSwept L (wc_cred_pending_policy w) (wa_clean a k n) (le_dn e)
         then Inr (sweep_fail (''sweep_'' @ sweep_name k @ ''_cleanup_failed'') r1)
         else Inr (r1\<lparr> sw_cleaned := Suc (sw_cleaned r1) \<rparr>)))"

fun sweep_entries :: "cfg_lib \<Rightarrow> config \<Rightarrow> sweep_answers \<Rightarrow> bool \<Rightarrow> sweep_kind \<Rightarrow> nat \<Rightarrow> dir_entry list \<Rightarrow> sweep_result \<Rightarrow>
    sweep_result + sweep_result" where
  "sweep_entries L c a clean k n [] r = Inr r"
| "sweep_entries L c a clean k n (e # es) r = bindE (sweep_entry L c a clean k n e r) (sweep_entries L c a clean k (n + 1) es)"

definition size_limited :: "ldap_failure option \<Rightarrow> bool" where
  "size_limited err \<longleftrightarrow> (case err of Some (Code n _) \<Rightarrow> n = 4 | _ \<Rightarrow> False)"

definition sweep_search :: "cfg_lib \<Rightarrow> config \<Rightarrow> sweep_answers \<Rightarrow> bool \<Rightarrow> sweep_kind \<Rightarrow> sweep_result \<Rightarrow> sweep_result + sweep_result" where
  "sweep_search L c a clean k r =
     (let err = wa_err a (cf_base c) (sweep_asks c a k); answer = wa_search a (cf_base c) (sweep_asks c a k) in
      if (err \<noteq> None \<and> \<not> size_limited err) \<or> answer = None \<or> wa_done a k
      then Inr (sweep_fail (''sweep_'' @ sweep_name k @ ''_unreadable'') r)
      else
        (let r1 = (if err \<noteq> None then sweep_fail (''sweep_'' @ sweep_name k @ ''_backlog'') r else r)
         in sweep_entries L c a clean k 0 (the answer) r1))"

definition empty_sweep :: sweep_result where
  "empty_sweep = \<lparr> sw_found = (\<lambda>k. 0), sw_cleaned = 0, sw_code = None \<rparr>"

definition CredSweep :: "cfg_lib \<Rightarrow> config \<Rightarrow> sweep_answers \<Rightarrow> bool \<Rightarrow> sweep_result" where
  "CredSweep L c a clean =
     (if \<not> wa_machine a (mc_bind_dn (cf_machine c)) then sweep_fail ''machine_bind_failed'' empty_sweep
      else case foldE (sweep_search L c a clean) sweepKinds empty_sweep of Inl r \<Rightarrow> r | Inr r \<Rightarrow> r)"

end
