(* ===== verification/PremiseGate.thy ===== *)
theory PremiseGate
  imports PremiseCheck ConfigWriteProps
begin

text \<open>
  The gate of the password operation (\<open>credGate\<close> of \<open>httpapi/machine_write_premise.go\<close>) over the checks and sweeps of \<open>PremiseCheck\<close>:
  the start-up run, the periodic cycle and the check before each write. A run is given by the moment it completes and what the
  directory answers to it; \<open>gate_reachable\<close> is the sequence of the runs of one process. Two runs of the ticker do not overlap.
\<close>

subsection \<open>What a passed check says\<close>
































subsection \<open>What a sweep that did not fail says\<close>





lemma sweep_fail_code [simp]: "sw_code (sweep_fail code r) \<noteq> None" "\<exists>y. sw_code (sweep_fail code r) = Some y"
  by (simp_all add: sweep_fail_def)

lemma sweep_fail_found [simp]: "sw_found (sweep_fail code r) = sw_found r"
  by (simp add: sweep_fail_def)

text \<open>A round never forgets a failure nor an entry it found.\<close>

definition grows :: "sweep_result \<Rightarrow> sweep_result \<Rightarrow> bool" where
  "grows r r' \<longleftrightarrow> (sw_code r' = None \<longrightarrow> sw_code r = None) \<and> (\<forall>k. sw_found r k \<le> sw_found r' k)"

lemma grows_refl [simp]: "grows r r"
  by (simp add: grows_def)


















subsection \<open>The gate\<close>


text \<open>\<open>cycle\<close> and \<open>done\<close>: the verdict of the last completed run and the moment it completed; and the configured period.\<close>

record cred_gate =
  cg_cycle :: string
  cg_done :: gtime
  cg_period :: duration


definition gate_set :: "gtime \<Rightarrow> string \<Rightarrow> cred_gate \<Rightarrow> cred_gate" where
  "gate_set now code g = g\<lparr> cg_cycle := code, cg_done := now \<rparr>"

text \<open>The start-up run: the checks with canaries, then a sweep that only reads. The second part is the error.\<close>

definition startup :: "cfg_lib \<Rightarrow> config \<Rightarrow> gtime \<Rightarrow> premise_answers \<Rightarrow> sweep_answers \<Rightarrow> cred_gate \<Rightarrow> cred_gate \<times> string option" where
  "startup L c now a s g =
     (let code = premise_check L c a True;
          sw = CredSweep L c s False;
          code = (if code \<noteq> '''' then code
                  else case sw_code sw of
                    Some failed \<Rightarrow> failed
                  | None \<Rightarrow> if 0 < sw_found sw SweepStuck then ''sweep_stuck_at_startup'' else '''')
      in (gate_set now code g, if code \<noteq> '''' then Some code else None))"

definition runCycle :: "cfg_lib \<Rightarrow> config \<Rightarrow> gtime \<Rightarrow> premise_answers \<Rightarrow> sweep_answers \<Rightarrow> cred_gate \<Rightarrow> cred_gate" where
  "runCycle L c now a s g =
     (let code = premise_check L c a True;
          sw = CredSweep L c s (code = '''')
      in gate_set now (if sw_code sw \<noteq> None \<and> code = '''' then the (sw_code sw) else code) g)"



text \<open>The runs of a process, newest first. A start-up that fails ends the process.\<close>

record premise_run =
  pr_first :: bool
  pr_at :: gtime
  pr_check :: premise_answers
  pr_sweep :: sweep_answers

inductive gate_reachable :: "cfg_lib \<Rightarrow> config \<Rightarrow> duration \<Rightarrow> premise_run list \<Rightarrow> cred_gate \<Rightarrow> bool" for L c period where
  started: "startup L c (pr_at r) (pr_check r) (pr_sweep r) \<lparr> cg_cycle = '''', cg_done = 0, cg_period = period \<rparr> = (g, None) \<Longrightarrow>
     pr_first r \<Longrightarrow> gate_reachable L c period [r] g"
| cycled: "gate_reachable L c period rs g \<Longrightarrow> \<not> pr_first r \<Longrightarrow>
     gate_reachable L c period (r # rs) (runCycle L c (pr_at r) (pr_check r) (pr_sweep r) g)"

inductive_cases gate_reachableE: "gate_reachable L c period rs g"

text \<open>Every code of a failure is a word.\<close>

lemma words_ne [simp]: "a @ b = '''' \<longleftrightarrow> a = '''' \<and> b = ''''"
  by simp

definition coded :: "sweep_result \<Rightarrow> bool" where
  "coded r \<longleftrightarrow> sw_code r \<noteq> Some ''''"


lemma coded_found [simp]: "coded (r\<lparr> sw_found := f \<rparr>) = coded r" "coded (r\<lparr> sw_cleaned := n \<rparr>) = coded r"
  by (simp_all add: coded_def)









lemma runCycle_at [simp]: "cg_done (runCycle L c now a s g) = now" "cg_period (runCycle L c now a s g) = cg_period g"
  by (simp_all add: runCycle_def Let_def gate_set_def)


subsection \<open>Before a password is written\<close>









end
