(* ===== verification/MachineServer.thy ===== *)
theory MachineServer
  imports WriteDemo ConfigDemo KeySourceProps MachineAuth PremiseGate
begin

text \<open>
  The server's machine side built from a loaded configuration: \<open>newMachineAuth\<close> (\<open>httpapi/machine.go\<close>),
  \<open>httpapi/machine_write_runtime.go\<close>, and their part of \<open>newServer\<close> (\<open>httpapi/server.go\<close>). A configuration that loads is one these
  accept, unless the identity provider names another issuer or the password premise fails, and what its ceilings promise holds of every
  name the running write pipeline acts on.

  The libraries, the clock and the directory, which no configuration sets, are those of the \<open>machine_auth\<close> and \<open>pipe_config\<close> the
  builders start from.
\<close>

subsection \<open>Authentication\<close>










subsection \<open>The write runtime\<close>





text \<open>A map filled from a list of entries: the last entry of a client counts.\<close>

definition dns_of :: "client_dns list \<Rightarrow> string \<Rightarrow> string list" where
  "dns_of entries cid = (case map_of (rev (map (\<lambda>e. (cd_id e, cd_dns e)) entries)) cid of None \<Rightarrow> [] | Some ds \<Rightarrow> ds)"

definition runtime_policies :: "config \<Rightarrow> string \<rightharpoonup> write_policy" where
  "runtime_policies c =
     (let w = mc_write (cf_machine c); guarded = machineWriteProtectedDNs c (cf_machine c) w in
      map_of (rev (map (\<lambda>e. (cd_id e, \<lparr> wp_subtrees = cd_dns e, wp_protected = guarded, wp_groups = dns_of (wc_groups w) (cd_id e),
                                        wp_cred_subtrees = dns_of (wc_cred_subtrees w) (cd_id e) \<rparr>)) (wc_subtrees w))))"


subsection \<open>Starting\<close>






subsection \<open>A configuration that loads is one the server can start with\<close>
















subsection \<open>What the running pipeline can reach\<close>





lemma runtime_policy:
  assumes "runtime_policies c cid = Some pol"
  obtains e where "e \<in> set (wc_subtrees (mc_write (cf_machine c)))" "cd_id e = cid" "wp_subtrees pol = cd_dns e"
    "wp_protected pol = machineWriteProtectedDNs c (cf_machine c) (mc_write (cf_machine c))"
  using map_of_SomeD [OF assms [unfolded runtime_policies_def Let_def]] by auto





text \<open>A protected name with a multi-valued RDN, which the loader accepts, protects everything: the client can write nothing.\<close>

lemma multivalued_protected_blocks:
  assumes "runtime_policies c cid = Some pol" "q \<in> set (machineWriteProtectedDNs c (cf_machine c) (mc_write (cf_machine c)))"
    "dl_parse D q = Some d" "rdn \<in> set d" "length rdn \<noteq> 1"
  shows "isProtected D pol raw"
proof -
  have "machineWriteDN D q = None" using assms(3-5) by (auto simp: machineWriteDN_def list_all_iff)
  moreover have "q \<in> set (wp_protected pol)" by (rule runtime_policy [OF assms(1)]) (use assms(2) in simp)
  ultimately show ?thesis by (force simp: isProtected_def list_ex_iff split: option.splits)
qed

subsection \<open>A run\<close>




















end
