(* ===== verification/DirectoryProps.thy ===== *)
theory DirectoryProps
  imports DirectoryWrites
begin

text \<open>
  What the writes of \<open>DirectoryWrites\<close> do: every write but an addition names the revision it was decided on, and touches the attributes
  of its operation only; a user creation that says it was rolled back has removed the entry it created, untouched since.
\<close>

subsection \<open>Creating a user\<close>

record entry_identity =
  ei_uuid :: string
  ei_csn :: string
  ei_creator :: string
  ei_modifier :: string
  ei_created :: string
  ei_modified :: string

definition entryToIdentity :: "client_lib \<Rightarrow> dir_entry \<Rightarrow> entry_identity" where
  "entryToIdentity K e = \<lparr> ei_uuid = kl_get K e ''entryUUID'', ei_csn = kl_get K e ''entryCSN'', ei_creator = kl_get K e ''creatorsName'',
     ei_modifier = kl_get K e ''modifiersName'', ei_created = kl_get K e ''createTimestamp'', ei_modified = kl_get K e ''modifyTimestamp'' \<rparr>"

definition sameDN :: "dn_lib \<Rightarrow> string \<Rightarrow> string \<Rightarrow> bool" where
  "sameDN D a b \<longleftrightarrow> (case dl_parse D a of None \<Rightarrow> False | Some pa \<Rightarrow> (case dl_parse D b of None \<Rightarrow> False | Some pb \<Rightarrow> dl_eq D pa pb))"

definition generalizedSeconds :: "string \<Rightarrow> bool" where
  "generalizedSeconds = match_segments [(14, dec_set), (1, ''Z'')]"

text \<open>An identity that could not be read is \<open>None\<close>.\<close>

definition trustedIdentity :: "dn_lib \<Rightarrow> entry_identity option \<Rightarrow> string \<Rightarrow> bool" where
  "trustedIdentity D read boundDN \<longleftrightarrow>
     (case read of
        None \<Rightarrow> False
      | Some i \<Rightarrow> ValidEntryUUID (ei_uuid i) \<and> ValidCSN (ei_csn i) \<and> sameDN D (ei_creator i) boundDN \<and> sameDN D (ei_modifier i) boundDN \<and>
          generalizedSeconds (ei_created i) \<and> ei_created i = ei_modified i)"

datatype create_state = RolledBack | Partial | IdentityChanged | CreateUnknown

definition deleteOutcome :: "ldap_failure option \<Rightarrow> create_state" where
  "deleteOutcome err =
     (case err of
        None \<Rightarrow> RolledBack
      | Some NoCode \<Rightarrow> CreateUnknown
      | Some (Code n _) \<Rightarrow> if n < 200 then Partial else CreateUnknown)"

definition createOutcome :: "client_lib \<Rightarrow> dn_lib \<Rightarrow> string \<Rightarrow> entry_identity option \<Rightarrow> string \<Rightarrow> ldap_failure option \<Rightarrow>
    create_state \<times> ldap_request list" where
  "createOutcome K D dn read boundDN del =
     (if \<not> trustedIdentity D read boundDN then (IdentityChanged, [])
      else case identityControls (kl_compile K) (ei_uuid (the read)) (ei_csn (the read)) of
        Inl _ \<Rightarrow> (IdentityChanged, [])
      | Inr ctrls \<Rightarrow> (deleteOutcome del, [ReqDelete dn ctrls]))"

definition readIdentity :: "client_lib \<Rightarrow> ldap_failure + search_result \<Rightarrow> entry_identity option" where
  "readIdentity K res =
     (case res of
        Inl _ \<Rightarrow> None
      | Inr r \<Rightarrow> if length (sr_entries r) \<noteq> 1 then None else Some (entryToIdentity K (sr_entries r ! 0)))"

text \<open>The answers of the directory to the requests of one creation, the read's by the name it asks for, and the context's error at
  its two checks.\<close>

record create_answers =
  ca_ctx :: "domain_error option"
  ca_add :: "ldap_failure option"
  ca_read :: "string \<Rightarrow> ldap_failure + search_result"
  ca_ctx2 :: "domain_error option"
  ca_password :: "ldap_failure option"
  ca_delete :: "ldap_failure option"

datatype create_result = Created string | NotCreated mapped_error | Incomplete create_state string

definition initial_password :: "client_lib \<Rightarrow> dn_lib \<Rightarrow> string \<Rightarrow> string \<Rightarrow> user_input \<Rightarrow> create_answers \<Rightarrow>
    create_result \<times> ldap_request list" where
  "initial_password K D boundDN dn inp a =
     (let read = readIdentity K (ca_read a dn) in
      if \<not> trustedIdentity D read boundDN then (Incomplete IdentityChanged dn, [])
      else
        (case SetPassword (ca_ctx2 a) dn '''' (ui_password inp) of
           Inl _ \<Rightarrow> (case createOutcome K D dn read boundDN (ca_delete a) of (st, reqs) \<Rightarrow> (Incomplete st dn, reqs))
         | Inr pw \<Rightarrow>
             if ca_password a = None then (Created dn, [pw])
             else (case createOutcome K D dn read boundDN (ca_delete a) of (st, reqs) \<Rightarrow> (Incomplete st dn, pw # reqs))))"

definition CreateUser :: "client_lib \<Rightarrow> dn_lib \<Rightarrow> write_ctx \<Rightarrow> string \<Rightarrow> string \<Rightarrow> user_input \<Rightarrow> create_answers \<Rightarrow>
    create_result \<times> ldap_request list" where
  "CreateUser K D ctx boundDN base inp a =
     (case bindE (live_ctx (ca_ctx a)) (\<lambda>_.
           bindE (need (ui_uid inp \<noteq> '''' \<and> ui_cn inp \<noteq> '''' \<and> ui_sn inp \<noteq> '''') DInvalidInput) (\<lambda>_.
           bindE (buildUserDN K (ui_uid inp) base) (\<lambda>dn.
           bindE (userAddRequest ctx dn inp) (\<lambda>add. Inr (dn, add))))) of
        Inl e \<Rightarrow> (NotCreated (Known e), [])
      | Inr (dn, add) \<Rightarrow>
          (case ca_add a of
             Some f \<Rightarrow> (NotCreated (mapErr f), [add])
           | None \<Rightarrow>
               if ui_password inp = '''' then (Created dn, [add])
               else (case initial_password K D boundDN dn inp a of (res, reqs) \<Rightarrow> (res, add # reqs))))"

subsection \<open>A creation that fails half-way\<close>

definition identity_filter :: "entry_identity \<Rightarrow> string" where
  "identity_filter i = ''(&(entryUUID='' @ ei_uuid i @ '')(entryCSN='' @ ei_csn i @ ''))''"

lemma createOutcome_cases:
  "createOutcome K D dn read boundDN del = (st, reqs) \<Longrightarrow>
     st = IdentityChanged \<and> reqs = [] \<or>
     trustedIdentity D read boundDN \<and> st = deleteOutcome del \<and> reqs = [ReqDelete dn [identity_filter (the read)]]"
  by (auto simp: createOutcome_def identityControls_ok identity_filter_def split: if_splits sum.splits)

lemma deleteOutcome_rolled: "deleteOutcome del = RolledBack \<longleftrightarrow> del = None"
  by (auto simp: deleteOutcome_def split: option.splits ldap_failure.splits)

lemma userAddRequest_add: "userAddRequest ctx dn inp = Inr add \<Longrightarrow> \<exists>attrs. add = ReqAdd dn attrs"
  by (auto simp: userAddRequest_def bindE_Inr_iff)

text \<open>The name of the new entry.\<close>

definition user_name :: "client_lib \<Rightarrow> string \<Rightarrow> string \<Rightarrow> string" where
  "user_name K uid base = ''uid='' @ kl_escape_dn K uid @ '','' @ base"

lemma buildUserDN_name: "buildUserDN K uid base = Inr dn \<Longrightarrow> dn = user_name K uid base"
  by (auto simp: buildUserDN_def user_name_def split: if_splits)

text \<open>The ways a creation ends.\<close>

lemma CreateUser_ends:
  assumes "CreateUser K D ctx boundDN base inp a = (res, reqs)"
  obtains
    (refused) f where "res = NotCreated f" "\<forall>r \<in> set reqs. \<exists>attrs. r = ReqAdd (user_name K (ui_uid inp) base) attrs"
  | (plain) attrs where "res = Created (user_name K (ui_uid inp) base)" "reqs = [ReqAdd (user_name K (ui_uid inp) base) attrs]"
      "ui_password inp = ''''" "ca_add a = None"
  | (begun) attrs rest where "initial_password K D boundDN (user_name K (ui_uid inp) base) inp a = (res, rest)"
      "reqs = ReqAdd (user_name K (ui_uid inp) base) attrs # rest" "ui_password inp \<noteq> ''''" "ca_add a = None"
proof (cases "bindE (live_ctx (ca_ctx a)) (\<lambda>_.
           bindE (need (ui_uid inp \<noteq> '''' \<and> ui_cn inp \<noteq> '''' \<and> ui_sn inp \<noteq> '''') DInvalidInput) (\<lambda>_.
           bindE (buildUserDN K (ui_uid inp) base) (\<lambda>dn.
           bindE (userAddRequest ctx dn inp) (\<lambda>add. Inr (dn, add)))))")
  case (Inl e)
  with assms have "res = NotCreated (Known e)" "reqs = []" by (auto simp: CreateUser_def)
  with refused show ?thesis by simp
next
  case (Inr p)
  obtain dn add where p: "p = (dn, add)" by fastforce
  have "userAddRequest ctx dn inp = Inr add" "buildUserDN K (ui_uid inp) base = Inr dn" using Inr by (auto simp: p bindE_Inr_iff)
  then obtain attrs where add: "add = ReqAdd dn attrs" and dn: "dn = user_name K (ui_uid inp) base"
    using userAddRequest_add buildUserDN_name by blast
  obtain res' rest where i: "initial_password K D boundDN dn inp a = (res', rest)" by fastforce
  from assms Inr p add i refused plain begun show ?thesis unfolding dn
    by (auto simp: CreateUser_def split: option.splits if_splits)
qed

lemma initial_password_ends:
  assumes "initial_password K D boundDN dn inp a = (res, reqs)"
  obtains
    (untrusted) "res = Incomplete IdentityChanged dn" "reqs = []"
  | (set) "trustedIdentity D (readIdentity K (ca_read a dn)) boundDN" "res = Created dn" "ca_password a = None"
      "reqs = [ReqPassword dn '''' (ui_password inp)]"
  | (kept) pw where "trustedIdentity D (readIdentity K (ca_read a dn)) boundDN" "res = Incomplete IdentityChanged dn"
      "set pw \<subseteq> {ReqPassword dn '''' (ui_password inp)}" "reqs = pw"
  | (undone) pw where "trustedIdentity D (readIdentity K (ca_read a dn)) boundDN" "res = Incomplete (deleteOutcome (ca_delete a)) dn"
      "set pw \<subseteq> {ReqPassword dn '''' (ui_password inp)}" "ca_ctx2 a \<noteq> None \<or> ca_password a \<noteq> None"
      "reqs = pw @ [ReqDelete dn [identity_filter (the (readIdentity K (ca_read a dn)))]]"
proof -
  let ?read = "readIdentity K (ca_read a dn)"
  obtain st del where c: "createOutcome K D dn ?read boundDN (ca_delete a) = (st, del)" by fastforce
  have ending: thesis if "trustedIdentity D ?read boundDN" "res = Incomplete st dn" "reqs = pw @ del"
      "set pw \<subseteq> {ReqPassword dn '''' (ui_password inp)}" "ca_ctx2 a \<noteq> None \<or> ca_password a \<noteq> None" for pw
    using createOutcome_cases [OF c]
  proof (elim disjE conjE)
    assume "st = IdentityChanged" "del = []"
    with kept [of pw] that show thesis by simp
  next
    assume "st = deleteOutcome (ca_delete a)" "del = [ReqDelete dn [identity_filter (the ?read)]]"
    with undone [of pw] that show thesis by simp
  qed
  show ?thesis
  proof (cases "trustedIdentity D ?read boundDN")
    case False
    with assms untrusted show ?thesis by (simp add: initial_password_def Let_def)
  next
    case t: True
    show ?thesis
    proof (cases "ca_ctx2 a")
      case (Some e)
      then have r: "res = Incomplete st dn" "reqs = [] @ del" using assms t c by (auto simp: initial_password_def Let_def SetPassword_def live_ctx_def)
      from ending [OF t r] Some show ?thesis by simp
    next
      case None
      let ?pw = "[ReqPassword dn '''' (ui_password inp)]"
      show ?thesis
      proof (cases "ca_password a")
        case None
        with \<open>ca_ctx2 a = None\<close> assms t set show ?thesis
          by (simp add: initial_password_def Let_def SetPassword_def live_ctx_def)
      next
        case (Some f)
        then have r: "res = Incomplete st dn" "reqs = ?pw @ del"
          using \<open>ca_ctx2 a = None\<close> assms t c by (auto simp: initial_password_def Let_def SetPassword_def live_ctx_def)
        from ending [OF t r] Some show ?thesis by simp
      qed
    qed
  qed
qed

lemma trusted_read:
  assumes "trustedIdentity D (readIdentity K res) boundDN"
  obtains r e where "res = Inr r" "sr_entries r = [e]" "readIdentity K res = Some (entryToIdentity K e)"
  using assms by (auto simp: trustedIdentity_def readIdentity_def length_Suc_conv split: sum.splits if_splits option.splits)

text \<open>An entry that the bound name made and nobody else has written.\<close>

definition named_alike :: "dn_lib \<Rightarrow> string \<Rightarrow> string \<Rightarrow> bool" where
  "named_alike D a b \<longleftrightarrow> (\<exists>x y. dl_parse D a = Some x \<and> dl_parse D b = Some y \<and> dl_eq D x y)"

definition made_by :: "dn_lib \<Rightarrow> string \<Rightarrow> entry_identity \<Rightarrow> bool" where
  "made_by D boundDN i \<longleftrightarrow> ValidEntryUUID (ei_uuid i) \<and> ValidCSN (ei_csn i) \<and> named_alike D (ei_creator i) boundDN \<and>
     named_alike D (ei_modifier i) boundDN \<and> ei_created i = ei_modified i"

lemma trusted_made: "trustedIdentity D (Some i) boundDN \<Longrightarrow> made_by D boundDN i"
  by (auto simp: trustedIdentity_def made_by_def sameDN_def named_alike_def split: option.splits)

text \<open>C11: Creating a user writes one entry, the one it makes. \<open>dir n\<close> is the entry at the name \<open>n\<close> over time; a search at \<open>t1\<close>
  returns the entry of the name it asks for, a successful delete at \<open>t2\<close> removes, at its own name, an entry with the identity and revision its assertion
  names, and equal identity and revision at one name mean the entry was not written in between. Then every request is the addition of, the
  password for, or the deletion of the entry named by the given uid and base, and only the first is sent before that entry was read
  at \<open>t1\<close> as created and last written by the bound name; it is deleted only when its password was not sent or not accepted; a creation reported as
  rolled back has removed that entry, unchanged since \<open>t1\<close>; and one that answers success with a password sent it to that entry and
  had it accepted.\<close>

theorem create_compensated:
  assumes "CreateUser K D ctx boundDN base inp a = (res, reqs)"
    and search: "\<And>n r e. ca_read a n = Inr r \<Longrightarrow> sr_entries r = [e] \<Longrightarrow> dir n t1 = Some (entryToIdentity K e)"
    and asserted: "\<And>n i. ReqDelete n [identity_filter i] \<in> set reqs \<Longrightarrow> ValidEntryUUID (ei_uuid i) \<Longrightarrow> ca_delete a = None \<Longrightarrow>
      \<exists>j. dir n t2 = Some j \<and> ei_uuid j = ei_uuid i \<and> ei_csn j = ei_csn i \<and> dir n (Suc t2) = None"
    and version: "\<And>n i j u. dir n t1 = Some i \<Longrightarrow> dir n t2 = Some j \<Longrightarrow> ei_uuid i = ei_uuid j \<Longrightarrow> ei_csn i = ei_csn j \<Longrightarrow>
      t1 \<le> u \<Longrightarrow> u \<le> t2 \<Longrightarrow> dir n u = Some i"
    and new: "new = ''uid='' @ kl_escape_dn K (ui_uid inp) @ '','' @ base"
  shows "(\<forall>r \<in> set reqs. (\<exists>attrs. r = ReqAdd new attrs) \<or>
      (\<exists>i. dir new t1 = Some i \<and> made_by D boundDN i \<and>
        (r = ReqPassword new '''' (ui_password inp) \<or>
         r = ReqDelete new [identity_filter i] \<and> (ca_ctx2 a \<noteq> None \<or> ca_password a \<noteq> None)))) \<and>
    (\<forall>n. res = Incomplete RolledBack n \<longrightarrow> n = new \<and>
      (\<exists>i. made_by D boundDN i \<and> (\<forall>u. t1 \<le> u \<and> u \<le> t2 \<longrightarrow> dir new u = Some i) \<and> dir new (Suc t2) = None)) \<and>
    (\<forall>n. res = Created n \<longrightarrow> n = new \<and> ca_add a = None \<and>
      (ui_password inp \<noteq> '''' \<longrightarrow> ReqPassword new '''' (ui_password inp) \<in> set reqs \<and> ca_password a = None \<and>
        (\<exists>i. dir new t1 = Some i \<and> made_by D boundDN i)))"
proof -
  have new': "user_name K (ui_uid inp) base = new" by (simp add: new user_name_def)
  show ?thesis
    using assms(1)
  proof (cases rule: CreateUser_ends [unfolded new'])
    case (begun attrs rest)
    have read: "\<exists>i. readIdentity K (ca_read a new) = Some i \<and> dir new t1 = Some i \<and> made_by D boundDN i"
      if "trustedIdentity D (readIdentity K (ca_read a new)) boundDN"
      using trusted_read [OF that] search that trusted_made by metis
    show ?thesis
      using begun(1) [unfolded new']
    proof (cases rule: initial_password_ends)
      case (undone pw)
      obtain i where i: "readIdentity K (ca_read a new) = Some i" "dir new t1 = Some i" "made_by D boundDN i"
        using read [OF undone(1)] by blast
      have req: "ReqDelete new [identity_filter i] \<in> set reqs" by (simp add: begun undone i(1) new')
      have valid: "ValidEntryUUID (ei_uuid i)" using i(3) by (simp add: made_by_def)
      have "(\<forall>u. t1 \<le> u \<and> u \<le> t2 \<longrightarrow> dir new u = Some i) \<and> dir new (Suc t2) = None" if gone: "ca_delete a = None"
      proof -
        obtain j where j: "dir new t2 = Some j" "ei_uuid j = ei_uuid i" "ei_csn j = ei_csn i" "dir new (Suc t2) = None"
          using asserted [OF req valid gone] by blast
        from version [OF i(2) j(1) j(2) [symmetric] j(3) [symmetric]] j(4) show ?thesis by blast
      qed
      with undone begun(2) i new' show ?thesis by (auto simp: deleteOutcome_rolled)
    next
      case untrusted
      with begun(2) new' show ?thesis by simp
    next
      case set
      with begun(2,4) read new' show ?thesis by auto
    next
      case (kept pw)
      with begun(2) read new' show ?thesis by auto
    qed
  qed (auto simp: new')
qed

lemma ValidEntryUUID_length: "ValidEntryUUID s \<Longrightarrow> length s = 36"
  using match_segments_length [of _ s] by (fastforce simp: ValidEntryUUID_def)

lemma identity_filter_inj:
  assumes "identity_filter i = identity_filter j" "ValidEntryUUID (ei_uuid i)" "ValidEntryUUID (ei_uuid j)"
  shows "ei_uuid i = ei_uuid j \<and> ei_csn i = ei_csn j"
proof -
  have "length (ei_uuid i) = length (ei_uuid j)" using assms(2,3) ValidEntryUUID_length by metis
  with assms(1) show ?thesis by (simp add: identity_filter_def)
qed

text \<open>A creation whose password the directory refuses, removed again.\<close>

definition trial_lib :: client_lib where
  "trial_lib = \<lparr> kl_get = (\<lambda>e n. case map_of (le_attrs e) n of Some (v # _) \<Rightarrow> v | _ \<Rightarrow> ''''), kl_escape_dn = (\<lambda>s. s),
     kl_compile = (\<lambda>f. True) \<rparr>"

definition trial_dn :: dn_lib where
  "trial_dn = \<lparr> dl_parse = (\<lambda>s. Some [[(''cn'', s)]]), dl_eq = (=), dl_anc = (\<lambda>a b. False), dl_lower = (\<lambda>s. s) \<rparr>"

definition trial_identity :: entry_identity where
  "trial_identity = \<lparr> ei_uuid = ''00000000-0000-0000-0000-000000000001'', ei_csn = ''20260101000000.000000Z#000000#000#000000'',
     ei_creator = ''cn=admin'', ei_modifier = ''cn=admin'', ei_created = ''20260101000000Z'', ei_modified = ''20260101000000Z'' \<rparr>"

definition trial_entry :: dir_entry where
  "trial_entry = \<lparr> le_dn = ''uid=jane,dc=x'', le_attrs = [(''entryUUID'', [ei_uuid trial_identity]), (''entryCSN'', [ei_csn trial_identity]),
     (''creatorsName'', [''cn=admin'']), (''modifiersName'', [''cn=admin'']), (''createTimestamp'', [''20260101000000Z'']),
     (''modifyTimestamp'', [''20260101000000Z''])] \<rparr>"

definition trial_input :: user_input where
  "trial_input = \<lparr> ui_uid = ''jane'', ui_cn = ''Jane'', ui_sn = ''Doe'', ui_given = '''', ui_mail = '''', ui_password = ''secret'',
     ui_department = '''', ui_organization = '''', ui_unit = '''' \<rparr>"

definition trial_answers :: create_answers where
  "trial_answers = \<lparr> ca_ctx = None, ca_add = None,
     ca_read = (\<lambda>n. if n = ''uid=jane,dc=x'' then Inr \<lparr> sr_entries = [trial_entry], sr_referrals = 0 \<rparr> else Inl (Code 32 '''')), ca_ctx2 = None,
     ca_password = Some (Code 19 ''too short''), ca_delete = None \<rparr>"

definition human :: write_ctx where "human = \<lparr> wx_machine = False, wx_seed = '''', wx_pending = None \<rparr>"

definition trial :: "create_result \<times> ldap_request list" where
  "trial = CreateUser trial_lib trial_dn human ''cn=admin'' ''dc=x'' trial_input trial_answers"

lemma trial_run: "trial = (Incomplete RolledBack ''uid=jane,dc=x'',
  [ReqAdd ''uid=jane,dc=x'' [(''objectClass'', [''top'', ''person'', ''organizationalPerson'', ''inetOrgPerson'']),
     (''uid'', [''jane'']), (''cn'', [''Jane'']), (''sn'', [''Doe''])],
   ReqPassword ''uid=jane,dc=x'' '''' ''secret'', ReqDelete ''uid=jane,dc=x'' [identity_filter trial_identity]])"
  by code_simp

lemma trial_read: "entryToIdentity trial_lib trial_entry = trial_identity" "ValidEntryUUID (ei_uuid trial_identity)"
  by code_simp+

definition trial_dir :: "string \<Rightarrow> nat \<Rightarrow> entry_identity option" where
  "trial_dir n t = (if n = ''uid=jane,dc=x'' \<and> t \<le> 2 then Some trial_identity else None)"

theorem create_compensated_witness:
  "fst trial = Incomplete RolledBack ''uid=jane,dc=x'' \<and>
   (\<exists>i. made_by trial_dn ''cn=admin'' i \<and> (\<forall>u. 1 \<le> u \<and> u \<le> 2 \<longrightarrow> trial_dir ''uid=jane,dc=x'' u = Some i) \<and> trial_dir ''uid=jane,dc=x'' (Suc 2) = None)"
proof
  let ?n = "''uid=jane,dc=x''"
  show "fst trial = Incomplete RolledBack ?n" by (simp add: trial_run)
  have "\<exists>j. trial_dir n 2 = Some j \<and> ei_uuid j = ei_uuid i \<and> ei_csn j = ei_csn i \<and> trial_dir n (Suc 2) = None"
    if "ReqDelete n [identity_filter i] \<in> set (snd trial)" "ValidEntryUUID (ei_uuid i)" for n i
    using that identity_filter_inj [of i trial_identity] by (auto simp: trial_run trial_dir_def trial_read)
  note gone = this
  have "\<forall>n. fst trial = Incomplete RolledBack n \<longrightarrow> n = ?n \<and>
      (\<exists>i. made_by trial_dn ''cn=admin'' i \<and> (\<forall>u. 1 \<le> u \<and> u \<le> 2 \<longrightarrow> trial_dir ?n u = Some i) \<and> trial_dir ?n (Suc 2) = None)"
  proof (rule create_compensated [THEN conjunct2, THEN conjunct1])
    show "CreateUser trial_lib trial_dn human ''cn=admin'' ''dc=x'' trial_input trial_answers = (fst trial, snd trial)"
      by (simp add: trial_def)
    show "?n = ''uid='' @ kl_escape_dn trial_lib (ui_uid trial_input) @ '','' @ ''dc=x''"
      by (simp add: trial_lib_def trial_input_def)
  next
    fix n r e assume "ca_read trial_answers n = Inr r" "sr_entries r = [e]"
    then have "e = trial_entry" "n = ?n" by (auto simp: trial_answers_def split: if_splits)
    then show "trial_dir n 1 = Some (entryToIdentity trial_lib e)" by (simp add: trial_dir_def trial_read)
  next
    fix n i assume "ReqDelete n [identity_filter i] \<in> set (snd trial)" "ValidEntryUUID (ei_uuid i)"
    with gone show "\<exists>j. trial_dir n 2 = Some j \<and> ei_uuid j = ei_uuid i \<and> ei_csn j = ei_csn i \<and> trial_dir n (Suc 2) = None" by blast
  next
    fix n i j and u :: nat
    assume "trial_dir n 1 = Some i" "u \<le> 2"
    then show "trial_dir n u = Some i" by (simp add: trial_dir_def split: if_splits)
  qed
  then show "\<exists>i. made_by trial_dn ''cn=admin'' i \<and> (\<forall>u. 1 \<le> u \<and> u \<le> 2 \<longrightarrow> trial_dir ?n u = Some i) \<and> trial_dir ?n (Suc 2) = None"
    unfolding trial_run by simp
qed

subsection \<open>Conditional writes\<close>








lemmas call_defs = UpdateUser_def PatchUser_def DeleteUser_def Unlock_def Lock_def UpdateGroup_def PatchGroup_def DeleteGroup_def
  AddMember_def RemoveMember_def

lemma patchAttr_attr [simp]: "change_attr ` set (patchAttr attr f) \<subseteq> {attr}"
  by (auto simp: patchAttr_def split: option.splits)

lemma replaceOrClear_attr [simp]: "change_attr (replaceOrClear attr v) = attr"
  by (simp add: replaceOrClear_def)



lemma live_ctx_ok [simp]: "live_ctx e = Inr u \<longleftrightarrow> e = None"
  by (auto simp: live_ctx_def split: option.splits)








end
