(* ===== verification/PremiseRules.thy ===== *)
theory PremiseRules
  imports PremiseAclProps ConfigDemo
begin

text \<open>
  Access rules that pass \<open>compareCredACL\<close>: the text each compiled rule matches, for the identities of one small directory.
\<close>

definition cred_params :: acl_params where
  "cred_params = \<lparr> ap_machine = ''cn=m,ou=system,dc=x'', ap_data = ''cn=w,ou=system,dc=x'', ap_lock = '''', ap_cred = ''cn=c,ou=system,dc=x'',
     ap_reader = ''cn=r,ou=system,dc=x'', ap_system = ''ou=system,dc=x'', ap_repl = ''cn=replicator,dc=x'', ap_write = ''ou=people,dc=x'',
     ap_cred_base = ''ou=people,dc=x'', ap_pending = ''cn=pending,ou=policies,dc=x'', ap_privileged = [''cn=admins,ou=groups,dc=x''] \<rparr>"

subsection \<open>Rules that match\<close>

text \<open>The text of a compiled rule, each group filled in: an empty name is any name.\<close>

definition fill :: "string \<Rightarrow> string" where "fill w = (if w = '''' then ''dc=x'' else w)"

definition render :: "aelem list \<Rightarrow> string" where
  "render es = concat (map (\<lambda>e. case e of Lit c \<Rightarrow> [c] | Group w \<Rightarrow> fill w) es)"

text \<open>Behind each group stands a byte that cannot belong to it, so the greedy match is the only one.\<close>

fun solid :: "aelem list \<Rightarrow> bool" where
  "solid [] \<longleftrightarrow> True"
| "solid (Lit c # es) \<longleftrightarrow> solid es"
| "solid (Group w # es) \<longleftrightarrow> list_all group_char (fill w) \<and> (case es of Lit c # _ \<Rightarrow> \<not> group_char c | _ \<Rightarrow> False) \<and> solid es"

lemma render_simps [simp]: "render [] = []" "render (Lit c # es) = c # render es" "render (Group w # es) = fill w @ render es"
  by (simp_all add: render_def)

lemma rule_match_render: "solid es \<Longrightarrow> rule_match es (render es) = Some (map fill (wants es))"
proof (induction es rule: solid.induct)
  case (3 w es)
  then obtain c es' where es: "es = Lit c # es'" "\<not> group_char c" by (auto split: list.splits aelem.splits)
  have t: "takeWhile group_char (fill w @ render es) = fill w"
    using 3 es by (auto simp: list_all_iff takeWhile_append)
  obtain n where n: "length (fill w) = Suc n" by (cases "fill w") (auto simp: fill_def split: if_splits)
  have r: "rev [1..<Suc (length (fill w))] = Suc n # rev [1..<Suc n]" by (simp add: n)
  have d: "drop (Suc n) (fill w @ render es) = render es" "take (Suc n) (fill w @ render es) = fill w" by (simp_all add: n [symmetric])
  show ?case using 3 by (simp only: render_simps rule_match.simps aelem.case t r first_some.simps d) (auto simp: wants_def)
qed auto

definition filled_names :: "dn_lib \<Rightarrow> string list \<Rightarrow> bool" where
  "filled_names D ws \<longleftrightarrow> list_all (\<lambda>w. name_matches D w (fill w)) ws"

lemma rule_render: "solid es \<Longrightarrow> filled_names D (wants es) \<Longrightarrow> aclRule_match D es (render es)"
  by (simp add: aclRule_match_def rule_match_render filled_names_def list_all2_map2 list_all2_same list_all_iff)

lemma block_render:
  assumes "list_all (\<lambda>es. solid es \<and> filled_names D (wants es)) block"
  shows "matchBlock D (map render (front @ block @ back)) (length front) block"
  using assms by (auto simp: matchBlock_def list_all_iff nth_append intro: rule_render)

subsection \<open>Rules as they are stored\<close>

text \<open>No white space but single blanks, none at the ends: reading such a rule changes nothing.\<close>

fun calm :: "string \<Rightarrow> bool" where
  "calm [] \<longleftrightarrow> True"
| "calm (c # s) \<longleftrightarrow> (reSpace c \<longrightarrow> c = CHR '' '' \<and> take 1 s \<noteq> '' '') \<and> calm s"

definition neat :: "string \<Rightarrow> bool" where
  "neat s \<longleftrightarrow> s \<noteq> '''' \<and> calm s \<and> \<not> asciiSpace (hd s) \<and> \<not> asciiSpace (last s)"

lemma squeeze_calm: "calm s \<Longrightarrow> squeeze s = s"
proof (induction s)
  case (Cons c s)
  show ?case
  proof (cases "reSpace c")
    case True
    with Cons have "c = CHR '' ''" "take 1 s \<noteq> '' ''" "squeeze s = s" by auto
    with True show ?thesis by (cases s) (auto split: list.splits char.splits bool.splits)
  qed (use Cons in simp)
qed simp

lemma collapse_neat: "neat s \<Longrightarrow> collapseSpace s = s"
  using TrimSpace_ends [of s] by (simp add: collapseSpace_def neat_def squeeze_calm)

fun numbered :: "nat \<Rightarrow> string list \<Rightarrow> string list" where
  "numbered k [] = []"
| "numbered k (r # rs) = (''{'' @ itoa k @ ''}'' @ r) # numbered (k + 1) rs"

lemma number_from_numbered: "list_all neat rs \<Longrightarrow> number_from k (numbered k rs) = Some rs"
proof (induction rs arbitrary: k)
  case (Cons r rs)
  let ?v = "''{'' @ itoa k @ ''}'' @ r"
  have r: "neat r" "list_all neat rs" using Cons.prems by simp_all
  have "\<not> asciiSpace (last ?v)" "\<not> asciiSpace (hd ?v)" using r(1) by (auto simp: neat_def asciiSpace_def)
  then have "TrimSpace ?v = ?v" using TrimSpace_ends [of ?v] by blast
  then show ?case using Cons.IH [OF r(2)] collapse_neat [OF r(1)] by (simp add: Let_def has_prefix_def)
qed simp

lemma stored_numbered: "list_all neat rs \<Longrightarrow> rs \<noteq> [] \<Longrightarrow> storedRules (numbered 0 rs) = Some rs"
  by (auto simp: storedRules_def number_from_numbered split: list.splits)

definition good_block :: "aelem list list \<Rightarrow> bool" where
  "good_block block \<longleftrightarrow> list_all (\<lambda>es. solid es \<and> filled_names simple_dn (wants es) \<and> neat (render es)) block"

definition cred_block :: "string list \<Rightarrow> aelem list list" where
  "cred_block ldif = compileBlock ldif (acl_tokens cred_params) (ap_privileged cred_params)"

lemma good_repl: "good_block (cred_block premiseReplRule)" by code_simp
lemma good_machine: "good_block (cred_block premiseMRules)" by code_simp
lemma good_data: "good_block (cred_block premiseDataRules)" by code_simp
lemma good_data_cred: "good_block (cred_block premiseDataCredRules)" by code_simp
lemma good_cred: "good_block (cred_block premiseCredRules)" by code_simp
lemma good_reader: "good_block (cred_block premiseReaderMainRules)" by code_simp

definition cred_rules :: "string list" where
  "cred_rules = map render (cred_block premiseReplRule @ cred_block premiseMRules @ data_block cred_params @ cred_block premiseCredRules @
     cred_block premiseReaderMainRules)"

lemma good_append: "good_block (a @ b) \<longleftrightarrow> good_block a \<and> good_block b"
  by (simp add: good_block_def)

lemma good_data_block: "good_block (data_block cred_params)"
  using good_data good_data_cred
  by (auto simp: data_block_def Let_def cred_block_def [symmetric] good_append good_block_def list_all_iff dest: in_set_takeD in_set_dropD)

lemma good_neat: "good_block b \<Longrightarrow> list_all neat (map render b)"
  by (simp add: good_block_def list_all_iff)

lemma good_match: "good_block b \<Longrightarrow> matchBlock simple_dn (map render (front @ b @ back)) (length front) b"
  by (rule block_render) (auto simp: good_block_def list_all_iff)

lemma cred_rules_pass: "compareCredACL simple_dn (numbered 0 cred_rules) cred_params = ''''"
proof -
  let ?R = "cred_block premiseReplRule" and ?M = "cred_block premiseMRules" and ?D = "data_block cred_params"
    and ?C = "cred_block premiseCredRules" and ?E = "cred_block premiseReaderMainRules"
  note good = good_repl good_machine good_data_block good_cred good_reader
  have n: "length ?R = 1" "length ?M = 3" using repl_length machine_length by (auto simp: cred_block_def one_per_rule)
  have "list_all neat cred_rules" using good good_neat unfolding cred_rules_def map_append list_all_append by blast
  moreover have "cred_rules \<noteq> []" using n by (auto simp: cred_rules_def)
  ultimately have s: "storedRules (numbered 0 cred_rules) = Some cred_rules" by (rule stored_numbered)
  have m: "matchBlock simple_dn cred_rules 0 ?R" "matchBlock simple_dn cred_rules 1 ?M" "matchBlock simple_dn cred_rules 4 ?D"
    "matchBlock simple_dn cred_rules (4 + length ?D) ?C" "matchBlock simple_dn cred_rules (4 + length ?D + length ?C) ?E"
    using good_match [OF good(1), of "[]" "?M @ ?D @ ?C @ ?E"] good_match [OF good(2), of ?R "?D @ ?C @ ?E"]
      good_match [OF good(3), of "?R @ ?M" "?C @ ?E"] good_match [OF good(4), of "?R @ ?M @ ?D" ?E]
      good_match [OF good(5), of "?R @ ?M @ ?D @ ?C" "[]"]
    by (simp_all add: cred_rules_def n add.assoc)
  have b: "movable_blocks cred_params = [?D]" by (simp add: movable_blocks_def cred_params_def)
  have "match_blocks simple_dn cred_rules 4 [?D] = Some (4 + length ?D)"
    using m(3) by (simp add: match_blocks.simps)
  with m show ?thesis by (simp add: compareCredACL_def s cred_block_def [symmetric] Let_def b)
qed

end
