(* ===== verification/PremiseDemo.thy ===== *)
theory PremiseDemo
  imports PremiseGate PremiseRules
begin

text \<open>
  An environment that loads with the password compartment on, and a directory that passes the premise: the configuration of \<open>ConfigDemo\<close>
  with one pending policy and one set of canaries.
\<close>

fun simple_join :: "dn \<Rightarrow> string" where
  "simple_join [] = ''''"
| "simple_join [r] = fst (hd r) @ ''='' @ snd (hd r)"
| "simple_join (r # rs) = fst (hd r) @ ''='' @ snd (hd r) @ '','' @ simple_join rs"

definition cred_lib :: cfg_lib where "cred_lib = simple_lib\<lparr> cl_string := simple_join \<rparr>"



text \<open>What it loads to.\<close>

definition cred_write :: write_config where
  "cred_write = simple_write\<lparr> wc_cred_enabled := True, wc_cred := \<lparr> bi_dn = ''cn=c,ou=system,dc=x'', bi_password = ''c'' \<rparr>,
     wc_reader := \<lparr> bi_dn = ''cn=r,ou=system,dc=x'', bi_password = ''r'' \<rparr>,
     wc_cred_subtrees := [\<lparr> cd_id = ''app'', cd_dns = [''ou=people,dc=x''] \<rparr>], wc_cred_min_length := 12, wc_cred_policies := [],
     wc_cred_pending_policy := ''cn=pending,ou=policies,dc=x'', wc_cred_rate := 1, wc_pending_ttl := 24 * hour_ns,
     wc_canaries := [\<lparr> cc_password = ''uid=c1,ou=people,dc=x'', cc_unmarked = ''uid=c2,ou=people,dc=x'', cc_pending = ''uid=c3,ou=people,dc=x'' \<rparr>] \<rparr>"

definition cred_config :: config where
  "cred_config = simple_config\<lparr> cf_machine := simple_machine\<lparr> mc_write := cred_write,
     mc_clients := [\<lparr> ml_id = ''app'', ml_scopes = [''directory.users.read'', ''directory.users.delete'', ''directory.users.password.write''] \<rparr>] \<rparr> \<rparr>"



subsection \<open>A directory on which the premise holds\<close>

definition found :: "dir_entry \<Rightarrow> dir_answer" where
  "found e = \<lparr> da_before = False, da_after = False, da_result = Inr \<lparr> sr_entries = [e], sr_referrals = 0 \<rparr> \<rparr>"

definition pass_policy :: "string \<Rightarrow> dir_entry" where
  "pass_policy safe = \<lparr> le_dn = '''', le_attrs = [(''pwdAttribute'', [''userPassword'']), (''pwdMinLength'', [''12'']), (''pwdCheckQuality'', [''2'']),
     (''pwdInHistory'', [''5'']), (''pwdSafeModify'', [safe])] \<rparr>"

definition config_answer :: "string list \<Rightarrow> dir_answer" where
  "config_answer rules = \<lparr> da_before = False, da_after = False, da_result = Inr \<lparr> sr_entries =
     [\<lparr> le_dn = ''olcDatabase={1}mdb,cn=config'', le_attrs = [(''olcAccess'', rules), (''olcAddContentAcl'', [''TRUE''])] \<rparr>,
      \<lparr> le_dn = ''olcOverlay={2}ppolicy,olcDatabase={1}mdb,cn=config'', le_attrs = [(''olcPPolicyDefault'', [''cn=default,ou=policies,dc=x''])] \<rparr>],
     sr_referrals = 0 \<rparr> \<rparr>"

definition pass_answers :: "string list \<Rightarrow> premise_answers" where
  "pass_answers rules = \<lparr> pa_reader = (\<lambda>name. True), pa_config = (\<lambda>name. config_answer rules), pa_machine = (\<lambda>name. True),
     pa_read = (\<lambda>n name. found (if name = ''cn=default,ou=policies,dc=x'' then pass_policy ''TRUE''
       else if name = ''cn=pending,ou=policies,dc=x'' then pass_policy ''FALSE''
       else if name = ''cn=c,ou=system,dc=x'' then \<lparr> le_dn = '''', le_attrs = [(''pwdPolicySubentry'', [''cn=wcred,ou=policies,dc=x''])] \<rparr>
       else \<lparr> le_dn = '''', le_attrs = [(''pwdLockout'', [''FALSE''])] \<rparr>)),
     pa_log_entries = (\<lambda>name. 0), pa_log_err = (\<lambda>name. None), pa_log_done = False, pa_cred = (\<lambda>name. True),
     pa_probe = (\<lambda>k name p. Some (Code (canary_expects p) '''')), pa_probe_done = (\<lambda>k p. False) \<rparr>"




lemma found_entry [simp]: "policy_entry (found e) = Some e"
  by (simp add: policy_entry_def readEntryAttr_def found_def noSuchObject_def)

lemma pass_reads [simp]: "pa_read (pass_answers rs) n ''cn=default,ou=policies,dc=x'' = found (pass_policy ''TRUE'')"
  "pa_read (pass_answers rs) n ''cn=pending,ou=policies,dc=x'' = found (pass_policy ''FALSE'')"
  "pa_read (pass_answers rs) n ''cn=c,ou=system,dc=x'' = found \<lparr> le_dn = '''', le_attrs = [(''pwdPolicySubentry'', [''cn=wcred,ou=policies,dc=x''])] \<rparr>"
  "pa_read (pass_answers rs) n ''cn=wcred,ou=policies,dc=x'' = found \<lparr> le_dn = '''', le_attrs = [(''pwdLockout'', [''FALSE''])] \<rparr>"
  "pa_machine (pass_answers rs) name" "\<not> pa_log_done (pass_answers rs)" "pa_log_entries (pass_answers rs) name = 0" "pa_log_err (pass_answers rs) name = None"
  by (simp_all add: pass_answers_def)






















subsection \<open>A password target\<close>

definition pass_target :: string where "pass_target = ''uid=jane,ou=people,dc=x''"
definition pass_tag :: string where "pass_tag = ''0123456789abcdef''"

text \<open>A directory with one entry of the target and one behind every other name, open to M only.\<close>

definition reads_of :: "dir_entry \<Rightarrow> dir_entry \<Rightarrow> dir_session" where
  "reads_of e rest = \<lparr> ds_conn = True, ds_bind = (\<lambda>name. name = mc_bind_dn (cf_machine cred_config)),
     ds_answer = (\<lambda>n name. found (if name = pass_target then e else rest)) \<rparr>"

definition identity_entry :: "string \<Rightarrow> string \<Rightarrow> dir_entry" where
  "identity_entry name uuid = \<lparr> le_dn = name, le_attrs = [(''entrydn'', [name]), (''entryuuid'', [uuid]), (''objectclass'', [''inetOrgPerson''])] \<rparr>"

definition target_session :: dir_session where
  "target_session = reads_of (identity_entry pass_target ''11111111-2222-3333-4444-555555555555'')
     (identity_entry ''cn=admin,dc=x'' ''11111111-2222-3333-4444-666666666666'')"

definition group_session :: dir_session where
  "group_session = reads_of \<lparr> le_dn = '''', le_attrs = [(''memberOf'', [''cn=staff,ou=groups,dc=x''])] \<rparr>
     \<lparr> le_dn = '''', le_attrs = [(''member'', [''uid=root,ou=people,dc=x''])] \<rparr>"

definition pending_session :: dir_session where
  "pending_session = reads_of \<lparr> le_dn = '''', le_attrs = [(''creatorsName'', [''cn=w,ou=system,dc=x'']),
     (''employeeType'', [CredentialPendingPrefix @ pass_tag]), (''pwdPolicySubentry'', [''cn=pending,ou=policies,dc=x'']),
     (''entryUUID'', [''u''])] \<rparr> (identity_entry '''' '''')"

lemma pass_target_checks:
  "check_target cred_lib cred_config (resolvedWriterDNs (mc_write (cf_machine cred_config))) target_session pass_target ''inetOrgPerson'' = Inr ()"
  "CheckNotPrivileged cred_lib cred_config group_session pass_target = Inr ()"
  "CheckCredentialPending cred_lib cred_config pending_session pass_target pass_tag = Inr ''u''"
  by code_simp+

lemma password_target_vouched_witness:
  "target_vouched cred_lib cred_config target_session pass_target ''inetOrgPerson'' \<and>
   unprivileged cred_lib [''cn=admins,ou=groups,dc=x''] group_session pass_target \<and>
   (\<exists>e. answered (ds_answer pending_session 0 pass_target) e \<and> pending_account cred_lib cred_config pass_tag ''u'' e)"
  using password_target_vouched [OF pass_target_checks] by (simp add: cred_config_def cred_write_def simple_write_def)

end
