(* ===== verification/Spec2Isabelle.thy ===== *)
theory Spec2Isabelle
  imports LoginLimiterProps PasswordLimiter BackupProps IdempotencyStore SchemaClasses SessionStore RevocationRefresh WriteDemo
    KeySourceProps MachineAuthProps SecretStore MachineServer DirectoryProps PremiseDemo
begin

text \<open>
  A verification library for the back end of ldapium, a web console and API for an OpenLDAP directory.
  The program is the Go module under \<open>src/ui/backend\<close>; file names below are relative to its \<open>internal\<close> directory.

  \<^bold>\<open>The program.\<close> The environment is read and checked once at the start (\<open>config\<close>); from it the server builds its components. People sign in with their directory password (\<open>httpapi/auth_handlers.go\<close>): the login limiter
  counts failures per address, the session store keeps the bound LDAP connection of every session. Machine clients
  come with a signed token: \<open>httpapi/machine.go\<close> throttles the address, verifies the token, asks the revocation
  snapshot and hands reads to the executor and writes to the write pipeline. Writes of both kinds may carry an
  idempotency key. A backup controller runs scheduled and manual jobs, in one process or split into a control and a worker process
  that share a directory. The schema component parses the directory's object classes.

  \<^bold>\<open>Theories.\<close> Every component has its data, its operations in the order of the source, an invariant or an abstract
  reading, and its properties.
  \<^item> \<open>GoPrelude\<close>, \<open>GoHeap\<close>, \<open>GoStrings\<close>, \<open>GoNumbers\<close>: time (nanoseconds since an epoch, with Go's saturating
    difference), maps and their size, \<open>container/heap\<close>, the string functions the program uses, decimal numbers.
  \<^item> \<open>LoginLimiter\<close>, \<open>LoginLimiterInv\<close>, \<open>LoginLimiterProps\<close>: \<open>httpapi/login_limiter.go\<close>. The table, its heap of
    deadlines, eviction and the admission decision, refined to a list of failures per address group.
  \<^item> \<open>PasswordLimiter\<close>: \<open>httpapi/password_limiter.go\<close>.
  \<^item> \<open>BackupJobs\<close>, \<open>BackupPrune\<close>, \<open>BackupStorage\<close>, \<open>BackupReconcile\<close>, \<open>BackupConnections\<close>, \<open>BackupManager\<close>,
    \<open>BackupOps\<close>, \<open>BackupInv\<close>, \<open>BackupSafety\<close>, \<open>BackupConfig\<close>, \<open>BackupProps\<close>: the package \<open>backup\<close>. Job records
    and retention, evidence on disk, what a restart concludes from it, secrets of connections, then the
    controller as operations on its state and the reachable histories of these operations.
  \<^item> \<open>Idempotency\<close>, \<open>IdempotencyStore\<close>: the package \<open>idempotency\<close>. Keys, fingerprints under a rotating key, the record
    store with its bounds; the locale \<open>fingerprinter\<close> is what the store asks of the keyring.
  \<^item> \<open>SchemaClasses\<close>: the package \<open>schema\<close>. Tokens, the definition parser and the inherited attributes.
  \<^item> \<open>SessionStore\<close>: \<open>session/store.go\<close>.
  \<^item> \<open>Revocation\<close>, \<open>RevocationProps\<close>, \<open>RevocationRefresh\<close>: \<open>machineauth/revocation.go\<close>,
    \<open>httpapi/machine_revocation.go\<close>, \<open>ldapclient/revocation.go\<close>. The snapshot, its sentinel, and the refresher as rounds.
  \<^item> \<open>MachineLimits\<close>: \<open>httpapi/machine_limiter.go\<close>, \<open>machine_write_limiter.go\<close>, \<open>machine_write_cred_limiter.go\<close>.
    \<open>Holders\<close>: who holds what such a limiter counts.
  \<^item> \<open>MachineSelect\<close>: \<open>httpapi/machine_select.go\<close>, cookie or bearer. \<open>MachineClaims\<close>: \<open>machineauth/claims.go\<close> and
    \<open>verifier.go\<close>, what a token must say. \<open>KeySource\<close>, \<open>KeySourceProps\<close>: \<open>machineauth/keyset.go\<close>, the signing keys; the worlds
    \<open>kw_reachable\<close> interleave lookups, refreshes, cancellations and the retry timer.
  \<^item> \<open>MachineAuth\<close>: the bearer path of \<open>httpapi/machine.go\<close> with the executor, as steps of one request on the shared
    state. \<open>MachineAuthSpec\<close>: the same path as one function, which the steps implement. \<open>MachineAuthProps\<close>: the
    properties of every world \<open>b_reachable\<close> (who is authorized, what is held, which requests count as failures).
  \<^item> \<open>WriteGuard\<close>: what may be written (\<open>httpapi/machine_write_guard.go\<close>, \<open>revocation_guard.go\<close>, \<open>machine_guard.go\<close>),
    revisions (\<open>domain/revision.go\<close>, \<open>httpapi/machine_conditional.go\<close>) and field validation.
  \<^item> \<open>WriteOps\<close>: the operation tables, scopes and closed bodies. \<open>WritePipeline\<close>: \<open>httpapi/machine_write_pipeline.go\<close>
    with the idempotency middleware and the executor, as one step function of one request on the shared state; \<open>mw_reachable\<close>
    are the worlds its interleavings reach. \<open>WriteSafety\<close> (authorization), \<open>WriteBounds\<close> (what a step takes and
    returns), \<open>WriteWorld\<close> (the limiters counted against the holders), \<open>WriteProps\<close> (the invariant of a reachable world and
    the order of a password change) and \<open>WriteDemo\<close> (a concrete run and the properties).
  \<^item> \<open>ConfigTypes\<close>, \<open>ConfigEnv\<close>, \<open>ConfigMachine\<close>, \<open>ConfigWrite\<close>, \<open>ConfigCred\<close>, \<open>ConfigLoad\<close>: the package \<open>config\<close>, in an
    error monad (\<open>bindE\<close>, \<open>need\<close>, \<open>foldE\<close>): the records, the readers of single variables, the machine settings, the writing
    identities and ceilings, the password compartment, then \<open>Load\<close>. \<open>ConfigProps\<close> and \<open>ConfigWriteProps\<close>: what holds of a configuration
    that loads. \<open>ConfigDemo\<close>: an environment that loads, evaluated.
  \<^item> \<open>SecretStore\<close>: \<open>config/secrets.go\<close>, the processes that create or read the stored secret as steps on one directory.
  \<^item> \<open>MachineServer\<close>: what \<open>httpapi/machine.go\<close>, \<open>machine_exec.go\<close> and \<open>machine_write_runtime.go\<close> build from a configuration; the machine
    part of \<open>newServer\<close> (\<open>httpapi/server.go\<close>) as \<open>start_machine\<close>, with the first key refresh (\<open>KeySet_Init\<close>) and the start-up run of the
    password premise, both of which can refuse; and the property that joins the parts: from the environment to what a running pipeline can write.
  \<^item> \<open>LdapEntry\<close>, \<open>DirectoryWrites\<close>, \<open>DirectoryProps\<close>: the package \<open>ldapclient\<close>, its writes. Entries and answers of a search, the
    assertion controls and the error map; the request each operation of \<open>users.go\<close> and \<open>groups.go\<close> sends; the creation of a user in
    two steps with its compensation (\<open>create_compensation.go\<close>), and the condition every write carries.
  \<^item> \<open>WriteIdentity\<close>: \<open>ldapclient/machine_write_identity.go\<close> and \<open>machine_write_cred.go\<close>, what a machine write reads of its target first.
  \<^item> \<open>PremiseAcl\<close>, \<open>PremiseAclProps\<close>, \<open>PremiseRules\<close>, \<open>PremiseCheck\<close>, \<open>PremiseGate\<close>, \<open>PremiseDemo\<close>: the premise of the password operation
    (\<open>ldapclient/machine_write_premise_*.go\<close>, \<open>httpapi/machine_write_premise.go\<close>). Access rules compared as text with the expected ones and
    what a match says of them; policies, access log, canaries and sweeps; the gate as the runs \<open>gate_reachable\<close> of a process; a
    directory on which all of it passes, evaluated.

  \<^bold>\<open>Names and answers.\<close> What a write request names is read off its query or body by \<open>request_names\<close> (\<open>WriteSafety\<close>), apart from the
  pipeline's own parsing, so that the authorization properties speak of the request. A directory connection answers by the name
  asked for: \<open>ds_bind\<close> and \<open>ds_answer\<close> of a session, \<open>pa_read\<close> and \<open>pa_probe\<close> of a premise check, \<open>wa_search\<close> of a sweep (by base and
  filter), \<open>ca_read\<close> of a creation; a read of another entry is another answer.

  \<^bold>\<open>How the model reads the code.\<close> A mutex or a channel section is one atomic operation; the clock is read once
  per operation and is an argument. A map whose order the code depends on (range loops) takes the order as an
  argument, quantified over all orders. \<open>int\<close> counters that the code bounds are integers; saturation and overflow are written
  out where the code guards against them (durations, retention sums, decimal parsing). Tokens of the client budget are
  rationals instead of \<open>float64\<close>. Code that is not in the repository is an argument: hashes and HMAC, \<open>encoding/json\<close>
  (\<open>json_lib\<close>), DN parsing and comparison of go-ldap (\<open>dn_lib\<close>), the directory's answers, the file system of the backup
  directory, random identifiers, and for the configuration (\<open>cfg_lib\<close>) URLs, CIDR blocks and the floating-point scaling of a fraction
  in a duration. \<open>return w, f(w)\<close> in \<open>config/machine_write.go\<close>, whose order Go leaves open, returns the record after the call.
  No property assumes anything of them beyond what its statement names.

  \<^bold>\<open>Bounds and fuel.\<close> No definition needs fuel: loops are structural, or are functions with a measure
  (the sift loops of the heap, retention, the schema inheritance walk, whose measure is the number of classes not yet visited).
  Histories are finite lists or inductive reachability.

  \<^bold>\<open>Not modelled.\<close> HTTP plumbing (routing, headers, rendering, cookies, CORS, the embedded front end), logging and metrics, process
  start and shutdown, TLS and dialling, the LDAP reads and listings (\<open>tree.go\<close>, \<open>search.go\<close>, \<open>policy.go\<close>, \<open>monitor.go\<close>), the Keycloak
  client's wire calls, the audit log reader, the sign-on with OpenID Connect. The manifest lists each with its reason.
\<close>

end
